(* ===== verification/L2_Prelude.thy ===== *)
theory L2_Prelude
  imports Main "HOL-Library.Word" "HOL-Library.Multiset"
begin

text \<open>
  Shared vocabulary of the development: the machine types of the C code, the result type that
  carries its fatal exits, the collections of rewrite rules the component theories add to, and
  the generic facts about lists, modular distances and bit strings that several components use.

  A C buffer with its length argument (\<open>char *buffer, int size\<close>) is a list of bytes, whose length
  is \<open>size\<close>. A C \<open>int\<close> that holds a size, a sequence number or an offset is an \<open>int\<close>; a counter
  or a clock the code declares with a width (\<open>uint32_t\<close>, \<open>uint64_t\<close>) is a word of that width.
\<close>

type_synonym byte = "8 word"
type_synonym u32 = "32 word"
type_synonym u64 = "64 word"

named_theorems layout_simps \<open>unfolding of the configuration predicates and header sizes\<close>
named_theorems enc_simps \<open>the bit encoder and decoder on byte-aligned positions\<close>

section \<open>Results\<close>

text \<open>
  The ways a C function of the model stops without returning: \<open>Exit_fatal\<close> is \<open>exit(1)\<close>,
  \<open>Assert_failed\<close> is \<open>AssertFatal\<close> or \<open>DevAssert\<close>, \<open>Null_deref\<close> is a read through a null
  pointer, \<open>Out_of_bounds\<close> an access outside an allocated block, \<open>Endless_loop\<close> a loop whose
  condition never becomes false. \<open>Decode_error\<close> is not a crash: it is the jump to the label
  \<open>err\<close> that the macro \<open>R\<close> of the PDU parsers makes.
\<close>

datatype c_error =
    Exit_fatal
  | Assert_failed
  | Null_deref
  | Out_of_bounds
  | Endless_loop
  | Decode_error

type_synonym 'a res = "c_error + 'a"

definition rbind :: "'a res \<Rightarrow> ('a \<Rightarrow> 'b res) \<Rightarrow> 'b res" where
  "rbind m f = (case m of Inl e \<Rightarrow> Inl e | Inr x \<Rightarrow> f x)"

lemma rbind_Inr [simp]: "rbind (Inr x) f = f x"
  by (simp add: rbind_def)

lemma rbind_Inl [simp]: "rbind (Inl e) f = Inl e"
  by (simp add: rbind_def)

lemma rbind_eq_Inr: "rbind m f = Inr y \<longleftrightarrow> (\<exists>x. m = Inr x \<and> f x = Inr y)"
  by (cases m) auto

lemma rbind_eq_Inl: "rbind m f = Inl e \<longleftrightarrow> m = Inl e \<or> (\<exists>x. m = Inr x \<and> f x = Inl e)"
  by (cases m) auto

lemma rbind_assoc [simp]: "rbind (rbind m f) g = rbind m (\<lambda>x. rbind (f x) g)"
  by (cases m) auto

lemma rbind_cong [fundef_cong]:
  "m = m' \<Longrightarrow> (\<And>x. m' = Inr x \<Longrightarrow> f x = f' x) \<Longrightarrow> rbind m f = rbind m' f'"
  by (cases m') auto

definition rcheck :: "bool \<Rightarrow> c_error \<Rightarrow> unit res" where
  "rcheck b e = (if b then Inr () else Inl e)"

lemma rcheck_simps [simp]:
  "rcheck True e = Inr ()"
  "rcheck False e = Inl e"
  "rcheck b e = Inr u \<longleftrightarrow> b"
  by (simp_all add: rcheck_def)

text \<open>Reading through an optional pointer.\<close>

definition c_deref :: "'a option \<Rightarrow> 'a res" where
  "c_deref x = (case x of None \<Rightarrow> Inl Null_deref | Some y \<Rightarrow> Inr y)"

section \<open>Lists\<close>

text \<open>Overwriting a slice of a buffer, as \<open>memcpy(buffer + off, data, length)\<close> does.\<close>

definition splice :: "'a list \<Rightarrow> nat \<Rightarrow> 'a list \<Rightarrow> 'a list" where
  "splice buf off xs = take off buf @ xs @ drop (off + length xs) buf"

lemma length_splice [simp]:
  "off + length xs \<le> length buf \<Longrightarrow> length (splice buf off xs) = length buf"
  by (simp add: splice_def)

lemma take_splice [simp]: "off \<le> length buf \<Longrightarrow> take off (splice buf off xs) = take off buf"
  by (simp add: splice_def)

lemma take_splice_all:
  "off + length xs \<le> length buf \<Longrightarrow>
   take (off + length xs) (splice buf off xs) = take off buf @ xs"
  by (simp add: splice_def)

definition c_memcpy :: "byte list \<Rightarrow> nat \<Rightarrow> byte list \<Rightarrow> byte list res" where
  "c_memcpy buf off xs =
     (if off + length xs \<le> length buf then Inr (splice buf off xs) else Inl Out_of_bounds)"

lemma c_memcpy_ok [simp]:
  "off + length xs \<le> length buf \<Longrightarrow> c_memcpy buf off xs = Inr (splice buf off xs)"
  by (simp add: c_memcpy_def)

lemma c_memcpy_eq_Inr:
  "c_memcpy buf off xs = Inr b \<longleftrightarrow> off + length xs \<le> length buf \<and> b = splice buf off xs"
  by (auto simp: c_memcpy_def)

text \<open>
  A read of \<open>n\<close> bytes at \<open>off\<close> from an allocated block; outside the block it is undefined.
\<close>

definition c_read :: "byte list \<Rightarrow> int \<Rightarrow> int \<Rightarrow> byte list res" where
  "c_read buf off n =
     (if 0 \<le> off \<and> 0 \<le> n \<and> off + n \<le> int (length buf)
      then Inr (take (nat n) (drop (nat off) buf)) else Inl Out_of_bounds)"

lemma c_read_ok:
  "0 \<le> off \<Longrightarrow> 0 \<le> n \<Longrightarrow> off + n \<le> int (length buf) \<Longrightarrow>
   c_read buf off n = Inr (take (nat n) (drop (nat off) buf))"
  by (simp add: c_read_def)

lemma sum_list_map_filter_le:
  fixes f :: "'a \<Rightarrow> int"
  assumes "\<And>x. x \<in> set xs \<Longrightarrow> 0 \<le> f x"
  shows "sum_list (map f (filter P xs)) \<le> sum_list (map f xs)"
  using assms by (induction xs) (auto simp: add_increasing)

lemma sum_list_nonneg_int:
  fixes f :: "'a \<Rightarrow> int"
  shows "(\<And>x. x \<in> set xs \<Longrightarrow> 0 \<le> f x) \<Longrightarrow> 0 \<le> sum_list (map f xs)"
  by (induction xs) auto

section \<open>Ordered insertion\<close>

text \<open>
  The insertion loop the reception and transmission lists share: \<open>x\<close> goes in front of the
  first element it is strictly before, which \<open>goes_before x y\<close> tests.
\<close>

fun insert_before :: "('a \<Rightarrow> 'a \<Rightarrow> bool) \<Rightarrow> 'a \<Rightarrow> 'a list \<Rightarrow> 'a list" where
  "insert_before goes_before x [] = [x]"
| "insert_before goes_before x (y # ys) =
     (if goes_before x y then x # y # ys else y # insert_before goes_before x ys)"

lemma mset_insert_before [simp]: "mset (insert_before b x ys) = add_mset x (mset ys)"
  by (induction ys) auto

lemma set_insert_before [simp]: "set (insert_before b x ys) = insert x (set ys)"
  by (induction ys) auto

lemma length_insert_before [simp]: "length (insert_before b x ys) = Suc (length ys)"
  by (induction ys) auto

lemma insert_before_not_Nil [simp]: "insert_before b x ys \<noteq> []"
  by (cases ys) auto

lemma sum_list_insert_before [simp]:
  fixes f :: "'a \<Rightarrow> int"
  shows "sum_list (map f (insert_before b x ys)) = f x + sum_list (map f ys)"
  by (induction ys) auto

lemma insert_before_at_end:
  "(\<And>y. y \<in> set ys \<Longrightarrow> \<not> b x y) \<Longrightarrow> insert_before b x ys = ys @ [x]"
  by (induction ys) auto

text \<open>
  Insertion keeps a list sorted for every reflexive, transitive \<open>le\<close> that agrees with the
  test on the elements involved.
\<close>

lemma sorted_wrt_insert_before:
  assumes "sorted_wrt le ys"
    and "\<And>y. y \<in> set ys \<Longrightarrow> b x y \<Longrightarrow> le x y"
    and "\<And>y. y \<in> set ys \<Longrightarrow> \<not> b x y \<Longrightarrow> le y x"
    and "\<And>y z. y \<in> set ys \<Longrightarrow> z \<in> set ys \<Longrightarrow> le x y \<Longrightarrow> le y z \<Longrightarrow> le x z"
  shows "sorted_wrt le (insert_before b x ys)"
  using assms
proof (induction ys)
  case Nil
  then show ?case by simp
next
  case (Cons y ys)
  show ?case
  proof (cases "b x y")
    case True
    then have "le x y" using Cons.prems(2) by simp
    moreover have "\<forall>z \<in> set ys. le x z"
      using Cons.prems(1) \<open>le x y\<close> Cons.prems(4)[of y] by auto
    ultimately show ?thesis using True Cons.prems(1) by simp
  next
    case False
    then have "le y x" using Cons.prems(3) by simp
    moreover have "sorted_wrt le (insert_before b x ys)"
      by (rule Cons.IH) (use Cons.prems in \<open>auto\<close>)
    ultimately show ?thesis using False Cons.prems(1) by auto
  qed
qed

section \<open>Distances on a circle of sequence numbers\<close>

text \<open>
  The entities order sequence numbers by their distance from a moving base, computed with one
  conditional addition of the modulus. On numbers already reduced this is the remainder.
\<close>

definition circ_dist :: "int \<Rightarrow> int \<Rightarrow> int \<Rightarrow> int" where
  "circ_dist m base a = (a - base) mod m"

lemma circ_dist_cond:
  assumes "0 \<le> a" "a < m" "0 \<le> base" "base < m"
  shows "circ_dist m base a = (if a - base < 0 then a - base + m else a - base)"
proof (cases "a - base < 0")
  case True
  have "(a - base) mod m = (a - base + m) mod m" by simp
  also have "\<dots> = a - base + m" by (rule mod_pos_pos_trivial) (use True assms in auto)
  finally show ?thesis using True by (simp add: circ_dist_def)
next
  case False
  then show ?thesis using assms by (simp add: circ_dist_def mod_pos_pos_trivial)
qed

lemma circ_dist_range: "0 < m \<Longrightarrow> 0 \<le> circ_dist m b a \<and> circ_dist m b a < m"
  by (simp add: circ_dist_def)

lemma circ_dist_self [simp]: "circ_dist m b b = 0"
  by (simp add: circ_dist_def)

lemma circ_dist_inj:
  assumes "circ_dist m b x = circ_dist m b y" "0 \<le> x" "x < m" "0 \<le> y" "y < m"
  shows "x = y"
proof -
  have "(x - b + b) mod m = (y - b + b) mod m"
    using assms(1) unfolding circ_dist_def by (metis mod_add_left_eq)
  then show ?thesis using assms(2-) by simp
qed

lemma circ_dist_add: "circ_dist m b ((b + k) mod m) = k mod m"
  by (simp add: circ_dist_def mod_diff_left_eq)

lemma circ_dist_Suc:
  assumes "0 < m" "circ_dist m b x + 1 < m"
  shows "circ_dist m b ((x + 1) mod m) = circ_dist m b x + 1"
proof -
  have "circ_dist m b ((x + 1) mod m) = (x + 1 - b) mod m"
    by (simp add: circ_dist_def mod_diff_left_eq)
  also have "\<dots> = ((x - b) mod m + 1) mod m"
    by (simp only: mod_add_left_eq) (simp add: algebra_simps)
  also have "\<dots> = circ_dist m b x + 1"
    using assms by (simp add: circ_dist_def mod_pos_pos_trivial)
  finally show ?thesis .
qed

text \<open>Moving the base forward to a point \<open>b'\<close> shifts the distances beyond it.\<close>

lemma circ_dist_rebase:
  assumes "0 < m" "circ_dist m b b' \<le> circ_dist m b x"
  shows "circ_dist m b' x = circ_dist m b x - circ_dist m b b'"
proof -
  have "circ_dist m b' x = ((x - b) - (b' - b)) mod m" by (simp add: circ_dist_def)
  also have "\<dots> = ((x - b) mod m - (b' - b) mod m) mod m" by (simp add: mod_diff_eq)
  also have "\<dots> = circ_dist m b x - circ_dist m b b'"
  proof (rule trans[OF mod_pos_pos_trivial])
    have "(x - b) mod m < m" "0 \<le> (b' - b) mod m" using assms(1) by simp_all
    then show "(x - b) mod m - (b' - b) mod m < m" by linarith
  qed (use assms in \<open>auto simp: circ_dist_def\<close>)
  finally show ?thesis .
qed

end
