(* ===== verification/Time_Stat.thy ===== *)
theory Time_Stat
  imports L2_Prelude Complex_Main
begin

text \<open>
  \<open>common/utils/time_stat.c\<close>: the sliding-window average the RLC entities keep of the time an
  SDU waits before its first transmission. The samples live in a ring buffer that doubles when
  it is full; the theory shows that the ring refines a plain queue of samples.

  The clock read of \<open>time_average_now\<close> is an argument of the operations that make it. The
  fresh part of a block grown by \<open>realloc\<close> holds no meaningful value; it is modelled by zero
  samples, which no operation reads before writing. The quotient of \<open>time_average_get_average\<close>
  is the exact rational, before the rounding of \<open>double\<close>.
\<close>

record time_value =
  tv_time :: u64
  tv_value :: u64

record time_average =
  ta_duration :: int
  ta_head :: nat
  ta_tail :: nat
  ta_buffer :: "time_value list"
  ta_maxsize :: nat
  ta_size :: nat
  ta_accumulated_value :: u64

definition zero_sample :: time_value where
  "zero_sample = \<lparr>tv_time = 0, tv_value = 0\<rparr>"

unbundle bit_operations_syntax

definition time_average_new :: "int \<Rightarrow> nat \<Rightarrow> time_average res" where
  "time_average_new duration initial_size =
     (if int initial_size AND (int initial_size - 1) \<noteq> 0 then Inl Exit_fatal
      else Inr \<lparr>ta_duration = duration, ta_head = initial_size - 1, ta_tail = 0,
                ta_buffer = replicate initial_size zero_sample, ta_maxsize = initial_size,
                ta_size = 0, ta_accumulated_value = 0\<rparr>)"

definition time_average_reset :: "time_average \<Rightarrow> time_average" where
  "time_average_reset t =
     t\<lparr>ta_head := ta_maxsize t - 1, ta_tail := 0, ta_size := 0, ta_accumulated_value := 0\<rparr>"

text \<open>
  \<open>remove_old\<close>: the loop drops the sample at the tail while it is older than the window. The
  subtraction \<open>time - t->duration\<close> converts the duration to \<open>uint64_t\<close>.
\<close>

function remove_old :: "time_average \<Rightarrow> u64 \<Rightarrow> time_average" where
  "remove_old t time =
     (if ta_size t \<noteq> 0 \<and> tv_time (ta_buffer t ! ta_tail t) < time - word_of_int (ta_duration t)
      then remove_old
             (t\<lparr>ta_accumulated_value :=
                  ta_accumulated_value t - tv_value (ta_buffer t ! ta_tail t),
                ta_size := ta_size t - 1,
                ta_tail := (ta_tail t + 1) mod ta_maxsize t\<rparr>) time
      else t)"
  by pat_completeness auto
termination
  by (relation "measure (\<lambda>(t, time). ta_size t)") auto

declare remove_old.simps [simp del]

text \<open>The growing of a full ring: samples that had wrapped around move behind the old end.\<close>

definition time_average_grow :: "time_average \<Rightarrow> time_average" where
  "time_average_grow t =
     (if ta_size t = ta_maxsize t then
        let t1 = t\<lparr>ta_maxsize := 2 * ta_maxsize t,
                   ta_buffer := ta_buffer t @ replicate (ta_maxsize t) zero_sample\<rparr>
        in if ta_head t1 < ta_tail t1
           then t1\<lparr>ta_buffer := splice (ta_buffer t1) (ta_size t) (take (ta_head t1 + 1) (ta_buffer t1)),
                   ta_head := ta_head t1 + ta_size t\<rparr>
           else t1
      else t)"

definition time_average_add :: "time_average \<Rightarrow> u64 \<Rightarrow> u64 \<Rightarrow> time_average" where
  "time_average_add t0 time value =
     (let t = time_average_grow (remove_old t0 time);
          h = (ta_head t + 1) mod ta_maxsize t
      in t\<lparr>ta_head := h,
           ta_buffer := (ta_buffer t)[h := \<lparr>tv_time = time, tv_value = value\<rparr>],
           ta_size := ta_size t + 1,
           ta_accumulated_value := ta_accumulated_value t + value\<rparr>)"

definition time_average_get_average :: "time_average \<Rightarrow> u64 \<Rightarrow> rat \<times> time_average" where
  "time_average_get_average t0 time =
     (let t = remove_old t0 time
      in (if ta_size t = 0 then 0
          else of_nat (unat (ta_accumulated_value t)) / of_nat (ta_size t), t))"

text \<open>
  \<open>time_average_now\<close> from the seconds and nanoseconds of \<open>clock_gettime\<close>, rounded to the
  nearest microsecond; the failure of the call is the fatal exit of the code.
\<close>

definition time_average_now :: "(u64 \<times> nat) option \<Rightarrow> u64 res" where
  "time_average_now clock =
     (case clock of
        None \<Rightarrow> Inl Exit_fatal
      | Some (tv_sec, tv_nsec) \<Rightarrow>
          let ret = tv_sec * 1000000 + of_nat (tv_nsec div 1000)
          in Inr (if 500 \<le> tv_nsec mod 1000 then ret + 1 else ret))"

section \<open>The ring as a queue\<close>

definition ring_inv :: "time_average \<Rightarrow> bool" where
  "ring_inv t \<longleftrightarrow>
     0 < ta_maxsize t \<and> length (ta_buffer t) = ta_maxsize t \<and> ta_size t \<le> ta_maxsize t
     \<and> ta_tail t < ta_maxsize t \<and> ta_head t < ta_maxsize t
     \<and> (ta_tail t + ta_size t) mod ta_maxsize t = (ta_head t + 1) mod ta_maxsize t"

definition ring_abs :: "time_average \<Rightarrow> time_value list" where
  "ring_abs t =
     map (\<lambda>i. ta_buffer t ! ((ta_tail t + i) mod ta_maxsize t)) [0..<ta_size t]"

definition sample_sum :: "time_value list \<Rightarrow> u64" where
  "sample_sum vs = sum_list (map tv_value vs)"

definition time_average_inv :: "time_average \<Rightarrow> bool" where
  "time_average_inv t \<longleftrightarrow> ring_inv t \<and> ta_accumulated_value t = sample_sum (ring_abs t)"

lemma length_ring_abs [simp]: "length (ring_abs t) = ta_size t"
  by (simp add: ring_abs_def)

lemma ring_abs_pop:
  assumes "ring_inv t" "ta_size t \<noteq> 0"
  shows "ring_abs t = ta_buffer t ! ta_tail t #
     ring_abs (t\<lparr>ta_accumulated_value := a, ta_size := ta_size t - 1,
                 ta_tail := (ta_tail t + 1) mod ta_maxsize t\<rparr>)"
proof -
  obtain n where n: "ta_size t = Suc n" using assms by (cases "ta_size t") auto
  have "((ta_tail t + 1) mod ta_maxsize t + i) mod ta_maxsize t = (ta_tail t + Suc i) mod ta_maxsize t"
    for i by (simp add: mod_add_left_eq)
  then show ?thesis
    using assms n by (simp add: ring_abs_def ring_inv_def upt_conv_Cons map_Suc_upt[symmetric] del: upt_Suc)
qed

lemma ring_inv_pop:
  assumes "ring_inv t" "ta_size t \<noteq> 0"
  shows "ring_inv (t\<lparr>ta_accumulated_value := a, ta_size := ta_size t - 1,
                     ta_tail := (ta_tail t + 1) mod ta_maxsize t\<rparr>)"
proof -
  obtain n where n: "ta_size t = Suc n" using assms by (cases "ta_size t") auto
  have "((ta_tail t + 1) mod ta_maxsize t + n) mod ta_maxsize t
      = (ta_tail t + Suc n) mod ta_maxsize t"
    by (simp add: mod_add_left_eq)
  then show ?thesis using assms n by (simp add: ring_inv_def)
qed

lemma remove_old_props:
  "time_average_inv t \<Longrightarrow>
   time_average_inv (remove_old t time) \<and>
   ring_abs (remove_old t time) =
     dropWhile (\<lambda>s. tv_time s < time - word_of_int (ta_duration t)) (ring_abs t)"
proof (induction t time rule: remove_old.induct)
  case (1 t time)
  let ?c = "ta_size t \<noteq> 0 \<and> tv_time (ta_buffer t ! ta_tail t) < time - word_of_int (ta_duration t)"
  let ?t = "t\<lparr>ta_accumulated_value := ta_accumulated_value t - tv_value (ta_buffer t ! ta_tail t),
                ta_size := ta_size t - 1, ta_tail := (ta_tail t + 1) mod ta_maxsize t\<rparr>"
  show ?case
  proof (cases ?c)
    case True
    have inv: "ring_inv t" and acc: "ta_accumulated_value t = sample_sum (ring_abs t)"
      using 1(2) by (simp_all add: time_average_inv_def)
    have pop: "ring_abs t = ta_buffer t ! ta_tail t # ring_abs ?t"
      by (rule ring_abs_pop[OF inv conjunct1[OF True]])
    have "sample_sum (ring_abs t) = tv_value (ta_buffer t ! ta_tail t) + sample_sum (ring_abs ?t)"
      by (subst pop) (simp add: sample_sum_def)
    then have "sample_sum (ring_abs t) - tv_value (ta_buffer t ! ta_tail t)
        = sample_sum (ring_abs ?t)" by (metis add_diff_cancel_left')
    then have "ta_accumulated_value ?t = sample_sum (ring_abs ?t)"
      by (subst (asm) acc[symmetric]) simp
    then have "time_average_inv ?t"
      unfolding time_average_inv_def using ring_inv_pop[OF inv conjunct1[OF True]] by blast
    then have "time_average_inv (remove_old ?t time) \<and>
        ring_abs (remove_old ?t time) =
          dropWhile (\<lambda>s. tv_time s < time - word_of_int (ta_duration ?t)) (ring_abs ?t)"
      by (rule 1(1)[OF True])
    moreover have "remove_old t time = remove_old ?t time"
      using True by (subst remove_old.simps) simp
    moreover have "dropWhile (\<lambda>s. tv_time s < time - word_of_int (ta_duration t)) (ring_abs t)
        = dropWhile (\<lambda>s. tv_time s < time - word_of_int (ta_duration t)) (ring_abs ?t)"
      using True by (subst pop) simp
    ultimately show ?thesis by simp
  next
    case False
    then have "remove_old t time = t" by (subst remove_old.simps) auto
    moreover have "dropWhile (\<lambda>s. tv_time s < time - word_of_int (ta_duration t)) (ring_abs t) = ring_abs t"
    proof (cases "ta_size t = 0")
      case True
      then show ?thesis by (simp add: ring_abs_def)
    next
      case nz: False
      then obtain rest where "ring_abs t = ta_buffer t ! ta_tail t # rest"
        using 1(2) ring_abs_pop[of t] unfolding time_average_inv_def by blast
      then show ?thesis using False nz by simp
    qed
    ultimately show ?thesis using 1(2) by simp
  qed
qed

text \<open>Growing keeps the queue: the wrapped samples are found behind the old end.\<close>

lemma grow_noop: "ta_size t \<noteq> ta_maxsize t \<Longrightarrow> time_average_grow t = t"
  by (simp add: time_average_grow_def)

lemma grow_props:
  assumes "ring_inv t"
  shows "ring_inv (time_average_grow t) \<and> ring_abs (time_average_grow t) = ring_abs t
    \<and> ta_size (time_average_grow t) < ta_maxsize (time_average_grow t)
    \<and> ta_accumulated_value (time_average_grow t) = ta_accumulated_value t"
proof (cases "ta_size t = ta_maxsize t")
  case False
  then show ?thesis using assms by (simp add: grow_noop ring_inv_def)
next
  case full: True
  let ?m = "ta_maxsize t"
  let ?g = "time_average_grow t"
  have m: "0 < ?m" "length (ta_buffer t) = ?m" "ta_tail t < ?m" "ta_head t < ?m"
    using assms by (simp_all add: ring_inv_def)
  have adj: "ta_tail t = (ta_head t + 1) mod ?m"
    using assms full m by (simp add: ring_inv_def)
  have small: "a mod (2 * ?m) = a" if "a < 2 * ?m" for a :: nat using that by simp
  have one: "(ta_tail t + i) mod ?m = (if ta_tail t + i < ?m then ta_tail t + i else ta_tail t + i - ?m)"
    if "i < ?m" for i using that m by (auto simp: mod_if)
  show ?thesis
  proof (cases "ta_head t < ta_tail t")
    case True
    then have t1: "ta_tail t = ta_head t + 1" using adj m by (auto simp: mod_if split: if_splits)
    have g: "?g = t\<lparr>ta_maxsize := 2 * ?m, ta_head := ta_head t + ?m,
        ta_buffer := splice (ta_buffer t @ replicate ?m zero_sample) ?m
                       (take (ta_head t + 1) (ta_buffer t))\<rparr>"
      using full True m by (simp add: time_average_grow_def Let_def)
    have len: "length (ta_buffer ?g) = 2 * ?m" using m by (simp add: g)
    have "ta_buffer ?g ! ((ta_tail t + i) mod (2 * ?m)) = ta_buffer t ! ((ta_tail t + i) mod ?m)"
      if "i < ?m" for i
    proof -
      have "Suc (ta_head t + i) mod ?m
          = (if Suc (ta_head t + i) < ?m then Suc (ta_head t + i) else Suc (ta_head t + i) - ?m)"
        using one[OF that] t1 by simp
      then show ?thesis
        using that m t1 by (auto simp: g splice_def nth_append small)
    qed
    then have "ring_abs ?g = ring_abs t" using full by (simp add: g ring_abs_def)
    moreover have "ring_inv ?g" using m full t1 len by (simp add: ring_inv_def g)
    ultimately show ?thesis using full m by (simp add: g)
  next
    case False
    then have t0: "ta_tail t = 0" "ta_head t + 1 = ?m" using adj m by (auto simp: mod_if split: if_splits)
    have g: "?g = t\<lparr>ta_maxsize := 2 * ?m, ta_buffer := ta_buffer t @ replicate ?m zero_sample\<rparr>"
      using full False by (simp add: time_average_grow_def Let_def)
    have "ring_abs ?g = ring_abs t" using full m t0 by (auto simp: g ring_abs_def nth_append)
    moreover have "ring_inv ?g" using m full t0 by (simp add: ring_inv_def g)
    ultimately show ?thesis using full m by (simp add: g)
  qed
qed

text \<open>Writing behind the last sample of a ring that is not full appends to the queue.\<close>

lemma ring_push:
  fixes s :: time_value and a :: u64
  assumes "ring_inv t" "ta_size t < ta_maxsize t"
  defines "h \<equiv> (ta_head t + 1) mod ta_maxsize t"
  defines "t' \<equiv> t\<lparr>ta_head := h, ta_buffer := (ta_buffer t)[h := s], ta_size := ta_size t + 1,
                    ta_accumulated_value := a\<rparr>"
  shows "ring_inv t' \<and> ring_abs t' = ring_abs t @ [s]"
proof -
  let ?m = "ta_maxsize t"
  have m: "0 < ?m" "length (ta_buffer t) = ?m" "ta_tail t < ?m" "ta_head t < ?m"
    and hh: "h = (ta_tail t + ta_size t) mod ?m"
    using assms by (simp_all add: ring_inv_def)
  have "h < ?m" using m by (simp add: h_def)
  have ne: "(ta_tail t + i) mod ?m \<noteq> h" if "i < ta_size t" for i
    using that assms(2) m unfolding hh by (auto simp: mod_if split: if_splits)
  have "ring_inv t'"
    using m \<open>h < ?m\<close> assms(2) hh
    by (simp add: ring_inv_def t'_def) (metis mod_Suc_eq mod_mod_trivial)
  moreover have "ring_abs t' = ring_abs t @ [s]"
  proof -
    have "ta_buffer t' ! ((ta_tail t + i) mod ?m) = ta_buffer t ! ((ta_tail t + i) mod ?m)"
      if "i < ta_size t" for i using ne[OF that] by (simp add: t'_def)
    moreover have "ta_buffer t' ! h = s" using m \<open>h < ?m\<close> by (simp add: t'_def)
    ultimately show ?thesis by (simp add: ring_abs_def hh) (simp add: t'_def)
  qed
  ultimately show ?thesis by blast
qed

lemma ta_duration_remove_old [simp]: "ta_duration (remove_old t time) = ta_duration t"
proof (induction t time rule: remove_old.induct)
  case (1 t time)
  then show ?case by (subst remove_old.simps) simp
qed

text \<open>
  C28: \<open>time_average_add\<close> keeps the ring well formed with its accumulated value equal to the sum of
  the stored samples, and on the queue of samples it drops the leading samples older than the
  window and appends the new one, whether or not the ring had to grow.
\<close>

theorem time_average_add_refines_queue:
  assumes "time_average_inv t"
  shows "time_average_inv (time_average_add t now v)
    \<and> ring_abs (time_average_add t now v)
      = dropWhile (\<lambda>s. tv_time s < now - word_of_int (ta_duration t)) (ring_abs t)
        @ [\<lparr>tv_time = now, tv_value = v\<rparr>]"
proof -
  let ?r = "remove_old t now"
  let ?g = "time_average_grow ?r"
  have r: "time_average_inv ?r"
    "ring_abs ?r = dropWhile (\<lambda>s. tv_time s < now - word_of_int (ta_duration t)) (ring_abs t)"
    using remove_old_props[OF assms] by blast+
  then have g: "ring_inv ?g" "ring_abs ?g = ring_abs ?r" "ta_size ?g < ta_maxsize ?g"
    "ta_accumulated_value ?g = ta_accumulated_value ?r"
    using grow_props[of ?r] by (simp_all add: time_average_inv_def)
  have add: "time_average_add t now v =
      ?g\<lparr>ta_head := (ta_head ?g + 1) mod ta_maxsize ?g,
         ta_buffer := (ta_buffer ?g)[(ta_head ?g + 1) mod ta_maxsize ?g
                        := \<lparr>tv_time = now, tv_value = v\<rparr>],
         ta_size := ta_size ?g + 1,
         ta_accumulated_value := ta_accumulated_value ?g + v\<rparr>"
    by (simp add: time_average_add_def Let_def)
  note push = ring_push[OF g(1,3), where s = "\<lparr>tv_time = now, tv_value = v\<rparr>"
      and a = "ta_accumulated_value ?g + v", folded add]
  have "ta_accumulated_value (time_average_add t now v) = ta_accumulated_value ?g + v"
    by (simp add: add)
  then show ?thesis
    using push g r by (auto simp: time_average_inv_def sample_sum_def)
qed

definition full_ring :: time_average where
  "full_ring = \<lparr>ta_duration = 100, ta_head = 0, ta_tail = 1,
     ta_buffer = [\<lparr>tv_time = 990, tv_value = 7\<rparr>, \<lparr>tv_time = 950, tv_value = 5\<rparr>],
     ta_maxsize = 2, ta_size = 2, ta_accumulated_value = 12\<rparr>"

lemma full_ring_inv: "time_average_inv full_ring"
  by (simp add: time_average_inv_def ring_inv_def ring_abs_def sample_sum_def full_ring_def
      upt_conv_Cons)

text \<open>A full ring that has wrapped around: the addition grows it and keeps the order.\<close>

theorem time_average_add_refines_queue_witness:
  "time_average_inv full_ring
   \<and> ring_abs (time_average_add full_ring 1000 9)
     = [\<lparr>tv_time = 950, tv_value = 5\<rparr>, \<lparr>tv_time = 990, tv_value = 7\<rparr>, \<lparr>tv_time = 1000, tv_value = 9\<rparr>]"
  using time_average_add_refines_queue[OF full_ring_inv, of 1000 9] full_ring_inv
  by (simp add: full_ring_def ring_abs_def upt_conv_Cons)

end
