(* ===== verification/Rlc_Bits.thy ===== *)
theory Rlc_Bits
  imports L2_Prelude
begin

text \<open>
  The bit view of a byte buffer: most significant bit first, as the RLC PDU encoder and decoder
  of \<open>nr_rlc_pdu.c\<close> read and write it. These are specification functions, not code of the
  program; the decoder and the encoder are shown to compute them.
\<close>

unbundle bit_operations_syntax

definition byte_bits :: "byte \<Rightarrow> bool list" where
  "byte_bits b = map (\<lambda>i. bit b (7 - i)) [0..<8]"

definition bits_of :: "byte list \<Rightarrow> bool list" where
  "bits_of bs = concat (map byte_bits bs)"

definition bits_val :: "bool list \<Rightarrow> int" where
  "bits_val bs = foldl (\<lambda>a b. 2 * a + of_bool b) 0 bs"

definition val_bits :: "nat \<Rightarrow> int \<Rightarrow> bool list" where
  "val_bits n v = map (\<lambda>i. bit v (n - 1 - i)) [0..<n]"

lemma length_byte_bits [simp]: "length (byte_bits b) = 8"
  by (simp add: byte_bits_def)

lemma bits_of_Nil [simp]: "bits_of [] = []"
  by (simp add: bits_of_def)

lemma bits_of_Cons [simp]: "bits_of (b # bs) = byte_bits b @ bits_of bs"
  by (simp add: bits_of_def)

lemma bits_of_append [simp]: "bits_of (xs @ ys) = bits_of xs @ bits_of ys"
  by (simp add: bits_of_def)

lemma length_bits_of [simp]: "length (bits_of bs) = 8 * length bs"
  by (induction bs) auto

lemma byte_bits_nth: "i < 8 \<Longrightarrow> byte_bits b ! i = bit b (7 - i)"
  by (simp add: byte_bits_def)

lemma bits_of_nth:
  "p < 8 * length bs \<Longrightarrow> bits_of bs ! p = bit (bs ! (p div 8)) (7 - p mod 8)"
proof (induction bs arbitrary: p)
  case Nil
  then show ?case by simp
next
  case (Cons b bs)
  show ?case
  proof (cases "p < 8")
    case True
    then show ?thesis by (simp add: nth_append byte_bits_nth)
  next
    case False
    then have "p div 8 = Suc ((p - 8) div 8)" "p mod 8 = (p - 8) mod 8"
      by (simp_all add: le_div_geq le_mod_geq)
    then show ?thesis using False Cons by (simp add: nth_append)
  qed
qed

lemma take_bits_of: "take (8 * n) (bits_of bs) = bits_of (take n bs)"
proof (induction bs arbitrary: n)
  case Nil
  then show ?case by simp
next
  case (Cons b bs)
  then show ?case by (cases n) auto
qed

lemma drop_bits_of: "drop (8 * n) (bits_of bs) = bits_of (drop n bs)"
proof (induction bs arbitrary: n)
  case Nil
  then show ?case by simp
next
  case (Cons b bs)
  then show ?case by (cases n) auto
qed

section \<open>Values of bit strings\<close>

lemma bits_val_Nil [simp]: "bits_val [] = 0"
  by (simp add: bits_val_def)

lemma bits_val_snoc [simp]: "bits_val (bs @ [b]) = 2 * bits_val bs + of_bool b"
  by (simp add: bits_val_def)

lemma bits_val_range: "0 \<le> bits_val bs \<and> bits_val bs < 2 ^ length bs"
  by (induction bs rule: rev_induct) (auto simp: of_bool_def)

lemma length_val_bits [simp]: "length (val_bits n v) = n"
  by (simp add: val_bits_def)

lemma val_bits_0 [simp]: "val_bits 0 v = []"
  by (simp add: val_bits_def)

lemma val_bits_Suc: "val_bits (Suc n) v = bit v n # val_bits n v"
  by (simp add: val_bits_def upt_conv_Cons map_Suc_upt[symmetric] del: upt_Suc)

lemma val_bits_snoc: "val_bits (Suc n) v = val_bits n (v div 2) @ [odd v]"
  by (rule nth_equalityI)
    (auto simp: val_bits_def nth_append bit_0 bit_Suc[symmetric] Suc_diff_Suc less_Suc_eq)

lemma bits_val_val_bits: "bits_val (val_bits n v) = v mod 2 ^ n"
proof (induction n arbitrary: v)
  case 0
  then show ?case by simp
next
  case (Suc n)
  have "v mod 2 ^ Suc n = 2 * ((v div 2) mod 2 ^ n) + v mod 2"
    using zmod_zmult2_eq[of "2 ^ n" v 2] by simp
  moreover have "of_bool (odd v) = v mod 2" by (simp add: mod2_eq_if)
  ultimately show ?case by (simp add: val_bits_snoc Suc.IH)
qed

lemma bits_val_val_bits_id: "0 \<le> v \<Longrightarrow> v < 2 ^ n \<Longrightarrow> bits_val (val_bits n v) = v"
  by (simp add: bits_val_val_bits mod_pos_pos_trivial)

lemma val_bits_bits_val: "val_bits (length bs) (bits_val bs) = bs"
proof (induction bs rule: rev_induct)
  case Nil
  then show ?case by simp
next
  case (snoc b bs)
  have "(2 * bits_val bs + of_bool b) div 2 = bits_val bs" by (cases b) auto
  then show ?case using snoc by (simp add: val_bits_snoc)
qed

section \<open>Bytes from bits\<close>

definition byte_of_bits :: "bool list \<Rightarrow> byte" where
  "byte_of_bits bs = word_of_int (bits_val bs)"

fun bytes_of_bits :: "bool list \<Rightarrow> byte list" where
  "bytes_of_bits bs =
     (if length bs < 8 then [] else byte_of_bits (take 8 bs) # bytes_of_bits (drop 8 bs))"

declare bytes_of_bits.simps [simp del]

lemma byte_bits_val_bits: "byte_bits b = val_bits 8 (uint b)"
  by (auto simp: byte_bits_def val_bits_def bit_uint_iff)

lemma byte_bits_byte_of_bits: "length bs = 8 \<Longrightarrow> byte_bits (byte_of_bits bs) = bs"
proof -
  assume len: "length bs = 8"
  have "0 \<le> bits_val bs" "bits_val bs < 2 ^ 8"
    using bits_val_range[of bs] len by auto
  then have "uint (byte_of_bits bs) = bits_val bs"
    by (simp add: byte_of_bits_def uint_word_of_int mod_pos_pos_trivial)
  then show ?thesis using val_bits_bits_val[of bs] len by (simp add: byte_bits_val_bits)
qed

lemma bytes_of_bits_short [simp]: "length bs < 8 \<Longrightarrow> bytes_of_bits bs = []"
  by (simp add: bytes_of_bits.simps)

lemma bytes_of_bits_append8:
  "length b = 8 \<Longrightarrow> bytes_of_bits (b @ bs) = byte_of_bits b # bytes_of_bits bs"
  by (subst bytes_of_bits.simps) simp

lemma length_bytes_of_bits [simp]: "length (bytes_of_bits bs) = length bs div 8"
proof (induction bs rule: bytes_of_bits.induct)
  case (1 bs)
  then show ?case by (subst bytes_of_bits.simps) (auto simp: le_div_geq)
qed

lemma bits_of_bytes_of_bits:
  "length bs mod 8 = 0 \<Longrightarrow> bits_of (bytes_of_bits bs) = bs"
proof (induction bs rule: bytes_of_bits.induct)
  case (1 bs)
  show ?case
  proof (cases "length bs < 8")
    case True
    then show ?thesis using 1 by simp
  next
    case False
    then have "length (drop 8 bs) mod 8 = 0" using 1 by (simp add: le_mod_geq)
    then have "bits_of (bytes_of_bits (drop 8 bs)) = drop 8 bs" by (rule 1(1)[OF False])
    then show ?thesis using False
      by (subst bytes_of_bits.simps) (simp add: byte_bits_byte_of_bits)
  qed
qed

lemma bytes_of_bits_append:
  "length xs mod 8 = 0 \<Longrightarrow> bytes_of_bits (xs @ ys) = bytes_of_bits xs @ bytes_of_bits ys"
proof (induction xs rule: bytes_of_bits.induct)
  case (1 xs)
  show ?case
  proof (cases "length xs < 8")
    case True
    then show ?thesis using 1 by simp
  next
    case False
    then have "length (drop 8 xs) mod 8 = 0" using 1 by (simp add: le_mod_geq)
    then have "bytes_of_bits (drop 8 xs @ ys) = bytes_of_bits (drop 8 xs) @ bytes_of_bits ys"
      by (rule 1(1)[OF False])
    then show ?thesis using False
      by (subst (1 2) bytes_of_bits.simps) simp
  qed
qed

text \<open>Appending one bit to a partially filled byte.\<close>

lemma shift_in_bit:
  fixes x :: byte
  shows "push_bit 1 (push_bit k x OR word_of_int v) OR of_bool b
       = push_bit (Suc k) x OR word_of_int (2 * v + of_bool b)"
proof (rule bit_word_eqI)
  fix n
  assume n: "n < LENGTH(8)"
  have L: "bit (2 * v + of_bool b) n \<longleftrightarrow> (if n = 0 then b else bit v (n - 1))"
    by (cases n; cases b) (simp_all add: bit_0 bit_Suc)
  show "bit (push_bit 1 (push_bit k x OR word_of_int v) OR of_bool b) n
      = bit (push_bit (Suc k) x OR word_of_int (2 * v + of_bool b)) n"
    unfolding bit_or_iff bit_push_bit_iff bit_word_of_int_iff L bit_of_bool_iff
    using n by (cases n) (auto simp: Suc_diff_le)
qed

lemma push_bit_8_byte [simp]: "push_bit 8 (x :: byte) = 0"
  by (rule bit_word_eqI) (auto simp: bit_simps)

end
