(* ===== verification/Rlc_Pdu.thy ===== *)
theory Rlc_Pdu
  imports Rlc_Bits
begin

text \<open>
  \<open>nr_rlc_pdu.h\<close> and \<open>nr_rlc_pdu.c\<close>: received PDUs, their ordered reception list, and the bit
  decoder and encoder of PDU headers.

  A null \<open>data\<close> pointer (the segment has been reassembled) is \<open>None\<close>; a list of PDUs linked by
  \<open>next\<close> is a HOL list. Memory exhaustion (\<open>malloc\<close> returning null, then \<open>exit(1)\<close>) is not
  modelled.
\<close>

section \<open>RX PDU management\<close>

record nr_rlc_pdu =
  pdu_sn :: int
  pdu_data :: "byte list option"
  pdu_size :: int
  pdu_so :: int
  pdu_is_first :: bool
  pdu_is_last :: bool

definition nr_rlc_new_pdu :: "int \<Rightarrow> int \<Rightarrow> bool \<Rightarrow> bool \<Rightarrow> byte list \<Rightarrow> nr_rlc_pdu" where
  "nr_rlc_new_pdu sn so is_first is_last data =
     \<lparr>pdu_sn = sn, pdu_data = Some data, pdu_size = int (length data), pdu_so = so,
      pdu_is_first = is_first, pdu_is_last = is_last\<rparr>"

lemma nr_rlc_new_pdu_simps [simp]:
  "pdu_sn (nr_rlc_new_pdu sn so f l d) = sn"
  "pdu_data (nr_rlc_new_pdu sn so f l d) = Some d"
  "pdu_size (nr_rlc_new_pdu sn so f l d) = int (length d)"
  "pdu_so (nr_rlc_new_pdu sn so f l d) = so"
  "pdu_is_first (nr_rlc_new_pdu sn so f l d) = f"
  "pdu_is_last (nr_rlc_new_pdu sn so f l d) = l"
  by (simp_all add: nr_rlc_new_pdu_def)

text \<open>
  The test of the insertion loop, on the numbers and offsets of the new element and of the
  current one; \<open>nr_rlc_pdu_list_add\<close> takes the comparison as a function pointer.
\<close>

definition sn_so_before :: "(int \<Rightarrow> int \<Rightarrow> int) \<Rightarrow> int \<times> int \<Rightarrow> int \<times> int \<Rightarrow> bool" where
  "sn_so_before sn_compare new cur \<longleftrightarrow>
     sn_compare (fst cur) (fst new) > 0 \<or> (fst cur = fst new \<and> snd cur > snd new)"

definition nr_rlc_pdu_list_add ::
  "(int \<Rightarrow> int \<Rightarrow> int) \<Rightarrow> nr_rlc_pdu list \<Rightarrow> nr_rlc_pdu \<Rightarrow> nr_rlc_pdu list" where
  "nr_rlc_pdu_list_add sn_compare list pdu =
     insert_before (\<lambda>p cur. sn_so_before sn_compare (pdu_sn p, pdu_so p) (pdu_sn cur, pdu_so cur))
       pdu list"

text \<open>
  The contract of a comparison callback: on the sequence numbers in use it is the difference of
  injective positions.
\<close>

definition sn_so_le :: "(int \<Rightarrow> int) \<Rightarrow> int \<times> int \<Rightarrow> int \<times> int \<Rightarrow> bool" where
  "sn_so_le pos a b \<longleftrightarrow> pos (fst a) < pos (fst b) \<or> (fst a = fst b \<and> snd a \<le> snd b)"

locale sn_order =
  fixes cmp :: "int \<Rightarrow> int \<Rightarrow> int"
    and pos :: "int \<Rightarrow> int"
    and in_use :: "int \<Rightarrow> bool"
  assumes cmp_pos: "in_use a \<Longrightarrow> in_use b \<Longrightarrow> cmp a b = pos a - pos b"
    and pos_inj: "in_use a \<Longrightarrow> in_use b \<Longrightarrow> pos a = pos b \<Longrightarrow> a = b"
begin

lemma cmp_refl: "in_use a \<Longrightarrow> cmp a a = 0"
  by (simp add: cmp_pos)

lemma cmp_eq_0: "in_use a \<Longrightarrow> in_use b \<Longrightarrow> cmp a b = 0 \<longleftrightarrow> a = b"
  using cmp_pos pos_inj by force

lemma cmp_less: "in_use a \<Longrightarrow> in_use b \<Longrightarrow> cmp a b < 0 \<longleftrightarrow> pos a < pos b"
  by (simp add: cmp_pos)

lemma cmp_greater: "in_use a \<Longrightarrow> in_use b \<Longrightarrow> cmp a b > 0 \<longleftrightarrow> pos b < pos a"
  by (simp add: cmp_pos)

lemma before_le:
  assumes "in_use (fst x)" "in_use (fst y)"
  shows "sn_so_before cmp x y \<Longrightarrow> sn_so_le pos x y"
    and "\<not> sn_so_before cmp x y \<Longrightarrow> sn_so_le pos y x"
proof -
  show "sn_so_le pos x y" if "sn_so_before cmp x y"
    using that assms by (auto simp: sn_so_before_def sn_so_le_def cmp_pos)
  show "sn_so_le pos y x" if "\<not> sn_so_before cmp x y"
  proof -
    have "pos (fst y) \<le> pos (fst x)" "fst y = fst x \<Longrightarrow> snd y \<le> snd x"
      using that assms by (auto simp: sn_so_before_def cmp_pos)
    moreover have "pos (fst y) = pos (fst x) \<Longrightarrow> fst y = fst x"
      using assms pos_inj by blast
    ultimately show ?thesis by (fastforce simp: sn_so_le_def)
  qed
qed

lemma sn_so_le_trans: "sn_so_le pos x y \<Longrightarrow> sn_so_le pos y z \<Longrightarrow> sn_so_le pos x z"
  by (auto simp: sn_so_le_def)

text \<open>The insertion keeps a list sorted by position and offset, for any element type.\<close>

lemma insert_sorted:
  assumes "sorted_wrt (\<lambda>a b. sn_so_le pos (key a) (key b)) xs"
    and "in_use (fst (key x))" "\<And>y. y \<in> set xs \<Longrightarrow> in_use (fst (key y))"
  shows "sorted_wrt (\<lambda>a b. sn_so_le pos (key a) (key b))
           (insert_before (\<lambda>a b. sn_so_before cmp (key a) (key b)) x xs)"
  by (rule sorted_wrt_insert_before[OF assms(1)])
    (use assms(2,3) before_le sn_so_le_trans in blast)+

lemma pdu_list_add_sorted:
  assumes "sorted_wrt (\<lambda>a b. sn_so_le pos (pdu_sn a, pdu_so a) (pdu_sn b, pdu_so b)) l"
    and "in_use (pdu_sn p)" "\<And>y. y \<in> set l \<Longrightarrow> in_use (pdu_sn y)"
  shows "sorted_wrt (\<lambda>a b. sn_so_le pos (pdu_sn a, pdu_so a) (pdu_sn b, pdu_so b))
           (nr_rlc_pdu_list_add cmp l p)"
  using insert_sorted[where key = "\<lambda>a. (pdu_sn a, pdu_so a)" and x = p and xs = l] assms
  by (simp add: nr_rlc_pdu_list_add_def)

end

lemma set_nr_rlc_pdu_list_add [simp]: "set (nr_rlc_pdu_list_add c l p) = insert p (set l)"
  by (simp add: nr_rlc_pdu_list_add_def)

lemma mset_nr_rlc_pdu_list_add [simp]: "mset (nr_rlc_pdu_list_add c l p) = add_mset p (mset l)"
  by (simp add: nr_rlc_pdu_list_add_def)

lemma sum_nr_rlc_pdu_list_add [simp]:
  fixes f :: "nr_rlc_pdu \<Rightarrow> int"
  shows "sum_list (map f (nr_rlc_pdu_list_add c l p)) = f p + sum_list (map f l)"
  by (simp add: nr_rlc_pdu_list_add_def)

section \<open>PDU decoder\<close>

record nr_rlc_pdu_decoder =
  dec_error :: bool
  dec_byte :: nat
  dec_bit :: nat
  dec_buffer :: "byte list"

definition nr_rlc_pdu_decoder_init :: "byte list \<Rightarrow> nr_rlc_pdu_decoder" where
  "nr_rlc_pdu_decoder_init buffer =
     \<lparr>dec_error = False, dec_byte = 0, dec_bit = 0, dec_buffer = buffer\<rparr>"

definition get_bit :: "nr_rlc_pdu_decoder \<Rightarrow> int \<times> nr_rlc_pdu_decoder" where
  "get_bit d =
     (if length (dec_buffer d) \<le> dec_byte d then (0, d\<lparr>dec_error := True\<rparr>)
      else
        let ret = of_bool (bit (dec_buffer d ! dec_byte d) (7 - dec_bit d));
            nb = dec_bit d + 1
        in if nb = 8 then (ret, d\<lparr>dec_bit := 0, dec_byte := dec_byte d + 1\<rparr>)
           else (ret, d\<lparr>dec_bit := nb\<rparr>))"

fun get_bits_loop :: "nr_rlc_pdu_decoder \<Rightarrow> int \<Rightarrow> nat \<Rightarrow> int \<times> nr_rlc_pdu_decoder" where
  "get_bits_loop d ret 0 = (ret, d)"
| "get_bits_loop d ret (Suc n) =
     (case get_bit d of
        (b, d') \<Rightarrow> if dec_error d' then (- 1, d') else get_bits_loop d' (2 * ret + b) n)"

definition nr_rlc_pdu_decoder_get_bits ::
  "nr_rlc_pdu_decoder \<Rightarrow> nat \<Rightarrow> (int \<times> nr_rlc_pdu_decoder) res" where
  "nr_rlc_pdu_decoder_get_bits d n_bits =
     (if n_bits > 31 then Inl Exit_fatal else Inr (get_bits_loop d 0 n_bits))"

text \<open>A read followed by the macro \<open>R\<close>: jump to \<open>err\<close> when the decoder ran out of bytes.\<close>

definition get_bits_R :: "nr_rlc_pdu_decoder \<Rightarrow> nat \<Rightarrow> (int \<times> nr_rlc_pdu_decoder) res" where
  "get_bits_R d n_bits =
     rbind (nr_rlc_pdu_decoder_get_bits d n_bits)
       (\<lambda>(v, d'). if dec_error d' then Inl Decode_error else Inr (v, d'))"

text \<open>The decoder that has read the first \<open>p\<close> bits of \<open>buf\<close>.\<close>

definition dec_at :: "byte list \<Rightarrow> nat \<Rightarrow> nr_rlc_pdu_decoder" where
  "dec_at buf p =
     \<lparr>dec_error = False, dec_byte = p div 8, dec_bit = p mod 8, dec_buffer = buf\<rparr>"

lemma decoder_init_dec_at [enc_simps]: "nr_rlc_pdu_decoder_init buf = dec_at buf 0"
  by (simp add: nr_rlc_pdu_decoder_init_def dec_at_def)

lemma dec_at_simps [simp]:
  "dec_error (dec_at buf p) = False"
  "dec_byte (dec_at buf p) = p div 8"
  "dec_buffer (dec_at buf p) = buf"
  by (simp_all add: dec_at_def)

lemma get_bit_dec_at:
  "get_bit (dec_at buf p) =
     (if 8 * length buf \<le> p then (0, (dec_at buf p)\<lparr>dec_error := True\<rparr>)
      else (of_bool (bits_of buf ! p), dec_at buf (p + 1)))"
proof (cases "8 * length buf \<le> p")
  case True
  then have "length buf \<le> p div 8" by linarith
  then show ?thesis using True by (simp add: get_bit_def)
next
  case False
  then have lt: "\<not> length buf \<le> p div 8" by linarith
  have nb: "bits_of buf ! p = bit (buf ! (p div 8)) (7 - p mod 8)"
    using False by (simp add: bits_of_nth)
  show ?thesis
  proof (cases "p mod 8 = 7")
    case True
    then have "Suc p div 8 = Suc (p div 8)" "Suc p mod 8 = 0" by (simp_all add: div_Suc mod_Suc)
    then show ?thesis using False lt nb True by (simp add: get_bit_def dec_at_def)
  next
    case neq: False
    then have "Suc p div 8 = p div 8" "Suc p mod 8 = Suc (p mod 8)" by (simp_all add: div_Suc mod_Suc)
    then show ?thesis using False lt nb neq by (simp add: get_bit_def dec_at_def)
  qed
qed

lemma get_bits_loop_dec_at:
  "p + n \<le> 8 * length buf \<Longrightarrow>
   get_bits_loop (dec_at buf p) (bits_val pre) n =
     (bits_val (pre @ take n (drop p (bits_of buf))), dec_at buf (p + n))"
proof (induction n arbitrary: p pre)
  case 0
  then show ?case by simp
next
  case (Suc n)
  have "drop p (bits_of buf) = bits_of buf ! p # drop (Suc p) (bits_of buf)"
    using Suc.prems by (simp add: Cons_nth_drop_Suc)
  then show ?case
    using Suc.prems Suc.IH[of "Suc p" "pre @ [bits_of buf ! p]"] by (simp add: get_bit_dec_at)
qed

lemma get_bits_loop_short:
  "8 * length buf < p + n \<Longrightarrow> p \<le> 8 * length buf \<Longrightarrow>
   fst (get_bits_loop (dec_at buf p) r n) = - 1 \<and>
   dec_error (snd (get_bits_loop (dec_at buf p) r n))"
proof (induction n arbitrary: p r)
  case 0
  then show ?case by simp
next
  case (Suc n)
  then show ?case by (cases "8 * length buf \<le> p") (simp_all add: get_bit_dec_at)
qed

lemma get_bits_R_dec_at [enc_simps]:
  assumes "n \<le> 31" "p \<le> 8 * length buf"
  shows "get_bits_R (dec_at buf p) n =
     (if p + n \<le> 8 * length buf
      then Inr (bits_val (take n (drop p (bits_of buf))), dec_at buf (p + n))
      else Inl Decode_error)"
proof (cases "p + n \<le> 8 * length buf")
  case True
  then show ?thesis using assms get_bits_loop_dec_at[of p n buf "[]"]
    by (simp add: get_bits_R_def nr_rlc_pdu_decoder_get_bits_def)
next
  case False
  then have "dec_error (snd (get_bits_loop (dec_at buf p) 0 n))"
    using assms get_bits_loop_short[of buf p n 0] by simp
  then show ?thesis using assms False
    by (cases "get_bits_loop (dec_at buf p) 0 n")
      (simp add: get_bits_R_def nr_rlc_pdu_decoder_get_bits_def)
qed

lemma get_bits_dec_at [enc_simps]:
  "n \<le> 31 \<Longrightarrow> p + n \<le> 8 * length buf \<Longrightarrow>
   nr_rlc_pdu_decoder_get_bits (dec_at buf p) n =
     Inr (bits_val (take n (drop p (bits_of buf))), dec_at buf (p + n))"
  using get_bits_loop_dec_at[of p n buf "[]"]
  by (simp add: nr_rlc_pdu_decoder_get_bits_def)

section \<open>PDU encoder\<close>

record nr_rlc_pdu_encoder =
  enc_byte :: nat
  enc_bit :: nat
  enc_buffer :: "byte list"

definition nr_rlc_pdu_encoder_init :: "byte list \<Rightarrow> nr_rlc_pdu_encoder" where
  "nr_rlc_pdu_encoder_init buffer = \<lparr>enc_byte = 0, enc_bit = 0, enc_buffer = buffer\<rparr>"

definition put_bit :: "nr_rlc_pdu_encoder \<Rightarrow> bool \<Rightarrow> nr_rlc_pdu_encoder res" where
  "put_bit e b =
     (if enc_byte e = length (enc_buffer e) then Inl Exit_fatal
      else
        let e1 = e\<lparr>enc_buffer := (enc_buffer e)
                    [enc_byte e := push_bit 1 (enc_buffer e ! enc_byte e) OR of_bool b]\<rparr>;
            nb = enc_bit e + 1
        in Inr (if nb = 8 then e1\<lparr>enc_bit := 0, enc_byte := enc_byte e + 1\<rparr>
                else e1\<lparr>enc_bit := nb\<rparr>))"

fun put_bits_loop :: "nr_rlc_pdu_encoder \<Rightarrow> int \<Rightarrow> nat \<Rightarrow> nr_rlc_pdu_encoder res" where
  "put_bits_loop e value 0 = Inr e"
| "put_bits_loop e value (Suc n) =
     rbind (put_bit e (bit value n)) (\<lambda>e'. put_bits_loop e' value n)"

definition nr_rlc_pdu_encoder_put_bits ::
  "nr_rlc_pdu_encoder \<Rightarrow> int \<Rightarrow> nat \<Rightarrow> nr_rlc_pdu_encoder res" where
  "nr_rlc_pdu_encoder_put_bits e value n_bits =
     (if n_bits > 31 then Inl Exit_fatal else put_bits_loop e value n_bits)"

text \<open>
  The encoder over the buffer \<open>buf\<close> that has written the bits \<open>bs\<close>: the complete bytes, the
  byte in progress (shifted left by the bits written so far) and the untouched rest.
\<close>

definition enc_at :: "byte list \<Rightarrow> bool list \<Rightarrow> nr_rlc_pdu_encoder" where
  "enc_at buf bs =
     \<lparr>enc_byte = length bs div 8, enc_bit = length bs mod 8,
      enc_buffer =
        bytes_of_bits (take (8 * (length bs div 8)) bs)
        @ (if length bs mod 8 = 0 then drop (length bs div 8) buf
           else (push_bit (length bs mod 8) (buf ! (length bs div 8))
                 OR byte_of_bits (drop (8 * (length bs div 8)) bs))
                # drop (Suc (length bs div 8)) buf)\<rparr>"

lemma encoder_init_enc_at [enc_simps]: "nr_rlc_pdu_encoder_init buf = enc_at buf []"
  by (simp add: nr_rlc_pdu_encoder_init_def enc_at_def)

lemma enc_byte_enc_at [simp]: "enc_byte (enc_at buf bs) = length bs div 8"
  by (simp add: enc_at_def)

lemma enc_bit_enc_at [simp]: "enc_bit (enc_at buf bs) = length bs mod 8"
  by (simp add: enc_at_def)

lemma enc_buffer_enc_at_aligned:
  "length bs mod 8 = 0 \<Longrightarrow>
   enc_buffer (enc_at buf bs) = bytes_of_bits bs @ drop (length bs div 8) buf"
  by (simp add: enc_at_def mult_div_mod_eq[symmetric] minus_mod_eq_mult_div[symmetric])

lemma length_enc_buffer_enc_at:
  "length bs \<le> 8 * length buf \<Longrightarrow> length (enc_buffer (enc_at buf bs)) = length buf"
proof (cases "length bs mod 8 = 0")
  case True
  then show "length bs \<le> 8 * length buf \<Longrightarrow> ?thesis" by (simp add: enc_at_def)
next
  case False
  moreover assume "length bs \<le> 8 * length buf"
  ultimately have "length bs div 8 < length buf" by presburger
  then show ?thesis using False by (simp add: enc_at_def)
qed

text \<open>The byte in progress, read in a uniform way.\<close>

lemma enc_buffer_cur:
  assumes "length bs < 8 * length buf"
  shows "enc_buffer (enc_at buf bs) =
     bytes_of_bits (take (8 * (length bs div 8)) bs)
     @ (push_bit (length bs mod 8) (buf ! (length bs div 8))
          OR byte_of_bits (drop (8 * (length bs div 8)) bs))
       # drop (Suc (length bs div 8)) buf"
proof (cases "length bs mod 8 = 0")
  case True
  then have "drop (8 * (length bs div 8)) bs = []"
    by (simp add: minus_mod_eq_mult_div[symmetric])
  moreover have "length bs div 8 < length buf" using assms by linarith
  ultimately show ?thesis
    using True by (simp add: enc_at_def byte_of_bits_def Cons_nth_drop_Suc)
next
  case False
  then show ?thesis by (simp add: enc_at_def)
qed

lemma put_bit_enc_at:
  assumes "length bs < 8 * length buf"
  shows "put_bit (enc_at buf bs) b = Inr (enc_at buf (bs @ [b]))"
proof -
  define q where "q = length bs div 8"
  define r where "r = length bs mod 8"
  have len: "length bs = 8 * q + r" "r < 8" by (simp_all add: q_def r_def)
  have q: "q < length buf" using assms len by linarith
  have qt: "length (bytes_of_bits (take (8 * q) bs)) = q" using len by simp
  let ?part = "drop (8 * q) bs"
  let ?cur = "push_bit r (buf ! q) OR byte_of_bits ?part"
  have buf: "enc_buffer (enc_at buf bs)
      = bytes_of_bits (take (8 * q) bs) @ ?cur # drop (Suc q) buf"
    using enc_buffer_cur[OF assms] by (simp add: q_def r_def)
  have lb: "length (enc_buffer (enc_at buf bs)) = length buf"
    using assms by (simp add: length_enc_buffer_enc_at)
  have cur: "push_bit 1 ?cur OR of_bool b
      = push_bit (Suc r) (buf ! q) OR byte_of_bits (?part @ [b])"
    unfolding byte_of_bits_def bits_val_snoc by (rule shift_in_bit)
  have upd: "(enc_buffer (enc_at buf bs))
      [q := push_bit 1 (enc_buffer (enc_at buf bs) ! q) OR of_bool b]
    = bytes_of_bits (take (8 * q) bs)
      @ (push_bit (Suc r) (buf ! q) OR byte_of_bits (?part @ [b])) # drop (Suc q) buf"
    using qt by (simp only: buf cur[symmetric]) (simp add: nth_append list_update_append)
  show ?thesis
  proof (cases "r = 7")
    case True
    then have l8: "length (bs @ [b]) = 8 * Suc q" using len by simp
    have "bytes_of_bits (bs @ [b]) = bytes_of_bits (take (8 * q) bs @ (?part @ [b]))"
      by (metis append_assoc append_take_drop_id)
    also have "\<dots> = bytes_of_bits (take (8 * q) bs) @ [byte_of_bits (?part @ [b])]"
      using True len bytes_of_bits_append8[of "?part @ [b]" "[]"]
      by (subst bytes_of_bits_append) simp_all
    finally have "enc_buffer (enc_at buf (bs @ [b]))
        = bytes_of_bits (take (8 * q) bs) @ byte_of_bits (?part @ [b]) # drop (Suc q) buf"
      using l8 by (subst enc_buffer_enc_at_aligned) simp_all
    then show ?thesis
      using True len q lb upd l8
      by (simp add: put_bit_def Let_def enc_at_def[of buf "bs @ [b]"] q_def[symmetric] r_def[symmetric])
  next
    case False
    then have m: "length (bs @ [b]) div 8 = q" "length (bs @ [b]) mod 8 = Suc r"
      using len by auto
    have "enc_buffer (enc_at buf (bs @ [b]))
        = bytes_of_bits (take (8 * q) bs)
          @ (push_bit (Suc r) (buf ! q) OR byte_of_bits (?part @ [b])) # drop (Suc q) buf"
      using m len by (simp add: enc_at_def)
    then show ?thesis
      using False len q lb upd m
      by (simp add: put_bit_def Let_def enc_at_def[of buf "bs @ [b]"] q_def[symmetric] r_def[symmetric])
  qed
qed

lemma put_bit_full:
  "length bs = 8 * length buf \<Longrightarrow> put_bit (enc_at buf bs) b = Inl Exit_fatal"
  by (simp add: put_bit_def length_enc_buffer_enc_at)

lemma put_bits_loop_enc_at:
  "length bs + n \<le> 8 * length buf \<Longrightarrow>
   put_bits_loop (enc_at buf bs) v n = Inr (enc_at buf (bs @ val_bits n v))"
  by (induction n arbitrary: bs) (simp_all add: put_bit_enc_at val_bits_Suc)

lemma put_bits_loop_full:
  "8 * length buf < length bs + n \<Longrightarrow> length bs \<le> 8 * length buf \<Longrightarrow>
   put_bits_loop (enc_at buf bs) v n = Inl Exit_fatal"
proof (induction n arbitrary: bs)
  case 0
  then show ?case by simp
next
  case (Suc n)
  then show ?case
    by (cases "length bs = 8 * length buf") (simp_all add: put_bit_full put_bit_enc_at)
qed

lemma put_bits_enc_at [enc_simps]:
  "n \<le> 31 \<Longrightarrow> length bs + n \<le> 8 * length buf \<Longrightarrow>
   nr_rlc_pdu_encoder_put_bits (enc_at buf bs) v n = Inr (enc_at buf (bs @ val_bits n v))"
  by (simp add: nr_rlc_pdu_encoder_put_bits_def put_bits_loop_enc_at)

lemma put_bits_full:
  "n \<le> 31 \<Longrightarrow> length bs \<le> 8 * length buf \<Longrightarrow> 8 * length buf < length bs + n \<Longrightarrow>
   nr_rlc_pdu_encoder_put_bits (enc_at buf bs) v n = Inl Exit_fatal"
  by (simp add: nr_rlc_pdu_encoder_put_bits_def put_bits_loop_full)

end
