(* ===== verification/Rlc_Sdu.thy ===== *)
theory Rlc_Sdu
  imports L2_Prelude
begin

text \<open>
  \<open>nr_rlc_sdu.h\<close> and \<open>nr_rlc_sdu.c\<close>: SDUs waiting for transmission and their segments.

  Several segments point to one SDU and share its sequence number and its reference, free and
  retransmission counters, so the SDUs live in an explicit store. A segment is a record that
  holds its own address, because the code compares and keeps segment pointers (the \<open>tx_end\<close> and
  \<open>wait_end\<close> fields); the \<open>next\<close> links are the order of a HOL list. Freed memory keeps its
  contents and loses its allocation mark; that no freed SDU is reachable from a list is an
  invariant the entity theories prove, not an assumption. Allocation always succeeds.
\<close>

record nr_rlc_sdu =
  sdu_sn :: int
  sdu_upper_layer_id :: int
  sdu_data :: "byte list"
  sdu_size :: int
  sdu_retx_count :: int
  sdu_ref_count :: int
  sdu_free_count :: int
  sdu_time_of_arrival :: u64

record nr_rlc_sdu_segment =
  seg_addr :: nat
  seg_sdu :: nat
  seg_size :: int
  seg_so :: int
  seg_is_first :: bool
  seg_is_last :: bool

record sdu_heap =
  hp_next :: nat
  hp_sdu :: "nat \<Rightarrow> nr_rlc_sdu"
  hp_alloc :: "nat \<Rightarrow> bool"

definition null_sdu :: nr_rlc_sdu where
  "null_sdu = \<lparr>sdu_sn = 0, sdu_upper_layer_id = 0, sdu_data = [], sdu_size = 0,
     sdu_retx_count = 0, sdu_ref_count = 0, sdu_free_count = 0, sdu_time_of_arrival = 0\<rparr>"

definition empty_heap :: sdu_heap where
  "empty_heap = \<lparr>hp_next = 0, hp_sdu = (\<lambda>_. null_sdu), hp_alloc = (\<lambda>_. False)\<rparr>"

text \<open>The dereference \<open>segment->sdu\<close> and an update through it.\<close>

definition sdu_of :: "sdu_heap \<Rightarrow> nr_rlc_sdu_segment \<Rightarrow> nr_rlc_sdu" where
  "sdu_of h seg = hp_sdu h (seg_sdu seg)"

definition update_sdu :: "(nr_rlc_sdu \<Rightarrow> nr_rlc_sdu) \<Rightarrow> nr_rlc_sdu_segment \<Rightarrow> sdu_heap \<Rightarrow> sdu_heap" where
  "update_sdu f seg h = h\<lparr>hp_sdu := (hp_sdu h)(seg_sdu seg := f (hp_sdu h (seg_sdu seg)))\<rparr>"

lemma hp_update_sdu [simp]:
  "hp_next (update_sdu f seg h) = hp_next h"
  "hp_alloc (update_sdu f seg h) = hp_alloc h"
  "hp_sdu (update_sdu f seg h) = (hp_sdu h)(seg_sdu seg := f (hp_sdu h (seg_sdu seg)))"
  by (simp_all add: update_sdu_def)

section \<open>Operations\<close>

definition nr_rlc_new_sdu ::
  "sdu_heap \<Rightarrow> byte list \<Rightarrow> int \<Rightarrow> nr_rlc_sdu_segment \<times> sdu_heap" where
  "nr_rlc_new_sdu h buffer upper_layer_id =
     (let a = hp_next h;
          sdu = \<lparr>sdu_sn = - 1, sdu_upper_layer_id = upper_layer_id, sdu_data = buffer,
                 sdu_size = int (length buffer), sdu_retx_count = - 1, sdu_ref_count = 1,
                 sdu_free_count = 0, sdu_time_of_arrival = 0\<rparr>;
          ret = \<lparr>seg_addr = a, seg_sdu = a, seg_size = int (length buffer), seg_so = 0,
                 seg_is_first = True, seg_is_last = True\<rparr>
      in (ret, h\<lparr>hp_next := a + 1, hp_sdu := (hp_sdu h)(a := sdu),
                 hp_alloc := (hp_alloc h)(a := True)\<rparr>))"

text \<open>Returns whether the SDU itself has been freed.\<close>

definition nr_rlc_free_sdu_segment :: "nr_rlc_sdu_segment \<Rightarrow> sdu_heap \<Rightarrow> bool \<times> sdu_heap" where
  "nr_rlc_free_sdu_segment seg h =
     (let h1 = update_sdu (\<lambda>s. s\<lparr>sdu_free_count := sdu_free_count s + 1\<rparr>) seg h;
          s = sdu_of h1 seg
      in if sdu_free_count s = sdu_ref_count s
         then (True, h1\<lparr>hp_alloc := (hp_alloc h1)(seg_sdu seg := False)\<rparr>)
         else (False, h1))"

text \<open>The write \<open>(*end)->next = sdu\<close> to the segment at address \<open>e\<close>.\<close>

fun link_after :: "nat \<Rightarrow> nr_rlc_sdu_segment \<Rightarrow> nr_rlc_sdu_segment list \<Rightarrow> nr_rlc_sdu_segment list" where
  "link_after e seg [] = []"
| "link_after e seg (x # xs) = (if seg_addr x = e then [x, seg] else x # link_after e seg xs)"

definition nr_rlc_sdu_segment_list_append ::
  "nr_rlc_sdu_segment list \<Rightarrow> nat option \<Rightarrow> nr_rlc_sdu_segment
   \<Rightarrow> (nr_rlc_sdu_segment list \<times> nat option) res" where
  "nr_rlc_sdu_segment_list_append list end seg =
     (if list = [] then Inr ([seg], Some (seg_addr seg))
      else case end of
             None \<Rightarrow> Inl Null_deref
           | Some e \<Rightarrow> Inr (link_after e seg list, Some (seg_addr seg)))"

fun nr_rlc_free_sdu_segment_list :: "nr_rlc_sdu_segment list \<Rightarrow> sdu_heap \<Rightarrow> sdu_heap" where
  "nr_rlc_free_sdu_segment_list [] h = h"
| "nr_rlc_free_sdu_segment_list (cur # l) h =
     nr_rlc_free_sdu_segment_list l (snd (nr_rlc_free_sdu_segment cur h))"

section \<open>Lists with an end pointer\<close>

definition list_end :: "nr_rlc_sdu_segment list \<Rightarrow> nat option" where
  "list_end xs = (if xs = [] then None else Some (seg_addr (last xs)))"

lemma list_end_simps [simp]:
  "list_end [] = None"
  "list_end (xs @ [x]) = Some (seg_addr x)"
  "list_end [x] = Some (seg_addr x)"
  by (simp_all add: list_end_def)

lemma list_end_Cons: "list_end (x # xs) = (if xs = [] then Some (seg_addr x) else list_end xs)"
  by (simp add: list_end_def)

lemma link_after_last:
  assumes "xs \<noteq> []" "distinct (map seg_addr xs)"
  shows "link_after (seg_addr (last xs)) seg xs = xs @ [seg]"
  using assms
proof (induction xs)
  case Nil
  then show ?case by simp
next
  case (Cons x xs)
  show ?case
  proof (cases "xs = []")
    case True
    then show ?thesis by simp
  next
    case False
    then have "seg_addr x \<noteq> seg_addr (last xs)" using Cons.prems by (metis distinct.simps(2) imageI last_in_set list.set_map list.simps(9))
    then show ?thesis using False Cons by simp
  qed
qed

text \<open>
  The contract of a transmission queue, a list with its end pointer: appending through the end
  pointer appends to the list and keeps the end pointer on the last segment.
\<close>

locale end_queue =
  fixes append_op :: "'x list \<Rightarrow> 'p option \<Rightarrow> 'x \<Rightarrow> ('x list \<times> 'p option) res"
    and addr :: "'x \<Rightarrow> 'p"
    and end_of :: "'x list \<Rightarrow> 'p option"
  assumes append_ok:
      "distinct (map addr xs) \<Longrightarrow> append_op xs (end_of xs) x = Inr (xs @ [x], end_of (xs @ [x]))"
begin

fun append_all :: "'x list \<times> 'p option \<Rightarrow> 'x list \<Rightarrow> ('x list \<times> 'p option) res" where
  "append_all q [] = Inr q"
| "append_all q (x # xs) = rbind (append_op (fst q) (snd q) x) (\<lambda>q'. append_all q' xs)"

lemma append_all_ok:
  "distinct (map addr (xs @ ys)) \<Longrightarrow>
   append_all (xs, end_of xs) ys = Inr (xs @ ys, end_of (xs @ ys))"
proof (induction ys arbitrary: xs)
  case Nil
  then show ?case by simp
next
  case (Cons y ys)
  then have "append_op xs (end_of xs) y = Inr (xs @ [y], end_of (xs @ [y]))"
    by (intro append_ok) simp
  moreover have "append_all (xs @ [y], end_of (xs @ [y])) ys
      = Inr ((xs @ [y]) @ ys, end_of ((xs @ [y]) @ ys))"
    using Cons.prems by (intro Cons.IH) simp
  ultimately show ?case by simp
qed

end

interpretation segq: end_queue nr_rlc_sdu_segment_list_append seg_addr list_end
proof unfold_locales
  fix xs :: "nr_rlc_sdu_segment list" and x :: nr_rlc_sdu_segment
  assume "distinct (map seg_addr xs)"
  then show "nr_rlc_sdu_segment_list_append xs (list_end xs) x = Inr (xs @ [x], list_end (xs @ [x]))"
    by (cases "xs = []")
      (simp_all add: nr_rlc_sdu_segment_list_append_def list_end_def link_after_last)
qed

section \<open>Reference counting\<close>

text \<open>
  \<open>refs h lists\<close>: every SDU has as many live segments as its reference count exceeds its free
  count, it is allocated exactly while it has one, and no fresh address is in use.
\<close>

definition seg_count :: "nr_rlc_sdu_segment list \<Rightarrow> nat \<Rightarrow> nat" where
  "seg_count l i = length (filter (\<lambda>s. seg_sdu s = i) l)"

lemma seg_count_simps [simp]:
  "seg_count [] i = 0"
  "seg_count (s # l) i = (if seg_sdu s = i then Suc (seg_count l i) else seg_count l i)"
  "seg_count (l @ l') i = seg_count l i + seg_count l' i"
  by (simp_all add: seg_count_def)

lemma seg_count_pos: "0 < seg_count l i \<longleftrightarrow> (\<exists>s \<in> set l. seg_sdu s = i)"
  by (auto simp: seg_count_def filter_empty_conv)

lemma seg_count_zero: "seg_count l i = 0 \<longleftrightarrow> (\<forall>s \<in> set l. seg_sdu s \<noteq> i)"
  by (auto simp: seg_count_def filter_empty_conv)

lemma seg_count_mset: "mset l = mset l' \<Longrightarrow> seg_count l i = seg_count l' i"
  unfolding seg_count_def by (metis mset_filter size_mset)

definition refs_ok :: "sdu_heap \<Rightarrow> nr_rlc_sdu_segment list \<Rightarrow> bool" where
  "refs_ok h l \<longleftrightarrow>
     (\<forall>i. hp_alloc h i \<longrightarrow> i < hp_next h)
     \<and> (\<forall>s \<in> set l. seg_addr s < hp_next h)
     \<and> distinct (map seg_addr l)
     \<and> (\<forall>i. hp_alloc h i \<longleftrightarrow> 0 < seg_count l i)
     \<and> (\<forall>i. hp_alloc h i \<longrightarrow>
           sdu_ref_count (hp_sdu h i) - sdu_free_count (hp_sdu h i) = int (seg_count l i))"

lemma refs_ok_alloc: "refs_ok h l \<Longrightarrow> s \<in> set l \<Longrightarrow> hp_alloc h (seg_sdu s)"
  by (auto simp: refs_ok_def seg_count_pos)

lemma refs_ok_mset:
  assumes "mset l = mset l'" "refs_ok h l"
  shows "refs_ok h l'"
proof -
  have "set l' = set l" "distinct (map seg_addr l') = distinct (map seg_addr l)"
    using assms(1) by (metis set_mset_mset, metis mset_eq_imp_distinct_iff mset_map)
  then show ?thesis using assms seg_count_mset[OF assms(1)] by (simp add: refs_ok_def)
qed

lemma refs_ok_update:
  assumes "refs_ok h l"
    and "\<And>s. sdu_ref_count (f s) = sdu_ref_count s" "\<And>s. sdu_free_count (f s) = sdu_free_count s"
  shows "refs_ok (update_sdu f seg h) l"
  using assms by (auto simp: refs_ok_def)

lemma refs_ok_new:
  assumes "refs_ok h l" "nr_rlc_new_sdu h buf u = (seg, h')"
  shows "refs_ok h' (l @ [seg])"
proof -
  have fresh: "\<not> hp_alloc h (hp_next h)" "hp_next h \<notin> seg_addr ` set l"
    using assms(1) unfolding refs_ok_def by (blast, fastforce)
  then have "seg_count l (hp_next h) = 0" using assms(1) by (auto simp: refs_ok_def)
  then show ?thesis using assms fresh by (fastforce simp: refs_ok_def nr_rlc_new_sdu_def Let_def)
qed

lemma free_segment_heap:
  shows "hp_next (snd (nr_rlc_free_sdu_segment seg h)) = hp_next h"
    and "hp_alloc (snd (nr_rlc_free_sdu_segment seg h)) j
         \<longleftrightarrow> hp_alloc h j \<and> \<not> (j = seg_sdu seg \<and> fst (nr_rlc_free_sdu_segment seg h))"
    and "hp_sdu (snd (nr_rlc_free_sdu_segment seg h)) j
         = (if j = seg_sdu seg then (hp_sdu h j)\<lparr>sdu_free_count := sdu_free_count (hp_sdu h j) + 1\<rparr>
            else hp_sdu h j)"
    and "fst (nr_rlc_free_sdu_segment seg h)
         \<longleftrightarrow> sdu_free_count (sdu_of h seg) + 1 = sdu_ref_count (sdu_of h seg)"
  by (auto simp: nr_rlc_free_sdu_segment_def sdu_of_def Let_def)

lemma free_segment_cases:
  assumes "refs_ok h (l1 @ seg # l2)"
  shows "fst (nr_rlc_free_sdu_segment seg h) \<longleftrightarrow> seg_count (l1 @ l2) (seg_sdu seg) = 0"
    and "refs_ok (snd (nr_rlc_free_sdu_segment seg h)) (l1 @ l2)"
proof -
  let ?i = "seg_sdu seg" and ?h = "snd (nr_rlc_free_sdu_segment seg h)"
  have cnt: "seg_count (l1 @ seg # l2) j = (if j = ?i then Suc (seg_count (l1 @ l2) j) else seg_count (l1 @ l2) j)"
    for j by auto
  have c: "sdu_ref_count (hp_sdu h ?i) - sdu_free_count (hp_sdu h ?i) = int (seg_count (l1 @ l2) ?i) + 1"
    and al: "hp_alloc h ?i"
    using assms unfolding refs_ok_def cnt by auto
  then show fr: "fst (nr_rlc_free_sdu_segment seg h) \<longleftrightarrow> seg_count (l1 @ l2) ?i = 0"
    by (auto simp: free_segment_heap(4) sdu_of_def)
  have alloc: "hp_alloc ?h j \<longleftrightarrow> 0 < seg_count (l1 @ l2) j" for j
    using assms fr al unfolding free_segment_heap refs_ok_def cnt by auto
  moreover have "sdu_ref_count (hp_sdu ?h j) - sdu_free_count (hp_sdu ?h j) = int (seg_count (l1 @ l2) j)"
    if "hp_alloc ?h j" for j
  proof (cases "j = ?i")
    case True
    then show ?thesis using c by (simp add: free_segment_heap)
  next
    case False
    then have "hp_alloc h j" using that by (simp add: free_segment_heap)
    then show ?thesis using assms False unfolding free_segment_heap refs_ok_def cnt by simp
  qed
  moreover have "hp_alloc ?h j \<Longrightarrow> j < hp_next ?h" for j
    using assms by (auto simp: free_segment_heap refs_ok_def)
  ultimately show "refs_ok ?h (l1 @ l2)"
    using assms by (simp add: refs_ok_def free_segment_heap)
qed

end
