(* ===== verification/Rlc_Entity.thy ===== *)
theory Rlc_Entity
  imports Rlc_Pdu Rlc_Sdu Time_Stat
begin

text \<open>
  \<open>nr_rlc_entity.h\<close>: what the three RLC modes share. The structure \<open>nr_rlc_entity_t\<close> is the
  first member of every entity, so the mode theories extend the record of this theory.

  The callbacks the upper layers install (\<open>deliver_sdu\<close>, \<open>sdu_successful_delivery\<close> and
  \<open>max_retx_reached\<close>) are code outside the entity; a call is recorded in the field \<open>callbacks\<close>,
  in the order in which they are made. The store of the SDUs that the transmission lists point
  to is the field \<open>heap\<close>.
\<close>

definition NR_SDU_MAX :: int where
  "NR_SDU_MAX = 16000"

datatype nr_rlc_mode = NR_RLC_AM | NR_RLC_UM | NR_RLC_TM

record nr_rlc_statistics =
  st_mode :: nr_rlc_mode
  txpdu_pkts :: u32
  txpdu_bytes :: u32
  txpdu_wt_ms :: u32
  txpdu_dd_pkts :: u32
  txpdu_dd_bytes :: u32
  txpdu_retx_pkts :: u32
  txpdu_retx_bytes :: u32
  txpdu_segmented :: u32
  txpdu_status_pkts :: u32
  txpdu_status_bytes :: u32
  txbuf_occ_bytes :: u32
  txbuf_occ_pkts :: u32
  rxpdu_pkts :: u32
  rxpdu_bytes :: u32
  rxpdu_dup_pkts :: u32
  rxpdu_dup_bytes :: u32
  rxpdu_dd_pkts :: u32
  rxpdu_dd_bytes :: u32
  rxpdu_ow_pkts :: u32
  rxpdu_ow_bytes :: u32
  rxpdu_status_pkts :: u32
  rxpdu_status_bytes :: u32
  rxbuf_occ_bytes :: u32
  rxbuf_occ_pkts :: u32
  txsdu_pkts :: u32
  txsdu_bytes :: u64
  st_txsdu_avg_time_to_tx :: rat
  txsdu_wt_us :: u32
  rxsdu_pkts :: u32
  rxsdu_bytes :: u64
  rxsdu_dd_pkts :: u32
  rxsdu_dd_bytes :: u32

record nr_rlc_entity_buffer_status =
  bs_status_size :: int
  bs_tx_size :: int
  bs_retx_size :: int

text \<open>The statistics and the buffer status after \<open>calloc\<close>.\<close>

definition zero_stats :: "nr_rlc_mode \<Rightarrow> nr_rlc_statistics" where
  "zero_stats mode =
     \<lparr>st_mode = mode, txpdu_pkts = 0, txpdu_bytes = 0, txpdu_wt_ms = 0, txpdu_dd_pkts = 0,
      txpdu_dd_bytes = 0, txpdu_retx_pkts = 0, txpdu_retx_bytes = 0, txpdu_segmented = 0,
      txpdu_status_pkts = 0, txpdu_status_bytes = 0, txbuf_occ_bytes = 0, txbuf_occ_pkts = 0,
      rxpdu_pkts = 0, rxpdu_bytes = 0, rxpdu_dup_pkts = 0, rxpdu_dup_bytes = 0,
      rxpdu_dd_pkts = 0, rxpdu_dd_bytes = 0, rxpdu_ow_pkts = 0, rxpdu_ow_bytes = 0,
      rxpdu_status_pkts = 0, rxpdu_status_bytes = 0, rxbuf_occ_bytes = 0, rxbuf_occ_pkts = 0,
      txsdu_pkts = 0, txsdu_bytes = 0, st_txsdu_avg_time_to_tx = 0, txsdu_wt_us = 0,
      rxsdu_pkts = 0, rxsdu_bytes = 0, rxsdu_dd_pkts = 0, rxsdu_dd_bytes = 0\<rparr>"

definition zero_bstatus :: nr_rlc_entity_buffer_status where
  "zero_bstatus = \<lparr>bs_status_size = 0, bs_tx_size = 0, bs_retx_size = 0\<rparr>"

datatype rlc_callback =
    Deliver_sdu "byte list"
  | Sdu_successful_delivery int
  | Max_retx_reached

record nr_rlc_entity =
  callbacks :: "rlc_callback list"
  bstatus :: nr_rlc_entity_buffer_status
  stats :: nr_rlc_statistics
  txsdu_avg_time_to_tx :: time_average
  avg_time_is_on :: bool
  heap :: sdu_heap

definition call :: "rlc_callback \<Rightarrow> 'a nr_rlc_entity_scheme \<Rightarrow> 'a nr_rlc_entity_scheme" where
  [simp]: "call c e = e\<lparr>callbacks := callbacks e @ [c]\<rparr>"

definition count_stat ::
  "(nr_rlc_statistics \<Rightarrow> nr_rlc_statistics) \<Rightarrow> 'a nr_rlc_entity_scheme \<Rightarrow> 'a nr_rlc_entity_scheme"
where
  [simp]: "count_stat f e = e\<lparr>stats := f (stats e)\<rparr>"

definition add_tx_size :: "int \<Rightarrow> 'a nr_rlc_entity_scheme \<Rightarrow> 'a nr_rlc_entity_scheme" where
  [simp]: "add_tx_size n e = e\<lparr>bstatus := (bstatus e)\<lparr>bs_tx_size := bs_tx_size (bstatus e) + n\<rparr>\<rparr>"

definition add_retx_size :: "int \<Rightarrow> 'a nr_rlc_entity_scheme \<Rightarrow> 'a nr_rlc_entity_scheme" where
  [simp]: "add_retx_size n e = e\<lparr>bstatus := (bstatus e)\<lparr>bs_retx_size := bs_retx_size (bstatus e) + n\<rparr>\<rparr>"

definition set_heap :: "sdu_heap \<Rightarrow> 'a nr_rlc_entity_scheme \<Rightarrow> 'a nr_rlc_entity_scheme" where
  [simp]: "set_heap h e = e\<lparr>heap := h\<rparr>"

text \<open>
  The sample taken at the end of \<open>generate_tx_pdu\<close> when the average is switched on; \<open>now_us\<close> is
  the clock read \<open>time_average_now()\<close>.
\<close>

definition sample_waited_time ::
  "u64 \<Rightarrow> nr_rlc_sdu_segment \<Rightarrow> 'a nr_rlc_entity_scheme \<Rightarrow> 'a nr_rlc_entity_scheme" where
  "sample_waited_time now_us seg e =
     (if avg_time_is_on e
      then e\<lparr>txsdu_avg_time_to_tx :=
               time_average_add (txsdu_avg_time_to_tx e) now_us
                 (now_us - sdu_time_of_arrival (sdu_of (heap e) seg))\<rparr>
      else e)"

definition stamp_arrival ::
  "u64 \<Rightarrow> nr_rlc_sdu_segment \<Rightarrow> 'a nr_rlc_entity_scheme \<Rightarrow> 'a nr_rlc_entity_scheme" where
  "stamp_arrival now_us seg e =
     (if avg_time_is_on e
      then e\<lparr>heap := update_sdu (\<lambda>s. s\<lparr>sdu_time_of_arrival := now_us\<rparr>) seg (heap e)\<rparr>
      else e)"

text \<open>
  \<open>nr_rlc_entity_get_stats\<close>, given the head-of-line segment of the entity's mode.
\<close>

definition get_stats_hol ::
  "nr_rlc_sdu_segment option \<Rightarrow> u64 \<Rightarrow> 'a nr_rlc_entity_scheme
   \<Rightarrow> nr_rlc_statistics \<times> 'a nr_rlc_entity_scheme" where
  "get_stats_hol hol time_now e =
     (let out = (stats e)\<lparr>txsdu_wt_us :=
            (case hol of
               Some seg \<Rightarrow> ucast (time_now - sdu_time_of_arrival (sdu_of (heap e) seg))
             | None \<Rightarrow> 0)\<rparr>
      in if avg_time_is_on e
         then (case time_average_get_average (txsdu_avg_time_to_tx e) time_now of
                 (avg, t) \<Rightarrow> (out\<lparr>st_txsdu_avg_time_to_tx := avg\<rparr>, e\<lparr>txsdu_avg_time_to_tx := t\<rparr>))
         else (out\<lparr>st_txsdu_avg_time_to_tx := 0\<rparr>, e))"

end
