(* ===== verification/Rlc_Rx_List.thy ===== *)
theory Rlc_Rx_List
  imports Rlc_Entity
begin

text \<open>
  The questions the AM and UM entities ask about their reception list: whether the bytes of a
  segment are already there, whether an SDU is complete, has been delivered or has a gap, and
  its reassembly. Both files hold the same static functions; they depend on the list only, so
  they are defined here once and each mode theory names its own copy.
\<close>

definition rx_from :: "int \<Rightarrow> nr_rlc_pdu list \<Rightarrow> nr_rlc_pdu list" where
  "rx_from sn l = dropWhile (\<lambda>p. pdu_sn p \<noteq> sn) l"

definition pdu_end :: "nr_rlc_pdu \<Rightarrow> int" where
  "pdu_end p = pdu_so p + pdu_size p"

text \<open>\<open>segment_already_received\<close>: the loop over the list, \<open>so\<close> and \<open>size\<close> (here \<open>sz\<close>) shrinking.\<close>

fun already_received_loop :: "nr_rlc_pdu list \<Rightarrow> int \<Rightarrow> int \<Rightarrow> int \<Rightarrow> bool" where
  "already_received_loop [] sn so sz = (sz \<le> 0)"
| "already_received_loop (l # ls) sn so sz =
     (if sz \<le> 0 then True
      else if pdu_sn l = sn then
        if pdu_so l \<le> so \<and> so < pdu_so l + pdu_size l then
          let covered = pdu_size l - (so - pdu_so l)
          in already_received_loop ls sn (so + covered) (sz - covered)
        else if pdu_so l \<le> so + sz - 1 \<and> so + sz - 1 < pdu_so l + pdu_size l then
          let covered = sz - (pdu_so l - so)
          in already_received_loop ls sn so (sz - covered)
        else already_received_loop ls sn so sz
      else already_received_loop ls sn so sz)"

text \<open>\<open>sdu_full\<close>: from the first segment of the SDU, no gap up to one marked as the last.\<close>

fun full_loop :: "int \<Rightarrow> nr_rlc_pdu list \<Rightarrow> int \<Rightarrow> bool" where
  "full_loop sn [] last_byte = False"
| "full_loop sn (l # ls) last_byte =
     (if pdu_sn l \<noteq> sn then False
      else if pdu_so l > last_byte + 1 then False
      else if pdu_is_last l then True
      else full_loop sn ls (max last_byte (pdu_so l + pdu_size l - 1)))"

definition rx_sdu_full :: "nr_rlc_pdu list \<Rightarrow> int \<Rightarrow> bool" where
  "rx_sdu_full list sn =
     (case rx_from sn list of
        [] \<Rightarrow> False
      | l # ls \<Rightarrow> if pdu_data l = None then False else full_loop sn (l # ls) (- 1))"

definition rx_sdu_delivered :: "nr_rlc_pdu list \<Rightarrow> int \<Rightarrow> bool" where
  "rx_sdu_delivered list sn =
     (case rx_from sn list of [] \<Rightarrow> False | l # ls \<Rightarrow> pdu_data l = None)"

fun missing_loop :: "int \<Rightarrow> nr_rlc_pdu list \<Rightarrow> int \<Rightarrow> bool" where
  "missing_loop sn [] last_byte = False"
| "missing_loop sn (l # ls) last_byte =
     (if pdu_sn l \<noteq> sn then False
      else if pdu_so l > last_byte + 1 then True
      else missing_loop sn ls (max last_byte (pdu_so l + pdu_size l - 1)))"

definition rx_sdu_has_missing_bytes :: "nr_rlc_pdu list \<Rightarrow> int \<Rightarrow> bool" where
  "rx_sdu_has_missing_bytes list sn =
     (case rx_from sn list of
        [] \<Rightarrow> False
      | l # ls \<Rightarrow> if pdu_data l = None then False else missing_loop sn (l # ls) (- 1))"

text \<open>
  The loop of \<open>reassemble_and_deliver\<close> from the first segment of the SDU. The bytes copied so
  far are \<open>acc\<close>, so the variable \<open>so\<close> of the code is their number. \<open>consume\<close> is what the mode
  does to a processed segment. The copy reads \<open>len\<close> bytes at \<open>data + so - pdu->so\<close>, which is
  outside the block when the segment starts beyond the bytes copied so far.
\<close>

fun reassemble_loop ::
  "(nr_rlc_pdu \<Rightarrow> nr_rlc_pdu) \<Rightarrow> int \<Rightarrow> nr_rlc_pdu list \<Rightarrow> byte list \<Rightarrow> bool \<Rightarrow> int
   \<Rightarrow> (nr_rlc_pdu list \<times> byte list \<times> bool \<times> int) res" where
  "reassemble_loop consume sn [] acc bad_sdu rx_size = Inr ([], acc, bad_sdu, rx_size)"
| "reassemble_loop consume sn (pdu # l) acc bad_sdu rx_size =
     (if pdu_sn pdu \<noteq> sn then Inr (pdu # l, acc, bad_sdu, rx_size)
      else
        let so = int (length acc);
            len = pdu_size pdu - (so - pdu_so pdu);
            bad = (bad_sdu \<or> so + len > NR_SDU_MAX)
        in rbind
             (if \<not> bad \<and> len > 0 then
                case pdu_data pdu of
                  None \<Rightarrow> Inl Null_deref
                | Some d \<Rightarrow> rbind (c_read d (so - pdu_so pdu) len) (\<lambda>bs. Inr (acc @ bs))
              else Inr acc)
             (\<lambda>acc'. rbind (reassemble_loop consume sn l acc' bad (rx_size - pdu_size pdu))
               (\<lambda>(l', acc'', bad', rx_size').
                  Inr (consume pdu # l', acc'', bad', rx_size'))))"

text \<open>
  The whole function on the list: \<open>Null_deref\<close> when no segment of the SDU is there. The result is
  the new list, the new \<open>rx_size\<close> and the SDU to deliver, if it was not too big.
\<close>

definition rx_reassemble ::
  "(nr_rlc_pdu \<Rightarrow> nr_rlc_pdu) \<Rightarrow> nr_rlc_pdu list \<Rightarrow> int \<Rightarrow> int
   \<Rightarrow> (nr_rlc_pdu list \<times> int \<times> byte list option) res" where
  "rx_reassemble consume list rx_size sn =
     (if rx_from sn list = [] then Inl Null_deref
      else rbind (reassemble_loop consume sn (rx_from sn list) [] False rx_size)
        (\<lambda>(l', acc, bad_sdu, rx_size').
           Inr (takeWhile (\<lambda>p. pdu_sn p \<noteq> sn) list @ l', rx_size',
                if bad_sdu then None else Some acc)))"

text \<open>
  The loop that steps over delivered SDUs. It inspects at most \<open>sn_modulus\<close> different numbers, so
  if that many are delivered it never ends: the fuel \<open>sn_modulus\<close> is exact.
\<close>

fun skip_delivered :: "nr_rlc_pdu list \<Rightarrow> int \<Rightarrow> nat \<Rightarrow> int \<Rightarrow> int res" where
  "skip_delivered list m 0 sn = Inl Endless_loop"
| "skip_delivered list m (Suc fuel) sn =
     (if rx_sdu_delivered list sn then skip_delivered list m fuel ((sn + 1) mod m) else Inr sn)"

section \<open>Soundness of the queries\<close>

definition byte_covered :: "nr_rlc_pdu list \<Rightarrow> int \<Rightarrow> int \<Rightarrow> bool" where
  "byte_covered l sn i \<longleftrightarrow> (\<exists>p \<in> set l. pdu_sn p = sn \<and> pdu_so p \<le> i \<and> i < pdu_end p)"

lemma byte_covered_Cons:
  "byte_covered (p # l) sn i \<longleftrightarrow> (pdu_sn p = sn \<and> pdu_so p \<le> i \<and> i < pdu_end p) \<or> byte_covered l sn i"
  by (auto simp: byte_covered_def)

lemma already_received_loop_sound:
  "already_received_loop l sn so sz \<Longrightarrow> so \<le> i \<Longrightarrow> i < so + sz \<Longrightarrow> byte_covered l sn i"
proof (induction l sn so sz rule: already_received_loop.induct)
  case (1 sn so sz)
  then show ?case by simp
next
  case (2 l ls sn so sz)
  show ?case
  proof (cases "pdu_so l \<le> i \<and> i < pdu_end l \<and> pdu_sn l = sn")
    case True
    then show ?thesis by (auto simp: byte_covered_def)
  next
    case False
    then have "byte_covered ls sn i"
      using 2 by (auto simp: Let_def pdu_end_def split: if_splits)
    then show ?thesis by (simp add: byte_covered_Cons)
  qed
qed

text \<open>A prefix of the bytes of an SDU, gap free as \<open>full_loop\<close> checks it.\<close>

fun gap_free :: "nr_rlc_pdu list \<Rightarrow> int \<Rightarrow> bool" where
  "gap_free [] e = True"
| "gap_free (p # ps) e = (pdu_so p \<le> e \<and> gap_free ps (max e (pdu_end p)))"

definition cover_end :: "nr_rlc_pdu list \<Rightarrow> int \<Rightarrow> int" where
  "cover_end ps e = foldl (\<lambda>e p. max e (pdu_end p)) e ps"

lemma cover_end_simps [simp]:
  "cover_end [] e = e"
  "cover_end (p # ps) e = cover_end ps (max e (pdu_end p))"
  by (simp_all add: cover_end_def)

lemma cover_end_ge: "e \<le> cover_end ps e"
proof (induction ps arbitrary: e)
  case Nil
  then show ?case by simp
next
  case (Cons p ps)
  have "max e (pdu_end p) \<le> cover_end ps (max e (pdu_end p))" by (rule Cons.IH)
  then show ?case by simp
qed

lemma cover_end_mem: "p \<in> set ps \<Longrightarrow> pdu_end p \<le> cover_end ps e"
proof (induction ps arbitrary: e)
  case Nil
  then show ?case by simp
next
  case (Cons q ps)
  then show ?case using cover_end_ge[of "max e (pdu_end q)" ps] by auto
qed

lemma cover_end_le: "e \<le> n \<Longrightarrow> (\<And>p. p \<in> set ps \<Longrightarrow> pdu_end p \<le> n) \<Longrightarrow> cover_end ps e \<le> n"
  by (induction ps arbitrary: e) auto

end
