(* ===== verification/Rlc_Am_Core.thy ===== *)
theory Rlc_Am_Core
  imports Rlc_Rx_List
begin

text \<open>
  \<open>nr_rlc_entity_am.h\<close> and the first functions of \<open>nr_rlc_entity_am.c\<close>: the state of an
  acknowledged mode entity, header sizes, and the comparisons of sequence numbers relative to
  the reception window (\<open>rx_next\<close>) and the transmission window (\<open>tx_next_ack\<close>).

  The flags \<open>status_triggered\<close> and \<open>force_poll\<close> are booleans; \<open>tx_end\<close> and \<open>wait_end\<close> hold the
  address of a segment or null.
\<close>

section \<open>State\<close>

record nr_rlc_entity_am = nr_rlc_entity +
  am_t_poll_retransmit :: int
  am_t_reassembly :: int
  am_t_status_prohibit :: int
  am_poll_pdu :: int
  am_poll_byte :: int
  am_max_retx_threshold :: int
  am_sn_field_length :: nat
  am_sn_modulus :: int
  am_window_size :: int
  am_rx_next :: int
  am_rx_next_status_trigger :: int
  am_rx_highest_status :: int
  am_rx_next_highest :: int
  am_status_triggered :: bool
  am_tx_next :: int
  am_tx_next_ack :: int
  am_poll_sn :: int
  am_pdu_without_poll :: int
  am_byte_without_poll :: int
  am_force_poll :: bool
  am_t_current :: u64
  am_t_log_buffer_full :: u64
  am_sdu_rejected :: int
  am_t_poll_retransmit_start :: u64
  am_t_reassembly_start :: u64
  am_t_status_prohibit_start :: u64
  am_rx_list :: "nr_rlc_pdu list"
  am_rx_size :: int
  am_rx_maxsize :: int
  am_tx_list :: "nr_rlc_sdu_segment list"
  am_tx_end :: "nat option"
  am_tx_size :: int
  am_tx_maxsize :: int
  am_wait_list :: "nr_rlc_sdu_segment list"
  am_wait_end :: "nat option"
  am_retransmit_list :: "nr_rlc_sdu_segment list"

text \<open>
  The two configurations \<open>new_nr_rlc_entity_am\<close> makes: sequence numbers of 12 or 18 bits, the
  window half the modulus. The fields never change afterwards (but see
  \<open>nr_rlc_entity_am_reconfigure\<close>).
\<close>

definition am_config_ok :: "nr_rlc_entity_am \<Rightarrow> bool" where
  "am_config_ok e \<longleftrightarrow>
     (am_sn_field_length e = 12 \<or> am_sn_field_length e = 18)
     \<and> am_sn_modulus e = 2 ^ am_sn_field_length e
     \<and> am_window_size e = am_sn_modulus e div 2"

lemma am_config_cases:
  assumes "am_config_ok e"
  obtains (short) "am_sn_field_length e = 12" "am_sn_modulus e = 4096" "am_window_size e = 2048"
  | (long) "am_sn_field_length e = 18" "am_sn_modulus e = 262144" "am_window_size e = 131072"
  using assms by (auto simp: am_config_ok_def)

lemma am_config_pos: "am_config_ok e \<Longrightarrow> 0 < am_sn_modulus e \<and> 2 * am_window_size e = am_sn_modulus e"
  by (auto elim!: am_config_cases)

section \<open>Header sizes and comparisons\<close>

definition am_compute_pdu_header_size :: "nr_rlc_entity_am \<Rightarrow> nr_rlc_sdu_segment \<Rightarrow> int" where
  "am_compute_pdu_header_size entity sdu =
     2 + (if am_sn_field_length entity = 18 then 1 else 0) + (if \<not> seg_is_first sdu then 2 else 0)"

lemma am_header_size_bounds:
  "2 \<le> am_compute_pdu_header_size e s" "am_compute_pdu_header_size e s \<le> 5"
  by (simp_all add: am_compute_pdu_header_size_def)

definition am_modulus_rx :: "nr_rlc_entity_am \<Rightarrow> int \<Rightarrow> int" where
  "am_modulus_rx entity a =
     (let r = a - am_rx_next entity in if r < 0 then r + am_sn_modulus entity else r)"

definition am_modulus_tx :: "nr_rlc_entity_am \<Rightarrow> int \<Rightarrow> int" where
  "am_modulus_tx entity a =
     (let r = a - am_tx_next_ack entity in if r < 0 then r + am_sn_modulus entity else r)"

definition am_sn_in_recv_window :: "nr_rlc_entity_am \<Rightarrow> int \<Rightarrow> bool" where
  "am_sn_in_recv_window entity sn \<longleftrightarrow> am_modulus_rx entity sn < am_window_size entity"

definition am_sn_compare_rx :: "nr_rlc_entity_am \<Rightarrow> int \<Rightarrow> int \<Rightarrow> int" where
  "am_sn_compare_rx entity a b = am_modulus_rx entity a - am_modulus_rx entity b"

definition am_sn_compare_tx :: "nr_rlc_entity_am \<Rightarrow> int \<Rightarrow> int \<Rightarrow> int" where
  "am_sn_compare_tx entity a b = am_modulus_tx entity a - am_modulus_tx entity b"

text \<open>A sequence number of the entity.\<close>

definition am_sn_ok :: "nr_rlc_entity_am \<Rightarrow> int \<Rightarrow> bool" where
  "am_sn_ok e a \<longleftrightarrow> 0 \<le> a \<and> a < am_sn_modulus e"

lemma am_modulus_rx_dist:
  "am_sn_ok e (am_rx_next e) \<Longrightarrow> am_sn_ok e a \<Longrightarrow>
   am_modulus_rx e a = circ_dist (am_sn_modulus e) (am_rx_next e) a"
  by (simp add: am_modulus_rx_def circ_dist_cond am_sn_ok_def Let_def)

lemma am_modulus_tx_dist:
  "am_sn_ok e (am_tx_next_ack e) \<Longrightarrow> am_sn_ok e a \<Longrightarrow>
   am_modulus_tx e a = circ_dist (am_sn_modulus e) (am_tx_next_ack e) a"
  by (simp add: am_modulus_tx_def circ_dist_cond am_sn_ok_def Let_def)

definition nr_rlc_tx_sdu_segment_list_add ::
  "nr_rlc_entity_am \<Rightarrow> nr_rlc_sdu_segment list \<Rightarrow> nr_rlc_sdu_segment \<Rightarrow> nr_rlc_sdu_segment list" where
  "nr_rlc_tx_sdu_segment_list_add entity list sdu_segment =
     insert_before
       (\<lambda>s cur. sn_so_before (am_sn_compare_tx entity)
          (sdu_sn (sdu_of (heap entity) s), seg_so s) (sdu_sn (sdu_of (heap entity) cur), seg_so cur))
       sdu_segment list"

lemma tx_segment_list_add_set [simp]:
  "set (nr_rlc_tx_sdu_segment_list_add e l s) = insert s (set l)"
  "mset (nr_rlc_tx_sdu_segment_list_add e l s) = add_mset s (mset l)"
  "nr_rlc_tx_sdu_segment_list_add e l s \<noteq> []"
  "length (nr_rlc_tx_sdu_segment_list_add e l s) = Suc (length l)"
  by (simp_all add: nr_rlc_tx_sdu_segment_list_add_def)

text \<open>
  Both comparisons meet the contract of an ordering callback on the sequence numbers of the
  entity.
\<close>

interpretation am_rx: sn_order
  "am_sn_compare_rx e" "am_modulus_rx e"
  "\<lambda>a. am_sn_ok e (am_rx_next e) \<and> am_sn_ok e a" for e
proof unfold_locales
  fix a b
  assume a: "am_sn_ok e (am_rx_next e) \<and> am_sn_ok e a" and b: "am_sn_ok e (am_rx_next e) \<and> am_sn_ok e b"
  then show "am_sn_compare_rx e a b = am_modulus_rx e a - am_modulus_rx e b"
    by (simp add: am_sn_compare_rx_def)
  assume "am_modulus_rx e a = am_modulus_rx e b"
  then have "circ_dist (am_sn_modulus e) (am_rx_next e) a = circ_dist (am_sn_modulus e) (am_rx_next e) b"
    using a b by (metis am_modulus_rx_dist)
  then show "a = b" by (rule circ_dist_inj) (use a b in \<open>simp_all add: am_sn_ok_def\<close>)
qed

interpretation am_tx: sn_order
  "am_sn_compare_tx e" "am_modulus_tx e"
  "\<lambda>a. am_sn_ok e (am_tx_next_ack e) \<and> am_sn_ok e a" for e
proof unfold_locales
  fix a b
  assume a: "am_sn_ok e (am_tx_next_ack e) \<and> am_sn_ok e a" and b: "am_sn_ok e (am_tx_next_ack e) \<and> am_sn_ok e b"
  then show "am_sn_compare_tx e a b = am_modulus_tx e a - am_modulus_tx e b"
    by (simp add: am_sn_compare_tx_def)
  assume "am_modulus_tx e a = am_modulus_tx e b"
  then have "circ_dist (am_sn_modulus e) (am_tx_next_ack e) a = circ_dist (am_sn_modulus e) (am_tx_next_ack e) b"
    using a b by (metis am_modulus_tx_dist)
  then show "a = b" by (rule circ_dist_inj) (use a b in \<open>simp_all add: am_sn_ok_def\<close>)
qed

end
