(* ===== verification/Rlc_Am_Rx.thy ===== *)
theory Rlc_Am_Rx
  imports Rlc_Am_Core
begin

text \<open>
  Reception in acknowledged mode (\<open>nr_rlc_entity_am.c\<close>): the queries on the reception list,
  reassembly and delivery, the actions after a PDU is stored, and the parsing of data PDUs.
\<close>

section \<open>Reception list\<close>

definition am_segment_already_received :: "nr_rlc_entity_am \<Rightarrow> int \<Rightarrow> int \<Rightarrow> int \<Rightarrow> bool" where
  "am_segment_already_received entity sn so sz = already_received_loop (am_rx_list entity) sn so sz"

definition am_sdu_full :: "nr_rlc_entity_am \<Rightarrow> int \<Rightarrow> bool" where
  "am_sdu_full entity sn = rx_sdu_full (am_rx_list entity) sn"

definition am_sdu_delivered :: "nr_rlc_entity_am \<Rightarrow> int \<Rightarrow> bool" where
  "am_sdu_delivered entity sn = rx_sdu_delivered (am_rx_list entity) sn"

definition am_sdu_has_missing_bytes :: "nr_rlc_entity_am \<Rightarrow> int \<Rightarrow> bool" where
  "am_sdu_has_missing_bytes entity sn = rx_sdu_has_missing_bytes (am_rx_list entity) sn"

text \<open>A processed segment stays in the list without its data.\<close>

definition am_consume :: "nr_rlc_pdu \<Rightarrow> nr_rlc_pdu" where
  "am_consume pdu = pdu\<lparr>pdu_data := None\<rparr>"

definition am_reassemble_and_deliver :: "nr_rlc_entity_am \<Rightarrow> int \<Rightarrow> nr_rlc_entity_am res" where
  "am_reassemble_and_deliver entity sn =
     rbind (rx_reassemble am_consume (am_rx_list entity) (am_rx_size entity) sn)
       (\<lambda>(rx_list, rx_size, sdu).
          let e1 = entity\<lparr>am_rx_list := rx_list, am_rx_size := rx_size\<rparr>
          in Inr (case sdu of
                None \<Rightarrow> e1
              | Some data \<Rightarrow>
                  count_stat (\<lambda>s. s\<lparr>txsdu_pkts := txsdu_pkts s + 1\<rparr>) (call (Deliver_sdu data) e1)))"

section \<open>Reception actions\<close>

text \<open>
  The loop that frees all delivered SDUs at the head of the list, with all their segments, and
  moves \<open>rx_next\<close>.
\<close>

function free_delivered :: "int \<Rightarrow> nr_rlc_pdu list \<Rightarrow> int \<Rightarrow> nr_rlc_pdu list \<times> int" where
  "free_delivered m [] rx_next = ([], rx_next)"
| "free_delivered m (p # l) rx_next =
     (if pdu_data p = None \<and> pdu_sn p = rx_next
      then free_delivered m (dropWhile (\<lambda>q. pdu_sn q = rx_next) l) ((rx_next + 1) mod m)
      else (p # l, rx_next))"
  by pat_completeness auto
termination
  by (relation "measure (\<lambda>(m, l, sn). length l)") (auto simp: le_imp_less_Suc length_dropWhile_le)

definition am_sdu_received :: "nr_rlc_entity_am \<Rightarrow> int \<Rightarrow> nr_rlc_entity_am res" where
  "am_sdu_received entity x =
     rbind (am_reassemble_and_deliver entity x) (\<lambda>e1.
     rbind (if x = am_rx_highest_status e1
            then rbind (skip_delivered (am_rx_list e1) (am_sn_modulus e1) (nat (am_sn_modulus e1))
                          (am_rx_highest_status e1))
                   (\<lambda>sn. Inr (e1\<lparr>am_rx_highest_status := sn\<rparr>))
            else Inr e1) (\<lambda>e2.
     Inr (if x = am_rx_next e2
          then case free_delivered (am_sn_modulus e2) (am_rx_list e2) (am_rx_next e2) of
                 (l, sn) \<Rightarrow> e2\<lparr>am_rx_list := l, am_rx_next := sn\<rparr>
          else e2)))"

definition am_stop_t_reassembly :: "nr_rlc_entity_am \<Rightarrow> nr_rlc_entity_am" where
  "am_stop_t_reassembly e =
     (if am_t_reassembly_start e \<noteq> 0
         \<and> (am_rx_next_status_trigger e = am_rx_next e
            \<or> (am_rx_next_status_trigger e = (am_rx_next e + 1) mod am_sn_modulus e
               \<and> \<not> am_sdu_has_missing_bytes e (am_rx_next e))
            \<or> (\<not> am_sn_in_recv_window e (am_rx_next_status_trigger e)
               \<and> am_rx_next_status_trigger e
                   \<noteq> (am_rx_next e + am_window_size e) mod am_sn_modulus e))
      then e\<lparr>am_t_reassembly_start := 0\<rparr> else e)"

definition am_start_t_reassembly :: "nr_rlc_entity_am \<Rightarrow> nr_rlc_entity_am" where
  "am_start_t_reassembly e =
     (if am_t_reassembly_start e = 0
         \<and> (am_sn_compare_rx e (am_rx_next_highest e) ((am_rx_next e + 1) mod am_sn_modulus e) > 0
            \<or> (am_rx_next_highest e = (am_rx_next e + 1) mod am_sn_modulus e
               \<and> am_sdu_has_missing_bytes e (am_rx_next e)))
      then e\<lparr>am_t_reassembly_start := am_t_current e,
             am_rx_next_status_trigger := am_rx_next_highest e\<rparr>
      else e)"

definition am_reception_actions :: "nr_rlc_entity_am \<Rightarrow> nr_rlc_pdu \<Rightarrow> nr_rlc_entity_am res" where
  "am_reception_actions entity pdu =
     (let x = pdu_sn pdu;
          e1 = (if am_sn_compare_rx entity x (am_rx_next_highest entity) \<ge> 0
                then entity\<lparr>am_rx_next_highest := (x + 1) mod am_sn_modulus entity\<rparr>
                else entity)
      in rbind (if am_sdu_full e1 x then am_sdu_received e1 x else Inr e1)
           (\<lambda>e2. Inr (am_start_t_reassembly (am_stop_t_reassembly e2))))"

section \<open>Data PDUs\<close>

record am_data_header =
  dh_p :: int
  dh_sn :: int
  dh_so :: int
  dh_is_first :: bool
  dh_is_last :: bool
  dh_data_size :: int

text \<open>
  The header of a data PDU, read by the decoder \<open>d\<close> behind the D/C bit. A decoding error jumps
  to the label \<open>err\<close>, which discards the PDU; the discarded PDU is \<open>Inr (Inl p)\<close>, since the
  label \<open>discard\<close> uses the poll bit \<open>p\<close> read so far.
\<close>

definition or_discard :: "int \<Rightarrow> 'a res \<Rightarrow> ('a \<Rightarrow> (int + 'b) res) \<Rightarrow> (int + 'b) res" where
  "or_discard p m f =
     (case m of
        Inl e \<Rightarrow> if e = Decode_error then Inr (Inl p) else Inl e
      | Inr x \<Rightarrow> f x)"

lemma or_discard_simps [simp]:
  "or_discard p (Inr x) f = f x"
  "or_discard p (Inl Decode_error) f = Inr (Inl p)"
  by (simp_all add: or_discard_def)

definition am_parse_data_header ::
  "nr_rlc_entity_am \<Rightarrow> nr_rlc_pdu_decoder \<Rightarrow> int \<Rightarrow> (int + am_data_header) res" where
  "am_parse_data_header entity d0 sz =
     or_discard 0 (get_bits_R d0 1) (\<lambda>(p, d1).
     or_discard p (get_bits_R d1 2) (\<lambda>(si, d2).
     let is_first = (si AND 2 = 0);
         is_last = (si AND 1 = 0)
     in or_discard p (if am_sn_field_length entity = 18
                      then rbind (get_bits_R d2 2) (\<lambda>(r, d3). Inr d3) else Inr d2) (\<lambda>d3.
     or_discard p (get_bits_R d3 (am_sn_field_length entity)) (\<lambda>(sn, d4).
     or_discard p (if \<not> is_first then get_bits_R d4 16 else Inr (0, d4)) (\<lambda>(so, d5).
     if \<not> is_first \<and> so = 0 then Inr (Inl p)
     else
       let data_size = sz - int (dec_byte d5)
       in if data_size \<le> 0 then Inr (Inl p)
          else Inr (Inr \<lparr>dh_p = p, dh_sn = sn, dh_so = so, dh_is_first = is_first,
                         dh_is_last = is_last, dh_data_size = data_size\<rparr>))))))"

definition am_discard_pdu :: "nr_rlc_entity_am \<Rightarrow> int \<Rightarrow> int \<Rightarrow> nr_rlc_entity_am" where
  "am_discard_pdu e p sz =
     count_stat (\<lambda>s. s\<lparr>rxpdu_dd_pkts := rxpdu_dd_pkts s + 1,
                       rxpdu_dd_bytes := rxpdu_dd_bytes s + word_of_int sz\<rparr>)
       (if p \<noteq> 0 then e\<lparr>am_status_triggered := True\<rparr> else e)"

text \<open>Storing an accepted PDU and acting on it.\<close>

definition am_store_pdu ::
  "nr_rlc_entity_am \<Rightarrow> am_data_header \<Rightarrow> byte list \<Rightarrow> nr_rlc_entity_am res" where
  "am_store_pdu e h buffer =
     (let pdu = nr_rlc_new_pdu (dh_sn h) (dh_so h) (dh_is_first h) (dh_is_last h)
                  (drop (length buffer - nat (dh_data_size h)) buffer);
          e1 = e\<lparr>am_rx_size := am_rx_size e + dh_data_size h,
                 am_rx_list := nr_rlc_pdu_list_add (am_sn_compare_rx e) (am_rx_list e) pdu\<rparr>
      in rbind (am_reception_actions e1 pdu)
           (\<lambda>e2. Inr (if dh_p h \<noteq> 0 then e2\<lparr>am_status_triggered := True\<rparr> else e2)))"

definition am_recv_data_pdu ::
  "nr_rlc_entity_am \<Rightarrow> nr_rlc_pdu_decoder \<Rightarrow> byte list \<Rightarrow> nr_rlc_entity_am res" where
  "am_recv_data_pdu e d buffer =
     (let sz = int (length buffer)
      in rbind (am_parse_data_header e d sz) (\<lambda>r. case r of
           Inl p \<Rightarrow> Inr (am_discard_pdu e p sz)
         | Inr h \<Rightarrow>
             if am_rx_size e + dh_data_size h > am_rx_maxsize e then Inr (am_discard_pdu e (dh_p h) sz)
             else if \<not> am_sn_in_recv_window e (dh_sn h) then
               Inr (am_discard_pdu
                 (count_stat (\<lambda>s. s\<lparr>rxpdu_ow_pkts := rxpdu_ow_pkts s + 1,
                                    rxpdu_ow_bytes := rxpdu_ow_bytes s + word_of_int sz\<rparr>) e)
                 (dh_p h) sz)
             else if am_segment_already_received e (dh_sn h) (dh_so h) (dh_data_size h) then
               Inr (am_discard_pdu
                 (count_stat (\<lambda>s. s\<lparr>rxpdu_dup_pkts := rxpdu_dup_pkts s + 1,
                                    rxpdu_dup_bytes := rxpdu_dup_bytes s + word_of_int sz\<rparr>) e)
                 (dh_p h) sz)
             else am_store_pdu e h buffer))"

end
