(* ===== verification/Rlc_Am_Control.thy ===== *)
theory Rlc_Am_Control
  imports Rlc_Am_Rx
begin

text \<open>
  \<open>process_control_pdu\<close> of \<open>nr_rlc_entity_am.c\<close>: a received STATUS PDU is validated in a first
  pass and applied in a second one, which merges the wait list and the retransmission list in
  sequence number order, frees what is acknowledged and queues what is not.
\<close>

section \<open>Validation\<close>

definition am_so_overlap :: "int \<Rightarrow> int \<Rightarrow> int \<Rightarrow> int \<Rightarrow> bool" where
  "am_so_overlap s1 e1 s2 e2 = (if s1 < s2 then e1 = - 1 \<or> e1 \<ge> s2 else e2 = - 1 \<or> s1 \<le> e2)"

text \<open>
  The fixed part (CPT, ACK_SN and the first E1) and one NACK block. Both passes read them with
  the same calls, the first one through the macro \<open>R\<close>; \<open>rd\<close> is the read.
\<close>

type_synonym bits_reader = "nr_rlc_pdu_decoder \<Rightarrow> nat \<Rightarrow> (int \<times> nr_rlc_pdu_decoder) res"

record am_nack =
  nk_sn :: int
  nk_e1 :: int
  nk_so_start :: int
  nk_so_end :: int
  nk_range :: int

definition am_read_ack ::
  "bits_reader \<Rightarrow> nr_rlc_entity_am \<Rightarrow> byte list \<Rightarrow> (int \<times> int \<times> int \<times> nr_rlc_pdu_decoder) res" where
  "am_read_ack rd entity buffer =
     rbind (rd (nr_rlc_pdu_decoder_init buffer) 1) (\<lambda>(dc, d1).
     rbind (rd d1 3) (\<lambda>(cpt, d2).
     rbind (rd d2 (am_sn_field_length entity)) (\<lambda>(ack_sn, d3).
     rbind (rd d3 1) (\<lambda>(e1, d4).
     rbind (rd d4 (if am_sn_field_length entity = 18 then 1 else 7)) (\<lambda>(r, d5).
     Inr (cpt, ack_sn, e1, d5))))))"

definition am_read_nack ::
  "bits_reader \<Rightarrow> nr_rlc_entity_am \<Rightarrow> nr_rlc_pdu_decoder \<Rightarrow> (am_nack \<times> nr_rlc_pdu_decoder) res" where
  "am_read_nack rd entity d0 =
     rbind (rd d0 (am_sn_field_length entity)) (\<lambda>(nack_sn, d1).
     rbind (rd d1 1) (\<lambda>(e1, d2).
     rbind (rd d2 1) (\<lambda>(e2, d3).
     rbind (rd d3 1) (\<lambda>(e3, d4).
     rbind (rd d4 (if am_sn_field_length entity = 18 then 3 else 1)) (\<lambda>(r, d5).
     rbind (if e2 \<noteq> 0
            then rbind (rd d5 16) (\<lambda>(so_start, d6).
                 rbind (rd d6 16) (\<lambda>(so_end, d7). Inr (so_start, so_end, d7)))
            else Inr (0, 65535, d5)) (\<lambda>(so_start, so_end, d8).
     rbind (if e3 \<noteq> 0 then rd d8 8 else Inr (1, d8)) (\<lambda>(range, d9).
     Inr (\<lparr>nk_sn = nack_sn, nk_e1 = e1, nk_so_start = so_start,
           nk_so_end = (if so_end = 65535 then - 1 else so_end), nk_range = range\<rparr>, d9))))))))"

text \<open>
  The \<open>i\<close>th sequence number of a NACK range, with its part of the byte range.
\<close>

definition am_cur_nack :: "nr_rlc_entity_am \<Rightarrow> am_nack \<Rightarrow> int \<Rightarrow> int \<times> int \<times> int" where
  "am_cur_nack entity k i =
     ((nk_sn k + i) mod am_sn_modulus entity,
      (if i = 0 then nk_so_start k else 0),
      (if i = nk_range k - 1 then nk_so_end k else - 1))"

text \<open>
  The checks of the first pass on one NACK, against the previous one (which the code never
  records in this pass: \<open>prev_nack_sn\<close> stays \<open>-1\<close>).
\<close>

definition am_check_nack ::
  "nr_rlc_entity_am \<Rightarrow> int \<Rightarrow> int \<times> int \<times> int \<Rightarrow> int \<times> int \<times> int \<Rightarrow> bool" where
  "am_check_nack entity ack_sn prev cur =
     (case prev of (prev_nack_sn, prev_so_start, prev_so_end) \<Rightarrow>
      case cur of (cur_nack_sn, cur_so_start, cur_so_end) \<Rightarrow>
        let cmp = am_sn_compare_tx entity cur_nack_sn prev_nack_sn
        in \<not> (prev_nack_sn \<noteq> - 1 \<and> (cmp < 0 \<or> (cmp = 0 \<and> (prev_so_end = - 1 \<or> cur_so_start \<le> prev_so_end))))
           \<and> \<not> am_sn_compare_tx entity cur_nack_sn ack_sn > 0)"

text \<open>
  The loop over the NACK blocks. Every block takes more than a byte, so the length of the
  buffer is enough fuel.
\<close>

fun am_validate_nacks ::
  "nr_rlc_entity_am \<Rightarrow> int \<Rightarrow> nat \<Rightarrow> int \<Rightarrow> nr_rlc_pdu_decoder \<Rightarrow> unit res" where
  "am_validate_nacks entity ack_sn fuel e1 d =
     (if e1 = 0 then Inr ()
      else case fuel of
        0 \<Rightarrow> Inl Endless_loop
      | Suc fuel' \<Rightarrow>
          rbind (am_read_nack get_bits_R entity d) (\<lambda>(k, d').
          rbind (rcheck (\<forall>i \<in> {0..<nat (nk_range k)}.
                   am_check_nack entity ack_sn (- 1, 0, 0) (am_cur_nack entity k (int i))) Decode_error) (\<lambda>_.
          am_validate_nacks entity ack_sn fuel' (nk_e1 k) d')))"

declare am_validate_nacks.simps [simp del]

text \<open>
  The result of the first pass: \<open>Inl Decode_error\<close> is the label \<open>err\<close>, \<open>Inr False\<close> the silent
  return for an ACK outside the window. (The test of CPT stands behind the reads of the fixed
  part instead of between them: either failure jumps to \<open>err\<close> before anything else happens.)
\<close>

definition am_validate_control :: "nr_rlc_entity_am \<Rightarrow> byte list \<Rightarrow> bool res" where
  "am_validate_control entity buffer =
     rbind (am_read_ack get_bits_R entity buffer) (\<lambda>(cpt, ack_sn, e1, d).
       if cpt \<noteq> 0 then Inl Decode_error
       else if am_sn_compare_tx entity ack_sn (am_tx_next entity) > 0 then Inr False
       else rbind (am_validate_nacks entity ack_sn (length buffer) e1 d) (\<lambda>_. Inr True))"

section \<open>Application\<close>

text \<open>
  The local pointers of the second pass. \<open>cs_kept\<close> is the wait list up to and including
  \<open>prev_wait_list\<close> (the list head when empty) and \<open>cs_wait\<close> what hangs behind it; the pointer
  \<open>cur_wait_list\<close> is the first segment of \<open>cs_wait\<close>, or null when there is none or \<open>cs_stop\<close>
  is set. \<open>cs_end\<close> is \<open>end_wait_list\<close>: \<open>None\<close> for null, \<open>Some None\<close> for the address of the list
  head, \<open>Some (Some a)\<close> for the segment at \<open>a\<close>. \<open>cs_retx\<close> starts at \<open>cur_retransmit_list\<close>,
  \<open>cs_new\<close> is the list up to \<open>new_retransmit_list\<close> and \<open>cs_tail\<close> what its \<open>next\<close> points to.
\<close>

record am_ctrl =
  cs_entity :: nr_rlc_entity_am
  cs_kept :: "nr_rlc_sdu_segment list"
  cs_wait :: "nr_rlc_sdu_segment list"
  cs_stop :: bool
  cs_end :: "nat option option"
  cs_retx :: "nr_rlc_sdu_segment list"
  cs_new :: "nr_rlc_sdu_segment list"
  cs_tail :: "nr_rlc_sdu_segment list"

datatype nack_step = Next_pdu | Done_nack | Lists_over

definition cs_cur_wait :: "am_ctrl \<Rightarrow> nr_rlc_sdu_segment option" where
  "cs_cur_wait c = (if cs_stop c then None else case cs_wait c of [] \<Rightarrow> None | s # _ \<Rightarrow> Some s)"

definition seg_sn :: "am_ctrl \<Rightarrow> nr_rlc_sdu_segment \<Rightarrow> int" where
  "seg_sn c s = sdu_sn (sdu_of (heap (cs_entity c)) s)"

text \<open>Unlinking the head of the wait list, with the bookkeeping of its end.\<close>

definition am_unlink_wait :: "nr_rlc_sdu_segment \<Rightarrow> am_ctrl \<Rightarrow> am_ctrl" where
  "am_unlink_wait cur c =
     c\<lparr>cs_wait := tl (cs_wait c),
       cs_end := (if am_wait_end (cs_entity c) = Some (seg_addr cur)
                  then Some (list_end (cs_kept c)) else cs_end c)\<rparr>"

text \<open>An acknowledged segment is freed; its SDU is reported when that was the last segment.\<close>

definition am_free_acked :: "nr_rlc_sdu_segment \<Rightarrow> nr_rlc_entity_am \<Rightarrow> nr_rlc_entity_am" where
  "am_free_acked cur e =
     (let upper_layer_id = sdu_upper_layer_id (sdu_of (heap e) cur);
          sz = sdu_size (sdu_of (heap e) cur)
      in case nr_rlc_free_sdu_segment cur (heap e) of (freed, h) \<Rightarrow>
           if freed
           then call (Sdu_successful_delivery upper_layer_id)
                  (count_stat (\<lambda>s. s\<lparr>txsdu_bytes := txsdu_bytes s + word_of_int sz\<rparr>)
                    ((set_heap h e)\<lparr>am_tx_size := am_tx_size e - sz\<rparr>))
           else set_heap h e)"

definition am_ack_wait :: "nr_rlc_sdu_segment \<Rightarrow> am_ctrl \<Rightarrow> am_ctrl" where
  "am_ack_wait cur c = (am_unlink_wait cur c)\<lparr>cs_entity := am_free_acked cur (cs_entity c)\<rparr>"

definition am_ack_retx :: "nr_rlc_sdu_segment \<Rightarrow> am_ctrl \<Rightarrow> am_ctrl" where
  "am_ack_retx cur c =
     c\<lparr>cs_retx := tl (cs_retx c),
       cs_entity := am_free_acked cur
         (add_retx_size (- (am_compute_pdu_header_size (cs_entity c) cur + seg_size cur))
           (cs_entity c))\<rparr>"

text \<open>A segment of the wait list that the NACK overlaps goes to the new retransmission list.\<close>

definition am_nack_wait :: "nr_rlc_sdu_segment \<Rightarrow> am_ctrl \<Rightarrow> am_ctrl" where
  "am_nack_wait cur c =
     (let c1 = am_unlink_wait cur c;
          e = cs_entity c;
          e1 = set_heap (update_sdu (\<lambda>s. s\<lparr>sdu_retx_count := sdu_retx_count s + 1\<rparr>) cur (heap e)) e;
          sdu = sdu_of (heap e1) cur;
          e2 = (if sdu_retx_count sdu \<ge> am_max_retx_threshold e1 * sdu_ref_count sdu
                then call Max_retx_reached e1 else e1)
      in c1\<lparr>cs_new := cs_new c @ [cur], cs_tail := [],
            cs_entity := add_retx_size (am_compute_pdu_header_size e2 cur + seg_size cur) e2\<rparr>)"

definition am_keep_retx :: "nr_rlc_sdu_segment \<Rightarrow> am_ctrl \<Rightarrow> am_ctrl" where
  "am_keep_retx cur c = c\<lparr>cs_new := cs_new c @ [cur], cs_tail := [], cs_retx := tl (cs_retx c)\<rparr>"

text \<open>
  The two blocks \<open>process_wait_list_head\<close> and \<open>process_retransmit_list_head\<close>, for the current
  NACK and the ACK.
\<close>

definition am_process_wait_list_head ::
  "int \<Rightarrow> int \<times> int \<times> int \<Rightarrow> nr_rlc_sdu_segment \<Rightarrow> am_ctrl \<Rightarrow> am_ctrl \<times> nack_step" where
  "am_process_wait_list_head ack_sn nack cur c =
     (case nack of (cur_nack_sn, cur_so_start, cur_so_end) \<Rightarrow>
      let e = cs_entity c; sn = seg_sn c cur; cmp = am_sn_compare_tx e sn cur_nack_sn
      in if sn = cur_nack_sn
            \<and> am_so_overlap cur_so_start cur_so_end (seg_so cur) (seg_so cur + seg_size cur - 1)
         then (am_nack_wait cur c, Next_pdu)
         else if cmp > 0 \<or> (cmp = 0 \<and> seg_so cur > cur_so_start) then (c, Done_nack)
         else if am_sn_compare_tx e sn ack_sn < 0 then (am_ack_wait cur c, Next_pdu)
         else if am_sn_compare_tx e sn ack_sn > 0 then (c\<lparr>cs_stop := True\<rparr>, Next_pdu)
         else (c\<lparr>cs_kept := cs_kept c @ [cur], cs_wait := tl (cs_wait c)\<rparr>, Next_pdu))"

definition am_process_retransmit_list_head ::
  "int \<Rightarrow> int \<times> int \<times> int \<Rightarrow> nr_rlc_sdu_segment \<Rightarrow> am_ctrl \<Rightarrow> am_ctrl \<times> nack_step" where
  "am_process_retransmit_list_head ack_sn nack cur c =
     (case nack of (cur_nack_sn, cur_so_start, cur_so_end) \<Rightarrow>
      let e = cs_entity c; sn = seg_sn c cur; cmp = am_sn_compare_tx e sn cur_nack_sn
      in if sn = cur_nack_sn
            \<and> am_so_overlap cur_so_start cur_so_end (seg_so cur) (seg_so cur + seg_size cur - 1)
         then (am_keep_retx cur c, Next_pdu)
         else if cmp > 0 \<or> (cmp = 0 \<and> seg_so cur > cur_so_start) then (c, Done_nack)
         else if am_sn_compare_tx e sn ack_sn < 0 then (am_ack_retx cur c, Next_pdu)
         else if cs_cur_wait c = None then (c\<lparr>cs_tail := cs_retx c, cs_retx := []\<rparr>, Lists_over)
         else (am_keep_retx cur c, Next_pdu))"

text \<open>The label \<open>process_next_pdu\<close>: take the smaller of the two heads.\<close>

definition am_process_next_pdu ::
  "int \<Rightarrow> int \<times> int \<times> int \<Rightarrow> am_ctrl \<Rightarrow> am_ctrl \<times> nack_step" where
  "am_process_next_pdu ack_sn nack c =
     (case (cs_cur_wait c, cs_retx c) of
        (None, []) \<Rightarrow> (c, Lists_over)
      | (None, r # _) \<Rightarrow> am_process_retransmit_list_head ack_sn nack r c
      | (Some w, []) \<Rightarrow> am_process_wait_list_head ack_sn nack w c
      | (Some w, r # _) \<Rightarrow>
          let cmp = am_sn_compare_tx (cs_entity c) (seg_sn c w) (seg_sn c r)
          in if cmp < 0 \<or> (cmp = 0 \<and> seg_so w < seg_so r)
             then am_process_wait_list_head ack_sn nack w c
             else am_process_retransmit_list_head ack_sn nack r c)"

text \<open>Every round that goes on takes a segment off one of the lists, or sets \<open>cs_stop\<close>.\<close>

definition cs_work :: "am_ctrl \<Rightarrow> nat" where
  "cs_work c = length (cs_wait c) + length (cs_retx c) + (if cs_stop c then 0 else 1)"

lemma cs_cur_wait_Some: "cs_cur_wait c = Some w \<longleftrightarrow> \<not> cs_stop c \<and> (\<exists>l. cs_wait c = w # l)"
  by (auto simp: cs_cur_wait_def split: list.splits)

lemma am_process_wait_list_head_work:
  assumes "cs_cur_wait c = Some w" "am_process_wait_list_head a k w c = (c', Next_pdu)"
  shows "cs_work c' < cs_work c"
  using assms
  by (cases k) (auto simp: am_process_wait_list_head_def Let_def cs_cur_wait_Some cs_work_def
      am_nack_wait_def am_ack_wait_def am_unlink_wait_def split: if_splits)

lemma am_process_retransmit_list_head_work:
  assumes "cs_retx c = r # l" "am_process_retransmit_list_head a k r c = (c', Next_pdu)"
  shows "cs_work c' < cs_work c"
  using assms
  by (cases k) (auto simp: am_process_retransmit_list_head_def Let_def cs_work_def
      am_keep_retx_def am_ack_retx_def split: if_splits)

text \<open>The cases of a round, which the proofs about the loop share.\<close>

lemma am_process_next_pdu_cases:
  assumes "am_process_next_pdu a k c = (c', st)"
  obtains (over) "cs_cur_wait c = None" "cs_retx c = []" "c' = c" "st = Lists_over"
  | (wait) w where "cs_cur_wait c = Some w" "am_process_wait_list_head a k w c = (c', st)"
  | (retx) r l where "cs_retx c = r # l" "am_process_retransmit_list_head a k r c = (c', st)"
  using assms by (auto simp: am_process_next_pdu_def Let_def split: option.splits list.splits if_splits)

lemma am_process_next_pdu_work:
  "am_process_next_pdu a k c = (c', Next_pdu) \<Longrightarrow> cs_work c' < cs_work c"
  by (elim am_process_next_pdu_cases)
    (auto dest: am_process_wait_list_head_work am_process_retransmit_list_head_work)

function am_process_nack :: "int \<Rightarrow> int \<times> int \<times> int \<Rightarrow> am_ctrl \<Rightarrow> am_ctrl \<times> bool" where
  "am_process_nack ack_sn nack c =
     (case am_process_next_pdu ack_sn nack c of
        (c', st) \<Rightarrow> if st = Next_pdu then am_process_nack ack_sn nack c' else (c', st = Lists_over))"
  by pat_completeness auto
termination
  by (relation "measure (\<lambda>(a, n, c). cs_work c)") (auto dest: am_process_next_pdu_work[OF sym])

declare am_process_nack.simps [simp del]

text \<open>
  The loop over the range of one NACK block, left early at \<open>lists_over\<close>, and the loop over the
  blocks.
\<close>

fun am_process_range ::
  "int \<Rightarrow> am_nack \<Rightarrow> int list \<Rightarrow> am_ctrl \<Rightarrow> am_ctrl" where
  "am_process_range ack_sn k [] c = c"
| "am_process_range ack_sn k (i # is) c =
     (case am_process_nack ack_sn (am_cur_nack (cs_entity c) k i) c of
        (c', over) \<Rightarrow> if over then c' else am_process_range ack_sn k is c')"

definition am_stop_poll_on_nack :: "am_nack \<Rightarrow> nr_rlc_entity_am \<Rightarrow> nr_rlc_entity_am" where
  "am_stop_poll_on_nack k e =
     (if am_sn_compare_tx e (nk_sn k) (am_poll_sn e) \<le> 0
         \<and> am_sn_compare_tx e (am_poll_sn e) ((nk_sn k + nk_range k) mod am_sn_modulus e) < 0
      then e\<lparr>am_t_poll_retransmit_start := 0\<rparr> else e)"

fun am_process_nacks ::
  "int \<Rightarrow> nat \<Rightarrow> int \<Rightarrow> nr_rlc_pdu_decoder \<Rightarrow> am_ctrl \<Rightarrow> am_ctrl res" where
  "am_process_nacks ack_sn fuel e1 d c =
     (if e1 = 0 then Inr c
      else case fuel of
        0 \<Rightarrow> Inl Endless_loop
      | Suc fuel' \<Rightarrow>
          rbind (am_read_nack nr_rlc_pdu_decoder_get_bits (cs_entity c) d) (\<lambda>(k, d').
            let c1 = am_process_range ack_sn k (map int [0..<nat (nk_range k)]) c;
                c2 = c1\<lparr>cs_entity := am_stop_poll_on_nack k (cs_entity c1)\<rparr>
            in am_process_nacks ack_sn fuel' (nk_e1 k) d' c2))"

declare am_process_nacks.simps [simp del]

text \<open>The loops that apply the ACK to what is left of both lists.\<close>

function am_ack_wait_list :: "int \<Rightarrow> am_ctrl \<Rightarrow> am_ctrl" where
  "am_ack_wait_list ack_sn c =
     (case cs_cur_wait c of
        None \<Rightarrow> c
      | Some w \<Rightarrow>
          if am_sn_compare_tx (cs_entity c) (seg_sn c w) ack_sn < 0
          then am_ack_wait_list ack_sn (am_ack_wait w c) else c)"
  by pat_completeness auto
termination
  by (relation "measure (\<lambda>(a, c). length (cs_wait c))")
    (auto simp: cs_cur_wait_def am_ack_wait_def am_unlink_wait_def split: if_splits list.splits)

function am_ack_retx_list :: "int \<Rightarrow> am_ctrl \<Rightarrow> am_ctrl" where
  "am_ack_retx_list ack_sn c =
     (case cs_retx c of
        [] \<Rightarrow> c
      | r # _ \<Rightarrow>
          if am_sn_compare_tx (cs_entity c) (seg_sn c r) ack_sn < 0
          then am_ack_retx_list ack_sn (am_ack_retx r c) else c)"
  by pat_completeness auto
termination
  by (relation "measure (\<lambda>(a, c). length (cs_retx c))") (auto simp: am_ack_retx_def)

declare am_ack_wait_list.simps [simp del] am_ack_retx_list.simps [simp del]

text \<open>Writing the lists back, and the new \<open>tx_next_ack\<close>.\<close>

definition am_finish_lists :: "am_ctrl \<Rightarrow> nr_rlc_entity_am" where
  "am_finish_lists c =
     (let c1 = c\<lparr>cs_tail := cs_retx c\<rparr>
      in (cs_entity c1)\<lparr>am_wait_list := cs_kept c1 @ cs_wait c1,
                        am_retransmit_list := cs_new c1 @ cs_tail c1,
                        am_wait_end := (case cs_end c1 of
                            None \<Rightarrow> am_wait_end (cs_entity c1) | Some w \<Rightarrow> w)\<rparr>)"

definition am_head_sn_below ::
  "nr_rlc_entity_am \<Rightarrow> nr_rlc_sdu_segment list \<Rightarrow> int \<Rightarrow> int" where
  "am_head_sn_below e l tx_next_ack =
     (case l of
        [] \<Rightarrow> tx_next_ack
      | s # _ \<Rightarrow>
          if am_sn_compare_tx e (sdu_sn (sdu_of (heap e) s)) tx_next_ack < 0
          then sdu_sn (sdu_of (heap e) s) else tx_next_ack)"

definition am_update_tx_next_ack :: "int \<Rightarrow> nr_rlc_entity_am \<Rightarrow> nr_rlc_entity_am" where
  "am_update_tx_next_ack ack_sn e =
     (let t1 = am_head_sn_below e (am_wait_list e) (am_tx_next e);
          t2 = am_head_sn_below e (am_retransmit_list e) t1;
          t3 = (if am_sn_compare_tx e ack_sn t2 < 0 then ack_sn else t2)
      in e\<lparr>am_tx_next_ack := t3\<rparr>)"

definition am_ctrl_init :: "nr_rlc_entity_am \<Rightarrow> am_ctrl" where
  "am_ctrl_init e =
     \<lparr>cs_entity = e, cs_kept = [], cs_wait = am_wait_list e, cs_stop = False, cs_end = None,
      cs_retx = am_retransmit_list e, cs_new = [], cs_tail = []\<rparr>"

definition am_apply_control :: "nr_rlc_entity_am \<Rightarrow> byte list \<Rightarrow> nr_rlc_entity_am res" where
  "am_apply_control entity buffer =
     rbind (am_read_ack nr_rlc_pdu_decoder_get_bits entity buffer) (\<lambda>(cpt, ack_sn, e1, d).
     let c0 = am_ctrl_init entity;
         c1 = c0\<lparr>cs_entity :=
                  (if am_sn_compare_tx entity (am_poll_sn entity) ack_sn < 0
                   then entity\<lparr>am_t_poll_retransmit_start := 0\<rparr> else entity)\<rparr>
     in rbind (am_process_nacks ack_sn (length buffer) e1 d c1) (\<lambda>c2.
        Inr (am_update_tx_next_ack ack_sn
              (am_finish_lists (am_ack_retx_list ack_sn (am_ack_wait_list ack_sn c2))))))"

text \<open>The whole function; the label \<open>err\<close> only logs.\<close>

definition am_process_control_pdu :: "nr_rlc_entity_am \<Rightarrow> byte list \<Rightarrow> nr_rlc_entity_am res" where
  "am_process_control_pdu entity buffer =
     (case am_validate_control entity buffer of
        Inl e \<Rightarrow> if e = Decode_error then Inr entity else Inl e
      | Inr False \<Rightarrow> Inr entity
      | Inr True \<Rightarrow> am_apply_control entity buffer)"

section \<open>Reception of a PDU\<close>

definition nr_rlc_entity_am_recv_pdu :: "nr_rlc_entity_am \<Rightarrow> byte list \<Rightarrow> nr_rlc_entity_am res" where
  "nr_rlc_entity_am_recv_pdu entity buffer =
     (let sz = int (length buffer);
          e = count_stat (\<lambda>s. s\<lparr>rxpdu_pkts := rxpdu_pkts s + 1,
                                rxpdu_bytes := rxpdu_bytes s + word_of_int sz\<rparr>) entity
      in case get_bits_R (nr_rlc_pdu_decoder_init buffer) 1 of
           Inl er \<Rightarrow> Inr (am_discard_pdu e 0 sz)
         | Inr (dc, d) \<Rightarrow>
             if dc = 0 then am_process_control_pdu e buffer else am_recv_data_pdu e d buffer)"

end
