(* ===== verification/Rlc_Am_Status.thy ===== *)
theory Rlc_Am_Status
  imports Rlc_Am_Rx
begin

text \<open>
  Status reporting of \<open>nr_rlc_entity_am.c\<close>: the search for missing bytes in the reception list,
  the generation of a STATUS PDU from it, and the computation of the size that PDU will have.
\<close>

section \<open>Missing data\<close>

text \<open>
  \<open>missing_data_t\<close>; \<open>md_next\<close> is the rest of the reception list the next call starts from. When
  the code sets \<open>sn_start\<close> to \<open>-1\<close> (nothing more to report) the result is \<open>None\<close>.
\<close>

record missing_data =
  md_sn_start :: int
  md_so_start :: int
  md_sn_end :: int
  md_so_end :: int
  md_next :: "nr_rlc_pdu list"

definition am_last_status_sn :: "nr_rlc_entity_am \<Rightarrow> int" where
  "am_last_status_sn e = (am_rx_highest_status e - 1 + am_sn_modulus e) mod am_sn_modulus e"

definition am_not_reportable :: "nr_rlc_entity_am \<Rightarrow> int \<Rightarrow> bool" where
  "am_not_reportable e sn \<longleftrightarrow> am_sn_compare_rx e (am_rx_highest_status e) sn \<le> 0"

text \<open>The label \<open>set_end_different_sdu\<close>, with \<open>cur\<close> the head of the list.\<close>

definition am_set_end_different_sdu ::
  "nr_rlc_entity_am \<Rightarrow> nr_rlc_pdu \<Rightarrow> nr_rlc_pdu list \<Rightarrow> int \<Rightarrow> int \<Rightarrow> missing_data" where
  "am_set_end_different_sdu e cur next sn_start so_start =
     (let ret = (if pdu_is_first cur
                 then \<lparr>md_sn_start = sn_start, md_so_start = so_start,
                       md_sn_end = (pdu_sn cur - 1 + am_sn_modulus e) mod am_sn_modulus e,
                       md_so_end = 65535, md_next = next\<rparr>
                 else \<lparr>md_sn_start = sn_start, md_so_start = so_start, md_sn_end = pdu_sn cur,
                       md_so_end = pdu_so cur - 1, md_next = next\<rparr>)
      in if am_not_reportable e (md_sn_end ret)
         then ret\<lparr>md_sn_end := am_last_status_sn e, md_so_end := 65535, md_next := []\<rparr>
         else ret)"

text \<open>The end of the list: \<open>cur\<close> is its last PDU.\<close>

definition am_missing_at_end ::
  "nr_rlc_entity_am \<Rightarrow> nr_rlc_pdu \<Rightarrow> int \<Rightarrow> bool \<Rightarrow> missing_data option" where
  "am_missing_at_end e cur max_so last_reached =
     (let (sn_start, so_start) =
            (if pdu_data cur = None then ((pdu_sn cur + 1) mod am_sn_modulus e, 0)
             else if last_reached then ((pdu_sn cur + 1) mod am_sn_modulus e, 0)
             else (pdu_sn cur, max_so + 1))
      in if am_not_reportable e sn_start then None
         else Some \<lparr>md_sn_start = sn_start, md_so_start = so_start,
                    md_sn_end = am_last_status_sn e, md_so_end = 65535, md_next = []\<rparr>)"

text \<open>A discontinuity between \<open>sn\<close> (received up to \<open>max_so\<close>) and the head of \<open>l\<close>.\<close>

definition am_discontinuity ::
  "nr_rlc_entity_am \<Rightarrow> int \<Rightarrow> int \<Rightarrow> bool \<Rightarrow> nr_rlc_pdu \<Rightarrow> nr_rlc_pdu list \<Rightarrow> missing_data option" where
  "am_discontinuity e sn max_so last_reached cur l =
     (if pdu_sn cur = sn
      then if am_not_reportable e sn then None
           else Some \<lparr>md_sn_start = sn, md_so_start = max_so + 1, md_sn_end = sn,
                      md_so_end = pdu_so cur - 1, md_next = l\<rparr>
      else let (sn_start, so_start) =
                 (if last_reached then ((sn + 1) mod am_sn_modulus e, 0) else (sn, max_so + 1))
           in if am_not_reportable e sn_start then None
              else Some (am_set_end_different_sdu e cur l sn_start so_start))"

fun am_next_missing_loop ::
  "nr_rlc_entity_am \<Rightarrow> int \<Rightarrow> bool \<Rightarrow> nr_rlc_pdu list \<Rightarrow> missing_data option" where
  "am_next_missing_loop e max_so last_reached [] = None"
| "am_next_missing_loop e max_so last_reached (cur # rest) =
     (let max_so' = max max_so (pdu_so cur + pdu_size cur - 1);
          last' = (last_reached \<or> pdu_is_last cur)
      in case rest of
           [] \<Rightarrow> am_missing_at_end e cur max_so' last'
         | nxt # _ \<Rightarrow>
             if pdu_sn nxt = pdu_sn cur \<and> max_so' \<ge> pdu_so nxt - 1
             then am_next_missing_loop e max_so' last' rest
             else if pdu_sn nxt = (pdu_sn cur + 1) mod am_sn_modulus e \<and> last' \<and> pdu_is_first nxt
             then am_next_missing_loop e 0 False rest
             else am_discontinuity e (pdu_sn cur) max_so' last' nxt rest)"

definition am_next_missing ::
  "nr_rlc_entity_am \<Rightarrow> nr_rlc_pdu list \<Rightarrow> bool \<Rightarrow> missing_data option" where
  "am_next_missing e l check_head =
     (case l of
        [] \<Rightarrow> None
      | cur # _ \<Rightarrow>
          if check_head \<and> (pdu_sn cur \<noteq> am_rx_next e \<or> \<not> pdu_is_first cur)
          then if am_not_reportable e (am_rx_next e) then None
               else Some (am_set_end_different_sdu e cur l (am_rx_next e) 0)
          else am_next_missing_loop e 0 False l)"

definition am_nack_size :: "nr_rlc_entity_am \<Rightarrow> int \<Rightarrow> int \<times> int \<times> int \<Rightarrow> int" where
  "am_nack_size e sn_start part =
     (case part of (so_start, sn_end, so_end) \<Rightarrow>
      let nack_length = 2 + (if am_sn_field_length e = 18 then 1 else 0)
      in if sn_start = sn_end
         then if so_start = 0 \<and> so_end = 65535 then nack_length else nack_length + 4
         else if so_start = 0 \<and> so_end = 65535 then nack_length + 1 else nack_length + 5)"

text \<open>
  The part of a missing range that goes into one NACK: both loops cut the range to at most 255
  sequence numbers, the first part starting at \<open>so_start\<close> and the last one ending at \<open>so_end\<close>.
\<close>

definition am_nack_part ::
  "nr_rlc_entity_am \<Rightarrow> missing_data \<Rightarrow> int \<Rightarrow> nat \<Rightarrow> int \<times> int \<times> int" where
  "am_nack_part e m sn_start sn_count =
     (let so_start = (if sn_start = md_sn_start m then md_so_start m else 0);
          (sn_end, so_end) =
            (if sn_count \<le> 255 then (md_sn_end m, md_so_end m)
             else ((sn_start + 254) mod am_sn_modulus e, 65535))
      in (so_start, sn_end, so_end))"

definition am_sn_count :: "nr_rlc_entity_am \<Rightarrow> missing_data \<Rightarrow> nat" where
  "am_sn_count e m =
     nat ((md_sn_end m - md_sn_start m + am_sn_modulus e) mod am_sn_modulus e + 1)"

section \<open>Generation\<close>

text \<open>
  The variables \<open>generate_missing\<close> changes through pointers: the encoder, the position of the
  last E1 bit, the \<open>next\<close> field of the missing range, the truncation flag, the place of the last
  \<open>so_end\<close> written (if the last NACK has one), and the last sequence number reported.
\<close>

record status_gen =
  sg_encoder :: nr_rlc_pdu_encoder
  sg_e1_byte :: nat
  sg_e1_bit :: nat
  sg_next :: "nr_rlc_pdu list"
  sg_truncated :: bool
  sg_so_end_address :: "nat option"
  sg_last_nack :: int

definition am_get_e1_position :: "nr_rlc_entity_am \<Rightarrow> nr_rlc_pdu_encoder \<Rightarrow> nat \<times> nat" where
  "am_get_e1_position e encoder =
     (if am_sn_field_length e = 18 then (enc_byte encoder + 2, 5) else (enc_byte encoder + 1, 3))"

definition or_byte :: "byte list \<Rightarrow> nat \<Rightarrow> byte \<Rightarrow> byte list res" where
  "or_byte buf i b = (if i < length buf then Inr (buf[i := buf ! i OR b]) else Inl Out_of_bounds)"

text \<open>Writing one NACK block of \<open>n\<close> sequence numbers.\<close>

definition am_put_nack ::
  "nr_rlc_entity_am \<Rightarrow> int \<Rightarrow> int \<times> int \<times> int \<Rightarrow> nat \<Rightarrow> status_gen \<Rightarrow> status_gen res" where
  "am_put_nack e sn_start part n g =
     (case part of (so_start, sn_end, so_end) \<Rightarrow>
      rbind (or_byte (enc_buffer (sg_encoder g)) (sg_e1_byte g) (push_bit (sg_e1_bit g) 1)) (\<lambda>buf.
      let enc = (sg_encoder g)\<lparr>enc_buffer := buf\<rparr>;
          e2 = (if so_start = 0 \<and> so_end = 65535 then 0 else 1);
          e3 = (if sn_start = sn_end then 0 else 1);
          r_bits = (if am_sn_field_length e = 18 then 3 else 1)
      in case am_get_e1_position e enc of (e1_byte, e1_bit) \<Rightarrow>
         rbind (nr_rlc_pdu_encoder_put_bits enc sn_start (am_sn_field_length e)) (\<lambda>enc1.
         rbind (nr_rlc_pdu_encoder_put_bits enc1 0 1) (\<lambda>enc2.
         rbind (nr_rlc_pdu_encoder_put_bits enc2 e2 1) (\<lambda>enc3.
         rbind (nr_rlc_pdu_encoder_put_bits enc3 e3 1) (\<lambda>enc4.
         rbind (nr_rlc_pdu_encoder_put_bits enc4 0 r_bits) (\<lambda>enc5.
         rbind (if e2 \<noteq> 0
                then rbind (nr_rlc_pdu_encoder_put_bits enc5 so_start 16) (\<lambda>enc6.
                     rbind (nr_rlc_pdu_encoder_put_bits enc6 so_end 16) (\<lambda>enc7.
                     Inr (enc7, Some (enc_byte enc6))))
                else Inr (enc5, None)) (\<lambda>(enc8, address).
         rbind (if e3 \<noteq> 0 then nr_rlc_pdu_encoder_put_bits enc8 (int n) 8 else Inr enc8) (\<lambda>enc9.
         Inr (g\<lparr>sg_encoder := enc9, sg_e1_byte := e1_byte, sg_e1_bit := e1_bit,
                sg_so_end_address := address,
                sg_last_nack := (if e3 \<noteq> 0 then sn_start + (int n - 1) else sn_start)\<rparr>))))))))))"

function am_generate_missing_loop ::
  "nr_rlc_entity_am \<Rightarrow> missing_data \<Rightarrow> int \<Rightarrow> nat \<Rightarrow> status_gen \<Rightarrow> status_gen res" where
  "am_generate_missing_loop e m sn_start sn_count g =
     (if sn_count = 0 then Inr g
      else
        let n = min sn_count 255;
            part = am_nack_part e m sn_start sn_count
        in if int (enc_byte (sg_encoder g)) + am_nack_size e sn_start part
                > int (length (enc_buffer (sg_encoder g)))
           then Inr (g\<lparr>sg_next := [], sg_truncated := True\<rparr>)
           else rbind (am_put_nack e sn_start part n g) (\<lambda>g'.
                am_generate_missing_loop e m ((sn_start + int n) mod am_sn_modulus e)
                  (sn_count - n) g'))"
  by pat_completeness auto
termination by (relation "measure (\<lambda>(e, m, s, n, g). n)") auto

declare am_generate_missing_loop.simps [simp del]

definition am_generate_missing ::
  "nr_rlc_entity_am \<Rightarrow> missing_data \<Rightarrow> status_gen \<Rightarrow> status_gen res" where
  "am_generate_missing e m g =
     am_generate_missing_loop e m (md_sn_start m) (am_sn_count e m)
       (g\<lparr>sg_next := md_next m, sg_last_nack := - 1\<rparr>)"

text \<open>
  The loop of \<open>generate_status\<close>. Every round but the first starts at a later PDU, so one more
  round than there are PDUs is enough fuel.
\<close>

definition am_force_so_end :: "status_gen \<Rightarrow> status_gen res" where
  "am_force_so_end g =
     (case sg_so_end_address g of
        Some a \<Rightarrow>
          if sg_truncated g
          then if a + 1 < length (enc_buffer (sg_encoder g))
               then Inr (g\<lparr>sg_encoder := (sg_encoder g)\<lparr>enc_buffer :=
                           (enc_buffer (sg_encoder g))[a := 255, a + 1 := 255]\<rparr>\<rparr>)
               else Inl Out_of_bounds
          else Inr g
      | None \<Rightarrow> Inr g)"

fun am_status_loop ::
  "nr_rlc_entity_am \<Rightarrow> nat \<Rightarrow> bool \<Rightarrow> nr_rlc_pdu list \<Rightarrow> int \<Rightarrow> status_gen \<Rightarrow> (int \<times> status_gen) res"
where
  "am_status_loop e fuel check_head cur last_nack g =
     (if cur = [] then Inr (last_nack, g)
      else case fuel of
        0 \<Rightarrow> Inl Endless_loop
      | Suc fuel' \<Rightarrow>
          case am_next_missing e cur check_head of
            None \<Rightarrow> Inr (last_nack, g)
          | Some m \<Rightarrow>
              rbind (am_generate_missing e m (g\<lparr>sg_truncated := False\<rparr>)) (\<lambda>g1.
              let last_nack' = (if sg_last_nack g1 \<noteq> - 1 then sg_last_nack g1 else last_nack)
              in rbind (am_force_so_end g1) (\<lambda>g2.
                 am_status_loop e fuel' False (sg_next g2) last_nack' g2)))"

declare am_status_loop.simps [simp del]

definition am_write_ack_sn :: "nr_rlc_entity_am \<Rightarrow> int \<Rightarrow> byte list \<Rightarrow> byte list" where
  "am_write_ack_sn e ack_sn buffer =
     (if am_sn_field_length e = 12
      then buffer[0 := word_of_int (drop_bit 8 ack_sn), 1 := word_of_int (ack_sn AND 255)]
      else
        let b = buffer[0 := word_of_int (drop_bit 14 ack_sn),
                       1 := word_of_int (drop_bit 6 ack_sn AND 255)]
        in b[2 := b ! 2 OR word_of_int (push_bit 2 (ack_sn AND 63))])"

text \<open>The result: the size generated (0: nothing done), the buffer and the entity.\<close>

definition am_generate_status ::
  "nr_rlc_entity_am \<Rightarrow> byte list \<Rightarrow> (int \<times> byte list \<times> nr_rlc_entity_am) res" where
  "am_generate_status e buffer =
     (if length buffer < 3 then Inr (0, buffer, e)
      else
        rbind (nr_rlc_pdu_encoder_put_bits (nr_rlc_pdu_encoder_init buffer) 0 (8 * 3)) (\<lambda>enc.
        rbind (am_status_loop e (Suc (length (am_rx_list e))) True (am_rx_list e)
                 ((am_rx_next e - 1 + am_sn_modulus e) mod am_sn_modulus e)
                 \<lparr>sg_encoder = enc, sg_e1_byte = 2,
                  sg_e1_bit = (if am_sn_field_length e = 18 then 1 else 7), sg_next = [],
                  sg_truncated = False, sg_so_end_address = None, sg_last_nack = - 1\<rparr>)
          (\<lambda>(last_nack, g).
        let ack_sn = (last_nack + 1) mod am_sn_modulus e;
            n = enc_byte (sg_encoder g)
        in Inr (int n, am_write_ack_sn e ack_sn (enc_buffer (sg_encoder g)),
                count_stat (\<lambda>s. s\<lparr>txpdu_pkts := txpdu_pkts s + 1,
                                  txpdu_bytes := txpdu_bytes s + of_nat n,
                                  txpdu_status_pkts := txpdu_status_pkts s + 1,
                                  txpdu_status_bytes := txpdu_status_bytes s + of_nat n\<rparr>)
                  (e\<lparr>am_status_triggered := False, am_t_status_prohibit_start := am_t_current e\<rparr>)))))"

definition am_status_to_report :: "nr_rlc_entity_am \<Rightarrow> bool" where
  "am_status_to_report e \<longleftrightarrow>
     am_status_triggered e
     \<and> (am_t_status_prohibit_start e = 0
        \<or> am_t_current e - am_t_status_prohibit_start e > word_of_int (am_t_status_prohibit e))"

section \<open>Size of the next status PDU\<close>

text \<open>The result: the number of NACKs, the size so far, and the new \<open>next\<close> of the range.\<close>

function am_missing_size_loop ::
  "nr_rlc_entity_am \<Rightarrow> missing_data \<Rightarrow> int \<Rightarrow> int \<Rightarrow> nat \<Rightarrow> int \<Rightarrow> nat \<Rightarrow> nat \<times> int \<times> nr_rlc_pdu list"
where
  "am_missing_size_loop e m maxsize sn_start sn_count sz range_count =
     (if sn_count = 0 then (range_count, sz, md_next m)
      else
        let n = min sn_count 255;
            r_bits = (if am_sn_field_length e = 18 then 3 else 1);
            bits = int (am_sn_field_length e) + 3 + r_bits;
            part = am_nack_part e m sn_start sn_count
        in if sz + am_nack_size e sn_start part > maxsize then (range_count, sz, [])
           else
             let so_start = fst part; sn_end = fst (snd part); so_end = snd (snd part);
                 sz' = (if sn_start = sn_end
                        then if so_start = 0 \<and> so_end = 65535 then sz + bits div 8
                             else sz + (bits + 16 * 2) div 8
                        else if so_start = 0 \<and> so_end = 65535 then sz + (bits + 8) div 8
                             else sz + (bits + 16 * 2 + 8) div 8)
             in am_missing_size_loop e m maxsize ((sn_start + int n) mod am_sn_modulus e)
                  (sn_count - n) sz' (range_count + 1))"
  by pat_completeness auto
termination by (relation "measure (\<lambda>(e, m, x, s, n, z, r). n)") auto

declare am_missing_size_loop.simps [simp del]

definition am_missing_size ::
  "nr_rlc_entity_am \<Rightarrow> missing_data \<Rightarrow> int \<Rightarrow> int \<Rightarrow> nat \<times> int \<times> nr_rlc_pdu list" where
  "am_missing_size e m sz maxsize =
     am_missing_size_loop e m maxsize (md_sn_start m) (am_sn_count e m) sz 0"

fun am_status_size_loop ::
  "nr_rlc_entity_am \<Rightarrow> int \<Rightarrow> nat \<Rightarrow> nat \<Rightarrow> nr_rlc_pdu list \<Rightarrow> int \<Rightarrow> int res" where
  "am_status_size_loop e maxsize fuel nack_count cur sz =
     (if cur = [] then Inr sz
      else case fuel of
        0 \<Rightarrow> Inl Endless_loop
      | Suc fuel' \<Rightarrow>
          case am_next_missing e cur (nack_count = 0) of
            None \<Rightarrow> Inr sz
          | Some m \<Rightarrow>
              (case am_missing_size e m sz maxsize of
                 (n, sz', cur') \<Rightarrow>
                   am_status_size_loop e maxsize fuel' (nack_count + n) cur' sz'))"

declare am_status_size_loop.simps [simp del]

definition am_status_size :: "nr_rlc_entity_am \<Rightarrow> int \<Rightarrow> int res" where
  "am_status_size e maxsize =
     (if maxsize < 3 then Inr 0
      else am_status_size_loop e maxsize (Suc (length (am_rx_list e))) 0 (am_rx_list e) 3)"

end
