(* ===== verification/Rlc_Am_Tx.thy ===== *)
theory Rlc_Am_Tx
  imports Rlc_Am_Control Rlc_Am_Status
begin

text \<open>
  Transmission in acknowledged mode (\<open>nr_rlc_entity_am.c\<close>): window stalling and polling,
  serialization and segmentation, new transmissions and retransmissions, SDUs from the upper
  layer, the timers, discard and re-establishment.

  A function that writes a PDU to \<open>buffer\<close> returns the number of bytes generated, the buffer and
  the entity.
\<close>

section \<open>Window and polling\<close>

definition am_is_window_stalling :: "nr_rlc_entity_am \<Rightarrow> bool" where
  "am_is_window_stalling e \<longleftrightarrow>
     \<not> (am_sn_compare_tx e (am_tx_next_ack e) (am_tx_next e) \<le> 0
        \<and> am_sn_compare_tx e (am_tx_next e)
             ((am_tx_next_ack e + am_window_size e) mod am_sn_modulus e) < 0)"

definition am_include_poll ::
  "nr_rlc_entity_am \<Rightarrow> byte list \<Rightarrow> (byte list \<times> nr_rlc_entity_am) res" where
  "am_include_poll e buffer =
     rbind (or_byte buffer 0 64) (\<lambda>buffer'.
       Inr (buffer',
            e\<lparr>am_pdu_without_poll := 0, am_byte_without_poll := 0,
              am_poll_sn := (am_tx_next e - 1 + am_sn_modulus e) mod am_sn_modulus e,
              am_t_poll_retransmit_start := am_t_current e\<rparr>))"

definition am_check_poll_after_pdu_assembly :: "nr_rlc_entity_am \<Rightarrow> bool" where
  "am_check_poll_after_pdu_assembly e \<longleftrightarrow>
     (am_tx_list e = [] \<and> am_retransmit_list e = []) \<or> am_is_window_stalling e"

section \<open>Serialization and segmentation\<close>

definition am_serialize_header ::
  "nr_rlc_entity_am \<Rightarrow> nr_rlc_sdu_segment \<Rightarrow> byte list \<Rightarrow> nr_rlc_pdu_encoder res" where
  "am_serialize_header e sdu buffer =
     rbind (nr_rlc_pdu_encoder_put_bits (nr_rlc_pdu_encoder_init buffer) 1 1) (\<lambda>enc1.
     rbind (nr_rlc_pdu_encoder_put_bits enc1 0 1) (\<lambda>enc2.
     rbind (nr_rlc_pdu_encoder_put_bits enc2 (1 - of_bool (seg_is_first sdu)) 1) (\<lambda>enc3.
     rbind (nr_rlc_pdu_encoder_put_bits enc3 (1 - of_bool (seg_is_last sdu)) 1) (\<lambda>enc4.
     rbind (if am_sn_field_length e = 18 then nr_rlc_pdu_encoder_put_bits enc4 0 2 else Inr enc4) (\<lambda>enc5.
     rbind (nr_rlc_pdu_encoder_put_bits enc5 (sdu_sn (sdu_of (heap e) sdu)) (am_sn_field_length e)) (\<lambda>enc6.
     if \<not> seg_is_first sdu then nr_rlc_pdu_encoder_put_bits enc6 (seg_so sdu) 16 else Inr enc6))))))"

definition am_serialize_sdu ::
  "nr_rlc_entity_am \<Rightarrow> nr_rlc_sdu_segment \<Rightarrow> byte list \<Rightarrow> bool
   \<Rightarrow> (int \<times> byte list \<times> nr_rlc_entity_am) res" where
  "am_serialize_sdu e sdu buffer p =
     rbind (am_serialize_header e sdu buffer) (\<lambda>enc.
     rbind (c_read (sdu_data (sdu_of (heap e) sdu)) (seg_so sdu) (seg_size sdu)) (\<lambda>data.
     rbind (c_memcpy (enc_buffer enc) (enc_byte enc) data) (\<lambda>buffer1.
     rbind (if p then am_include_poll e buffer1 else Inr (buffer1, e)) (\<lambda>(buffer2, e').
     Inr (int (enc_byte enc) + seg_size sdu, buffer2, e')))))"

text \<open>The shortened segment, the new segment with the remaining bytes, and the entity.\<close>

definition am_resegment ::
  "nr_rlc_sdu_segment \<Rightarrow> nr_rlc_entity_am \<Rightarrow> int
   \<Rightarrow> nr_rlc_sdu_segment \<times> nr_rlc_sdu_segment \<times> nr_rlc_entity_am" where
  "am_resegment sdu e sz =
     (let h = update_sdu (\<lambda>s. s\<lparr>sdu_ref_count := sdu_ref_count s + 1\<rparr>) sdu (heap e);
          pdu_header_size = am_compute_pdu_header_size e sdu;
          next = sdu\<lparr>seg_addr := hp_next h\<rparr>;
          over_size = pdu_header_size + seg_size sdu - sz;
          sdu' = sdu\<lparr>seg_size := seg_size sdu - over_size, seg_is_last := False\<rparr>;
          next' = next\<lparr>seg_size := over_size, seg_so := seg_so sdu' + seg_size sdu',
                       seg_is_first := False\<rparr>
      in (sdu', next', set_heap (h\<lparr>hp_next := hp_next h + 1\<rparr>) e))"

text \<open>
  Putting a sent segment in the wait list: behind its end when the segment comes last, else by
  the ordered insertion. \<open>wait_end->sdu\<close> is read through the end pointer.
\<close>

definition seg_at :: "nr_rlc_sdu_segment list \<Rightarrow> nat \<Rightarrow> nr_rlc_sdu_segment option" where
  "seg_at l a = find (\<lambda>s. seg_addr s = a) l"

definition am_comes_after_end ::
  "nr_rlc_entity_am \<Rightarrow> nr_rlc_sdu_segment \<Rightarrow> nr_rlc_sdu_segment \<Rightarrow> bool" where
  "am_comes_after_end e sdu w \<longleftrightarrow>
     (let cmp = am_sn_compare_tx e (sdu_sn (sdu_of (heap e) sdu)) (sdu_sn (sdu_of (heap e) w))
      in cmp > 0 \<or> (cmp = 0 \<and> seg_so sdu > seg_so w))"

definition am_add_to_wait_list ::
  "nr_rlc_entity_am \<Rightarrow> nr_rlc_sdu_segment \<Rightarrow> nr_rlc_entity_am res" where
  "am_add_to_wait_list e sdu =
     rbind (case am_wait_end e of
              None \<Rightarrow> Inr True
            | Some a \<Rightarrow> (case seg_at (am_wait_list e) a of
                          None \<Rightarrow> Inl Null_deref | Some w \<Rightarrow> Inr (am_comes_after_end e sdu w)))
       (\<lambda>after.
          if after
          then rbind (nr_rlc_sdu_segment_list_append (am_wait_list e) (am_wait_end e) sdu)
                 (\<lambda>(l, en). Inr (e\<lparr>am_wait_list := l, am_wait_end := en\<rparr>))
          else
            let l = nr_rlc_tx_sdu_segment_list_add e (am_wait_list e) sdu
            in Inr (e\<lparr>am_wait_list := l,
                      am_wait_end := (if tl l = [] then Some (seg_addr (hd l)) else am_wait_end e)\<rparr>))"

section \<open>Generation of data PDUs\<close>

text \<open>The end of both generating functions: the forced poll and the serialization.\<close>

definition am_poll_and_serialize ::
  "nr_rlc_entity_am \<Rightarrow> nr_rlc_sdu_segment \<Rightarrow> byte list \<Rightarrow> bool
   \<Rightarrow> (int \<times> byte list \<times> nr_rlc_entity_am) res" where
  "am_poll_and_serialize e sdu buffer p =
     am_serialize_sdu (if am_force_poll e then e\<lparr>am_force_poll := False\<rparr> else e) sdu buffer
       (p \<or> am_force_poll e)"

definition am_segment_retx ::
  "nr_rlc_sdu_segment \<Rightarrow> int \<Rightarrow> nr_rlc_entity_am \<Rightarrow> nr_rlc_sdu_segment \<times> nr_rlc_entity_am" where
  "am_segment_retx sdu sz e =
     (if am_compute_pdu_header_size e sdu + seg_size sdu > sz
      then case am_resegment sdu e sz of
             (sdu', next_sdu, e1) \<Rightarrow>
               (sdu', count_stat (\<lambda>s. s\<lparr>txpdu_segmented := txpdu_segmented s + 1\<rparr>)
                        (add_retx_size (am_compute_pdu_header_size e1 next_sdu + seg_size next_sdu)
                          (e1\<lparr>am_retransmit_list := next_sdu # am_retransmit_list e1\<rparr>)))
      else (sdu, e))"

definition am_generate_retx_pdu ::
  "nr_rlc_entity_am \<Rightarrow> byte list \<Rightarrow> (int \<times> byte list \<times> nr_rlc_entity_am) res" where
  "am_generate_retx_pdu e buffer =
     (case am_retransmit_list e of
        [] \<Rightarrow> Inl Null_deref
      | sdu # rest \<Rightarrow>
          let sz = int (length buffer); pdu_header_size = am_compute_pdu_header_size e sdu
          in if pdu_header_size + 1 > sz then Inr (0, buffer, e)
             else
               let e1 = add_retx_size (- (pdu_header_size + seg_size sdu)) (e\<lparr>am_retransmit_list := rest\<rparr>)
               in case am_segment_retx sdu sz e1 of
                    (sdu', e2) \<Rightarrow>
                      rbind (am_add_to_wait_list e2 sdu') (\<lambda>e3.
                      rbind (am_poll_and_serialize e3 sdu' buffer (am_check_poll_after_pdu_assembly e3))
                        (\<lambda>(ret_size, buffer', e4).
                           Inr (ret_size, buffer',
                             count_stat (\<lambda>s. s\<lparr>txpdu_pkts := txpdu_pkts s + 1,
                                 txpdu_bytes := txpdu_bytes s + word_of_int ret_size,
                                 txpdu_retx_pkts := txpdu_retx_pkts s + 1,
                                 txpdu_retx_bytes := txpdu_retx_bytes s + word_of_int ret_size\<rparr>) e4))))"

text \<open>The steps of \<open>generate_tx_pdu\<close>: take the head, number its SDU, segment it.\<close>

definition am_take_tx_head ::
  "nr_rlc_sdu_segment \<Rightarrow> nr_rlc_sdu_segment list \<Rightarrow> nr_rlc_entity_am \<Rightarrow> nr_rlc_entity_am" where
  "am_take_tx_head sdu rest e =
     add_tx_size (- (am_compute_pdu_header_size e sdu + seg_size sdu))
       (e\<lparr>am_tx_list := rest, am_tx_end := (if rest = [] then None else am_tx_end e)\<rparr>)"

definition am_assign_sn :: "nr_rlc_sdu_segment \<Rightarrow> nr_rlc_entity_am \<Rightarrow> nr_rlc_entity_am" where
  "am_assign_sn sdu e =
     (if sdu_sn (sdu_of (heap e) sdu) = - 1
      then (set_heap (update_sdu (\<lambda>s. s\<lparr>sdu_sn := am_tx_next e\<rparr>) sdu (heap e)) e)
             \<lparr>am_tx_next := (am_tx_next e + 1) mod am_sn_modulus e\<rparr>
      else e)"

definition am_segment_tx ::
  "nr_rlc_sdu_segment \<Rightarrow> int \<Rightarrow> nr_rlc_entity_am \<Rightarrow> nr_rlc_sdu_segment \<times> nr_rlc_entity_am" where
  "am_segment_tx sdu sz e =
     (if am_compute_pdu_header_size e sdu + seg_size sdu > sz
      then case am_resegment sdu e sz of
             (sdu', next_sdu, e1) \<Rightarrow>
               (sdu', add_tx_size (am_compute_pdu_header_size e1 next_sdu + seg_size next_sdu)
                        (count_stat (\<lambda>s. s\<lparr>txpdu_segmented := txpdu_segmented s + 1\<rparr>)
                          (e1\<lparr>am_tx_list := next_sdu # am_tx_list e1,
                              am_tx_end := (if am_tx_end e1 = None then Some (seg_addr next_sdu)
                                            else am_tx_end e1)\<rparr>)))
      else (sdu, e))"

text \<open>The polling actions for a new PDU: the counters and whether to poll.\<close>

definition am_poll_for_new_pdu ::
  "nr_rlc_sdu_segment \<Rightarrow> nr_rlc_entity_am \<Rightarrow> bool \<times> nr_rlc_entity_am" where
  "am_poll_for_new_pdu sdu e =
     (let e1 = e\<lparr>am_pdu_without_poll := am_pdu_without_poll e + 1,
                 am_byte_without_poll := am_byte_without_poll e + seg_size sdu\<rparr>
      in ((if (am_poll_pdu e1 \<noteq> - 1 \<and> am_pdu_without_poll e1 \<ge> am_poll_pdu e1)
              \<or> (am_poll_byte e1 \<noteq> - 1 \<and> am_byte_without_poll e1 \<ge> am_poll_byte e1)
           then True else am_check_poll_after_pdu_assembly e1), e1))"

definition am_generate_tx_pdu ::
  "u64 \<Rightarrow> nr_rlc_entity_am \<Rightarrow> byte list \<Rightarrow> (int \<times> byte list \<times> nr_rlc_entity_am) res" where
  "am_generate_tx_pdu now_us e buffer =
     (if am_is_window_stalling e then Inr (0, buffer, e)
      else case am_tx_list e of
        [] \<Rightarrow> Inr (0, buffer, e)
      | sdu # rest \<Rightarrow>
          let sz = int (length buffer)
          in if am_compute_pdu_header_size e sdu + 1 > sz then Inr (0, buffer, e)
             else case am_segment_tx sdu sz (am_assign_sn sdu (am_take_tx_head sdu rest e)) of
               (sdu', e1) \<Rightarrow>
                 rbind (am_add_to_wait_list e1 sdu') (\<lambda>e2.
                 case am_poll_for_new_pdu sdu' e2 of
                   (p, e3) \<Rightarrow>
                     rbind (am_poll_and_serialize e3 sdu' buffer p) (\<lambda>(ret_size, buffer', e4).
                       Inr (ret_size, buffer',
                         sample_waited_time now_us sdu'
                           (count_stat (\<lambda>s. s\<lparr>txpdu_pkts := txpdu_pkts s + 1,
                               txpdu_bytes := txpdu_bytes s + word_of_int ret_size\<rparr>) e4)))))"

definition nr_rlc_entity_am_buffer_status ::
  "nr_rlc_entity_am \<Rightarrow> int \<Rightarrow> nr_rlc_entity_buffer_status res" where
  "nr_rlc_entity_am_buffer_status e maxsize =
     rbind (if am_status_to_report e then am_status_size e maxsize else Inr 0) (\<lambda>status_size.
       Inr \<lparr>bs_status_size = status_size, bs_tx_size = bs_tx_size (bstatus e),
            bs_retx_size = bs_retx_size (bstatus e)\<rparr>)"

definition nr_rlc_entity_am_generate_pdu ::
  "u64 \<Rightarrow> nr_rlc_entity_am \<Rightarrow> byte list \<Rightarrow> (int \<times> byte list \<times> nr_rlc_entity_am) res" where
  "nr_rlc_entity_am_generate_pdu now_us e buffer =
     rbind (if am_status_to_report e then am_generate_status e buffer else Inr (0, buffer, e))
       (\<lambda>(ret, buffer1, e1).
          if ret \<noteq> 0 then Inr (ret, buffer1, e1)
          else
            rbind (if am_retransmit_list e1 \<noteq> [] then am_generate_retx_pdu e1 buffer1
                   else Inr (0, buffer1, e1))
              (\<lambda>(ret, buffer2, e2).
                 if ret \<noteq> 0 then Inr (ret, buffer2, e2) else am_generate_tx_pdu now_us e2 buffer2))"

section \<open>SDUs from the upper layer\<close>

definition am_log_rejected :: "nr_rlc_entity_am \<Rightarrow> nr_rlc_entity_am" where
  "am_log_rejected e =
     (if am_sdu_rejected e \<noteq> 0 \<and> am_t_current e > am_t_log_buffer_full e + 1000
      then e\<lparr>am_sdu_rejected := 0, am_t_log_buffer_full := am_t_current e\<rparr> else e)"

definition am_sdu_arrives :: "nr_rlc_entity_am \<Rightarrow> nr_rlc_entity_am" where
  "am_sdu_arrives e = am_log_rejected (count_stat (\<lambda>s. s\<lparr>rxsdu_pkts := rxsdu_pkts s + 1\<rparr>) e)"

definition nr_rlc_entity_am_recv_sdu ::
  "u64 \<Rightarrow> nr_rlc_entity_am \<Rightarrow> byte list \<Rightarrow> int \<Rightarrow> nr_rlc_entity_am res" where
  "nr_rlc_entity_am_recv_sdu now_us entity buffer sdu_id =
     (let sz = int (length buffer)
      in rbind (rcheck (sz \<le> NR_SDU_MAX) Assert_failed) (\<lambda>_.
         let e = am_sdu_arrives entity
         in if am_tx_size e + sz > am_tx_maxsize e
            then Inr (e\<lparr>am_sdu_rejected := am_sdu_rejected e + 1\<rparr>)
            else
              let e1 = count_stat (\<lambda>s. s\<lparr>rxsdu_bytes := rxsdu_bytes s + word_of_int sz\<rparr>)
                         (e\<lparr>am_tx_size := am_tx_size e + sz\<rparr>)
              in case nr_rlc_new_sdu (heap e1) buffer sdu_id of
                   (sdu, h) \<Rightarrow>
                     rbind (nr_rlc_sdu_segment_list_append (am_tx_list e1) (am_tx_end e1) sdu)
                       (\<lambda>(l, en).
                          Inr (stamp_arrival now_us sdu
                            (add_tx_size (am_compute_pdu_header_size e1 sdu + seg_size sdu)
                              ((set_heap h e1)\<lparr>am_tx_list := l, am_tx_end := en\<rparr>))))))"

section \<open>Timers\<close>

text \<open>
  Moving all segments of the sequence number \<open>sn\<close> at the head of the wait list to the
  retransmission list; the argument list is the wait list, not empty at the first call.
\<close>

definition am_move_to_retx ::
  "nr_rlc_sdu_segment \<Rightarrow> nr_rlc_sdu_segment list \<Rightarrow> nr_rlc_entity_am \<Rightarrow> nr_rlc_entity_am" where
  "am_move_to_retx cur rest e =
     (let e1 = add_retx_size (am_compute_pdu_header_size e cur + seg_size cur)
                 (e\<lparr>am_wait_list := rest, am_wait_end := (if rest = [] then None else am_wait_end e)\<rparr>)
      in e1\<lparr>am_retransmit_list := nr_rlc_tx_sdu_segment_list_add e1 (am_retransmit_list e1) cur\<rparr>)"

fun am_retransmit_sn_loop ::
  "int \<Rightarrow> nr_rlc_sdu_segment list \<Rightarrow> nr_rlc_entity_am \<Rightarrow> nr_rlc_entity_am" where
  "am_retransmit_sn_loop sn [] e = e"
| "am_retransmit_sn_loop sn (cur # rest) e =
     (let e1 = am_move_to_retx cur rest e
      in case rest of
           [] \<Rightarrow> e1
         | nxt # _ \<Rightarrow>
             if sdu_sn (sdu_of (heap e1) nxt) = sn then am_retransmit_sn_loop sn rest e1 else e1)"

definition am_check_t_poll_retransmit :: "nr_rlc_entity_am \<Rightarrow> nr_rlc_entity_am res" where
  "am_check_t_poll_retransmit entity =
     (if am_t_poll_retransmit_start entity = 0
         \<or> am_t_current entity
             \<le> am_t_poll_retransmit_start entity + word_of_int (am_t_poll_retransmit entity)
      then Inr entity
      else
        let e = entity\<lparr>am_t_poll_retransmit_start := 0, am_force_poll := True\<rparr>
        in if \<not> am_check_poll_after_pdu_assembly e then Inr e
           else case am_wait_list e of
             [] \<Rightarrow> Inl Null_deref
           | cur # _ \<Rightarrow>
               let e1 = set_heap (update_sdu (\<lambda>s. s\<lparr>sdu_retx_count := sdu_retx_count s + 1\<rparr>) cur
                          (heap e)) e;
                   s = sdu_of (heap e1) cur;
                   e2 = am_retransmit_sn_loop (sdu_sn s) (am_wait_list e1) e1
               in Inr (if sdu_retx_count s \<ge> am_max_retx_threshold e2
                       then call Max_retx_reached e2 else e2))"

definition am_check_t_reassembly :: "nr_rlc_entity_am \<Rightarrow> nr_rlc_entity_am res" where
  "am_check_t_reassembly entity =
     (if am_t_reassembly_start entity = 0
         \<or> am_t_current entity
             \<le> am_t_reassembly_start entity + word_of_int (am_t_reassembly entity)
      then Inr entity
      else
        rbind (skip_delivered (am_rx_list entity) (am_sn_modulus entity)
                 (nat (am_sn_modulus entity)) (am_rx_next_status_trigger entity)) (\<lambda>sn.
        let e = entity\<lparr>am_t_reassembly_start := 0, am_rx_highest_status := sn,
                       am_status_triggered := True\<rparr>;
            next_sn = (am_rx_highest_status e + 1) mod am_sn_modulus e
        in Inr (if am_sn_compare_rx e (am_rx_next_highest e) next_sn > 0
                   \<or> (am_rx_next_highest e = next_sn
                      \<and> am_sdu_has_missing_bytes e (am_rx_highest_status e))
                then e\<lparr>am_t_reassembly_start := am_t_current e,
                       am_rx_next_status_trigger := am_rx_next_highest e\<rparr>
                else e)))"

definition nr_rlc_entity_am_set_time :: "nr_rlc_entity_am \<Rightarrow> u64 \<Rightarrow> nr_rlc_entity_am res" where
  "nr_rlc_entity_am_set_time entity now =
     rbind (am_check_t_poll_retransmit (entity\<lparr>am_t_current := now\<rparr>)) am_check_t_reassembly"

section \<open>Discard, re-establishment, deletion\<close>

definition nr_rlc_entity_am_discard_sdu :: "nr_rlc_entity_am \<Rightarrow> int \<Rightarrow> nr_rlc_entity_am" where
  "nr_rlc_entity_am_discard_sdu e sdu_id =
     (let other = (\<lambda>s. sdu_upper_layer_id (sdu_of (heap e) s) \<noteq> sdu_id);
          before = takeWhile other (am_tx_list e)
      in case dropWhile other (am_tx_list e) of
           [] \<Rightarrow> e
         | cur # after \<Rightarrow>
             if \<not> seg_is_first cur \<or> \<not> seg_is_last cur then e
             else
               let e1 = e\<lparr>am_tx_list := before @ after,
                          am_tx_end := (if am_tx_end e = Some (seg_addr cur) then list_end before
                                        else am_tx_end e)\<rparr>;
                   e2 = add_tx_size (- (am_compute_pdu_header_size e1 cur + seg_size cur)) e1;
                   e3 = e2\<lparr>am_tx_size := am_tx_size e2 - sdu_size (sdu_of (heap e2) cur)\<rparr>
               in set_heap (snd (nr_rlc_free_sdu_segment cur (heap e3))) e3)"

definition am_clear_entity :: "nr_rlc_entity_am \<Rightarrow> nr_rlc_entity_am" where
  "am_clear_entity e =
     e\<lparr>am_rx_next := 0, am_rx_next_status_trigger := 0, am_rx_highest_status := 0,
       am_rx_next_highest := 0, am_status_triggered := False, am_tx_next := 0, am_tx_next_ack := 0,
       am_poll_sn := 0, am_pdu_without_poll := 0, am_byte_without_poll := 0, am_force_poll := False,
       am_t_current := 0, am_t_log_buffer_full := 0, am_sdu_rejected := 0,
       am_t_poll_retransmit_start := 0, am_t_reassembly_start := 0, am_t_status_prohibit_start := 0,
       am_rx_list := [], am_rx_size := 0,
       heap := nr_rlc_free_sdu_segment_list (am_retransmit_list e)
                 (nr_rlc_free_sdu_segment_list (am_wait_list e)
                   (nr_rlc_free_sdu_segment_list (am_tx_list e) (heap e))),
       am_tx_list := [], am_tx_end := None, am_tx_size := 0, am_wait_list := [], am_wait_end := None,
       am_retransmit_list := [],
       bstatus := (bstatus e)\<lparr>bs_tx_size := 0, bs_retx_size := 0\<rparr>\<rparr>"

definition nr_rlc_entity_am_reestablishment :: "nr_rlc_entity_am \<Rightarrow> nr_rlc_entity_am" where
  "nr_rlc_entity_am_reestablishment e = am_clear_entity e"

text \<open>Deletion: what is left is the store, with the SDUs freed.\<close>

definition nr_rlc_entity_am_delete :: "nr_rlc_entity_am \<Rightarrow> sdu_heap" where
  "nr_rlc_entity_am_delete e = heap (am_clear_entity e)"

definition nr_rlc_entity_am_available_tx_space :: "nr_rlc_entity_am \<Rightarrow> int" where
  "nr_rlc_entity_am_available_tx_space e = am_tx_maxsize e - am_tx_size e"

end
