(* ===== verification/Rlc_Um.thy ===== *)
theory Rlc_Um
  imports Rlc_Rx_List
begin

text \<open>
  The unacknowledged mode entity, \<open>nr_rlc_entity_um.h\<close> and \<open>nr_rlc_entity_um.c\<close>: whole SDUs are
  delivered at once, segmented ones collect in the reception list until they are complete or
  leave the reassembly window; transmission frees a segment as soon as it is sent.
\<close>

section \<open>State\<close>

record nr_rlc_entity_um = nr_rlc_entity +
  um_t_reassembly :: int
  um_sn_field_length :: nat
  um_sn_modulus :: int
  um_window_size :: int
  um_rx_next_highest :: int
  um_rx_next_reassembly :: int
  um_rx_timer_trigger :: int
  um_tx_next :: int
  um_t_current :: u64
  um_t_log_buffer_full :: u64
  um_sdu_rejected :: int
  um_t_reassembly_start :: u64
  um_rx_list :: "nr_rlc_pdu list"
  um_rx_size :: int
  um_rx_maxsize :: int
  um_tx_list :: "nr_rlc_sdu_segment list"
  um_tx_end :: "nat option"
  um_tx_size :: int
  um_tx_maxsize :: int

text \<open>The configurations of \<open>new_nr_rlc_entity_um\<close>: sequence numbers of 6 or 12 bits.\<close>

definition um_config_ok :: "nr_rlc_entity_um \<Rightarrow> bool" where
  "um_config_ok e \<longleftrightarrow>
     (um_sn_field_length e = 6 \<or> um_sn_field_length e = 12)
     \<and> um_sn_modulus e = 2 ^ um_sn_field_length e
     \<and> um_window_size e = um_sn_modulus e div 2"

lemma um_config_cases:
  assumes "um_config_ok e"
  obtains (short) "um_sn_field_length e = 6" "um_sn_modulus e = 64" "um_window_size e = 32"
  | (long) "um_sn_field_length e = 12" "um_sn_modulus e = 4096" "um_window_size e = 2048"
  using assms by (auto simp: um_config_ok_def)

section \<open>Header sizes and comparisons\<close>

definition um_compute_pdu_header_size :: "nr_rlc_entity_um \<Rightarrow> nr_rlc_sdu_segment \<Rightarrow> int" where
  "um_compute_pdu_header_size entity sdu =
     1 + (if \<not> (seg_is_first sdu \<and> seg_is_last sdu) \<and> um_sn_field_length entity = 12 then 1 else 0)
       + (if \<not> seg_is_first sdu then 2 else 0)"

definition um_modulus_rx :: "nr_rlc_entity_um \<Rightarrow> int \<Rightarrow> int" where
  "um_modulus_rx entity a =
     (let r = a - (um_rx_next_highest entity - um_window_size entity)
      in (if r < 0 then r + um_sn_modulus entity else r) mod um_sn_modulus entity)"

definition um_sn_compare_rx :: "nr_rlc_entity_um \<Rightarrow> int \<Rightarrow> int \<Rightarrow> int" where
  "um_sn_compare_rx entity a b = um_modulus_rx entity a - um_modulus_rx entity b"

lemma um_modulus_rx_dist:
  "um_modulus_rx e a = circ_dist (um_sn_modulus e) (um_rx_next_highest e - um_window_size e) a"
  by (simp add: um_modulus_rx_def circ_dist_def Let_def)

definition um_sn_ok :: "nr_rlc_entity_um \<Rightarrow> int \<Rightarrow> bool" where
  "um_sn_ok e a \<longleftrightarrow> 0 \<le> a \<and> a < um_sn_modulus e"

text \<open>The comparison of this mode meets the contract of an ordering callback, too.\<close>

interpretation um_rx: sn_order "um_sn_compare_rx e" "um_modulus_rx e" "um_sn_ok e" for e
proof unfold_locales
  fix a b
  assume a: "um_sn_ok e a" and b: "um_sn_ok e b"
  then show "um_sn_compare_rx e a b = um_modulus_rx e a - um_modulus_rx e b"
    by (simp add: um_sn_compare_rx_def)
  assume "um_modulus_rx e a = um_modulus_rx e b"
  then show "a = b"
    unfolding um_modulus_rx_dist by (rule circ_dist_inj) (use a b in \<open>simp_all add: um_sn_ok_def\<close>)
qed

section \<open>Reception list\<close>

definition um_sdu_full :: "nr_rlc_entity_um \<Rightarrow> int \<Rightarrow> bool" where
  "um_sdu_full entity sn = rx_sdu_full (um_rx_list entity) sn"

definition um_sdu_delivered :: "nr_rlc_entity_um \<Rightarrow> int \<Rightarrow> bool" where
  "um_sdu_delivered entity sn = rx_sdu_delivered (um_rx_list entity) sn"

definition um_sdu_has_missing_bytes :: "nr_rlc_entity_um \<Rightarrow> int \<Rightarrow> bool" where
  "um_sdu_has_missing_bytes entity sn = rx_sdu_has_missing_bytes (um_rx_list entity) sn"

text \<open>A processed segment loses its data and its size.\<close>

definition um_consume :: "nr_rlc_pdu \<Rightarrow> nr_rlc_pdu" where
  "um_consume pdu = pdu\<lparr>pdu_data := None, pdu_size := 0\<rparr>"

definition um_deliver :: "byte list \<Rightarrow> nr_rlc_entity_um \<Rightarrow> nr_rlc_entity_um" where
  "um_deliver data e =
     count_stat (\<lambda>s. s\<lparr>txsdu_pkts := txsdu_pkts s + 1,
                       txsdu_bytes := txsdu_bytes s + of_nat (length data)\<rparr>)
       (call (Deliver_sdu data) e)"

definition um_reassemble_and_deliver :: "nr_rlc_entity_um \<Rightarrow> int \<Rightarrow> nr_rlc_entity_um res" where
  "um_reassemble_and_deliver entity sn =
     rbind (rx_reassemble um_consume (um_rx_list entity) (um_rx_size entity) sn)
       (\<lambda>(rx_list, rx_size, sdu).
          let e1 = entity\<lparr>um_rx_list := rx_list, um_rx_size := rx_size\<rparr>
          in Inr (case sdu of None \<Rightarrow> e1 | Some data \<Rightarrow> um_deliver data e1))"

section \<open>Reception actions\<close>

definition um_skip_delivered :: "nr_rlc_entity_um \<Rightarrow> int \<Rightarrow> int res" where
  "um_skip_delivered e sn = skip_delivered (um_rx_list e) (um_sn_modulus e) (nat (um_sn_modulus e)) sn"

definition um_sdu_received :: "nr_rlc_entity_um \<Rightarrow> int \<Rightarrow> nr_rlc_entity_um res" where
  "um_sdu_received e x =
     rbind (um_reassemble_and_deliver e x) (\<lambda>e1.
       if x = um_rx_next_reassembly e1
       then rbind (um_skip_delivered e1 (um_rx_next_reassembly e1))
              (\<lambda>sn. Inr (e1\<lparr>um_rx_next_reassembly := sn\<rparr>))
       else Inr e1)"

text \<open>The loop that discards PDUs outside the window; the argument list is the reception list.\<close>

fun um_discard_out_of_window ::
  "nr_rlc_pdu list \<Rightarrow> nr_rlc_entity_um \<Rightarrow> nr_rlc_entity_um" where
  "um_discard_out_of_window [] e = e\<lparr>um_rx_list := []\<rparr>"
| "um_discard_out_of_window (p # l) e =
     (if um_sn_compare_rx e (pdu_sn p) (um_rx_next_highest e) \<ge> 0
      then um_discard_out_of_window l
             (count_stat (\<lambda>s. s\<lparr>rxpdu_dd_pkts := rxpdu_dd_pkts s + 1,
                                rxpdu_dd_bytes := rxpdu_dd_bytes s + word_of_int (pdu_size p),
                                rxpdu_ow_pkts := rxpdu_ow_pkts s + 1,
                                rxpdu_ow_bytes := rxpdu_ow_bytes s + word_of_int (pdu_size p)\<rparr>)
               (e\<lparr>um_rx_size := um_rx_size e - pdu_size p\<rparr>))
      else e\<lparr>um_rx_list := p # l\<rparr>)"

definition um_move_window :: "nr_rlc_entity_um \<Rightarrow> int \<Rightarrow> nr_rlc_entity_um res" where
  "um_move_window e x =
     (if um_sn_compare_rx e x (um_rx_next_highest e) \<ge> 0
      then
        let e1 = e\<lparr>um_rx_next_highest := (x + 1) mod um_sn_modulus e\<rparr>;
            e2 = um_discard_out_of_window (um_rx_list e1) e1
        in if um_sn_compare_rx e2 (um_rx_next_reassembly e2) (um_rx_next_highest e2) \<ge> 0
           then rbind (um_skip_delivered e2
                         ((um_rx_next_highest e2 - um_window_size e2 + um_sn_modulus e2)
                          mod um_sn_modulus e2))
                  (\<lambda>sn. Inr (e2\<lparr>um_rx_next_reassembly := sn\<rparr>))
           else Inr e2
      else Inr e)"

definition um_stop_t_reassembly :: "nr_rlc_entity_um \<Rightarrow> nr_rlc_entity_um" where
  "um_stop_t_reassembly e =
     (if um_t_reassembly_start e \<noteq> 0
         \<and> (um_sn_compare_rx e (um_rx_timer_trigger e) (um_rx_next_reassembly e) \<le> 0
            \<or> um_sn_compare_rx e (um_rx_timer_trigger e) (um_rx_next_highest e) > 0
            \<or> (um_rx_next_highest e = (um_rx_next_reassembly e + 1) mod um_sn_modulus e
               \<and> \<not> um_sdu_has_missing_bytes e (um_rx_next_reassembly e)))
      then e\<lparr>um_t_reassembly_start := 0\<rparr> else e)"

definition um_start_t_reassembly :: "nr_rlc_entity_um \<Rightarrow> nr_rlc_entity_um" where
  "um_start_t_reassembly e =
     (if um_t_reassembly_start e = 0
         \<and> (um_sn_compare_rx e (um_rx_next_highest e)
              ((um_rx_next_reassembly e + 1) mod um_sn_modulus e) > 0
            \<or> (um_rx_next_highest e = (um_rx_next_reassembly e + 1) mod um_sn_modulus e
               \<and> um_sdu_has_missing_bytes e (um_rx_next_reassembly e)))
      then e\<lparr>um_t_reassembly_start := um_t_current e, um_rx_timer_trigger := um_rx_next_highest e\<rparr>
      else e)"

definition um_reception_actions :: "nr_rlc_entity_um \<Rightarrow> nr_rlc_pdu \<Rightarrow> nr_rlc_entity_um res" where
  "um_reception_actions entity pdu =
     (let x = pdu_sn pdu
      in rbind (if um_sdu_full entity x then um_sdu_received entity x else um_move_window entity x)
           (\<lambda>e. Inr (um_start_t_reassembly (um_stop_t_reassembly e))))"

section \<open>Reception of a PDU\<close>

definition um_discard_pdu :: "nr_rlc_entity_um \<Rightarrow> int \<Rightarrow> nr_rlc_entity_um" where
  "um_discard_pdu e sz =
     count_stat (\<lambda>s. s\<lparr>rxpdu_dd_pkts := rxpdu_dd_pkts s + 1,
                       rxpdu_dd_bytes := rxpdu_dd_bytes s + word_of_int sz\<rparr>) e"

record um_seg_header =
  uh_sn :: int
  uh_so :: int
  uh_data_size :: int

text \<open>
  The header of a segment behind the segmentation info; \<open>Inl Decode_error\<close> is a discarded PDU.
\<close>

definition um_parse_seg_header ::
  "nr_rlc_entity_um \<Rightarrow> bool \<Rightarrow> nr_rlc_pdu_decoder \<Rightarrow> int \<Rightarrow> um_seg_header res" where
  "um_parse_seg_header e is_first d0 sz =
     rbind (if um_sn_field_length e = 12
            then rbind (get_bits_R d0 2) (\<lambda>(r, d1). Inr d1) else Inr d0) (\<lambda>d1.
     rbind (get_bits_R d1 (um_sn_field_length e)) (\<lambda>(sn, d2).
     rbind (if \<not> is_first then get_bits_R d2 16 else Inr (0, d2)) (\<lambda>(so, d3).
     if \<not> is_first \<and> so = 0 then Inl Decode_error
     else
       let data_size = sz - int (dec_byte d3)
       in if data_size \<le> 0 then Inl Decode_error
          else Inr \<lparr>uh_sn = sn, uh_so = so, uh_data_size = data_size\<rparr>)))"

definition um_recv_segment ::
  "nr_rlc_entity_um \<Rightarrow> bool \<Rightarrow> bool \<Rightarrow> um_seg_header \<Rightarrow> byte list \<Rightarrow> nr_rlc_entity_um res" where
  "um_recv_segment e is_first is_last h buffer =
     (let sz = int (length buffer)
      in if um_rx_size e + uh_data_size h > um_rx_maxsize e then Inr (um_discard_pdu e sz)
         else if um_sn_compare_rx e (uh_sn h) (um_rx_next_reassembly e) < 0
         then Inr (um_discard_pdu e sz)
         else
           let pdu = nr_rlc_new_pdu (uh_sn h) (uh_so h) is_first is_last
                       (drop (length buffer - nat (uh_data_size h)) buffer);
               e1 = e\<lparr>um_rx_size := um_rx_size e + uh_data_size h,
                      um_rx_list := nr_rlc_pdu_list_add (um_sn_compare_rx e) (um_rx_list e) pdu\<rparr>
           in um_reception_actions e1 pdu)"

definition nr_rlc_entity_um_recv_pdu :: "nr_rlc_entity_um \<Rightarrow> byte list \<Rightarrow> nr_rlc_entity_um res" where
  "nr_rlc_entity_um_recv_pdu entity buffer =
     (let sz = int (length buffer);
          e = count_stat (\<lambda>s. s\<lparr>rxpdu_pkts := rxpdu_pkts s + 1,
                                rxpdu_bytes := rxpdu_bytes s + word_of_int sz\<rparr>) entity
      in case get_bits_R (nr_rlc_pdu_decoder_init buffer) 2 of
           Inl er \<Rightarrow> Inr (um_discard_pdu e sz)
         | Inr (si, d) \<Rightarrow>
             let is_first = (si AND 2 = 0); is_last = (si AND 1 = 0)
             in if is_first \<and> is_last
                then if sz < 2 then Inr (um_discard_pdu e sz)
                     else Inr (um_deliver (drop 1 buffer) e)
                else case um_parse_seg_header e is_first d sz of
                       Inl er \<Rightarrow> if er = Decode_error then Inr (um_discard_pdu e sz) else Inl er
                     | Inr h \<Rightarrow> um_recv_segment e is_first is_last h buffer)"

section \<open>Transmission\<close>

definition um_serialize_header ::
  "nr_rlc_entity_um \<Rightarrow> nr_rlc_sdu_segment \<Rightarrow> byte list \<Rightarrow> nr_rlc_pdu_encoder res" where
  "um_serialize_header e sdu buffer =
     rbind (nr_rlc_pdu_encoder_put_bits (nr_rlc_pdu_encoder_init buffer)
              (1 - of_bool (seg_is_first sdu)) 1) (\<lambda>enc1.
     rbind (nr_rlc_pdu_encoder_put_bits enc1 (1 - of_bool (seg_is_last sdu)) 1) (\<lambda>enc2.
     rbind (if seg_is_first sdu \<and> seg_is_last sdu then nr_rlc_pdu_encoder_put_bits enc2 0 6
            else
              rbind (if um_sn_field_length e = 12 then nr_rlc_pdu_encoder_put_bits enc2 0 2
                     else Inr enc2) (\<lambda>enc3.
              nr_rlc_pdu_encoder_put_bits enc3 (sdu_sn (sdu_of (heap e) sdu)) (um_sn_field_length e)))
       (\<lambda>enc4.
     if \<not> seg_is_first sdu then nr_rlc_pdu_encoder_put_bits enc4 (seg_so sdu) 16 else Inr enc4)))"

definition um_serialize_sdu ::
  "nr_rlc_entity_um \<Rightarrow> nr_rlc_sdu_segment \<Rightarrow> byte list \<Rightarrow> (int \<times> byte list) res" where
  "um_serialize_sdu e sdu buffer =
     rbind (um_serialize_header e sdu buffer) (\<lambda>enc.
     rbind (c_read (sdu_data (sdu_of (heap e) sdu)) (seg_so sdu) (seg_size sdu)) (\<lambda>data.
     rbind (c_memcpy (enc_buffer enc) (enc_byte enc) data) (\<lambda>buffer1.
     Inr (int (enc_byte enc) + seg_size sdu, buffer1))))"

text \<open>
  The segmentation: the entity has the incremented reference count even when there is no room
  for a byte of data and the result is null.
\<close>

definition um_resegment ::
  "nr_rlc_sdu_segment \<Rightarrow> nr_rlc_entity_um \<Rightarrow> int
   \<Rightarrow> (nr_rlc_sdu_segment \<times> nr_rlc_sdu_segment) option \<times> nr_rlc_entity_um" where
  "um_resegment sdu e sz =
     (let h = update_sdu (\<lambda>s. s\<lparr>sdu_ref_count := sdu_ref_count s + 1\<rparr>) sdu (heap e);
          pdu_header_size = um_compute_pdu_header_size e (sdu\<lparr>seg_is_last := False\<rparr>)
      in if pdu_header_size + 1 > sz then (None, set_heap h e)
         else
           let next = sdu\<lparr>seg_addr := hp_next h\<rparr>;
               over_size = pdu_header_size + seg_size sdu - sz;
               sdu' = sdu\<lparr>seg_size := seg_size sdu - over_size, seg_is_last := False\<rparr>;
               next' = next\<lparr>seg_size := over_size, seg_so := seg_so sdu' + seg_size sdu',
                            seg_is_first := False\<rparr>
           in (Some (sdu', next'),
               count_stat (\<lambda>s. s\<lparr>txpdu_segmented := txpdu_segmented s + 1\<rparr>)
                 (set_heap (h\<lparr>hp_next := hp_next h + 1\<rparr>) e)))"

definition um_take_tx_head ::
  "nr_rlc_sdu_segment \<Rightarrow> nr_rlc_sdu_segment list \<Rightarrow> nr_rlc_entity_um \<Rightarrow> nr_rlc_entity_um" where
  "um_take_tx_head sdu rest e =
     add_tx_size (- (um_compute_pdu_header_size e sdu + seg_size sdu))
       ((set_heap (update_sdu (\<lambda>s. s\<lparr>sdu_sn := um_tx_next e\<rparr>) sdu (heap e)) e)
          \<lparr>um_tx_list := rest, um_tx_end := (if rest = [] then None else um_tx_end e)\<rparr>)"

text \<open>Sending the segment \<open>sdu\<close>, which fits.\<close>

definition um_send_segment ::
  "u64 \<Rightarrow> nr_rlc_sdu_segment \<Rightarrow> nr_rlc_entity_um \<Rightarrow> byte list
   \<Rightarrow> (int \<times> byte list \<times> nr_rlc_entity_um) res" where
  "um_send_segment now_us sdu e buffer =
     (let e1 = (if \<not> seg_is_first sdu \<and> seg_is_last sdu
                then e\<lparr>um_tx_next := (um_tx_next e + 1) mod um_sn_modulus e\<rparr> else e)
      in rbind (um_serialize_sdu e1 sdu buffer) (\<lambda>(ret, buffer').
         let e2 = count_stat (\<lambda>s. s\<lparr>txpdu_pkts := txpdu_pkts s + 1,
                      txpdu_bytes := txpdu_bytes s + of_nat (length buffer)\<rparr>)
                    (e1\<lparr>um_tx_size := um_tx_size e1 - seg_size sdu\<rparr>);
             e3 = sample_waited_time now_us sdu e2
         in Inr (ret, buffer', set_heap (snd (nr_rlc_free_sdu_segment sdu (heap e3))) e3)))"

definition um_generate_tx_pdu ::
  "u64 \<Rightarrow> nr_rlc_entity_um \<Rightarrow> byte list \<Rightarrow> (int \<times> byte list \<times> nr_rlc_entity_um) res" where
  "um_generate_tx_pdu now_us e buffer =
     (case um_tx_list e of
        [] \<Rightarrow> Inr (0, buffer, e)
      | sdu # rest \<Rightarrow>
          let sz = int (length buffer); pdu_header_size = um_compute_pdu_header_size e sdu
          in if pdu_header_size + 1 > sz then Inr (0, buffer, e)
             else
               let e1 = um_take_tx_head sdu rest e
               in if pdu_header_size + seg_size sdu > sz
                  then case um_resegment sdu e1 sz of
                         (None, e2) \<Rightarrow> Inr (0, buffer, e2)
                       | (Some (sdu', next_sdu), e2) \<Rightarrow>
                           um_send_segment now_us sdu'
                             (add_tx_size (um_compute_pdu_header_size e2 next_sdu + seg_size next_sdu)
                               (count_stat (\<lambda>s. s\<lparr>txpdu_segmented := txpdu_segmented s + 1\<rparr>)
                                 (e2\<lparr>um_tx_list := next_sdu # um_tx_list e2,
                                     um_tx_end := (if um_tx_end e2 = None then Some (seg_addr next_sdu)
                                                   else um_tx_end e2)\<rparr>))) buffer
                  else um_send_segment now_us sdu e1 buffer)"

definition nr_rlc_entity_um_buffer_status ::
  "nr_rlc_entity_um \<Rightarrow> int \<Rightarrow> nr_rlc_entity_buffer_status res" where
  "nr_rlc_entity_um_buffer_status e maxsize =
     Inr \<lparr>bs_status_size = 0, bs_tx_size = bs_tx_size (bstatus e), bs_retx_size = 0\<rparr>"

definition nr_rlc_entity_um_generate_pdu ::
  "u64 \<Rightarrow> nr_rlc_entity_um \<Rightarrow> byte list \<Rightarrow> (int \<times> byte list \<times> nr_rlc_entity_um) res" where
  "nr_rlc_entity_um_generate_pdu now_us e buffer = um_generate_tx_pdu now_us e buffer"

definition um_log_rejected :: "nr_rlc_entity_um \<Rightarrow> nr_rlc_entity_um" where
  "um_log_rejected e =
     (if um_sdu_rejected e \<noteq> 0 \<and> um_t_current e > um_t_log_buffer_full e + 1000
      then e\<lparr>um_sdu_rejected := 0, um_t_log_buffer_full := um_t_current e\<rparr> else e)"

definition um_sdu_arrives :: "int \<Rightarrow> nr_rlc_entity_um \<Rightarrow> nr_rlc_entity_um" where
  "um_sdu_arrives sz e =
     um_log_rejected (count_stat (\<lambda>s. s\<lparr>rxsdu_pkts := rxsdu_pkts s + 1,
                                         rxsdu_bytes := rxsdu_bytes s + word_of_int sz\<rparr>) e)"

definition nr_rlc_entity_um_recv_sdu ::
  "u64 \<Rightarrow> nr_rlc_entity_um \<Rightarrow> byte list \<Rightarrow> int \<Rightarrow> nr_rlc_entity_um res" where
  "nr_rlc_entity_um_recv_sdu now_us entity buffer sdu_id =
     (let sz = int (length buffer)
      in rbind (rcheck (sz \<le> NR_SDU_MAX) Exit_fatal) (\<lambda>_.
         let e = um_sdu_arrives sz entity
         in if um_tx_size e + sz > um_tx_maxsize e
            then Inr (count_stat (\<lambda>s. s\<lparr>rxsdu_dd_pkts := rxsdu_dd_pkts s + 1,
                                        rxsdu_dd_bytes := rxsdu_dd_bytes s + word_of_int sz\<rparr>)
                        (e\<lparr>um_sdu_rejected := um_sdu_rejected e + 1\<rparr>))
            else
              let e1 = e\<lparr>um_tx_size := um_tx_size e + sz\<rparr>
              in case nr_rlc_new_sdu (heap e1) buffer sdu_id of
                   (sdu, h) \<Rightarrow>
                     rbind (nr_rlc_sdu_segment_list_append (um_tx_list e1) (um_tx_end e1) sdu)
                       (\<lambda>(l, en).
                          Inr (stamp_arrival now_us sdu
                            (add_tx_size (um_compute_pdu_header_size e1 sdu + seg_size sdu)
                              ((set_heap h e1)\<lparr>um_tx_list := l, um_tx_end := en\<rparr>))))))"

section \<open>Timers\<close>

text \<open>
  The loop that discards the segments of numbers below \<open>rx_next_reassembly\<close>; it does not give
  their bytes back to \<open>rx_size\<close>.
\<close>

fun um_discard_below_reassembly ::
  "nr_rlc_pdu list \<Rightarrow> nr_rlc_entity_um \<Rightarrow> nr_rlc_entity_um" where
  "um_discard_below_reassembly [] e = e"
| "um_discard_below_reassembly (p # l) e =
     (if um_sn_compare_rx e (pdu_sn p) (um_rx_next_reassembly e) < 0
      then um_discard_below_reassembly l
             (count_stat (\<lambda>s. s\<lparr>rxpdu_dd_pkts := rxpdu_dd_pkts s + 1,
                                rxpdu_dd_bytes := rxpdu_dd_bytes s + word_of_int (pdu_size p)\<rparr>)
               (e\<lparr>um_rx_list := l\<rparr>))
      else e)"

definition um_check_t_reassembly :: "nr_rlc_entity_um \<Rightarrow> nr_rlc_entity_um res" where
  "um_check_t_reassembly entity =
     (if um_t_reassembly_start entity = 0
         \<or> um_t_current entity
             \<le> um_t_reassembly_start entity + word_of_int (um_t_reassembly entity)
      then Inr entity
      else
        rbind (um_skip_delivered entity (um_rx_timer_trigger entity)) (\<lambda>sn.
        let e1 = entity\<lparr>um_t_reassembly_start := 0, um_rx_next_reassembly := sn\<rparr>;
            e = um_discard_below_reassembly (um_rx_list e1) e1
        in Inr (if um_sn_compare_rx e (um_rx_next_highest e)
                     ((um_rx_next_reassembly e + 1) mod um_sn_modulus e) > 0
                   \<or> (um_rx_next_highest e = um_rx_next_reassembly e + 1
                      \<and> um_sdu_has_missing_bytes e (um_rx_next_reassembly e))
                then e\<lparr>um_t_reassembly_start := um_t_current e,
                       um_rx_timer_trigger := um_rx_next_highest e\<rparr>
                else e)))"

definition nr_rlc_entity_um_set_time :: "nr_rlc_entity_um \<Rightarrow> u64 \<Rightarrow> nr_rlc_entity_um res" where
  "nr_rlc_entity_um_set_time entity now = um_check_t_reassembly (entity\<lparr>um_t_current := now\<rparr>)"

section \<open>Discard, re-establishment, deletion\<close>

definition nr_rlc_entity_um_discard_sdu :: "nr_rlc_entity_um \<Rightarrow> int \<Rightarrow> nr_rlc_entity_um" where
  "nr_rlc_entity_um_discard_sdu e sdu_id =
     (let other = (\<lambda>s. sdu_upper_layer_id (sdu_of (heap e) s) \<noteq> sdu_id);
          before = takeWhile other (um_tx_list e)
      in case dropWhile other (um_tx_list e) of
           [] \<Rightarrow> e
         | cur # after \<Rightarrow>
             if \<not> seg_is_first cur \<or> \<not> seg_is_last cur then e
             else
               let e1 = e\<lparr>um_tx_list := before @ after,
                          um_tx_end := (if um_tx_end e = Some (seg_addr cur) then list_end before
                                        else um_tx_end e)\<rparr>;
                   e2 = add_tx_size (- (um_compute_pdu_header_size e1 cur + seg_size cur)) e1
               in set_heap (snd (nr_rlc_free_sdu_segment cur (heap e2))) e2)"

definition um_clear_entity :: "nr_rlc_entity_um \<Rightarrow> nr_rlc_entity_um" where
  "um_clear_entity e =
     e\<lparr>um_rx_next_highest := 0, um_rx_next_reassembly := 0, um_rx_timer_trigger := 0,
       um_tx_next := 0, um_t_current := 0, um_t_log_buffer_full := 0, um_sdu_rejected := 0,
       um_t_reassembly_start := 0, um_rx_list := [], um_rx_size := 0,
       heap := nr_rlc_free_sdu_segment_list (um_tx_list e) (heap e),
       um_tx_list := [], um_tx_end := None, um_tx_size := 0,
       bstatus := (bstatus e)\<lparr>bs_tx_size := 0\<rparr>\<rparr>"

definition nr_rlc_entity_um_reestablishment :: "nr_rlc_entity_um \<Rightarrow> nr_rlc_entity_um" where
  "nr_rlc_entity_um_reestablishment e = um_clear_entity e"

definition nr_rlc_entity_um_delete :: "nr_rlc_entity_um \<Rightarrow> sdu_heap" where
  "nr_rlc_entity_um_delete e = heap (um_clear_entity e)"

definition nr_rlc_entity_um_available_tx_space :: "nr_rlc_entity_um \<Rightarrow> int" where
  "nr_rlc_entity_um_available_tx_space e = um_tx_maxsize e - um_tx_size e"

end
