(* ===== verification/Rlc_Tm.thy ===== *)
theory Rlc_Tm
  imports Rlc_Entity
begin

text \<open>
  The transparent mode entity, \<open>nr_rlc_entity_tm.h\<close> and \<open>nr_rlc_entity_tm.c\<close>: PDUs are SDUs, sent
  whole and in order.
\<close>

record nr_rlc_entity_tm = nr_rlc_entity +
  tm_t_current :: u64
  tm_t_log_buffer_full :: u64
  tm_sdu_rejected :: int
  tm_tx_list :: "nr_rlc_sdu_segment list"
  tm_tx_end :: "nat option"
  tm_tx_size :: int
  tm_tx_maxsize :: int

section \<open>Operations\<close>

definition nr_rlc_entity_tm_recv_pdu :: "nr_rlc_entity_tm \<Rightarrow> byte list \<Rightarrow> nr_rlc_entity_tm res" where
  "nr_rlc_entity_tm_recv_pdu e buffer =
     (let n = length buffer
      in Inr (count_stat (\<lambda>s. s\<lparr>txsdu_pkts := txsdu_pkts s + 1,
                                txsdu_bytes := txsdu_bytes s + of_nat n\<rparr>)
                (call (Deliver_sdu buffer)
                  (count_stat (\<lambda>s. s\<lparr>rxpdu_pkts := rxpdu_pkts s + 1,
                                     rxpdu_bytes := rxpdu_bytes s + of_nat n\<rparr>) e))))"

definition tm_generate_tx_pdu ::
  "u64 \<Rightarrow> nr_rlc_entity_tm \<Rightarrow> byte list \<Rightarrow> (int \<times> byte list \<times> nr_rlc_entity_tm) res" where
  "tm_generate_tx_pdu now_us e buffer =
     (case tm_tx_list e of
        [] \<Rightarrow> Inr (0, buffer, e)
      | sdu # rest \<Rightarrow>
          if seg_size sdu > int (length buffer) then Inr (0, buffer, e)
          else
            let e1 = e\<lparr>tm_tx_list := rest, tm_tx_end := (if rest = [] then None else tm_tx_end e)\<rparr>
            in rbind (c_read (sdu_data (sdu_of (heap e1) sdu)) 0 (seg_size sdu)) (\<lambda>data.
               rbind (c_memcpy buffer 0 data) (\<lambda>buffer'.
               let e2 = count_stat (\<lambda>s. s\<lparr>txpdu_pkts := txpdu_pkts s + 1,
                            txpdu_bytes := txpdu_bytes s + of_nat (length buffer)\<rparr>)
                          (e1\<lparr>tm_tx_size := tm_tx_size e1 - seg_size sdu\<rparr>);
                   e3 = add_tx_size (- seg_size sdu) (sample_waited_time now_us sdu e2)
               in Inr (seg_size sdu, buffer',
                       set_heap (snd (nr_rlc_free_sdu_segment sdu (heap e3))) e3))))"

definition nr_rlc_entity_tm_buffer_status ::
  "nr_rlc_entity_tm \<Rightarrow> int \<Rightarrow> nr_rlc_entity_buffer_status res" where
  "nr_rlc_entity_tm_buffer_status e maxsize =
     Inr \<lparr>bs_status_size = 0, bs_tx_size = bs_tx_size (bstatus e), bs_retx_size = 0\<rparr>"

definition nr_rlc_entity_tm_generate_pdu ::
  "u64 \<Rightarrow> nr_rlc_entity_tm \<Rightarrow> byte list \<Rightarrow> (int \<times> byte list \<times> nr_rlc_entity_tm) res" where
  "nr_rlc_entity_tm_generate_pdu now_us e buffer = tm_generate_tx_pdu now_us e buffer"

definition tm_log_rejected :: "nr_rlc_entity_tm \<Rightarrow> nr_rlc_entity_tm" where
  "tm_log_rejected e =
     (if tm_sdu_rejected e \<noteq> 0 \<and> tm_t_current e > tm_t_log_buffer_full e + 1000
      then e\<lparr>tm_sdu_rejected := 0, tm_t_log_buffer_full := tm_t_current e\<rparr> else e)"

definition tm_sdu_arrives :: "int \<Rightarrow> nr_rlc_entity_tm \<Rightarrow> nr_rlc_entity_tm" where
  "tm_sdu_arrives sz e =
     tm_log_rejected (count_stat (\<lambda>s. s\<lparr>rxsdu_pkts := rxsdu_pkts s + 1,
                                         rxsdu_bytes := rxsdu_bytes s + word_of_int sz\<rparr>) e)"

definition nr_rlc_entity_tm_recv_sdu ::
  "u64 \<Rightarrow> nr_rlc_entity_tm \<Rightarrow> byte list \<Rightarrow> int \<Rightarrow> nr_rlc_entity_tm res" where
  "nr_rlc_entity_tm_recv_sdu now_us entity buffer sdu_id =
     (let sz = int (length buffer)
      in rbind (rcheck (sz \<le> NR_SDU_MAX) Exit_fatal) (\<lambda>_.
         let e = tm_sdu_arrives sz entity
         in if tm_tx_size e + sz > tm_tx_maxsize e
            then Inr (count_stat (\<lambda>s. s\<lparr>rxsdu_dd_pkts := rxsdu_dd_pkts s + 1,
                                        rxsdu_dd_bytes := rxsdu_dd_bytes s + word_of_int sz\<rparr>)
                        (e\<lparr>tm_sdu_rejected := tm_sdu_rejected e + 1\<rparr>))
            else
              let e1 = e\<lparr>tm_tx_size := tm_tx_size e + sz\<rparr>
              in case nr_rlc_new_sdu (heap e1) buffer sdu_id of
                   (sdu, h) \<Rightarrow>
                     rbind (nr_rlc_sdu_segment_list_append (tm_tx_list e1) (tm_tx_end e1) sdu)
                       (\<lambda>(l, en).
                          Inr (stamp_arrival now_us sdu
                            (add_tx_size (seg_size sdu)
                              ((set_heap h e1)\<lparr>tm_tx_list := l, tm_tx_end := en\<rparr>))))))"

definition nr_rlc_entity_tm_set_time :: "nr_rlc_entity_tm \<Rightarrow> u64 \<Rightarrow> nr_rlc_entity_tm res" where
  "nr_rlc_entity_tm_set_time e now = Inr (e\<lparr>tm_t_current := now\<rparr>)"

definition nr_rlc_entity_tm_discard_sdu :: "nr_rlc_entity_tm \<Rightarrow> int \<Rightarrow> nr_rlc_entity_tm" where
  "nr_rlc_entity_tm_discard_sdu e sdu_id = e"

definition tm_clear_entity :: "nr_rlc_entity_tm \<Rightarrow> nr_rlc_entity_tm" where
  "tm_clear_entity e =
     e\<lparr>tm_t_current := 0, tm_t_log_buffer_full := 0, tm_sdu_rejected := 0,
       heap := nr_rlc_free_sdu_segment_list (tm_tx_list e) (heap e),
       tm_tx_list := [], tm_tx_end := None, tm_tx_size := 0,
       bstatus := (bstatus e)\<lparr>bs_tx_size := 0\<rparr>\<rparr>"

definition nr_rlc_entity_tm_reestablishment :: "nr_rlc_entity_tm \<Rightarrow> nr_rlc_entity_tm" where
  "nr_rlc_entity_tm_reestablishment e = tm_clear_entity e"

definition nr_rlc_entity_tm_delete :: "nr_rlc_entity_tm \<Rightarrow> sdu_heap" where
  "nr_rlc_entity_tm_delete e = heap (tm_clear_entity e)"

definition nr_rlc_entity_tm_available_tx_space :: "nr_rlc_entity_tm \<Rightarrow> int" where
  "nr_rlc_entity_tm_available_tx_space e = tm_tx_maxsize e - tm_tx_size e"

end
