(* ===== verification/Rlc_Entities.thy ===== *)
theory Rlc_Entities
  imports Rlc_Am_Tx Rlc_Um Rlc_Tm
begin

text \<open>
  \<open>nr_rlc_entity.c\<close>: the constructors of the three modes, the statistics and the
  reconfiguration, and the entity of any mode behind the function pointers of
  \<open>nr_rlc_entity_t\<close>, here a tagged union.
\<close>

section \<open>Constructors\<close>

definition new_nr_rlc_entity_am ::
  "int \<Rightarrow> int \<Rightarrow> int \<Rightarrow> int \<Rightarrow> int \<Rightarrow> int \<Rightarrow> int \<Rightarrow> int \<Rightarrow> nat \<Rightarrow> nr_rlc_entity_am res" where
  "new_nr_rlc_entity_am rx_maxsize tx_maxsize t_poll_retransmit t_reassembly t_status_prohibit
     poll_pdu poll_byte max_retx_threshold sn_field_length =
     rbind (rcheck (sn_field_length = 12 \<or> sn_field_length = 18) Assert_failed) (\<lambda>_.
     rbind (time_average_new (100 * 1000) 1024) (\<lambda>avg.
     Inr \<lparr>callbacks = [], bstatus = zero_bstatus, stats = zero_stats NR_RLC_AM,
          txsdu_avg_time_to_tx = avg, avg_time_is_on = False,
          heap = empty_heap,
          am_t_poll_retransmit = t_poll_retransmit, am_t_reassembly = t_reassembly,
          am_t_status_prohibit = t_status_prohibit, am_poll_pdu = poll_pdu, am_poll_byte = poll_byte,
          am_max_retx_threshold = max_retx_threshold, am_sn_field_length = sn_field_length,
          am_sn_modulus = push_bit sn_field_length 1,
          am_window_size = push_bit sn_field_length 1 div 2,
          am_rx_next = 0, am_rx_next_status_trigger = 0, am_rx_highest_status = 0,
          am_rx_next_highest = 0, am_status_triggered = False, am_tx_next = 0, am_tx_next_ack = 0,
          am_poll_sn = 0, am_pdu_without_poll = 0, am_byte_without_poll = 0, am_force_poll = False,
          am_t_current = 0, am_t_log_buffer_full = 0, am_sdu_rejected = 0,
          am_t_poll_retransmit_start = 0, am_t_reassembly_start = 0, am_t_status_prohibit_start = 0,
          am_rx_list = [], am_rx_size = 0, am_rx_maxsize = rx_maxsize * 5,
          am_tx_list = [], am_tx_end = None, am_tx_size = 0, am_tx_maxsize = tx_maxsize * 5,
          am_wait_list = [], am_wait_end = None, am_retransmit_list = []\<rparr>))"

definition new_nr_rlc_entity_um :: "int \<Rightarrow> int \<Rightarrow> int \<Rightarrow> nat \<Rightarrow> nr_rlc_entity_um res" where
  "new_nr_rlc_entity_um rx_maxsize tx_maxsize t_reassembly sn_field_length =
     rbind (rcheck (sn_field_length = 6 \<or> sn_field_length = 12) Assert_failed) (\<lambda>_.
     rbind (time_average_new (100 * 1000) 1024) (\<lambda>avg.
     Inr \<lparr>callbacks = [], bstatus = zero_bstatus, stats = zero_stats NR_RLC_UM,
          txsdu_avg_time_to_tx = avg, avg_time_is_on = False,
          heap = empty_heap,
          um_t_reassembly = t_reassembly, um_sn_field_length = sn_field_length,
          um_sn_modulus = push_bit sn_field_length 1,
          um_window_size = push_bit sn_field_length 1 div 2,
          um_rx_next_highest = 0, um_rx_next_reassembly = 0, um_rx_timer_trigger = 0, um_tx_next = 0,
          um_t_current = 0, um_t_log_buffer_full = 0, um_sdu_rejected = 0, um_t_reassembly_start = 0,
          um_rx_list = [], um_rx_size = 0, um_rx_maxsize = rx_maxsize,
          um_tx_list = [], um_tx_end = None, um_tx_size = 0, um_tx_maxsize = tx_maxsize\<rparr>))"

definition new_nr_rlc_entity_tm :: "int \<Rightarrow> nr_rlc_entity_tm res" where
  "new_nr_rlc_entity_tm tx_maxsize =
     rbind (time_average_new (100 * 1000) 1024) (\<lambda>avg.
     Inr \<lparr>callbacks = [], bstatus = zero_bstatus, stats = zero_stats NR_RLC_TM,
      txsdu_avg_time_to_tx = avg, avg_time_is_on = False,
      heap = empty_heap,
      tm_t_current = 0, tm_t_log_buffer_full = 0, tm_sdu_rejected = 0,
      tm_tx_list = [], tm_tx_end = None, tm_tx_size = 0, tm_tx_maxsize = tx_maxsize\<rparr>)"

section \<open>Reconfiguration\<close>

text \<open>
  The optional argument is the pointer \<open>sn_field_length\<close>. Neither function updates the modulus
  and the window size that the constructor derived from the old length.
\<close>

definition nr_rlc_entity_um_reconfigure ::
  "nr_rlc_entity_um \<Rightarrow> int \<Rightarrow> nat option \<Rightarrow> nr_rlc_entity_um" where
  "nr_rlc_entity_um_reconfigure e t_reassembly sn_field_length =
     (let e1 = e\<lparr>um_t_reassembly := t_reassembly\<rparr>
      in case sn_field_length of None \<Rightarrow> e1 | Some n \<Rightarrow> e1\<lparr>um_sn_field_length := n\<rparr>)"

definition nr_rlc_entity_am_reconfigure ::
  "nr_rlc_entity_am \<Rightarrow> int \<Rightarrow> int \<Rightarrow> int \<Rightarrow> int \<Rightarrow> int \<Rightarrow> int \<Rightarrow> nat option \<Rightarrow> nr_rlc_entity_am" where
  "nr_rlc_entity_am_reconfigure e t_poll_retransmit t_reassembly t_status_prohibit poll_pdu
     poll_byte max_retx_threshold sn_field_length =
     (let e1 = e\<lparr>am_t_poll_retransmit := t_poll_retransmit, am_t_reassembly := t_reassembly,
                 am_t_status_prohibit := t_status_prohibit, am_poll_pdu := poll_pdu,
                 am_poll_byte := poll_byte, am_max_retx_threshold := max_retx_threshold\<rparr>
      in case sn_field_length of None \<Rightarrow> e1 | Some n \<Rightarrow> e1\<lparr>am_sn_field_length := n\<rparr>)"

section \<open>An entity of any mode\<close>

datatype rlc_entity_any =
    Am nr_rlc_entity_am
  | Um nr_rlc_entity_um
  | Tm nr_rlc_entity_tm

text \<open>
  The function pointers, set by the constructors. Each returns the new entity; in a state the
  code cannot leave (a fatal exit) the error.
\<close>

fun rlc_recv_pdu :: "rlc_entity_any \<Rightarrow> byte list \<Rightarrow> rlc_entity_any res" where
  "rlc_recv_pdu (Am e) buf = rbind (nr_rlc_entity_am_recv_pdu e buf) (\<lambda>e'. Inr (Am e'))"
| "rlc_recv_pdu (Um e) buf = rbind (nr_rlc_entity_um_recv_pdu e buf) (\<lambda>e'. Inr (Um e'))"
| "rlc_recv_pdu (Tm e) buf = rbind (nr_rlc_entity_tm_recv_pdu e buf) (\<lambda>e'. Inr (Tm e'))"

fun rlc_buffer_status :: "rlc_entity_any \<Rightarrow> int \<Rightarrow> nr_rlc_entity_buffer_status res" where
  "rlc_buffer_status (Am e) maxsize = nr_rlc_entity_am_buffer_status e maxsize"
| "rlc_buffer_status (Um e) maxsize = nr_rlc_entity_um_buffer_status e maxsize"
| "rlc_buffer_status (Tm e) maxsize = nr_rlc_entity_tm_buffer_status e maxsize"

fun rlc_generate_pdu ::
  "u64 \<Rightarrow> rlc_entity_any \<Rightarrow> byte list \<Rightarrow> (int \<times> byte list \<times> rlc_entity_any) res" where
  "rlc_generate_pdu now (Am e) buf =
     rbind (nr_rlc_entity_am_generate_pdu now e buf) (\<lambda>(n, b, e'). Inr (n, b, Am e'))"
| "rlc_generate_pdu now (Um e) buf =
     rbind (nr_rlc_entity_um_generate_pdu now e buf) (\<lambda>(n, b, e'). Inr (n, b, Um e'))"
| "rlc_generate_pdu now (Tm e) buf =
     rbind (nr_rlc_entity_tm_generate_pdu now e buf) (\<lambda>(n, b, e'). Inr (n, b, Tm e'))"

fun rlc_recv_sdu :: "u64 \<Rightarrow> rlc_entity_any \<Rightarrow> byte list \<Rightarrow> int \<Rightarrow> rlc_entity_any res" where
  "rlc_recv_sdu now (Am e) buf i = rbind (nr_rlc_entity_am_recv_sdu now e buf i) (\<lambda>e'. Inr (Am e'))"
| "rlc_recv_sdu now (Um e) buf i = rbind (nr_rlc_entity_um_recv_sdu now e buf i) (\<lambda>e'. Inr (Um e'))"
| "rlc_recv_sdu now (Tm e) buf i = rbind (nr_rlc_entity_tm_recv_sdu now e buf i) (\<lambda>e'. Inr (Tm e'))"

fun rlc_set_time :: "rlc_entity_any \<Rightarrow> u64 \<Rightarrow> rlc_entity_any res" where
  "rlc_set_time (Am e) now = rbind (nr_rlc_entity_am_set_time e now) (\<lambda>e'. Inr (Am e'))"
| "rlc_set_time (Um e) now = rbind (nr_rlc_entity_um_set_time e now) (\<lambda>e'. Inr (Um e'))"
| "rlc_set_time (Tm e) now = rbind (nr_rlc_entity_tm_set_time e now) (\<lambda>e'. Inr (Tm e'))"

fun rlc_discard_sdu :: "rlc_entity_any \<Rightarrow> int \<Rightarrow> rlc_entity_any" where
  "rlc_discard_sdu (Am e) i = Am (nr_rlc_entity_am_discard_sdu e i)"
| "rlc_discard_sdu (Um e) i = Um (nr_rlc_entity_um_discard_sdu e i)"
| "rlc_discard_sdu (Tm e) i = Tm (nr_rlc_entity_tm_discard_sdu e i)"

fun rlc_reestablishment :: "rlc_entity_any \<Rightarrow> rlc_entity_any" where
  "rlc_reestablishment (Am e) = Am (nr_rlc_entity_am_reestablishment e)"
| "rlc_reestablishment (Um e) = Um (nr_rlc_entity_um_reestablishment e)"
| "rlc_reestablishment (Tm e) = Tm (nr_rlc_entity_tm_reestablishment e)"

fun rlc_delete_entity :: "rlc_entity_any \<Rightarrow> sdu_heap" where
  "rlc_delete_entity (Am e) = nr_rlc_entity_am_delete e"
| "rlc_delete_entity (Um e) = nr_rlc_entity_um_delete e"
| "rlc_delete_entity (Tm e) = nr_rlc_entity_tm_delete e"

fun rlc_available_tx_space :: "rlc_entity_any \<Rightarrow> int" where
  "rlc_available_tx_space (Am e) = nr_rlc_entity_am_available_tx_space e"
| "rlc_available_tx_space (Um e) = nr_rlc_entity_um_available_tx_space e"
| "rlc_available_tx_space (Tm e) = nr_rlc_entity_tm_available_tx_space e"

section \<open>Statistics\<close>

definition head_of :: "'a list \<Rightarrow> 'a option" where
  "head_of l = (case l of [] \<Rightarrow> None | x # _ \<Rightarrow> Some x)"

fun nr_rlc_entity_get_stats ::
  "rlc_entity_any \<Rightarrow> u64 \<Rightarrow> nr_rlc_statistics \<times> rlc_entity_any" where
  "nr_rlc_entity_get_stats (Am e) time_now =
     (case get_stats_hol (head_of (if am_retransmit_list e \<noteq> [] then am_retransmit_list e
                                   else am_tx_list e)) time_now e of (s, e') \<Rightarrow> (s, Am e'))"
| "nr_rlc_entity_get_stats (Um e) time_now =
     (case get_stats_hol (head_of (um_tx_list e)) time_now e of (s, e') \<Rightarrow> (s, Um e'))"
| "nr_rlc_entity_get_stats (Tm e) time_now =
     (case get_stats_hol (head_of (tm_tx_list e)) time_now e of (s, e') \<Rightarrow> (s, Tm e'))"

end
