(* ===== verification/Rlc_Store.thy ===== *)
theory Rlc_Store
  imports Rlc_Entity
begin

text \<open>
  The invariant of the transmission side that the three modes share: every segment lies inside
  its SDU, no byte of an SDU belongs to two segments, and the reference counts are exact. The
  lemmas say how the invariant goes through the operations on segments: a new SDU, an update
  of a counter, a split and a free.
\<close>

section \<open>The invariant\<close>

definition seg_wf :: "sdu_heap \<Rightarrow> nr_rlc_sdu_segment \<Rightarrow> bool" where
  "seg_wf h s \<longleftrightarrow>
     0 \<le> seg_so s \<and> 0 < seg_size s
     \<and> seg_so s + seg_size s \<le> sdu_size (sdu_of h s)
     \<and> sdu_size (sdu_of h s) = int (length (sdu_data (sdu_of h s)))
     \<and> sdu_size (sdu_of h s) \<le> NR_SDU_MAX
     \<and> (seg_is_first s \<longleftrightarrow> seg_so s = 0)
     \<and> (seg_is_last s \<longleftrightarrow> seg_so s + seg_size s = sdu_size (sdu_of h s))"

definition seg_covers :: "nat \<Rightarrow> int \<Rightarrow> nr_rlc_sdu_segment \<Rightarrow> bool" where
  "seg_covers i b s \<longleftrightarrow> seg_sdu s = i \<and> seg_so s \<le> b \<and> b < seg_so s + seg_size s"

definition cover_count :: "nr_rlc_sdu_segment list \<Rightarrow> nat \<Rightarrow> int \<Rightarrow> nat" where
  "cover_count l i b = length (filter (seg_covers i b) l)"

lemma cover_count_simps [simp]:
  "cover_count [] i b = 0"
  "cover_count (s # l) i b = (if seg_covers i b s then 1 else 0) + cover_count l i b"
  "cover_count (l @ l') i b = cover_count l i b + cover_count l' i b"
  by (simp_all add: cover_count_def)

lemma cover_count_mset: "mset l = mset l' \<Longrightarrow> cover_count l i b = cover_count l' i b"
  unfolding cover_count_def by (metis mset_filter size_mset)

lemma cover_count_mem: "s \<in> set l \<Longrightarrow> seg_covers i b s \<Longrightarrow> 1 \<le> cover_count l i b"
  by (induction l) auto

definition store_inv :: "sdu_heap \<Rightarrow> nr_rlc_sdu_segment list \<Rightarrow> bool" where
  "store_inv h l \<longleftrightarrow>
     refs_ok h l \<and> (\<forall>s \<in> set l. seg_wf h s) \<and> (\<forall>i b. cover_count l i b \<le> 1)"

text \<open>The bytes of the SDUs in the store.\<close>

definition alloc_bytes :: "sdu_heap \<Rightarrow> int" where
  "alloc_bytes h = (\<Sum>i \<in> {i. i < hp_next h \<and> hp_alloc h i}. sdu_size (hp_sdu h i))"

lemma store_inv_wf: "store_inv h l \<Longrightarrow> s \<in> set l \<Longrightarrow> seg_wf h s"
  by (simp add: store_inv_def)

lemma store_inv_refs: "store_inv h l \<Longrightarrow> refs_ok h l"
  by (simp add: store_inv_def)

lemma store_inv_cover: "store_inv h l \<Longrightarrow> cover_count l i b \<le> 1"
  by (simp add: store_inv_def)

lemma store_inv_alloc: "store_inv h l \<Longrightarrow> s \<in> set l \<Longrightarrow> hp_alloc h (seg_sdu s)"
  by (auto simp: store_inv_def dest: refs_ok_alloc)

lemma store_inv_alloc_less: "store_inv h l \<Longrightarrow> hp_alloc h i \<Longrightarrow> i < hp_next h"
  unfolding store_inv_def refs_ok_def by blast

lemma store_inv_addr: "store_inv h l \<Longrightarrow> distinct (map seg_addr l)"
  by (simp add: store_inv_def refs_ok_def)

lemma store_inv_fresh: "store_inv h l \<Longrightarrow> s \<in> set l \<Longrightarrow> seg_addr s < hp_next h"
  by (simp add: store_inv_def refs_ok_def)

lemma store_inv_mset: "mset l = mset l' \<Longrightarrow> store_inv h l \<Longrightarrow> store_inv h l'"
  unfolding store_inv_def
  by (metis cover_count_mset refs_ok_mset set_mset_mset)

lemma store_inv_empty: "store_inv empty_heap []"
  by (simp add: store_inv_def refs_ok_def empty_heap_def)

text \<open>Two segments of one SDU do not start at the same byte.\<close>

lemma store_inv_so_neq:
  assumes "store_inv h (s # l)" "t \<in> set l" "seg_sdu s = seg_sdu t"
  shows "seg_so s \<noteq> seg_so t"
proof
  assume eq: "seg_so s = seg_so t"
  have "seg_wf h s" "seg_wf h t" using assms by (auto simp: store_inv_def)
  then have c: "seg_covers (seg_sdu s) (seg_so s) s" "seg_covers (seg_sdu s) (seg_so s) t"
    using assms(3) eq by (auto simp: seg_covers_def seg_wf_def)
  have "1 \<le> cover_count l (seg_sdu s) (seg_so s)" using cover_count_mem[OF assms(2) c(2)] .
  then have "2 \<le> cover_count (s # l) (seg_sdu s) (seg_so s)" using c(1) by simp
  then show False using store_inv_cover[OF assms(1), of "seg_sdu s" "seg_so s"] by simp
qed

text \<open>A segment that is its whole SDU is the only one of the SDU.\<close>

lemma store_inv_whole:
  assumes st: "store_inv h (l1 @ s # l2)" and "seg_is_first s" "seg_is_last s" "t \<in> set (l1 @ l2)"
  shows "seg_sdu t \<noteq> seg_sdu s"
proof
  assume same: "seg_sdu t = seg_sdu s"
  have "seg_wf h s" "seg_wf h t" using st assms(4) by (auto simp: store_inv_def)
  then have c: "seg_covers (seg_sdu s) (seg_so t) s" "seg_covers (seg_sdu s) (seg_so t) t"
    using assms(2,3) same by (auto simp: seg_wf_def seg_covers_def sdu_of_def)
  then have "2 \<le> cover_count (l1 @ s # l2) (seg_sdu s) (seg_so t)"
    using cover_count_mem[OF assms(4) c(2)] by simp
  then show False using store_inv_cover[OF st, of "seg_sdu s" "seg_so t"] by simp
qed

section \<open>Operations\<close>

text \<open>Updates that keep the data and the reference counts.\<close>

lemma store_inv_update:
  assumes "store_inv h l"
    and "\<And>s. sdu_ref_count (f s) = sdu_ref_count s" "\<And>s. sdu_free_count (f s) = sdu_free_count s"
    and "\<And>s. sdu_size (f s) = sdu_size s" "\<And>s. sdu_data (f s) = sdu_data s"
  shows "store_inv (update_sdu f seg h) l"
  using assms refs_ok_update[of h l f seg]
  by (auto simp: store_inv_def seg_wf_def sdu_of_def)

lemma alloc_bytes_update:
  assumes "\<And>s. sdu_size (f s) = sdu_size s"
  shows "alloc_bytes (update_sdu f seg h) = alloc_bytes h"
  unfolding alloc_bytes_def by (rule sum.cong) (auto simp: assms)

lemma store_inv_new:
  assumes "store_inv h l" "nr_rlc_new_sdu h buf u = (seg, h')" "buf \<noteq> []"
    "int (length buf) \<le> NR_SDU_MAX"
  shows "store_inv h' (l @ [seg])" "alloc_bytes h' = alloc_bytes h + int (length buf)"
proof -
  have n: "seg_sdu seg = hp_next h" "seg_so seg = 0" "seg_size seg = int (length buf)"
    "hp_sdu h' = (hp_sdu h)(hp_next h := sdu_of h' seg)" "hp_next h' = Suc (hp_next h)"
    "hp_alloc h' = (hp_alloc h)(hp_next h := True)" "sdu_size (sdu_of h' seg) = int (length buf)"
    "sdu_data (sdu_of h' seg) = buf" "seg_is_first seg" "seg_is_last seg"
    using assms(2) by (auto simp: nr_rlc_new_sdu_def Let_def sdu_of_def)
  have old: "seg_sdu s \<noteq> hp_next h" if "s \<in> set l" for s
    using refs_ok_alloc[OF store_inv_refs[OF assms(1)] that] assms(1)
    by (auto simp: store_inv_def refs_ok_def)
  have wf: "seg_wf h' s" if "s \<in> set l" for s
  proof -
    have "sdu_of h' s = sdu_of h s" using old[OF that] fun_cong[OF n(4), of "seg_sdu s"] by (simp add: sdu_of_def)
    then show ?thesis using store_inv_wf[OF assms(1) that] by (simp add: seg_wf_def)
  qed
  moreover have "seg_wf h' seg" using n assms(3,4) by (simp add: seg_wf_def)
  moreover have "cover_count (l @ [seg]) i b \<le> 1" for i b
  proof (cases "i = hp_next h")
    case True
    then have "cover_count l i b = 0" using old by (auto simp: cover_count_def seg_covers_def filter_empty_conv)
    then show ?thesis by simp
  next
    case False
    then have "\<not> seg_covers i b seg" using n by (simp add: seg_covers_def)
    then show ?thesis using store_inv_cover[OF assms(1), of i b] by simp
  qed
  ultimately show "store_inv h' (l @ [seg])"
    using refs_ok_new[OF store_inv_refs[OF assms(1)] assms(2)] by (simp add: store_inv_def)
  have set: "{i. i < hp_next h' \<and> hp_alloc h' i}
      = insert (hp_next h) {i. i < hp_next h \<and> hp_alloc h i}" using n by auto
  have same: "sdu_size (hp_sdu h' i) = sdu_size (hp_sdu h i)" if "i < hp_next h" for i
    using fun_cong[OF n(4), of i] that by simp
  have sz: "sdu_size (hp_sdu h' (hp_next h)) = int (length buf)" using n(1,7) by (simp add: sdu_of_def)
  show "alloc_bytes h' = alloc_bytes h + int (length buf)"
    unfolding alloc_bytes_def set by (simp add: sz same)
qed

lemma free_segment_same:
  "sdu_size (hp_sdu (snd (nr_rlc_free_sdu_segment seg h)) i) = sdu_size (hp_sdu h i)"
  "sdu_sn (hp_sdu (snd (nr_rlc_free_sdu_segment seg h)) i) = sdu_sn (hp_sdu h i)"
  "sdu_data (hp_sdu (snd (nr_rlc_free_sdu_segment seg h)) i) = sdu_data (hp_sdu h i)"
  "sdu_upper_layer_id (hp_sdu (snd (nr_rlc_free_sdu_segment seg h)) i) = sdu_upper_layer_id (hp_sdu h i)"
  by (simp_all add: free_segment_heap(3))

lemma store_inv_free:
  assumes "store_inv h (l1 @ seg # l2)"
  shows "store_inv (snd (nr_rlc_free_sdu_segment seg h)) (l1 @ l2)"
    and "fst (nr_rlc_free_sdu_segment seg h) \<longleftrightarrow> (\<forall>s \<in> set (l1 @ l2). seg_sdu s \<noteq> seg_sdu seg)"
    and "alloc_bytes (snd (nr_rlc_free_sdu_segment seg h))
         = alloc_bytes h - (if fst (nr_rlc_free_sdu_segment seg h) then sdu_size (sdu_of h seg) else 0)"
proof -
  let ?h = "snd (nr_rlc_free_sdu_segment seg h)"
  note refs = store_inv_refs[OF assms]
  have "seg_wf ?h s" if "s \<in> set (l1 @ l2)" for s
    using store_inv_wf[OF assms, of s] that by (auto simp: seg_wf_def sdu_of_def free_segment_same)
  moreover have "cover_count (l1 @ l2) i b \<le> 1" for i b
    using store_inv_cover[OF assms, of i b] by (simp split: if_splits)
  ultimately show "store_inv ?h (l1 @ l2)"
    using free_segment_cases(2)[OF refs] by (simp add: store_inv_def)
  show "fst (nr_rlc_free_sdu_segment seg h) \<longleftrightarrow> (\<forall>s \<in> set (l1 @ l2). seg_sdu s \<noteq> seg_sdu seg)"
    using free_segment_cases(1)[OF refs] by (simp only: seg_count_zero)
  have al: "hp_alloc h (seg_sdu seg)" "seg_sdu seg < hp_next h"
    using refs refs_ok_alloc[OF refs, of seg] by (auto simp: refs_ok_def)
  show "alloc_bytes ?h
         = alloc_bytes h - (if fst (nr_rlc_free_sdu_segment seg h) then sdu_size (sdu_of h seg) else 0)"
  proof (cases "fst (nr_rlc_free_sdu_segment seg h)")
    case True
    then have "{i. i < hp_next ?h \<and> hp_alloc ?h i}
        = {i. i < hp_next h \<and> hp_alloc h i} - {seg_sdu seg}"
      by (auto simp: free_segment_heap)
    then show ?thesis using True al
      by (simp add: alloc_bytes_def free_segment_same sum_diff1 sdu_of_def)
  next
    case False
    then have "{i. i < hp_next ?h \<and> hp_alloc ?h i} = {i. i < hp_next h \<and> hp_alloc h i}"
      by (auto simp: free_segment_heap)
    then show ?thesis using False by (simp add: alloc_bytes_def free_segment_same)
  qed
qed

text \<open>
  A split into a first part of \<open>n\<close> bytes and the rest: the reference count goes up by one and the
  new segment has a fresh address.
\<close>

definition split_heap :: "nr_rlc_sdu_segment \<Rightarrow> sdu_heap \<Rightarrow> sdu_heap" where
  "split_heap s h =
     (update_sdu (\<lambda>s. s\<lparr>sdu_ref_count := sdu_ref_count s + 1\<rparr>) s h)\<lparr>hp_next := hp_next h + 1\<rparr>"

definition first_part :: "int \<Rightarrow> nr_rlc_sdu_segment \<Rightarrow> nr_rlc_sdu_segment" where
  "first_part n s = s\<lparr>seg_size := n, seg_is_last := False\<rparr>"

definition rest_part :: "int \<Rightarrow> nat \<Rightarrow> nr_rlc_sdu_segment \<Rightarrow> nr_rlc_sdu_segment" where
  "rest_part n a s =
     s\<lparr>seg_addr := a, seg_size := seg_size s - n, seg_so := seg_so s + n, seg_is_first := False\<rparr>"

lemma part_simps [simp]:
  "seg_sdu (first_part n s) = seg_sdu s" "seg_sdu (rest_part n a s) = seg_sdu s"
  "seg_addr (first_part n s) = seg_addr s" "seg_addr (rest_part n a s) = a"
  "seg_size (first_part n s) = n" "seg_size (rest_part n a s) = seg_size s - n"
  "seg_so (first_part n s) = seg_so s" "seg_so (rest_part n a s) = seg_so s + n"
  "seg_is_first (first_part n s) = seg_is_first s" "\<not> seg_is_first (rest_part n a s)"
  "\<not> seg_is_last (first_part n s)" "seg_is_last (rest_part n a s) = seg_is_last s"
  by (simp_all add: first_part_def rest_part_def)

lemma split_heap_simps [simp]:
  "hp_next (split_heap s h) = Suc (hp_next h)"
  "hp_alloc (split_heap s h) = hp_alloc h"
  "sdu_size (hp_sdu (split_heap s h) i) = sdu_size (hp_sdu h i)"
  "sdu_sn (hp_sdu (split_heap s h) i) = sdu_sn (hp_sdu h i)"
  "sdu_data (hp_sdu (split_heap s h) i) = sdu_data (hp_sdu h i)"
  "sdu_upper_layer_id (hp_sdu (split_heap s h) i) = sdu_upper_layer_id (hp_sdu h i)"
  by (simp_all add: split_heap_def)

text \<open>The two parts cover the bytes of the segment, each once.\<close>

lemma cover_split:
  assumes "0 \<le> n" "n \<le> seg_size s"
  shows "cover_count [first_part n s, rest_part n a s] i b = cover_count [s] i b"
  using assms by (auto simp: seg_covers_def)

lemma store_inv_split:
  assumes "store_inv h (s # l)" "0 < n" "n < seg_size s"
  shows "store_inv (split_heap s h) (first_part n s # rest_part n (hp_next h) s # l)"
    and "alloc_bytes (split_heap s h) = alloc_bytes h"
proof -
  let ?l = "first_part n s # rest_part n (hp_next h) s # l" and ?h = "split_heap s h"
  note wf = store_inv_wf[OF assms(1)]
  have refs: "refs_ok h (s # l)" using assms(1) by (simp add: store_inv_def)
  have cnt: "seg_count ?l i = seg_count (s # l) i + (if i = seg_sdu s then 1 else 0)" for i by simp
  have fresh: "hp_next h \<notin> seg_addr ` set (s # l)" using refs unfolding refs_ok_def by fastforce
  have refc: "sdu_ref_count (hp_sdu ?h i) - sdu_free_count (hp_sdu ?h i)
      = sdu_ref_count (hp_sdu h i) - sdu_free_count (hp_sdu h i) + (if i = seg_sdu s then 1 else 0)" for i
    by (simp add: split_heap_def)
  have "refs_ok ?h ?l"
    unfolding refs_ok_def cnt refc split_heap_simps
  proof (intro conjI allI impI ballI)
    show "hp_alloc h i \<Longrightarrow> i < Suc (hp_next h)" for i using refs by (auto simp: refs_ok_def less_Suc_eq)
    show "t \<in> set ?l \<Longrightarrow> seg_addr t < Suc (hp_next h)" for t
      using refs by (auto simp: refs_ok_def less_Suc_eq)
    show "distinct (map seg_addr ?l)" using refs fresh by (auto simp: refs_ok_def)
    show "hp_alloc h i = (0 < seg_count (s # l) i + (if i = seg_sdu s then 1 else 0))" for i
      using refs by (auto simp: refs_ok_def)
    show "hp_alloc h i \<Longrightarrow>
        sdu_ref_count (hp_sdu h i) - sdu_free_count (hp_sdu h i) + (if i = seg_sdu s then 1 else 0)
        = int (seg_count (s # l) i + (if i = seg_sdu s then 1 else 0))" for i
      using refs by (simp add: refs_ok_def)
  qed
  moreover have "\<forall>t \<in> set ?l. seg_wf ?h t"
  proof -
    have "seg_wf ?h t = seg_wf h t" for t by (simp add: seg_wf_def sdu_of_def)
    moreover have "seg_wf h (first_part n s)" "seg_wf h (rest_part n (hp_next h) s)"
      using wf[of s] assms(2,3) by (auto simp: seg_wf_def sdu_of_def)
    ultimately show ?thesis using wf by simp
  qed
  moreover have "cover_count ?l i b \<le> 1" for i b
    using store_inv_cover[OF assms(1), of i b] cover_split[of n s "hp_next h" i b] assms(2,3) by simp
  ultimately show "store_inv ?h ?l" by (simp add: store_inv_def)
  have "hp_alloc h i \<Longrightarrow> i < hp_next h" for i using refs unfolding refs_ok_def by blast
  then have "{i. i < hp_next ?h \<and> hp_alloc ?h i} = {i. i < hp_next h \<and> hp_alloc h i}"
    by (auto simp: less_Suc_eq)
  then show "alloc_bytes ?h = alloc_bytes h" by (simp add: alloc_bytes_def)
qed

text \<open>Freeing a whole list leaves no SDU of its segments.\<close>

lemma store_inv_free_list:
  "store_inv h (l @ r) \<Longrightarrow> store_inv (nr_rlc_free_sdu_segment_list l h) r"
proof (induction l arbitrary: h)
  case Nil
  then show ?case by simp
next
  case (Cons s l)
  then have "store_inv (snd (nr_rlc_free_sdu_segment s h)) (l @ r)"
    using store_inv_free(1)[of h "[]" s "l @ r"] by simp
  then show ?case using Cons.IH by simp
qed

lemma store_inv_no_leak: "store_inv h [] \<Longrightarrow> \<not> hp_alloc h i"
  by (simp add: store_inv_def refs_ok_def)

lemma alloc_bytes_empty: "store_inv h [] \<Longrightarrow> alloc_bytes h = 0"
  by (simp add: alloc_bytes_def store_inv_no_leak)

end
