(* ===== verification/Rlc_Wire.thy ===== *)
theory Rlc_Wire
  imports Rlc_Store
begin

text \<open>
  What the serializers and parsers of the AM and UM entities share: the payload of a segment, the
  copy of the payload behind an encoded header, and reading fields of a PDU whose bits are known.
\<close>

definition seg_bytes :: "sdu_heap \<Rightarrow> nr_rlc_sdu_segment \<Rightarrow> byte list" where
  "seg_bytes h s = take (nat (seg_size s)) (drop (nat (seg_so s)) (sdu_data (sdu_of h s)))"

lemma seg_wf_read:
  "seg_wf h s \<Longrightarrow> c_read (sdu_data (sdu_of h s)) (seg_so s) (seg_size s) = Inr (seg_bytes h s)"
  by (simp add: seg_wf_def seg_bytes_def c_read_ok)

lemma length_seg_bytes: "seg_wf h s \<Longrightarrow> length (seg_bytes h s) = nat (seg_size s)"
  by (auto simp: seg_wf_def seg_bytes_def)

lemma seg_wf_so: "seg_wf h s \<Longrightarrow> 0 \<le> seg_so s \<and> seg_so s < 2 ^ 16"
  by (simp add: seg_wf_def NR_SDU_MAX_def)

lemma seg_wf_size: "seg_wf h s \<Longrightarrow> 0 < seg_size s \<and> seg_size s \<le> NR_SDU_MAX"
  by (auto simp: seg_wf_def)

lemma seg_bytes_cong:
  "(\<And>i. sdu_data (hp_sdu h' i) = sdu_data (hp_sdu h i)) \<Longrightarrow> seg_bytes h' = seg_bytes h"
  by (simp add: seg_bytes_def sdu_of_def fun_eq_iff)

lemma seg_bytes_new:
  assumes "store_inv h l" "nr_rlc_new_sdu h buf u = (seg, h')"
  shows "seg_bytes h' seg = buf" "\<And>t. t \<in> set l \<Longrightarrow> seg_bytes h' t = seg_bytes h t"
proof -
  show "seg_bytes h' seg = buf" using assms(2) by (auto simp: nr_rlc_new_sdu_def Let_def seg_bytes_def sdu_of_def)
  fix t assume "t \<in> set l"
  then have "seg_sdu t < hp_next h"
    by (intro store_inv_alloc_less[OF assms(1)] store_inv_alloc[OF assms(1)])
  then show "seg_bytes h' t = seg_bytes h t"
    using assms(2) by (auto simp: nr_rlc_new_sdu_def Let_def seg_bytes_def sdu_of_def)
qed

text \<open>The two calls that take time samples leave the queues alone.\<close>

lemma sample_waited_time_common [simp]:
  "heap (sample_waited_time n s f) = heap f"
  "bstatus (sample_waited_time n s f) = bstatus f"
  "callbacks (sample_waited_time n s f) = callbacks f"
  by (simp_all add: sample_waited_time_def)

lemma stamp_arrival_common [simp]:
  "bstatus (stamp_arrival n s f) = bstatus f"
  "callbacks (stamp_arrival n s f) = callbacks f"
  "heap (stamp_arrival n s f) =
     (if avg_time_is_on f then update_sdu (\<lambda>t. t\<lparr>sdu_time_of_arrival := n\<rparr>) s (heap f) else heap f)"
  by (simp_all add: stamp_arrival_def)

text \<open>The buffer after the header \<open>bits\<close> and the payload.\<close>

definition pdu_in_buffer :: "bool list \<Rightarrow> byte list \<Rightarrow> byte list \<Rightarrow> byte list" where
  "pdu_in_buffer bits data buf =
     bytes_of_bits bits @ data @ drop (length bits div 8 + length data) buf"

lemma put_payload:
  assumes "length bits mod 8 = 0" "length bits div 8 + length data \<le> length buf"
  shows "c_memcpy (enc_buffer (enc_at buf bits)) (length bits div 8) data
         = Inr (pdu_in_buffer bits data buf)"
  using assms
  by (simp add: enc_buffer_enc_at_aligned splice_def pdu_in_buffer_def add.commute)

lemma length_pdu_in_buffer [simp]:
  "length bits div 8 + length data \<le> length buf \<Longrightarrow> length (pdu_in_buffer bits data buf) = length buf"
  by (simp add: pdu_in_buffer_def)

lemma take_pdu_in_buffer:
  "n = length bits div 8 + length data \<Longrightarrow>
   take n (pdu_in_buffer bits data buf) = bytes_of_bits bits @ data"
  by (simp add: pdu_in_buffer_def)

text \<open>Reading the field \<open>fld\<close> that follows the bits \<open>pre\<close>.\<close>

lemma get_bits_field:
  assumes "bits_of buf = pre @ fld @ post" "length pre = p" "length fld = n" "n \<le> 31" "p + n = q"
    "bits_val fld = v"
  shows "get_bits_R (dec_at buf p) n = Inr (v, dec_at buf q)"
proof -
  have "8 * length buf = length pre + length fld + length post"
    using arg_cong[OF assms(1), of length] by simp
  then show ?thesis using assms by (auto simp: get_bits_R_dec_at)
qed

lemma bits_val_1 [simp]: "bits_val [b] = of_bool b"
  using bits_val_snoc[of "[]" b] by simp

lemma bits_val_2: "bits_val [a, b] = 2 * of_bool a + of_bool b"
  using bits_val_snoc[of "[a]" b] by simp

lemma val_bits_1 [simp]: "val_bits (Suc 0) v = [odd v]"
  by (simp add: val_bits_Suc bit_0)

lemma odd_not_first [simp]: "odd (1 - of_bool b :: int) \<longleftrightarrow> \<not> b"
  by simp

text \<open>The two segmentation bits, read as one number.\<close>

lemma si_bits:
  "(bits_val [\<not> f, \<not> l] AND 2 = 0) = f"
  "(bits_val [\<not> f, \<not> l] AND 1 = 0) = l"
  by (cases f; cases l; simp add: bits_val_2)+

end
