(* ===== verification/Rlc_Queue.thy ===== *)
theory Rlc_Queue
  imports Rlc_Wire
begin

text \<open>
  The contract of the transmission side of the modes without retransmission: a queue of bytes. The
  upper layer appends SDUs, the MAC layer asks for PDUs of a given size, and the payloads of the
  PDUs are the accepted bytes in order. It is stated once as a locale, with the consequence for
  any sequence of calls.
\<close>

datatype queue_op =
    Put_sdu u64 "byte list" int
  | Get_pdu u64 "byte list"

text \<open>Running a sequence of calls, each with the clock value it reads; the result lists the PDUs generated.\<close>

fun run_queue ::
  "(u64 \<Rightarrow> 'e \<Rightarrow> byte list \<Rightarrow> int \<Rightarrow> 'e res) \<Rightarrow> (u64 \<Rightarrow> 'e \<Rightarrow> byte list \<Rightarrow> (int \<times> byte list \<times> 'e) res)
   \<Rightarrow> 'e \<Rightarrow> queue_op list \<Rightarrow> (byte list list \<times> 'e) res" where
  "run_queue put get e [] = Inr ([], e)"
| "run_queue put get e (Put_sdu now b i # ops) = rbind (put now e b i) (\<lambda>e'. run_queue put get e' ops)"
| "run_queue put get e (Get_pdu now buf # ops) =
     rbind (get now e buf) (\<lambda>(n, buf', e').
     rbind (run_queue put get e' ops) (\<lambda>(pdus, e'').
       Inr (if n = 0 then pdus else take (nat n) buf' # pdus, e'')))"

text \<open>A PDU carries a payload behind a header of at most five bytes.\<close>

definition carries :: "byte list \<Rightarrow> byte list \<Rightarrow> bool" where
  "carries pdu payload \<longleftrightarrow> (\<exists>header. length header \<le> 5 \<and> pdu = header @ payload)"

fun puts :: "queue_op list \<Rightarrow> byte list list" where
  "puts [] = []"
| "puts (Put_sdu now b i # ops) = b # puts ops"
| "puts (Get_pdu now buf # ops) = puts ops"

locale tx_queue =
  fixes inv :: "'e \<Rightarrow> bool"
    and queue :: "'e \<Rightarrow> byte list list"
    and put :: "u64 \<Rightarrow> 'e \<Rightarrow> byte list \<Rightarrow> int \<Rightarrow> 'e res"
    and get :: "u64 \<Rightarrow> 'e \<Rightarrow> byte list \<Rightarrow> (int \<times> byte list \<times> 'e) res"
    and usable :: "byte list \<Rightarrow> bool"
  assumes put_ok: "inv e \<Longrightarrow> b \<noteq> [] \<Longrightarrow> int (length b) \<le> NR_SDU_MAX \<Longrightarrow>
      \<exists>e'. put now e b i = Inr e' \<and> inv e' \<and> (queue e' = queue e @ [b] \<or> queue e' = queue e)"
    and get_ok: "inv e \<Longrightarrow> usable buf \<Longrightarrow>
      \<exists>n buf' e'. get now e buf = Inr (n, buf', e') \<and> inv e' \<and>
        (n = 0 \<and> queue e' = queue e
         \<or> n \<noteq> 0 \<and> (\<exists>payload. carries (take (nat n) buf') payload
                       \<and> concat (queue e) = payload @ concat (queue e')))"
begin

fun legal :: "queue_op \<Rightarrow> bool" where
  "legal (Put_sdu now b i) = (b \<noteq> [] \<and> int (length b) \<le> NR_SDU_MAX)"
| "legal (Get_pdu now buf) = usable buf"

lemma run_fifo:
  assumes "inv e" "\<forall>c \<in> set ops. legal c"
  shows "\<exists>pdus e' payloads accepted. run_queue put get e ops = Inr (pdus, e') \<and> inv e'
     \<and> list_all2 carries pdus payloads \<and> accepted \<in> set (subseqs (puts ops))
     \<and> concat (queue e) @ concat accepted = concat payloads @ concat (queue e')"
  using assms
proof (induction ops arbitrary: e)
  case Nil
  then show ?case by simp
next
  case (Cons c ops)
  show ?case
  proof (cases c)
    case (Put_sdu now b i)
    then obtain e1 where p: "put now e b i = Inr e1" "inv e1" "queue e1 = queue e @ [b] \<or> queue e1 = queue e"
      using put_ok[of e b now i] Cons.prems by auto
    obtain pdus e' payloads acc where r: "run_queue put get e1 ops = Inr (pdus, e')" "inv e'"
      "list_all2 carries pdus payloads" "acc \<in> set (subseqs (puts ops))"
      "concat (queue e1) @ concat acc = concat payloads @ concat (queue e')"
      using Cons.IH[OF p(2)] Cons.prems(2) by auto
    from p(3) show ?thesis
    proof
      assume "queue e1 = queue e @ [b]"
      then show ?thesis using r p Put_sdu
        by (intro exI[of _ pdus] exI[of _ e'] exI[of _ payloads] exI[of _ "b # acc"]) (auto simp: Let_def)
    next
      assume "queue e1 = queue e"
      then show ?thesis using r p Put_sdu
        by (intro exI[of _ pdus] exI[of _ e'] exI[of _ payloads] exI[of _ acc]) (auto simp: Let_def)
    qed
  next
    case (Get_pdu now buf)
    then obtain n buf' e1 where g: "get now e buf = Inr (n, buf', e1)" "inv e1"
      "n = 0 \<and> queue e1 = queue e
       \<or> n \<noteq> 0 \<and> (\<exists>payload. carries (take (nat n) buf') payload
                     \<and> concat (queue e) = payload @ concat (queue e1))"
      using get_ok[of e buf now] Cons.prems by auto
    obtain pdus e' payloads acc where r: "run_queue put get e1 ops = Inr (pdus, e')" "inv e'"
      "list_all2 carries pdus payloads" "acc \<in> set (subseqs (puts ops))"
      "concat (queue e1) @ concat acc = concat payloads @ concat (queue e')"
      using Cons.IH[OF g(2)] Cons.prems(2) by auto
    from g(3) show ?thesis
    proof
      assume "n = 0 \<and> queue e1 = queue e"
      then show ?thesis using r g(1) Get_pdu
        by (intro exI[of _ pdus] exI[of _ e'] exI[of _ payloads] exI[of _ acc]) auto
    next
      assume "n \<noteq> 0 \<and> (\<exists>payload. carries (take (nat n) buf') payload
                     \<and> concat (queue e) = payload @ concat (queue e1))"
      then obtain pl where "n \<noteq> 0" "carries (take (nat n) buf') pl"
        "concat (queue e) = pl @ concat (queue e1)" by auto
      then show ?thesis using r g(1) Get_pdu
        by (intro exI[of _ "take (nat n) buf' # pdus"] exI[of _ e'] exI[of _ "pl # payloads"] exI[of _ acc])
          auto
    qed
  qed
qed

end

end
