(* ===== verification/Rlc_Um_Tx.thy ===== *)
theory Rlc_Um_Tx
  imports Rlc_Entities Rlc_Queue
begin

text \<open>
  The transmission side of the UM entity: what the serializer writes and the receiver reads, and
  the invariant of the transmission queue with its accounting, through every operation.
\<close>

section \<open>PDU format\<close>

definition um_header_bits :: "nr_rlc_entity_um \<Rightarrow> nr_rlc_sdu_segment \<Rightarrow> bool list" where
  "um_header_bits e s =
     [\<not> seg_is_first s, \<not> seg_is_last s]
     @ (if seg_is_first s \<and> seg_is_last s then val_bits 6 0
        else (if um_sn_field_length e = 12 then val_bits 2 0 else [])
             @ val_bits (um_sn_field_length e) (sdu_sn (sdu_of (heap e) s)))
     @ (if seg_is_first s then [] else val_bits 16 (seg_so s))"

lemma length_um_header_bits:
  "um_config_ok e \<Longrightarrow> length (um_header_bits e s) = 8 * nat (um_compute_pdu_header_size e s)"
  by (auto simp: um_header_bits_def um_compute_pdu_header_size_def elim!: um_config_cases)

lemma um_header_size_bounds:
  "1 \<le> um_compute_pdu_header_size e s" "um_compute_pdu_header_size e s \<le> 4"
  by (simp_all add: um_compute_pdu_header_size_def)

lemma um_serialize_header_ok:
  assumes "um_config_ok e" "um_compute_pdu_header_size e s \<le> int (length buf)"
  shows "um_serialize_header e s buf = Inr (enc_at buf (um_header_bits e s))"
proof -
  have len: "length (um_header_bits e s) \<le> 8 * length buf"
    using length_um_header_bits[OF assms(1), of s] assms(2) by simp
  show ?thesis using assms(1)
    by (cases rule: um_config_cases; cases "seg_is_first s"; cases "seg_is_last s")
      (use len in \<open>simp_all add: um_serialize_header_def um_header_bits_def enc_simps\<close>)
qed

lemma um_serialize_sdu_ok:
  assumes "um_config_ok e" "seg_wf (heap e) s"
    and "um_compute_pdu_header_size e s + seg_size s \<le> int (length buf)"
  shows "um_serialize_sdu e s buf =
     Inr (um_compute_pdu_header_size e s + seg_size s,
          pdu_in_buffer (um_header_bits e s) (seg_bytes (heap e) s) buf)"
proof -
  note sz = seg_wf_size[OF assms(2)] and hd = um_header_size_bounds[of e s]
  have len: "length (um_header_bits e s) = 8 * nat (um_compute_pdu_header_size e s)"
    by (rule length_um_header_bits[OF assms(1)])
  have "um_serialize_header e s buf = Inr (enc_at buf (um_header_bits e s))"
    using assms(3) sz by (intro um_serialize_header_ok assms(1)) simp
  moreover have "c_memcpy (enc_buffer (enc_at buf (um_header_bits e s)))
      (length (um_header_bits e s) div 8) (seg_bytes (heap e) s)
    = Inr (pdu_in_buffer (um_header_bits e s) (seg_bytes (heap e) s) buf)"
  proof (rule put_payload)
    show "length (um_header_bits e s) div 8 + length (seg_bytes (heap e) s) \<le> length buf"
      using assms(3) len sz hd length_seg_bytes[OF assms(2)] by simp linarith
  qed (simp add: len)
  ultimately show ?thesis using hd len
    by (simp add: um_serialize_sdu_def seg_wf_read[OF assms(2)])
qed

text \<open>The reception of such a PDU.\<close>

definition um_counted :: "int \<Rightarrow> nr_rlc_entity_um \<Rightarrow> nr_rlc_entity_um" where
  "um_counted sz e =
     count_stat (\<lambda>s. s\<lparr>rxpdu_pkts := rxpdu_pkts s + 1, rxpdu_bytes := rxpdu_bytes s + word_of_int sz\<rparr>) e"

lemma um_parse_header:
  assumes "um_config_ok e" "um_sn_field_length r = um_sn_field_length e"
    and "\<not> (seg_is_first s \<and> seg_is_last s)"
    and "0 \<le> sdu_sn (sdu_of (heap e) s)" "sdu_sn (sdu_of (heap e) s) < um_sn_modulus e"
    and "0 \<le> seg_so s" "seg_so s < 2 ^ 16" "seg_is_first s \<longleftrightarrow> seg_so s = 0"
    and "bits_of pdu = um_header_bits e s @ rest"
    and "um_compute_pdu_header_size e s < int (length pdu)"
  shows "um_parse_seg_header r (seg_is_first s) (dec_at pdu 2) (int (length pdu)) =
     Inr \<lparr>uh_sn = sdu_sn (sdu_of (heap e) s), uh_so = seg_so s,
          uh_data_size = int (length pdu) - um_compute_pdu_header_size e s\<rparr>"
proof -
  let ?sn = "sdu_sn (sdu_of (heap e) s)"
  let ?len = "um_sn_field_length e"
  let ?si = "[\<not> seg_is_first s, \<not> seg_is_last s]"
  let ?so = "if seg_is_first s then [] else val_bits 16 (seg_so s)"
  have so: "bits_val (val_bits 16 (seg_so s)) = seg_so s"
    using assms(6,7) by (rule bits_val_val_bits_id)
  from assms(1) show ?thesis
  proof (cases rule: um_config_cases)
    case short
    then have sn: "bits_val (val_bits 6 ?sn) = ?sn" using assms(4,5) by (intro bits_val_val_bits_id) simp_all
    have bits: "bits_of pdu = ?si @ val_bits 6 ?sn @ ?so @ rest"
      using assms(3,9) short by (auto simp: um_header_bits_def)
    have r1: "get_bits_R (dec_at pdu 2) 6 = Inr (?sn, dec_at pdu 8)"
      by (rule get_bits_field[OF bits]) (simp_all add: sn)
    have r2: "get_bits_R (dec_at pdu 8) 16 = Inr (seg_so s, dec_at pdu 24)" if "\<not> seg_is_first s"
      by (rule get_bits_field[of pdu "?si @ val_bits 6 ?sn" "val_bits 16 (seg_so s)" rest])
        (simp_all add: so bits that)
    show ?thesis using short assms(2,8,10) r1 r2
      by (cases "seg_is_first s")
        (simp_all add: um_parse_seg_header_def um_compute_pdu_header_size_def Let_def)
  next
    case long
    then have sn: "bits_val (val_bits 12 ?sn) = ?sn" using assms(4,5) by (intro bits_val_val_bits_id) simp_all
    have bits: "bits_of pdu = ?si @ val_bits 2 0 @ val_bits 12 ?sn @ ?so @ rest"
      using assms(3,9) long by (auto simp: um_header_bits_def)
    have r0: "get_bits_R (dec_at pdu 2) 2 = Inr (bits_val (val_bits 2 0), dec_at pdu 4)"
      by (rule get_bits_field[OF bits]) simp_all
    have r1: "get_bits_R (dec_at pdu 4) 12 = Inr (?sn, dec_at pdu 16)"
      by (rule get_bits_field[of pdu "?si @ val_bits 2 0" "val_bits 12 ?sn" "?so @ rest"])
        (simp_all add: sn bits)
    have r2: "get_bits_R (dec_at pdu 16) 16 = Inr (seg_so s, dec_at pdu 32)" if "\<not> seg_is_first s"
      by (rule get_bits_field[of pdu "?si @ val_bits 2 0 @ val_bits 12 ?sn" "val_bits 16 (seg_so s)" rest])
        (simp_all add: so bits that)
    show ?thesis using long assms(2,3,8,10) r0 r1 r2
      by (cases "seg_is_first s"; cases "seg_is_last s")
        (simp_all add: um_parse_seg_header_def um_compute_pdu_header_size_def Let_def)
  qed
qed

section \<open>The queue\<close>

text \<open>
  The invariant of the transmission queue: its segments are in the store, the end pointer is on
  the last one, both size counters are exact, and only the head may be the rest of an SDU.
\<close>

definition um_pdu_bytes :: "nr_rlc_entity_um \<Rightarrow> nr_rlc_sdu_segment list \<Rightarrow> int" where
  "um_pdu_bytes e l = sum_list (map (\<lambda>s. um_compute_pdu_header_size e s + seg_size s) l)"

definition um_tx_inv :: "nr_rlc_entity_um \<Rightarrow> bool" where
  "um_tx_inv e \<longleftrightarrow>
     um_config_ok e \<and> store_inv (heap e) (um_tx_list e) \<and> um_tx_end e = list_end (um_tx_list e)
     \<and> bs_tx_size (bstatus e) = um_pdu_bytes e (um_tx_list e)
     \<and> um_tx_size e = sum_list (map seg_size (um_tx_list e))
     \<and> um_sn_ok e (um_tx_next e)
     \<and> (\<forall>s \<in> set (tl (um_tx_list e)). seg_is_first s \<and> seg_is_last s)"

text \<open>The abstract view: the bytes of the waiting segments, in order.\<close>

definition um_queue :: "nr_rlc_entity_um \<Rightarrow> byte list list" where
  "um_queue e = map (seg_bytes (heap e)) (um_tx_list e)"

lemma um_header_cong:
  "um_sn_field_length e' = um_sn_field_length e \<Longrightarrow>
   um_compute_pdu_header_size e' s = um_compute_pdu_header_size e s"
  by (simp add: um_compute_pdu_header_size_def)

lemma um_pdu_bytes_cong:
  "um_sn_field_length e' = um_sn_field_length e \<Longrightarrow> um_pdu_bytes e' l = um_pdu_bytes e l"
  using um_header_cong[of e' e] by (simp add: um_pdu_bytes_def)

lemma um_pdu_bytes_simps [simp]:
  "um_pdu_bytes e [] = 0"
  "um_pdu_bytes e (s # l) = um_compute_pdu_header_size e s + seg_size s + um_pdu_bytes e l"
  "um_pdu_bytes e (l @ l') = um_pdu_bytes e l + um_pdu_bytes e l'"
  by (simp_all add: um_pdu_bytes_def)

lemma sample_waited_time_um [simp]:
  "um_tx_list (sample_waited_time n s e) = um_tx_list e"
  "um_tx_end (sample_waited_time n s e) = um_tx_end e"
  "um_tx_size (sample_waited_time n s e) = um_tx_size e"
  "um_tx_next (sample_waited_time n s e) = um_tx_next e"
  "um_sn_modulus (sample_waited_time n s e) = um_sn_modulus e"
  "um_window_size (sample_waited_time n s e) = um_window_size e"
  "um_sn_field_length (sample_waited_time n s e) = um_sn_field_length e"
  by (simp_all add: sample_waited_time_def)

lemma um_send_segment_ok:
  assumes "um_config_ok e" "seg_wf (heap e) s" "um_sn_ok e (um_tx_next e)"
    and "um_compute_pdu_header_size e s + seg_size s \<le> int (length buf)"
  shows "\<exists>e'. um_send_segment now s e buf =
      Inr (um_compute_pdu_header_size e s + seg_size s,
           pdu_in_buffer (um_header_bits e s) (seg_bytes (heap e) s) buf, e')
    \<and> heap e' = snd (nr_rlc_free_sdu_segment s (heap e)) \<and> um_tx_list e' = um_tx_list e
    \<and> um_tx_end e' = um_tx_end e \<and> um_tx_size e' = um_tx_size e - seg_size s
    \<and> bstatus e' = bstatus e \<and> um_config_ok e' \<and> um_sn_ok e' (um_tx_next e')
    \<and> um_sn_field_length e' = um_sn_field_length e"
proof -
  define e1 where "e1 = (if \<not> seg_is_first s \<and> seg_is_last s
      then e\<lparr>um_tx_next := (um_tx_next e + 1) mod um_sn_modulus e\<rparr> else e)"
  have e1: "heap e1 = heap e" "um_tx_list e1 = um_tx_list e" "um_tx_end e1 = um_tx_end e"
    "um_tx_size e1 = um_tx_size e" "bstatus e1 = bstatus e"
    "um_sn_field_length e1 = um_sn_field_length e" "um_sn_modulus e1 = um_sn_modulus e"
    "um_window_size e1 = um_window_size e" "um_sn_ok e1 (um_tx_next e1)"
    using assms(1,3) by (auto simp: e1_def um_sn_ok_def elim!: um_config_cases)
  have cfg: "um_config_ok e1" using assms(1) e1 by (simp add: um_config_ok_def)
  have hd: "um_compute_pdu_header_size e1 s = um_compute_pdu_header_size e s"
    by (rule um_header_cong) (simp add: e1)
  have bits: "um_header_bits e1 s = um_header_bits e s" by (simp add: um_header_bits_def e1)
  have "um_serialize_sdu e1 s buf = Inr (um_compute_pdu_header_size e s + seg_size s,
      pdu_in_buffer (um_header_bits e s) (seg_bytes (heap e) s) buf)"
    using um_serialize_sdu_ok[OF cfg, of s buf] assms(2,4) by (simp add: e1 hd bits)
  then show ?thesis
    using cfg by (simp add: um_send_segment_def e1_def[symmetric] e1 um_config_ok_def um_sn_ok_def[symmetric])
      (use e1(9) e1(7) in \<open>simp add: um_sn_ok_def\<close>)
qed

lemma um_resegment_ok:
  assumes "um_compute_pdu_header_size e (s\<lparr>seg_is_last := False\<rparr>) + 1 \<le> sz"
    and n: "n = sz - um_compute_pdu_header_size e (s\<lparr>seg_is_last := False\<rparr>)"
  shows "um_resegment s e sz =
     (Some (first_part n s, rest_part n (hp_next (heap e)) s),
      count_stat (\<lambda>t. t\<lparr>txpdu_segmented := txpdu_segmented t + 1\<rparr>)
        (set_heap (split_heap s (heap e)) e))"
  using assms by (simp add: um_resegment_def Let_def first_part_def rest_part_def split_heap_def)

lemma um_header_first_part:
  "um_compute_pdu_header_size e (first_part n s) = um_compute_pdu_header_size e (s\<lparr>seg_is_last := False\<rparr>)"
  by (simp add: um_compute_pdu_header_size_def first_part_def)

lemma um_header_not_last:
  "um_compute_pdu_header_size e s \<le> um_compute_pdu_header_size e (s\<lparr>seg_is_last := False\<rparr>)"
  "um_compute_pdu_header_size e (s\<lparr>seg_is_last := False\<rparr>) \<le> um_compute_pdu_header_size e s + 1"
  "\<not> seg_is_first s \<Longrightarrow>
   um_compute_pdu_header_size e (s\<lparr>seg_is_last := False\<rparr>) = um_compute_pdu_header_size e s"
  by (auto simp: um_compute_pdu_header_size_def)

lemma seg_bytes_split:
  assumes "seg_wf h s" "0 < n" "n < seg_size s"
  shows "seg_bytes h s = seg_bytes h (first_part n s) @ seg_bytes h (rest_part n a s)"
proof -
  have "nat (seg_size s) = nat n + nat (seg_size s - n)" "nat (seg_so s + n) = nat n + nat (seg_so s)"
    using assms by (simp_all add: seg_wf_def nat_add_distrib)
  then show ?thesis by (simp add: seg_bytes_def sdu_of_def take_add)
qed

text \<open>The result of sending the segment \<open>s\<close>, whatever the queue was before.\<close>

definition um_pdu_sent ::
  "nr_rlc_entity_um \<Rightarrow> byte list \<Rightarrow> int \<Rightarrow> byte list \<Rightarrow> nr_rlc_entity_um \<Rightarrow> bool" where
  "um_pdu_sent e buf n buf' e' \<longleftrightarrow>
     0 < n \<and> n \<le> int (length buf) \<and> length buf' = length buf
     \<and> (\<exists>header payload. payload \<noteq> [] \<and> length header \<le> 4 \<and> take (nat n) buf' = header @ payload
          \<and> concat (um_queue e) = payload @ concat (um_queue e'))"

lemma um_pdu_sentI:
  assumes "um_config_ok e" "seg_wf h s" "heap e = h"
    and "hs = um_compute_pdu_header_size e s" "hs + seg_size s \<le> int (length buf)"
    and "concat (um_queue e0) = seg_bytes h s @ concat (um_queue e')"
  shows "um_pdu_sent e0 buf (hs + seg_size s)
           (pdu_in_buffer (um_header_bits e s) (seg_bytes h s) buf) e'"
proof -
  note sz = seg_wf_size[OF assms(2)] and hd = um_header_size_bounds[of e s]
  have lb: "length (um_header_bits e s) div 8 = nat hs"
    using length_um_header_bits[OF assms(1), of s] assms(4) by simp
  have ls: "length (seg_bytes h s) = nat (seg_size s)" by (rule length_seg_bytes[OF assms(2)])
  have "length (um_header_bits e s) div 8 + length (seg_bytes h s) \<le> length buf"
    unfolding lb ls using assms(4,5) sz hd by linarith
  moreover have "nat (hs + seg_size s) = length (um_header_bits e s) div 8 + length (seg_bytes h s)"
    unfolding lb ls using assms(4) sz hd by linarith
  moreover have "length (bytes_of_bits (um_header_bits e s)) \<le> 4" using lb hd assms(4) by simp
  moreover have "seg_bytes h s \<noteq> []" using ls sz by auto
  ultimately show ?thesis
    unfolding um_pdu_sent_def using assms(4-6) sz hd take_pdu_in_buffer by fastforce
qed

lemma um_take_tx_head_fields:
  assumes "um_tx_inv e" "um_tx_list e = s # rest" "e1 = um_take_tx_head s rest e"
  shows "um_config_ok e1" "um_sn_ok e1 (um_tx_next e1)" "um_tx_list e1 = rest"
    "um_tx_end e1 = list_end rest" "um_tx_size e1 = um_tx_size e"
    "bs_tx_size (bstatus e1) = um_pdu_bytes e rest"
    "um_sn_field_length e1 = um_sn_field_length e"
    "store_inv (heap e1) (s # rest)" "seg_bytes (heap e1) = seg_bytes (heap e)"
proof -
  show "store_inv (heap e1) (s # rest)"
    using assms store_inv_update[of "heap e" "s # rest" "\<lambda>t. t\<lparr>sdu_sn := um_tx_next e\<rparr>" s]
    by (simp add: um_take_tx_head_def um_tx_inv_def)
  show "seg_bytes (heap e1) = seg_bytes (heap e)"
    using assms(3) by (intro seg_bytes_cong) (simp add: um_take_tx_head_def)
qed (use assms in \<open>simp_all add: um_take_tx_head_def um_tx_inv_def um_config_ok_def um_sn_ok_def list_end_Cons\<close>)

lemma um_send_whole:
  assumes inv: "um_tx_inv e" and l: "um_tx_list e = s # rest"
    and fit: "um_compute_pdu_header_size e s + seg_size s \<le> int (length buf)"
  shows "\<exists>n buf' e'. um_send_segment now s (um_take_tx_head s rest e) buf = Inr (n, buf', e')
           \<and> um_tx_inv e' \<and> um_pdu_sent e buf n buf' e'"
proof -
  define e1 where "e1 = um_take_tx_head s rest e"
  note f = um_take_tx_head_fields[OF inv l e1_def]
  have hd: "um_compute_pdu_header_size e1 s = um_compute_pdu_header_size e s"
    by (rule um_header_cong) (simp add: f)
  have wf: "seg_wf (heap e1) s" using f(8) by (simp add: store_inv_def)
  obtain e' where send: "um_send_segment now s e1 buf =
      Inr (um_compute_pdu_header_size e s + seg_size s,
           pdu_in_buffer (um_header_bits e1 s) (seg_bytes (heap e1) s) buf, e')"
    and e': "heap e' = snd (nr_rlc_free_sdu_segment s (heap e1))" "um_tx_list e' = rest"
      "um_tx_end e' = list_end rest" "um_tx_size e' = um_tx_size e - seg_size s"
      "bstatus e' = bstatus e1" "um_config_ok e'" "um_sn_ok e' (um_tx_next e')"
      "um_sn_field_length e' = um_sn_field_length e"
    using um_send_segment_ok[OF f(1) wf f(2), of buf now] fit by (auto simp: hd f)
  have "store_inv (heap e') rest" using store_inv_free(1)[of "heap e1" "[]" s rest] f(8) e'(1) by simp
  moreover have "bs_tx_size (bstatus e') = um_pdu_bytes e' rest"
    using f(6) e'(5) by (simp add: um_pdu_bytes_cong[OF e'(8)])
  moreover have "\<forall>t \<in> set (tl rest). seg_is_first t \<and> seg_is_last t"
    using inv l by (cases rest) (auto simp: um_tx_inv_def)
  ultimately have "um_tx_inv e'" using e' inv l by (simp add: um_tx_inv_def)
  moreover have "seg_bytes (heap e') = seg_bytes (heap e)"
    by (rule trans[OF seg_bytes_cong f(9)]) (simp add: e'(1) free_segment_same)
  then have "concat (um_queue e) = seg_bytes (heap e1) s @ concat (um_queue e')"
    using l e'(2) f(9) by (simp add: um_queue_def)
  then have "um_pdu_sent e buf (um_compute_pdu_header_size e s + seg_size s)
      (pdu_in_buffer (um_header_bits e1 s) (seg_bytes (heap e1) s) buf) e'"
    using um_pdu_sentI[OF f(1) wf refl, of "um_compute_pdu_header_size e s" buf e e'] fit by (simp add: hd)
  ultimately show ?thesis using send by (auto simp: e1_def)
qed

lemma um_send_part:
  assumes inv: "um_tx_inv e" and l: "um_tx_list e = s # rest"
    and big: "int (length buf) < um_compute_pdu_header_size e s + seg_size s"
    and room: "um_compute_pdu_header_size e (s\<lparr>seg_is_last := False\<rparr>) + 1 \<le> int (length buf)"
    and e1_def: "e1 = um_take_tx_head s rest e"
    and r: "um_resegment s e1 (int (length buf)) = (Some (s', nxt), e2)"
    and e3_def: "e3 = add_tx_size (um_compute_pdu_header_size e2 nxt + seg_size nxt)
           (count_stat (\<lambda>t. t\<lparr>txpdu_segmented := txpdu_segmented t + 1\<rparr>)
             (e2\<lparr>um_tx_list := nxt # um_tx_list e2,
                 um_tx_end := (if um_tx_end e2 = None then Some (seg_addr nxt) else um_tx_end e2)\<rparr>))"
  shows "\<exists>n buf' e'. um_send_segment now s' e3 buf = Inr (n, buf', e')
           \<and> um_tx_inv e' \<and> um_pdu_sent e buf n buf' e'"
proof -
  note f = um_take_tx_head_fields[OF inv l e1_def]
  define hd where "hd = um_compute_pdu_header_size e (s\<lparr>seg_is_last := False\<rparr>)"
  define n where "n = int (length buf) - hd"
  have hd1: "um_compute_pdu_header_size e1 t = um_compute_pdu_header_size e t" for t
    by (rule um_header_cong) (simp add: f)
  have n: "0 < n" "n < seg_size s" using big room um_header_not_last(1)[of e s] by (simp_all add: n_def hd_def)
  have re: "um_resegment s e1 (int (length buf)) =
      (Some (first_part n s, rest_part n (hp_next (heap e1)) s),
       count_stat (\<lambda>t. t\<lparr>txpdu_segmented := txpdu_segmented t + 1\<rparr>) (set_heap (split_heap s (heap e1)) e1))"
    by (rule um_resegment_ok) (use room in \<open>simp_all add: hd1 n_def hd_def\<close>)
  then have s': "s' = first_part n s" "nxt = rest_part n (hp_next (heap e1)) s"
    and e2: "e2 = count_stat (\<lambda>t. t\<lparr>txpdu_segmented := txpdu_segmented t + 1\<rparr>)
          (set_heap (split_heap s (heap e1)) e1)"
    using r by simp_all
  have hd2: "um_compute_pdu_header_size e2 nxt = um_compute_pdu_header_size e nxt"
    by (rule um_header_cong) (simp add: e2 f)
  have e3: "heap e3 = split_heap s (heap e1)" "um_tx_list e3 = nxt # rest"
    "um_tx_end e3 = list_end (nxt # rest)" "um_tx_size e3 = um_tx_size e"
    "bs_tx_size (bstatus e3) = um_pdu_bytes e (nxt # rest)"
    "um_sn_field_length e3 = um_sn_field_length e" "um_config_ok e3" "um_sn_ok e3 (um_tx_next e3)"
    using f(1-7) by (simp_all add: e3_def hd2) (simp_all add: e2 list_end_def um_config_ok_def um_sn_ok_def)
  have st: "store_inv (heap e3) (s' # nxt # rest)"
    using store_inv_split(1)[OF f(8) n] by (simp add: e3 s')
  then have wf: "seg_wf (heap e3) s'" by (simp add: store_inv_def)
  have hd3: "um_compute_pdu_header_size e3 s' = hd"
    using um_header_cong[OF e3(6), of s'] by (simp add: s' um_header_first_part hd_def)
  obtain e' where send: "um_send_segment now s' e3 buf =
      Inr (hd + n, pdu_in_buffer (um_header_bits e3 s') (seg_bytes (heap e3) s') buf, e')"
    and e': "heap e' = snd (nr_rlc_free_sdu_segment s' (heap e3))" "um_tx_list e' = nxt # rest"
      "um_tx_end e' = list_end (nxt # rest)" "um_tx_size e' = um_tx_size e - n"
      "bstatus e' = bstatus e3" "um_config_ok e'" "um_sn_ok e' (um_tx_next e')"
      "um_sn_field_length e' = um_sn_field_length e"
    using um_send_segment_ok[OF e3(7) wf e3(8), of buf now] by (auto simp: hd3 e3) (auto simp: s' n_def)
  have "store_inv (heap e') (nxt # rest)"
    using store_inv_free(1)[of "heap e3" "[]" s' "nxt # rest"] st e'(1) by simp
  moreover have "bs_tx_size (bstatus e') = um_pdu_bytes e' (nxt # rest)"
    using e3(5) e'(5) by (simp only: um_pdu_bytes_cong[OF e'(8)])
  moreover have "um_tx_size e' = sum_list (map seg_size (nxt # rest))"
    using inv l e'(4) by (simp add: um_tx_inv_def s')
  moreover have "\<forall>t \<in> set (tl (nxt # rest)). seg_is_first t \<and> seg_is_last t"
    using inv l by (auto simp: um_tx_inv_def)
  ultimately have "um_tx_inv e'" using e' by (simp add: um_tx_inv_def)
  moreover have sb: "seg_bytes (heap e') = seg_bytes (heap e)" "seg_bytes (heap e3) = seg_bytes (heap e)"
  proof -
    show *: "seg_bytes (heap e3) = seg_bytes (heap e)"
      by (rule trans[OF seg_bytes_cong f(9)]) (simp add: e3)
    show "seg_bytes (heap e') = seg_bytes (heap e)"
      by (rule trans[OF seg_bytes_cong *]) (simp add: e'(1) free_segment_same)
  qed
  moreover have "seg_wf (heap e) s" using inv l by (simp add: um_tx_inv_def store_inv_def)
  then have "concat (um_queue e) = seg_bytes (heap e3) s' @ concat (um_queue e')"
    using l e'(2) sb n by (simp add: um_queue_def s' seg_bytes_split[where n = n and a = "hp_next (heap e1)"])
  then have "um_pdu_sent e buf (hd + seg_size s')
      (pdu_in_buffer (um_header_bits e3 s') (seg_bytes (heap e3) s') buf) e'"
    using um_pdu_sentI[OF e3(7) wf refl, of hd buf e e'] hd3 by (simp add: s' n_def)
  ultimately show ?thesis using send by (auto simp: s')
qed

section \<open>Properties\<close>

text \<open>A fresh entity and one with a waiting SDU, for the concrete instances.\<close>

lemma new_um_inv: "new_nr_rlc_entity_um rx tx t len = Inr e \<Longrightarrow> um_tx_inv e \<and> um_tx_maxsize e = tx"
  by (auto simp: new_nr_rlc_entity_um_def rbind_eq_Inr um_tx_inv_def um_config_ok_def um_sn_ok_def
      store_inv_empty zero_bstatus_def push_bit_eq_mult rcheck_def split: if_splits)

lemma new_um_ok: "\<exists>e. new_nr_rlc_entity_um 1000 1000 35 12 = Inr e"
  by (simp add: new_nr_rlc_entity_um_def time_average_new_def)

definition um_empty :: nr_rlc_entity_um where
  "um_empty = projr (new_nr_rlc_entity_um 1000 1000 35 12)"

definition um_loaded :: nr_rlc_entity_um where
  "um_loaded = projr (nr_rlc_entity_um_recv_sdu 0 um_empty [1, 2, 3] 7)"

lemma um_empty_simps:
  "um_tx_inv um_empty" "um_tx_list um_empty = []" "heap um_empty = empty_heap" "um_tx_size um_empty = 0"
  "um_tx_maxsize um_empty = 1000" "um_sn_field_length um_empty = 12" "avg_time_is_on um_empty = False"
  "um_sdu_rejected um_empty = 0" "um_tx_end um_empty = None" "um_tx_next um_empty = 0" "um_sn_modulus um_empty = 4096"
  using new_um_ok new_um_inv
  by (auto simp: um_empty_def) (auto simp: new_nr_rlc_entity_um_def time_average_new_def push_bit_eq_mult)

lemma um_loaded_simps:
  "um_tx_list um_loaded = [\<lparr>seg_addr = 0, seg_sdu = 0, seg_size = 3, seg_so = 0,
     seg_is_first = True, seg_is_last = True\<rparr>]"
  "heap um_loaded = snd (nr_rlc_new_sdu empty_heap [1, 2, 3] 7)"
  "um_tx_inv um_loaded" "um_sn_field_length um_loaded = 12" "um_tx_next um_loaded = 0"
  "um_tx_size um_loaded = 3" "um_tx_maxsize um_loaded = 1000" "um_queue um_loaded = [[1, 2, 3]]"
proof -
  let ?seg = "\<lparr>seg_addr = 0, seg_sdu = 0, seg_size = 3, seg_so = 0, seg_is_first = True, seg_is_last = True\<rparr>
    :: nr_rlc_sdu_segment"
  obtain h where new: "nr_rlc_new_sdu empty_heap [1, 2, 3] 7 = (?seg, h)"
    by (simp add: nr_rlc_new_sdu_def empty_heap_def Let_def)
  have ld: "um_loaded = add_tx_size 4 ((set_heap h (um_sdu_arrives 3 um_empty))
      \<lparr>um_tx_size := 3, um_tx_list := [?seg], um_tx_end := Some 0\<rparr>)"
    using new by (simp add: um_loaded_def nr_rlc_entity_um_recv_sdu_def Let_def um_empty_simps NR_SDU_MAX_def
        um_sdu_arrives_def um_log_rejected_def nr_rlc_sdu_segment_list_append_def stamp_arrival_def
        um_compute_pdu_header_size_def)
  show ld': "um_tx_list um_loaded = [?seg]" "heap um_loaded = snd (nr_rlc_new_sdu empty_heap [1, 2, 3] 7)"
    "um_sn_field_length um_loaded = 12" "um_tx_next um_loaded = 0"
    "um_tx_size um_loaded = 3" "um_tx_maxsize um_loaded = 1000"
    by (simp_all add: ld new um_sdu_arrives_def um_log_rejected_def um_empty_simps)
  show "um_queue um_loaded = [[1, 2, 3]]"
    by (simp add: um_queue_def ld' seg_bytes_def nr_rlc_new_sdu_def empty_heap_def Let_def sdu_of_def)
  have "store_inv h [?seg]" using store_inv_new(1)[OF store_inv_empty new] by (simp add: NR_SDU_MAX_def)
  then show "um_tx_inv um_loaded"
    using um_empty_simps(1) by (simp add: ld um_tx_inv_def um_config_ok_def um_sn_ok_def
        um_sdu_arrives_def um_log_rejected_def um_empty_simps um_pdu_bytes_def um_compute_pdu_header_size_def)
qed

lemma stamp_arrival_um [simp]:
  "um_tx_list (stamp_arrival n s e) = um_tx_list e"
  "um_tx_end (stamp_arrival n s e) = um_tx_end e"
  "um_tx_size (stamp_arrival n s e) = um_tx_size e"
  "um_tx_next (stamp_arrival n s e) = um_tx_next e"
  "um_sn_modulus (stamp_arrival n s e) = um_sn_modulus e"
  "um_window_size (stamp_arrival n s e) = um_window_size e"
  "um_sn_field_length (stamp_arrival n s e) = um_sn_field_length e"
  by (simp_all add: stamp_arrival_def)

lemma um_recv_sdu_step:
  assumes "um_tx_inv e" "buf \<noteq> []" "int (length buf) \<le> NR_SDU_MAX"
  shows "\<exists>e'. nr_rlc_entity_um_recv_sdu now e buf i = Inr e' \<and> um_tx_inv e'
     \<and> um_queue e' = (if um_tx_size e + int (length buf) \<le> um_tx_maxsize e
                      then um_queue e @ [buf] else um_queue e)"
proof -
  define e0 where "e0 = um_sdu_arrives (int (length buf)) e"
  have e0: "heap e0 = heap e" "um_tx_list e0 = um_tx_list e" "um_tx_end e0 = um_tx_end e"
    "um_tx_size e0 = um_tx_size e" "bstatus e0 = bstatus e" "um_tx_maxsize e0 = um_tx_maxsize e"
    "um_sn_field_length e0 = um_sn_field_length e" "um_sn_modulus e0 = um_sn_modulus e"
    "um_window_size e0 = um_window_size e" "um_tx_next e0 = um_tx_next e"
    by (simp_all add: e0_def um_sdu_arrives_def um_log_rejected_def)
  have inv0: "um_tx_inv e0"
    using assms(1) e0 um_pdu_bytes_cong[OF e0(7)] by (simp add: um_tx_inv_def um_config_ok_def um_sn_ok_def)
  show ?thesis
  proof (cases "um_tx_size e + int (length buf) \<le> um_tx_maxsize e")
    case False
    then show ?thesis
      using assms(3) inv0 e0
      by (simp add: nr_rlc_entity_um_recv_sdu_def e0_def[symmetric] Let_def um_tx_inv_def um_config_ok_def
          um_sn_ok_def um_queue_def um_pdu_bytes_def um_compute_pdu_header_size_def)
  next
    case True
    obtain seg h where new: "nr_rlc_new_sdu (heap e) buf i = (seg, h)" by fastforce
    have seg: "seg_size seg = int (length buf)" "seg_is_first seg" "seg_is_last seg"
      using new by (auto simp: nr_rlc_new_sdu_def Let_def)
    have st: "store_inv (heap e) (um_tx_list e)" using assms(1) by (simp add: um_tx_inv_def)
    note sn = store_inv_new[OF st new assms(2,3)]
    have app: "nr_rlc_sdu_segment_list_append (um_tx_list e) (um_tx_end e) seg
        = Inr (um_tx_list e @ [seg], Some (seg_addr seg))"
      using segq.append_ok[of "um_tx_list e" seg] store_inv_addr[OF st] assms(1)
      by (simp add: um_tx_inv_def)
    let ?e' = "stamp_arrival now seg (add_tx_size (um_compute_pdu_header_size e0 seg + seg_size seg)
        ((set_heap h (e0\<lparr>um_tx_size := um_tx_size e0 + int (length buf)\<rparr>))
           \<lparr>um_tx_list := um_tx_list e @ [seg], um_tx_end := Some (seg_addr seg)\<rparr>))"
    have r: "nr_rlc_entity_um_recv_sdu now e buf i = Inr ?e'"
      using assms(3) True app new e0
      by (simp add: nr_rlc_entity_um_recv_sdu_def e0_def[symmetric] Let_def um_compute_pdu_header_size_def)
    have "store_inv (heap ?e') (um_tx_list e @ [seg])"
      using sn(1) by (simp add: store_inv_update)
    moreover have "um_pdu_bytes ?e' l = um_pdu_bytes e l" for l
      by (rule um_pdu_bytes_cong) (simp add: e0)
    moreover have "um_compute_pdu_header_size ?e' seg = um_compute_pdu_header_size e0 seg"
      by (rule um_header_cong) (simp add: e0)
    moreover have "um_compute_pdu_header_size e0 seg = um_compute_pdu_header_size e seg"
      by (rule um_header_cong) (simp add: e0)
    moreover have "\<forall>t \<in> set (tl (um_tx_list e @ [seg])). seg_is_first t \<and> seg_is_last t"
      using assms(1) seg by (cases "um_tx_list e") (auto simp: um_tx_inv_def)
    ultimately have "um_tx_inv ?e'"
      using assms(1) seg e0 by (simp add: um_tx_inv_def um_config_ok_def um_sn_ok_def del: stamp_arrival_common(3))
    moreover have "seg_bytes (heap ?e') = seg_bytes h"
      by (rule seg_bytes_cong) simp
    then have "um_queue ?e' = um_queue e @ [buf]"
      using seg_bytes_new[OF st new] by (simp add: um_queue_def)
    ultimately show ?thesis using r True by auto
  qed
qed

lemma um_generate_pdu_step:
  assumes "um_tx_inv e" "length buf \<noteq> 2"
  shows "\<exists>n buf' e'. nr_rlc_entity_um_generate_pdu now e buf = Inr (n, buf', e') \<and> um_tx_inv e'
     \<and> (if um_tx_list e = [] \<or> int (length buf) < um_compute_pdu_header_size e (hd (um_tx_list e)) + 1
        then n = 0 \<and> buf' = buf \<and> e' = e else um_pdu_sent e buf n buf' e')"
proof (cases "um_tx_list e")
  case Nil
  then show ?thesis using assms by (simp add: nr_rlc_entity_um_generate_pdu_def um_generate_tx_pdu_def)
next
  case (Cons s rest)
  show ?thesis
  proof (cases "int (length buf) < um_compute_pdu_header_size e s + 1")
    case True
    then show ?thesis using assms Cons
      by (simp add: nr_rlc_entity_um_generate_pdu_def um_generate_tx_pdu_def Let_def)
  next
    case room: False
    show ?thesis
    proof (cases "um_compute_pdu_header_size e s + seg_size s \<le> int (length buf)")
      case True
      then show ?thesis using um_send_whole[OF assms(1) Cons True, of now] room Cons
        by (simp add: nr_rlc_entity_um_generate_pdu_def um_generate_tx_pdu_def Let_def)
    next
      case False
      let ?e1 = "um_take_tx_head s rest e"
      have "um_compute_pdu_header_size e (s\<lparr>seg_is_last := False\<rparr>) + 1 \<le> int (length buf)"
        using room assms(2) um_header_not_last(3)[of s e]
        by (cases "seg_is_first s") (auto simp: um_compute_pdu_header_size_def split: if_splits)
      moreover from this have "\<exists>s' nxt e2. um_resegment s ?e1 (int (length buf)) = (Some (s', nxt), e2)"
        using um_header_cong[of ?e1 e "s\<lparr>seg_is_last := False\<rparr>"]
        by (simp add: um_resegment_def Let_def um_take_tx_head_def)
      ultimately show ?thesis using um_send_part[OF assms(1) Cons _ _ refl _ refl, of buf] False room Cons
        by (fastforce simp: nr_rlc_entity_um_generate_pdu_def um_generate_tx_pdu_def Let_def)
    qed
  qed
qed

text \<open>The entity meets the contract of a transmission queue.\<close>

interpretation um_queue: tx_queue um_tx_inv um_queue nr_rlc_entity_um_recv_sdu
  nr_rlc_entity_um_generate_pdu "\<lambda>buf. length buf \<noteq> 2"
proof unfold_locales
  fix e :: nr_rlc_entity_um and b :: "byte list" and now i
  assume "um_tx_inv e" "b \<noteq> []" "int (length b) \<le> NR_SDU_MAX"
  from um_recv_sdu_step[OF this, of now i]
  show "\<exists>e'. nr_rlc_entity_um_recv_sdu now e b i = Inr e' \<and> um_tx_inv e'
      \<and> (um_queue e' = um_queue e @ [b] \<or> um_queue e' = um_queue e)" by (auto split: if_splits)
next
  fix e :: nr_rlc_entity_um and buf :: "byte list" and now
  assume "um_tx_inv e" "length buf \<noteq> 2"
  from um_generate_pdu_step[OF this, of now]
  show "\<exists>n buf' e'. nr_rlc_entity_um_generate_pdu now e buf = Inr (n, buf', e') \<and> um_tx_inv e'
      \<and> (n = 0 \<and> um_queue e' = um_queue e
         \<or> n \<noteq> 0 \<and> (\<exists>payload. carries (take (nat n) buf') payload
              \<and> concat (um_queue e) = payload @ concat (um_queue e')))"
    unfolding um_pdu_sent_def carries_def by (auto split: if_splits)
qed

text \<open>
  \<open>nr_rlc_entity_um_recv_sdu\<close> takes a SDU of a legal size exactly when it fits into the
  transmission buffer, appends its bytes to the queue in that case and leaves the queue alone
  otherwise, and keeps the invariant.
\<close>

theorem um_recv_sdu_appends:
  assumes "um_tx_inv e" "buf \<noteq> []" "int (length buf) \<le> NR_SDU_MAX"
  shows "\<exists>e'. nr_rlc_entity_um_recv_sdu now e buf i = Inr e' \<and> um_tx_inv e'
     \<and> um_queue e' = (if um_tx_size e + int (length buf) \<le> um_tx_maxsize e
                      then um_queue e @ [buf] else um_queue e)"
  by (rule um_recv_sdu_step[OF assms])

theorem um_recv_sdu_appends_witness:
  "\<exists>e'. nr_rlc_entity_um_recv_sdu 5 um_loaded [9, 9] 8 = Inr e' \<and> um_tx_inv e'
     \<and> um_queue e' = [[1, 2, 3], [9, 9]]"
  using um_recv_sdu_appends[of um_loaded "[9, 9]" 5 8] by (simp add: NR_SDU_MAX_def um_loaded_simps)

text \<open>
  \<open>nr_rlc_entity_um_generate_pdu\<close> implements a byte queue. In a state of the invariant, for
  every buffer that is not exactly the two bytes for which the segmentation of a whole SDU fails,
  it returns without error, never writes more than the buffer holds, and keeps the invariant (with
  exact \<open>tx_size\<close> and buffer status). It either does nothing, because the queue is empty or the
  buffer too small for a byte of data, or sends a header of at most four bytes and a non-empty
  prefix of the queued bytes, which is what leaves the queue.
\<close>

theorem um_generate_pdu_refines_queue:
  assumes "um_tx_inv e" "length buf \<noteq> 2"
  shows "\<exists>n buf' e'. nr_rlc_entity_um_generate_pdu now e buf = Inr (n, buf', e') \<and> um_tx_inv e'
     \<and> (if um_tx_list e = [] \<or> int (length buf) < um_compute_pdu_header_size e (hd (um_tx_list e)) + 1
        then n = 0 \<and> buf' = buf \<and> e' = e else um_pdu_sent e buf n buf' e')"
  by (rule um_generate_pdu_step[OF assms])

theorem um_generate_pdu_refines_queue_witness:
  "\<exists>n buf' e'. nr_rlc_entity_um_generate_pdu 5 um_loaded (replicate 4 0) = Inr (n, buf', e')
     \<and> um_tx_inv e' \<and> um_pdu_sent um_loaded (replicate 4 0) n buf' e'"
  using um_generate_pdu_refines_queue[of um_loaded "replicate 4 0" 5] um_loaded_simps
  by (simp add: um_compute_pdu_header_size_def)



lemma um_recv_pdu_si:
  assumes "get_bits_R (dec_at pdu 0) 2 = Inr (bits_val [\<not> f, \<not> l], d)"
  shows "nr_rlc_entity_um_recv_pdu r pdu =
     (let sz = int (length pdu); e = um_counted sz r
      in if f \<and> l then if sz < 2 then Inr (um_discard_pdu e sz) else Inr (um_deliver (drop 1 pdu) e)
         else case um_parse_seg_header e f d sz of
                Inl er \<Rightarrow> if er = Decode_error then Inr (um_discard_pdu e sz) else Inl er
              | Inr h \<Rightarrow> um_recv_segment e f l h pdu)"
  unfolding nr_rlc_entity_um_recv_pdu_def Let_def decoder_init_dec_at assms sum.case prod.case si_bits
    um_counted_def ..

text \<open>
  C27: what the UM serializer writes, the receiver with the same configuration reads: a whole SDU
  is delivered with its bytes, and a segment reaches the reception buffer with its sequence
  number, offset, flags and size, its payload being exactly its bytes of the SDU.
\<close>

theorem um_pdu_roundtrip:
  assumes "um_config_ok e" "um_sn_field_length r = um_sn_field_length e" "seg_wf (heap e) s"
    "um_sn_ok e (sdu_sn (sdu_of (heap e) s))"
    "um_compute_pdu_header_size e s + seg_size s \<le> int (length buf)"
  shows "\<exists>n buf'. um_serialize_sdu e s buf = Inr (n, buf') \<and> n \<le> int (length buf)
     \<and> nr_rlc_entity_um_recv_pdu r (take (nat n) buf') =
       (if seg_is_first s \<and> seg_is_last s
        then Inr (um_deliver (sdu_data (sdu_of (heap e) s)) (um_counted n r))
        else um_recv_segment (um_counted n r) (seg_is_first s) (seg_is_last s)
               \<lparr>uh_sn = sdu_sn (sdu_of (heap e) s), uh_so = seg_so s, uh_data_size = seg_size s\<rparr>
               (take (nat n) buf'))
     \<and> drop (nat (n - seg_size s)) (take (nat n) buf') = seg_bytes (heap e) s"
proof -
  define hs where "hs = um_compute_pdu_header_size e s"
  define bits where "bits = um_header_bits e s"
  define data where "data = seg_bytes (heap e) s"
  define pdu where "pdu = bytes_of_bits bits @ data"
  note sz = seg_wf_size[OF assms(3)] and hd = um_header_size_bounds[of e s, folded hs_def]
  have lb: "length bits = 8 * nat hs" using length_um_header_bits[OF assms(1)] by (simp add: bits_def hs_def)
  have ld: "length data = nat (seg_size s)" using length_seg_bytes[OF assms(3)] by (simp add: data_def)
  have n: "nat (hs + seg_size s) = length bits div 8 + length data" "nat (hs + seg_size s - seg_size s) = nat hs"
    using lb ld hd sz by (simp_all add: nat_add_distrib)
  have ser: "um_serialize_sdu e s buf = Inr (hs + seg_size s, pdu_in_buffer bits data buf)"
    using um_serialize_sdu_ok[OF assms(1,3,5)] by (simp add: hs_def bits_def data_def)
  have tk: "take (nat (hs + seg_size s)) (pdu_in_buffer bits data buf) = pdu"
    using take_pdu_in_buffer[OF n(1)] by (simp add: pdu_def)
  have lp: "length pdu = nat hs + nat (seg_size s)" "int (length pdu) = hs + seg_size s"
    using lb ld hd sz by (simp_all add: pdu_def)
  have bp: "bits_of pdu = bits @ bits_of data" using lb by (simp add: pdu_def bits_of_bytes_of_bits)
  have dp: "drop (nat hs) pdu = data" using lb by (simp add: pdu_def)
  have si: "get_bits_R (dec_at pdu 0) 2 = Inr (bits_val [\<not> seg_is_first s, \<not> seg_is_last s], dec_at pdu 2)"
    by (rule get_bits_field[where pre = "[]"]) (simp_all add: bp bits_def um_header_bits_def)
  have "nr_rlc_entity_um_recv_pdu r pdu =
       (if seg_is_first s \<and> seg_is_last s
        then Inr (um_deliver (sdu_data (sdu_of (heap e) s)) (um_counted (hs + seg_size s) r))
        else um_recv_segment (um_counted (hs + seg_size s) r) (seg_is_first s) (seg_is_last s)
               \<lparr>uh_sn = sdu_sn (sdu_of (heap e) s), uh_so = seg_so s, uh_data_size = seg_size s\<rparr> pdu)"
  proof (cases "seg_is_first s \<and> seg_is_last s")
    case True
    then have "hs = 1" "data = sdu_data (sdu_of (heap e) s)"
      using assms(3) by (auto simp: hs_def um_compute_pdu_header_size_def data_def seg_bytes_def seg_wf_def)
    then show ?thesis using True dp lp sz by (simp add: um_recv_pdu_si[OF si] Let_def)
  next
    case False
    have "um_parse_seg_header (um_counted (hs + seg_size s) r) (seg_is_first s) (dec_at pdu 2) (int (length pdu))
        = Inr \<lparr>uh_sn = sdu_sn (sdu_of (heap e) s), uh_so = seg_so s, uh_data_size = int (length pdu) - hs\<rparr>"
      unfolding hs_def
      by (rule um_parse_header[OF assms(1)])
        (use assms False seg_wf_so[OF assms(3)] bp lp sz hd
         in \<open>simp_all add: um_counted_def um_sn_ok_def seg_wf_def bits_def hs_def\<close>)
    then show ?thesis using False lp by (auto simp: um_recv_pdu_si[OF si] Let_def)
  qed
  then show ?thesis
    using ser tk dp n(2) assms(5) by (auto simp: data_def hs_def)
qed

theorem um_pdu_roundtrip_witness:
  "\<exists>n buf'. um_serialize_sdu um_loaded
       \<lparr>seg_addr = 0, seg_sdu = 0, seg_size = 3, seg_so = 0, seg_is_first = True, seg_is_last = True\<rparr>
       (replicate 6 0) = Inr (n, buf')
     \<and> nr_rlc_entity_um_recv_pdu um_empty (take (nat n) buf') = Inr (um_deliver [1, 2, 3] (um_counted n um_empty))"
proof -
  let ?s = "\<lparr>seg_addr = 0, seg_sdu = 0, seg_size = 3, seg_so = 0, seg_is_first = True, seg_is_last = True\<rparr>
    :: nr_rlc_sdu_segment"
  let ?u = "update_sdu (\<lambda>t. t\<lparr>sdu_sn := 0\<rparr>) ?s (heap um_loaded)"
  have inv: "um_config_ok um_loaded" "seg_wf (heap um_loaded) ?s"
    using um_loaded_simps(1,3) by (auto simp: um_tx_inv_def store_inv_def)
  define e where "e = um_loaded\<lparr>heap := ?u\<rparr>"
  have e: "um_config_ok e" "seg_wf (heap e) ?s" "um_sn_ok e (sdu_sn (sdu_of (heap e) ?s))"
    "sdu_data (sdu_of (heap e) ?s) = [1, 2, 3]"
    using inv um_loaded_simps(2,4) by (auto simp: e_def um_config_ok_def seg_wf_def sdu_of_def um_sn_ok_def
        nr_rlc_new_sdu_def empty_heap_def Let_def)
  have same: "um_serialize_sdu um_loaded ?s b = um_serialize_sdu e ?s b" for b
    using um_loaded_simps(2)
    by (simp add: um_serialize_sdu_def um_serialize_header_def e_def sdu_of_def nr_rlc_new_sdu_def
        empty_heap_def Let_def)
  show ?thesis
    using um_pdu_roundtrip[OF e(1) _ e(2,3), of um_empty "replicate 6 0"] e(4)
    by (auto simp: same um_empty_simps um_loaded_simps e_def um_compute_pdu_header_size_def)
qed

text \<open>
  C40: the excluded case. With 12 bit sequence numbers, a buffer of two bytes and a whole SDU of
  at least two bytes at the head of the queue, \<open>generate_pdu\<close> returns 0, as if it had done
  nothing, but the SDU has left the queue unsent, its bytes stay counted in \<open>tx_size\<close>, and
  its memory is never freed.
\<close>

theorem um_two_byte_buffer_drops_sdu:
  assumes "um_tx_inv e" "um_sn_field_length e = 12" "um_tx_list e = s # rest"
    "seg_is_first s" "seg_is_last s" "2 \<le> seg_size s" "length buf = 2"
  shows "\<exists>e'. nr_rlc_entity_um_generate_pdu now e buf = Inr (0, buf, e')
     \<and> um_queue e' = tl (um_queue e) \<and> um_tx_size e' = um_tx_size e
     \<and> hp_alloc (heap e') (seg_sdu s) \<and> (\<forall>t \<in> set (um_tx_list e'). seg_sdu t \<noteq> seg_sdu s)"
proof -
  define e1 where "e1 = um_take_tx_head s rest e"
  note f = um_take_tx_head_fields[OF assms(1,3) e1_def]
  define e2 where "e2 = set_heap (update_sdu (\<lambda>t. t\<lparr>sdu_ref_count := sdu_ref_count t + 1\<rparr>) s (heap e1)) e1"
  have hdr: "um_compute_pdu_header_size e s = 1"
    "um_compute_pdu_header_size e1 (s\<lparr>seg_is_last := False\<rparr>) = 2"
    using assms(2,4,5) f(7) by (simp_all add: um_compute_pdu_header_size_def)
  have "um_resegment s e1 2 = (None, e2)" by (simp add: um_resegment_def Let_def hdr e2_def)
  then have gen: "nr_rlc_entity_um_generate_pdu now e buf = Inr (0, buf, e2)"
    using assms(3,6,7) by (simp add: nr_rlc_entity_um_generate_pdu_def um_generate_tx_pdu_def Let_def hdr
        e1_def[symmetric])
  have "seg_bytes (heap e2) = seg_bytes (heap e)"
    by (rule trans[OF seg_bytes_cong f(9)]) (simp add: e2_def)
  then have "um_queue e2 = tl (um_queue e)" using assms(3) f(3) by (simp add: um_queue_def e2_def)
  moreover have "hp_alloc (heap e2) (seg_sdu s)"
    using store_inv_alloc[OF f(8)] by (simp add: e2_def)
  moreover have "\<forall>t \<in> set rest. seg_sdu t \<noteq> seg_sdu s"
    using store_inv_whole[of "heap e" "[]" s rest] assms(1,3-5) by (simp add: um_tx_inv_def)
  ultimately show ?thesis using gen f(3,5) by (simp add: e2_def)
qed

theorem um_two_byte_buffer_drops_sdu_witness:
  "\<exists>e'. nr_rlc_entity_um_generate_pdu 5 um_loaded [0, 0] = Inr (0, [0, 0], e') \<and> um_queue e' = []
     \<and> um_tx_size e' = 3 \<and> hp_alloc (heap e') 0"
  using um_two_byte_buffer_drops_sdu[of um_loaded _ "[]" "[0, 0]" 5] um_loaded_simps by auto

text \<open>
  \<open>nr_rlc_entity_um_discard_sdu\<close> removes the first SDU with the given identity when no byte of
  it has been sent yet, with its bytes in the buffer status, and frees it. It does not
  give the bytes back to \<open>tx_size\<close>, so the invariant holds again only with the size of the
  discarded SDU subtracted.
\<close>

theorem um_discard_sdu_keeps_tx_size:
  assumes "um_tx_inv e" "um_tx_list e = l1 @ s # l2" "seg_is_first s" "seg_is_last s"
    "sdu_upper_layer_id (sdu_of (heap e) s) = i"
    "\<forall>t \<in> set l1. sdu_upper_layer_id (sdu_of (heap e) t) \<noteq> i"
  shows "let e' = nr_rlc_entity_um_discard_sdu e i
     in um_tx_list e' = l1 @ l2 \<and> um_tx_size e' = um_tx_size e \<and> \<not> hp_alloc (heap e') (seg_sdu s)
        \<and> um_tx_inv (e'\<lparr>um_tx_size := um_tx_size e' - seg_size s\<rparr>)"
proof -
  define e' where "e' = nr_rlc_entity_um_discard_sdu e i"
  let ?other = "\<lambda>s. sdu_upper_layer_id (sdu_of (heap e) s) \<noteq> i"
  have st: "store_inv (heap e) (l1 @ s # l2)" using assms(1,2) by (simp add: um_tx_inv_def)
  have sp: "takeWhile ?other (um_tx_list e) = l1" "dropWhile ?other (um_tx_list e) = s # l2"
    using assms(2,5,6) by (simp_all add: takeWhile_append2 dropWhile_append2)
  have en: "um_tx_end e = Some (seg_addr s) \<longleftrightarrow> l2 = []"
    using assms(1,2) store_inv_addr[OF st]
    by (cases l2 rule: rev_cases) (auto simp: um_tx_inv_def list_end_def)
  have e': "um_tx_list e' = l1 @ l2" "um_tx_size e' = um_tx_size e"
    "um_tx_end e' = (if l2 = [] then list_end l1 else um_tx_end e)"
    "heap e' = snd (nr_rlc_free_sdu_segment s (heap e))" "um_tx_next e' = um_tx_next e"
    "bs_tx_size (bstatus e') = bs_tx_size (bstatus e) - (um_compute_pdu_header_size e s + seg_size s)"
    "um_sn_field_length e' = um_sn_field_length e" "um_sn_modulus e' = um_sn_modulus e"
    "um_window_size e' = um_window_size e"
    using assms(3,4) by (simp_all add: e'_def nr_rlc_entity_um_discard_sdu_def sp Let_def en
        um_compute_pdu_header_size_def)
  note fr = store_inv_free[OF st]
  have freed: "fst (nr_rlc_free_sdu_segment s (heap e))"
    using store_inv_whole[OF st assms(3,4)] by (simp add: fr(2))
  have "um_tx_inv (e'\<lparr>um_tx_size := um_tx_size e' - seg_size s\<rparr>)"
  proof -
    have "list_end (l1 @ l2) = um_tx_end e'"
      using assms(1,2) by (auto simp: e' um_tx_inv_def list_end_def)
    moreover have "\<forall>t \<in> set (tl (l1 @ l2)). seg_is_first t \<and> seg_is_last t"
      using assms(1,2) by (cases l1; cases l2) (auto simp: um_tx_inv_def)
    ultimately show ?thesis
      using assms(1,2) e' fr(1)
      by (simp add: um_tx_inv_def um_config_ok_def um_sn_ok_def um_pdu_bytes_def um_compute_pdu_header_size_def)
  qed
  moreover have "\<not> hp_alloc (heap e') (seg_sdu s)" using freed by (simp add: e' free_segment_heap)
  ultimately show ?thesis using e'(1,2) by (simp add: e'_def[symmetric] Let_def)
qed

theorem um_discard_sdu_keeps_tx_size_witness:
  "um_tx_list (nr_rlc_entity_um_discard_sdu um_loaded 7) = []
   \<and> um_tx_size (nr_rlc_entity_um_discard_sdu um_loaded 7) = 3"
  using um_discard_sdu_keeps_tx_size[of um_loaded "[]" _ "[]" 7] um_loaded_simps
  by (simp add: Let_def nr_rlc_new_sdu_def empty_heap_def sdu_of_def)

end
