(* ===== verification/Rlc_Tm_Tx.thy ===== *)
theory Rlc_Tm_Tx
  imports Rlc_Entities Rlc_Queue
begin

text \<open>
  The transmission queue of the transparent mode: an SDU goes out whole and unchanged, in order,
  and the entity meets the contract of a transmission queue.
\<close>

definition tm_tx_inv :: "nr_rlc_entity_tm \<Rightarrow> bool" where
  "tm_tx_inv e \<longleftrightarrow>
     store_inv (heap e) (tm_tx_list e) \<and> tm_tx_end e = list_end (tm_tx_list e)
     \<and> bs_tx_size (bstatus e) = sum_list (map seg_size (tm_tx_list e))
     \<and> tm_tx_size e = sum_list (map seg_size (tm_tx_list e))
     \<and> (\<forall>s \<in> set (tm_tx_list e). seg_is_first s \<and> seg_is_last s)"

definition tm_queue :: "nr_rlc_entity_tm \<Rightarrow> byte list list" where
  "tm_queue e = map (seg_bytes (heap e)) (tm_tx_list e)"

lemma sample_waited_time_tm [simp]:
  "tm_tx_list (sample_waited_time n s e) = tm_tx_list e"
  "tm_tx_end (sample_waited_time n s e) = tm_tx_end e"
  "tm_tx_size (sample_waited_time n s e) = tm_tx_size e"
  by (simp_all add: sample_waited_time_def)

lemma stamp_arrival_tm [simp]:
  "tm_tx_list (stamp_arrival n s e) = tm_tx_list e"
  "tm_tx_end (stamp_arrival n s e) = tm_tx_end e"
  "tm_tx_size (stamp_arrival n s e) = tm_tx_size e"
  by (simp_all add: stamp_arrival_def)

lemma tm_recv_sdu_step:
  assumes "tm_tx_inv e" "buf \<noteq> []" "int (length buf) \<le> NR_SDU_MAX"
  shows "\<exists>e'. nr_rlc_entity_tm_recv_sdu now e buf i = Inr e' \<and> tm_tx_inv e'
     \<and> tm_queue e' = (if tm_tx_size e + int (length buf) \<le> tm_tx_maxsize e
                      then tm_queue e @ [buf] else tm_queue e)"
proof -
  define e0 where "e0 = tm_sdu_arrives (int (length buf)) e"
  have e0: "heap e0 = heap e" "tm_tx_list e0 = tm_tx_list e" "tm_tx_end e0 = tm_tx_end e"
    "tm_tx_size e0 = tm_tx_size e" "bstatus e0 = bstatus e" "tm_tx_maxsize e0 = tm_tx_maxsize e"
    by (simp_all add: e0_def tm_sdu_arrives_def tm_log_rejected_def)
  show ?thesis
  proof (cases "tm_tx_size e + int (length buf) \<le> tm_tx_maxsize e")
    case False
    then show ?thesis using assms e0
      by (simp add: nr_rlc_entity_tm_recv_sdu_def e0_def[symmetric] Let_def tm_tx_inv_def tm_queue_def)
  next
    case True
    obtain seg h where new: "nr_rlc_new_sdu (heap e) buf i = (seg, h)" by fastforce
    have seg: "seg_size seg = int (length buf)" "seg_is_first seg" "seg_is_last seg" "seg_bytes h seg = buf"
      using new by (auto simp: nr_rlc_new_sdu_def Let_def seg_bytes_def sdu_of_def)
    have st: "store_inv (heap e) (tm_tx_list e)" using assms(1) by (simp add: tm_tx_inv_def)
    note sn = store_inv_new(1)[OF st new assms(2,3)]
    have app: "nr_rlc_sdu_segment_list_append (tm_tx_list e) (tm_tx_end e) seg
        = Inr (tm_tx_list e @ [seg], Some (seg_addr seg))"
      using segq.append_ok[of "tm_tx_list e" seg] store_inv_addr[OF st] assms(1)
      by (simp add: tm_tx_inv_def)
    have old: "seg_bytes h t = seg_bytes (heap e) t" if "t \<in> set (tm_tx_list e)" for t
      using store_inv_alloc_less[OF st store_inv_alloc[OF st that]] new
      by (auto simp: nr_rlc_new_sdu_def Let_def seg_bytes_def sdu_of_def)
    let ?e' = "stamp_arrival now seg (add_tx_size (seg_size seg)
        ((set_heap h (e0\<lparr>tm_tx_size := tm_tx_size e0 + int (length buf)\<rparr>))
           \<lparr>tm_tx_list := tm_tx_list e @ [seg], tm_tx_end := Some (seg_addr seg)\<rparr>))"
    have r: "nr_rlc_entity_tm_recv_sdu now e buf i = Inr ?e'"
      using assms(3) True app new e0
      by (simp add: nr_rlc_entity_tm_recv_sdu_def e0_def[symmetric] Let_def)
    have "store_inv (heap ?e') (tm_tx_list e @ [seg])" using sn by (simp add: store_inv_update)
    then have "tm_tx_inv ?e'" using assms(1) seg e0 by (auto simp: tm_tx_inv_def)
    moreover have "seg_bytes (heap ?e') = seg_bytes h" by (rule seg_bytes_cong) simp
    then have "tm_queue ?e' = tm_queue e @ [buf]" using old seg by (simp add: tm_queue_def)
    ultimately show ?thesis using r True by auto
  qed
qed

lemma tm_generate_pdu_step:
  assumes inv: "tm_tx_inv e"
  shows "\<exists>n buf' e'. nr_rlc_entity_tm_generate_pdu now e buf = Inr (n, buf', e') \<and> tm_tx_inv e'
     \<and> (if tm_queue e = [] \<or> length buf < length (hd (tm_queue e)) then n = 0 \<and> buf' = buf \<and> e' = e
        else take (nat n) buf' = hd (tm_queue e) \<and> length buf' = length buf \<and> 0 < n
             \<and> tm_queue e' = tl (tm_queue e))"
proof (cases "tm_tx_list e")
  case Nil
  then show ?thesis using inv
    by (simp add: nr_rlc_entity_tm_generate_pdu_def tm_generate_tx_pdu_def tm_queue_def)
next
  case (Cons s rest)
  have st: "store_inv (heap e) (s # rest)" using inv Cons by (simp add: tm_tx_inv_def)
  have wf: "seg_wf (heap e) s" and whole: "seg_is_first s" "seg_is_last s"
    using st inv Cons by (auto simp: store_inv_def tm_tx_inv_def)
  have len: "length (seg_bytes (heap e) s) = nat (seg_size s)" "0 < seg_size s"
    using length_seg_bytes[OF wf] seg_wf_size[OF wf] by auto
  show ?thesis
  proof (cases "seg_size s > int (length buf)")
    case True
    then show ?thesis using inv Cons len
      by (simp add: nr_rlc_entity_tm_generate_pdu_def tm_generate_tx_pdu_def tm_queue_def)
  next
    case False
    have rd: "c_read (sdu_data (sdu_of (heap e) s)) 0 (seg_size s) = Inr (seg_bytes (heap e) s)"
      using seg_wf_read[OF wf] wf whole by (simp add: seg_wf_def)
    have cp: "c_memcpy buf 0 (seg_bytes (heap e) s) = Inr (splice buf 0 (seg_bytes (heap e) s))"
      using False len by simp
    obtain e' where g: "nr_rlc_entity_tm_generate_pdu now e buf
        = Inr (seg_size s, splice buf 0 (seg_bytes (heap e) s), e')"
      and e': "heap e' = snd (nr_rlc_free_sdu_segment s (heap e))" "tm_tx_list e' = rest"
        "tm_tx_end e' = (if rest = [] then None else tm_tx_end e)" "tm_tx_size e' = tm_tx_size e - seg_size s"
        "bs_tx_size (bstatus e') = bs_tx_size (bstatus e) - seg_size s"
      using False rd cp Cons
      by (simp add: nr_rlc_entity_tm_generate_pdu_def tm_generate_tx_pdu_def Let_def)
    have "store_inv (heap e') rest" using store_inv_free(1)[of "heap e" "[]" s rest] st e'(1) by simp
    then have "tm_tx_inv e'" using inv Cons e' by (simp add: tm_tx_inv_def list_end_Cons)
    moreover have "seg_bytes (heap e') = seg_bytes (heap e)"
      by (rule seg_bytes_cong) (simp add: e'(1) free_segment_same)
    ultimately show ?thesis using g Cons False len e'(2) by (auto simp: tm_queue_def splice_def)
  qed
qed

interpretation tm_queue: tx_queue tm_tx_inv tm_queue nr_rlc_entity_tm_recv_sdu
  nr_rlc_entity_tm_generate_pdu "\<lambda>buf. True"
proof unfold_locales
  fix e :: nr_rlc_entity_tm and b :: "byte list" and now i
  assume "tm_tx_inv e" "b \<noteq> []" "int (length b) \<le> NR_SDU_MAX"
  from tm_recv_sdu_step[OF this, of now i]
  show "\<exists>e'. nr_rlc_entity_tm_recv_sdu now e b i = Inr e' \<and> tm_tx_inv e'
      \<and> (tm_queue e' = tm_queue e @ [b] \<or> tm_queue e' = tm_queue e)" by (auto split: if_splits)
next
  fix e :: nr_rlc_entity_tm and buf :: "byte list" and now
  assume "tm_tx_inv e"
  from tm_generate_pdu_step[OF this, of now buf] obtain n buf' e' where
    g: "nr_rlc_entity_tm_generate_pdu now e buf = Inr (n, buf', e')" "tm_tx_inv e'"
      "if tm_queue e = [] \<or> length buf < length (hd (tm_queue e)) then n = 0 \<and> buf' = buf \<and> e' = e
       else take (nat n) buf' = hd (tm_queue e) \<and> length buf' = length buf \<and> 0 < n
            \<and> tm_queue e' = tl (tm_queue e)" by blast
  have "carries p p" for p by (auto simp: carries_def)
  then show "\<exists>n buf' e'. nr_rlc_entity_tm_generate_pdu now e buf = Inr (n, buf', e') \<and> tm_tx_inv e'
      \<and> (n = 0 \<and> tm_queue e' = tm_queue e
         \<or> n \<noteq> 0 \<and> (\<exists>payload. carries (take (nat n) buf') payload
              \<and> concat (tm_queue e) = payload @ concat (tm_queue e')))"
    using g by (cases "tm_queue e") (auto split: if_splits)
qed

text \<open>Instances.\<close>

definition tm_empty :: nr_rlc_entity_tm where
  "tm_empty = projr (new_nr_rlc_entity_tm 1000)"

lemma tm_empty_inv: "tm_tx_inv tm_empty" "tm_queue tm_empty = []" "tm_tx_list tm_empty = []"
  "tm_tx_size tm_empty = 0" "tm_tx_maxsize tm_empty = 1000"
  by (simp_all add: tm_empty_def new_nr_rlc_entity_tm_def time_average_new_def tm_tx_inv_def tm_queue_def
      store_inv_empty zero_bstatus_def)

definition tm_loaded :: nr_rlc_entity_tm where
  "tm_loaded = projr (nr_rlc_entity_tm_recv_sdu 0 tm_empty [7, 8] 1)"

lemma tm_loaded_inv: "tm_tx_inv tm_loaded" "tm_queue tm_loaded = [[7, 8]]"
  using tm_recv_sdu_step[of tm_empty "[7, 8]" 0 1]
  by (auto simp: tm_loaded_def tm_empty_inv NR_SDU_MAX_def)

section \<open>Properties\<close>

text \<open>
  Transparent mode, for every sequence of SDUs and PDU requests from a state of the invariant:
  no call fails, and the PDUs carry the accepted bytes in order, with the rest still queued.
\<close>

theorem tm_run_is_fifo:
  assumes "tm_tx_inv e" "\<forall>c \<in> set ops. tm_queue.legal c"
  shows "\<exists>pdus e' payloads accepted.
     run_queue nr_rlc_entity_tm_recv_sdu nr_rlc_entity_tm_generate_pdu e ops = Inr (pdus, e') \<and> tm_tx_inv e'
     \<and> list_all2 carries pdus payloads \<and> accepted \<in> set (subseqs (puts ops))
     \<and> concat (tm_queue e) @ concat accepted = concat payloads @ concat (tm_queue e')"
  by (rule tm_queue.run_fifo[OF assms])

theorem tm_run_is_fifo_witness:
  "\<exists>pdus e'. run_queue nr_rlc_entity_tm_recv_sdu nr_rlc_entity_tm_generate_pdu tm_empty
     [Put_sdu 3 [9, 9] 8, Get_pdu 4 [0], Get_pdu 5 [0, 0, 0]] = Inr (pdus, e') \<and> tm_tx_inv e'"
  using tm_run_is_fifo[of tm_empty "[Put_sdu 3 [9, 9] 8, Get_pdu 4 [0], Get_pdu 5 [0, 0, 0]]"]
  by (auto simp: tm_empty_inv NR_SDU_MAX_def)

text \<open>
  A transparent mode PDU is the SDU itself: \<open>generate_pdu\<close> copies the oldest SDU unchanged
  into a buffer that can hold it and removes exactly that SDU, and does nothing otherwise.
\<close>

theorem tm_generate_pdu_sends_head:
  assumes "tm_tx_inv e"
  shows "\<exists>n buf' e'. nr_rlc_entity_tm_generate_pdu now e buf = Inr (n, buf', e') \<and> tm_tx_inv e'
     \<and> (if tm_queue e = [] \<or> length buf < length (hd (tm_queue e)) then n = 0 \<and> buf' = buf \<and> e' = e
        else take (nat n) buf' = hd (tm_queue e) \<and> length buf' = length buf \<and> 0 < n
             \<and> tm_queue e' = tl (tm_queue e))"
  by (rule tm_generate_pdu_step[OF assms])

theorem tm_generate_pdu_sends_head_witness:
  "\<exists>n buf' e'. nr_rlc_entity_tm_generate_pdu 0 tm_loaded [0, 0, 0] = Inr (n, buf', e')
     \<and> take (nat n) buf' = [7, 8] \<and> tm_queue e' = []"
  using tm_generate_pdu_sends_head[of tm_loaded 0 "[0, 0, 0]"] by (auto simp: tm_loaded_inv)

end
