(* ===== verification/Rlc_Am_Wire.thy ===== *)
theory Rlc_Am_Wire
  imports Rlc_Am_Tx Rlc_Wire
begin

text \<open>
  The AMD PDU format: the bits the AM serializer writes, with the poll bit set afterwards in the
  first byte, and the fields the receiver of the same configuration reads back.
\<close>

unbundle bit_operations_syntax

definition am_header_bits :: "nr_rlc_entity_am \<Rightarrow> bool \<Rightarrow> nr_rlc_sdu_segment \<Rightarrow> bool list" where
  "am_header_bits e p s =
     [True, p, \<not> seg_is_first s, \<not> seg_is_last s]
     @ (if am_sn_field_length e = 18 then val_bits 2 0 else [])
     @ val_bits (am_sn_field_length e) (sdu_sn (sdu_of (heap e) s))
     @ (if seg_is_first s then [] else val_bits 16 (seg_so s))"

lemma length_am_header_bits:
  "am_config_ok e \<Longrightarrow> length (am_header_bits e p s) = 8 * nat (am_compute_pdu_header_size e s)"
  by (auto simp: am_header_bits_def am_compute_pdu_header_size_def elim!: am_config_cases)

lemma am_serialize_header_ok:
  assumes "am_config_ok e" "am_compute_pdu_header_size e s \<le> int (length buf)"
  shows "am_serialize_header e s buf = Inr (enc_at buf (am_header_bits e False s))"
proof -
  have len: "length (am_header_bits e False s) \<le> 8 * length buf"
    using length_am_header_bits[OF assms(1), of False s] assms(2) by simp
  show ?thesis using assms(1)
    by (cases rule: am_config_cases; cases "seg_is_first s")
      (use len in \<open>simp_all add: am_serialize_header_def am_header_bits_def enc_simps\<close>)
qed

text \<open>Setting the poll bit in the first byte.\<close>

lemma byte_bits_inj: "byte_bits a = byte_bits b \<Longrightarrow> a = b"
proof (rule bit_word_eqI)
  fix n
  assume eq: "byte_bits a = byte_bits b" and "n < LENGTH(8)"
  then have "byte_bits a ! (7 - n) = byte_bits b ! (7 - n)" "7 - (7 - n) = n" by simp_all
  then show "bit a n = bit b n" using \<open>n < LENGTH(8)\<close> by (simp add: byte_bits_nth)
qed

lemma byte_bits_or_poll: "byte_bits (b OR 64) = (byte_bits b)[1 := True]"
proof (rule nth_equalityI)
  fix i
  assume "i < length (byte_bits (b OR 64))"
  then have "i < 8" by simp
  moreover have "bit (64 :: byte) (7 - i) \<longleftrightarrow> i = 1" if "i < 8"
    using that by (auto simp: numeral_eq_Suc less_Suc_eq)
  ultimately show "byte_bits (b OR 64) ! i = (byte_bits b)[1 := True] ! i"
    by (simp add: byte_bits_nth nth_list_update bit_or_iff)
qed simp

lemma pdu_in_buffer_poll:
  assumes "length bs mod 8 = 6"
  shows "or_byte (pdu_in_buffer (a # False # bs) data buf) 0 64
    = Inr (pdu_in_buffer (a # True # bs) data buf)"
proof -
  have len: "6 \<le> length bs" using assms by (metis mod_less_eq_dividend)
  let ?byte = "\<lambda>p. byte_of_bits (a # p # take 6 bs)"
  have split: "bytes_of_bits (a # p # bs) = ?byte p # bytes_of_bits (drop 6 bs)" for p
    using bytes_of_bits_append8[of "a # p # take 6 bs" "drop 6 bs"] len by simp
  have "?byte False OR 64 = ?byte True"
    by (rule byte_bits_inj) (use len in \<open>simp add: byte_bits_or_poll byte_bits_byte_of_bits\<close>)
  then show ?thesis by (simp add: pdu_in_buffer_def split or_byte_def)
qed

definition am_polled :: "nr_rlc_entity_am \<Rightarrow> nr_rlc_entity_am" where
  "am_polled e =
     e\<lparr>am_pdu_without_poll := 0, am_byte_without_poll := 0,
       am_poll_sn := (am_tx_next e - 1 + am_sn_modulus e) mod am_sn_modulus e,
       am_t_poll_retransmit_start := am_t_current e\<rparr>"

lemma am_serialize_sdu_ok:
  assumes "am_config_ok e" "seg_wf (heap e) s"
    and "am_compute_pdu_header_size e s + seg_size s \<le> int (length buf)"
  shows "am_serialize_sdu e s buf p =
     Inr (am_compute_pdu_header_size e s + seg_size s,
          pdu_in_buffer (am_header_bits e p s) (seg_bytes (heap e) s) buf,
          if p then am_polled e else e)"
proof -
  note sz = seg_wf_size[OF assms(2)] and hd = am_header_size_bounds[of e s]
  have len: "length (am_header_bits e q s) = 8 * nat (am_compute_pdu_header_size e s)" for q
    by (rule length_am_header_bits[OF assms(1)])
  have "am_serialize_header e s buf = Inr (enc_at buf (am_header_bits e False s))"
    using assms(3) sz by (intro am_serialize_header_ok assms(1)) simp
  moreover have "c_memcpy (enc_buffer (enc_at buf (am_header_bits e False s)))
      (length (am_header_bits e False s) div 8) (seg_bytes (heap e) s)
    = Inr (pdu_in_buffer (am_header_bits e False s) (seg_bytes (heap e) s) buf)"
  proof (rule put_payload)
    show "length (am_header_bits e False s) div 8 + length (seg_bytes (heap e) s) \<le> length buf"
      using assms(3) len[of False] sz hd length_seg_bytes[OF assms(2)] by simp linarith
  qed (simp add: len)
  moreover have "or_byte (pdu_in_buffer (am_header_bits e False s) data buf) 0 64
      = Inr (pdu_in_buffer (am_header_bits e True s) data buf)" for data
  proof -
    obtain bs where bs: "\<And>q. am_header_bits e q s = True # q # bs" by (simp add: am_header_bits_def)
    then have "Suc (Suc (length bs)) mod 8 = 0" using len[of False] by simp
    then have "length bs mod 8 = 6" by presburger
    then show ?thesis by (simp add: bs pdu_in_buffer_poll)
  qed
  ultimately show ?thesis using hd len[of False]
    by (simp add: am_serialize_sdu_def seg_wf_read[OF assms(2)] am_include_poll_def am_polled_def)
qed

section \<open>Reading a PDU\<close>

definition am_header_of :: "nr_rlc_entity_am \<Rightarrow> bool \<Rightarrow> nr_rlc_sdu_segment \<Rightarrow> am_data_header" where
  "am_header_of e p s =
     \<lparr>dh_p = of_bool p, dh_sn = sdu_sn (sdu_of (heap e) s), dh_so = seg_so s,
      dh_is_first = seg_is_first s, dh_is_last = seg_is_last s, dh_data_size = seg_size s\<rparr>"

lemma am_parse_data_header_ok:
  assumes "am_config_ok e" "am_sn_field_length r = am_sn_field_length e" "seg_wf (heap e) s"
    and "am_sn_ok e (sdu_sn (sdu_of (heap e) s))"
    and "bits_of pdu = am_header_bits e p s @ rest"
    and "int (length pdu) = am_compute_pdu_header_size e s + seg_size s"
  shows "am_parse_data_header r (dec_at pdu 1) (int (length pdu)) = Inr (Inr (am_header_of e p s))"
proof -
  let ?sn = "sdu_sn (sdu_of (heap e) s)"
  let ?pre = "[True, p, \<not> seg_is_first s, \<not> seg_is_last s]"
  let ?so = "if seg_is_first s then [] else val_bits 16 (seg_so s)"
  note so16 = seg_wf_so[OF assms(3)] and sz = seg_wf_size[OF assms(3)]
  have so: "bits_val (val_bits 16 (seg_so s)) = seg_so s"
    using so16 by (intro bits_val_val_bits_id) auto
  have first: "seg_is_first s \<longleftrightarrow> seg_so s = 0" using assms(3) by (simp add: seg_wf_def)
  have p: "get_bits_R (dec_at pdu 1) 1 = Inr (of_bool p, dec_at pdu 2)"
    by (rule get_bits_field[of pdu "[True]" "[p]" "drop 2 (am_header_bits e p s) @ rest"])
      (simp_all add: assms(5) am_header_bits_def)
  define v where "v = bits_val [\<not> seg_is_first s, \<not> seg_is_last s]"
  have si: "get_bits_R (dec_at pdu 2) 2 = Inr (v, dec_at pdu 4)"
    by (rule get_bits_field[of pdu "[True, p]" _ "drop 4 (am_header_bits e p s) @ rest"])
      (simp_all add: assms(5) am_header_bits_def v_def)
  have v: "(v AND 2 = 0) = seg_is_first s" "(v AND 1 = 0) = seg_is_last s"
    unfolding v_def by (rule si_bits)+
  from assms(1) show ?thesis
  proof (cases rule: am_config_cases)
    case short
    then have sn: "bits_val (val_bits 12 ?sn) = ?sn"
      using assms(4) by (intro bits_val_val_bits_id) (simp_all add: am_sn_ok_def)
    have bits: "bits_of pdu = ?pre @ val_bits 12 ?sn @ ?so @ rest"
      using assms(5) short by (simp add: am_header_bits_def)
    have r1: "get_bits_R (dec_at pdu 4) 12 = Inr (?sn, dec_at pdu 16)"
      by (rule get_bits_field[OF bits]) (simp_all add: sn)
    have r2: "get_bits_R (dec_at pdu 16) 16 = Inr (seg_so s, dec_at pdu 32)" if "\<not> seg_is_first s"
      by (rule get_bits_field[of pdu "?pre @ val_bits 12 ?sn" "val_bits 16 (seg_so s)" rest])
        (simp_all add: so bits that)
    show ?thesis using short assms(2,6) first sz r1 r2
      by (cases "seg_is_first s")
        (simp_all add: am_parse_data_header_def am_compute_pdu_header_size_def Let_def p[unfolded One_nat_def] si v
          am_header_of_def)
  next
    case long
    then have sn: "bits_val (val_bits 18 ?sn) = ?sn"
      using assms(4) by (intro bits_val_val_bits_id) (simp_all add: am_sn_ok_def)
    have bits: "bits_of pdu = ?pre @ val_bits 2 0 @ val_bits 18 ?sn @ ?so @ rest"
      using assms(5) long by (simp add: am_header_bits_def)
    have r0: "get_bits_R (dec_at pdu 4) 2 = Inr (bits_val (val_bits 2 0), dec_at pdu 6)"
      by (rule get_bits_field[OF bits]) simp_all
    have r1: "get_bits_R (dec_at pdu 6) 18 = Inr (?sn, dec_at pdu 24)"
      by (rule get_bits_field[of pdu "?pre @ val_bits 2 0" "val_bits 18 ?sn" "?so @ rest"])
        (simp_all add: sn bits)
    have r2: "get_bits_R (dec_at pdu 24) 16 = Inr (seg_so s, dec_at pdu 40)" if "\<not> seg_is_first s"
      by (rule get_bits_field[of pdu "?pre @ val_bits 2 0 @ val_bits 18 ?sn" "val_bits 16 (seg_so s)" rest])
        (simp_all add: so bits that)
    show ?thesis using long assms(2,6) first sz r0 r1 r2
      by (cases "seg_is_first s")
        (simp_all add: am_parse_data_header_def am_compute_pdu_header_size_def Let_def p[unfolded One_nat_def] si v
          am_header_of_def)
  qed
qed

definition am_counted :: "int \<Rightarrow> nr_rlc_entity_am \<Rightarrow> nr_rlc_entity_am" where
  "am_counted sz e =
     count_stat (\<lambda>s. s\<lparr>rxpdu_pkts := rxpdu_pkts s + 1, rxpdu_bytes := rxpdu_bytes s + word_of_int sz\<rparr>) e"

lemma am_counted_simps [simp]:
  "am_rx_size (am_counted n e) = am_rx_size e" "am_rx_maxsize (am_counted n e) = am_rx_maxsize e"
  "am_rx_list (am_counted n e) = am_rx_list e" "am_sn_field_length (am_counted n e) = am_sn_field_length e"
  "am_sn_in_recv_window (am_counted n e) sn = am_sn_in_recv_window e sn"
  "am_segment_already_received (am_counted n e) sn so sz = am_segment_already_received e sn so sz"
  by (simp_all add: am_counted_def am_sn_in_recv_window_def am_modulus_rx_def
      am_segment_already_received_def Let_def)

text \<open>A data PDU, as the receiver reads it.\<close>

definition am_read_data_pdu :: "nr_rlc_entity_am \<Rightarrow> byte list \<Rightarrow> am_data_header option" where
  "am_read_data_pdu e buffer =
     (case get_bits_R (nr_rlc_pdu_decoder_init buffer) 1 of
        Inl er \<Rightarrow> None
      | Inr (dc, d) \<Rightarrow>
          if dc = 0 then None
          else (case am_parse_data_header e d (int (length buffer)) of
                  Inl er \<Rightarrow> None
                | Inr r \<Rightarrow> (case r of Inl p \<Rightarrow> None | Inr h \<Rightarrow> Some h)))"

lemma am_parse_counted: "am_parse_data_header (am_counted k e) d sz = am_parse_data_header e d sz"
  by (simp add: am_parse_data_header_def)

text \<open>What the receiver reads in the bytes of a data PDU.\<close>

lemma am_pdu_read:
  assumes "am_config_ok e" "am_sn_field_length r = am_sn_field_length e" "seg_wf (heap e) s"
    "am_sn_ok e (sdu_sn (sdu_of (heap e) s))" "pdu = bytes_of_bits (am_header_bits e p s) @ seg_bytes (heap e) s"
  shows "am_read_data_pdu r pdu = Some (am_header_of e p s)"
    "int (length pdu) = am_compute_pdu_header_size e s + seg_size s"
    "drop (nat (am_compute_pdu_header_size e s)) pdu = seg_bytes (heap e) s"
proof -
  define hs where "hs = am_compute_pdu_header_size e s"
  define bits where "bits = am_header_bits e p s"
  define data where "data = seg_bytes (heap e) s"
  have pdu: "pdu = bytes_of_bits bits @ data" by (simp add: assms(5) bits_def data_def)
  note sz = seg_wf_size[OF assms(3)] and hd = am_header_size_bounds[of e s, folded hs_def]
  have lb: "length bits = 8 * nat hs" using length_am_header_bits[OF assms(1)] by (simp add: bits_def hs_def)
  have ld: "length data = nat (seg_size s)" using length_seg_bytes[OF assms(3)] by (simp add: data_def)
  have lp: "int (length pdu) = hs + seg_size s" using lb ld hd sz by (simp add: pdu)
  then show "int (length pdu) = am_compute_pdu_header_size e s + seg_size s" by (simp add: hs_def)
  have "drop (nat hs) pdu = data" using lb by (simp add: pdu)
  then show "drop (nat (am_compute_pdu_header_size e s)) pdu = seg_bytes (heap e) s" by (simp add: hs_def data_def)
  have bp: "bits_of pdu = bits @ bits_of data" using lb by (simp add: pdu bits_of_bytes_of_bits)
  have dc: "get_bits_R (nr_rlc_pdu_decoder_init pdu) 1 = Inr (1, dec_at pdu 1)"
    unfolding decoder_init_dec_at
    by (rule get_bits_field[where pre = "[]" and fld = "[True]"]) (simp_all add: bp bits_def am_header_bits_def)
  have "am_parse_data_header r (dec_at pdu 1) (int (length pdu)) = Inr (Inr (am_header_of e p s))"
    by (rule am_parse_data_header_ok[OF assms(1,2,3,4)]) (use bp lp in \<open>simp_all add: bits_def hs_def\<close>)
  then show "am_read_data_pdu r pdu = Some (am_header_of e p s)" by (simp add: am_read_data_pdu_def dc del: One_nat_def)
qed

lemma am_serialized_read:
  assumes "am_config_ok e" "am_sn_field_length r = am_sn_field_length e" "seg_wf (heap e) s"
    "am_sn_ok e (sdu_sn (sdu_of (heap e) s))"
    "am_compute_pdu_header_size e s + seg_size s \<le> int (length buf)"
  shows "\<exists>n buf' e'. am_serialize_sdu e s buf p = Inr (n, buf', e') \<and> n \<le> int (length buf)
     \<and> int (length (take (nat n) buf')) = n
     \<and> am_read_data_pdu r (take (nat n) buf') = Some (am_header_of e p s)
     \<and> drop (nat (n - seg_size s)) (take (nat n) buf') = seg_bytes (heap e) s"
proof -
  define hs where "hs = am_compute_pdu_header_size e s"
  define pdu where "pdu = bytes_of_bits (am_header_bits e p s) @ seg_bytes (heap e) s"
  note r = am_pdu_read[OF assms(1-4) pdu_def]
  note sz = seg_wf_size[OF assms(3)] and hd = am_header_size_bounds[of e s, folded hs_def]
  have "nat (hs + seg_size s) = length (am_header_bits e p s) div 8 + length (seg_bytes (heap e) s)"
    "nat (hs + seg_size s - seg_size s) = nat hs"
    using length_am_header_bits[OF assms(1)] length_seg_bytes[OF assms(3)] hd sz by (simp_all add: nat_add_distrib hs_def)
  moreover from this have "take (nat (hs + seg_size s)) (pdu_in_buffer (am_header_bits e p s) (seg_bytes (heap e) s) buf) = pdu"
    using take_pdu_in_buffer by (simp add: pdu_def)
  moreover have "am_serialize_sdu e s buf p = Inr (hs + seg_size s,
      pdu_in_buffer (am_header_bits e p s) (seg_bytes (heap e) s) buf, if p then am_polled e else e)"
    using am_serialize_sdu_ok[OF assms(1,3,5), of p] by (simp add: hs_def)
  ultimately show ?thesis using r assms(5) by (intro exI conjI) (assumption | simp add: hs_def)+
qed

text \<open>A new PDU in the window, for which there is room, is stored.\<close>

lemma am_recv_read:
  assumes "am_read_data_pdu r pdu = Some h"
    and "am_rx_size r + dh_data_size h \<le> am_rx_maxsize r" "am_sn_in_recv_window r (dh_sn h)"
    and "\<not> am_segment_already_received r (dh_sn h) (dh_so h) (dh_data_size h)"
  shows "nr_rlc_entity_am_recv_pdu r pdu = am_store_pdu (am_counted (int (length pdu)) r) h pdu"
proof -
  obtain dc d where "get_bits_R (nr_rlc_pdu_decoder_init pdu) 1 = Inr (dc, d)" "dc \<noteq> 0"
    "am_parse_data_header (am_counted (int (length pdu)) r) d (int (length pdu)) = Inr (Inr h)"
    using assms(1) unfolding am_read_data_pdu_def am_parse_counted
    by (auto split: sum.splits prod.splits if_splits)
  then show ?thesis using assms(2-4)
    unfolding nr_rlc_entity_am_recv_pdu_def Let_def am_counted_def[symmetric] am_recv_data_pdu_def by simp
qed

end
