(* ===== verification/Rlc_Reassembly.thy ===== *)
theory Rlc_Reassembly
  imports Rlc_Rx_List
begin

text \<open>
  What the queries and the reassembly compute on an ordered reception list. On such a list the
  duplicate test says exactly whether every byte is there, and the completeness test exactly
  whether the SDU is complete; the reassembly of the segments of an SDU that are complete gives the
  SDU, without a read outside a segment.
\<close>

section \<open>The segments of an SDU\<close>

definition rx_segs :: "int \<Rightarrow> nr_rlc_pdu list \<Rightarrow> nr_rlc_pdu list" where
  "rx_segs sn l = filter (\<lambda>p. pdu_sn p = sn) l"

definition rx_sorted :: "(int \<Rightarrow> int) \<Rightarrow> nr_rlc_pdu list \<Rightarrow> bool" where
  "rx_sorted pos l \<longleftrightarrow> sorted_wrt (\<lambda>a b. sn_so_le pos (pdu_sn a, pdu_so a) (pdu_sn b, pdu_so b)) l"

lemma rx_segs_simps [simp]:
  "rx_segs sn [] = []" "rx_segs sn (p # l) = (if pdu_sn p = sn then p # rx_segs sn l else rx_segs sn l)"
  "rx_segs sn (l @ l') = rx_segs sn l @ rx_segs sn l'"
  by (simp_all add: rx_segs_def)

lemma rx_segs_set: "p \<in> set (rx_segs sn l) \<longleftrightarrow> p \<in> set l \<and> pdu_sn p = sn"
  by (auto simp: rx_segs_def)

lemma rx_segs_none: "\<forall>p \<in> set l. pdu_sn p \<noteq> sn \<Longrightarrow> rx_segs sn l = []"
  by (auto simp: rx_segs_def filter_empty_conv)

text \<open>They stand together, so a loop over them stops where they end.\<close>

lemma rx_block:
  assumes "rx_sorted pos l"
  obtains A B where "l = A @ rx_segs sn l @ B" "\<forall>p \<in> set A. pdu_sn p \<noteq> sn" "\<forall>p \<in> set B. pdu_sn p \<noteq> sn"
proof -
  have "\<exists>A B. l = A @ rx_segs sn l @ B \<and> (\<forall>p \<in> set A. pdu_sn p \<noteq> sn) \<and> (\<forall>p \<in> set B. pdu_sn p \<noteq> sn)"
    using assms
  proof (induction l)
    case Nil
    then show ?case by simp
  next
    case (Cons x l)
    then obtain A B where l: "l = A @ rx_segs sn l @ B" "\<forall>p \<in> set A. pdu_sn p \<noteq> sn" "\<forall>p \<in> set B. pdu_sn p \<noteq> sn"
      by (auto simp: rx_sorted_def)
    show ?case
    proof (cases "pdu_sn x = sn")
      case False
      then show ?thesis using l by (intro exI[of _ "x # A"] exI[of _ B]) auto
    next
      case True
      have "A = [] \<or> rx_segs sn l = []"
      proof (rule ccontr)
        assume "\<not> (A = [] \<or> rx_segs sn l = [])"
        then obtain a A' s S' where e: "A = a # A'" "rx_segs sn l = s # S'" by (meson neq_Nil_conv)
        then have s: "pdu_sn s = sn" using rx_segs_set[of s sn l] by simp
        have "sorted_wrt (\<lambda>a b. sn_so_le pos (pdu_sn a, pdu_so a) (pdu_sn b, pdu_so b)) (x # (a # A') @ (s # S') @ B)"
          using Cons.prems l(1) e by (simp add: rx_sorted_def)
        then have "sn_so_le pos (pdu_sn x, pdu_so x) (pdu_sn a, pdu_so a)" "sn_so_le pos (pdu_sn a, pdu_so a) (pdu_sn s, pdu_so s)"
          by (auto simp: sorted_wrt_append)
        moreover have "pdu_sn a \<noteq> sn" using l(2) e(1) by simp
        ultimately show False using True s by (auto simp: sn_so_le_def)
      qed
      then show ?thesis
      proof
        assume "A = []"
        then show ?thesis using l True by (intro exI[of _ "[]"] exI[of _ B]) auto
      next
        assume n: "rx_segs sn l = []"
        then show ?thesis using l True by (intro exI[of _ "[]"] exI[of _ "A @ B"]) auto
      qed
    qed
  qed
  then show thesis using that by blast
qed

lemma rx_segs_sorted:
  assumes "rx_sorted pos l"
  shows "sorted (map pdu_so (rx_segs sn l))"
proof -
  have "sorted_wrt (\<lambda>a b. sn_so_le pos (pdu_sn a, pdu_so a) (pdu_sn b, pdu_so b)) (rx_segs sn l)"
    using assms unfolding rx_sorted_def rx_segs_def by (rule sorted_wrt_filter)
  then have "sorted_wrt (\<lambda>a b. pdu_so a \<le> pdu_so b) (rx_segs sn l)"
    by (rule sorted_wrt_mono_rel[rotated]) (auto simp: rx_segs_set sn_so_le_def)
  then show ?thesis by (simp add: sorted_map)
qed

lemma rx_from_block:
  assumes "l = A @ S @ B" "\<forall>p \<in> set A. pdu_sn p \<noteq> sn" "\<forall>p \<in> set S. pdu_sn p = sn" "\<forall>p \<in> set B. pdu_sn p \<noteq> sn"
  shows "rx_from sn l = (if S = [] then [] else S @ B)" "S \<noteq> [] \<Longrightarrow> takeWhile (\<lambda>p. pdu_sn p \<noteq> sn) l = A"
proof -
  have a: "dropWhile (\<lambda>p. pdu_sn p \<noteq> sn) (A @ x) = dropWhile (\<lambda>p. pdu_sn p \<noteq> sn) x" for x
    using assms(2) by (simp add: dropWhile_append2)
  show "rx_from sn l = (if S = [] then [] else S @ B)"
    using assms(3,4) unfolding rx_from_def assms(1) a by (cases S) (auto simp: dropWhile_eq_Nil_conv)
  show "S \<noteq> [] \<Longrightarrow> takeWhile (\<lambda>p. pdu_sn p \<noteq> sn) l = A"
    using assms(2,3) unfolding assms(1) by (cases S) (auto simp: takeWhile_append2 takeWhile_eq_all_conv)
qed

section \<open>The duplicate test\<close>

definition covered :: "nr_rlc_pdu list \<Rightarrow> int \<Rightarrow> int \<Rightarrow> bool" where
  "covered s a b \<longleftrightarrow> (\<forall>i. a \<le> i \<and> i < b \<longrightarrow> (\<exists>p \<in> set s. pdu_so p \<le> i \<and> i < pdu_end p))"

lemma covered_empty: "b \<le> a \<Longrightarrow> covered s a b"
  by (auto simp: covered_def)

lemma covered_bytes: "covered (rx_segs sn l) a b \<longleftrightarrow> (\<forall>i. a \<le> i \<and> i < b \<longrightarrow> byte_covered l sn i)"
  by (simp add: covered_def byte_covered_def rx_segs_def) blast

lemma covered_mono: "covered s a b \<Longrightarrow> set s \<subseteq> set t \<Longrightarrow> covered t a b"
  unfolding covered_def by blast

text \<open>Splitting off the first segment, in the order of offsets.\<close>

lemma covered_Cons:
  assumes "pdu_so p \<le> a"
  shows "covered (p # s) a b \<longleftrightarrow> covered s (max a (pdu_end p)) b"
proof
  assume c: "covered (p # s) a b"
  show "covered s (max a (pdu_end p)) b"
    unfolding covered_def
  proof (intro allI impI)
    fix i assume "max a (pdu_end p) \<le> i \<and> i < b"
    then show "\<exists>p \<in> set s. pdu_so p \<le> i \<and> i < pdu_end p" using c by (auto simp: covered_def)
  qed
next
  assume c: "covered s (max a (pdu_end p)) b"
  show "covered (p # s) a b"
    unfolding covered_def
  proof (intro allI impI)
    fix i assume i: "a \<le> i \<and> i < b"
    show "\<exists>q \<in> set (p # s). pdu_so q \<le> i \<and> i < pdu_end q"
      using c i assms by (cases "i < pdu_end p") (auto simp: covered_def)
  qed
qed

lemma covered_first:
  assumes "covered (p # s) a b" "a < b" "\<forall>q \<in> set s. pdu_so p \<le> pdu_so q"
  shows "pdu_so p \<le> a"
  using assms unfolding covered_def by force

lemma already_received_complete:
  "sorted (map pdu_so (rx_segs sn l)) \<Longrightarrow> covered (rx_segs sn l) so (so + sz) \<Longrightarrow> already_received_loop l sn so sz"
proof (induction l sn so sz rule: already_received_loop.induct)
  case (1 sn so sz)
  then show ?case by (auto simp: covered_def)
next
  case (2 p ls sn so sz)
  show ?case
  proof (cases "sz \<le> 0 \<or> pdu_sn p \<noteq> sn")
    case True
    then show ?thesis using 2 by (cases "sz \<le> 0") auto
  next
    case False
    then have sn: "pdu_sn p = sn" and sz: "\<not> sz \<le> 0" by auto
    have so: "sorted (map pdu_so (rx_segs sn ls))" "\<forall>q \<in> set (rx_segs sn ls). pdu_so p \<le> pdu_so q"
      using 2(5) sn by auto
    have cov: "covered (p # rx_segs sn ls) so (so + sz)" using 2(6) sn by simp
    have le: "pdu_so p \<le> so" by (rule covered_first[OF cov _ so(2)]) (use sz in simp)
    note c = cov[unfolded covered_Cons[OF le]]
    show ?thesis
    proof (cases "so < pdu_end p")
      case True
      let ?k = "pdu_size p - (so - pdu_so p)"
      have eq: "so + ?k = pdu_end p" by (simp add: pdu_end_def)
      have "covered (rx_segs sn ls) (so + ?k) (so + ?k + (sz - ?k))"
      proof -
        have "so + ?k + (sz - ?k) = so + sz" by simp
        moreover have "max so (pdu_end p) = pdu_end p" using True by simp
        ultimately show ?thesis using c by (metis eq)
      qed
      then show ?thesis using 2(1)[OF sz sn _ refl so(1)] True le sz sn by (simp add: pdu_end_def Let_def)
    next
      case False
      have "covered (rx_segs sn ls) so (so + sz)" using c False by (simp add: max_def split: if_splits)
      then show ?thesis using 2(3)[OF sz sn _ _ so(1)] False le sz sn by (simp add: pdu_end_def)
    qed
  qed
qed

lemma already_received_iff:
  assumes "sorted (map pdu_so (rx_segs sn l))"
  shows "already_received_loop l sn so sz \<longleftrightarrow> covered (rx_segs sn l) so (so + sz)"
proof
  show "already_received_loop l sn so sz \<Longrightarrow> covered (rx_segs sn l) so (so + sz)"
    using already_received_loop_sound[of l sn so sz] by (simp add: covered_bytes)
qed (rule already_received_complete[OF assms])


section \<open>The completeness test and the reassembly\<close>

text \<open>A segment of the SDU \<open>d\<close>, with its data or, after the delivery, without.\<close>

definition seg_of :: "byte list \<Rightarrow> nr_rlc_pdu \<Rightarrow> bool" where
  "seg_of d p \<longleftrightarrow>
     0 \<le> pdu_so p \<and> 0 < pdu_size p \<and> pdu_end p \<le> int (length d)
     \<and> (pdu_is_last p \<longleftrightarrow> pdu_end p = int (length d))
     \<and> (\<forall>x. pdu_data p = Some x \<longrightarrow> x = take (nat (pdu_size p)) (drop (nat (pdu_so p)) d))"

lemma full_loop_covered:
  assumes "sorted (map pdu_so s)" "\<forall>p \<in> set s. pdu_sn p = sn \<and> seg_of d p" "B \<noteq> [] \<Longrightarrow> pdu_sn (hd B) \<noteq> sn"
    and "a < int (length d)"
  shows "full_loop sn (s @ B) (a - 1) \<longleftrightarrow> covered s a (int (length d))"
  using assms
proof (induction s arbitrary: a)
  case Nil
  then have "\<not> full_loop sn B (a - 1)" by (cases B) auto
  moreover have "\<not> covered [] a (int (length d))" using Nil(4) by (auto simp: covered_def)
  ultimately show ?case by simp
next
  case (Cons p s)
  have p: "pdu_sn p = sn" "seg_of d p" using Cons.prems(2) by auto
  show ?case
  proof (cases "pdu_so p \<le> a")
    case False
    then have "\<not> covered (p # s) a (int (length d))"
      using covered_first[of p s a "int (length d)"] Cons.prems(1,4) by auto
    then show ?thesis using False p(1) by simp
  next
    case True
    note c = covered_Cons[OF True]
    show ?thesis
    proof (cases "pdu_is_last p")
      case last: True
      then have "covered (p # s) a (int (length d))" using p(2) unfolding c by (simp add: seg_of_def covered_empty)
      then show ?thesis using True p(1) last by simp
    next
      case False
      have e: "max (a - 1) (pdu_so p + pdu_size p - 1) = max a (pdu_end p) - 1" by (simp add: pdu_end_def)
      have "pdu_end p < int (length d)" using p(2) False by (auto simp: seg_of_def)
      then have "full_loop sn (s @ B) (max a (pdu_end p) - 1) \<longleftrightarrow> covered s (max a (pdu_end p)) (int (length d))"
        using Cons.prems by (intro Cons.IH) auto
      then show ?thesis using True False p(1) unfolding c by (simp add: e)
    qed
  qed
qed

lemma reassemble_covered:
  assumes "sorted (map pdu_so s)" "\<forall>p \<in> set s. pdu_sn p = sn \<and> seg_of d p \<and> pdu_data p \<noteq> None"
    "B \<noteq> [] \<Longrightarrow> pdu_sn (hd B) \<noteq> sn" "int (length d) \<le> NR_SDU_MAX"
    and "covered s (int a) (int (length d))" "a \<le> length d"
  shows "reassemble_loop f sn (s @ B) (take a d) False r
         = Inr (map f s @ B, d, False, r - sum_list (map pdu_size s))"
  using assms
proof (induction s arbitrary: a r)
  case Nil
  then have "a = length d" by (force simp: covered_def)
  then show ?case using Nil(3) by (cases B) auto
next
  case (Cons p s)
  have p: "pdu_sn p = sn" "seg_of d p" "pdu_data p \<noteq> None" using Cons.prems(2) by auto
  have le: "pdu_so p \<le> int a"
  proof (cases "int a < int (length d)")
    case True
    show ?thesis by (rule covered_first[OF Cons.prems(5) True]) (use Cons.prems(1) in auto)
  next
    case False
    then show ?thesis using p(2) by (simp add: seg_of_def pdu_end_def)
  qed
  define e where "e = nat (max (int a) (pdu_end p))"
  have e: "int e = max (int a) (pdu_end p)" "e \<le> length d" "a \<le> e"
    using p(2) Cons.prems(6) by (auto simp: e_def seg_of_def)
  have so: "0 \<le> pdu_so p" "pdu_end p \<le> int (length d)" "0 < pdu_size p" using p(2) by (simp_all add: seg_of_def)
  have cov: "covered s (int e) (int (length d))" using Cons.prems(5) unfolding covered_Cons[OF le] e(1) .
  have IH: "reassemble_loop f sn (s @ B) (take e d) False (r - pdu_size p)
      = Inr (map f s @ B, d, False, r - pdu_size p - sum_list (map pdu_size s))"
    by (rule Cons.IH[OF _ _ _ _ cov e(2)]) (use Cons.prems in auto)
  have la: "length (take a d) = a" using Cons.prems(6) by simp
  let ?len = "pdu_size p - (int a - pdu_so p)"
  have len: "int a + ?len = pdu_end p" by (simp add: pdu_end_def)
  have small: "\<not> int a + ?len > NR_SDU_MAX" using so(2) Cons.prems(4) unfolding len by simp
  have copy: "(if ?len > 0 then case pdu_data p of None \<Rightarrow> Inl Null_deref
        | Some x \<Rightarrow> rbind (c_read x (int a - pdu_so p) ?len) (\<lambda>bs. Inr (take a d @ bs))
      else Inr (take a d)) = Inr (take e d)"
  proof (cases "?len > 0")
    case False
    then have "e = a" using e len by (auto simp: e_def)
    then show ?thesis using False by simp
  next
    case True
    obtain x where xd: "pdu_data p = Some x" using p(3) by (cases "pdu_data p") simp_all
    have x: "pdu_data p = Some x" "x = take (nat (pdu_size p)) (drop (nat (pdu_so p)) d)"
      using p(2) xd unfolding seg_of_def by blast+
    have lx: "int (length x) = pdu_size p" using so unfolding x(2) by (simp add: pdu_end_def)
    have ee: "e = a + nat ?len" "nat (pdu_so p) + nat (int a - pdu_so p) = a" "nat ?len \<le> nat (pdu_size p) - nat (int a - pdu_so p)"
      using True len le so(1) by (auto simp: e_def)
    have "take (nat ?len) (drop (nat (int a - pdu_so p)) x) = take (nat ?len) (drop a d)"
      using ee(3) ee(2) unfolding x(2) by (simp only: drop_take drop_drop take_take min_absorb1 add.commute)
    moreover have "c_read x (int a - pdu_so p) ?len = Inr (take (nat ?len) (drop (nat (int a - pdu_so p)) x))"
      by (rule c_read_ok) (use True le lx so in auto)
    ultimately show ?thesis using True x(1) by (simp add: ee(1) take_add)
  qed
  show ?case
    unfolding append_Cons list.map sum_list.Cons diff_diff_add[symmetric]
    by (simp only: reassemble_loop.simps p(1) la small copy IH Let_def rbind_Inr prod.case if_False if_True simp_thms)
qed

end
