(* ===== verification/Rlc_Am_Reassembly.thy ===== *)
theory Rlc_Am_Reassembly
  imports Rlc_Am_Wire Rlc_Reassembly
begin

text \<open>
  The reception list of an AM entity that is fed with segments of a sequence of SDUs: storing a
  segment, reassembling a complete SDU, stepping over delivered SDUs and freeing them keep the list
  ordered and complete.

  The SDUs are numbered without wrap-around by a ghost index \<open>n\<close>; on the wire the index is the
  sequence number \<open>n mod m\<close>. The reception window starts at the index \<open>base\<close>.
\<close>

section \<open>Indexes and sequence numbers\<close>

definition rx_idx :: "int \<Rightarrow> int \<Rightarrow> int \<Rightarrow> int" where
  "rx_idx m base sn = base + circ_dist m base sn"

lemma rx_idx_range: "0 < m \<Longrightarrow> base \<le> rx_idx m base sn \<and> rx_idx m base sn < base + m"
  using circ_dist_range[of m base sn] by (simp add: rx_idx_def)

lemma rx_idx_mod: "0 \<le> sn \<Longrightarrow> sn < m \<Longrightarrow> rx_idx m base sn mod m = sn"
  by (simp add: rx_idx_def circ_dist_def mod_add_right_eq)

lemma rx_idx_of: "base \<le> n \<Longrightarrow> n < base + m \<Longrightarrow> rx_idx m base (n mod m) = n"
  by (simp add: rx_idx_def circ_dist_def mod_diff_left_eq mod_pos_pos_trivial)

lemma rx_idx_eq_iff:
  assumes "0 \<le> sn" "sn < m" "base \<le> n" "n < base + m"
  shows "rx_idx m base sn = n \<longleftrightarrow> sn = n mod m"
  using rx_idx_mod[OF assms(1,2), of base] rx_idx_of[OF assms(3,4)] by auto

lemma rx_idx_rebase:
  assumes "0 \<le> sn" "sn < m" "base \<le> base'" "base' \<le> rx_idx m base sn"
  shows "rx_idx m base' sn = rx_idx m base sn"
proof -
  have "rx_idx m base sn < base + m" using assms(1,2) by (intro rx_idx_range[THEN conjunct2]) simp
  then have "rx_idx m base' (rx_idx m base sn mod m) = rx_idx m base sn"
    using assms(3,4) by (intro rx_idx_of) auto
  then show ?thesis by (simp add: rx_idx_mod[OF assms(1,2)])
qed

lemma rx_idx_base: "rx_idx m (base) (base mod m) = base"
  by (simp add: rx_idx_def circ_dist_def mod_diff_left_eq)

lemma circ_dist_base_mod: "circ_dist m (base mod m) sn = circ_dist m base sn"
  by (simp add: circ_dist_def mod_diff_right_eq)

section \<open>The reception list\<close>

text \<open>
  Every stored segment is a segment of the SDU of its index, in the window and in order; it is
  without data exactly when the SDU has been delivered (\<open>N\<close> is the set of delivered indexes).
\<close>

definition rx_list_ok :: "int \<Rightarrow> (int \<Rightarrow> byte list) \<Rightarrow> int \<Rightarrow> int \<Rightarrow> int set \<Rightarrow> nr_rlc_pdu list \<Rightarrow> bool" where
  "rx_list_ok m D base hi N l \<longleftrightarrow>
     (\<forall>p \<in> set l. 0 \<le> pdu_sn p \<and> pdu_sn p < m \<and> rx_idx m base (pdu_sn p) < hi
        \<and> seg_of (D (rx_idx m base (pdu_sn p))) p
        \<and> (pdu_data p = None \<longleftrightarrow> rx_idx m base (pdu_sn p) \<in> N))
     \<and> rx_sorted (rx_idx m base) l"

text \<open>The delivered SDUs are exactly the complete ones.\<close>

definition rx_complete :: "int \<Rightarrow> (int \<Rightarrow> byte list) \<Rightarrow> nr_rlc_pdu list \<Rightarrow> int \<Rightarrow> bool" where
  "rx_complete m D l n \<longleftrightarrow> covered (rx_segs (n mod m) l) 0 (int (length (D n)))"

definition rx_ok :: "int \<Rightarrow> (int \<Rightarrow> byte list) \<Rightarrow> int \<Rightarrow> int \<Rightarrow> int set \<Rightarrow> nr_rlc_pdu list \<Rightarrow> bool" where
  "rx_ok m D base hi N l \<longleftrightarrow>
     rx_list_ok m D base hi N l \<and> (\<forall>n. base \<le> n \<and> n < hi \<longrightarrow> (n \<in> N \<longleftrightarrow> rx_complete m D l n))"

definition sdus_ok :: "(int \<Rightarrow> byte list) \<Rightarrow> bool" where
  "sdus_ok D \<longleftrightarrow> (\<forall>n. D n \<noteq> [] \<and> int (length (D n)) \<le> NR_SDU_MAX)"

lemma rx_list_okD:
  assumes "rx_list_ok m D base hi N l" "p \<in> set l"
  shows "0 \<le> pdu_sn p" "pdu_sn p < m" "rx_idx m base (pdu_sn p) < hi" "base \<le> rx_idx m base (pdu_sn p)"
    "seg_of (D (rx_idx m base (pdu_sn p))) p" "pdu_data p = None \<longleftrightarrow> rx_idx m base (pdu_sn p) \<in> N"
  using assms rx_idx_range[of m base "pdu_sn p"] by (auto simp: rx_list_ok_def)

lemma rx_segs_idx:
  assumes "rx_list_ok m D base hi N l" "base \<le> n" "n < base + m" "p \<in> set (rx_segs (n mod m) l)"
  shows "p \<in> set l" "pdu_sn p = n mod m" "rx_idx m base (pdu_sn p) = n" "seg_of (D n) p" "pdu_data p = None \<longleftrightarrow> n \<in> N"
proof -
  show p: "p \<in> set l" "pdu_sn p = n mod m" using assms(4) by (simp_all add: rx_segs_set)
  then show i: "rx_idx m base (pdu_sn p) = n" using assms(2,3) by (simp add: rx_idx_of)
  show "seg_of (D n) p" "pdu_data p = None \<longleftrightarrow> n \<in> N"
    using rx_list_okD(5,6)[OF assms(1) p(1)] unfolding i .
qed

lemma complete_some:
  assumes "rx_complete m D l n" "sdus_ok D"
  shows "rx_segs (n mod m) l \<noteq> []"
  using assms by (auto simp: rx_complete_def covered_def sdus_ok_def intro: exI[of _ 0])

lemma rx_delivered_iff:
  assumes "rx_list_ok m D base hi N l" "base \<le> n" "n < base + m"
  shows "rx_sdu_delivered l (n mod m) \<longleftrightarrow> n \<in> N \<and> rx_segs (n mod m) l \<noteq> []"
proof -
  have "rx_sorted (rx_idx m base) l" using assms(1) by (simp add: rx_list_ok_def)
  then obtain A B where l: "l = A @ rx_segs (n mod m) l @ B" "\<forall>p \<in> set A. pdu_sn p \<noteq> n mod m"
    "\<forall>p \<in> set B. pdu_sn p \<noteq> n mod m" by (rule rx_block)
  have "rx_from (n mod m) l = (if rx_segs (n mod m) l = [] then [] else rx_segs (n mod m) l @ B)"
    by (rule rx_from_block(1)[OF l(1,2) _ l(3)]) (simp add: rx_segs_set)
  moreover have "pdu_data p = None \<longleftrightarrow> n \<in> N" if "p \<in> set (rx_segs (n mod m) l)" for p
    using rx_segs_idx(5)[OF assms that] .
  ultimately show ?thesis by (cases "rx_segs (n mod m) l") (auto simp: rx_sdu_delivered_def)
qed

lemma rx_full_iff:
  assumes "rx_list_ok m D base hi N l" "base \<le> n" "n < base + m" "sdus_ok D"
  shows "rx_sdu_full l (n mod m) \<longleftrightarrow> n \<notin> N \<and> rx_complete m D l n"
proof -
  let ?s = "rx_segs (n mod m) l"
  have sorted: "rx_sorted (rx_idx m base) l" using assms(1) by (simp add: rx_list_ok_def)
  then obtain A B where l: "l = A @ ?s @ B" "\<forall>p \<in> set A. pdu_sn p \<noteq> n mod m"
    "\<forall>p \<in> set B. pdu_sn p \<noteq> n mod m" by (rule rx_block)
  have f: "rx_from (n mod m) l = (if ?s = [] then [] else ?s @ B)"
    by (rule rx_from_block(1)[OF l(1,2) _ l(3)]) (simp add: rx_segs_set)
  note s = rx_segs_idx[OF assms(1-3)]
  have "full_loop (n mod m) (?s @ B) (0 - 1) \<longleftrightarrow> covered ?s 0 (int (length (D n)))"
  proof (rule full_loop_covered[OF rx_segs_sorted[OF sorted]])
    show "\<forall>p \<in> set ?s. pdu_sn p = n mod m \<and> seg_of (D n) p" using s(2,4) by blast
    show "B \<noteq> [] \<Longrightarrow> pdu_sn (hd B) \<noteq> n mod m" using l(3) by simp
  qed (use assms(4) in \<open>simp add: sdus_ok_def\<close>)
  then show ?thesis
    using f s(5) complete_some[of m D l n] assms(4)
    by (cases ?s) (auto simp: rx_sdu_full_def rx_complete_def)
qed

text \<open>What consuming the segments of one number does to the list.\<close>

definition rx_consume :: "int \<Rightarrow> nr_rlc_pdu list \<Rightarrow> nr_rlc_pdu list" where
  "rx_consume sn l = map (\<lambda>p. if pdu_sn p = sn then am_consume p else p) l"

lemma am_consume_simps [simp]:
  "pdu_sn (am_consume p) = pdu_sn p" "pdu_so (am_consume p) = pdu_so p" "pdu_size (am_consume p) = pdu_size p"
  "pdu_end (am_consume p) = pdu_end p" "pdu_data (am_consume p) = None" "pdu_is_last (am_consume p) = pdu_is_last p"
  by (simp_all add: am_consume_def pdu_end_def)

lemma seg_of_consume: "seg_of d p \<Longrightarrow> seg_of d (am_consume p)"
  by (simp add: seg_of_def)

lemma covered_map: "(\<And>p. p \<in> set s \<Longrightarrow> pdu_so (f p) = pdu_so p \<and> pdu_end (f p) = pdu_end p) \<Longrightarrow>
   covered (map f s) a b \<longleftrightarrow> covered s a b"
  by (auto simp: covered_def)

lemma rx_segs_map:
  "(\<And>p. p \<in> set l \<Longrightarrow> pdu_sn (f p) = pdu_sn p) \<Longrightarrow> rx_segs sn (map f l) = map f (rx_segs sn l)"
  by (induction l) auto

lemma rx_complete_consume: "rx_complete m D (rx_consume sn l) n \<longleftrightarrow> rx_complete m D l n"
  unfolding rx_complete_def rx_consume_def by (subst rx_segs_map) (auto intro!: covered_map)

lemma rx_sorted_map:
  "(\<And>p. p \<in> set l \<Longrightarrow> pdu_sn (f p) = pdu_sn p \<and> pdu_so (f p) = pdu_so p) \<Longrightarrow> rx_sorted pos (map f l) \<longleftrightarrow> rx_sorted pos l"
  unfolding rx_sorted_def by (induction l) auto

lemma rx_list_ok_consume:
  assumes "rx_list_ok m D base hi N l" "base \<le> n" "n < base + m"
  shows "rx_list_ok m D base hi (insert n N) (rx_consume (n mod m) l)"
proof -
  have "rx_sorted (rx_idx m base) (rx_consume (n mod m) l)"
    using assms(1) unfolding rx_consume_def by (subst rx_sorted_map) (auto simp: rx_list_ok_def)
  moreover have "0 \<le> pdu_sn q \<and> pdu_sn q < m \<and> rx_idx m base (pdu_sn q) < hi
      \<and> seg_of (D (rx_idx m base (pdu_sn q))) q \<and> (pdu_data q = None \<longleftrightarrow> rx_idx m base (pdu_sn q) \<in> insert n N)"
    if q: "q \<in> set (rx_consume (n mod m) l)" for q
  proof -
    obtain p where p: "p \<in> set l" "q = (if pdu_sn p = n mod m then am_consume p else p)"
      using q by (auto simp: rx_consume_def)
    note d = rx_list_okD[OF assms(1) p(1)]
    have i: "rx_idx m base (pdu_sn p) = n \<longleftrightarrow> pdu_sn p = n mod m"
      using d(1,2) assms(2,3) by (intro rx_idx_eq_iff)
    show ?thesis
    proof (cases "pdu_sn p = n mod m")
      case True
      then show ?thesis using d(1-3,5) i p(2) by (simp add: seg_of_consume)
    next
      case False
      then show ?thesis using d i p(2) by simp
    qed
  qed
  ultimately show ?thesis unfolding rx_list_ok_def by blast
qed

lemma am_reassemble_ok:
  assumes "rx_list_ok m D base hi N l" "base \<le> n" "n < base + m" "n \<notin> N" "rx_complete m D l n" "sdus_ok D"
  shows "rx_reassemble am_consume l r (n mod m)
         = Inr (rx_consume (n mod m) l, r - sum_list (map pdu_size (rx_segs (n mod m) l)), Some (D n))"
proof -
  let ?s = "rx_segs (n mod m) l"
  have sorted: "rx_sorted (rx_idx m base) l" using assms(1) by (simp add: rx_list_ok_def)
  then obtain A B where l: "l = A @ ?s @ B" "\<forall>p \<in> set A. pdu_sn p \<noteq> n mod m"
    "\<forall>p \<in> set B. pdu_sn p \<noteq> n mod m" by (rule rx_block)
  have ss: "\<forall>p \<in> set ?s. pdu_sn p = n mod m" by (simp add: rx_segs_set)
  have ne: "?s \<noteq> []" by (rule complete_some[OF assms(5,6)])
  have f: "rx_from (n mod m) l = ?s @ B" "takeWhile (\<lambda>p. pdu_sn p \<noteq> n mod m) l = A"
    using rx_from_block[OF l(1,2) ss l(3)] ne by simp_all
  note s = rx_segs_idx[OF assms(1-3)]
  have "reassemble_loop am_consume (n mod m) (?s @ B) (take 0 (D n)) False r
      = Inr (map am_consume ?s @ B, D n, False, r - sum_list (map pdu_size ?s))"
  proof (rule reassemble_covered[OF rx_segs_sorted[OF sorted]])
    show "\<forall>p \<in> set ?s. pdu_sn p = n mod m \<and> seg_of (D n) p \<and> pdu_data p \<noteq> None"
      using s(2,4,5) assms(4) by blast
    show "B \<noteq> [] \<Longrightarrow> pdu_sn (hd B) \<noteq> n mod m" using l(3) by simp
    show "int (length (D n)) \<le> NR_SDU_MAX" using assms(6) by (simp add: sdus_ok_def)
    show "covered ?s (int 0) (int (length (D n)))" using assms(5) by (simp add: rx_complete_def)
  qed simp
  moreover have "rx_consume (n mod m) l = A @ map am_consume ?s @ B"
  proof -
    have "rx_consume (n mod m) l = rx_consume (n mod m) (A @ ?s @ B)" using l(1) by simp
    also have "\<dots> = A @ map am_consume ?s @ B"
      using l(2,3) by (auto simp: rx_consume_def rx_segs_set intro!: map_idI)
    finally show ?thesis .
  qed
  ultimately show ?thesis using f ne by (simp add: rx_reassemble_def)
qed


section \<open>Storing a segment\<close>

lemma rx_segs_add:
  "rx_segs sn (nr_rlc_pdu_list_add c l p)
   = (if pdu_sn p = sn then rx_segs sn (nr_rlc_pdu_list_add c l p) else rx_segs sn l)"
proof -
  have "rx_segs sn (insert_before b p l) = rx_segs sn l" if "pdu_sn p \<noteq> sn" for b
    using that by (induction l) auto
  then show ?thesis by (simp add: nr_rlc_pdu_list_add_def)
qed

lemma rx_complete_add:
  "n mod m \<noteq> pdu_sn p \<Longrightarrow> rx_complete m D (nr_rlc_pdu_list_add c l p) n \<longleftrightarrow> rx_complete m D l n"
  unfolding rx_complete_def by (subst rx_segs_add) simp

text \<open>The comparison of the entity orders by index.\<close>

lemma rx_idx_order:
  assumes "0 \<le> a" "a < am_sn_modulus e" "0 \<le> b" "b < am_sn_modulus e"
    and "am_rx_next e = base mod am_sn_modulus e"
  shows "am_sn_compare_rx e a b = rx_idx (am_sn_modulus e) base a - rx_idx (am_sn_modulus e) base b"
proof -
  have m: "0 < am_sn_modulus e" using assms(1,2) by linarith
  then have "am_sn_ok e (am_rx_next e)" "am_sn_ok e a" "am_sn_ok e b" using assms by (simp_all add: am_sn_ok_def)
  then show ?thesis
    by (simp add: am_sn_compare_rx_def am_modulus_rx_dist assms(5) rx_idx_def circ_dist_base_mod)
qed

interpretation am_rx_by_idx: sn_order
  "am_sn_compare_rx e" "rx_idx (am_sn_modulus e) base"
  "\<lambda>a. am_rx_next e = base mod am_sn_modulus e \<and> 0 \<le> a \<and> a < am_sn_modulus e" for e base
proof unfold_locales
  fix a b
  assume a: "am_rx_next e = base mod am_sn_modulus e \<and> 0 \<le> a \<and> a < am_sn_modulus e"
    and b: "am_rx_next e = base mod am_sn_modulus e \<and> 0 \<le> b \<and> b < am_sn_modulus e"
  then show "am_sn_compare_rx e a b = rx_idx (am_sn_modulus e) base a - rx_idx (am_sn_modulus e) base b"
    by (intro rx_idx_order) simp_all
  assume "rx_idx (am_sn_modulus e) base a = rx_idx (am_sn_modulus e) base b"
  then show "a = b" using a b rx_idx_mod by metis
qed

lemma rx_list_ok_add:
  assumes "rx_list_ok m D base hi N l" "m = am_sn_modulus e" "am_rx_next e = base mod m"
    and "base \<le> n" "n < hi" "hi \<le> base + m" "n \<notin> N"
    and "pdu_sn p = n mod m" "seg_of (D n) p" "pdu_data p \<noteq> None"
  shows "rx_list_ok m D base hi N (nr_rlc_pdu_list_add (am_sn_compare_rx e) l p)"
proof -
  have m: "0 < m" using assms(4-6) by linarith
  have i: "rx_idx m base (pdu_sn p) = n" using assms by (simp add: rx_idx_of)
  have "rx_sorted (rx_idx m base) (nr_rlc_pdu_list_add (am_sn_compare_rx e) l p)"
    unfolding rx_sorted_def assms(2)
  proof (rule am_rx_by_idx.pdu_list_add_sorted)
    show "am_rx_next e = base mod am_sn_modulus e \<and> 0 \<le> pdu_sn p \<and> pdu_sn p < am_sn_modulus e"
      using assms(2,3,8) m by simp
    show "am_rx_next e = base mod am_sn_modulus e \<and> 0 \<le> pdu_sn y \<and> pdu_sn y < am_sn_modulus e"
      if "y \<in> set l" for y using assms(2,3) rx_list_okD(1,2)[OF assms(1) that] by simp
  qed (use assms(1,2) in \<open>simp add: rx_list_ok_def rx_sorted_def\<close>)
  moreover have "0 \<le> pdu_sn p \<and> pdu_sn p < m \<and> rx_idx m base (pdu_sn p) < hi
      \<and> seg_of (D (rx_idx m base (pdu_sn p))) p \<and> (pdu_data p = None \<longleftrightarrow> rx_idx m base (pdu_sn p) \<in> N)"
    unfolding i using assms(5,7,9,10) m by (simp add: assms(8))
  ultimately show ?thesis using assms(1)[unfolded rx_list_ok_def, THEN conjunct1]
    by (simp only: rx_list_ok_def set_nr_rlc_pdu_list_add ball_simps(7) simp_thms)
qed

section \<open>Stepping over delivered SDUs\<close>

lemma skip_delivered_ends:
  assumes "\<not> rx_sdu_delivered l ((sn + int k) mod m)" "k < fuel" "0 \<le> sn" "sn < m"
  shows "\<exists>sn'. skip_delivered l m fuel sn = Inr sn' \<and> 0 \<le> sn' \<and> sn' < m \<and> \<not> rx_sdu_delivered l sn'"
  using assms
proof (induction fuel arbitrary: sn k)
  case 0
  then show ?case by simp
next
  case (Suc fuel)
  show ?case
  proof (cases "rx_sdu_delivered l sn")
    case False
    then show ?thesis using Suc.prems by simp
  next
    case True
    then have "k \<noteq> 0" using Suc.prems(1,3,4) by (cases "k = 0") auto
    then obtain j where k: "k = Suc j" by (cases k) auto
    have "\<exists>sn'. skip_delivered l m fuel ((sn + 1) mod m) = Inr sn' \<and> 0 \<le> sn' \<and> sn' < m \<and> \<not> rx_sdu_delivered l sn'"
    proof (rule Suc.IH)
      show "\<not> rx_sdu_delivered l (((sn + 1) mod m + int j) mod m)"
      proof -
        have "((sn + 1) mod m + int j) mod m = (sn + int k) mod m" unfolding mod_add_left_eq by (simp add: k ac_simps)
        then show ?thesis using Suc.prems(1) by simp
      qed
    qed (use Suc.prems k in auto)
    then show ?thesis using True by simp
  qed
qed

lemma skip_delivered_ok:
  assumes "rx_list_ok m D base hi N l" "hi < base + m" "0 \<le> sn" "sn < m"
  shows "\<exists>sn'. skip_delivered l m (nat m) sn = Inr sn' \<and> 0 \<le> sn' \<and> sn' < m \<and> \<not> rx_sdu_delivered l sn'"
proof (rule skip_delivered_ends)
  define k where "k = nat ((base + m - 1 - sn) mod m)"
  have "int k = (base + m - 1 - sn) mod m" using assms(3,4) by (simp add: k_def)
  then have "(sn + int k) mod m = (sn + (base + m - 1 - sn)) mod m" by (simp only: mod_add_right_eq)
  moreover have "sn + (base + m - 1 - sn) = base + m - 1" by linarith
  ultimately have "(sn + int k) mod m = (base + m - 1) mod m" by (simp only:)
  moreover have "\<not> rx_sdu_delivered l ((base + m - 1) mod m)"
  proof -
    have "rx_segs ((base + m - 1) mod m) l = []"
    proof (rule rx_segs_none, rule ballI, rule notI)
      fix p assume p: "p \<in> set l" "pdu_sn p = (base + m - 1) mod m"
      then have "rx_idx m base (pdu_sn p) = base + m - 1" using assms(3,4) by (simp add: rx_idx_of)
      then show False using rx_list_okD(3)[OF assms(1) p(1)] assms(2) by simp
    qed
    then show ?thesis using rx_delivered_iff[OF assms(1), of "base + m - 1"] assms(3,4) by simp
  qed
  ultimately show "\<not> rx_sdu_delivered l ((sn + int k) mod m)" by simp
  show "k < nat m" using assms(3,4) by (simp add: k_def nat_less_iff)
qed (use assms in simp_all)

section \<open>Freeing delivered SDUs\<close>

definition unconsumed :: "nr_rlc_pdu list \<Rightarrow> int" where
  "unconsumed l = sum_list (map pdu_size (filter (\<lambda>p. pdu_data p \<noteq> None) l))"

lemma unconsumed_simps [simp]:
  "unconsumed [] = 0" "unconsumed (p # l) = (if pdu_data p = None then unconsumed l else pdu_size p + unconsumed l)"
  "unconsumed (l @ l') = unconsumed l + unconsumed l'"
  by (simp_all add: unconsumed_def)

lemma unconsumed_none: "(\<forall>p \<in> set l. pdu_data p = None) \<Longrightarrow> unconsumed l = 0"
  by (induction l) auto

lemma unconsumed_add:
  "pdu_data p \<noteq> None \<Longrightarrow> unconsumed (nr_rlc_pdu_list_add c l p) = pdu_size p + unconsumed l"
proof -
  have "unconsumed (insert_before b p l) = pdu_size p + unconsumed l" if "pdu_data p \<noteq> None" for b
    using that by (induction l) auto
  then show "pdu_data p \<noteq> None \<Longrightarrow> ?thesis" by (simp add: nr_rlc_pdu_list_add_def)
qed

lemma unconsumed_consume:
  "(\<forall>p \<in> set (rx_segs sn l). pdu_data p \<noteq> None) \<Longrightarrow>
   unconsumed (rx_consume sn l) = unconsumed l - sum_list (map pdu_size (rx_segs sn l))"
  by (induction l) (auto simp: rx_consume_def)

lemma rx_list_ok_rebase:
  assumes "rx_list_ok m D base hi N l" "base \<le> base'" "\<forall>p \<in> set l. base' \<le> rx_idx m base (pdu_sn p)"
  shows "rx_list_ok m D base' hi N l"
proof -
  have eq: "rx_idx m base' (pdu_sn p) = rx_idx m base (pdu_sn p)" if "p \<in> set l" for p
    using rx_list_okD(1,2)[OF assms(1) that] assms(2,3) that by (intro rx_idx_rebase) auto
  have "rx_sorted (rx_idx m base') l"
  proof -
    have "sorted_wrt (\<lambda>a b. sn_so_le (rx_idx m base) (pdu_sn a, pdu_so a) (pdu_sn b, pdu_so b)) l"
      using assms(1) by (simp add: rx_list_ok_def rx_sorted_def)
    then show ?thesis unfolding rx_sorted_def
      by (rule sorted_wrt_mono_rel[rotated]) (simp add: sn_so_le_def eq)
  qed
  moreover have "0 \<le> pdu_sn p \<and> pdu_sn p < m \<and> rx_idx m base' (pdu_sn p) < hi
      \<and> seg_of (D (rx_idx m base' (pdu_sn p))) p \<and> (pdu_data p = None \<longleftrightarrow> rx_idx m base' (pdu_sn p) \<in> N)"
    if "p \<in> set l" for p
    unfolding eq[OF that] using rx_list_okD[OF assms(1) that] by simp
  ultimately show ?thesis unfolding rx_list_ok_def by blast
qed

lemma rx_list_ok_suffix:
  assumes "rx_list_ok m D base hi N (A @ B)"
  shows "rx_list_ok m D base hi N B"
  using assms by (auto simp: rx_list_ok_def rx_sorted_def sorted_wrt_append)

lemma rx_idx_mod_neq:
  fixes m :: int
  assumes "0 < m" "base < n" "n < base + m"
  shows "n mod m \<noteq> base mod m"
proof
  assume "n mod m = base mod m"
  then have "rx_idx m base (n mod m) = rx_idx m base (base mod m)" by simp
  then show False using assms by (simp add: rx_idx_of)
qed

text \<open>A delivered SDU at the start of the window is at the head of the list.\<close>

lemma rx_ok_head:
  assumes "rx_ok m D base hi N l" "sdus_ok D" "0 < m" "base \<in> N" "base < hi" "hi \<le> base + m"
  obtains S B where "l = S @ B" "S \<noteq> []" "\<forall>p \<in> set S. pdu_sn p = base mod m \<and> pdu_data p = None"
    "\<forall>p \<in> set B. pdu_sn p \<noteq> base mod m"
proof -
  let ?S = "rx_segs (base mod m) l"
  have ok: "rx_list_ok m D base hi N l" and c: "rx_complete m D l base"
    using assms(1,4,5) by (auto simp: rx_ok_def)
  have sorted: "rx_sorted (rx_idx m base) l" using ok by (simp add: rx_list_ok_def)
  then obtain A B where l: "l = A @ ?S @ B" "\<forall>p \<in> set A. pdu_sn p \<noteq> base mod m"
    "\<forall>p \<in> set B. pdu_sn p \<noteq> base mod m" by (rule rx_block)
  have ne: "?S \<noteq> []" by (rule complete_some[OF c assms(2)])
  have s: "pdu_sn p = base mod m" "rx_idx m base (pdu_sn p) = base" "pdu_data p = None" if "p \<in> set ?S" for p
    using rx_segs_idx[OF ok _ _ that] assms(3,4) by simp_all
  have "A = []"
  proof (rule ccontr)
    assume "A \<noteq> []"
    then obtain a A' where a: "A = a # A'" by (cases A) auto
    obtain q S' where q: "?S = q # S'" using ne by (cases ?S) auto
    have "sorted_wrt (\<lambda>x y. sn_so_le (rx_idx m base) (pdu_sn x, pdu_so x) (pdu_sn y, pdu_so y)) ((a # A') @ (q # S') @ B)"
      using sorted l(1) unfolding rx_sorted_def a q by simp
    then have "sn_so_le (rx_idx m base) (pdu_sn a, pdu_so a) (pdu_sn q, pdu_so q)" by simp
    moreover have "a \<in> set l" by (subst l(1)) (simp add: a)
    moreover have "rx_idx m base (pdu_sn q) = base" "pdu_sn q = base mod m" using s(1,2)[of q] q by simp_all
    ultimately show False
      using l(2) a rx_list_okD(4)[OF ok, of a] by (auto simp: sn_so_le_def)
  qed
  then show thesis using that[of ?S B] l ne s by simp
qed

lemma free_delivered_ok:
  assumes "rx_ok m D base hi N l" "sdus_ok D" "0 < m" "\<forall>n \<in> N. n < hi" "base \<le> hi" "hi \<le> base + m"
  shows "\<exists>base' l'. free_delivered m l (base mod m) = (l', base' mod m) \<and> base \<le> base' \<and> base' \<le> hi
     \<and> rx_ok m D base' hi N l' \<and> base' \<notin> N \<and> {base..<base'} \<subseteq> N \<and> unconsumed l' = unconsumed l
     \<and> (\<forall>n. base' \<le> n \<and> n < hi \<longrightarrow> rx_segs (n mod m) l' = rx_segs (n mod m) l)"
  using assms(1,5,6)
proof (induction "length l" arbitrary: base l rule: less_induct)
  case less
  have ok: "rx_list_ok m D base hi N l" using less.prems(1) by (simp add: rx_ok_def)
  show ?case
  proof (cases "base \<in> N")
    case False
    have "free_delivered m l (base mod m) = (l, base mod m)"
    proof (cases l)
      case (Cons p l')
      have "\<not> (pdu_data p = None \<and> pdu_sn p = base mod m)"
        using rx_list_okD(6)[OF ok, of p] Cons False by (auto simp: rx_idx_base)
      then show ?thesis using Cons by auto
    qed simp
    then show ?thesis using False less.prems by (intro exI[of _ base] exI[of _ l]) simp
  next
    case True
    have lt: "base < hi" using True assms(4) by blast
    obtain S B where l: "l = S @ B" "S \<noteq> []" "\<forall>p \<in> set S. pdu_sn p = base mod m \<and> pdu_data p = None"
      "\<forall>p \<in> set B. pdu_sn p \<noteq> base mod m"
      by (rule rx_ok_head[OF less.prems(1) assms(2,3) True lt less.prems(3)])
    obtain q S' where S: "S = q # S'" using l(2) by (cases S) auto
    have dw: "dropWhile (\<lambda>q. pdu_sn q = base mod m) (S' @ B) = B"
      using l(3,4) unfolding S by (subst dropWhile_append2) (auto simp: dropWhile_eq_self_iff)
    have f: "free_delivered m l (base mod m) = free_delivered m B ((base + 1) mod m)"
      using l(3) dw unfolding l(1) S by (simp add: mod_add_left_eq)
    have okB: "rx_list_ok m D base hi N B" using ok unfolding l(1) by (rule rx_list_ok_suffix)
    have "base + 1 \<le> rx_idx m base (pdu_sn p)" if "p \<in> set B" for p
    proof -
      note d = rx_list_okD(1,2,4)[OF okB that]
      have "rx_idx m base (pdu_sn p) \<noteq> base"
      proof
        assume "rx_idx m base (pdu_sn p) = base"
        then have "pdu_sn p = base mod m" using rx_idx_mod[OF d(1,2), of base] by simp
        then show False using l(4) that by blast
      qed
      then show ?thesis using d(3) by linarith
    qed
    then have okB': "rx_list_ok m D (base + 1) hi N B" by (intro rx_list_ok_rebase[OF okB]) simp_all
    have segs: "rx_segs (n mod m) B = rx_segs (n mod m) l" if "base + 1 \<le> n" "n < hi" for n
    proof -
      have "n mod m \<noteq> base mod m" using that less.prems(3) assms(3) by (intro rx_idx_mod_neq) simp_all
      then have "rx_segs (n mod m) S = []" using l(3) by (intro rx_segs_none) auto
      then show ?thesis unfolding l(1) by simp
    qed
    then have "rx_complete m D B n \<longleftrightarrow> rx_complete m D l n" if "base + 1 \<le> n" "n < hi" for n
      using that by (simp add: rx_complete_def)
    then have okB1: "rx_ok m D (base + 1) hi N B"
      using okB' less.prems(1) unfolding rx_ok_def by simp
    have u: "unconsumed B = unconsumed l" using l(3) unconsumed_none[of S] unfolding l(1) by simp
    obtain base' l' where IH: "free_delivered m B ((base + 1) mod m) = (l', base' mod m)" "base + 1 \<le> base'" "base' \<le> hi"
      "rx_ok m D base' hi N l'" "base' \<notin> N" "{base + 1..<base'} \<subseteq> N" "unconsumed l' = unconsumed B"
      "\<forall>n. base' \<le> n \<and> n < hi \<longrightarrow> rx_segs (n mod m) l' = rx_segs (n mod m) B"
      using less.hyps[OF _ okB1] lt less.prems(3) unfolding l(1) S by auto
    moreover have "{base..<base'} \<subseteq> N"
    proof
      fix n assume "n \<in> {base..<base'}"
      then show "n \<in> N" using IH(6) True by (cases "n = base") auto
    qed
    moreover have "\<forall>n. base' \<le> n \<and> n < hi \<longrightarrow> rx_segs (n mod m) l' = rx_segs (n mod m) l"
      using IH(2,8) segs by simp
    ultimately show ?thesis using f u by (intro exI[of _ base'] exI[of _ l']) simp
  qed
qed

text \<open>The window grows with its start: the new indexes have no segment yet.\<close>

lemma rx_ok_extend:
  assumes "rx_ok m D base hi N l" "sdus_ok D" "hi \<le> hi'" "hi' \<le> base + m" "\<forall>n \<in> N. n < hi"
  shows "rx_ok m D base hi' N l"
proof -
  have ok: "rx_list_ok m D base hi N l" using assms(1) by (simp add: rx_ok_def)
  have "n \<notin> N \<and> \<not> rx_complete m D l n" if "base \<le> n" "hi \<le> n" "n < hi'" for n
  proof -
    have "rx_segs (n mod m) l = []"
    proof (rule rx_segs_none, rule ballI, rule notI)
      fix p assume p: "p \<in> set l" "pdu_sn p = n mod m"
      then have "rx_idx m base (pdu_sn p) = n" using that assms(4) by (simp add: rx_idx_of)
      then show False using rx_list_okD(3)[OF ok p(1)] that(2) by simp
    qed
    then show ?thesis using complete_some[OF _ assms(2)] assms(5) that(2) by auto
  qed
  moreover have "rx_list_ok m D base hi' N l"
    using ok assms(3) unfolding rx_list_ok_def by force
  ultimately show ?thesis using assms(1) unfolding rx_ok_def by (meson not_le)
qed

end
