(* ===== verification/Rlc_Am_Store.thy ===== *)
theory Rlc_Am_Store
  imports Rlc_Am_Core Rlc_Wire
begin

text \<open>
  The invariant of the AM transmission lists, over the store alone: \<open>tx\<close> is the list of segments
  never transmitted, \<open>sent\<close> holds the segments of the wait and retransmission lists in any order,
  \<open>lost\<close> the segments no list leads to any more. One lemma per step says how it goes through the
  operations; the entity level adds the order of the lists, their end pointers and the counters.

  A sequence number is in use when its distance from \<open>tx_next_ack\<close> is smaller than the distance
  \<open>n\<close> of \<open>tx_next\<close>.
\<close>

definition sn_used :: "int \<Rightarrow> int \<Rightarrow> int \<Rightarrow> int \<Rightarrow> bool" where
  "sn_used m base n a \<longleftrightarrow> 0 \<le> a \<and> a < m \<and> circ_dist m base a < n"

definition sn_unique :: "sdu_heap \<Rightarrow> nr_rlc_sdu_segment list \<Rightarrow> bool" where
  "sn_unique h l \<longleftrightarrow>
     (\<forall>s \<in> set l. \<forall>t \<in> set l.
        sdu_sn (sdu_of h s) = sdu_sn (sdu_of h t) \<longrightarrow> sdu_sn (sdu_of h s) = - 1 \<or> seg_sdu s = seg_sdu t)"

lemma sn_unique_sub: "sn_unique h l \<Longrightarrow> set l' \<subseteq> set l \<Longrightarrow> sn_unique h l'"
  unfolding sn_unique_def by blast

lemma sn_unique_cong:
  assumes "\<And>t. t \<in> set l \<Longrightarrow> sdu_sn (sdu_of h' t) = sdu_sn (sdu_of h t)"
  shows "sn_unique h' l = sn_unique h l"
  unfolding sn_unique_def by (simp add: assms cong: ball_cong)

lemma sn_unique_add:
  assumes "sn_unique h l"
    and "\<And>t. t \<in> set l \<Longrightarrow> sdu_sn (sdu_of h t) = sdu_sn (sdu_of h x) \<Longrightarrow>
           sdu_sn (sdu_of h x) = - 1 \<or> seg_sdu t = seg_sdu x"
  shows "sn_unique h (x # l)"
  unfolding sn_unique_def
proof (intro ballI impI)
  fix s t
  assume st: "s \<in> set (x # l)" "t \<in> set (x # l)" and eq: "sdu_sn (sdu_of h s) = sdu_sn (sdu_of h t)"
  show "sdu_sn (sdu_of h s) = - 1 \<or> seg_sdu s = seg_sdu t"
  proof (cases "s = x")
    case True
    then show ?thesis using st(2) eq assms(2)[of t] by (cases "t = x") auto
  next
    case False
    then show ?thesis using st eq assms(2)[of s] assms(1) unfolding sn_unique_def
      by (cases "t = x") simp_all
  qed
qed

definition tx_seg_ok :: "int \<Rightarrow> int \<Rightarrow> int \<Rightarrow> sdu_heap \<Rightarrow> nr_rlc_sdu_segment \<Rightarrow> bool" where
  "tx_seg_ok m base n h s \<longleftrightarrow>
     (if seg_is_first s then seg_is_last s \<and> sdu_sn (sdu_of h s) = - 1
      else sn_used m base n (sdu_sn (sdu_of h s)))"

definition am_core ::
  "int \<Rightarrow> int \<Rightarrow> int \<Rightarrow> sdu_heap \<Rightarrow> nr_rlc_sdu_segment list \<Rightarrow> nr_rlc_sdu_segment list
   \<Rightarrow> nr_rlc_sdu_segment list \<Rightarrow> bool" where
  "am_core m base n h tx sent lost \<longleftrightarrow>
     store_inv h (tx @ sent @ lost)
     \<and> (\<forall>s \<in> set sent. sn_used m base n (sdu_sn (sdu_of h s)))
     \<and> (\<forall>s \<in> set tx. tx_seg_ok m base n h s)
     \<and> (\<forall>s \<in> set (tl tx). seg_is_first s)
     \<and> sn_unique h (tx @ sent)"

lemma am_coreI:
  assumes "store_inv h (tx @ sent @ lost)" "\<And>s. s \<in> set sent \<Longrightarrow> sn_used m base n (sdu_sn (sdu_of h s))"
    "\<And>s. s \<in> set tx \<Longrightarrow> tx_seg_ok m base n h s" "\<And>s. s \<in> set (tl tx) \<Longrightarrow> seg_is_first s"
    "sn_unique h (tx @ sent)"
  shows "am_core m base n h tx sent lost"
  using assms by (simp add: am_core_def)

lemma am_coreD:
  assumes "am_core m base n h tx sent lost"
  shows "store_inv h (tx @ sent @ lost)" "\<And>s. s \<in> set sent \<Longrightarrow> sn_used m base n (sdu_sn (sdu_of h s))"
    "\<And>s. s \<in> set tx \<Longrightarrow> tx_seg_ok m base n h s" "\<And>s. s \<in> set (tl tx) \<Longrightarrow> seg_is_first s"
    "sn_unique h (tx @ sent)"
  using assms by (simp_all add: am_core_def)

lemma sn_used_nonneg: "sn_used m base n a \<Longrightarrow> a \<noteq> - 1"
  by (auto simp: sn_used_def)

lemma am_core_uniq:
  assumes "am_core m base n h tx sent lost" "s \<in> set (tx @ sent)" "t \<in> set (tx @ sent)"
    "sdu_sn (sdu_of h s) = sdu_sn (sdu_of h t)" "sdu_sn (sdu_of h s) \<noteq> - 1"
  shows "seg_sdu s = seg_sdu t"
  using am_coreD(5)[OF assms(1)] assms(2-5) unfolding sn_unique_def by blast

lemma am_core_mset:
  assumes "am_core m base n h tx sent lost" "mset sent = mset sent'"
  shows "am_core m base n h tx sent' lost"
proof -
  note d = am_coreD[OF assms(1)]
  have set: "set sent' = set sent" using assms(2) by (metis set_mset_mset)
  show ?thesis
  proof (rule am_coreI)
    show "store_inv h (tx @ sent' @ lost)"
      by (rule store_inv_mset[OF _ d(1)]) (simp add: assms(2))
    show "sn_unique h (tx @ sent')" by (rule sn_unique_sub[OF d(5)]) (simp add: set)
  qed (use d set in auto)
qed

lemma am_core_empty: "am_core m base n empty_heap [] [] []"
  by (rule am_coreI) (simp_all add: store_inv_empty sn_unique_def)

text \<open>No other segment in use has the sequence number and the offset of a segment.\<close>

lemma am_core_so_neq:
  assumes "am_core m base n h tx (s # sent) lost" "t \<in> set sent"
    "sdu_sn (sdu_of h s) = sdu_sn (sdu_of h t)"
  shows "seg_so s \<noteq> seg_so t"
proof -
  have "sdu_sn (sdu_of h s) \<noteq> - 1" using am_coreD(2)[OF assms(1), of s] by (auto dest: sn_used_nonneg)
  then have same: "seg_sdu s = seg_sdu t"
    by (intro am_core_uniq[OF assms(1)]) (use assms(2,3) in auto)
  have st: "store_inv h (s # tx @ sent @ lost)"
    by (rule store_inv_mset[OF _ am_coreD(1)[OF assms(1)]]) simp
  show ?thesis by (rule store_inv_so_neq[OF st _ same]) (use assms(2) in auto)
qed

section \<open>Steps\<close>

text \<open>A change of the store that keeps the sequence numbers.\<close>

lemma am_core_same_sn:
  assumes "am_core m base n h tx sent lost" "store_inv h' (tx @ sent @ lost)"
    and "\<And>t. t \<in> set (tx @ sent) \<Longrightarrow> sdu_sn (sdu_of h' t) = sdu_sn (sdu_of h t)"
  shows "am_core m base n h' tx sent lost"
proof -
  note d = am_coreD[OF assms(1)]
  show ?thesis
  proof (rule am_coreI)
    show "sn_unique h' (tx @ sent)" using d(5) sn_unique_cong[OF assms(3)] by blast
    show "s \<in> set tx \<Longrightarrow> tx_seg_ok m base n h' s" for s
      using d(3)[of s] assms(3)[of s] by (simp add: tx_seg_ok_def)
  qed (use d assms(2,3) in auto)
qed

lemma am_core_update:
  assumes "am_core m base n h tx sent lost"
    and "\<And>s. sdu_ref_count (f s) = sdu_ref_count s" "\<And>s. sdu_free_count (f s) = sdu_free_count s"
    and "\<And>s. sdu_size (f s) = sdu_size s" "\<And>s. sdu_data (f s) = sdu_data s"
    and "\<And>s. sdu_sn (f s) = sdu_sn s"
  shows "am_core m base n (update_sdu f seg h) tx sent lost"
  by (rule am_core_same_sn[OF assms(1) store_inv_update[OF am_coreD(1)[OF assms(1)] assms(2-5)]])
    (simp add: sdu_of_def assms(6))

lemma am_core_new:
  assumes "am_core m base n h tx sent lost" "nr_rlc_new_sdu h buf u = (seg, h')" "buf \<noteq> []"
    "int (length buf) \<le> NR_SDU_MAX"
  shows "am_core m base n h' (tx @ [seg]) sent lost" "alloc_bytes h' = alloc_bytes h + int (length buf)"
    "\<And>t. t \<in> set (tx @ sent) \<Longrightarrow> sdu_of h' t = sdu_of h t"
proof -
  note d = am_coreD[OF assms(1)]
  have new: "seg_is_first seg" "seg_is_last seg" "sdu_sn (sdu_of h' seg) = - 1"
    using assms(2) by (auto simp: nr_rlc_new_sdu_def Let_def sdu_of_def)
  show same: "sdu_of h' t = sdu_of h t" if "t \<in> set (tx @ sent)" for t
  proof -
    have "seg_sdu t < hp_next h"
      by (rule store_inv_alloc_less[OF d(1) store_inv_alloc[OF d(1)]]) (use that in auto)
    then show ?thesis using assms(2) by (auto simp: nr_rlc_new_sdu_def Let_def sdu_of_def)
  qed
  show "am_core m base n h' (tx @ [seg]) sent lost"
  proof (rule am_coreI)
    show "store_inv h' ((tx @ [seg]) @ sent @ lost)"
      by (rule store_inv_mset[OF _ store_inv_new(1)[OF d(1) assms(2-4)]]) simp
    have "sn_unique h' (tx @ sent)" using d(5) sn_unique_cong[of "tx @ sent" h' h] same by simp
    then have "sn_unique h' (seg # tx @ sent)" using new(3) by (intro sn_unique_add) simp_all
    then show "sn_unique h' ((tx @ [seg]) @ sent)" by (rule sn_unique_sub) auto
    show "s \<in> set (tx @ [seg]) \<Longrightarrow> tx_seg_ok m base n h' s" for s
      using d(3)[of s] same[of s] new by (auto simp: tx_seg_ok_def)
    show "s \<in> set (tl (tx @ [seg])) \<Longrightarrow> seg_is_first s" for s
      using d(4)[of s] new(1) by (cases tx) auto
  qed (use d(2) same in auto)
  show "alloc_bytes h' = alloc_bytes h + int (length buf)" by (rule store_inv_new(2)[OF d(1) assms(2-4)])
qed

text \<open>The head of the list goes out: it has its number already, or gets the next one.\<close>

lemma am_core_take:
  assumes "am_core m base n h (s # rest) sent lost" "\<not> seg_is_first s"
  shows "am_core m base n h rest (s # sent) lost"
proof -
  note d = am_coreD[OF assms(1)]
  show ?thesis
  proof (rule am_coreI)
    show "store_inv h (rest @ (s # sent) @ lost)" by (rule store_inv_mset[OF _ d(1)]) simp
    show "sn_unique h (rest @ (s # sent))" by (rule sn_unique_sub[OF d(5)]) auto
    show "t \<in> set (s # sent) \<Longrightarrow> sn_used m base n (sdu_sn (sdu_of h t))" for t
      using d(2)[of t] d(3)[of s] assms(2) by (auto simp: tx_seg_ok_def)
    show "t \<in> set (tl rest) \<Longrightarrow> seg_is_first t" for t
      using d(4)[of t] by (cases rest) auto
  qed (use d(3) in auto)
qed

lemma am_core_assign:
  assumes "am_core m base n h (s # rest) sent lost" "seg_is_first s"
    and "0 \<le> a" "a < m" "circ_dist m base a = n"
  shows "am_core m base (n + 1) (update_sdu (\<lambda>t. t\<lparr>sdu_sn := a\<rparr>) s h) rest (s # sent) lost"
    and "\<And>t. t \<in> set (rest @ sent) \<Longrightarrow>
         sdu_of (update_sdu (\<lambda>t. t\<lparr>sdu_sn := a\<rparr>) s h) t = sdu_of h t"
proof -
  let ?h = "update_sdu (\<lambda>t. t\<lparr>sdu_sn := a\<rparr>) s h"
  note d = am_coreD[OF assms(1)]
  have last: "seg_is_last s" "sdu_sn (sdu_of h s) = - 1"
    using d(3)[of s] assms(2) by (simp_all add: tx_seg_ok_def)
  have other: "seg_sdu t \<noteq> seg_sdu s" if "t \<in> set (rest @ sent)" for t
    by (rule store_inv_whole[of h "[]" s "rest @ sent @ lost"]) (use d(1) assms(2) last that in auto)
  then show same: "sdu_of ?h t = sdu_of h t" if "t \<in> set (rest @ sent)" for t
    using that by (simp add: sdu_of_def)
  have self: "sdu_sn (sdu_of ?h s) = a" by (simp add: sdu_of_def)
  have rest: "seg_is_first t" "seg_is_last t" "sdu_sn (sdu_of h t) = - 1" if "t \<in> set rest" for t
    using d(4)[of t] d(3)[of t] that by (simp_all add: tx_seg_ok_def)
  have sent: "sn_used m base n (sdu_sn (sdu_of h t))" if "t \<in> set sent" for t by (rule d(2)[OF that])
  have more: "sn_used m base (n + 1) b" if "sn_used m base n b" for b using that by (simp add: sn_used_def)
  have ne: "sdu_sn (sdu_of h t) \<noteq> a" if "t \<in> set (rest @ sent)" for t
    using that rest(3)[of t] sent[of t] assms(3,5) by (auto simp: sn_used_def)
  show "am_core m base (n + 1) ?h rest (s # sent) lost"
  proof (rule am_coreI)
    show "store_inv ?h (rest @ (s # sent) @ lost)"
      by (rule store_inv_mset[OF _ store_inv_update[OF d(1)]]) simp_all
    have "sn_unique h (rest @ sent)" by (rule sn_unique_sub[OF d(5)]) auto
    then have "sn_unique ?h (rest @ sent)" using sn_unique_cong[of "rest @ sent" ?h h] same by simp
    then have "sn_unique ?h (s # rest @ sent)"
      using ne same self by (intro sn_unique_add) simp_all
    then show "sn_unique ?h (rest @ (s # sent))" by (rule sn_unique_sub) auto
    show "t \<in> set (s # sent) \<Longrightarrow> sn_used m base (n + 1) (sdu_sn (sdu_of ?h t))" for t
      using self sent[of t] same[of t] assms(3-5) by (cases "t = s") (simp_all add: sn_used_def)
    show "t \<in> set rest \<Longrightarrow> tx_seg_ok m base (n + 1) ?h t" for t
      using rest[of t] same[of t] by (simp add: tx_seg_ok_def)
    show "t \<in> set (tl rest) \<Longrightarrow> seg_is_first t" for t
      using rest(1)[of t] by (cases rest) auto
  qed
qed


text \<open>A sent segment is cut in two, and the rest goes back to the list it came from.\<close>

lemma am_core_split:
  assumes "am_core m base n h tx (s # sent) lost" "0 < k" "k < seg_size s"
  shows "(\<forall>t \<in> set tx. seg_is_first t) \<Longrightarrow>
         am_core m base n (split_heap s h) (rest_part k (hp_next h) s # tx) (first_part k s # sent) lost"
    and "am_core m base n (split_heap s h) tx (first_part k s # rest_part k (hp_next h) s # sent) lost"
    and "alloc_bytes (split_heap s h) = alloc_bytes h"
proof -
  note d = am_coreD[OF assms(1)]
  let ?h = "split_heap s h" and ?f = "first_part k s" and ?r = "rest_part k (hp_next h) s"
  have st: "store_inv h (s # tx @ sent @ lost)" by (rule store_inv_mset[OF _ d(1)]) simp
  note sp = store_inv_split[OF st assms(2,3)]
  show "alloc_bytes ?h = alloc_bytes h" by (rule sp(2))
  have sn: "sdu_sn (sdu_of ?h t) = sdu_sn (sdu_of h t)" for t by (simp add: sdu_of_def)
  have part: "sdu_of h ?f = sdu_of h s" "sdu_of h ?r = sdu_of h s" by (simp_all add: sdu_of_def)
  have used: "sn_used m base n (sdu_sn (sdu_of h s))" by (rule d(2)) simp
  have u: "sn_unique ?h (s # tx @ sent)"
    by (rule sn_unique_sub[of _ "tx @ s # sent"]) (use d(5) sn_unique_cong[of _ ?h h] sn in auto)
  have ext: "sn_unique ?h (?r # ?f # s # tx @ sent)"
    by (intro sn_unique_add u)
      (use u in \<open>auto simp: part sn sn_unique_def\<close>)
  show "am_core m base n ?h tx (?f # ?r # sent) lost"
  proof (rule am_coreI)
    show "store_inv ?h (tx @ (?f # ?r # sent) @ lost)" by (rule store_inv_mset[OF _ sp(1)]) simp
    show "sn_unique ?h (tx @ ?f # ?r # sent)" by (rule sn_unique_sub[OF ext]) auto
    show "t \<in> set (?f # ?r # sent) \<Longrightarrow> sn_used m base n (sdu_sn (sdu_of ?h t))" for t
      using used d(2)[of t] by (auto simp: sn part)
    show "t \<in> set tx \<Longrightarrow> tx_seg_ok m base n ?h t" for t
      using d(3)[of t] by (simp add: tx_seg_ok_def sn)
  qed (use d(4) in auto)
  assume first: "\<forall>t \<in> set tx. seg_is_first t"
  show "am_core m base n ?h (?r # tx) (?f # sent) lost"
  proof (rule am_coreI)
    show "store_inv ?h ((?r # tx) @ (?f # sent) @ lost)" by (rule store_inv_mset[OF _ sp(1)]) simp
    show "sn_unique ?h ((?r # tx) @ ?f # sent)" by (rule sn_unique_sub[OF ext]) auto
    show "t \<in> set (?f # sent) \<Longrightarrow> sn_used m base n (sdu_sn (sdu_of ?h t))" for t
      using used d(2)[of t] by (auto simp: sn part)
    show "t \<in> set (?r # tx) \<Longrightarrow> tx_seg_ok m base n ?h t" for t
      using d(3)[of t] used by (auto simp: tx_seg_ok_def sn part)
  qed (use first in auto)
qed

lemma am_core_free:
  assumes "am_core m base n h tx (s # sent) lost"
  shows "am_core m base n (snd (nr_rlc_free_sdu_segment s h)) tx sent lost"
    and "alloc_bytes (snd (nr_rlc_free_sdu_segment s h))
         = alloc_bytes h - (if fst (nr_rlc_free_sdu_segment s h) then sdu_size (sdu_of h s) else 0)"
proof -
  note d = am_coreD[OF assms(1)]
  let ?h = "snd (nr_rlc_free_sdu_segment s h)"
  have sn: "sdu_sn (sdu_of ?h t) = sdu_sn (sdu_of h t)" for t by (simp add: sdu_of_def free_segment_same)
  have st: "store_inv h (tx @ s # sent @ lost)" using d(1) by simp
  show "am_core m base n ?h tx sent lost"
  proof (rule am_coreI)
    show "store_inv ?h (tx @ sent @ lost)" by (rule store_inv_free(1)[OF st])
    have "sn_unique h (tx @ sent)" by (rule sn_unique_sub[OF d(5)]) auto
    then show "sn_unique ?h (tx @ sent)" using sn_unique_cong[of _ ?h h] sn by blast
    show "t \<in> set tx \<Longrightarrow> tx_seg_ok m base n ?h t" for t
      using d(3)[of t] by (simp add: tx_seg_ok_def sn)
  qed (use d(2,4) sn in auto)
  show "alloc_bytes ?h
         = alloc_bytes h - (if fst (nr_rlc_free_sdu_segment s h) then sdu_size (sdu_of h s) else 0)"
    by (rule store_inv_free(3)[OF st])
qed

lemma am_core_lose:
  assumes "am_core m base n h tx (l @ sent) lost"
  shows "am_core m base n h tx sent (l @ lost)"
proof -
  note d = am_coreD[OF assms(1)]
  show ?thesis
  proof (rule am_coreI)
    show "store_inv h (tx @ sent @ l @ lost)" by (rule store_inv_mset[OF _ d(1)]) simp
    show "sn_unique h (tx @ sent)" by (rule sn_unique_sub[OF d(5)]) auto
  qed (use d(2-4) in auto)
qed

text \<open>\<open>tx_next_ack\<close> moves forward, not beyond any number in use.\<close>

lemma sn_used_rebase:
  assumes "sn_used m base n a" "circ_dist m base base' \<le> circ_dist m base a"
  shows "sn_used m base' (n - circ_dist m base base') a"
  using assms circ_dist_rebase[of m base base' a] by (auto simp: sn_used_def)

lemma am_core_rebase:
  assumes "am_core m base n h tx sent lost"
    and "\<And>s. s \<in> set (tx @ sent) \<Longrightarrow> sdu_sn (sdu_of h s) \<noteq> - 1 \<Longrightarrow>
           circ_dist m base base' \<le> circ_dist m base (sdu_sn (sdu_of h s))"
  shows "am_core m base' (n - circ_dist m base base') h tx sent lost"
proof -
  note d = am_coreD[OF assms(1)]
  have used: "sn_used m base n (sdu_sn (sdu_of h s)) \<Longrightarrow> s \<in> set (tx @ sent) \<Longrightarrow>
      sn_used m base' (n - circ_dist m base base') (sdu_sn (sdu_of h s))" for s
    using assms(2)[of s] sn_used_nonneg[of m base n "sdu_sn (sdu_of h s)"] by (intro sn_used_rebase) auto
  show ?thesis
  proof (rule am_coreI)
    show "s \<in> set tx \<Longrightarrow> tx_seg_ok m base' (n - circ_dist m base base') h s" for s
      using d(3)[of s] used[of s] by (auto simp: tx_seg_ok_def)
  qed (use d used in auto)
qed

text \<open>An SDU no byte of which has been sent is removed.\<close>

lemma am_core_discard:
  assumes "am_core m base n h (l1 @ s # l2) sent lost" "seg_is_first s" "seg_is_last s"
  shows "am_core m base n (snd (nr_rlc_free_sdu_segment s h)) (l1 @ l2) sent lost"
    and "alloc_bytes (snd (nr_rlc_free_sdu_segment s h)) = alloc_bytes h - sdu_size (sdu_of h s)"
proof -
  note d = am_coreD[OF assms(1)]
  let ?h = "snd (nr_rlc_free_sdu_segment s h)"
  have sn: "sdu_sn (sdu_of ?h t) = sdu_sn (sdu_of h t)" for t by (simp add: sdu_of_def free_segment_same)
  have st: "store_inv h (l1 @ s # (l2 @ sent @ lost))" using d(1) by simp
  show "am_core m base n ?h (l1 @ l2) sent lost"
  proof (rule am_coreI)
    show "store_inv ?h ((l1 @ l2) @ sent @ lost)" using store_inv_free(1)[OF st] by simp
    have "sn_unique h ((l1 @ l2) @ sent)" by (rule sn_unique_sub[OF d(5)]) auto
    then show "sn_unique ?h ((l1 @ l2) @ sent)" using sn_unique_cong[of _ ?h h] sn by blast
    show "t \<in> set (l1 @ l2) \<Longrightarrow> tx_seg_ok m base n ?h t" for t
      using d(3)[of t] by (auto simp: tx_seg_ok_def sn)
    show "t \<in> set (tl (l1 @ l2)) \<Longrightarrow> seg_is_first t" for t
      using d(4)[of t] by (cases l1; cases l2) auto
  qed (use d(2) sn in auto)
  have "fst (nr_rlc_free_sdu_segment s h)"
    using store_inv_whole[OF st assms(2,3)] store_inv_free(2)[OF st] by simp
  then show "alloc_bytes ?h = alloc_bytes h - sdu_size (sdu_of h s)"
    using store_inv_free(3)[OF st] by simp
qed

end
