(* ===== verification/Rlc_Am_Inv.thy ===== *)
theory Rlc_Am_Inv
  imports Rlc_Am_Wire Rlc_Am_Store
begin

text \<open>
  The invariant of the AM transmission side: the store invariant of the lists, both lists of sent
  segments in the order of sequence numbers and offsets, the end pointers on the last segments,
  the counters \<open>tx_size\<close> and the buffer status exact, and no more than a window of sequence
  numbers in use. The lemmas take it through the steps that the operations are made of.
\<close>

section \<open>The invariant\<close>

definition am_pdu_bytes :: "nr_rlc_entity_am \<Rightarrow> nr_rlc_sdu_segment list \<Rightarrow> int" where
  "am_pdu_bytes e l = sum_list (map (\<lambda>s. am_compute_pdu_header_size e s + seg_size s) l)"

definition seg_key :: "sdu_heap \<Rightarrow> nr_rlc_sdu_segment \<Rightarrow> int \<times> int" where
  "seg_key h s = (sdu_sn (sdu_of h s), seg_so s)"

definition am_sorted :: "int \<Rightarrow> int \<Rightarrow> sdu_heap \<Rightarrow> nr_rlc_sdu_segment list \<Rightarrow> bool" where
  "am_sorted m base h l = sorted_wrt (\<lambda>a b. sn_so_le (circ_dist m base) (seg_key h a) (seg_key h b)) l"

definition am_dist :: "nr_rlc_entity_am \<Rightarrow> int \<Rightarrow> int" where
  "am_dist e a = circ_dist (am_sn_modulus e) (am_tx_next_ack e) a"

text \<open>\<open>fly\<close> holds a segment that an operation has unlinked and not yet linked or freed.\<close>

definition am_fly_inv ::
  "nr_rlc_sdu_segment list \<Rightarrow> nr_rlc_sdu_segment list \<Rightarrow> nr_rlc_entity_am \<Rightarrow> bool" where
  "am_fly_inv fly lost e \<longleftrightarrow>
     am_config_ok e \<and> am_sn_ok e (am_tx_next e) \<and> am_sn_ok e (am_tx_next_ack e)
     \<and> am_dist e (am_tx_next e) \<le> am_window_size e
     \<and> am_core (am_sn_modulus e) (am_tx_next_ack e) (am_dist e (am_tx_next e)) (heap e)
         (am_tx_list e) (fly @ am_wait_list e @ am_retransmit_list e) lost
     \<and> am_sorted (am_sn_modulus e) (am_tx_next_ack e) (heap e) (am_wait_list e)
     \<and> am_sorted (am_sn_modulus e) (am_tx_next_ack e) (heap e) (am_retransmit_list e)
     \<and> am_tx_end e = list_end (am_tx_list e) \<and> am_wait_end e = list_end (am_wait_list e)
     \<and> bs_tx_size (bstatus e) = am_pdu_bytes e (am_tx_list e)
     \<and> bs_retx_size (bstatus e) = am_pdu_bytes e (am_retransmit_list e @ lost)
     \<and> am_tx_size e = alloc_bytes (heap e)"

definition am_tx_inv :: "nr_rlc_sdu_segment list \<Rightarrow> nr_rlc_entity_am \<Rightarrow> bool" where
  "am_tx_inv lost e \<longleftrightarrow> am_fly_inv [] lost e"

text \<open>The fields the invariant looks at.\<close>

definition am_tx_view where
  "am_tx_view e =
     ((am_sn_field_length e, am_sn_modulus e, am_window_size e, am_tx_next e, am_tx_next_ack e, heap e),
      (am_tx_list e, am_tx_end e, am_wait_list e, am_wait_end e, am_retransmit_list e),
      (bs_tx_size (bstatus e), bs_retx_size (bstatus e), am_tx_size e))"

lemma am_header_cong:
  "am_sn_field_length e' = am_sn_field_length e \<Longrightarrow>
   am_compute_pdu_header_size e' s = am_compute_pdu_header_size e s"
  by (simp add: am_compute_pdu_header_size_def)

lemma am_pdu_bytes_cong:
  "am_sn_field_length e' = am_sn_field_length e \<Longrightarrow> am_pdu_bytes e' l = am_pdu_bytes e l"
  using am_header_cong[of e' e] by (simp add: am_pdu_bytes_def)

lemma am_pdu_bytes_simps [simp]:
  "am_pdu_bytes e [] = 0"
  "am_pdu_bytes e (s # l) = am_compute_pdu_header_size e s + seg_size s + am_pdu_bytes e l"
  "am_pdu_bytes e (l @ l') = am_pdu_bytes e l + am_pdu_bytes e l'"
  by (simp_all add: am_pdu_bytes_def)

lemma am_pdu_bytes_mset:
  assumes "mset l = mset l'"
  shows "am_pdu_bytes e l = am_pdu_bytes e l'"
proof -
  let ?f = "\<lambda>s. am_compute_pdu_header_size e s + seg_size s"
  have "sum_mset (mset (map ?f l)) = sum_mset (mset (map ?f l'))" using assms by simp
  then show ?thesis by (simp only: sum_mset_sum_list am_pdu_bytes_def)
qed

lemma am_fly_inv_view:
  assumes "am_tx_view e' = am_tx_view e"
  shows "am_fly_inv fly lost e' = am_fly_inv fly lost e"
proof -
  have f: "am_sn_field_length e' = am_sn_field_length e" "am_sn_modulus e' = am_sn_modulus e"
    "am_window_size e' = am_window_size e" "am_tx_next e' = am_tx_next e"
    "am_tx_next_ack e' = am_tx_next_ack e" "heap e' = heap e" "am_tx_list e' = am_tx_list e"
    "am_tx_end e' = am_tx_end e" "am_wait_list e' = am_wait_list e" "am_wait_end e' = am_wait_end e"
    "am_retransmit_list e' = am_retransmit_list e" "am_tx_size e' = am_tx_size e"
    "bs_tx_size (bstatus e') = bs_tx_size (bstatus e)"
    "bs_retx_size (bstatus e') = bs_retx_size (bstatus e)"
    using assms by (simp_all add: am_tx_view_def)
  show ?thesis
    unfolding am_fly_inv_def am_config_ok_def am_sn_ok_def am_dist_def am_pdu_bytes_cong[OF f(1)] f ..
qed

lemma am_fly_invD:
  assumes "am_fly_inv fly lost e"
  shows "am_config_ok e" "am_sn_ok e (am_tx_next e)" "am_sn_ok e (am_tx_next_ack e)"
    "am_dist e (am_tx_next e) \<le> am_window_size e"
    "am_core (am_sn_modulus e) (am_tx_next_ack e) (am_dist e (am_tx_next e)) (heap e)
       (am_tx_list e) (fly @ am_wait_list e @ am_retransmit_list e) lost"
    "am_sorted (am_sn_modulus e) (am_tx_next_ack e) (heap e) (am_wait_list e)"
    "am_sorted (am_sn_modulus e) (am_tx_next_ack e) (heap e) (am_retransmit_list e)"
    "am_tx_end e = list_end (am_tx_list e)" "am_wait_end e = list_end (am_wait_list e)"
    "bs_tx_size (bstatus e) = am_pdu_bytes e (am_tx_list e)"
    "bs_retx_size (bstatus e) = am_pdu_bytes e (am_retransmit_list e @ lost)"
    "am_tx_size e = alloc_bytes (heap e)"
  using assms unfolding am_fly_inv_def by simp_all

text \<open>Establishing the invariant after a step from a state \<open>e0\<close> of the same configuration.\<close>

lemma am_fly_invI:
  assumes "am_config_ok e0" "am_sn_field_length e = am_sn_field_length e0"
    "am_sn_modulus e = am_sn_modulus e0" "am_window_size e = am_window_size e0"
    and "am_sn_ok e0 (am_tx_next e)" "am_sn_ok e0 (am_tx_next_ack e)"
    "circ_dist (am_sn_modulus e0) (am_tx_next_ack e) (am_tx_next e) = n" "n \<le> am_window_size e0"
    "am_core (am_sn_modulus e0) (am_tx_next_ack e) n (heap e) (am_tx_list e)
       (fly @ am_wait_list e @ am_retransmit_list e) lost"
    "am_sorted (am_sn_modulus e0) (am_tx_next_ack e) (heap e) (am_wait_list e)"
    "am_sorted (am_sn_modulus e0) (am_tx_next_ack e) (heap e) (am_retransmit_list e)"
    "am_tx_end e = list_end (am_tx_list e)" "am_wait_end e = list_end (am_wait_list e)"
    "bs_tx_size (bstatus e) = am_pdu_bytes e0 (am_tx_list e)"
    "bs_retx_size (bstatus e) = am_pdu_bytes e0 (am_retransmit_list e @ lost)"
    "am_tx_size e = alloc_bytes (heap e)"
  shows "am_fly_inv fly lost e"
  using assms
  by (simp add: am_fly_inv_def am_config_ok_def am_sn_ok_def am_dist_def am_pdu_bytes_cong[OF assms(2)])

section \<open>Order of the lists\<close>

interpretation am_txd: sn_order
  "am_sn_compare_tx e" "circ_dist (am_sn_modulus e) (am_tx_next_ack e)"
  "\<lambda>a. am_sn_ok e (am_tx_next_ack e) \<and> am_sn_ok e a" for e
proof unfold_locales
  fix a b
  assume a: "am_sn_ok e (am_tx_next_ack e) \<and> am_sn_ok e a" and b: "am_sn_ok e (am_tx_next_ack e) \<and> am_sn_ok e b"
  then show "am_sn_compare_tx e a b
      = circ_dist (am_sn_modulus e) (am_tx_next_ack e) a - circ_dist (am_sn_modulus e) (am_tx_next_ack e) b"
    by (simp add: am_sn_compare_tx_def am_modulus_tx_dist)
  assume "circ_dist (am_sn_modulus e) (am_tx_next_ack e) a = circ_dist (am_sn_modulus e) (am_tx_next_ack e) b"
  then show "a = b" by (rule circ_dist_inj) (use a b in \<open>simp_all add: am_sn_ok_def\<close>)
qed

lemma sn_used_ok: "sn_used (am_sn_modulus e) b n a \<Longrightarrow> am_sn_ok e a"
  by (simp add: sn_used_def am_sn_ok_def)

text \<open>The comparison of the code, on numbers in use, is the difference of the distances.\<close>

lemma am_compare_tx_dist:
  "am_sn_ok e (am_tx_next_ack e) \<Longrightarrow> am_sn_ok e a \<Longrightarrow> am_sn_ok e b \<Longrightarrow>
   am_sn_compare_tx e a b = am_dist e a - am_dist e b"
  by (simp add: am_sn_compare_tx_def am_modulus_tx_dist am_dist_def)

lemma am_dist_inj: "am_dist e a = am_dist e b \<Longrightarrow> am_sn_ok e a \<Longrightarrow> am_sn_ok e b \<Longrightarrow> a = b"
  unfolding am_dist_def am_sn_ok_def
  using circ_dist_inj[of "am_sn_modulus e" "am_tx_next_ack e" a b] by blast

lemma seg_list_add_sorted:
  assumes "am_sorted (am_sn_modulus e) (am_tx_next_ack e) (heap e) l" "am_sn_ok e (am_tx_next_ack e)"
    and "am_sn_ok e (sdu_sn (sdu_of (heap e) s))" "\<And>t. t \<in> set l \<Longrightarrow> am_sn_ok e (sdu_sn (sdu_of (heap e) t))"
  shows "am_sorted (am_sn_modulus e) (am_tx_next_ack e) (heap e) (nr_rlc_tx_sdu_segment_list_add e l s)"
  using am_txd.insert_sorted[of e "seg_key (heap e)" l s] assms
  by (simp add: am_sorted_def nr_rlc_tx_sdu_segment_list_add_def seg_key_def)

lemma insert_before_last: "ys \<noteq> [] \<Longrightarrow> b x (last ys) \<Longrightarrow> last (insert_before b x ys) = last ys"
  by (induction ys) auto

lemma seg_at_last:
  assumes "distinct (map seg_addr l)" "l \<noteq> []"
  shows "seg_at l (seg_addr (last l)) = Some (last l)"
  using assms by (induction l) (auto simp: seg_at_def)

lemma am_sorted_last:
  assumes "am_sorted m base h l" "t \<in> set l"
  shows "sn_so_le (circ_dist m base) (seg_key h t) (seg_key h (last l))"
  using assms unfolding am_sorted_def
  by (induction l) (auto simp: sn_so_le_def)

text \<open>Adding to the wait list keeps its order and its end pointer.\<close>

lemma am_add_to_wait_list_ok:
  assumes "am_sorted (am_sn_modulus e) (am_tx_next_ack e) (heap e) (am_wait_list e)"
    and "am_wait_end e = list_end (am_wait_list e)" "distinct (map seg_addr (am_wait_list e))"
    and "am_sn_ok e (am_tx_next_ack e)" "am_sn_ok e (sdu_sn (sdu_of (heap e) s))"
    and "\<And>t. t \<in> set (am_wait_list e) \<Longrightarrow> am_sn_ok e (sdu_sn (sdu_of (heap e) t))"
    and "\<And>t. t \<in> set (am_wait_list e) \<Longrightarrow> seg_key (heap e) t \<noteq> seg_key (heap e) s"
  shows "\<exists>l. am_add_to_wait_list e s = Inr (e\<lparr>am_wait_list := l, am_wait_end := list_end l\<rparr>)
     \<and> mset l = add_mset s (mset (am_wait_list e))
     \<and> am_sorted (am_sn_modulus e) (am_tx_next_ack e) (heap e) l"
proof (cases "am_wait_list e = []")
  case True
  then show ?thesis using assms(2)
    by (intro exI[of _ "[s]"])
      (simp add: am_add_to_wait_list_def nr_rlc_sdu_segment_list_append_def am_sorted_def)
next
  case False
  let ?l = "am_wait_list e" and ?w = "last (am_wait_list e)"
  let ?k = "seg_key (heap e)"
  have w: "?w \<in> set ?l" using False by simp
  have at: "am_wait_end e = Some (seg_addr ?w)" "seg_at ?l (seg_addr ?w) = Some ?w"
    using assms(2,3) False seg_at_last by (simp_all add: list_end_def)
  show ?thesis
  proof (cases "am_comes_after_end e s ?w")
    case True
    then have "sn_so_le (circ_dist (am_sn_modulus e) (am_tx_next_ack e)) (?k ?w) (?k s)"
      using assms(4-6) w am_dist_inj[of e "sdu_sn (sdu_of (heap e) s)" "sdu_sn (sdu_of (heap e) ?w)"]
      by (auto simp: am_comes_after_end_def Let_def am_compare_tx_dist sn_so_le_def seg_key_def am_dist_def)
    then have "am_sorted (am_sn_modulus e) (am_tx_next_ack e) (heap e) (?l @ [s])"
      using assms(1) am_sorted_last[OF assms(1)] am_txd.sn_so_le_trans
      unfolding am_sorted_def sorted_wrt_append by (fastforce simp: sn_so_le_def)
    moreover have "am_add_to_wait_list e s
        = Inr (e\<lparr>am_wait_list := ?l @ [s], am_wait_end := list_end (?l @ [s])\<rparr>)"
      using True at segq.append_ok[OF assms(3), of s] assms(2)
      by (simp add: am_add_to_wait_list_def)
    ultimately show ?thesis by (intro exI[of _ "?l @ [s]"]) simp
  next
    case before: False
    let ?n = "nr_rlc_tx_sdu_segment_list_add e ?l s"
    have "sn_so_before (am_sn_compare_tx e) (?k s) (?k ?w)"
      using before assms(4-6) assms(7)[OF w] w
        am_dist_inj[of e "sdu_sn (sdu_of (heap e) s)" "sdu_sn (sdu_of (heap e) ?w)"]
      by (auto simp: am_comes_after_end_def Let_def am_compare_tx_dist sn_so_before_def seg_key_def)
    then have "last ?n = ?w"
      unfolding nr_rlc_tx_sdu_segment_list_add_def seg_key_def by (intro insert_before_last False)
    then have "list_end ?n = am_wait_end e" using at by (simp add: list_end_def)
    moreover have "tl ?n \<noteq> []"
      using False tx_segment_list_add_set(4)[of e ?l s] by (cases ?n) auto
    ultimately have "am_add_to_wait_list e s = Inr (e\<lparr>am_wait_list := ?n, am_wait_end := list_end ?n\<rparr>)"
      using before at by (simp add: am_add_to_wait_list_def Let_def)
    then show ?thesis using seg_list_add_sorted[OF assms(1,4-6)] by (intro exI[of _ ?n]) simp
  qed
qed

end
