(* ===== verification/Rlc_Am_Send.thy ===== *)
theory Rlc_Am_Send
  imports Rlc_Am_Inv Rlc_Queue
begin

text \<open>
  The AM operations that send: new SDUs, new transmissions and retransmissions, in a state of the
  invariant \<open>am_tx_inv\<close>. The payload of a PDU leaves the front of the list it was taken from and
  its segment is in the wait list afterwards.
\<close>

section \<open>Steps\<close>

lemma am_stalling_dist:
  assumes "am_config_ok e" "am_sn_ok e (am_tx_next e)" "am_sn_ok e (am_tx_next_ack e)"
  shows "am_is_window_stalling e \<longleftrightarrow> am_window_size e \<le> am_dist e (am_tx_next e)"
proof -
  note m = am_config_pos[OF assms(1)]
  have w: "0 < am_window_size e" "am_window_size e < am_sn_modulus e" using m by linarith+
  have ok: "am_sn_ok e ((am_tx_next_ack e + am_window_size e) mod am_sn_modulus e)"
    using m by (simp add: am_sn_ok_def)
  have d: "am_dist e ((am_tx_next_ack e + am_window_size e) mod am_sn_modulus e) = am_window_size e"
    using w by (simp add: am_dist_def circ_dist_add)
  have "0 \<le> am_dist e (am_tx_next e)" using circ_dist_range[of "am_sn_modulus e"] m by (simp add: am_dist_def)
  moreover have "am_dist e (am_tx_next_ack e) = 0" by (simp add: am_dist_def)
  ultimately show ?thesis
    using assms ok d by (auto simp: am_is_window_stalling_def am_compare_tx_dist)
qed

lemma am_sorted_cong:
  assumes "\<And>t. t \<in> set l \<Longrightarrow> seg_key h' t = seg_key h t"
  shows "am_sorted m base h' l = am_sorted m base h l"
  unfolding am_sorted_def using assms by (induction l) auto

definition am_unsent :: "nr_rlc_entity_am \<Rightarrow> byte list" where
  "am_unsent e = concat (map (seg_bytes (heap e)) (am_tx_list e))"

definition am_to_resend :: "nr_rlc_entity_am \<Rightarrow> byte list" where
  "am_to_resend e = concat (map (seg_bytes (heap e)) (am_retransmit_list e))"

lemma am_take_tx_ok:
  assumes inv: "am_fly_inv [] lost e" and l: "am_tx_list e = s # rest" and "\<not> am_is_window_stalling e"
    and e1: "e1 = am_assign_sn s (am_take_tx_head s rest e)"
  shows "am_fly_inv [s] lost e1" "am_tx_list e1 = rest" "\<forall>t \<in> set rest. seg_is_first t"
    "am_wait_list e1 = am_wait_list e" "am_retransmit_list e1 = am_retransmit_list e"
    "seg_bytes (heap e1) = seg_bytes (heap e)" "am_sn_field_length e1 = am_sn_field_length e"
proof -
  note d = am_fly_invD[OF inv]
  define n where "n = am_dist e (am_tx_next e)"
  have n: "n < am_window_size e" using am_stalling_dist[OF d(1-3)] assms(3) by (simp add: n_def)
  note m = am_config_pos[OF d(1)]
  have core: "am_core (am_sn_modulus e) (am_tx_next_ack e) n (heap e) (s # rest)
      (am_wait_list e @ am_retransmit_list e) lost"
    using d(5) l by (simp add: n_def)
  have sn1: "sdu_sn (sdu_of (heap e) s) = - 1 \<longleftrightarrow> seg_is_first s"
    using am_coreD(3)[OF core, of s] by (auto simp: tx_seg_ok_def dest: sn_used_nonneg split: if_splits)
  define e0 where "e0 = am_take_tx_head s rest e"
  have e0: "heap e0 = heap e" "am_tx_next e0 = am_tx_next e" "am_sn_modulus e0 = am_sn_modulus e"
    "am_tx_list e0 = rest" "am_tx_end e0 = list_end rest" "am_wait_list e0 = am_wait_list e"
    "am_wait_end e0 = am_wait_end e" "am_retransmit_list e0 = am_retransmit_list e"
    "am_window_size e0 = am_window_size e" "am_tx_next_ack e0 = am_tx_next_ack e"
    "am_sn_field_length e0 = am_sn_field_length e" "am_tx_size e0 = am_tx_size e"
    "bs_tx_size (bstatus e0) = am_pdu_bytes e rest" "bs_retx_size (bstatus e0) = bs_retx_size (bstatus e)"
    using d(8,10) l by (simp_all add: e0_def am_take_tx_head_def list_end_Cons)
  show "\<forall>t \<in> set rest. seg_is_first t" using am_coreD(4)[OF core] by simp
  have eq: "e1 = (if seg_is_first s
      then (set_heap (update_sdu (\<lambda>t. t\<lparr>sdu_sn := am_tx_next e\<rparr>) s (heap e)) e0)
             \<lparr>am_tx_next := (am_tx_next e + 1) mod am_sn_modulus e\<rparr> else e0)"
    by (simp add: e1 e0_def[symmetric] am_assign_sn_def e0 sn1)
  show "am_tx_list e1 = rest" "am_wait_list e1 = am_wait_list e" "am_retransmit_list e1 = am_retransmit_list e"
    "am_sn_field_length e1 = am_sn_field_length e"
    by (simp_all add: eq e0)
  show "seg_bytes (heap e1) = seg_bytes (heap e)" by (rule seg_bytes_cong) (simp add: eq e0)
  show "am_fly_inv [s] lost e1"
  proof (cases "seg_is_first s")
    case False
    then show ?thesis using am_core_take[OF core] d e0
      by (intro am_fly_invI[of e _ n]) (simp_all add: eq n_def am_dist_def)
  next
    case True
    have a: "0 \<le> am_tx_next e" "am_tx_next e < am_sn_modulus e"
      "circ_dist (am_sn_modulus e) (am_tx_next_ack e) (am_tx_next e) = n"
      using d(2) by (simp_all add: am_sn_ok_def n_def am_dist_def)
    note assign = am_core_assign[OF core True a]
    let ?h = "update_sdu (\<lambda>t. t\<lparr>sdu_sn := am_tx_next e\<rparr>) s (heap e)"
    have nn: "0 \<le> n" using circ_dist_range[of "am_sn_modulus e"] m by (simp add: n_def am_dist_def)
    have d1: "circ_dist (am_sn_modulus e) (am_tx_next_ack e) ((am_tx_next e + 1) mod am_sn_modulus e) = n + 1"
      using circ_dist_Suc[of "am_sn_modulus e" "am_tx_next_ack e" "am_tx_next e"] m n a(3) nn by simp
    have key: "seg_key ?h t = seg_key (heap e) t" if "t \<in> set (am_wait_list e @ am_retransmit_list e)" for t
      using assign(2)[of t] that by (auto simp: seg_key_def)
    have so: "am_sorted (am_sn_modulus e) (am_tx_next_ack e) ?h (am_wait_list e)"
      "am_sorted (am_sn_modulus e) (am_tx_next_ack e) ?h (am_retransmit_list e)"
      using d(6,7) key by (simp_all add: am_sorted_cong[of _ ?h "heap e"])
    have al: "alloc_bytes ?h = am_tx_size e" using d(12) by (simp add: alloc_bytes_update)
    have ok: "am_sn_ok e ((am_tx_next e + 1) mod am_sn_modulus e)" using m by (simp add: am_sn_ok_def)
    have eq': "e1 = (set_heap ?h e0)\<lparr>am_tx_next := (am_tx_next e + 1) mod am_sn_modulus e\<rparr>"
      using True by (simp add: eq)
    show ?thesis
      by (rule am_fly_invI[of e _ "n + 1"])
        (use assign(1) so d al e0 n d1 ok in \<open>simp_all add: eq'\<close>)
  qed
qed

lemma am_resegment_parts:
  assumes "n = sz - am_compute_pdu_header_size e s"
  shows "am_resegment s e sz =
     (first_part n s, rest_part n (hp_next (heap e)) s, set_heap (split_heap s (heap e)) e)"
  using assms
  by (simp add: am_resegment_def Let_def first_part_def rest_part_def split_heap_def algebra_simps)

lemma seg_bytes_parts:
  assumes "seg_wf h s" "0 < n" "n < seg_size s"
  shows "seg_bytes (split_heap s h) (first_part n s) @ seg_bytes (split_heap s h) (rest_part n a s) = seg_bytes h s"
    "seg_bytes (split_heap s h) = seg_bytes h"
proof -
  show eq: "seg_bytes (split_heap s h) = seg_bytes h" by (rule seg_bytes_cong) simp
  have "nat (seg_size s) = nat n + nat (seg_size s - n)" "nat (seg_so s + n) = nat n + nat (seg_so s)"
    using assms by (simp_all add: seg_wf_def nat_add_distrib)
  then show "seg_bytes (split_heap s h) (first_part n s) @ seg_bytes (split_heap s h) (rest_part n a s) = seg_bytes h s"
    unfolding eq by (simp add: seg_bytes_def sdu_of_def take_add)
qed

lemma am_fly_wf: "am_fly_inv (s # fly) lost e \<Longrightarrow> seg_wf (heap e) s"
  by (rule store_inv_wf[OF am_coreD(1)[OF am_fly_invD(5)]]) auto

text \<open>Cutting the segment in flight: what does not fit stays in front of its list.\<close>

lemma am_segment_tx_ok:
  assumes inv: "am_fly_inv [s] lost e" and first: "\<forall>t \<in> set (am_tx_list e). seg_is_first t"
    and room: "am_compute_pdu_header_size e s + 1 \<le> sz" and seg: "am_segment_tx s sz e = (s', e')"
  shows "am_fly_inv [s'] lost e'" "am_compute_pdu_header_size e' s' + seg_size s' \<le> sz"
    "seg_bytes (heap e') s' @ am_unsent e' = seg_bytes (heap e) s @ am_unsent e"
    "am_wait_list e' = am_wait_list e" "am_retransmit_list e' = am_retransmit_list e"
    "seg_bytes (heap e') = seg_bytes (heap e)"
proof -
  note d = am_fly_invD[OF inv]
  let ?hd = "am_compute_pdu_header_size e s"
  let ?big = "?hd + seg_size s > sz"
  define n where "n = sz - ?hd"
  have n: "0 < n" "?big \<Longrightarrow> n < seg_size s" using room by (simp_all add: n_def)
  let ?r = "rest_part n (hp_next (heap e)) s" and ?h = "split_heap s (heap e)"
  have big: "s' = first_part n s" "heap e' = ?h" "am_tx_list e' = ?r # am_tx_list e"
    "am_tx_end e' = list_end (?r # am_tx_list e)" "am_wait_list e' = am_wait_list e"
    "am_wait_end e' = am_wait_end e" "am_retransmit_list e' = am_retransmit_list e"
    "am_sn_field_length e' = am_sn_field_length e" "am_sn_modulus e' = am_sn_modulus e"
    "am_window_size e' = am_window_size e" "am_tx_next e' = am_tx_next e"
    "am_tx_next_ack e' = am_tx_next_ack e" "am_tx_size e' = am_tx_size e"
    "bs_tx_size (bstatus e') = am_pdu_bytes e (?r # am_tx_list e)"
    "bs_retx_size (bstatus e') = bs_retx_size (bstatus e)" if ?big
    using seg that d(8,10)
    by (auto simp: am_segment_tx_def am_resegment_parts[OF n_def] list_end_def
        am_compute_pdu_header_size_def)
  have small: "s' = s \<and> e' = e" if "\<not> ?big" using seg that by (simp add: am_segment_tx_def)
  have wf: "seg_wf (heap e) s" by (rule am_fly_wf[OF inv])
  have sb: "seg_bytes ?h (first_part n s) @ seg_bytes ?h ?r = seg_bytes (heap e) s"
    "seg_bytes ?h = seg_bytes (heap e)" if ?big
    using seg_bytes_parts[OF wf n(1) n(2)[OF that]] by blast+
  show "am_wait_list e' = am_wait_list e" "am_retransmit_list e' = am_retransmit_list e"
    "seg_bytes (heap e') = seg_bytes (heap e)"
    by (cases ?big; use small big sb(2) in simp)+
  show "seg_bytes (heap e') s' @ am_unsent e' = seg_bytes (heap e) s @ am_unsent e"
    by (cases ?big; use small big sb in \<open>simp add: am_unsent_def\<close>)
  show "am_compute_pdu_header_size e' s' + seg_size s' \<le> sz"
  proof (cases ?big)
    case True
    then have "am_compute_pdu_header_size e' s' = ?hd"
      using big(1,8) by (simp add: am_compute_pdu_header_size_def)
    then show ?thesis using big(1)[OF True] by (simp add: n_def)
  qed (use small in simp)
  show "am_fly_inv [s'] lost e'"
  proof (cases ?big)
    case True
    have "am_core (am_sn_modulus e) (am_tx_next_ack e) (am_dist e (am_tx_next e)) (heap e)
        (am_tx_list e) (s # am_wait_list e @ am_retransmit_list e) lost" using d(5) by simp
    note sp = am_core_split[OF this n(1) n(2)[OF True]]
    have so: "am_sorted (am_sn_modulus e) (am_tx_next_ack e) ?h l
        = am_sorted (am_sn_modulus e) (am_tx_next_ack e) (heap e) l" for l
      by (rule am_sorted_cong) (simp add: seg_key_def sdu_of_def)
    show ?thesis
      by (rule am_fly_invI[of e _ "am_dist e (am_tx_next e)"])
        (use d sp(1,3) first so in \<open>simp_all add: big[OF True] am_dist_def\<close>)
  qed (use small inv in simp)
qed

lemma am_segment_retx_ok:
  assumes inv: "am_fly_inv [s] lost e"
    and top: "\<forall>t \<in> set (am_retransmit_list e). sn_so_le (am_dist e) (seg_key (heap e) s) (seg_key (heap e) t)"
    and room: "am_compute_pdu_header_size e s + 1 \<le> sz" and seg: "am_segment_retx s sz e = (s', e')"
  shows "am_fly_inv [s'] lost e'" "am_compute_pdu_header_size e' s' + seg_size s' \<le> sz"
    "seg_bytes (heap e') s' @ am_to_resend e' = seg_bytes (heap e) s @ am_to_resend e"
    "am_wait_list e' = am_wait_list e" "am_tx_list e' = am_tx_list e"
    "seg_bytes (heap e') = seg_bytes (heap e)"
proof -
  note d = am_fly_invD[OF inv]
  let ?hd = "am_compute_pdu_header_size e s"
  let ?big = "?hd + seg_size s > sz"
  define n where "n = sz - ?hd"
  have n: "0 < n" "?big \<Longrightarrow> n < seg_size s" using room by (simp_all add: n_def)
  let ?r = "rest_part n (hp_next (heap e)) s" and ?h = "split_heap s (heap e)"
  have big: "s' = first_part n s" "heap e' = ?h" "am_retransmit_list e' = ?r # am_retransmit_list e"
    "am_tx_end e' = am_tx_end e" "am_wait_list e' = am_wait_list e"
    "am_wait_end e' = am_wait_end e" "am_tx_list e' = am_tx_list e"
    "am_sn_field_length e' = am_sn_field_length e" "am_sn_modulus e' = am_sn_modulus e"
    "am_window_size e' = am_window_size e" "am_tx_next e' = am_tx_next e"
    "am_tx_next_ack e' = am_tx_next_ack e" "am_tx_size e' = am_tx_size e"
    "bs_tx_size (bstatus e') = bs_tx_size (bstatus e)"
    "bs_retx_size (bstatus e') = am_pdu_bytes e (?r # am_retransmit_list e @ lost)" if ?big
    using seg that d(11)
    by (auto simp: am_segment_retx_def am_resegment_parts[OF n_def] am_compute_pdu_header_size_def)
  have small: "s' = s \<and> e' = e" if "\<not> ?big" using seg that by (simp add: am_segment_retx_def)
  have wf: "seg_wf (heap e) s" by (rule am_fly_wf[OF inv])
  have sb: "seg_bytes ?h (first_part n s) @ seg_bytes ?h ?r = seg_bytes (heap e) s"
    "seg_bytes ?h = seg_bytes (heap e)" if ?big
    using seg_bytes_parts[OF wf n(1) n(2)[OF that]] by blast+
  show "am_wait_list e' = am_wait_list e" "am_tx_list e' = am_tx_list e"
    "seg_bytes (heap e') = seg_bytes (heap e)"
    by (cases ?big; use small big sb(2) in simp)+
  show "seg_bytes (heap e') s' @ am_to_resend e' = seg_bytes (heap e) s @ am_to_resend e"
    by (cases ?big; use small big sb in \<open>simp add: am_to_resend_def\<close>)
  show "am_compute_pdu_header_size e' s' + seg_size s' \<le> sz"
  proof (cases ?big)
    case True
    then have "am_compute_pdu_header_size e' s' = ?hd"
      using big(1,8) by (simp add: am_compute_pdu_header_size_def)
    then show ?thesis using big(1)[OF True] by (simp add: n_def)
  qed (use small in simp)
  show "am_fly_inv [s'] lost e'"
  proof (cases ?big)
    case True
    have core: "am_core (am_sn_modulus e) (am_tx_next_ack e) (am_dist e (am_tx_next e)) (heap e)
        (am_tx_list e) (s # am_wait_list e @ am_retransmit_list e) lost" using d(5) by simp
    note sp = am_core_split[OF core n(1) n(2)[OF True]]
    have core': "am_core (am_sn_modulus e) (am_tx_next_ack e) (am_dist e (am_tx_next e)) ?h
        (am_tx_list e) (first_part n s # am_wait_list e @ ?r # am_retransmit_list e) lost"
      by (rule am_core_mset[OF sp(2)]) simp
    have so: "am_sorted (am_sn_modulus e) (am_tx_next_ack e) ?h l
        = am_sorted (am_sn_modulus e) (am_tx_next_ack e) (heap e) l" for l
      by (rule am_sorted_cong) (simp add: seg_key_def sdu_of_def)
    have "seg_so s + n \<le> seg_so t" if "t \<in> set (am_retransmit_list e)"
      "sdu_sn (sdu_of (heap e) s) = sdu_sn (sdu_of (heap e) t)" for t
    proof -
      have same: "seg_sdu s = seg_sdu t"
        by (rule am_core_uniq[OF core])
          (use that am_coreD(2)[OF core, of s] in \<open>auto dest: sn_used_nonneg\<close>)
      have st: "store_inv ?h (?r # am_tx_list e @ first_part n s # am_wait_list e @ am_retransmit_list e @ lost)"
        by (rule store_inv_mset[OF _ am_coreD(1)[OF core']]) simp
      have "seg_so s \<le> seg_so t" using top that by (auto simp: sn_so_le_def seg_key_def)
      moreover have "seg_so s \<noteq> seg_so t" by (rule am_core_so_neq[OF core]) (use that in auto)
      moreover have "\<not> (seg_so s \<le> seg_so t \<and> seg_so t < seg_so s + n)"
      proof
        assume "seg_so s \<le> seg_so t \<and> seg_so t < seg_so s + n"
        then have c: "seg_covers (seg_sdu s) (seg_so t) (first_part n s)" by (simp add: seg_covers_def)
        have "0 < seg_size t"
          using store_inv_wf[OF am_coreD(1)[OF core], of t] that(1) by (auto simp: seg_wf_def)
        then have "seg_covers (seg_sdu s) (seg_so t) t" using same by (simp add: seg_covers_def)
        then have "1 \<le> cover_count (am_tx_list e @ am_wait_list e @ ?r # am_retransmit_list e @ lost)
            (seg_sdu s) (seg_so t)" using that(1) by (intro cover_count_mem[of t]) auto
        moreover have "store_inv ?h (first_part n s # am_tx_list e @ am_wait_list e @ ?r # am_retransmit_list e @ lost)"
          by (rule store_inv_mset[OF _ am_coreD(1)[OF core']]) simp
        note store_inv_cover[OF this, of "seg_sdu s" "seg_so t"]
        ultimately show False using c by simp
      qed
      ultimately show ?thesis by linarith
    qed
    then have "am_sorted (am_sn_modulus e) (am_tx_next_ack e) ?h (?r # am_retransmit_list e)"
      using d(7) top so[of "am_retransmit_list e"]
      by (auto simp: am_sorted_def sn_so_le_def seg_key_def sdu_of_def am_dist_def)
    then show ?thesis
      by (intro am_fly_invI[of e _ "am_dist e (am_tx_next e)"])
        (use d sp(3) core' so in \<open>simp_all add: big[OF True] am_dist_def\<close>)
  qed (use small inv in simp)
qed

text \<open>The segment in flight goes to the wait list.\<close>

lemma am_wait_add_step:
  assumes inv: "am_fly_inv [s] lost e"
  shows "\<exists>l e'. am_add_to_wait_list e s = Inr e' \<and> e' = e\<lparr>am_wait_list := l, am_wait_end := list_end l\<rparr>
     \<and> am_fly_inv [] lost e' \<and> mset l = add_mset s (mset (am_wait_list e))"
proof -
  note d = am_fly_invD[OF inv]
  have core: "am_core (am_sn_modulus e) (am_tx_next_ack e) (am_dist e (am_tx_next e)) (heap e)
      (am_tx_list e) (s # am_wait_list e @ am_retransmit_list e) lost" using d(5) by simp
  have ok: "am_sn_ok e (sdu_sn (sdu_of (heap e) t))" if "t \<in> set (s # am_wait_list e)" for t
    by (rule sn_used_ok[OF am_coreD(2)[OF core]]) (use that in auto)
  have "distinct (map seg_addr (am_wait_list e))"
    using store_inv_addr[OF am_coreD(1)[OF core]] by simp
  moreover have "seg_key (heap e) t \<noteq> seg_key (heap e) s" if "t \<in> set (am_wait_list e)" for t
    using am_core_so_neq[OF core, of t] that by (auto simp: seg_key_def)
  ultimately obtain l where l:
    "am_add_to_wait_list e s = Inr (e\<lparr>am_wait_list := l, am_wait_end := list_end l\<rparr>)"
    "mset l = add_mset s (mset (am_wait_list e))"
    "am_sorted (am_sn_modulus e) (am_tx_next_ack e) (heap e) l"
    using am_add_to_wait_list_ok[OF d(6,9) _ d(3), of s] ok by auto
  have "am_core (am_sn_modulus e) (am_tx_next_ack e) (am_dist e (am_tx_next e)) (heap e)
      (am_tx_list e) (l @ am_retransmit_list e) lost"
    by (rule am_core_mset[OF core]) (simp add: l(2))
  then have "am_fly_inv [] lost (e\<lparr>am_wait_list := l, am_wait_end := list_end l\<rparr>)"
    by (intro am_fly_invI[of e _ "am_dist e (am_tx_next e)"]) (use d l in \<open>simp_all add: am_dist_def\<close>)
  then show ?thesis using l by blast
qed

lemma am_poll_serialize_step:
  assumes "am_config_ok e" "seg_wf (heap e) s"
    "am_compute_pdu_header_size e s + seg_size s \<le> int (length buf)"
  shows "\<exists>q e'. am_poll_and_serialize e s buf p =
      Inr (am_compute_pdu_header_size e s + seg_size s,
           pdu_in_buffer (am_header_bits e q s) (seg_bytes (heap e) s) buf, e')
    \<and> am_tx_view e' = am_tx_view e"
proof -
  let ?e = "if am_force_poll e then e\<lparr>am_force_poll := False\<rparr> else e"
  have v: "am_tx_view ?e = am_tx_view e" "heap ?e = heap e" "am_sn_field_length ?e = am_sn_field_length e"
    by (simp_all add: am_tx_view_def)
  have c: "am_config_ok ?e" using assms(1) by (simp add: am_config_ok_def)
  have hd: "am_compute_pdu_header_size ?e s = am_compute_pdu_header_size e s"
    "am_header_bits ?e q s = am_header_bits e q s" for q
    by (simp_all add: am_compute_pdu_header_size_def am_header_bits_def)
  have "am_serialize_sdu ?e s buf (p \<or> am_force_poll e) =
      Inr (am_compute_pdu_header_size e s + seg_size s,
           pdu_in_buffer (am_header_bits e (p \<or> am_force_poll e) s) (seg_bytes (heap e) s) buf,
           if p \<or> am_force_poll e then am_polled ?e else ?e)"
    using am_serialize_sdu_ok[OF c, of s buf "p \<or> am_force_poll e"] assms(2,3) unfolding v(2) hd .
  moreover have "am_tx_view (am_polled f) = am_tx_view f" for f by (simp add: am_tx_view_def am_polled_def)
  then have "am_tx_view (if p \<or> am_force_poll e then am_polled ?e else ?e) = am_tx_view e"
    using v(1) by (simp only: split: if_split) simp
  ultimately show ?thesis unfolding am_poll_and_serialize_def by blast
qed

section \<open>Generation\<close>

text \<open>
  A data PDU: the header and the payload of the segment \<open>s\<close>, which is now in the wait list.
\<close>

definition am_pdu_sent ::
  "nr_rlc_entity_am \<Rightarrow> byte list \<Rightarrow> int \<Rightarrow> byte list \<Rightarrow> byte list \<Rightarrow> nr_rlc_entity_am \<Rightarrow> bool" where
  "am_pdu_sent e buf n buf' payload e' \<longleftrightarrow>
     0 < n \<and> n \<le> int (length buf) \<and> length buf' = length buf \<and> payload \<noteq> []
     \<and> (\<exists>s p. mset (am_wait_list e') = add_mset s (mset (am_wait_list e))
          \<and> seg_wf (heap e') s \<and> payload = seg_bytes (heap e') s
          \<and> n = am_compute_pdu_header_size e' s + seg_size s
          \<and> take (nat n) buf' = bytes_of_bits (am_header_bits e' p s) @ payload)"

lemma am_finish_pdu:
  assumes fly: "am_fly_inv [s] lost e" and fit: "am_compute_pdu_header_size e s + seg_size s \<le> int (length buf)"
    and wl: "am_wait_list e = am_wait_list e0"
    and polls: "\<And>f. am_tx_view (g f) = am_tx_view f"
  shows "\<exists>n buf' e1 e2. am_add_to_wait_list e s = Inr e1
    \<and> am_poll_and_serialize (g e1) s buf (p e1) = Inr (n, buf', e2)
    \<and> am_fly_inv [] lost e2 \<and> am_pdu_sent e0 buf n buf' (seg_bytes (heap e) s) e2
    \<and> am_tx_list e2 = am_tx_list e \<and> am_retransmit_list e2 = am_retransmit_list e \<and> heap e2 = heap e"
proof -
  obtain l e1 where w: "am_add_to_wait_list e s = Inr e1" "e1 = e\<lparr>am_wait_list := l, am_wait_end := list_end l\<rparr>"
    "am_fly_inv [] lost e1" "mset l = add_mset s (mset (am_wait_list e))"
    using am_wait_add_step[OF fly] by blast
  let ?f = "g e1"
  have v: "am_tx_view ?f = am_tx_view e1" by (rule polls)
  have inv: "am_fly_inv [] lost ?f" using w(3) am_fly_inv_view[OF v] by simp
  have f: "heap ?f = heap e" "am_sn_field_length ?f = am_sn_field_length e"
    using v w(2) by (simp_all add: am_tx_view_def)
  have hs: "am_compute_pdu_header_size ?f s = am_compute_pdu_header_size e s" by (rule am_header_cong[OF f(2)])
  have wf: "seg_wf (heap e) s" by (rule am_fly_wf[OF fly])
  obtain q e2 where ser: "am_poll_and_serialize ?f s buf (p e1) =
      Inr (am_compute_pdu_header_size e s + seg_size s,
           pdu_in_buffer (am_header_bits ?f q s) (seg_bytes (heap e) s) buf, e2)"
    and v2: "am_tx_view e2 = am_tx_view ?f"
    using am_poll_serialize_step[OF am_fly_invD(1)[OF inv], of s buf "p e1"] wf fit unfolding f hs by blast
  have e2: "heap e2 = heap e" "am_sn_field_length e2 = am_sn_field_length e" "am_wait_list e2 = l"
    "am_tx_list e2 = am_tx_list e" "am_retransmit_list e2 = am_retransmit_list e"
    using v2 v w(2) by (simp_all add: am_tx_view_def)
  have bits: "am_header_bits e2 q s = am_header_bits ?f q s" using e2 f by (simp add: am_header_bits_def)
  have lb: "length (am_header_bits ?f q s) = 8 * nat (am_compute_pdu_header_size e s)"
    using length_am_header_bits[OF am_fly_invD(1)[OF inv], of q s] unfolding hs .
  have ls: "length (seg_bytes (heap e) s) = nat (seg_size s)" by (rule length_seg_bytes[OF wf])
  note sz = seg_wf_size[OF wf] and hd = am_header_size_bounds[of e s]
  have n: "nat (am_compute_pdu_header_size e s + seg_size s)
      = length (am_header_bits ?f q s) div 8 + length (seg_bytes (heap e) s)"
    using lb ls hd sz by (simp add: nat_add_distrib)
  have len: "length (am_header_bits ?f q s) div 8 + length (seg_bytes (heap e) s) \<le> length buf"
    using n fit by linarith
  have "am_pdu_sent e0 buf (am_compute_pdu_header_size e s + seg_size s)
      (pdu_in_buffer (am_header_bits ?f q s) (seg_bytes (heap e) s) buf) (seg_bytes (heap e) s) e2"
    unfolding am_pdu_sent_def
  proof (intro conjI exI[of _ s] exI[of _ q])
    show "mset (am_wait_list e2) = add_mset s (mset (am_wait_list e0))" using w(4) wl by (simp add: e2)
    show "take (nat (am_compute_pdu_header_size e s + seg_size s))
        (pdu_in_buffer (am_header_bits ?f q s) (seg_bytes (heap e) s) buf)
        = bytes_of_bits (am_header_bits e2 q s) @ seg_bytes (heap e) s"
      unfolding bits by (rule take_pdu_in_buffer[OF n])
    show "seg_bytes (heap e) s \<noteq> []" using ls sz by auto
  qed (use fit sz hd wf len am_header_cong[OF e2(2), of s] in \<open>simp_all add: e2\<close>)
  moreover have "am_fly_inv [] lost e2" using inv am_fly_inv_view[OF v2] by simp
  ultimately show ?thesis using w(1) ser e2 by blast
qed

lemma am_view_stats [simp]:
  "am_tx_view (count_stat f e) = am_tx_view e"
  "am_tx_view (sample_waited_time now s e) = am_tx_view e"
  "am_tx_view (snd (am_poll_for_new_pdu s e)) = am_tx_view e"
  by (simp_all add: am_tx_view_def sample_waited_time_def am_poll_for_new_pdu_def Let_def)

lemma am_pdu_sent_view:
  assumes "am_tx_view f = am_tx_view e'"
  shows "am_pdu_sent e buf n buf' pl f = am_pdu_sent e buf n buf' pl e'"
proof -
  have v: "heap f = heap e'" "am_sn_field_length f = am_sn_field_length e'" "am_wait_list f = am_wait_list e'"
    using assms by (simp_all add: am_tx_view_def)
  have "am_compute_pdu_header_size f s = am_compute_pdu_header_size e' s"
    "am_header_bits f p s = am_header_bits e' p s" for s p
    using v by (simp_all add: am_header_bits_def am_header_cong[OF v(2)])
  then show ?thesis by (simp add: am_pdu_sent_def v)
qed

lemma am_lists_view:
  assumes "am_tx_view f = am_tx_view e"
  shows "am_unsent f = am_unsent e" "am_to_resend f = am_to_resend e" "am_tx_list f = am_tx_list e"
    "am_retransmit_list f = am_retransmit_list e" "am_wait_list f = am_wait_list e" "heap f = heap e"
  using assms by (simp_all add: am_tx_view_def am_unsent_def am_to_resend_def)

lemma am_generate_tx_pdu_step:
  assumes inv: "am_fly_inv [] lost e"
  shows "\<exists>n buf' e'. am_generate_tx_pdu now e buf = Inr (n, buf', e') \<and> am_fly_inv [] lost e'
     \<and> am_retransmit_list e' = am_retransmit_list e \<and> am_to_resend e' = am_to_resend e
     \<and> (if am_is_window_stalling e \<or> am_tx_list e = []
           \<or> int (length buf) < am_compute_pdu_header_size e (hd (am_tx_list e)) + 1
        then n = 0 \<and> buf' = buf \<and> e' = e
        else \<exists>payload. am_pdu_sent e buf n buf' payload e' \<and> am_unsent e = payload @ am_unsent e')"
proof (cases "am_is_window_stalling e \<or> am_tx_list e = []
    \<or> int (length buf) < am_compute_pdu_header_size e (hd (am_tx_list e)) + 1")
  case True
  then have "am_generate_tx_pdu now e buf = Inr (0, buf, e)"
    by (cases "am_tx_list e") (auto simp: am_generate_tx_pdu_def Let_def)
  then show ?thesis using True inv by auto
next
  case False
  then obtain s rest where l: "am_tx_list e = s # rest" by (cases "am_tx_list e") auto
  define sz where "sz = int (length buf)"
  have room: "am_compute_pdu_header_size e s + 1 \<le> sz" using False l by (simp add: sz_def)
  define e1 where "e1 = am_assign_sn s (am_take_tx_head s rest e)"
  have st: "\<not> am_is_window_stalling e" using False by simp
  note tk = am_take_tx_ok[OF inv l st e1_def]
  obtain s' e2 where seg: "am_segment_tx s sz e1 = (s', e2)" by (cases "am_segment_tx s sz e1")
  have hd1: "am_compute_pdu_header_size e1 s = am_compute_pdu_header_size e s" by (rule am_header_cong[OF tk(7)])
  have sg: "am_fly_inv [s'] lost e2" "am_compute_pdu_header_size e2 s' + seg_size s' \<le> sz"
    "seg_bytes (heap e2) s' @ am_unsent e2 = seg_bytes (heap e1) s @ am_unsent e1"
    "am_wait_list e2 = am_wait_list e1" "am_retransmit_list e2 = am_retransmit_list e1"
    "seg_bytes (heap e2) = seg_bytes (heap e1)"
    by (rule am_segment_tx_ok[OF tk(1) _ _ seg]; use tk(2,3) room hd1 in simp)+
  obtain n buf' e3 e4 where fin: "am_add_to_wait_list e2 s' = Inr e3"
    "am_poll_and_serialize (snd (am_poll_for_new_pdu s' e3)) s' buf (fst (am_poll_for_new_pdu s' e3))
       = Inr (n, buf', e4)"
    "am_fly_inv [] lost e4" "am_pdu_sent e buf n buf' (seg_bytes (heap e2) s') e4"
    "am_tx_list e4 = am_tx_list e2" "am_retransmit_list e4 = am_retransmit_list e2" "heap e4 = heap e2"
    using am_finish_pdu[OF sg(1), of buf e "\<lambda>f. snd (am_poll_for_new_pdu s' f)"
        "\<lambda>f. fst (am_poll_for_new_pdu s' f)"] sg(2,4) tk(4) by (auto simp: sz_def)
  define e' where "e' = sample_waited_time now s' (count_stat (\<lambda>t. t\<lparr>txpdu_pkts := txpdu_pkts t + 1,
                               txpdu_bytes := txpdu_bytes t + word_of_int n\<rparr>) e4)"
  have v: "am_tx_view e' = am_tx_view e4" unfolding e'_def by (simp only: am_view_stats)
  have gen: "am_generate_tx_pdu now e buf = Inr (n, buf', e')"
    using fin(1,2) st room l
    by (simp add: am_generate_tx_pdu_def Let_def sz_def[symmetric] e1_def[symmetric] seg e'_def
        case_prod_beta)
  have un: "am_unsent e = seg_bytes (heap e2) s' @ am_unsent e'"
    using sg(3) tk(2,6) l fin(5,7) by (simp add: am_lists_view[OF v]) (simp add: am_unsent_def)
  have "am_to_resend e' = am_to_resend e" "am_retransmit_list e' = am_retransmit_list e"
    using fin(6,7) sg(5,6) tk(5,6) by (simp_all add: am_lists_view[OF v]) (simp add: am_to_resend_def)
  moreover have "am_fly_inv [] lost e'" using fin(3) am_fly_inv_view[OF v] by simp
  moreover have "am_pdu_sent e buf n buf' (seg_bytes (heap e2) s') e'"
    using fin(4) am_pdu_sent_view[OF v] by simp
  ultimately show ?thesis using False gen un by auto
qed

lemma am_take_retx_ok:
  assumes inv: "am_fly_inv [] lost e" and l: "am_retransmit_list e = s # rest"
    and e1: "e1 = add_retx_size (- (am_compute_pdu_header_size e s + seg_size s)) (e\<lparr>am_retransmit_list := rest\<rparr>)"
  shows "am_fly_inv [s] lost e1"
    "\<forall>t \<in> set (am_retransmit_list e1). sn_so_le (am_dist e1) (seg_key (heap e1) s) (seg_key (heap e1) t)"
proof -
  note d = am_fly_invD[OF inv]
  have core: "am_core (am_sn_modulus e) (am_tx_next_ack e) (am_dist e (am_tx_next e)) (heap e)
      (am_tx_list e) (s # am_wait_list e @ rest) lost"
    by (rule am_core_mset[OF d(5)]) (simp add: l)
  have so: "am_sorted (am_sn_modulus e) (am_tx_next_ack e) (heap e) rest"
    and top: "\<forall>t \<in> set rest. sn_so_le (circ_dist (am_sn_modulus e) (am_tx_next_ack e))
                (seg_key (heap e) s) (seg_key (heap e) t)"
    using d(7) by (simp_all add: l am_sorted_def)
  show "am_fly_inv [s] lost e1"
    by (rule am_fly_invI[of e _ "am_dist e (am_tx_next e)"])
      (use d core so in \<open>simp_all add: e1 l am_dist_def\<close>)
  show "\<forall>t \<in> set (am_retransmit_list e1). sn_so_le (am_dist e1) (seg_key (heap e1) s) (seg_key (heap e1) t)"
    using top by (simp add: e1 am_dist_def sn_so_le_def)
qed

lemma am_generate_retx_pdu_step:
  assumes inv: "am_fly_inv [] lost e" and ne: "am_retransmit_list e \<noteq> []"
  shows "\<exists>n buf' e'. am_generate_retx_pdu e buf = Inr (n, buf', e') \<and> am_fly_inv [] lost e'
     \<and> am_tx_list e' = am_tx_list e \<and> am_unsent e' = am_unsent e
     \<and> (if int (length buf) < am_compute_pdu_header_size e (hd (am_retransmit_list e)) + 1
        then n = 0 \<and> buf' = buf \<and> e' = e
        else \<exists>payload. am_pdu_sent e buf n buf' payload e' \<and> am_to_resend e = payload @ am_to_resend e')"
proof -
  obtain s rest where l: "am_retransmit_list e = s # rest" using ne by (cases "am_retransmit_list e") auto
  show ?thesis
  proof (cases "int (length buf) < am_compute_pdu_header_size e s + 1")
    case True
    then have "am_generate_retx_pdu e buf = Inr (0, buf, e)" using l by (simp add: am_generate_retx_pdu_def Let_def)
    then show ?thesis using True inv l by auto
  next
    case False
    define sz where "sz = int (length buf)"
    have room: "am_compute_pdu_header_size e s + 1 \<le> sz" using False by (simp add: sz_def)
    define e1 where
      "e1 = add_retx_size (- (am_compute_pdu_header_size e s + seg_size s)) (e\<lparr>am_retransmit_list := rest\<rparr>)"
    note tk = am_take_retx_ok[OF inv l e1_def]
    have e1: "heap e1 = heap e" "am_wait_list e1 = am_wait_list e" "am_retransmit_list e1 = rest"
      "am_tx_list e1 = am_tx_list e" "am_sn_field_length e1 = am_sn_field_length e"
      by (simp_all add: e1_def)
    obtain s' e2 where seg: "am_segment_retx s sz e1 = (s', e2)" by (cases "am_segment_retx s sz e1")
    have hd1: "am_compute_pdu_header_size e1 s = am_compute_pdu_header_size e s" by (rule am_header_cong[OF e1(5)])
    have sg: "am_fly_inv [s'] lost e2" "am_compute_pdu_header_size e2 s' + seg_size s' \<le> sz"
      "seg_bytes (heap e2) s' @ am_to_resend e2 = seg_bytes (heap e1) s @ am_to_resend e1"
      "am_wait_list e2 = am_wait_list e1" "am_tx_list e2 = am_tx_list e1"
      "seg_bytes (heap e2) = seg_bytes (heap e1)"
      by (rule am_segment_retx_ok[OF tk _ seg]; use room hd1 in simp)+
    obtain n buf' e3 e4 where fin: "am_add_to_wait_list e2 s' = Inr e3"
      "am_poll_and_serialize e3 s' buf (am_check_poll_after_pdu_assembly e3) = Inr (n, buf', e4)"
      "am_fly_inv [] lost e4" "am_pdu_sent e buf n buf' (seg_bytes (heap e2) s') e4"
      "am_tx_list e4 = am_tx_list e2" "am_retransmit_list e4 = am_retransmit_list e2" "heap e4 = heap e2"
      using am_finish_pdu[OF sg(1), of buf e "\<lambda>f. f" am_check_poll_after_pdu_assembly] sg(2,4) e1(2)
      by (auto simp: sz_def)
    define e' where "e' = count_stat (\<lambda>s. s\<lparr>txpdu_pkts := txpdu_pkts s + 1,
                                 txpdu_bytes := txpdu_bytes s + word_of_int n,
                                 txpdu_retx_pkts := txpdu_retx_pkts s + 1,
                                 txpdu_retx_bytes := txpdu_retx_bytes s + word_of_int n\<rparr>) e4"
    have v: "am_tx_view e' = am_tx_view e4" unfolding e'_def by (simp only: am_view_stats)
    have gen: "am_generate_retx_pdu e buf = Inr (n, buf', e')"
      unfolding am_generate_retx_pdu_def l list.case Let_def sz_def[symmetric] e1_def[symmetric] seg prod.case
      using fin(1,2) room by (simp add: e'_def)
    have "am_to_resend e = seg_bytes (heap e2) s' @ am_to_resend e'"
      using sg(3) l fin(6,7) by (simp add: am_lists_view[OF v]) (simp add: am_to_resend_def e1)
    moreover have "am_unsent e' = am_unsent e" "am_tx_list e' = am_tx_list e"
      using fin(5,7) sg(5,6) e1 by (simp_all add: am_lists_view[OF v]) (simp add: am_unsent_def)
    moreover have "am_fly_inv [] lost e'" using fin(3) am_fly_inv_view[OF v] by simp
    moreover have "am_pdu_sent e buf n buf' (seg_bytes (heap e2) s') e'"
      using fin(4) am_pdu_sent_view[OF v] by simp
    ultimately show ?thesis using False gen l by auto
  qed
qed

end
