(* ===== verification/Rlc_Am_Report.thy ===== *)
theory Rlc_Am_Report
  imports Rlc_Am_Inv
begin

text \<open>
  STATUS PDUs: their generation never leaves the buffer and always ends, whatever the reception
  list holds, and the size the entity announces to the MAC layer is the size it generates.
\<close>

section \<open>The encoder at any position\<close>

definition enc_pos :: "nr_rlc_pdu_encoder \<Rightarrow> nat" where
  "enc_pos e = 8 * enc_byte e + enc_bit e"

lemma put_bit_pos:
  assumes "enc_bit e < 8" "enc_pos e < 8 * length (enc_buffer e)"
  shows "\<exists>e'. put_bit e b = Inr e' \<and> enc_bit e' < 8 \<and> enc_pos e' = enc_pos e + 1
     \<and> length (enc_buffer e') = length (enc_buffer e)"
proof -
  have "enc_byte e \<noteq> length (enc_buffer e)" using assms by (auto simp: enc_pos_def)
  then show ?thesis using assms by (auto simp: put_bit_def Let_def enc_pos_def)
qed

lemma put_bits_loop_pos:
  assumes "enc_bit e < 8" "enc_pos e + n \<le> 8 * length (enc_buffer e)"
  shows "\<exists>e'. put_bits_loop e v n = Inr e' \<and> enc_bit e' < 8 \<and> enc_pos e' = enc_pos e + n
     \<and> length (enc_buffer e') = length (enc_buffer e)"
  using assms
proof (induction n arbitrary: e)
  case 0
  then show ?case by simp
next
  case (Suc n)
  obtain e1 where "put_bit e (bit v n) = Inr e1" "enc_bit e1 < 8" "enc_pos e1 = enc_pos e + 1"
    "length (enc_buffer e1) = length (enc_buffer e)"
    using put_bit_pos[of e "bit v n"] Suc.prems by auto
  then show ?case using Suc.IH[of e1] Suc.prems by auto
qed

lemma put_bits_pos:
  assumes "enc_bit e < 8" "enc_pos e + n \<le> 8 * length (enc_buffer e)" "n \<le> 31"
  obtains e' where "nr_rlc_pdu_encoder_put_bits e v n = Inr e'" "enc_bit e' < 8"
    "enc_pos e' = enc_pos e + n" "length (enc_buffer e') = length (enc_buffer e)"
  using put_bits_loop_pos[OF assms(1,2), of v] assms(3) by (auto simp: nr_rlc_pdu_encoder_put_bits_def)

lemma enc_pos_aligned:
  "enc_bit e < 8 \<Longrightarrow> enc_pos e = 8 * k \<Longrightarrow> enc_byte e = k \<and> enc_bit e = 0"
  by (simp add: enc_pos_def) presburger

section \<open>One NACK\<close>

definition sg_ok :: "nat \<Rightarrow> status_gen \<Rightarrow> bool" where
  "sg_ok len g \<longleftrightarrow>
     enc_bit (sg_encoder g) = 0 \<and> length (enc_buffer (sg_encoder g)) = len
     \<and> enc_byte (sg_encoder g) \<le> len \<and> sg_e1_byte g < enc_byte (sg_encoder g)
     \<and> (\<forall>a. sg_so_end_address g = Some a \<longrightarrow> a + 1 < len)"

lemma am_nack_size_bits:
  assumes "am_config_ok e"
  shows "8 * am_nack_size e sn (so_start, sn_end, so_end) =
     int (am_sn_field_length e) + 3 + (if am_sn_field_length e = 18 then 3 else 1)
     + (if so_start = 0 \<and> so_end = 65535 then 0 else 32) + (if sn = sn_end then 0 else 8)"
  using assms by (auto simp: am_nack_size_def Let_def elim!: am_config_cases)

lemma am_nack_size_bounds: "2 \<le> am_nack_size e sn part" "am_sn_field_length e = 18 \<Longrightarrow> 3 \<le> am_nack_size e sn part"
  by (cases part; simp add: am_nack_size_def Let_def)+

lemma am_put_nack_ok:
  assumes cfg: "am_config_ok e" and g: "sg_ok len g"
    and fit: "int (enc_byte (sg_encoder g)) + am_nack_size e sn part \<le> int len"
  shows "\<exists>g'. am_put_nack e sn part n g = Inr g' \<and> sg_ok len g' \<and> sg_next g' = sg_next g
     \<and> int (enc_byte (sg_encoder g')) = int (enc_byte (sg_encoder g)) + am_nack_size e sn part"
proof -
  obtain so_start sn_end so_end where part: "part = (so_start, sn_end, so_end)" by (cases part)
  define L where "L = am_sn_field_length e"
  define r :: nat where "r = (if am_sn_field_length e = 18 then 3 else 1)"
  define range where "range \<longleftrightarrow> \<not> (so_start = 0 \<and> so_end = 65535)"
  define many where "many \<longleftrightarrow> sn \<noteq> sn_end"
  define v2 :: int where "v2 = of_bool range"
  define v3 :: int where "v3 = of_bool many"
  define w :: nat where "w = (if range then 32 else 0)"
  define c :: nat where "c = (if many then 8 else 0)"
  define b where "b = enc_byte (sg_encoder g)"
  have L: "L \<le> 31" "r \<le> 31" using cfg by (auto simp: L_def r_def elim!: am_config_cases)
  have total: "8 * am_nack_size e sn part = int (L + 3 + r + w + c)"
    using am_nack_size_bits[OF cfg, of sn so_start sn_end so_end]
    by (simp add: part L_def r_def w_def c_def range_def many_def)
  have room: "8 * b + (L + 3 + r + w + c) \<le> 8 * len"
    using fit total unfolding b_def by linarith
  define buf where "buf = (enc_buffer (sg_encoder g))[sg_e1_byte g :=
      enc_buffer (sg_encoder g) ! sg_e1_byte g OR push_bit (sg_e1_bit g) 1]"
  define enc where "enc = (sg_encoder g)\<lparr>enc_buffer := buf\<rparr>"
  have or: "or_byte (enc_buffer (sg_encoder g)) (sg_e1_byte g) (push_bit (sg_e1_bit g) 1) = Inr buf"
    using g by (simp add: or_byte_def sg_ok_def buf_def)
  have p0: "enc_bit enc < 8" "enc_pos enc = 8 * b" "length (enc_buffer enc) = len" "enc_byte enc = b"
    using g by (simp_all add: enc_def sg_ok_def enc_pos_def b_def buf_def)
  have fits: "8 * b + L \<le> 8 * len" "8 * b + L + 1 \<le> 8 * len" "8 * b + L + 2 \<le> 8 * len"
    "8 * b + L + 3 \<le> 8 * len" "8 * b + L + 3 + r \<le> 8 * len" "8 * b + L + 3 + r + w \<le> 8 * len"
    using room by linarith+
  obtain enc1 where e1: "nr_rlc_pdu_encoder_put_bits enc sn L = Inr enc1" "enc_bit enc1 < 8"
    "enc_pos enc1 = 8 * b + L" "length (enc_buffer enc1) = len"
    by (rule put_bits_pos[OF p0(1), of L sn]) (use p0 fits L in simp_all)
  obtain enc2 where e2: "nr_rlc_pdu_encoder_put_bits enc1 0 1 = Inr enc2" "enc_bit enc2 < 8"
    "enc_pos enc2 = 8 * b + L + 1" "length (enc_buffer enc2) = len"
    by (rule put_bits_pos[OF e1(2), of 1 0]) (use e1 fits in simp_all)
  obtain enc3 where e3: "nr_rlc_pdu_encoder_put_bits enc2 v2 1 = Inr enc3" "enc_bit enc3 < 8"
    "enc_pos enc3 = 8 * b + L + 2" "length (enc_buffer enc3) = len"
    by (rule put_bits_pos[OF e2(2), of 1 v2]) (use e2 fits in simp_all)
  obtain enc4 where e4: "nr_rlc_pdu_encoder_put_bits enc3 v3 1 = Inr enc4" "enc_bit enc4 < 8"
    "enc_pos enc4 = 8 * b + L + 3" "length (enc_buffer enc4) = len"
    by (rule put_bits_pos[OF e3(2), of 1 v3]) (use e3 fits in simp_all)
  obtain enc5 where e5: "nr_rlc_pdu_encoder_put_bits enc4 0 r = Inr enc5" "enc_bit enc5 < 8"
    "enc_pos enc5 = 8 * b + L + 3 + r" "length (enc_buffer enc5) = len"
    by (rule put_bits_pos[OF e4(2), of r 0]) (use e4 fits L in simp_all)
  define so_part where "so_part = (if v2 \<noteq> 0
      then rbind (nr_rlc_pdu_encoder_put_bits enc5 so_start 16) (\<lambda>enc6.
           rbind (nr_rlc_pdu_encoder_put_bits enc6 so_end 16) (\<lambda>enc7. Inr (enc7, Some (enc_byte enc6))))
      else Inr (enc5, None))"
  obtain enc8 adr where e8: "so_part = Inr (enc8, adr)" "enc_bit enc8 < 8"
    "enc_pos enc8 = 8 * b + L + 3 + r + w" "length (enc_buffer enc8) = len"
    "\<forall>a. adr = Some a \<longrightarrow> a + 1 < len"
  proof (cases range)
    case True
    then have w: "w = 32" "v2 \<noteq> 0" by (simp_all add: w_def v2_def)
    obtain enc6 where e6: "nr_rlc_pdu_encoder_put_bits enc5 so_start 16 = Inr enc6" "enc_bit enc6 < 8"
      "enc_pos enc6 = 8 * b + L + 3 + r + 16" "length (enc_buffer enc6) = len"
      by (rule put_bits_pos[OF e5(2), of 16 so_start]) (use e5 fits w in simp_all)
    obtain enc7 where e7: "nr_rlc_pdu_encoder_put_bits enc6 so_end 16 = Inr enc7" "enc_bit enc7 < 8"
      "enc_pos enc7 = 8 * b + L + 3 + r + 32" "length (enc_buffer enc7) = len"
      by (rule put_bits_pos[OF e6(2), of 16 so_end]) (use e6 fits w in simp_all)
    have "enc_byte enc6 + 1 < len" using e6(3) fits(6) w by (simp add: enc_pos_def)
    then show ?thesis using that[of enc7 "Some (enc_byte enc6)"] e6(1) e7 w by (simp add: so_part_def)
  next
    case False
    then show ?thesis using that[of enc5 None] e5 by (simp add: so_part_def w_def v2_def)
  qed
  define many_part where
    "many_part = (if v3 \<noteq> 0 then nr_rlc_pdu_encoder_put_bits enc8 (int n) 8 else Inr enc8)"
  obtain enc9 where e9: "many_part = Inr enc9" "enc_bit enc9 < 8"
    "enc_pos enc9 = 8 * b + (L + 3 + r + w + c)" "length (enc_buffer enc9) = len"
  proof (cases many)
    case True
    then have c: "c = 8" "v3 \<noteq> 0" by (simp_all add: c_def v3_def)
    obtain e' where "nr_rlc_pdu_encoder_put_bits enc8 (int n) 8 = Inr e'" "enc_bit e' < 8"
      "enc_pos e' = 8 * b + (L + 3 + r + w + 8)" "length (enc_buffer e') = len"
      by (rule put_bits_pos[OF e8(2), of 8 "int n"]) (use e8 room c in simp_all)
    then show ?thesis using that[of e'] c by (simp add: many_part_def)
  next
    case False
    then show ?thesis using that[of enc8] e8 by (simp add: many_part_def c_def v3_def)
  qed
  define k where "k = nat (am_nack_size e sn part)"
  have k: "L + 3 + r + w + c = 8 * k" "int k = am_nack_size e sn part"
    using total am_nack_size_bounds(1)[of e sn part] unfolding k_def by linarith+
  then have byte: "enc_byte enc9 = b + k" "enc_bit enc9 = 0"
    using enc_pos_aligned[OF e9(2), of "b + k"] e9(3) by simp_all
  define g' where "g' = g\<lparr>sg_encoder := enc9, sg_e1_byte := fst (am_get_e1_position e enc),
      sg_e1_bit := snd (am_get_e1_position e enc), sg_so_end_address := adr,
      sg_last_nack := (if v3 \<noteq> 0 then sn + (int n - 1) else sn)\<rparr>"
  have v: "(if so_start = 0 \<and> so_end = 65535 then 0 else 1) = v2" "(if sn = sn_end then 0 else 1) = v3"
    by (simp_all add: v2_def v3_def range_def many_def)
  have "am_put_nack e sn part n g = Inr g'"
    unfolding am_put_nack_def part prod.case or rbind_Inr Let_def enc_def[symmetric] v case_prod_beta
      r_def[symmetric]
    unfolding L_def[symmetric] v e1(1) e2(1)
      rbind_Inr e3(1) e4(1) e5(1) so_part_def[symmetric] e8(1) fst_conv snd_conv
      many_part_def[symmetric] e9(1) g'_def ..
  moreover have "sg_ok len g'"
  proof -
    have "fst (am_get_e1_position e enc) < b + k"
      using am_nack_size_bounds[of e sn part] k(2) p0(4) by (auto simp: am_get_e1_position_def)
    moreover have "b + k \<le> len" using fit k(2) by (simp add: b_def)
    ultimately show ?thesis using byte e9(4) e8(5) by (simp add: sg_ok_def g'_def)
  qed
  ultimately show ?thesis using byte k(2) by (simp add: g'_def b_def)
qed

section \<open>One missing range\<close>

text \<open>The loop that writes a range and the loop that computes its size go hand in hand.\<close>

lemma am_missing_size_step:
  assumes "am_config_ok e" "k \<noteq> 0"
  shows "am_missing_size_loop e m maxsize sn k sz c =
     (if sz + am_nack_size e sn (am_nack_part e m sn k) > maxsize then (c, sz, [])
      else am_missing_size_loop e m maxsize ((sn + int (min k 255)) mod am_sn_modulus e)
             (k - min k 255) (sz + am_nack_size e sn (am_nack_part e m sn k)) (c + 1))"
proof -
  obtain so_start sn_end so_end where part: "am_nack_part e m sn k = (so_start, sn_end, so_end)"
    by (cases "am_nack_part e m sn k")
  let ?bits = "int (am_sn_field_length e) + 3 + (if am_sn_field_length e = 18 then 3 else 1)"
  have bits: "?bits div 8 = 2 + (if am_sn_field_length e = 18 then 1 else 0)" "?bits mod 8 = 0"
    using assms(1) by (auto elim!: am_config_cases)
  have "(if sn = sn_end
          then if so_start = 0 \<and> so_end = 65535 then sz + ?bits div 8 else sz + (?bits + 16 * 2) div 8
          else if so_start = 0 \<and> so_end = 65535 then sz + (?bits + 8) div 8
               else sz + (?bits + 16 * 2 + 8) div 8)
      = sz + am_nack_size e sn (so_start, sn_end, so_end)"
    using assms(1) by (auto simp: am_nack_size_def Let_def elim!: am_config_cases)
  then show ?thesis
    using assms(2) by (subst am_missing_size_loop.simps) (simp add: part Let_def)
qed

lemma am_missing_loops:
  "am_config_ok e \<Longrightarrow> sg_ok len g \<Longrightarrow> sg_next g = md_next m \<Longrightarrow>
   \<exists>g' c'. am_generate_missing_loop e m sn k g = Inr g' \<and> sg_ok len g'
     \<and> am_missing_size_loop e m (int len) sn k (int (enc_byte (sg_encoder g))) c
       = (c', int (enc_byte (sg_encoder g')), sg_next g')
     \<and> c \<le> c' \<and> (k \<noteq> 0 \<longrightarrow> sg_next g' \<noteq> [] \<longrightarrow> c < c') \<and> (sg_next g' = [] \<or> sg_next g' = md_next m)
     \<and> enc_byte (sg_encoder g) \<le> enc_byte (sg_encoder g')"
proof (induction e m sn k g arbitrary: c rule: am_generate_missing_loop.induct)
  case (1 e m sn k g)
  show ?case
  proof (cases "k = 0")
    case True
    then show ?thesis using 1(3,4)
      by (simp add: am_generate_missing_loop.simps am_missing_size_loop.simps)
  next
    case False
    let ?part = "am_nack_part e m sn k" and ?b = "int (enc_byte (sg_encoder g))"
    have len: "length (enc_buffer (sg_encoder g)) = len" using 1(3) by (simp add: sg_ok_def)
    note sz = am_missing_size_step[OF 1(2) False]
    show ?thesis
    proof (cases "?b + am_nack_size e sn ?part > int len")
      case True
      then have "am_generate_missing_loop e m sn k g = Inr (g\<lparr>sg_next := [], sg_truncated := True\<rparr>)"
        using False len by (subst am_generate_missing_loop.simps) (simp add: Let_def)
      moreover have "sg_ok len (g\<lparr>sg_next := [], sg_truncated := True\<rparr>)" using 1(3) by (simp add: sg_ok_def)
      ultimately show ?thesis using True by (simp add: sz)
    next
      case fit: False
      then obtain g1 where g1: "am_put_nack e sn ?part (min k 255) g = Inr g1" "sg_ok len g1"
        "sg_next g1 = sg_next g" "int (enc_byte (sg_encoder g1)) = ?b + am_nack_size e sn ?part"
        using am_put_nack_ok[OF 1(2,3), of sn ?part "min k 255"] by auto
      have gen: "am_generate_missing_loop e m sn k g
          = am_generate_missing_loop e m ((sn + int (min k 255)) mod am_sn_modulus e) (k - min k 255) g1"
        using False fit len g1(1) by (subst am_generate_missing_loop.simps) (simp add: Let_def)
      have IH: "\<exists>g' c'. am_generate_missing_loop e m ((sn + int (min k 255)) mod am_sn_modulus e) (k - min k 255) g1 = Inr g'
          \<and> sg_ok len g'
          \<and> am_missing_size_loop e m (int len) ((sn + int (min k 255)) mod am_sn_modulus e) (k - min k 255)
              (int (enc_byte (sg_encoder g1))) (c + 1) = (c', int (enc_byte (sg_encoder g')), sg_next g')
          \<and> c + 1 \<le> c' \<and> (k - min k 255 \<noteq> 0 \<longrightarrow> sg_next g' \<noteq> [] \<longrightarrow> c + 1 < c')
          \<and> (sg_next g' = [] \<or> sg_next g' = md_next m)
          \<and> enc_byte (sg_encoder g1) \<le> enc_byte (sg_encoder g')"
        by (rule 1(1)[OF False refl refl _ g1(1) 1(2) g1(2)]) (use fit len 1(4) g1(3) in simp_all)
      moreover have "enc_byte (sg_encoder g) \<le> enc_byte (sg_encoder g1)"
        using g1(4) am_nack_size_bounds(1)[of e sn ?part] by linarith
      ultimately show ?thesis using fit by (auto simp: sz gen g1(4))
    qed
  qed
qed

section \<open>The loop over the missing ranges\<close>

text \<open>Every search but the first one starts at a shorter rest of the reception list.\<close>

lemma am_set_end_next: "md_next (am_set_end_different_sdu e cur l sn so) = l \<or>
    md_next (am_set_end_different_sdu e cur l sn so) = []"
  by (simp add: am_set_end_different_sdu_def Let_def)

lemma am_next_missing_loop_next:
  "am_next_missing_loop e so lr l = Some m \<Longrightarrow> length (md_next m) < length l"
proof (induction e so lr l rule: am_next_missing_loop.induct)
  case (1 e so lr)
  then show ?case by simp
next
  case (2 e so lr cur rest)
  show ?case
  proof (cases rest)
    case Nil
    then show ?thesis using 2(3)
      by (auto simp: Let_def am_missing_at_end_def split: if_splits prod.splits)
  next
    case (Cons nxt l)
    have d: "length (md_next m) \<le> length rest"
      if "am_discontinuity e (pdu_sn cur) a b nxt rest = Some m" for a b
      using that am_set_end_next[of e nxt rest] unfolding am_discontinuity_def Let_def
      by (auto split: if_splits prod.splits) (metis length_0_conv zero_le order_refl)+
    have "am_next_missing_loop e so' lr' rest = Some m \<Longrightarrow> length (md_next m) < Suc (length rest)"
      if "\<And>so' lr'. am_next_missing_loop e so' lr' rest = Some m \<Longrightarrow> length (md_next m) < length rest" for so' lr'
      using that[of so' lr'] by simp
    then show ?thesis
      using 2(1)[OF refl refl Cons] 2(2)[OF refl refl Cons] 2(3) d unfolding Cons
      by (auto simp: Let_def less_Suc_eq_le split: if_splits)
  qed
qed

lemma am_next_missing_next:
  assumes "am_next_missing e l ch = Some m"
  shows "length (md_next m) \<le> length l" "\<not> ch \<Longrightarrow> length (md_next m) < length l"
proof -
  obtain cur rest where l: "l = cur # rest" using assms by (cases l) (auto simp: am_next_missing_def)
  show less: "\<not> ch \<Longrightarrow> length (md_next m) < length l"
    using assms am_next_missing_loop_next[of e 0 False l m] by (simp add: am_next_missing_def l)
  show "length (md_next m) \<le> length l"
  proof (cases "ch \<and> (pdu_sn cur \<noteq> am_rx_next e \<or> \<not> pdu_is_first cur)")
    case True
    then have "m = am_set_end_different_sdu e cur l (am_rx_next e) 0"
      using assms by (simp add: am_next_missing_def l split: if_splits)
    then show ?thesis using am_set_end_next[of e cur l "am_rx_next e" 0] by auto
  next
    case False
    then have "am_next_missing_loop e 0 False l = Some m"
      using assms unfolding am_next_missing_def l by (simp split: if_splits)
    then show ?thesis by (simp add: am_next_missing_loop_next less_imp_le)
  qed
qed

lemma am_force_so_end_ok:
  assumes "sg_ok len g"
  shows "\<exists>g'. am_force_so_end g = Inr g' \<and> sg_ok len g' \<and> sg_next g' = sg_next g
     \<and> enc_byte (sg_encoder g') = enc_byte (sg_encoder g)"
  using assms by (auto simp: am_force_so_end_def sg_ok_def split: option.split)

lemma am_status_loops:
  "am_config_ok e \<Longrightarrow> sg_ok len g \<Longrightarrow> length cur + (if c = 0 then 1 else 0) \<le> fuel \<Longrightarrow>
   \<exists>lst g'. am_status_loop e fuel (c = 0) cur la g = Inr (lst, g') \<and> sg_ok len g'
     \<and> am_status_size_loop e (int len) fuel c cur (int (enc_byte (sg_encoder g)))
       = Inr (int (enc_byte (sg_encoder g')))
     \<and> enc_byte (sg_encoder g) \<le> enc_byte (sg_encoder g')"
proof (induction fuel arbitrary: c cur la g)
  case 0
  then show ?case by (simp add: am_status_loop.simps am_status_size_loop.simps)
next
  case (Suc fuel)
  show ?case
  proof (cases "cur = [] \<or> am_next_missing e cur (c = 0) = None")
    case True
    then show ?thesis using Suc.prems(2)
      by (auto simp: am_status_loop.simps[of e "Suc fuel"] am_status_size_loop.simps[of e _ "Suc fuel"])
  next
    case False
    then obtain m where m: "cur \<noteq> []" "am_next_missing e cur (c = 0) = Some m" by auto
    let ?g = "g\<lparr>sg_truncated := False, sg_next := md_next m, sg_last_nack := - 1\<rparr>"
    have g: "sg_ok len ?g" "sg_next ?g = md_next m" using Suc.prems(2) by (simp_all add: sg_ok_def)
    have pos: "am_sn_count e m \<noteq> 0"
      using am_config_pos[OF Suc.prems(1)] by (simp add: am_sn_count_def nat_add_distrib)
    have eq: "am_generate_missing e m (g\<lparr>sg_truncated := False\<rparr>)
        = am_generate_missing_loop e m (md_sn_start m) (am_sn_count e m) ?g"
      by (simp add: am_generate_missing_def)
    obtain g1 c1 where g1: "am_generate_missing e m (g\<lparr>sg_truncated := False\<rparr>) = Inr g1" "sg_ok len g1"
      "am_missing_size e m (int (enc_byte (sg_encoder g))) (int len)
         = (c1, int (enc_byte (sg_encoder g1)), sg_next g1)"
      "sg_next g1 \<noteq> [] \<Longrightarrow> 0 < c1" "sg_next g1 = [] \<or> sg_next g1 = md_next m"
      "enc_byte (sg_encoder g) \<le> enc_byte (sg_encoder g1)"
      using am_missing_loops[OF Suc.prems(1) g, of "md_sn_start m" "am_sn_count e m" 0] pos
      unfolding eq am_missing_size_def by auto
    obtain g2 where g2: "am_force_so_end g1 = Inr g2" "sg_ok len g2" "sg_next g2 = sg_next g1"
      "enc_byte (sg_encoder g2) = enc_byte (sg_encoder g1)"
      using am_force_so_end_ok[OF g1(2)] by blast
    define la' where "la' = (if sg_last_nack g1 \<noteq> - 1 then sg_last_nack g1 else la)"
    have step: "am_status_loop e (Suc fuel) (c = 0) cur la g
          = am_status_loop e fuel False (sg_next g1) la' g2"
      "am_status_size_loop e (int len) (Suc fuel) c cur (int (enc_byte (sg_encoder g)))
          = am_status_size_loop e (int len) fuel (c + c1) (sg_next g1) (int (enc_byte (sg_encoder g2)))"
      using m g1(1,3) g2
      by (simp_all add: am_status_loop.simps[of e "Suc fuel"] am_status_size_loop.simps[of e _ "Suc fuel"]
          la'_def)
    show ?thesis
    proof (cases "sg_next g1 = []")
      case True
      then show ?thesis using g2(2,4) g1(6) unfolding step True
        by (simp add: am_status_loop.simps[of e fuel] am_status_size_loop.simps[of e _ fuel])
    next
      case False
      then have nz: "c + c1 \<noteq> 0" and nx: "sg_next g1 = md_next m" using g1(4,5) by auto
      have "length (sg_next g1) + (if c + c1 = 0 then 1 else 0) \<le> fuel"
        using am_next_missing_next[OF m(2)] Suc.prems(3) nz by (auto simp: nx split: if_splits)
      then show ?thesis
        using Suc.IH[OF Suc.prems(1) g2(2), of "sg_next g1" "c + c1" la'] nz g2(4) g1(6)
        by (auto simp: step)
    qed
  qed
qed

section \<open>The STATUS PDU\<close>

lemma length_am_write_ack_sn [simp]: "length (am_write_ack_sn e a b) = length b"
  by (simp add: am_write_ack_sn_def Let_def)

lemma am_generate_status_step:
  assumes cfg: "am_config_ok e"
  shows "\<exists>n buf' e'. am_generate_status e buf = Inr (n, buf', e')
     \<and> am_status_size e (int (length buf)) = Inr n \<and> 0 \<le> n \<and> n \<le> int (length buf) \<and> length buf' = length buf
     \<and> am_tx_view e' = am_tx_view e \<and> am_rx_list e' = am_rx_list e \<and> am_rx_next e' = am_rx_next e
     \<and> (if length buf < 3 then n = 0 \<and> buf' = buf \<and> e' = e else 3 \<le> n \<and> \<not> am_status_triggered e')"
proof (cases "length buf < 3")
  case True
  then show ?thesis by (simp add: am_generate_status_def am_status_size_def)
next
  case False
  have at: "nr_rlc_pdu_encoder_put_bits (nr_rlc_pdu_encoder_init buf) 0 (8 * 3) = Inr (enc_at buf (val_bits 24 0))"
    using False by (simp add: enc_simps)
  let ?g = "\<lparr>sg_encoder = enc_at buf (val_bits 24 0), sg_e1_byte = 2,
      sg_e1_bit = (if am_sn_field_length e = 18 then 1 else 7), sg_next = [],
      sg_truncated = False, sg_so_end_address = None, sg_last_nack = - 1\<rparr>"
  have g: "sg_ok (length buf) ?g"
    using False by (simp add: sg_ok_def length_enc_buffer_enc_at)
  obtain lst g' where loop: "am_status_loop e (Suc (length (am_rx_list e))) True (am_rx_list e)
      ((am_rx_next e - 1 + am_sn_modulus e) mod am_sn_modulus e) ?g = Inr (lst, g')" "sg_ok (length buf) g'"
    "am_status_size_loop e (int (length buf)) (Suc (length (am_rx_list e))) 0 (am_rx_list e) 3
      = Inr (int (enc_byte (sg_encoder g')))" "3 \<le> enc_byte (sg_encoder g')"
    using am_status_loops[OF cfg g, of "am_rx_list e" 0 "Suc (length (am_rx_list e))"
        "(am_rx_next e - 1 + am_sn_modulus e) mod am_sn_modulus e"] by auto
  have size: "am_status_size e (int (length buf)) = Inr (int (enc_byte (sg_encoder g')))"
    using False loop(3) by (simp add: am_status_size_def)
  show ?thesis
    using False loop(1,2,4)
    unfolding am_generate_status_def at size
    by (simp add: sg_ok_def Let_def am_tx_view_def)
qed

end
