(* ===== verification/Rlc_Am_Run.thy ===== *)
theory Rlc_Am_Run
  imports Rlc_Am_Send Rlc_Am_Report Rlc_Entities
begin

text \<open>
  The operations of the AM transmitter as a whole: SDUs, PDU requests, discard, the poll timer,
  re-establishment and deletion, with the properties of the invariant \<open>am_tx_inv\<close>.
\<close>

section \<open>Concrete states\<close>

text \<open>A fresh entity and one with a waiting SDU, for the concrete instances.\<close>

lemma new_am_inv:
  "new_nr_rlc_entity_am rx tx a b c d f g len = Inr e \<Longrightarrow> am_tx_inv [] e \<and> am_tx_maxsize e = tx * 5"
  by (auto simp: new_nr_rlc_entity_am_def rbind_eq_Inr am_tx_inv_def am_fly_inv_def am_config_ok_def
      am_sn_ok_def am_core_empty zero_bstatus_def push_bit_eq_mult rcheck_def am_sorted_def am_dist_def
      alloc_bytes_empty store_inv_empty split: if_splits)

definition am_empty :: nr_rlc_entity_am where
  "am_empty = projr (new_nr_rlc_entity_am 1000 1000 45 35 0 (- 1) (- 1) 4 12)"

lemma am_empty_eq: "new_nr_rlc_entity_am 1000 1000 45 35 0 (- 1) (- 1) 4 12 = Inr am_empty"
  by (simp add: am_empty_def new_nr_rlc_entity_am_def time_average_new_def)

lemma am_empty_simps:
  "am_tx_inv [] am_empty" "am_tx_list am_empty = []" "am_retransmit_list am_empty = []"
  "am_wait_list am_empty = []" "heap am_empty = empty_heap" "am_tx_size am_empty = 0"
  "am_tx_maxsize am_empty = 5000" "am_sn_field_length am_empty = 12" "avg_time_is_on am_empty = False"
  "am_sdu_rejected am_empty = 0" "am_tx_end am_empty = None" "am_tx_next am_empty = 0"
  "am_tx_next_ack am_empty = 0" "am_sn_modulus am_empty = 4096" "am_window_size am_empty = 2048"
  "am_status_triggered am_empty = False" "am_rx_list am_empty = []" "am_rx_size am_empty = 0"
  "am_rx_maxsize am_empty = 5000" "am_rx_next am_empty = 0" "am_config_ok am_empty"
  "am_force_poll am_empty = False"
  using new_am_inv[OF am_empty_eq]
  by (auto simp: am_empty_def) (auto simp: new_nr_rlc_entity_am_def time_average_new_def push_bit_eq_mult
      am_config_ok_def)

definition am_loaded :: nr_rlc_entity_am where
  "am_loaded = projr (nr_rlc_entity_am_recv_sdu 0 am_empty [1, 2, 3] 7)"

abbreviation am_loaded_seg :: nr_rlc_sdu_segment where
  "am_loaded_seg \<equiv> \<lparr>seg_addr = 0, seg_sdu = 0, seg_size = 3, seg_so = 0, seg_is_first = True, seg_is_last = True\<rparr>"

section \<open>SDUs from the upper layer\<close>

lemma am_arrives_view:
  "am_tx_view (am_sdu_arrives e) = am_tx_view e" "am_tx_maxsize (am_sdu_arrives e) = am_tx_maxsize e"
  "avg_time_is_on (am_sdu_arrives e) = avg_time_is_on e"
  "am_status_triggered (am_sdu_arrives e) = am_status_triggered e"
  by (simp_all add: am_sdu_arrives_def am_log_rejected_def am_tx_view_def)

lemma am_recv_sdu_step:
  assumes inv: "am_tx_inv lost e" and buf: "buf \<noteq> []" "int (length buf) \<le> NR_SDU_MAX"
  shows "\<exists>e'. nr_rlc_entity_am_recv_sdu now e buf i = Inr e' \<and> am_tx_inv lost e'
     \<and> am_wait_list e' = am_wait_list e \<and> am_retransmit_list e' = am_retransmit_list e
     \<and> am_status_triggered e' = am_status_triggered e \<and> am_to_resend e' = am_to_resend e
     \<and> (if am_tx_size e + int (length buf) \<le> am_tx_maxsize e
        then am_unsent e' = am_unsent e @ buf \<and> am_tx_size e' = am_tx_size e + int (length buf)
             \<and> length (am_tx_list e') = Suc (length (am_tx_list e))
             \<and> map (seg_bytes (heap e')) (am_tx_list e') = map (seg_bytes (heap e)) (am_tx_list e) @ [buf]
        else am_tx_view e' = am_tx_view e)"
proof -
  define e0 where "e0 = am_sdu_arrives e"
  note v = am_arrives_view[of e, folded e0_def]
  have inv0: "am_fly_inv [] lost e0" using inv am_fly_inv_view[OF v(1)] by (simp add: am_tx_inv_def)
  note d = am_fly_invD[OF inv0]
  have f: "am_tx_size e0 = am_tx_size e" "heap e0 = heap e" "am_tx_list e0 = am_tx_list e"
    "am_wait_list e0 = am_wait_list e" "am_retransmit_list e0 = am_retransmit_list e"
    using v(1) by (simp_all add: am_tx_view_def)
  show ?thesis
  proof (cases "am_tx_size e + int (length buf) \<le> am_tx_maxsize e")
    case False
    define e' where "e' = e0\<lparr>am_sdu_rejected := am_sdu_rejected e0 + 1\<rparr>"
    have v': "am_tx_view e' = am_tx_view e" unfolding v(1)[symmetric] by (simp add: e'_def am_tx_view_def)
    have "nr_rlc_entity_am_recv_sdu now e buf i = Inr e'"
      using False buf f v(2) by (simp add: nr_rlc_entity_am_recv_sdu_def Let_def e0_def[symmetric] e'_def)
    moreover have "am_tx_inv lost e'" using inv am_fly_inv_view[OF v'] by (simp add: am_tx_inv_def)
    ultimately show ?thesis
      using False am_lists_view[OF v'] v' v(4) by (auto simp: e'_def)
  next
    case True
    define e1 where "e1 = count_stat (\<lambda>s. s\<lparr>rxsdu_bytes := rxsdu_bytes s + word_of_int (int (length buf))\<rparr>)
        (e0\<lparr>am_tx_size := am_tx_size e0 + int (length buf)\<rparr>)"
    obtain seg h where new: "nr_rlc_new_sdu (heap e0) buf i = (seg, h)" by fastforce
    note core = am_core_new[OF d(5) new buf]
    have app: "nr_rlc_sdu_segment_list_append (am_tx_list e0) (am_tx_end e0) seg
        = Inr (am_tx_list e0 @ [seg], list_end (am_tx_list e0 @ [seg]))"
      unfolding d(8) by (rule segq.append_ok) (use store_inv_addr[OF am_coreD(1)[OF d(5)]] in simp)
    define h' where "h' = (if avg_time_is_on e0 then update_sdu (\<lambda>s. s\<lparr>sdu_time_of_arrival := now\<rparr>) seg h else h)"
    define e' where "e' = stamp_arrival now seg
        (add_tx_size (am_compute_pdu_header_size e1 seg + seg_size seg)
          ((set_heap h e1)\<lparr>am_tx_list := am_tx_list e0 @ [seg], am_tx_end := list_end (am_tx_list e0 @ [seg])\<rparr>))"
    have run: "nr_rlc_entity_am_recv_sdu now e buf i = Inr e'"
      using True buf f v(2) new app
      by (simp add: nr_rlc_entity_am_recv_sdu_def Let_def e0_def[symmetric] e'_def e1_def)
    have e': "heap e' = h'" "am_tx_list e' = am_tx_list e0 @ [seg]"
      "am_tx_end e' = list_end (am_tx_list e0 @ [seg])" "am_wait_list e' = am_wait_list e0"
      "am_wait_end e' = am_wait_end e0" "am_retransmit_list e' = am_retransmit_list e0"
      "am_sn_field_length e' = am_sn_field_length e0" "am_sn_modulus e' = am_sn_modulus e0"
      "am_window_size e' = am_window_size e0" "am_tx_next e' = am_tx_next e0"
      "am_tx_next_ack e' = am_tx_next_ack e0" "am_tx_size e' = am_tx_size e0 + int (length buf)"
      "bs_tx_size (bstatus e') = am_pdu_bytes e0 (am_tx_list e0 @ [seg])"
      "bs_retx_size (bstatus e') = bs_retx_size (bstatus e0)"
      "am_status_triggered e' = am_status_triggered e0"
      using d(10) am_header_cong[of e1 e0 seg]
      by (simp_all add: e'_def e1_def h'_def stamp_arrival_def)
    have core': "am_core (am_sn_modulus e0) (am_tx_next_ack e0) (am_dist e0 (am_tx_next e0)) h'
        (am_tx_list e0 @ [seg]) ([] @ am_wait_list e0 @ am_retransmit_list e0) lost"
      using core(1) am_core_update[OF core(1), of "\<lambda>s. s\<lparr>sdu_time_of_arrival := now\<rparr>" seg]
      by (simp add: h'_def)
    have al: "alloc_bytes h' = alloc_bytes (heap e0) + int (length buf)"
      using core(2) by (simp add: h'_def alloc_bytes_update)
    have "seg_key h' t = seg_key (heap e0) t" if "t \<in> set (am_tx_list e0 @ [] @ am_wait_list e0 @ am_retransmit_list e0)" for t
    proof -
      have "seg_key h' t = seg_key h t" by (simp add: seg_key_def sdu_of_def h'_def)
      then show ?thesis using core(3)[OF that] by (simp add: seg_key_def)
    qed
    then have so: "am_sorted (am_sn_modulus e0) (am_tx_next_ack e0) h' (am_wait_list e0)"
      "am_sorted (am_sn_modulus e0) (am_tx_next_ack e0) h' (am_retransmit_list e0)"
      using d(6,7) by (simp_all add: am_sorted_cong[of _ h' "heap e0"])
    have "am_fly_inv [] lost e'"
      by (rule am_fly_invI[of e0 _ "am_dist e0 (am_tx_next e0)"])
        (use d core' so al e' in \<open>simp_all add: am_dist_def\<close>)
    moreover have sb': "seg_bytes h' = seg_bytes h" by (rule seg_bytes_cong) (simp add: h'_def)
    have sb: "seg_bytes h' seg = buf" "seg_bytes h' t = seg_bytes (heap e) t"
      if "t \<in> set (am_tx_list e0 @ am_wait_list e0 @ am_retransmit_list e0 @ lost)" for t
      using seg_bytes_new[OF am_coreD(1)[OF d(5)] new] that by (auto simp: sb' f(2))
    have sbs: "seg_bytes h' seg = buf" using seg_bytes_new(1)[OF am_coreD(1)[OF d(5)] new] by (simp add: sb')
    have maps: "map (seg_bytes h') (am_tx_list e0) = map (seg_bytes (heap e)) (am_tx_list e0)"
      "map (seg_bytes h') (am_retransmit_list e0) = map (seg_bytes (heap e)) (am_retransmit_list e0)"
      using sb(2) by simp_all
    ultimately show ?thesis
      using True run e' sbs f v(4)
      by (auto simp: am_tx_inv_def am_unsent_def am_to_resend_def maps[unfolded f])
  qed
qed

lemma am_loaded_simps:
  "am_tx_list am_loaded = [am_loaded_seg]" "heap am_loaded = snd (nr_rlc_new_sdu empty_heap [1, 2, 3] 7)"
  "am_tx_inv [] am_loaded" "am_sn_field_length am_loaded = 12" "am_retransmit_list am_loaded = []"
  "am_wait_list am_loaded = []" "am_tx_size am_loaded = 3" "am_tx_maxsize am_loaded = 5000"
  "am_unsent am_loaded = [1, 2, 3]" "am_status_triggered am_loaded = False" "am_tx_next am_loaded = 0"
  "am_tx_next_ack am_loaded = 0" "am_sn_modulus am_loaded = 4096" "am_window_size am_loaded = 2048"
  "am_config_ok am_loaded" "am_tx_end am_loaded = Some 0"
proof -
  obtain h where new: "nr_rlc_new_sdu empty_heap [1, 2, 3] 7 = (am_loaded_seg, h)"
    by (simp add: nr_rlc_new_sdu_def empty_heap_def Let_def)
  have ld: "nr_rlc_entity_am_recv_sdu 0 am_empty [1, 2, 3] 7 = Inr am_loaded"
    "am_loaded = add_tx_size 5 ((set_heap h (count_stat (\<lambda>s. s\<lparr>rxsdu_bytes := rxsdu_bytes s + 3\<rparr>)
       ((am_sdu_arrives am_empty)\<lparr>am_tx_size := 3\<rparr>)))\<lparr>am_tx_list := [am_loaded_seg], am_tx_end := Some 0\<rparr>)"
    using new by (simp_all add: am_loaded_def nr_rlc_entity_am_recv_sdu_def Let_def am_empty_simps NR_SDU_MAX_def
        am_sdu_arrives_def am_log_rejected_def nr_rlc_sdu_segment_list_append_def stamp_arrival_def
        am_compute_pdu_header_size_def)
  show inv: "am_tx_inv [] am_loaded" and "am_unsent am_loaded = [1, 2, 3]"
    using am_recv_sdu_step[OF am_empty_simps(1), of "[1, 2, 3]" 0 7] ld(1)
    by (auto simp: NR_SDU_MAX_def am_empty_simps am_unsent_def)
  show "am_config_ok am_loaded" using am_fly_invD(1) inv by (simp add: am_tx_inv_def)
  show "am_tx_list am_loaded = [am_loaded_seg]" "heap am_loaded = snd (nr_rlc_new_sdu empty_heap [1, 2, 3] 7)"
    "am_sn_field_length am_loaded = 12" "am_retransmit_list am_loaded = []"
    "am_wait_list am_loaded = []" "am_tx_size am_loaded = 3" "am_tx_maxsize am_loaded = 5000"
    "am_status_triggered am_loaded = False" "am_tx_next am_loaded = 0"
    "am_tx_next_ack am_loaded = 0" "am_sn_modulus am_loaded = 4096" "am_window_size am_loaded = 2048"
    "am_tx_end am_loaded = Some 0"
    by (simp_all add: ld(2) new am_sdu_arrives_def am_log_rejected_def am_empty_simps)
qed

section \<open>PDU requests\<close>

text \<open>
  A data PDU takes its payload from the front of the retransmission list or, when nothing of that
  list fits, of the transmission list.
\<close>

definition am_data_sent ::
  "nr_rlc_entity_am \<Rightarrow> byte list \<Rightarrow> int \<Rightarrow> byte list \<Rightarrow> nr_rlc_entity_am \<Rightarrow> bool" where
  "am_data_sent e buf n buf' e' \<longleftrightarrow>
     (\<exists>payload. am_pdu_sent e buf n buf' payload e'
        \<and> (am_to_resend e = payload @ am_to_resend e' \<and> am_unsent e' = am_unsent e
            \<and> am_retransmit_list e \<noteq> []
           \<or> \<not> am_is_window_stalling e
              \<and> am_unsent e = payload @ am_unsent e' \<and> am_to_resend e' = am_to_resend e
              \<and> am_retransmit_list e' = am_retransmit_list e))"

lemma am_generate_pdu_step:
  assumes inv: "am_tx_inv lost e"
  shows "\<exists>n buf' e'. nr_rlc_entity_am_generate_pdu now e buf = Inr (n, buf', e') \<and> am_tx_inv lost e'
     \<and> (n = 0 \<and> buf' = buf \<and> e' = e
        \<or> am_status_to_report e \<and> am_status_size e (int (length buf)) = Inr n
            \<and> 3 \<le> n \<and> n \<le> int (length buf) \<and> length buf' = length buf \<and> am_tx_view e' = am_tx_view e
        \<or> am_data_sent e buf n buf' e')"
proof -
  note fly = inv[unfolded am_tx_inv_def]
  have data: "\<exists>n buf' e'. (rbind (if am_retransmit_list e \<noteq> [] then am_generate_retx_pdu e buf else Inr (0, buf, e))
        (\<lambda>(ret, buffer2, e2).
           if ret \<noteq> 0 then Inr (ret, buffer2, e2) else am_generate_tx_pdu now e2 buffer2)) = Inr (n, buf', e')
     \<and> am_tx_inv lost e'
     \<and> (n = 0 \<and> buf' = buf \<and> e' = e
        \<or> am_data_sent e buf n buf' e')"
  proof -
    have tx: "\<exists>n buf' e'. am_generate_tx_pdu now e buf = Inr (n, buf', e') \<and> am_tx_inv lost e'
       \<and> (n = 0 \<and> buf' = buf \<and> e' = e \<or> am_data_sent e buf n buf' e')"
      using am_generate_tx_pdu_step[OF fly, of now buf] unfolding am_tx_inv_def am_data_sent_def by (meson)
    show ?thesis
    proof (cases "am_retransmit_list e = []
        \<or> int (length buf) < am_compute_pdu_header_size e (hd (am_retransmit_list e)) + 1")
      case True
      then have "(if am_retransmit_list e \<noteq> [] then am_generate_retx_pdu e buf else Inr (0, buf, e)) = Inr (0, buf, e)"
        using am_generate_retx_pdu_step[OF fly, of buf] by auto
      then show ?thesis using tx by auto
    next
      case False
      then obtain n buf' e' payload where g: "am_generate_retx_pdu e buf = Inr (n, buf', e')"
        "am_fly_inv [] lost e'" "am_unsent e' = am_unsent e" "am_pdu_sent e buf n buf' payload e'"
        "am_to_resend e = payload @ am_to_resend e'"
        using am_generate_retx_pdu_step[OF fly, of buf] by auto
      then have "n \<noteq> 0" by (simp add: am_pdu_sent_def)
      moreover have "am_data_sent e buf n buf' e'" using g(3-5) False unfolding am_data_sent_def by blast
      ultimately show ?thesis using g(1,2) False by (auto simp: am_tx_inv_def)
    qed
  qed
  show ?thesis
  proof (cases "am_status_to_report e \<and> 3 \<le> length buf")
    case True
    then obtain n buf' e' where g: "am_generate_status e buf = Inr (n, buf', e')"
      "am_status_size e (int (length buf)) = Inr n" "3 \<le> n" "n \<le> int (length buf)" "length buf' = length buf"
      "am_tx_view e' = am_tx_view e"
      using am_generate_status_step[OF am_fly_invD(1)[OF fly], of buf] by auto
    have "nr_rlc_entity_am_generate_pdu now e buf = Inr (n, buf', e')"
      using True g(1,3) unfolding nr_rlc_entity_am_generate_pdu_def by simp
    moreover have "am_tx_inv lost e'" using fly am_fly_inv_view[OF g(6)] by (simp add: am_tx_inv_def)
    ultimately show ?thesis using True g(2-6) by blast
  next
    case False
    then have "(if am_status_to_report e then am_generate_status e buf else Inr (0, buf, e)) = Inr (0, buf, e)"
      by (auto simp: am_generate_status_def)
    then have "nr_rlc_entity_am_generate_pdu now e buf
        = rbind (if am_retransmit_list e \<noteq> [] then am_generate_retx_pdu e buf else Inr (0, buf, e))
            (\<lambda>(ret, buffer2, e2). if ret \<noteq> 0 then Inr (ret, buffer2, e2) else am_generate_tx_pdu now e2 buffer2)"
      unfolding nr_rlc_entity_am_generate_pdu_def by simp
    then show ?thesis using data by fastforce
  qed
qed

section \<open>The contract of a queue, without feedback\<close>

text \<open>
  While the peer sends no STATUS PDU that asks for a retransmission and none is to be sent to it,
  the transmitter is a byte queue like the ones of the other modes.
\<close>

definition am_quiet :: "nr_rlc_sdu_segment list \<Rightarrow> nr_rlc_entity_am \<Rightarrow> bool" where
  "am_quiet lost e \<longleftrightarrow> am_tx_inv lost e \<and> am_retransmit_list e = [] \<and> \<not> am_status_triggered e"

definition am_queue :: "nr_rlc_entity_am \<Rightarrow> byte list list" where
  "am_queue e = map (seg_bytes (heap e)) (am_tx_list e)"

lemma am_unsent_queue: "am_unsent e = concat (am_queue e)"
  by (simp add: am_unsent_def am_queue_def)

lemma am_add_to_wait_triggered:
  "am_add_to_wait_list e s = Inr e' \<Longrightarrow> am_status_triggered e' = am_status_triggered e"
  by (auto simp: am_add_to_wait_list_def rbind_eq_Inr Let_def split: if_splits)

lemma am_poll_and_serialize_triggered:
  assumes "am_poll_and_serialize e s buf p = Inr (n, b, e')"
  shows "am_status_triggered e' = am_status_triggered e"
  using assms unfolding am_poll_and_serialize_def am_serialize_sdu_def am_include_poll_def rbind_eq_Inr
  by (auto simp: rbind_eq_Inr split: if_splits)

lemma am_generate_tx_pdu_triggered:
  assumes "am_generate_tx_pdu now e buf = Inr (n, b, e')"
  shows "am_status_triggered e' = am_status_triggered e"
proof (cases "am_tx_list e")
  case Nil
  then show ?thesis using assms by (auto simp: am_generate_tx_pdu_def split: if_splits)
next
  case (Cons s rest)
  let ?e1 = "am_assign_sn s (am_take_tx_head s rest e)"
  obtain s' e2 where seg: "am_segment_tx s (int (length buf)) ?e1 = (s', e2)"
    by (cases "am_segment_tx s (int (length buf)) ?e1")
  have t1: "am_status_triggered ?e1 = am_status_triggered e"
    by (simp add: am_assign_sn_def am_take_tx_head_def)
  have t2: "am_status_triggered e2 = am_status_triggered ?e1"
    using seg by (auto simp: am_segment_tx_def am_resegment_def Let_def split: if_splits)
  show ?thesis
  proof (cases "am_is_window_stalling e \<or> int (length buf) < am_compute_pdu_header_size e s + 1")
    case True
    then show ?thesis using assms Cons by (auto simp: am_generate_tx_pdu_def Let_def split: if_splits)
  next
    case False
    obtain e3 e5 where w: "am_add_to_wait_list e2 s' = Inr e3"
      "am_poll_and_serialize (snd (am_poll_for_new_pdu s' e3)) s' buf (fst (am_poll_for_new_pdu s' e3)) = Inr (n, b, e5)"
      "am_status_triggered e' = am_status_triggered e5"
      using assms False Cons seg
      by (auto simp: am_generate_tx_pdu_def Let_def rbind_eq_Inr case_prod_beta sample_waited_time_def)
    have "am_status_triggered (snd (am_poll_for_new_pdu s' e3)) = am_status_triggered e3"
      by (simp add: am_poll_for_new_pdu_def Let_def)
    then show ?thesis
      using am_add_to_wait_triggered[OF w(1)] am_poll_and_serialize_triggered[OF w(2)] w(3) t1 t2 by simp
  qed
qed

lemma am_pdu_sent_carries:
  assumes "am_config_ok e'" "am_pdu_sent e buf n buf' payload e'"
  shows "carries (take (nat n) buf') payload"
proof -
  obtain s p where "take (nat n) buf' = bytes_of_bits (am_header_bits e' p s) @ payload"
    using assms(2) unfolding am_pdu_sent_def by blast
  moreover have "length (bytes_of_bits (am_header_bits e' p s)) \<le> 5"
    using length_am_header_bits[OF assms(1), of p s] am_header_size_bounds(2)[of e' s] by simp
  ultimately show ?thesis unfolding carries_def by blast
qed

interpretation am_queue: tx_queue "am_quiet lost" am_queue nr_rlc_entity_am_recv_sdu
  nr_rlc_entity_am_generate_pdu "\<lambda>buf. True" for lost
proof unfold_locales
  fix e and b :: "byte list" and now i
  assume q: "am_quiet lost e" and "b \<noteq> []" "int (length b) \<le> NR_SDU_MAX"
  then obtain e' where e': "nr_rlc_entity_am_recv_sdu now e b i = Inr e'" "am_tx_inv lost e'"
    "am_retransmit_list e' = am_retransmit_list e" "am_status_triggered e' = am_status_triggered e"
    "if am_tx_size e + int (length b) \<le> am_tx_maxsize e
     then am_queue e' = am_queue e @ [b] else am_tx_view e' = am_tx_view e"
    using am_recv_sdu_step[of lost e b now i] unfolding am_quiet_def am_queue_def by (auto split: if_splits)
  have "am_queue e' = am_queue e @ [b] \<or> am_queue e' = am_queue e"
    using e'(5) am_lists_view(3,6)[of e' e] by (auto simp: am_queue_def split: if_splits)
  then show "\<exists>e'. nr_rlc_entity_am_recv_sdu now e b i = Inr e' \<and> am_quiet lost e' \<and>
      (am_queue e' = am_queue e @ [b] \<or> am_queue e' = am_queue e)"
    using e'(1-4) q by (auto simp: am_quiet_def)
next
  fix e and buf :: "byte list" and now
  assume q: "am_quiet lost e"
  then have quiet: "\<not> am_status_to_report e" "am_retransmit_list e = []"
    by (simp_all add: am_quiet_def am_status_to_report_def)
  then have eq: "nr_rlc_entity_am_generate_pdu now e buf = am_generate_tx_pdu now e buf"
    by (simp add: nr_rlc_entity_am_generate_pdu_def)
  obtain n buf' e' where g: "am_generate_tx_pdu now e buf = Inr (n, buf', e')" "am_tx_inv lost e'"
    "am_retransmit_list e' = am_retransmit_list e"
    "n = 0 \<and> buf' = buf \<and> e' = e
     \<or> (\<exists>payload. am_pdu_sent e buf n buf' payload e' \<and> am_unsent e = payload @ am_unsent e')"
    using am_generate_tx_pdu_step[of lost e now buf] q unfolding am_quiet_def am_tx_inv_def
    by (auto split: if_splits)
  have q': "am_quiet lost e'"
    using q g(2,3) am_generate_tx_pdu_triggered[OF g(1)] by (simp add: am_quiet_def)
  have cfg: "am_config_ok e'" using am_fly_invD(1) g(2) by (simp add: am_tx_inv_def)
  have "n = 0 \<and> am_queue e' = am_queue e \<or>
       n \<noteq> 0 \<and> (\<exists>payload. carries (take (nat n) buf') payload
                   \<and> concat (am_queue e) = payload @ concat (am_queue e'))"
    using g(4)
  proof
    assume "\<exists>payload. am_pdu_sent e buf n buf' payload e' \<and> am_unsent e = payload @ am_unsent e'"
    then obtain payload where p: "am_pdu_sent e buf n buf' payload e'" "am_unsent e = payload @ am_unsent e'" by blast
    have "0 < n" using p(1) by (simp add: am_pdu_sent_def)
    then show ?thesis using am_pdu_sent_carries[OF cfg p(1)] p(2) unfolding am_unsent_queue by auto
  qed simp
  then show "\<exists>n buf' e'. nr_rlc_entity_am_generate_pdu now e buf = Inr (n, buf', e') \<and> am_quiet lost e' \<and>
        (n = 0 \<and> am_queue e' = am_queue e \<or>
         n \<noteq> 0 \<and> (\<exists>payload. carries (take (nat n) buf') payload
                     \<and> concat (am_queue e) = payload @ concat (am_queue e')))"
    using eq g(1) q' by auto
qed

section \<open>Discard\<close>

lemma list_end_remove:
  assumes "distinct (map seg_addr (l1 @ s # l2))"
  shows "list_end (l1 @ l2) = (if list_end (l1 @ s # l2) = Some (seg_addr s) then list_end l1
                               else list_end (l1 @ s # l2))"
  using assms by (cases l2 rule: rev_cases) (auto simp: list_end_def)

lemma am_discard_step:
  assumes inv: "am_tx_inv lost e" and l: "am_tx_list e = l1 @ s # l2"
    and sid: "sdu_upper_layer_id (sdu_of (heap e) s) = i"
    and "\<forall>t \<in> set l1. sdu_upper_layer_id (sdu_of (heap e) t) \<noteq> i"
    and whole: "seg_is_first s" "seg_is_last s" and e': "e' = nr_rlc_entity_am_discard_sdu e i"
  shows "am_tx_inv lost e'" "am_tx_list e' = l1 @ l2" "am_tx_size e' = am_tx_size e - seg_size s"
    "\<not> hp_alloc (heap e') (seg_sdu s)" "seg_bytes (heap e') = seg_bytes (heap e)"
proof -
  let ?other = "\<lambda>s. sdu_upper_layer_id (sdu_of (heap e) s) \<noteq> i"
  note d = am_fly_invD[OF inv[unfolded am_tx_inv_def]]
  have sp: "takeWhile ?other (am_tx_list e) = l1" "dropWhile ?other (am_tx_list e) = s # l2"
    using l assms(3,4) by (simp_all add: takeWhile_append2 dropWhile_append2)
  have core: "am_core (am_sn_modulus e) (am_tx_next_ack e) (am_dist e (am_tx_next e)) (heap e)
      (l1 @ s # l2) (am_wait_list e @ am_retransmit_list e) lost" using d(5) l by simp
  let ?h = "snd (nr_rlc_free_sdu_segment s (heap e))"
  note dis = am_core_discard[OF core whole]
  have st: "store_inv (heap e) (l1 @ s # (l2 @ am_wait_list e @ am_retransmit_list e @ lost))"
    using am_coreD(1)[OF core] by simp
  have sz: "sdu_size (sdu_of (heap e) s) = seg_size s"
    using store_inv_wf[OF st, of s] whole by (auto simp: seg_wf_def)
  have en: "list_end (l1 @ l2) = (if am_tx_end e = Some (seg_addr s) then list_end l1 else am_tx_end e)"
    unfolding d(8) l by (rule list_end_remove) (use store_inv_addr[OF st] in auto)
  have f: "am_tx_list e' = l1 @ l2" "am_tx_end e' = list_end (l1 @ l2)" "heap e' = ?h"
    "am_wait_list e' = am_wait_list e" "am_wait_end e' = am_wait_end e"
    "am_retransmit_list e' = am_retransmit_list e" "am_sn_field_length e' = am_sn_field_length e"
    "am_sn_modulus e' = am_sn_modulus e" "am_window_size e' = am_window_size e"
    "am_tx_next e' = am_tx_next e" "am_tx_next_ack e' = am_tx_next_ack e"
    "am_tx_size e' = am_tx_size e - seg_size s"
    "bs_tx_size (bstatus e') = bs_tx_size (bstatus e) - (am_compute_pdu_header_size e s + seg_size s)"
    "bs_retx_size (bstatus e') = bs_retx_size (bstatus e)"
    using whole by (simp_all add: e' nr_rlc_entity_am_discard_sdu_def sp Let_def en sz
        am_compute_pdu_header_size_def)
  show "am_tx_list e' = l1 @ l2" "am_tx_size e' = am_tx_size e - seg_size s" by (rule f)+
  have so: "am_sorted (am_sn_modulus e) (am_tx_next_ack e) ?h l
      = am_sorted (am_sn_modulus e) (am_tx_next_ack e) (heap e) l" for l
    by (rule am_sorted_cong) (simp add: seg_key_def sdu_of_def free_segment_same)
  have "am_fly_inv [] lost e'"
    by (rule am_fly_invI[of e _ "am_dist e (am_tx_next e)"])
      (use d dis so f l sz in \<open>simp_all add: am_dist_def\<close>)
  then show "am_tx_inv lost e'" by (simp add: am_tx_inv_def)
  have "fst (nr_rlc_free_sdu_segment s (heap e))"
    using store_inv_whole[OF st whole] store_inv_free(2)[OF st] by simp
  then show "\<not> hp_alloc (heap e') (seg_sdu s)" by (simp add: f(3) free_segment_heap)
  show "seg_bytes (heap e') = seg_bytes (heap e)" by (rule seg_bytes_cong) (simp add: f(3) free_segment_same)
qed

section \<open>The poll timer\<close>

lemma tx_segment_list_add_cong:
  assumes "heap e' = heap e" "am_tx_next_ack e' = am_tx_next_ack e" "am_sn_modulus e' = am_sn_modulus e"
  shows "nr_rlc_tx_sdu_segment_list_add e' l s = nr_rlc_tx_sdu_segment_list_add e l s"
proof -
  have "am_sn_compare_tx e' = am_sn_compare_tx e"
    by (simp add: fun_eq_iff am_sn_compare_tx_def am_modulus_tx_def assms Let_def)
  then show ?thesis unfolding nr_rlc_tx_sdu_segment_list_add_def assms by simp
qed

lemma am_move_to_retx_ok:
  assumes inv: "am_tx_inv lost e" and l: "am_wait_list e = s # rest"
  shows "am_tx_inv lost (am_move_to_retx s rest e)" "am_wait_list (am_move_to_retx s rest e) = rest"
    "heap (am_move_to_retx s rest e) = heap e"
proof -
  note d = am_fly_invD[OF inv[unfolded am_tx_inv_def]]
  define e1 where "e1 = add_retx_size (am_compute_pdu_header_size e s + seg_size s)
      (e\<lparr>am_wait_list := rest, am_wait_end := (if rest = [] then None else am_wait_end e)\<rparr>)"
  define r where "r = nr_rlc_tx_sdu_segment_list_add e1 (am_retransmit_list e1) s"
  have mv: "am_move_to_retx s rest e = e1\<lparr>am_retransmit_list := r\<rparr>"
    unfolding am_move_to_retx_def Let_def e1_def r_def ..
  show "am_wait_list (am_move_to_retx s rest e) = rest" "heap (am_move_to_retx s rest e) = heap e"
    by (simp_all add: mv e1_def)
  have core: "am_core (am_sn_modulus e) (am_tx_next_ack e) (am_dist e (am_tx_next e)) (heap e)
      (am_tx_list e) (s # rest @ am_retransmit_list e) lost" using d(5) by (simp add: l)
  have same: "nr_rlc_tx_sdu_segment_list_add e1 x s = nr_rlc_tx_sdu_segment_list_add e x s" for x
    by (rule tx_segment_list_add_cong) (simp_all add: e1_def)
  have r: "r = nr_rlc_tx_sdu_segment_list_add e (am_retransmit_list e) s"
    unfolding r_def same by (simp add: e1_def)
  have ok: "am_sn_ok e (sdu_sn (sdu_of (heap e) t))" if "t \<in> set (s # am_retransmit_list e)" for t
    by (rule sn_used_ok[OF am_coreD(2)[OF core]]) (use that in auto)
  have core': "am_core (am_sn_modulus e) (am_tx_next_ack e) (am_dist e (am_tx_next e)) (heap e)
      (am_tx_list e) (rest @ r) lost"
    by (rule am_core_mset[OF core]) (simp add: r)
  have so: "am_sorted (am_sn_modulus e) (am_tx_next_ack e) (heap e) r"
    unfolding r by (rule seg_list_add_sorted[OF d(7,3)]) (use ok in auto)
  have ms: "am_pdu_bytes e r = am_pdu_bytes e (s # am_retransmit_list e)"
    by (rule am_pdu_bytes_mset) (simp add: r)
  have "am_sorted (am_sn_modulus e) (am_tx_next_ack e) (heap e) rest"
    using d(6) l by (simp add: am_sorted_def)
  then have "am_fly_inv [] lost (e1\<lparr>am_retransmit_list := r\<rparr>)"
    by (intro am_fly_invI[of e _ "am_dist e (am_tx_next e)"])
      (use d core' so l ms in \<open>simp_all add: e1_def am_dist_def list_end_Cons\<close>)
  then show "am_tx_inv lost (am_move_to_retx s rest e)" by (simp add: am_tx_inv_def mv)
qed

lemma am_retransmit_sn_loop_ok:
  "am_tx_inv lost e \<Longrightarrow> am_wait_list e = l \<Longrightarrow> am_tx_inv lost (am_retransmit_sn_loop sn l e)"
proof (induction sn l e rule: am_retransmit_sn_loop.induct)
  case (1 sn e)
  then show ?case by simp
next
  case (2 sn s rest e)
  note m = am_move_to_retx_ok[OF 2(2,3)]
  show ?case
  proof (cases rest)
    case Nil
    then show ?thesis using m(1) by simp
  next
    case (Cons nxt l)
    show ?thesis
      using 2(1)[OF refl Cons _ m(1,2)] m(1) by (auto simp: Cons Let_def)
  qed
qed

lemma am_update_heap_view:
  assumes inv: "am_tx_inv lost e"
    and f: "\<And>s. sdu_ref_count (f s) = sdu_ref_count s" "\<And>s. sdu_free_count (f s) = sdu_free_count s"
    "\<And>s. sdu_size (f s) = sdu_size s" "\<And>s. sdu_data (f s) = sdu_data s" "\<And>s. sdu_sn (f s) = sdu_sn s"
  shows "am_tx_inv lost (set_heap (update_sdu f s (heap e)) e)"
proof -
  note d = am_fly_invD[OF inv[unfolded am_tx_inv_def]]
  have so: "am_sorted (am_sn_modulus e) (am_tx_next_ack e) (update_sdu f s (heap e)) l
      = am_sorted (am_sn_modulus e) (am_tx_next_ack e) (heap e) l" for l
    by (rule am_sorted_cong) (simp add: seg_key_def sdu_of_def f)
  have "am_fly_inv [] lost (set_heap (update_sdu f s (heap e)) e)"
    by (rule am_fly_invI[of e _ "am_dist e (am_tx_next e)"])
      (use d am_core_update[OF d(5) f] so in \<open>simp_all add: am_dist_def alloc_bytes_update f\<close>)
  then show ?thesis by (simp add: am_tx_inv_def)
qed

lemma am_poll_timer_step:
  assumes inv: "am_tx_inv lost e"
    and run: "am_t_poll_retransmit_start e \<noteq> 0 \<Longrightarrow> am_check_poll_after_pdu_assembly e \<Longrightarrow> am_wait_list e \<noteq> []"
  shows "\<exists>e'. am_check_t_poll_retransmit e = Inr e' \<and> am_tx_inv lost e'"
proof (cases "am_t_poll_retransmit_start e = 0
    \<or> am_t_current e \<le> am_t_poll_retransmit_start e + word_of_int (am_t_poll_retransmit e)")
  case True
  then show ?thesis using inv by (auto simp: am_check_t_poll_retransmit_def)
next
  case False
  define e1 where "e1 = e\<lparr>am_t_poll_retransmit_start := 0, am_force_poll := True\<rparr>"
  have v: "am_tx_view e1 = am_tx_view e" by (simp add: e1_def am_tx_view_def)
  have inv1: "am_tx_inv lost e1" using inv am_fly_inv_view[OF v] by (simp add: am_tx_inv_def)
  have poll: "am_check_poll_after_pdu_assembly e1 = am_check_poll_after_pdu_assembly e"
    by (simp add: e1_def am_check_poll_after_pdu_assembly_def am_is_window_stalling_def
        am_sn_compare_tx_def am_modulus_tx_def Let_def)
  show ?thesis
  proof (cases "am_check_poll_after_pdu_assembly e")
    case False
    then show ?thesis using inv1 poll \<open>\<not> (am_t_poll_retransmit_start e = 0 \<or> _)\<close>
      by (auto simp: am_check_t_poll_retransmit_def e1_def[symmetric] Let_def)
  next
    case True
    then obtain s rest where w: "am_wait_list e1 = s # rest"
      using run False by (cases "am_wait_list e") (auto simp: e1_def)
    define e2 where "e2 = set_heap (update_sdu (\<lambda>s. s\<lparr>sdu_retx_count := sdu_retx_count s + 1\<rparr>) s (heap e1)) e1"
    have inv2: "am_tx_inv lost e2" unfolding e2_def by (rule am_update_heap_view[OF inv1]) simp_all
    have w2: "am_wait_list e2 = s # rest" using w by (simp add: e2_def)
    define e3 where "e3 = am_retransmit_sn_loop (sdu_sn (sdu_of (heap e2) s)) (s # rest) e2"
    have inv3: "am_tx_inv lost e3" unfolding e3_def by (rule am_retransmit_sn_loop_ok[OF inv2 w2])
    have "am_tx_view (call Max_retx_reached e3) = am_tx_view e3" by (simp add: am_tx_view_def)
    then have inv4: "am_tx_inv lost (call Max_retx_reached e3)"
      using inv3 am_fly_inv_view unfolding am_tx_inv_def by blast
    have "am_check_t_poll_retransmit e = Inr (if am_max_retx_threshold e3 \<le> sdu_retx_count (sdu_of (heap e2) s)
        then call Max_retx_reached e3 else e3)"
      using False True poll w w2
      unfolding am_check_t_poll_retransmit_def e1_def[symmetric] Let_def
      by (simp only: if_False simp_thms list.case e2_def[symmetric] e3_def[symmetric])
    then show ?thesis using inv3 inv4 by auto
  qed
qed

section \<open>Re-establishment and deletion\<close>


lemma am_loaded_sent:
  "\<exists>n buf' e'. nr_rlc_entity_am_generate_pdu 9 am_loaded (replicate 4 0) = Inr (n, buf', e')
     \<and> am_tx_inv [] e' \<and> am_wait_list e' \<noteq> []"
proof -
  have inv: "am_fly_inv [] [] am_loaded" using am_loaded_simps(3) by (simp add: am_tx_inv_def)
  have "\<not> am_is_window_stalling am_loaded"
    using am_stalling_dist[OF am_fly_invD(1-3)[OF inv]] by (simp add: am_loaded_simps am_dist_def)
  then have "\<exists>n buf' e' payload. am_generate_tx_pdu 9 am_loaded (replicate 4 0) = Inr (n, buf', e')
      \<and> am_fly_inv [] [] e' \<and> am_pdu_sent am_loaded (replicate 4 0) n buf' payload e'"
    using am_generate_tx_pdu_step[OF inv, of 9 "replicate 4 0"]
    by (auto simp: am_loaded_simps am_compute_pdu_header_size_def)
  moreover have "nr_rlc_entity_am_generate_pdu 9 am_loaded (replicate 4 0) = am_generate_tx_pdu 9 am_loaded (replicate 4 0)"
    by (simp add: nr_rlc_entity_am_generate_pdu_def am_status_to_report_def am_loaded_simps)
  ultimately show ?thesis unfolding am_tx_inv_def am_pdu_sent_def
    by (metis add_mset_not_empty mset.simps(1))
qed

section \<open>Properties\<close>

text \<open>
  C1: \<open>nr_rlc_entity_am_generate_pdu\<close>, in every state of the invariant and for every buffer: it
  returns without error, keeps the invariant (exact counters, ordered lists, no segment lost or
  shared) and does one of four things. It does nothing; or it writes a STATUS PDU of the size
  \<open>status_size\<close> announces and leaves the transmission side alone; or it sends a header and a
  non-empty payload that leaves the front of the retransmission list, or of the transmission
  list, and whose segment is then in the wait list. No PDU is longer than the buffer.
\<close>

theorem am_generate_pdu_safe:
  assumes "am_tx_inv lost e"
  shows "\<exists>n buf' e'. nr_rlc_entity_am_generate_pdu now e buf = Inr (n, buf', e') \<and> am_tx_inv lost e'
     \<and> (n = 0 \<and> buf' = buf \<and> e' = e
        \<or> am_status_to_report e \<and> am_status_size e (int (length buf)) = Inr n
            \<and> 3 \<le> n \<and> n \<le> int (length buf) \<and> length buf' = length buf \<and> am_tx_view e' = am_tx_view e
        \<or> am_data_sent e buf n buf' e')"
  by (rule am_generate_pdu_step[OF assms])

theorem am_generate_pdu_safe_witness:
  "\<exists>n buf' e'. nr_rlc_entity_am_generate_pdu 9 am_loaded (replicate 4 0) = Inr (n, buf', e') \<and> am_tx_inv [] e'
     \<and> (n = 0 \<or> am_data_sent am_loaded (replicate 4 0) n buf' e')"
  using am_generate_pdu_safe[OF am_loaded_simps(3), of 9 "replicate 4 0"]
  by (auto simp: am_status_to_report_def am_loaded_simps)

text \<open>
  C7: acknowledged mode as a byte queue. While there is nothing to retransmit and no status to
  report, for every sequence of SDUs and PDU requests: no call fails, the PDUs carry the accepted
  bytes in order, none lost and none twice, and the rest is still queued.
\<close>

theorem am_run_is_fifo:
  assumes "am_quiet lost e" "\<forall>c \<in> set ops. am_queue.legal c"
  shows "\<exists>pdus e' payloads accepted.
     run_queue nr_rlc_entity_am_recv_sdu nr_rlc_entity_am_generate_pdu e ops = Inr (pdus, e') \<and> am_quiet lost e'
     \<and> list_all2 carries pdus payloads \<and> accepted \<in> set (subseqs (puts ops))
     \<and> concat (am_queue e) @ concat accepted = concat payloads @ concat (am_queue e')"
  by (rule am_queue.run_fifo[OF assms])

theorem am_run_is_fifo_witness:
  "\<exists>pdus e'. run_queue nr_rlc_entity_am_recv_sdu nr_rlc_entity_am_generate_pdu am_loaded
     [Put_sdu 3 [9, 9] 8, Get_pdu 4 (replicate 4 0), Get_pdu 5 (replicate 9 0)] = Inr (pdus, e') \<and> am_tx_inv [] e'"
  using am_run_is_fifo[of "[]" am_loaded
      "[Put_sdu 3 [9, 9] 8, Get_pdu 4 (replicate 4 0), Get_pdu 5 (replicate 9 0)]"]
  by (auto simp: am_loaded_simps NR_SDU_MAX_def am_quiet_def)

text \<open>
  What the AM serializer writes for a segment, with the poll bit set or not, the receiver
  with the same configuration reads back. When the segment fits into its reception buffer, lies
  in its window and is new, it is stored with its sequence number, offset, flags, size and poll
  bit, and its payload is exactly the bytes of the segment.
\<close>

theorem am_pdu_roundtrip:
  assumes "am_config_ok e" "am_sn_field_length r = am_sn_field_length e" "seg_wf (heap e) s"
    "am_sn_ok e (sdu_sn (sdu_of (heap e) s))"
    "am_compute_pdu_header_size e s + seg_size s \<le> int (length buf)"
    "am_rx_size r + seg_size s \<le> am_rx_maxsize r"
    "am_sn_in_recv_window r (sdu_sn (sdu_of (heap e) s))"
    "\<not> am_segment_already_received r (sdu_sn (sdu_of (heap e) s)) (seg_so s) (seg_size s)"
  shows "\<exists>n buf' e'. am_serialize_sdu e s buf p = Inr (n, buf', e') \<and> n \<le> int (length buf)
     \<and> nr_rlc_entity_am_recv_pdu r (take (nat n) buf')
       = am_store_pdu (am_counted n r) (am_header_of e p s) (take (nat n) buf')
     \<and> drop (nat (n - seg_size s)) (take (nat n) buf') = seg_bytes (heap e) s"
proof -
  obtain n buf' e' where w: "am_serialize_sdu e s buf p = Inr (n, buf', e')" "n \<le> int (length buf)"
    "int (length (take (nat n) buf')) = n" "am_read_data_pdu r (take (nat n) buf') = Some (am_header_of e p s)"
    "drop (nat (n - seg_size s)) (take (nat n) buf') = seg_bytes (heap e) s"
    using am_serialized_read[OF assms(1-5)] by blast
  have "nr_rlc_entity_am_recv_pdu r (take (nat n) buf')
      = am_store_pdu (am_counted n r) (am_header_of e p s) (take (nat n) buf')"
    using am_recv_read[OF w(4)] assms(6-8) unfolding w(3) by (simp add: am_header_of_def)
  then show ?thesis using w by blast
qed

definition am_numbered :: nr_rlc_entity_am where
  "am_numbered = am_loaded\<lparr>heap := update_sdu (\<lambda>t. t\<lparr>sdu_sn := 5\<rparr>) am_loaded_seg (heap am_loaded)\<rparr>"

theorem am_pdu_roundtrip_witness:
  "\<exists>n buf' e'. am_serialize_sdu am_numbered am_loaded_seg (replicate 9 0) True = Inr (n, buf', e')
     \<and> nr_rlc_entity_am_recv_pdu am_empty (take (nat n) buf')
       = am_store_pdu (am_counted n am_empty) (am_header_of am_numbered True am_loaded_seg) (take (nat n) buf')"
proof -
  have "am_config_ok am_numbered" "sdu_of (heap am_numbered) am_loaded_seg = \<lparr>sdu_sn = 5, sdu_upper_layer_id = 7,
      sdu_data = [1, 2, 3], sdu_size = 3, sdu_retx_count = - 1, sdu_ref_count = 1, sdu_free_count = 0,
      sdu_time_of_arrival = 0\<rparr>"
    using am_loaded_simps(15)
    by (simp_all add: am_numbered_def am_config_ok_def am_loaded_simps sdu_of_def nr_rlc_new_sdu_def
        empty_heap_def Let_def)
  then show ?thesis
    using am_pdu_roundtrip[of am_numbered am_empty am_loaded_seg "replicate 9 0" True]
    by (auto simp: am_empty_simps am_numbered_def am_loaded_simps seg_wf_def NR_SDU_MAX_def am_sn_ok_def
        am_compute_pdu_header_size_def am_sn_in_recv_window_def am_modulus_rx_def
        am_segment_already_received_def)
qed



text \<open>
  C23: the status report. For every reception list and every buffer, \<open>generate_status\<close> ends, stays
  inside the buffer and generates exactly the number of bytes \<open>status_size\<close> computes for a buffer
  of that size, which is what the entity announces to the MAC layer. It leaves the reception and
  the transmission state alone and takes back the trigger.
\<close>

theorem am_status_size_exact:
  assumes "am_config_ok e"
  shows "\<exists>n buf' e'. am_generate_status e buf = Inr (n, buf', e')
     \<and> am_status_size e (int (length buf)) = Inr n \<and> 0 \<le> n \<and> n \<le> int (length buf) \<and> length buf' = length buf
     \<and> am_tx_view e' = am_tx_view e \<and> am_rx_list e' = am_rx_list e \<and> am_rx_next e' = am_rx_next e
     \<and> (if length buf < 3 then n = 0 \<and> buf' = buf \<and> e' = e else 3 \<le> n \<and> \<not> am_status_triggered e')"
  by (rule am_generate_status_step[OF assms])

theorem am_status_size_exact_witness:
  "\<exists>n buf' e'. am_generate_status am_empty (replicate 10 0) = Inr (n, buf', e') \<and> 3 \<le> n
     \<and> am_status_size am_empty 10 = Inr n"
  using am_status_size_exact[of am_empty "replicate 10 0"] am_empty_simps(21) by auto

text \<open>
  \<open>nr_rlc_entity_am_discard_sdu\<close> removes the first SDU with the given identity when it is still
  whole in the transmission list, frees it, gives its bytes back to \<open>tx_size\<close> and the
  buffer status, and keeps the invariant with the end pointer moved if it was the last one.
\<close>

theorem am_discard_sdu_exact:
  assumes "am_tx_inv lost e" "am_tx_list e = l1 @ s # l2" "sdu_upper_layer_id (sdu_of (heap e) s) = i"
    "\<forall>t \<in> set l1. sdu_upper_layer_id (sdu_of (heap e) t) \<noteq> i" "seg_is_first s" "seg_is_last s"
  shows "let e' = nr_rlc_entity_am_discard_sdu e i
     in am_tx_inv lost e' \<and> am_tx_list e' = l1 @ l2 \<and> am_tx_size e' = am_tx_size e - seg_size s
        \<and> \<not> hp_alloc (heap e') (seg_sdu s)"
  using am_discard_step(1-4)[OF assms refl] by (simp add: Let_def)

theorem am_discard_sdu_exact_witness:
  "am_tx_list (nr_rlc_entity_am_discard_sdu am_loaded 7) = []
   \<and> am_tx_size (nr_rlc_entity_am_discard_sdu am_loaded 7) = 0"
  using am_discard_sdu_exact[OF am_loaded_simps(3), of "[]" am_loaded_seg "[]" 7]
  by (simp add: Let_def am_loaded_simps nr_rlc_new_sdu_def empty_heap_def sdu_of_def)

text \<open>
  The poll retransmission timer. When it expires, the segments of the oldest unacknowledged
  sequence number move to the retransmission list at their place, with the buffer status and both
  lists in order; the one condition is that some segment still waits for an acknowledgement.
\<close>

theorem am_poll_timer_ok:
  assumes "am_tx_inv lost e" "am_wait_list e \<noteq> []"
  shows "\<exists>e'. am_check_t_poll_retransmit e = Inr e' \<and> am_tx_inv lost e'"
  by (rule am_poll_timer_step[OF assms(1)]) (rule assms(2))

theorem am_poll_timer_ok_witness:
  "\<exists>n buf' e e'. nr_rlc_entity_am_generate_pdu 9 am_loaded (replicate 4 0) = Inr (n, buf', e)
     \<and> am_check_t_poll_retransmit (e\<lparr>am_t_poll_retransmit_start := 1, am_t_current := 1000\<rparr>) = Inr e' \<and> am_tx_inv [] e'"
proof -
  obtain n buf' e where g: "nr_rlc_entity_am_generate_pdu 9 am_loaded (replicate 4 0) = Inr (n, buf', e)"
    "am_tx_inv [] e" "am_wait_list e \<noteq> []"
    using am_loaded_sent by blast
  let ?e = "e\<lparr>am_t_poll_retransmit_start := 1, am_t_current := 1000\<rparr>"
  have "am_tx_view ?e = am_tx_view e" by (simp add: am_tx_view_def)
  then have "am_tx_inv [] ?e" using g(2) am_fly_inv_view unfolding am_tx_inv_def by blast
  then show ?thesis using am_poll_timer_ok[of "[]" ?e] g(1,3) by auto
qed



text \<open>
  \<open>nr_rlc_entity_am_recv_sdu\<close> takes a SDU of a legal size exactly when it fits into the
  transmission buffer: its bytes are then at the end of the unsent data. Otherwise the
  transmission side does not change.
\<close>

theorem am_recv_sdu_appends:
  assumes "am_tx_inv lost e" "buf \<noteq> []" "int (length buf) \<le> NR_SDU_MAX"
  shows "\<exists>e'. nr_rlc_entity_am_recv_sdu now e buf i = Inr e' \<and> am_tx_inv lost e'
     \<and> (if am_tx_size e + int (length buf) \<le> am_tx_maxsize e
        then am_unsent e' = am_unsent e @ buf \<and> am_tx_size e' = am_tx_size e + int (length buf)
        else am_tx_view e' = am_tx_view e)"
  using am_recv_sdu_step[OF assms, of now i] by (auto split: if_splits)

theorem am_recv_sdu_appends_witness:
  "\<exists>e'. nr_rlc_entity_am_recv_sdu 5 am_loaded [9, 9] 8 = Inr e' \<and> am_tx_inv [] e'
     \<and> am_unsent e' = [1, 2, 3, 9, 9]"
  using am_recv_sdu_appends[OF am_loaded_simps(3), of "[9, 9]" 5 8]
  by (auto simp: NR_SDU_MAX_def am_loaded_simps)

end
