(* ===== verification/Rlc_Am_Frame.thy ===== *)
theory Rlc_Am_Frame
  imports Rlc_Am_Run
begin

text \<open>
  What an operation of an AM entity leaves alone. A property that no update of the transmission side
  can break is kept by SDUs, PDU requests, STATUS PDUs, discard and the poll timer; one that no update
  of the reception side can break is kept by data PDUs and the reassembly timer. The two contracts are
  locales; the reception state, the transmission state and the record of the callbacks meet them.
\<close>

section \<open>The reception state\<close>

text \<open>The SDUs handed to the upper layer, in order.\<close>

fun delivered_sdus :: "rlc_callback list \<Rightarrow> byte list list" where
  "delivered_sdus [] = []"
| "delivered_sdus (Deliver_sdu d # cs) = d # delivered_sdus cs"
| "delivered_sdus (_ # cs) = delivered_sdus cs"

lemma delivered_sdus_append [simp]: "delivered_sdus (cs @ cs') = delivered_sdus cs @ delivered_sdus cs'"
  by (induction cs rule: delivered_sdus.induct) auto
text \<open>What reception reads and writes, but for the flags and clocks of the timers.\<close>

definition am_rx_view :: "nr_rlc_entity_am \<Rightarrow> _" where
  "am_rx_view e = (am_sn_field_length e, am_sn_modulus e, am_window_size e, am_rx_next e, am_rx_list e, am_rx_size e,
     am_rx_highest_status e, am_rx_next_status_trigger e, am_rx_next_highest e, delivered_sdus (callbacks e))"
lemma rbind_tupleE:
  "rbind m (\<lambda>(a, b, c). f a b c) = Inr y \<Longrightarrow> (\<And>a b c. m = Inr (a, b, c) \<Longrightarrow> f a b c = Inr y \<Longrightarrow> P) \<Longrightarrow> P"
  "rbind m' (\<lambda>(a, b, c, d). g a b c d) = Inr y \<Longrightarrow> (\<And>a b c d. m' = Inr (a, b, c, d) \<Longrightarrow> g a b c d = Inr y \<Longrightarrow> P) \<Longrightarrow> P"
  by (auto simp: rbind_eq_Inr)

section \<open>The transmission side\<close>

locale am_kept =
  fixes P :: "nr_rlc_entity_am \<Rightarrow> bool"
  assumes kept [simp]: "P (e\<lparr>stats := s\<rparr>) = P e" "P (e\<lparr>bstatus := b\<rparr>) = P e"
      "P (e\<lparr>heap := h\<rparr>) = P e" "P (e\<lparr>txsdu_avg_time_to_tx := t\<rparr>) = P e"
      "P (e\<lparr>am_status_triggered := x\<rparr>) = P e" "P (e\<lparr>am_tx_next := n\<rparr>) = P e"
      "P (e\<lparr>am_tx_next_ack := n\<rparr>) = P e" "P (e\<lparr>am_poll_sn := n\<rparr>) = P e"
      "P (e\<lparr>am_pdu_without_poll := n\<rparr>) = P e"
      "P (e\<lparr>am_byte_without_poll := n\<rparr>) = P e" "P (e\<lparr>am_force_poll := x\<rparr>) = P e"
      "P (e\<lparr>am_t_current := w\<rparr>) = P e" "P (e\<lparr>am_t_log_buffer_full := w\<rparr>) = P e"
      "P (e\<lparr>am_sdu_rejected := n\<rparr>) = P e"
      "P (e\<lparr>am_t_poll_retransmit_start := w\<rparr>) = P e"
      "P (e\<lparr>am_t_reassembly_start := w\<rparr>) = P e"
      "P (e\<lparr>am_t_status_prohibit_start := w\<rparr>) = P e" "P (e\<lparr>am_tx_list := l\<rparr>) = P e"
      "P (e\<lparr>am_tx_end := a\<rparr>) = P e" "P (e\<lparr>am_tx_size := n\<rparr>) = P e"
      "P (e\<lparr>am_wait_list := l\<rparr>) = P e" "P (e\<lparr>am_wait_end := a\<rparr>) = P e"
      "P (e\<lparr>am_retransmit_list := l\<rparr>) = P e"
    and report [simp]: "cs = callbacks e @ [Max_retx_reached] \<or> (\<exists>i. cs = callbacks e @ [Sdu_successful_delivery i]) \<Longrightarrow>
       P e \<Longrightarrow> P (e\<lparr>callbacks := cs\<rparr>)"
begin

lemma add_to_wait: "P e \<Longrightarrow> am_add_to_wait_list e s = Inr e' \<Longrightarrow> P e'"
  by (auto simp: am_add_to_wait_list_def rbind_eq_Inr Let_def split: if_splits)

lemma poll_and_serialize: "P e \<Longrightarrow> am_poll_and_serialize e s buf p = Inr (n, b, e') \<Longrightarrow> P e'"
  unfolding am_poll_and_serialize_def am_serialize_sdu_def am_include_poll_def rbind_eq_Inr
  by (auto simp: rbind_eq_Inr split: if_splits)

lemma steps:
  "P e \<Longrightarrow> P (am_take_tx_head s l e)" "P e \<Longrightarrow> P (am_assign_sn s e)" "P e \<Longrightarrow> P (snd (am_poll_for_new_pdu s e))"
  "P e \<Longrightarrow> P (sample_waited_time now s e)" "P e \<Longrightarrow> P (stamp_arrival now s e)" "P e \<Longrightarrow> P (am_sdu_arrives e)"
  by (simp_all add: am_take_tx_head_def am_assign_sn_def am_poll_for_new_pdu_def sample_waited_time_def
      stamp_arrival_def am_sdu_arrives_def am_log_rejected_def Let_def)

lemma segment:
  "P e \<Longrightarrow> am_segment_tx s sz e = (s', e') \<Longrightarrow> P e'" "P e \<Longrightarrow> am_segment_retx s sz e = (s', e') \<Longrightarrow> P e'"
  by (auto simp: am_segment_tx_def am_segment_retx_def am_resegment_def Let_def split: if_splits)

lemma generate_tx:
  assumes "P e" "am_generate_tx_pdu now e buf = Inr (n, b, e')"
  shows "P e'"
proof (cases "am_is_window_stalling e \<or> am_tx_list e = []")
  case True
  then show ?thesis using assms by (auto simp: am_generate_tx_pdu_def split: if_splits)
next
  case False
  then obtain s rest where l: "am_tx_list e = s # rest" by (cases "am_tx_list e") auto
  obtain s' e2 where seg: "am_segment_tx s (int (length buf)) (am_assign_sn s (am_take_tx_head s rest e)) = (s', e2)"
    by (cases "am_segment_tx s (int (length buf)) (am_assign_sn s (am_take_tx_head s rest e))")
  show ?thesis
  proof (cases "int (length buf) < am_compute_pdu_header_size e s + 1")
    case True
    then show ?thesis using assms False l by (simp add: am_generate_tx_pdu_def Let_def)
  next
    case fits: False
    obtain e3 e5 where w: "am_add_to_wait_list e2 s' = Inr e3"
      "am_poll_and_serialize (snd (am_poll_for_new_pdu s' e3)) s' buf (fst (am_poll_for_new_pdu s' e3)) = Inr (n, b, e5)"
      "P e5 \<longrightarrow> P e'"
      using assms(2) False fits l seg
      by (auto simp: am_generate_tx_pdu_def Let_def rbind_eq_Inr case_prod_beta steps(4))
    have "P e2" by (rule segment(1)[OF steps(2)[OF steps(1)[OF assms(1)]] seg])
    then show ?thesis using poll_and_serialize[OF steps(3)[OF add_to_wait[OF _ w(1)]] w(2)] w(3) by blast
  qed
qed

lemma generate_retx:
  assumes "P e" "am_generate_retx_pdu e buf = Inr (n, b, e')"
  shows "P e'"
proof (cases "am_retransmit_list e")
  case Nil
  then show ?thesis using assms by (simp add: am_generate_retx_pdu_def)
next
  case (Cons s rest)
  let ?e1 = "add_retx_size (- (am_compute_pdu_header_size e s + seg_size s)) (e\<lparr>am_retransmit_list := rest\<rparr>)"
  obtain s' e2 where seg: "am_segment_retx s (int (length buf)) ?e1 = (s', e2)"
    by (cases "am_segment_retx s (int (length buf)) ?e1")
  show ?thesis
  proof (cases "int (length buf) < am_compute_pdu_header_size e s + 1")
    case True
    then show ?thesis using assms Cons by (simp add: am_generate_retx_pdu_def Let_def)
  next
    case False
    obtain e3 e4 where w: "am_add_to_wait_list e2 s' = Inr e3"
      "am_poll_and_serialize e3 s' buf (am_check_poll_after_pdu_assembly e3) = Inr (n, b, e4)" "P e4 \<longrightarrow> P e'"
      using assms(2) False Cons seg by (auto simp: am_generate_retx_pdu_def Let_def rbind_eq_Inr)
    have "P e2" by (rule segment(2)[OF _ seg]) (simp add: assms(1))
    then show ?thesis using poll_and_serialize[OF add_to_wait[OF _ w(1)] w(2)] w(3) by blast
  qed
qed

lemma generate_status: "P e \<Longrightarrow> am_generate_status e buf = Inr (n, b, e') \<Longrightarrow> P e'"
  by (auto simp: am_generate_status_def Let_def rbind_eq_Inr split: if_splits prod.splits)

lemma generate_pdu:
  assumes "P e" "nr_rlc_entity_am_generate_pdu now e buf = Inr (n, b, e')"
  shows "P e'"
proof -
  obtain r1 b1 e1 where 1: "(if am_status_to_report e then am_generate_status e buf else Inr (0, buf, e)) = Inr (r1, b1, e1)"
    "(if r1 \<noteq> 0 then Inr (r1, b1, e1)
      else rbind (if am_retransmit_list e1 \<noteq> [] then am_generate_retx_pdu e1 b1 else Inr (0, b1, e1))
        (\<lambda>(ret, buffer2, e2). if ret \<noteq> 0 then Inr (ret, buffer2, e2) else am_generate_tx_pdu now e2 buffer2)) = Inr (n, b, e')"
    using assms(2) unfolding nr_rlc_entity_am_generate_pdu_def by (rule rbind_tupleE(1))
  have p1: "P e1" using 1(1) assms(1) generate_status by (auto split: if_splits)
  show ?thesis
  proof (cases "r1 \<noteq> 0")
    case True
    then show ?thesis using 1(2) p1 by simp
  next
    case False
    then obtain r2 b2 e2 where 2: "(if am_retransmit_list e1 \<noteq> [] then am_generate_retx_pdu e1 b1 else Inr (0, b1, e1)) = Inr (r2, b2, e2)"
      "(if r2 \<noteq> 0 then Inr (r2, b2, e2) else am_generate_tx_pdu now e2 b2) = Inr (n, b, e')"
      using 1(2) unfolding if_not_P[OF False] by (elim rbind_tupleE(1))
    have "P e2" using 2(1) p1 generate_retx by (auto split: if_splits)
    then show ?thesis using 2(2) generate_tx by (auto split: if_splits)
  qed
qed

lemma recv_sdu: "P e \<Longrightarrow> nr_rlc_entity_am_recv_sdu now e buf i = Inr e' \<Longrightarrow> P e'"
  by (auto simp: nr_rlc_entity_am_recv_sdu_def Let_def rbind_eq_Inr steps split: if_splits prod.splits)

lemma retransmit_sn: "P e \<Longrightarrow> P (am_retransmit_sn_loop sn l e)"
  by (induction sn l e rule: am_retransmit_sn_loop.induct) (auto simp: Let_def am_move_to_retx_def split: list.splits)

lemma poll_timer: "P e \<Longrightarrow> am_check_t_poll_retransmit e = Inr e' \<Longrightarrow> P e'"
  by (auto simp: am_check_t_poll_retransmit_def Let_def retransmit_sn
      simp del: am_retransmit_sn_loop.simps split: if_splits list.splits)

lemma discard_sdu: "P e \<Longrightarrow> P (nr_rlc_entity_am_discard_sdu e i)"
  unfolding nr_rlc_entity_am_discard_sdu_def Let_def by (simp split: list.split)

text \<open>A STATUS PDU.\<close>

lemma free_acked: "P e \<Longrightarrow> P (am_free_acked s e)"
  by (simp add: am_free_acked_def Let_def split: prod.split)

lemma ctrl:
  "P (cs_entity c) \<Longrightarrow> P (cs_entity (am_ack_wait s c))" "P (cs_entity c) \<Longrightarrow> P (cs_entity (am_ack_retx s c))"
  "P (cs_entity c) \<Longrightarrow> P (cs_entity (am_nack_wait s c))" "P (cs_entity c) \<Longrightarrow> P (cs_entity (am_keep_retx s c))"
  by (simp_all add: am_ack_wait_def am_ack_retx_def am_nack_wait_def am_keep_retx_def am_unlink_wait_def
      free_acked Let_def)

lemma next_pdu: "P (cs_entity c) \<Longrightarrow> am_process_next_pdu a k c = (c', st) \<Longrightarrow> P (cs_entity c')"
  by (elim am_process_next_pdu_cases)
    (auto simp: am_process_wait_list_head_def am_process_retransmit_list_head_def Let_def ctrl split: if_splits prod.splits)

lemma process_nack: "P (cs_entity c) \<Longrightarrow> P (cs_entity (fst (am_process_nack a k c)))"
proof (induction a k c rule: am_process_nack.induct)
  case (1 a k c)
  obtain c' st where n: "am_process_next_pdu a k c = (c', st)" by (cases "am_process_next_pdu a k c")
  then show ?case using 1(1)[OF n[symmetric]] next_pdu[OF 1(2) n] by (subst am_process_nack.simps) simp
qed

lemma process_range: "P (cs_entity c) \<Longrightarrow> P (cs_entity (am_process_range a k js c))"
proof (induction js arbitrary: c)
  case (Cons i js)
  then show ?case using process_nack[of c a "am_cur_nack (cs_entity c) k i"]
    by (cases "am_process_nack a (am_cur_nack (cs_entity c) k i) c") simp
qed simp

lemma process_nacks: "P (cs_entity c) \<Longrightarrow> am_process_nacks a fuel e1 d c = Inr c' \<Longrightarrow> P (cs_entity c')"
proof (induction fuel arbitrary: e1 d c)
  case 0
  then show ?case by (simp add: am_process_nacks.simps split: if_splits)
next
  case (Suc fuel)
  show ?case
  proof (cases "e1 = 0")
    case True
    then show ?thesis using Suc.prems by (simp add: am_process_nacks.simps)
  next
    case False
    then obtain k d' where "am_process_nacks a fuel (nk_e1 k) d'
        ((am_process_range a k (map int [0..<nat (nk_range k)]) c)\<lparr>cs_entity := am_stop_poll_on_nack k
          (cs_entity (am_process_range a k (map int [0..<nat (nk_range k)]) c))\<rparr>) = Inr c'"
      using Suc.prems(2) by (subst (asm) am_process_nacks.simps) (auto simp: rbind_eq_Inr Let_def)
    from Suc.IH[OF _ this] show ?thesis using Suc.prems(1) by (simp add: am_stop_poll_on_nack_def process_range)
  qed
qed

lemma ack_lists:
  "P (cs_entity c) \<Longrightarrow> P (cs_entity (am_ack_wait_list a c))" "P (cs_entity c) \<Longrightarrow> P (cs_entity (am_ack_retx_list a c))"
proof -
  show "P (cs_entity c) \<Longrightarrow> P (cs_entity (am_ack_wait_list a c))"
    by (induction a c rule: am_ack_wait_list.induct)
      (subst am_ack_wait_list.simps, auto simp: ctrl split: option.splits)
  show "P (cs_entity c) \<Longrightarrow> P (cs_entity (am_ack_retx_list a c))"
    by (induction a c rule: am_ack_retx_list.induct)
      (subst am_ack_retx_list.simps, auto simp: ctrl split: list.splits)
qed

lemma process_control:
  assumes "P e" "am_process_control_pdu e buf = Inr e'"
  shows "P e'"
proof -
  have "P e'" if ap: "am_apply_control e buf = Inr e'"
  proof -
    obtain a e1 d c1 c2 where c: "am_process_nacks a (length buf) e1 d c1 = Inr c2" "P (cs_entity c1)"
      "e' = am_update_tx_next_ack a (am_finish_lists (am_ack_retx_list a (am_ack_wait_list a c2)))"
      using ap assms(1) unfolding am_apply_control_def Let_def
      by (elim rbind_tupleE(2)) (auto simp: rbind_eq_Inr am_ctrl_init_def)
    have "P (cs_entity (am_ack_retx_list a (am_ack_wait_list a c2)))"
      using ack_lists process_nacks[OF c(2,1)] by blast
    then show ?thesis by (simp add: c(3) am_update_tx_next_ack_def am_finish_lists_def Let_def)
  qed
  then show ?thesis using assms by (auto simp: am_process_control_pdu_def split: sum.splits bool.splits if_splits)
qed

end

section \<open>The reception side\<close>

locale am_rx_kept =
  fixes P :: "nr_rlc_entity_am \<Rightarrow> bool"
  assumes rx_kept [simp]: "P (e\<lparr>stats := s\<rparr>) = P e"
      "P (e\<lparr>am_status_triggered := x\<rparr>) = P e" "P (e\<lparr>am_rx_next := n\<rparr>) = P e"
      "P (e\<lparr>am_rx_highest_status := n\<rparr>) = P e"
      "P (e\<lparr>am_rx_next_status_trigger := n\<rparr>) = P e"
      "P (e\<lparr>am_rx_next_highest := n\<rparr>) = P e" "P (e\<lparr>am_rx_list := l\<rparr>) = P e"
      "P (e\<lparr>am_rx_size := n\<rparr>) = P e" "P (e\<lparr>am_t_current := w\<rparr>) = P e"
      "P (e\<lparr>am_t_reassembly_start := w\<rparr>) = P e"
    and deliver [simp]: "cs = callbacks e @ [Deliver_sdu d] \<Longrightarrow> P e \<Longrightarrow> P (e\<lparr>callbacks := cs\<rparr>)"
begin

lemma received:
  "P e \<Longrightarrow> am_reassemble_and_deliver e sn = Inr e' \<Longrightarrow> P e'" "P e \<Longrightarrow> P (am_stop_t_reassembly e)"
  "P e \<Longrightarrow> P (am_start_t_reassembly e)" "P e \<Longrightarrow> P (am_discard_pdu e p sz)"
  by (auto simp: am_reassemble_and_deliver_def Let_def rbind_eq_Inr am_stop_t_reassembly_def am_start_t_reassembly_def
      am_discard_pdu_def split: option.splits)

lemma sdu_received:
  assumes "P e" "am_sdu_received e sn = Inr e'"
  shows "P e'"
proof -
  obtain e1 e2 where 1: "am_reassemble_and_deliver e sn = Inr e1" "P e1 \<longrightarrow> P e2"
    "e' = (if sn = am_rx_next e2 then case free_delivered (am_sn_modulus e2) (am_rx_list e2) (am_rx_next e2) of
                 (l, sn) \<Rightarrow> e2\<lparr>am_rx_list := l, am_rx_next := sn\<rparr> else e2)"
    using assms(2) unfolding am_sdu_received_def rbind_eq_Inr by (fastforce simp: rbind_eq_Inr split: if_splits)
  then show ?thesis using received(1)[OF assms(1) 1(1)] by (simp split: prod.split)
qed

lemma actions:
  assumes "P e" "am_reception_actions e pdu = Inr e'"
  shows "P e'"
proof -
  define f where "f = (if am_sn_compare_rx e (pdu_sn pdu) (am_rx_next_highest e) \<ge> 0
              then e\<lparr>am_rx_next_highest := (pdu_sn pdu + 1) mod am_sn_modulus e\<rparr> else e)"
  have f: "P f" using assms(1) by (simp add: f_def)
  obtain f2 where f2: "(if am_sdu_full f (pdu_sn pdu) then am_sdu_received f (pdu_sn pdu) else Inr f) = Inr f2"
    "e' = am_start_t_reassembly (am_stop_t_reassembly f2)"
    using assms(2) unfolding am_reception_actions_def Let_def f_def[symmetric] rbind_eq_Inr by auto
  have "P f2" using f2(1) f sdu_received[OF f] by (cases "am_sdu_full f (pdu_sn pdu)") simp_all
  then show ?thesis by (simp add: f2(2) received)
qed

lemma recv_data:
  assumes "P e" "am_recv_data_pdu e d buf = Inr e'"
  shows "P e'"
proof -
  have store: "P e'" if "am_store_pdu e h buf = Inr e'" for h
    using that assms(1) unfolding am_store_pdu_def Let_def rbind_eq_Inr by (auto dest: actions[rotated])
  obtain r where r: "am_parse_data_header e d (int (length buf)) = Inr r"
    using assms(2) unfolding am_recv_data_pdu_def Let_def rbind_eq_Inr by blast
  show ?thesis
  proof (cases r)
    case (Inl p)
    then show ?thesis using assms by (auto simp: am_recv_data_pdu_def r received(4))
  next
    case (Inr h)
    then show ?thesis
      using assms store[of h] by (auto simp: am_recv_data_pdu_def r Let_def received(4) split: if_splits)
  qed
qed

lemma reassembly_timer:
  assumes "P e" "am_check_t_reassembly e = Inr e'"
  shows "P e'"
proof (cases "am_t_reassembly_start e = 0 \<or> am_t_current e \<le> am_t_reassembly_start e + word_of_int (am_t_reassembly e)")
  case True
  then show ?thesis using assms by (simp add: am_check_t_reassembly_def)
next
  case False
  then obtain sn where sn: "skip_delivered (am_rx_list e) (am_sn_modulus e) (nat (am_sn_modulus e)) (am_rx_next_status_trigger e) = Inr sn"
    using assms(2) unfolding am_check_t_reassembly_def if_not_P[OF False] rbind_eq_Inr by blast
  define f where "f = e\<lparr>am_t_reassembly_start := 0, am_rx_highest_status := sn, am_status_triggered := True\<rparr>"
  have f: "P f" using assms(1) by (simp add: f_def)
  then have "P (projr (am_check_t_reassembly e))"
    unfolding am_check_t_reassembly_def if_not_P[OF False] sn rbind_Inr Let_def f_def[symmetric] by simp
  then show ?thesis using assms(2) by simp
qed

end

section \<open>Both sides\<close>

locale am_all_kept = am_kept P + am_rx_kept P for P :: "nr_rlc_entity_am \<Rightarrow> bool"
begin

lemma set_time: "P e \<Longrightarrow> nr_rlc_entity_am_set_time e t = Inr e' \<Longrightarrow> P e'"
  by (auto simp: nr_rlc_entity_am_set_time_def rbind_eq_Inr elim!: reassembly_timer[rotated] poll_timer[rotated])

lemma recv_pdu: "P e \<Longrightarrow> nr_rlc_entity_am_recv_pdu e buf = Inr e' \<Longrightarrow> P e'"
  by (auto simp: nr_rlc_entity_am_recv_pdu_def Let_def received(4) split: sum.splits prod.splits if_splits
      elim!: process_control[rotated] recv_data[rotated])

end

section \<open>The states that are left alone\<close>

lemma am_rx_view_update [simp]:
  "am_rx_view (e\<lparr>stats := s\<rparr>) = am_rx_view e" "am_rx_view (e\<lparr>bstatus := b\<rparr>) = am_rx_view e"
  "am_rx_view (e\<lparr>heap := h\<rparr>) = am_rx_view e" "am_rx_view (e\<lparr>txsdu_avg_time_to_tx := t\<rparr>) = am_rx_view e"
  "am_rx_view (e\<lparr>am_status_triggered := x\<rparr>) = am_rx_view e" "am_rx_view (e\<lparr>am_tx_next := n\<rparr>) = am_rx_view e"
  "am_rx_view (e\<lparr>am_tx_next_ack := n\<rparr>) = am_rx_view e" "am_rx_view (e\<lparr>am_poll_sn := n\<rparr>) = am_rx_view e"
  "am_rx_view (e\<lparr>am_pdu_without_poll := n\<rparr>) = am_rx_view e" "am_rx_view (e\<lparr>am_byte_without_poll := n\<rparr>) = am_rx_view e"
  "am_rx_view (e\<lparr>am_force_poll := x\<rparr>) = am_rx_view e" "am_rx_view (e\<lparr>am_t_current := w\<rparr>) = am_rx_view e"
  "am_rx_view (e\<lparr>am_t_log_buffer_full := w\<rparr>) = am_rx_view e" "am_rx_view (e\<lparr>am_sdu_rejected := n\<rparr>) = am_rx_view e"
  "am_rx_view (e\<lparr>am_t_poll_retransmit_start := w\<rparr>) = am_rx_view e" "am_rx_view (e\<lparr>am_t_reassembly_start := w\<rparr>) = am_rx_view e"
  "am_rx_view (e\<lparr>am_t_status_prohibit_start := w\<rparr>) = am_rx_view e" "am_rx_view (e\<lparr>am_tx_list := l\<rparr>) = am_rx_view e"
  "am_rx_view (e\<lparr>am_tx_end := a\<rparr>) = am_rx_view e" "am_rx_view (e\<lparr>am_tx_size := n\<rparr>) = am_rx_view e"
  "am_rx_view (e\<lparr>am_wait_list := l\<rparr>) = am_rx_view e" "am_rx_view (e\<lparr>am_wait_end := a\<rparr>) = am_rx_view e"
  "am_rx_view (e\<lparr>am_retransmit_list := l\<rparr>) = am_rx_view e"
  "delivered_sdus cs = delivered_sdus (callbacks e) \<Longrightarrow> am_rx_view (e\<lparr>callbacks := cs\<rparr>) = am_rx_view e"
  by (simp_all add: am_rx_view_def)

lemma am_tx_view_update [simp]:
  "am_tx_view (e\<lparr>stats := s\<rparr>) = am_tx_view e" "am_tx_view (e\<lparr>callbacks := cs\<rparr>) = am_tx_view e"
  "am_tx_view (e\<lparr>txsdu_avg_time_to_tx := t\<rparr>) = am_tx_view e" "am_tx_view (e\<lparr>am_status_triggered := x\<rparr>) = am_tx_view e"
  "am_tx_view (e\<lparr>am_rx_next := n\<rparr>) = am_tx_view e" "am_tx_view (e\<lparr>am_rx_highest_status := n\<rparr>) = am_tx_view e"
  "am_tx_view (e\<lparr>am_rx_next_status_trigger := n\<rparr>) = am_tx_view e" "am_tx_view (e\<lparr>am_rx_next_highest := n\<rparr>) = am_tx_view e"
  "am_tx_view (e\<lparr>am_rx_list := l\<rparr>) = am_tx_view e" "am_tx_view (e\<lparr>am_rx_size := n\<rparr>) = am_tx_view e"
  "am_tx_view (e\<lparr>am_poll_sn := n\<rparr>) = am_tx_view e" "am_tx_view (e\<lparr>am_pdu_without_poll := n\<rparr>) = am_tx_view e"
  "am_tx_view (e\<lparr>am_byte_without_poll := n\<rparr>) = am_tx_view e" "am_tx_view (e\<lparr>am_force_poll := x\<rparr>) = am_tx_view e"
  "am_tx_view (e\<lparr>am_t_current := w\<rparr>) = am_tx_view e" "am_tx_view (e\<lparr>am_t_log_buffer_full := w\<rparr>) = am_tx_view e"
  "am_tx_view (e\<lparr>am_sdu_rejected := n\<rparr>) = am_tx_view e" "am_tx_view (e\<lparr>am_t_poll_retransmit_start := w\<rparr>) = am_tx_view e"
  "am_tx_view (e\<lparr>am_t_reassembly_start := w\<rparr>) = am_tx_view e" "am_tx_view (e\<lparr>am_t_status_prohibit_start := w\<rparr>) = am_tx_view e"
  by (simp_all add: am_tx_view_def)

interpretation rx_view: am_kept "\<lambda>e. am_rx_view e = v" for v
  by unfold_locales (auto simp: am_rx_view_def)

interpretation tx_view: am_rx_kept "\<lambda>e. am_tx_view e = v" for v
  by unfold_locales simp_all

lemma am_generate_pdu_frame: "nr_rlc_entity_am_generate_pdu now e buf = Inr (n, b, e') \<Longrightarrow> am_rx_view e' = am_rx_view e"
  by (rule rx_view.generate_pdu[OF refl])

lemma am_recv_sdu_frame: "nr_rlc_entity_am_recv_sdu now e buf i = Inr e' \<Longrightarrow> am_rx_view e' = am_rx_view e"
  by (rule rx_view.recv_sdu[OF refl])

lemma am_poll_timer_frame: "am_check_t_poll_retransmit e = Inr e' \<Longrightarrow> am_rx_view e' = am_rx_view e"
  by (rule rx_view.poll_timer[OF refl])

lemma am_discard_sdu_frame: "am_rx_view (nr_rlc_entity_am_discard_sdu e i) = am_rx_view e"
  by (rule rx_view.discard_sdu[OF refl])

lemma am_recv_control_frame:
  assumes "get_bits_R (nr_rlc_pdu_decoder_init buf) 1 = Inr (0, d)" "nr_rlc_entity_am_recv_pdu e buf = Inr e'"
  shows "am_rx_view e' = am_rx_view e"
proof -
  have "am_process_control_pdu (am_counted (int (length buf)) e) buf = Inr e'"
    using assms by (simp add: nr_rlc_entity_am_recv_pdu_def am_counted_def)
  then show ?thesis by (rule rx_view.process_control[rotated]) (simp add: am_counted_def)
qed

text \<open>The callbacks that have been made stay, and the clock operations and PDUs only add to them.\<close>

definition am_logged :: "rlc_callback list \<Rightarrow> nr_rlc_entity_am \<Rightarrow> bool" where
  "am_logged cs e \<longleftrightarrow> (\<exists>l. callbacks e = cs @ l)"

interpretation log: am_all_kept "am_logged cs" for cs
  by unfold_locales (auto simp: am_logged_def)

end
