(* ===== verification/Rlc_Am_Receiver.thy ===== *)
theory Rlc_Am_Receiver
  imports Rlc_Am_Reassembly Rlc_Am_Frame
begin

text \<open>
  Reception in acknowledged mode, end to end: a receiver fed with segments of a sequence of SDUs,
  in any order, with losses and repetitions, delivers every SDU at most once, unmodified, and as
  soon as its bytes are there.
\<close>

section \<open>The receiver\<close>

text \<open>
  What the invariant says of the list: \<open>ns\<close> are the delivered indexes in the order of delivery
  and \<open>G\<close> the bytes the receiver has got, as pairs of an index and an offset.
\<close>

definition rx_got :: "int \<Rightarrow> (int \<Rightarrow> byte list) \<Rightarrow> int \<Rightarrow> int \<Rightarrow> int set \<Rightarrow> nr_rlc_pdu list \<Rightarrow> (int \<times> int) set \<Rightarrow> bool" where
  "rx_got m D base hi N l G \<longleftrightarrow>
     (\<forall>n i. (n, i) \<in> G \<longrightarrow> n \<in> N \<or> (base \<le> n \<and> n < hi \<and> byte_covered l (n mod m) i))
     \<and> (\<forall>n \<in> N. \<forall>i. 0 \<le> i \<and> i < int (length (D n)) \<longrightarrow> (n, i) \<in> G)
     \<and> (\<forall>n i. base \<le> n \<and> n < hi \<and> n \<notin> N \<and> byte_covered l (n mod m) i \<longrightarrow> (n, i) \<in> G)"

definition am_rx_mid ::
  "(int \<Rightarrow> byte list) \<Rightarrow> nr_rlc_entity_am \<Rightarrow> int \<Rightarrow> int list \<Rightarrow> (int \<times> int) set \<Rightarrow> bool" where
  "am_rx_mid D e base ns G \<longleftrightarrow>
     am_config_ok e \<and> am_rx_next e = base mod am_sn_modulus e \<and> 0 \<le> base
     \<and> rx_ok (am_sn_modulus e) D base (base + am_window_size e) (set ns) (am_rx_list e)
     \<and> {0..<base} \<subseteq> set ns \<and> distinct ns
     \<and> (\<forall>n \<in> set ns. 0 \<le> n \<and> n < base + am_window_size e)
     \<and> am_rx_size e = unconsumed (am_rx_list e)
     \<and> am_sn_ok e (am_rx_highest_status e) \<and> am_sn_ok e (am_rx_next_status_trigger e)
     \<and> am_sn_ok e (am_rx_next_highest e)
     \<and> delivered_sdus (callbacks e) = map D ns
     \<and> rx_got (am_sn_modulus e) D base (base + am_window_size e) (set ns) (am_rx_list e) G"

definition am_rx_inv ::
  "(int \<Rightarrow> byte list) \<Rightarrow> nr_rlc_entity_am \<Rightarrow> int \<Rightarrow> int list \<Rightarrow> (int \<times> int) set \<Rightarrow> bool" where
  "am_rx_inv D e base ns G \<longleftrightarrow> am_rx_mid D e base ns G \<and> base \<notin> set ns"

lemma am_rx_midD:
  assumes "am_rx_mid D e base ns G"
  shows "am_config_ok e" "am_rx_next e = base mod am_sn_modulus e" "0 \<le> base"
    "rx_ok (am_sn_modulus e) D base (base + am_window_size e) (set ns) (am_rx_list e)"
    "{0..<base} \<subseteq> set ns" "distinct ns" "\<forall>n \<in> set ns. 0 \<le> n \<and> n < base + am_window_size e"
    "am_rx_size e = unconsumed (am_rx_list e)"
    "am_sn_ok e (am_rx_highest_status e)" "am_sn_ok e (am_rx_next_status_trigger e)"
    "am_sn_ok e (am_rx_next_highest e)" "delivered_sdus (callbacks e) = map D ns"
    "rx_got (am_sn_modulus e) D base (base + am_window_size e) (set ns) (am_rx_list e) G"
  using assms by (simp_all add: am_rx_mid_def)

lemma am_rx_invD: "am_rx_inv D e base ns G \<Longrightarrow> am_rx_mid D e base ns G" "am_rx_inv D e base ns G \<Longrightarrow> base \<notin> set ns"
  by (simp_all add: am_rx_inv_def)

text \<open>The invariant reads only the reception state.\<close>

lemma am_rx_mid_view:
  assumes "am_rx_mid D e base ns G" "am_rx_view e' = am_rx_view e"
  shows "am_rx_mid D e' base ns G"
proof -
  note eq = assms(2)[unfolded am_rx_view_def prod.inject]
  have "am_rx_mid D e' base ns G \<longleftrightarrow> am_rx_mid D e base ns G"
    unfolding am_rx_mid_def am_config_ok_def am_sn_ok_def by (simp only: eq)
  then show ?thesis using assms(1) by simp
qed

lemma am_rx_inv_view: "am_rx_inv D e base ns G \<Longrightarrow> am_rx_view e' = am_rx_view e \<Longrightarrow> am_rx_inv D e' base ns G"
  unfolding am_rx_inv_def using am_rx_mid_view by blast

lemma am_rx_view_simps [simp]:
  "am_rx_view (am_counted n e) = am_rx_view e" "am_rx_view (am_discard_pdu e p sz) = am_rx_view e"
  by (simp_all add: am_rx_view_def am_counted_def am_discard_pdu_def)

section \<open>The timer t-Reassembly\<close>

lemma am_config_ok_rx [simp]:
  "am_config_ok (e\<lparr>am_rx_next_status_trigger := x\<rparr>) = am_config_ok e" "am_config_ok (e\<lparr>am_rx_highest_status := x\<rparr>) = am_config_ok e"
  "am_config_ok (e\<lparr>am_rx_next_highest := x\<rparr>) = am_config_ok e" "am_config_ok (e\<lparr>am_rx_list := l\<rparr>) = am_config_ok e"
  "am_config_ok (e\<lparr>am_rx_size := x\<rparr>) = am_config_ok e" "am_config_ok (e\<lparr>am_rx_next := x\<rparr>) = am_config_ok e"
  "am_config_ok (e\<lparr>callbacks := cs\<rparr>) = am_config_ok e" "am_config_ok (e\<lparr>stats := s\<rparr>) = am_config_ok e"
  by (simp_all add: am_config_ok_def)

lemma am_rx_mid_trigger:
  "am_rx_mid D e base ns G \<Longrightarrow> am_sn_ok e sn \<Longrightarrow> am_rx_mid D (e\<lparr>am_rx_next_status_trigger := sn\<rparr>) base ns G"
  "am_rx_mid D e base ns G \<Longrightarrow> am_sn_ok e sn \<Longrightarrow> am_rx_mid D (e\<lparr>am_rx_highest_status := sn\<rparr>) base ns G"
  "am_rx_mid D e base ns G \<Longrightarrow> am_sn_ok e sn \<Longrightarrow> am_rx_mid D (e\<lparr>am_rx_next_highest := sn\<rparr>) base ns G"
  by (simp_all add: am_rx_mid_def am_sn_ok_def)

lemma am_rx_inv_trigger:
  "am_rx_inv D e base ns G \<Longrightarrow> am_sn_ok e sn \<Longrightarrow> am_rx_inv D (e\<lparr>am_rx_next_status_trigger := sn\<rparr>) base ns G"
  "am_rx_inv D e base ns G \<Longrightarrow> am_sn_ok e sn \<Longrightarrow> am_rx_inv D (e\<lparr>am_rx_highest_status := sn\<rparr>) base ns G"
  by (simp_all add: am_rx_inv_def am_rx_mid_trigger)

lemma am_start_t_reassembly_inv:
  assumes "am_rx_inv D e base ns G"
  shows "am_rx_inv D (am_start_t_reassembly e) base ns G"
proof -
  have "am_rx_inv D (e\<lparr>am_t_reassembly_start := t, am_rx_next_status_trigger := am_rx_next_highest e\<rparr>) base ns G" for t
    by (rule am_rx_inv_trigger(1)[OF am_rx_inv_view[OF assms]])
      (use am_rx_midD(11)[OF am_rx_invD(1)[OF assms]] in \<open>simp_all add: am_sn_ok_def\<close>)
  then show ?thesis using assms by (simp add: am_start_t_reassembly_def)
qed

lemma am_stop_t_reassembly_inv:
  "am_rx_inv D e base ns G \<Longrightarrow> am_rx_inv D (am_stop_t_reassembly e) base ns G"
  by (simp add: am_stop_t_reassembly_def am_rx_inv_view)

lemma am_skip_delivered_ok:
  assumes "am_rx_mid D e base ns G" "am_sn_ok e sn"
  shows "\<exists>sn'. skip_delivered (am_rx_list e) (am_sn_modulus e) (nat (am_sn_modulus e)) sn = Inr sn' \<and> am_sn_ok e sn'"
proof -
  note d = am_rx_midD[OF assms(1)]
  have "base + am_window_size e < base + am_sn_modulus e" using am_config_pos[OF d(1)] by linarith
  then show ?thesis
    using skip_delivered_ok[of "am_sn_modulus e" D base "base + am_window_size e" "set ns" "am_rx_list e" sn] d(4) assms(2)
    by (auto simp: rx_ok_def am_sn_ok_def)
qed

lemma am_check_t_reassembly_inv:
  assumes "am_rx_inv D e base ns G"
  shows "\<exists>e'. am_check_t_reassembly e = Inr e' \<and> am_rx_inv D e' base ns G \<and> am_rx_next e' = am_rx_next e"
proof -
  note inv = am_rx_invD(1)[OF assms] and d = am_rx_midD[OF am_rx_invD(1)[OF assms]]
  obtain sn where sn: "skip_delivered (am_rx_list e) (am_sn_modulus e) (nat (am_sn_modulus e)) (am_rx_next_status_trigger e) = Inr sn"
    "am_sn_ok e sn"
    using am_skip_delivered_ok[OF inv d(10)] by blast
  let ?e = "e\<lparr>am_t_reassembly_start := 0, am_rx_highest_status := sn, am_status_triggered := True\<rparr>"
  have a: "am_rx_inv D ?e base ns G"
    by (rule am_rx_inv_view[OF am_rx_inv_trigger(2)[OF assms sn(2)]]) (simp add: am_rx_view_def)
  then have b: "am_rx_inv D (?e\<lparr>am_t_reassembly_start := t, am_rx_next_status_trigger := am_rx_next_highest ?e\<rparr>) base ns G" for t
    by (intro am_rx_inv_view[OF am_rx_inv_trigger(1)[OF a am_rx_midD(11)[OF am_rx_invD(1)[OF a]]]]) (simp add: am_rx_view_def)
  from a b[of "am_t_current e"] sn(1) assms show ?thesis
    by (simp add: am_check_t_reassembly_def Let_def)
qed

section \<open>Storing and delivering\<close>

lemma am_rx_window:
  assumes "am_rx_mid D e base ns G" "base - am_window_size e \<le> n" "n < base + am_window_size e"
  shows "am_sn_in_recv_window e (n mod am_sn_modulus e) \<longleftrightarrow> base \<le> n"
proof -
  let ?m = "am_sn_modulus e"
  note d = am_rx_midD[OF assms(1)] and m = am_config_pos[OF am_rx_midD(1)[OF assms(1)]]
  have "am_modulus_rx e (n mod ?m) = circ_dist ?m (am_rx_next e) (n mod ?m)"
    by (rule am_modulus_rx_dist) (use m d(2) in \<open>simp_all add: am_sn_ok_def\<close>)
  then have mr: "am_modulus_rx e (n mod ?m) = rx_idx ?m base (n mod ?m) - base"
    by (simp add: d(2) circ_dist_base_mod rx_idx_def)
  show ?thesis
  proof (cases "base \<le> n")
    case True
    then show ?thesis using assms(3) m by (simp add: am_sn_in_recv_window_def mr rx_idx_of)
  next
    case False
    have "rx_idx ?m base ((n + ?m) mod ?m) = n + ?m" by (rule rx_idx_of) (use False assms(2) m in linarith)+
    then show ?thesis using False assms(2) m by (simp add: am_sn_in_recv_window_def mr)
  qed
qed

text \<open>The state between the storing and the delivery: the list holds the new segment.\<close>

lemma rx_got_store:
  assumes "rx_got m D base hi N l G" "base \<le> n" "n < hi" "hi \<le> base + m" "n \<notin> N" "pdu_sn p = n mod m" "0 < m"
  shows "rx_got m D base hi N (nr_rlc_pdu_list_add c l p) (G \<union> {(n, i) | i. pdu_so p \<le> i \<and> i < pdu_end p})"
proof -
  have b: "byte_covered (nr_rlc_pdu_list_add c l p) sn i
      \<longleftrightarrow> (sn = n mod m \<and> pdu_so p \<le> i \<and> i < pdu_end p) \<or> byte_covered l sn i" for sn i
    using assms(6) by (auto simp: byte_covered_def)
  have k: "k mod m = n mod m \<longleftrightarrow> k = n" if "base \<le> k" "k < hi" for k
  proof
    assume eq: "k mod m = n mod m"
    have "rx_idx m base (k mod m) = k" "rx_idx m base (n mod m) = n" by (rule rx_idx_of; use that assms(2-4) in linarith)+
    then show "k = n" unfolding eq by simp
  qed simp
  note g = assms(1)[unfolded rx_got_def]
  show ?thesis
    unfolding rx_got_def b
  proof (intro conjI allI impI ballI)
    fix k i
    assume "(k, i) \<in> G \<union> {(n, i) | i. pdu_so p \<le> i \<and> i < pdu_end p}"
    then show "k \<in> N \<or> base \<le> k \<and> k < hi \<and> (k mod m = n mod m \<and> pdu_so p \<le> i \<and> i < pdu_end p \<or> byte_covered l (k mod m) i)"
      using g assms(2,3) by blast
  next
    fix k i
    assume "base \<le> k \<and> k < hi \<and> k \<notin> N \<and> (k mod m = n mod m \<and> pdu_so p \<le> i \<and> i < pdu_end p \<or> byte_covered l (k mod m) i)"
    then show "(k, i) \<in> G \<union> {(n, i) | i. pdu_so p \<le> i \<and> i < pdu_end p}"
      using g k[of k] by blast
  qed (use g in blast)
qed

lemma byte_covered_consume: "byte_covered (rx_consume sn' l) sn i \<longleftrightarrow> byte_covered l sn i"
  unfolding byte_covered_def rx_consume_def set_map bex_simps(7) by (rule bex_cong) auto

lemma rx_got_deliver:
  assumes "rx_got m D base hi N l G" "base \<le> n" "n < hi" "rx_complete m D l n" "n \<notin> N"
  shows "rx_got m D base hi (insert n N) (rx_consume sn l) G"
proof -
  note g = assms(1)[unfolded rx_got_def]
  have "(n, i) \<in> G" if "0 \<le> i" "i < int (length (D n))" for i
  proof -
    have "byte_covered l (n mod m) i" using assms(4) that unfolding rx_complete_def covered_bytes by blast
    then show ?thesis using g assms(2,3,5) by blast
  qed
  then show ?thesis using g unfolding rx_got_def byte_covered_consume by blast
qed

lemma byte_covered_segs: "rx_segs sn l = rx_segs sn l' \<Longrightarrow> byte_covered l sn i \<longleftrightarrow> byte_covered l' sn i"
  unfolding byte_covered_def using rx_segs_set[of _ sn l] rx_segs_set[of _ sn l'] by auto

lemma rx_list_ok_beyond:
  assumes "rx_list_ok m D base hi N l" "base \<le> n" "hi \<le> n" "n < base + m"
  shows "rx_segs (n mod m) l = []"
proof (rule rx_segs_none, rule ballI, rule notI)
  fix p assume p: "p \<in> set l" "pdu_sn p = n mod m"
  then have "rx_idx m base (pdu_sn p) = n" using assms(2,4) by (simp add: rx_idx_of)
  then show False using rx_list_okD(3)[OF assms(1) p(1)] assms(3) by simp
qed

lemma rx_got_advance:
  assumes "rx_got m D base hi N l G" "base \<le> base'" "{base..<base'} \<subseteq> N" "hi \<le> hi'" "hi' \<le> base' + m"
    and "\<forall>n. base' \<le> n \<and> n < hi \<longrightarrow> rx_segs (n mod m) l' = rx_segs (n mod m) l" "rx_list_ok m D base' hi N l'"
  shows "rx_got m D base' hi' N l' G"
proof -
  note g = assms(1)[unfolded rx_got_def]
  have b: "byte_covered l' (k mod m) i \<longleftrightarrow> byte_covered l (k mod m) i" if "base' \<le> k" "k < hi" for k i
    using assms(6) that by (intro byte_covered_segs) simp
  have z: "\<not> byte_covered l' (k mod m) i" if "base' \<le> k" "hi \<le> k" "k < hi'" for k i
    using rx_list_ok_beyond[OF assms(7) that(1,2)] that(3) assms(5) rx_segs_set[of _ "k mod m" l']
    by (auto simp: byte_covered_def)
  show ?thesis
    unfolding rx_got_def
  proof (intro conjI allI impI)
    fix k i assume "(k, i) \<in> G"
    then consider "k \<in> N" | "base \<le> k" "k < hi" "byte_covered l (k mod m) i" "k \<notin> N" using g by blast
    then show "k \<in> N \<or> base' \<le> k \<and> k < hi' \<and> byte_covered l' (k mod m) i"
    proof cases
      case 2
      then have "base' \<le> k" using assms(3) by (meson atLeastLessThan_iff not_le subsetD)
      then show ?thesis using 2 b assms(4) by simp
    qed simp
  next
    fix k i assume k: "base' \<le> k \<and> k < hi' \<and> k \<notin> N \<and> byte_covered l' (k mod m) i"
    then have "k < hi" using z[of k i] by (meson not_le)
    then show "(k, i) \<in> G" using k b g assms(2) by (meson order_trans)
  qed (use g in blast)
qed

text \<open>The delivery, up to the freeing.\<close>

lemma am_deliver_mid:
  assumes "sdus_ok D" "am_rx_mid D e0 base ns G0" "e = e0\<lparr>am_rx_list := l, am_rx_size := unconsumed l\<rparr>"
    and "rx_list_ok (am_sn_modulus e0) D base (base + am_window_size e0) (set ns) l"
    and "\<forall>k. base \<le> k \<and> k < base + am_window_size e0 \<and> k \<noteq> n \<longrightarrow> (k \<in> set ns \<longleftrightarrow> rx_complete (am_sn_modulus e0) D l k)"
    and "rx_got (am_sn_modulus e0) D base (base + am_window_size e0) (set ns) l G"
    and "base \<le> n" "n < base + am_window_size e0" "n \<notin> set ns" "rx_complete (am_sn_modulus e0) D l n"
  shows "\<exists>e1. am_reassemble_and_deliver e (n mod am_sn_modulus e0) = Inr e1 \<and> am_rx_mid D e1 base (ns @ [n]) G
     \<and> am_sn_modulus e1 = am_sn_modulus e0 \<and> am_window_size e1 = am_window_size e0"
proof -
  let ?m = "am_sn_modulus e0"
  note d = am_rx_midD[OF assms(2)] and m = am_config_pos[OF am_rx_midD(1)[OF assms(2)]]
  have lt: "n < base + ?m" using assms(8) m by linarith
  have re: "rx_reassemble am_consume l (unconsumed l) (n mod ?m)
      = Inr (rx_consume (n mod ?m) l, unconsumed l - sum_list (map pdu_size (rx_segs (n mod ?m) l)), Some (D n))"
    by (rule am_reassemble_ok[OF assms(4,7) lt assms(9,10,1)])
  have u: "unconsumed l - sum_list (map pdu_size (rx_segs (n mod ?m) l)) = unconsumed (rx_consume (n mod ?m) l)"
    using rx_segs_idx(5)[OF assms(4,7) lt] assms(9) by (intro unconsumed_consume[symmetric]) blast
  have ok: "rx_ok ?m D base (base + am_window_size e0) (insert n (set ns)) (rx_consume (n mod ?m) l)"
    using rx_list_ok_consume[OF assms(4,7) lt] assms(5,10) unfolding rx_ok_def rx_complete_consume by blast
  have got: "rx_got ?m D base (base + am_window_size e0) (insert n (set ns)) (rx_consume (n mod ?m) l) G"
    by (rule rx_got_deliver[OF assms(6-8,10,9)])
  show ?thesis
    using d assms(7-9) ok got re u
    by (simp add: am_reassemble_and_deliver_def assms(3) am_rx_mid_def am_sn_ok_def) auto
qed

lemma am_free_inv:
  assumes "sdus_ok D" "am_rx_mid D e base ns G"
  shows "\<exists>l base'. free_delivered (am_sn_modulus e) (am_rx_list e) (am_rx_next e) = (l, base' mod am_sn_modulus e)
     \<and> base \<le> base' \<and> base' \<le> base + am_window_size e
     \<and> am_rx_inv D (e\<lparr>am_rx_list := l, am_rx_next := base' mod am_sn_modulus e\<rparr>) base' ns G"
proof -
  let ?m = "am_sn_modulus e" and ?w = "am_window_size e"
  note d = am_rx_midD[OF assms(2)] and m = am_config_pos[OF am_rx_midD(1)[OF assms(2)]]
  have hi: "base + ?w \<le> base + ?m" "0 < ?m" "base \<le> base + ?w" using m by linarith+
  have ns: "\<forall>n \<in> set ns. n < base + ?w" using d(7) by blast
  obtain base' l where f: "free_delivered ?m (am_rx_list e) (base mod ?m) = (l, base' mod ?m)" "base \<le> base'" "base' \<le> base + ?w"
    "rx_ok ?m D base' (base + ?w) (set ns) l" "base' \<notin> set ns" "{base..<base'} \<subseteq> set ns"
    "unconsumed l = unconsumed (am_rx_list e)"
    "\<forall>n. base' \<le> n \<and> n < base + ?w \<longrightarrow> rx_segs (n mod ?m) l = rx_segs (n mod ?m) (am_rx_list e)"
    using free_delivered_ok[OF d(4) assms(1) hi(2) ns hi(3,1)] by blast
  have hi': "base + ?w \<le> base' + ?w" "base' + ?w \<le> base' + ?m" using f(2) m by linarith+
  have ok: "rx_ok ?m D base' (base' + ?w) (set ns) l" by (rule rx_ok_extend[OF f(4) assms(1) hi' ns])
  have got: "rx_got ?m D base' (base' + ?w) (set ns) l G"
    by (rule rx_got_advance[OF d(13) f(2,6) hi' f(8)]) (use f(4) in \<open>simp add: rx_ok_def\<close>)
  have "{0..<base'} \<subseteq> set ns"
  proof
    fix k assume "k \<in> {0..<base'}"
    then show "k \<in> set ns" using d(5) f(6) by (cases "k < base") auto
  qed
  moreover have "\<forall>n \<in> set ns. 0 \<le> n \<and> n < base' + ?w" using d(7) f(2) by force
  ultimately have "am_rx_inv D (e\<lparr>am_rx_list := l, am_rx_next := base' mod ?m\<rparr>) base' ns G"
    using d f(2,5,7) ok got by (simp add: am_rx_inv_def am_rx_mid_def am_sn_ok_def)
  then show ?thesis using f(1-3) d(2) by auto
qed

section \<open>A step of the receiver\<close>

lemma am_sdu_received_inv:
  assumes "sdus_ok D" "am_rx_mid D e0 base ns G0" "base \<notin> set ns" "e = e0\<lparr>am_rx_list := l, am_rx_size := unconsumed l\<rparr>"
    and "rx_list_ok (am_sn_modulus e0) D base (base + am_window_size e0) (set ns) l"
    and "\<forall>k. base \<le> k \<and> k < base + am_window_size e0 \<and> k \<noteq> n \<longrightarrow> (k \<in> set ns \<longleftrightarrow> rx_complete (am_sn_modulus e0) D l k)"
    and "rx_got (am_sn_modulus e0) D base (base + am_window_size e0) (set ns) l G"
    and "base \<le> n" "n < base + am_window_size e0" "n \<notin> set ns" "rx_complete (am_sn_modulus e0) D l n"
  shows "\<exists>e' base'. am_sdu_received e (n mod am_sn_modulus e0) = Inr e' \<and> base \<le> base' \<and> base' \<le> base + am_window_size e0
     \<and> am_rx_inv D e' base' (ns @ [n]) G \<and> am_sn_modulus e' = am_sn_modulus e0"
proof -
  let ?m = "am_sn_modulus e0"
  note m = am_config_pos[OF am_rx_midD(1)[OF assms(2)]]
  obtain e1 where e1: "am_reassemble_and_deliver e (n mod ?m) = Inr e1" "am_rx_mid D e1 base (ns @ [n]) G"
    "am_sn_modulus e1 = ?m" "am_window_size e1 = am_window_size e0"
    using am_deliver_mid[OF assms(1,2,4-11)] by blast
  obtain e2 where e2: "(if n mod ?m = am_rx_highest_status e1
            then rbind (skip_delivered (am_rx_list e1) ?m (nat ?m) (am_rx_highest_status e1))
                   (\<lambda>sn. Inr (e1\<lparr>am_rx_highest_status := sn\<rparr>)) else Inr e1) = Inr e2"
    "am_rx_mid D e2 base (ns @ [n]) G" "am_sn_modulus e2 = ?m" "am_window_size e2 = am_window_size e0"
  proof (cases "n mod ?m = am_rx_highest_status e1")
    case True
    obtain sn where sn: "skip_delivered (am_rx_list e1) ?m (nat ?m) (am_rx_highest_status e1) = Inr sn" "am_sn_ok e1 sn"
      using am_skip_delivered_ok[OF e1(2) am_rx_midD(9)[OF e1(2)]] unfolding e1(3) by blast
    show ?thesis
      by (rule that[of "e1\<lparr>am_rx_highest_status := sn\<rparr>"])
        (use True sn e1(3,4) am_rx_mid_trigger(2)[OF e1(2) sn(2)] in simp_all)
  next
    case False
    then show ?thesis using that[of e1] e1(2-4) by simp
  qed
  have next2: "am_rx_next e2 = base mod ?m" using am_rx_midD(2)[OF e2(2)] e2(3) by simp
  have iff: "n mod ?m = base mod ?m \<longleftrightarrow> n = base"
  proof
    assume eq: "n mod ?m = base mod ?m"
    show "n = base"
    proof (rule ccontr)
      assume "n \<noteq> base"
      then have "base < n" "n < base + ?m" "0 < ?m" using assms(8,9) m by linarith+
      then show False using rx_idx_mod_neq eq by blast
    qed
  qed simp
  obtain l' base' where f: "free_delivered ?m (am_rx_list e2) (am_rx_next e2) = (l', base' mod ?m)"
    "base \<le> base'" "base' \<le> base + am_window_size e0"
    "am_rx_inv D (e2\<lparr>am_rx_list := l', am_rx_next := base' mod ?m\<rparr>) base' (ns @ [n]) G"
    using am_free_inv[OF assms(1) e2(2)] unfolding e2(3,4) by blast
  have "am_rx_inv D e2 base (ns @ [n]) G" if "n \<noteq> base"
    using e2(2) assms(3) that by (simp add: am_rx_inv_def)
  moreover have "am_sdu_received e (n mod ?m)
      = Inr (if n = base then e2\<lparr>am_rx_list := l', am_rx_next := base' mod ?m\<rparr> else e2)"
    unfolding am_sdu_received_def e1(1) rbind_Inr e1(3) e2(1) e2(3) f(1) prod.case by (simp only: next2 iff)
  ultimately show ?thesis using f(2-4) e2(3) m by (cases "n = base") auto
qed

lemma am_reception_tail_inv:
  "am_rx_inv D e base ns G \<Longrightarrow> am_rx_inv D (am_start_t_reassembly (am_stop_t_reassembly e)) base ns G"
  by (intro am_start_t_reassembly_inv am_stop_t_reassembly_inv)

text \<open>A data PDU, as the receiver reads it, that carries a segment of the SDU \<open>n\<close>.\<close>

definition am_carries :: "nr_rlc_entity_am \<Rightarrow> (int \<Rightarrow> byte list) \<Rightarrow> int \<Rightarrow> byte list \<Rightarrow> am_data_header \<Rightarrow> bool" where
  "am_carries e D n buffer h \<longleftrightarrow>
     am_read_data_pdu e buffer = Some h \<and> dh_sn h = n mod am_sn_modulus e
     \<and> 0 \<le> dh_so h \<and> 0 < dh_data_size h \<and> dh_so h + dh_data_size h \<le> int (length (D n))
     \<and> (dh_is_last h \<longleftrightarrow> dh_so h + dh_data_size h = int (length (D n)))
     \<and> drop (length buffer - nat (dh_data_size h)) buffer = take (nat (dh_data_size h)) (drop (nat (dh_so h)) (D n))"

text \<open>The bytes it brings, if the reception buffer has room for them.\<close>

definition am_new_bytes :: "nr_rlc_entity_am \<Rightarrow> int \<Rightarrow> am_data_header \<Rightarrow> (int \<times> int) set" where
  "am_new_bytes e n h =
     (if am_rx_size e + dh_data_size h \<le> am_rx_maxsize e
      then {n} \<times> {dh_so h..<dh_so h + dh_data_size h} else {})"

lemma am_store_pdu_inv:
  assumes "sdus_ok D" "am_rx_inv D e base ns G" "am_carries e' D n buffer h" "am_sn_modulus e' = am_sn_modulus e"
    and "base \<le> n" "n < base + am_window_size e" "n \<notin> set ns"
  shows "\<exists>e' base' ns'. am_store_pdu e h buffer = Inr e' \<and> base \<le> base' \<and> base' \<le> base + am_window_size e
     \<and> am_sn_modulus e' = am_sn_modulus e
     \<and> am_rx_inv D e' base' ns' (G \<union> {n} \<times> {dh_so h..<dh_so h + dh_data_size h})"
proof -
  let ?m = "am_sn_modulus e" and ?G = "G \<union> {n} \<times> {dh_so h..<dh_so h + dh_data_size h}"
  define pdu where "pdu = nr_rlc_new_pdu (dh_sn h) (dh_so h) (dh_is_first h) (dh_is_last h)
                  (drop (length buffer - nat (dh_data_size h)) buffer)"
  note inv = am_rx_invD(1)[OF assms(2)] and d = am_rx_midD[OF am_rx_invD(1)[OF assms(2)]]
  note m = am_config_pos[OF d(1)] and c = assms(3)[unfolded am_carries_def assms(4)]
  have lt: "n < base + ?m" using assms(6) m by linarith
  have len: "int (length (take (nat (dh_data_size h)) (drop (nat (dh_so h)) (D n)))) = dh_data_size h"
  proof -
    have "nat (dh_data_size h) \<le> length (D n) - nat (dh_so h)" using c by linarith
    then show ?thesis using c by simp
  qed
  have size: "pdu_size pdu = dh_data_size h" using c len by (simp only: pdu_def nr_rlc_new_pdu_simps)
  have sn: "pdu_sn pdu = n mod ?m" and so: "pdu_so pdu = dh_so h" and data: "pdu_data pdu \<noteq> None"
    using c by (simp_all add: pdu_def)
  have "pdu_data pdu = Some (take (nat (pdu_size pdu)) (drop (nat (pdu_so pdu)) (D n)))" "pdu_is_last pdu = dh_is_last h"
    unfolding size so using c by (simp_all only: pdu_def nr_rlc_new_pdu_simps)
  then have seg: "seg_of (D n) pdu" using c by (simp add: seg_of_def pdu_end_def size so)
  have old: "rx_list_ok ?m D base (base + am_window_size e) (set ns) (am_rx_list e)" using d(4) by (simp add: rx_ok_def)
  define l where "l = nr_rlc_pdu_list_add (am_sn_compare_rx e) (am_rx_list e) pdu"
  have ok: "rx_list_ok ?m D base (base + am_window_size e) (set ns) l"
    unfolding l_def by (rule rx_list_ok_add[OF old refl d(2) assms(5,6) _ assms(7) sn seg data]) (use m in simp)
  have other: "k \<in> set ns \<longleftrightarrow> rx_complete ?m D l k" if "base \<le> k" "k < base + am_window_size e" "k \<noteq> n" for k
  proof -
    have "k mod ?m \<noteq> pdu_sn pdu"
      unfolding sn using rx_idx_of[of base k ?m] rx_idx_of[of base n ?m] that assms(5) lt m by fastforce
    then show ?thesis using d(4) that unfolding l_def by (simp add: rx_complete_add rx_ok_def)
  qed
  have "{(n, i) | i. pdu_so pdu \<le> i \<and> i < pdu_end pdu} = {n} \<times> {dh_so h..<dh_so h + dh_data_size h}"
    by (auto simp: pdu_end_def so size)
  then have got: "rx_got ?m D base (base + am_window_size e) (set ns) l ?G"
    using rx_got_store[OF d(13) assms(5,6) _ assms(7) sn, of "am_sn_compare_rx e"] m by (simp add: l_def)
  have un: "am_rx_size e + dh_data_size h = unconsumed l"
    unfolding l_def using d(8) unconsumed_add[OF data] size by simp
  define hn where "hn = (if am_sn_compare_rx e (n mod ?m) (am_rx_next_highest e) \<ge> 0
      then (n mod ?m + 1) mod ?m else am_rx_next_highest e)"
  define e0 where "e0 = e\<lparr>am_rx_next_highest := hn\<rparr>"
  have "am_sn_ok e hn" using d(11) m by (simp add: hn_def am_sn_ok_def)
  then have mid0: "am_rx_mid D e0 base ns G" unfolding e0_def by (rule am_rx_mid_trigger(3)[OF inv])
  have e0m: "am_sn_modulus e0 = ?m" "am_window_size e0 = am_window_size e" by (simp_all add: e0_def)
  define e1 where "e1 = e0\<lparr>am_rx_list := l, am_rx_size := unconsumed l\<rparr>"
  have full: "am_sdu_full e1 (n mod ?m) \<longleftrightarrow> rx_complete ?m D l n"
    using rx_full_iff[OF ok assms(5) lt assms(1)] assms(7) by (simp add: am_sdu_full_def e1_def)
  have step: "\<exists>e2 base' ns'. (if am_sdu_full e1 (n mod ?m) then am_sdu_received e1 (n mod ?m) else Inr e1) = Inr e2
      \<and> am_sn_modulus e2 = ?m
      \<and> base \<le> base' \<and> base' \<le> base + am_window_size e \<and> am_rx_inv D e2 base' ns' ?G"
  proof (cases "rx_complete ?m D l n")
    case True
    then show ?thesis
      using am_sdu_received_inv[OF assms(1) mid0 am_rx_invD(2)[OF assms(2)] e1_def, unfolded e0m, OF ok _ got assms(5-7)]
        other full by auto
  next
    case False
    have "rx_ok ?m D base (base + am_window_size e) (set ns) l"
      using ok other False assms(7) unfolding rx_ok_def by blast
    then have "am_rx_inv D e1 base ns ?G"
      using mid0 got am_rx_invD(2)[OF assms(2)]
      by (simp add: am_rx_inv_def am_rx_mid_def e1_def e0m am_sn_ok_def)
    moreover have "am_sn_modulus e1 = ?m" by (simp add: e1_def e0m)
    ultimately show ?thesis using False full m by auto
  qed
  then obtain e2 base' ns' where e2: "(if am_sdu_full e1 (n mod ?m) then am_sdu_received e1 (n mod ?m) else Inr e1) = Inr e2"
    "base \<le> base'" "base' \<le> base + am_window_size e" "am_rx_inv D e2 base' ns' ?G" "am_sn_modulus e2 = ?m" by blast
  have act: "am_reception_actions (e\<lparr>am_rx_size := am_rx_size e + dh_data_size h, am_rx_list := l\<rparr>) pdu
      = Inr (am_start_t_reassembly (am_stop_t_reassembly e2))"
  proof -
    let ?e = "e\<lparr>am_rx_size := am_rx_size e + dh_data_size h, am_rx_list := l\<rparr>"
    have cmp: "am_sn_compare_rx ?e a b = am_sn_compare_rx e a b" for a b
      by (simp add: am_sn_compare_rx_def am_modulus_rx_def Let_def)
    have st: "(if am_sn_compare_rx ?e (pdu_sn pdu) (am_rx_next_highest ?e) \<ge> 0
        then ?e\<lparr>am_rx_next_highest := (pdu_sn pdu + 1) mod am_sn_modulus ?e\<rparr> else ?e) = e1"
      unfolding cmp sn by (simp add: e1_def e0_def hn_def un)
    show ?thesis unfolding am_reception_actions_def Let_def st unfolding sn e2(1) rbind_Inr ..
  qed
  have "\<exists>e'. am_store_pdu e h buffer = Inr e' \<and> am_rx_view e' = am_rx_view (am_start_t_reassembly (am_stop_t_reassembly e2))"
    unfolding am_store_pdu_def Let_def pdu_def[symmetric] l_def[symmetric] act by simp
  moreover have "am_sn_modulus (am_start_t_reassembly (am_stop_t_reassembly e2)) = ?m"
    using e2(5) by (simp add: am_start_t_reassembly_def am_stop_t_reassembly_def)
  ultimately show ?thesis
    using e2(2,3) am_rx_inv_view[OF am_reception_tail_inv[OF e2(4)]] unfolding am_rx_view_def prod.inject by metis
qed

lemma rx_got_dup:
  assumes "rx_got m D base hi N l G" "n \<in> N \<or> base \<le> n \<and> n < hi \<and> covered (rx_segs (n mod m) l) a b"
  shows "rx_got m D base hi N l (G \<union> {n} \<times> {a..<b})"
  using assms unfolding rx_got_def covered_bytes by auto

text \<open>Reception of a PDU that carries a segment of an SDU a window around the reception window.\<close>

lemma am_recv_pdu_inv:
  assumes "sdus_ok D" "am_rx_inv D e base ns G" "am_carries e D n buffer h"
    and "0 \<le> n" "base - am_window_size e \<le> n" "n < base + am_window_size e"
  shows "\<exists>e' ns'. nr_rlc_entity_am_recv_pdu e buffer = Inr e'
     \<and> am_rx_inv D e' (rx_idx (am_sn_modulus e) base (am_rx_next e')) ns' (G \<union> am_new_bytes e n h)
     \<and> am_sn_modulus e' = am_sn_modulus e"
proof -
  let ?m = "am_sn_modulus e" and ?sz = "int (length buffer)"
  define e0 where "e0 = am_counted ?sz e"
  note inv = am_rx_invD(1)[OF assms(2)] and d = am_rx_midD[OF am_rx_invD(1)[OF assms(2)]] and m = am_config_pos[OF am_rx_midD(1)[OF am_rx_invD(1)[OF assms(2)]]]
  note c = assms(3)[unfolded am_carries_def]
  have inv0: "am_rx_inv D e0 base ns G" unfolding e0_def by (rule am_rx_inv_view[OF assms(2)]) simp
  have m0: "am_sn_modulus e0 = ?m" "am_window_size e0 = am_window_size e" by (simp_all add: e0_def am_counted_def)
  obtain dc dd where dec: "get_bits_R (nr_rlc_pdu_decoder_init buffer) 1 = Inr (dc, dd)" "dc \<noteq> 0"
    and h: "am_parse_data_header e0 dd ?sz = Inr (Inr h)"
    using c unfolding am_read_data_pdu_def e0_def am_parse_counted by (auto split: sum.splits prod.splits if_splits)
  have recv: "nr_rlc_entity_am_recv_pdu e buffer = am_recv_data_pdu e0 dd buffer"
    using dec by (simp add: nr_rlc_entity_am_recv_pdu_def e0_def am_counted_def)
  have fin: "\<exists>e' ns'. nr_rlc_entity_am_recv_pdu e buffer = Inr e'
     \<and> am_rx_inv D e' (rx_idx ?m base (am_rx_next e')) ns' (G \<union> am_new_bytes e n h) \<and> am_sn_modulus e' = ?m"
    if "am_recv_data_pdu e0 dd buffer = Inr e'" "am_rx_inv D e' base' ns' (G \<union> am_new_bytes e n h)" "base \<le> base'"
      "base' \<le> base + am_window_size e" "am_sn_modulus e' = ?m" for e' base' ns'
  proof -
    have "am_rx_next e' = base' mod ?m" using am_rx_midD(2)[OF am_rx_invD(1)[OF that(2)]] that(5) by simp
    moreover have "rx_idx ?m base (base' mod ?m) = base'" by (rule rx_idx_of) (use that(3,4) m in linarith)+
    ultimately show ?thesis using recv that by auto
  qed
  have drop: "am_rx_inv D (am_discard_pdu e1 p ?sz) base ns (G \<union> am_new_bytes e n h)"
    if "am_rx_view e1 = am_rx_view e" "am_rx_size e + dh_data_size h \<le> am_rx_maxsize e \<Longrightarrow>
        n \<in> set ns \<or> base \<le> n \<and> n < base + am_window_size e \<and> covered (rx_segs (n mod ?m) (am_rx_list e)) (dh_so h) (dh_so h + dh_data_size h)"
    for e1 p
  proof -
    have "rx_got ?m D base (base + am_window_size e) (set ns) (am_rx_list e) (G \<union> am_new_bytes e n h)"
      unfolding am_new_bytes_def using d(13) rx_got_dup[OF d(13) that(2)] by (simp split: if_splits)
    then have "am_rx_inv D e base ns (G \<union> am_new_bytes e n h)" using assms(2) by (simp add: am_rx_inv_def am_rx_mid_def)
    then show ?thesis by (rule am_rx_inv_view) (simp add: that(1))
  qed
  have keep: "am_sn_modulus (am_discard_pdu e1 p ?sz) = am_sn_modulus e1" for e1 p by (simp add: am_discard_pdu_def)
  have win: "am_sn_in_recv_window e0 (dh_sn h) \<longleftrightarrow> base \<le> n"
    using am_rx_window[OF inv assms(5,6)] c by (simp add: e0_def)
  have sorted: "rx_sorted (rx_idx ?m base) (am_rx_list e)" using d(4) by (simp add: rx_ok_def rx_list_ok_def)
  have dup: "am_segment_already_received e0 (dh_sn h) (dh_so h) (dh_data_size h)
      \<longleftrightarrow> covered (rx_segs (n mod ?m) (am_rx_list e)) (dh_so h) (dh_so h + dh_data_size h)"
    using c already_received_iff[OF rx_segs_sorted[OF sorted]] by (simp add: e0_def am_segment_already_received_def)
  define room where "room \<longleftrightarrow> am_rx_size e + dh_data_size h \<le> am_rx_maxsize e"
  have room0: "\<not> am_rx_size e0 + dh_data_size h > am_rx_maxsize e0 \<longleftrightarrow> room" by (auto simp: room_def e0_def)
  show ?thesis
  proof (cases "room \<and> base \<le> n \<and> \<not> covered (rx_segs (n mod ?m) (am_rx_list e)) (dh_so h) (dh_so h + dh_data_size h)")
    case False
    obtain e1 p where dis: "am_recv_data_pdu e0 dd buffer = Inr (am_discard_pdu e1 p ?sz)" "am_rx_view e1 = am_rx_view e0"
      "am_sn_modulus e1 = am_sn_modulus e0"
    proof (cases "room \<and> base \<le> n")
      case True
      then show ?thesis
        using False h room0 win dup
        by (intro that[of "count_stat (\<lambda>s. s\<lparr>rxpdu_dup_pkts := rxpdu_dup_pkts s + 1,
            rxpdu_dup_bytes := rxpdu_dup_bytes s + word_of_int ?sz\<rparr>) e0" "dh_p h"])
          (simp_all add: am_recv_data_pdu_def Let_def am_rx_view_def)
    next
      case r: False
      show ?thesis
      proof (cases room)
        case True
        then show ?thesis
          using r h room0 win
          by (intro that[of "count_stat (\<lambda>s. s\<lparr>rxpdu_ow_pkts := rxpdu_ow_pkts s + 1,
              rxpdu_ow_bytes := rxpdu_ow_bytes s + word_of_int ?sz\<rparr>) e0" "dh_p h"])
            (simp_all add: am_recv_data_pdu_def Let_def am_rx_view_def)
      next
        case False
        then show ?thesis using h room0 by (intro that[of e0 "dh_p h"]) (simp_all add: am_recv_data_pdu_def Let_def)
      qed
    qed
    have "room \<Longrightarrow> n \<in> set ns \<or> base \<le> n \<and> n < base + am_window_size e
        \<and> covered (rx_segs (n mod ?m) (am_rx_list e)) (dh_so h) (dh_so h + dh_data_size h)"
      using False d(5) assms(4,6) by (cases "base \<le> n") auto
    then have "am_rx_inv D (am_discard_pdu e1 p ?sz) base ns (G \<union> am_new_bytes e n h)"
      using dis(2) by (intro drop) (simp_all add: room_def e0_def)
    then show ?thesis using m dis(3) m0 by (intro fin[OF dis(1), of base]) (simp_all add: keep)
  next
    case True
    have n: "n \<notin> set ns"
    proof
      assume "n \<in> set ns"
      then have "covered (rx_segs (n mod ?m) (am_rx_list e)) 0 (int (length (D n)))"
        using d(4,7) True by (auto simp: rx_ok_def rx_complete_def)
      then have "covered (rx_segs (n mod ?m) (am_rx_list e)) (dh_so h) (dh_so h + dh_data_size h)"
        unfolding covered_def using c by (meson order_less_le_trans order_trans)
      then show False using True by simp
    qed
    have new: "am_new_bytes e n h = {n} \<times> {dh_so h..<dh_so h + dh_data_size h}"
      using True by (simp add: am_new_bytes_def room_def)
    have "am_recv_data_pdu e0 dd buffer = am_store_pdu e0 h buffer"
      using True h room0 win dup by (simp add: am_recv_data_pdu_def Let_def)
    then show ?thesis
      using am_store_pdu_inv[OF assms(1) inv0 assms(3), unfolded m0, OF refl _ assms(6) n] True fin
      unfolding new by auto
  qed
qed

section \<open>Runs\<close>

text \<open>
  The states of an entity that receives the SDUs \<open>D\<close>, from its creation: data PDUs with a segment of
  an SDU whose index is less than a window away from the start of the reception window (what a peer
  that respects its own window can send); and, in between, STATUS PDUs of any content, SDUs to send,
  PDU requests, discards and ticks of the clock. The run keeps the index \<open>base\<close> of \<open>rx_next\<close> and the
  set \<open>G\<close> of the bytes that came when there was room.
\<close>

inductive am_rx_run :: "(int \<Rightarrow> byte list) \<Rightarrow> nr_rlc_entity_am \<Rightarrow> int \<Rightarrow> (int \<times> int) set \<Rightarrow> bool"
  for D :: "int \<Rightarrow> byte list" where
  created: "new_nr_rlc_entity_am rx tx a b c d f g len = Inr e \<Longrightarrow> am_rx_run D e 0 {}"
| pdu: "am_rx_run D e base G \<Longrightarrow> am_carries e D n buffer h \<Longrightarrow> 0 \<le> n \<Longrightarrow> base - am_window_size e \<le> n
     \<Longrightarrow> n < base + am_window_size e \<Longrightarrow> nr_rlc_entity_am_recv_pdu e buffer = Inr e'
     \<Longrightarrow> am_rx_run D e' (rx_idx (am_sn_modulus e) base (am_rx_next e')) (G \<union> am_new_bytes e n h)"
| status: "am_rx_run D e base G \<Longrightarrow> get_bits_R (nr_rlc_pdu_decoder_init buffer) 1 = Inr (0, d)
     \<Longrightarrow> nr_rlc_entity_am_recv_pdu e buffer = Inr e' \<Longrightarrow> am_rx_run D e' base G"
| sdu: "am_rx_run D e base G \<Longrightarrow> nr_rlc_entity_am_recv_sdu now e sdu i = Inr e' \<Longrightarrow> am_rx_run D e' base G"
| request: "am_rx_run D e base G \<Longrightarrow> nr_rlc_entity_am_generate_pdu now e buffer = Inr (k, buffer', e')
     \<Longrightarrow> am_rx_run D e' base G"
| discard: "am_rx_run D e base G \<Longrightarrow> am_rx_run D (nr_rlc_entity_am_discard_sdu e i) base G"
| tick: "am_rx_run D e base G \<Longrightarrow> nr_rlc_entity_am_set_time e t = Inr e' \<Longrightarrow> am_rx_run D e' base G"

lemma am_rx_created:
  assumes "sdus_ok D" "new_nr_rlc_entity_am rx tx a b c d f g len = Inr e"
  shows "am_rx_inv D e 0 [] {}"
proof -
  have e: "am_config_ok e" "am_rx_next e = 0" "am_rx_list e = []" "am_rx_size e = 0" "am_rx_highest_status e = 0"
    "am_rx_next_status_trigger e = 0" "am_rx_next_highest e = 0" "callbacks e = []"
    using assms(2) by (auto simp: new_nr_rlc_entity_am_def rbind_eq_Inr am_config_ok_def push_bit_eq_mult rcheck_def split: if_splits)
  have "\<not> rx_complete m D [] n" for m n using complete_some[OF _ assms(1), of m "[]" n] by auto
  then show ?thesis
    using e am_config_pos[OF e(1)]
    by (simp add: am_rx_inv_def am_rx_mid_def rx_ok_def rx_list_ok_def rx_sorted_def rx_got_def am_sn_ok_def byte_covered_def)
qed

lemma am_set_time_rx_inv:
  assumes "am_rx_inv D e base ns G" "nr_rlc_entity_am_set_time e t = Inr e'"
  shows "am_rx_inv D e' base ns G"
proof -
  obtain e1 where e1: "am_check_t_poll_retransmit (e\<lparr>am_t_current := t\<rparr>) = Inr e1" "am_check_t_reassembly e1 = Inr e'"
    using assms(2) by (auto simp: nr_rlc_entity_am_set_time_def rbind_eq_Inr)
  have "am_rx_view e1 = am_rx_view e" using am_poll_timer_frame[OF e1(1)] by simp
  then have "am_rx_inv D e1 base ns G" using assms(1) am_rx_inv_view by blast
  then show ?thesis using am_check_t_reassembly_inv e1(2) by fastforce
qed

lemma am_rx_run_inv:
  assumes "am_rx_run D e base G" "sdus_ok D"
  shows "\<exists>ns. am_rx_inv D e base ns G"
  using assms(1)
proof (induction rule: am_rx_run.induct)
  case (created rx tx a b c d f g len e)
  then show ?case using am_rx_created[OF assms(2)] by blast
next
  case (pdu e base G n buffer h e')
  then show ?case using am_recv_pdu_inv[OF assms(2) _ pdu.hyps(2-5)] by fastforce
next
  case (status e base G buffer d e')
  then show ?case using am_rx_inv_view am_recv_control_frame by blast
next
  case (sdu e base G now sdu i e')
  then show ?case using am_rx_inv_view am_recv_sdu_frame by blast
next
  case (request e base G now buffer k buffer' e')
  then show ?case using am_rx_inv_view am_generate_pdu_frame by blast
next
  case (discard e base G i)
  then show ?case using am_rx_inv_view am_discard_sdu_frame by blast
next
  case (tick e base G t e')
  then show ?case using am_set_time_rx_inv by blast
qed

text \<open>What a segment of the sender becomes on the wire is such a PDU.\<close>

lemma am_pdu_carries:
  assumes "am_config_ok e" "am_config_ok r" "am_sn_field_length r = am_sn_field_length e" "seg_wf (heap e) s"
    "sdu_sn (sdu_of (heap e) s) = n mod am_sn_modulus e" "sdu_data (sdu_of (heap e) s) = D n"
    "pdu = bytes_of_bits (am_header_bits e p s) @ seg_bytes (heap e) s"
  shows "am_carries r D n pdu (am_header_of e p s)"
proof -
  have m: "am_sn_modulus r = am_sn_modulus e" "0 < am_sn_modulus e"
    using assms(1-3) am_config_pos[OF assms(1)] by (simp_all add: am_config_ok_def)
  have ok: "am_sn_ok e (sdu_sn (sdu_of (heap e) s))" using m(2) by (simp add: assms(5) am_sn_ok_def)
  note w = am_pdu_read[OF assms(1,3,4) ok assms(7)]
  have sz: "0 < seg_size s" using seg_wf_size[OF assms(4)] by simp
  have "length pdu - nat (seg_size s) = nat (am_compute_pdu_header_size e s)"
    using w(2) sz am_header_size_bounds[of e s] by linarith
  then have "drop (length pdu - nat (seg_size s)) pdu = take (nat (seg_size s)) (drop (nat (seg_so s)) (D n))"
    using w(3) assms(6) by (simp add: seg_bytes_def)
  then show ?thesis using w(1) assms(4-6) m sz by (auto simp: am_carries_def am_header_of_def seg_wf_def)
qed

section \<open>A concrete run\<close>

definition am_whole :: am_data_header where
  "am_whole = \<lparr>dh_p = 0, dh_sn = 0, dh_so = 0, dh_is_first = True, dh_is_last = True, dh_data_size = 2\<rparr>"

definition am_half :: am_data_header where
  "am_half = \<lparr>dh_p = 0, dh_sn = 0, dh_so = 0, dh_is_first = True, dh_is_last = False, dh_data_size = 1\<rparr>"

lemma am_example_bits:
  "byte_bits 128 = [True, False, False, False, False, False, False, False]"
  "byte_bits 144 = [True, False, False, True, False, False, False, False]"
  "byte_bits 0 = [False, False, False, False, False, False, False, False]"
  by code_simp+

lemma am_whole_carries: "am_carries am_empty (\<lambda>n. [7, 8]) 0 [128, 0, 7, 8] am_whole"
  and am_half_carries: "am_carries am_empty (\<lambda>n. [7, 8]) 0 [144, 0, 7] am_half"
  by (simp_all add: am_carries_def am_read_data_pdu_def am_parse_data_header_def am_empty_simps decoder_init_dec_at
      get_bits_R_dec_at am_example_bits bits_val_def Let_def am_whole_def am_half_def)

lemma am_example_ok: "sdus_ok (\<lambda>n. [7, 8])"
  by (simp add: sdus_ok_def NR_SDU_MAX_def)

lemma am_example_run:
  assumes "am_carries am_empty (\<lambda>n. [7, 8]) 0 buffer h" "dh_data_size h \<le> 5000"
  obtains e base where "nr_rlc_entity_am_recv_pdu am_empty buffer = Inr e"
    "am_rx_run (\<lambda>n. [7, 8]) e base ({0} \<times> {dh_so h..<dh_so h + dh_data_size h})"
proof -
  have run: "am_rx_run (\<lambda>n. [7, 8]) am_empty 0 {}" by (rule am_rx_run.created[OF am_empty_eq])
  obtain e where e: "nr_rlc_entity_am_recv_pdu am_empty buffer = Inr e"
    using am_recv_pdu_inv[OF am_example_ok am_rx_created[OF am_example_ok am_empty_eq] assms(1)]
    by (auto simp: am_empty_simps)
  then show thesis
    using that am_rx_run.pdu[OF run assms(1) _ _ _ e] assms(2) by (simp add: am_empty_simps am_new_bytes_def)
qed

lemma am_rx_inv_delivers:
  assumes "sdus_ok D" "am_rx_inv D e base ns G"
  shows "delivered_sdus (callbacks e) = map D ns" "distinct ns"
    "n \<in> set ns \<longleftrightarrow> 0 \<le> n \<and> {n} \<times> {0..<int (length (D n))} \<subseteq> G" "{0..<base} \<subseteq> set ns" "base \<notin> set ns"
proof -
  note d = am_rx_midD[OF am_rx_invD(1)[OF assms(2)]] and g = am_rx_midD(13)[OF am_rx_invD(1)[OF assms(2)], unfolded rx_got_def]
  show "delivered_sdus (callbacks e) = map D ns" "distinct ns" "{0..<base} \<subseteq> set ns" "base \<notin> set ns"
    using d(5,6,12) am_rx_invD(2)[OF assms(2)] by blast+
  have "n \<in> set ns" if n: "0 \<le> n" "{n} \<times> {0..<int (length (D n))} \<subseteq> G"
  proof (rule ccontr)
    assume no: "n \<notin> set ns"
    have b: "base \<le> n \<and> n < base + am_window_size e \<and> byte_covered (am_rx_list e) (n mod am_sn_modulus e) i"
      if "0 \<le> i" "i < int (length (D n))" for i
    proof -
      have "(n, i) \<in> {n} \<times> {0..<int (length (D n))}" using that by simp
      then have "(n, i) \<in> G" using n(2) by (rule rev_subsetD)
      then show ?thesis using g[THEN conjunct1] no by blast
    qed
    moreover have "0 < int (length (D n))" using assms(1) by (simp add: sdus_ok_def)
    ultimately have "base \<le> n" "n < base + am_window_size e" by blast+
    moreover have "rx_complete (am_sn_modulus e) D (am_rx_list e) n"
      unfolding rx_complete_def covered_bytes using b by blast
    ultimately show False using d(4) no unfolding rx_ok_def by blast
  qed
  moreover have "0 \<le> n \<and> {n} \<times> {0..<int (length (D n))} \<subseteq> G" if "n \<in> set ns"
    using that d(7) g by auto
  ultimately show "n \<in> set ns \<longleftrightarrow> 0 \<le> n \<and> {n} \<times> {0..<int (length (D n))} \<subseteq> G" by blast
qed

section \<open>Properties\<close>

text \<open>
  C8: acknowledged mode delivers every SDU exactly when it has been received. In every run of a
  receiver - segments in any order, repeated or lost, the timer and the transmission side in
  between - the delivered SDUs are, unmodified and each once, exactly those all of whose bytes came
  when the reception buffer had room, and everything before the reception window has been delivered.
\<close>

theorem am_rx_delivers_exactly:
  assumes "sdus_ok D" "am_rx_run D e base G"
  shows "\<exists>ns. delivered_sdus (callbacks e) = map D ns \<and> distinct ns
     \<and> (\<forall>n. n \<in> set ns \<longleftrightarrow> 0 \<le> n \<and> {n} \<times> {0..<int (length (D n))} \<subseteq> G)
     \<and> {0..<base} \<subseteq> set ns \<and> base \<notin> set ns"
proof -
  obtain ns where "am_rx_inv D e base ns G" using am_rx_run_inv[OF assms(2,1)] by blast
  note d = am_rx_inv_delivers[OF assms(1) this]
  show ?thesis using d(1,2,4,5) d(3) by (intro exI[of _ ns]) blast
qed

theorem am_rx_delivers_exactly_witness:
  "\<exists>e. nr_rlc_entity_am_recv_pdu am_empty [128, 0, 7, 8] = Inr e \<and> delivered_sdus (callbacks e) = [[7, 8]]"
proof -
  obtain e base where e: "nr_rlc_entity_am_recv_pdu am_empty [128, 0, 7, 8] = Inr e"
    "am_rx_run (\<lambda>n. [7, 8]) e base ({0} \<times> {0..<2})"
    using am_example_run[OF am_whole_carries] by (auto simp: am_whole_def)
  from am_rx_delivers_exactly[OF am_example_ok this(2)] obtain ns :: "int list" where
    ns: "delivered_sdus (callbacks e) = map (\<lambda>n. [7, 8]) ns" "distinct ns"
      "\<forall>n. n \<in> set ns \<longleftrightarrow> 0 \<le> n \<and> {n} \<times> {0..<int (length [7 :: byte, 8])} \<subseteq> {0} \<times> {0..<2}" by blast
  have "set ns = {0}"
  proof -
    have "n \<in> set ns \<longleftrightarrow> n = 0" for n using ns(3) by (auto simp: times_subset_iff)
    then show ?thesis by blast
  qed
  then have "length ns = 1" using distinct_card[OF ns(2)] by simp
  then show ?thesis using e(1) ns(1) by (auto simp: length_Suc_conv)
qed

text \<open>
  C14: no PDU with a segment of an SDU in the range of the windows makes reception fail - no read
  beyond a block, no use of a freed payload, no endless loop - and neither does the reassembly timer.
\<close>

theorem am_rx_never_fails:
  assumes "sdus_ok D" "am_rx_run D e base G" "am_carries e D n buffer h" "0 \<le> n"
    "base - am_window_size e \<le> n" "n < base + am_window_size e"
  shows "(\<exists>e'. nr_rlc_entity_am_recv_pdu e buffer = Inr e') \<and> (\<exists>e'. am_check_t_reassembly (e\<lparr>am_t_current := now\<rparr>) = Inr e')"
proof -
  obtain ns where inv: "am_rx_inv D e base ns G" using am_rx_run_inv[OF assms(2,1)] by blast
  then have "am_rx_inv D (e\<lparr>am_t_current := now\<rparr>) base ns G" by (rule am_rx_inv_view) simp
  then show ?thesis using am_recv_pdu_inv[OF assms(1) inv assms(3-6)] am_check_t_reassembly_inv by blast
qed

theorem am_rx_never_fails_witness:
  "\<exists>e. nr_rlc_entity_am_recv_pdu am_empty [144, 0, 7] = Inr e"
  using am_rx_never_fails[OF am_example_ok am_rx_run.created[OF am_empty_eq] am_half_carries]
  by (auto simp: am_empty_simps)

text \<open>
  C15: the duplicate test is exact. Inside the reception window, \<open>segment_already_received\<close>
  answers yes exactly when every byte of the segment has been received, in whatever pieces.
\<close>

theorem am_already_received_exact:
  assumes "sdus_ok D" "am_rx_run D e base G" "base \<le> n" "n < base + am_window_size e"
    "0 \<le> so" "so + sz \<le> int (length (D n))"
  shows "am_segment_already_received e (n mod am_sn_modulus e) so sz \<longleftrightarrow> {n} \<times> {so..<so + sz} \<subseteq> G"
proof -
  obtain ns where inv: "am_rx_inv D e base ns G" using am_rx_run_inv[OF assms(2,1)] by blast
  note d = am_rx_midD[OF am_rx_invD(1)[OF inv]] and g = am_rx_midD(13)[OF am_rx_invD(1)[OF inv], unfolded rx_got_def]
  have "rx_sorted (rx_idx (am_sn_modulus e) base) (am_rx_list e)" using d(4) by (simp add: rx_ok_def rx_list_ok_def)
  then have iff: "am_segment_already_received e (n mod am_sn_modulus e) so sz
      \<longleftrightarrow> covered (rx_segs (n mod am_sn_modulus e) (am_rx_list e)) so (so + sz)"
    unfolding am_segment_already_received_def by (intro already_received_iff rx_segs_sorted)
  show ?thesis
  proof (cases "n \<in> set ns")
    case True
    then have "rx_complete (am_sn_modulus e) D (am_rx_list e) n" using d(4) assms(3,4) unfolding rx_ok_def by blast
    then have "covered (rx_segs (n mod am_sn_modulus e) (am_rx_list e)) so (so + sz)"
      unfolding rx_complete_def covered_def using assms(5,6) by (meson order_less_le_trans order_trans)
    moreover have "{n} \<times> {so..<so + sz} \<subseteq> G" using True g assms(5,6) by auto
    ultimately show ?thesis using iff by simp
  next
    case False
    then have "byte_covered (am_rx_list e) (n mod am_sn_modulus e) i \<longleftrightarrow> (n, i) \<in> G" for i
      using g assms(3,4) by blast
    then show ?thesis unfolding iff covered_bytes by auto
  qed
qed

theorem am_already_received_exact_witness:
  "\<exists>e. nr_rlc_entity_am_recv_pdu am_empty [144, 0, 7] = Inr e
     \<and> am_segment_already_received e 0 0 1 \<and> \<not> am_segment_already_received e 0 0 2"
proof -
  obtain e base where e: "nr_rlc_entity_am_recv_pdu am_empty [144, 0, 7] = Inr e"
    "am_rx_run (\<lambda>n. [7, 8]) e base ({0} \<times> {0..<1})"
    using am_example_run[OF am_half_carries] by (auto simp: am_half_def)
  obtain ns where inv: "am_rx_inv (\<lambda>n. [7, 8]) e base ns ({0} \<times> {0..<1})"
    using am_rx_run_inv[OF e(2) am_example_ok] by blast
  note d = am_rx_midD[OF am_rx_invD(1)[OF inv]]
  have none: False if "n \<in> set ns" for n
  proof -
    have "\<forall>i. 0 \<le> i \<and> i < int (length [7 :: byte, 8]) \<longrightarrow> (n, i) \<in> {0} \<times> {0..<1}"
      using d(13)[unfolded rx_got_def] that by blast
    from this[rule_format, of 1] show False by simp
  qed
  have "base = 0"
  proof (rule ccontr)
    assume "base \<noteq> 0"
    then have "0 \<in> {0..<base}" using d(3) by simp
    then show False using none d(5) by blast
  qed
  moreover have "0 < am_window_size e" using am_config_pos[OF d(1)] by linarith
  ultimately have "am_segment_already_received e (0 mod am_sn_modulus e) 0 sz
      \<longleftrightarrow> {0 :: int} \<times> {0..<0 + sz} \<subseteq> {0} \<times> {0..<1}" if "sz \<le> 2" for sz
    using am_already_received_exact[OF am_example_ok e(2), of 0 0 sz] that by simp
  from this[of 1] this[of 2] show ?thesis using e(1) by (auto simp: times_subset_iff)
qed

end
