(* ===== verification/Rlc_Am_Feedback.thy ===== *)
theory Rlc_Am_Feedback
  imports Rlc_Am_Run
begin

text \<open>
  What a received STATUS PDU does to the transmission side. The second pass of
  \<open>process_control_pdu\<close> moves segments between the wait list, the new and the old retransmission
  list and the free store; \<open>am_ctrl_inv\<close> is the invariant of its local pointers. It holds for
  every sequence of NACKs, so the lemmas do not depend on what the PDU says.
\<close>

section \<open>The invariant of the second pass\<close>

definition am_ctrl_inv :: "nr_rlc_sdu_segment list \<Rightarrow> am_ctrl \<Rightarrow> bool" where
  "am_ctrl_inv lost c \<longleftrightarrow>
     am_fly_inv [] lost ((cs_entity c)\<lparr>am_wait_list := cs_kept c @ cs_wait c,
        am_wait_end := (case cs_end c of None \<Rightarrow> am_wait_end (cs_entity c) | Some w \<Rightarrow> w),
        am_retransmit_list := cs_new c @ cs_retx c\<rparr>)
     \<and> (cs_wait c \<noteq> [] \<longrightarrow> cs_end c = None)
     \<and> (\<not> cs_stop c \<longrightarrow>
          (\<forall>x \<in> set (cs_new c). \<forall>y \<in> set (cs_wait c).
             sn_so_le (am_dist (cs_entity c)) (seg_key (heap (cs_entity c)) x) (seg_key (heap (cs_entity c)) y)))"

text \<open>The entity the invariant is about: the lists as they would be written back now.\<close>

definition cs_lists :: "am_ctrl \<Rightarrow> nr_rlc_entity_am" where
  "cs_lists c =
     (cs_entity c)\<lparr>am_wait_list := cs_kept c @ cs_wait c,
        am_wait_end := (case cs_end c of None \<Rightarrow> am_wait_end (cs_entity c) | Some w \<Rightarrow> w),
        am_retransmit_list := cs_new c @ cs_retx c\<rparr>"

lemma am_ctrl_invD:
  assumes "am_ctrl_inv lost c"
  shows "am_fly_inv [] lost (cs_lists c)" "cs_wait c \<noteq> [] \<Longrightarrow> cs_end c = None"
    "\<not> cs_stop c \<Longrightarrow> x \<in> set (cs_new c) \<Longrightarrow> y \<in> set (cs_wait c) \<Longrightarrow>
     sn_so_le (am_dist (cs_entity c)) (seg_key (heap (cs_entity c)) x) (seg_key (heap (cs_entity c)) y)"
  using assms unfolding am_ctrl_inv_def cs_lists_def by blast+

lemma am_ctrl_invI:
  assumes "am_fly_inv [] lost (cs_lists c)" "cs_wait c \<noteq> [] \<Longrightarrow> cs_end c = None"
    "\<And>x y. \<not> cs_stop c \<Longrightarrow> x \<in> set (cs_new c) \<Longrightarrow> y \<in> set (cs_wait c) \<Longrightarrow>
     sn_so_le (am_dist (cs_entity c)) (seg_key (heap (cs_entity c)) x) (seg_key (heap (cs_entity c)) y)"
  shows "am_ctrl_inv lost c"
  using assms unfolding am_ctrl_inv_def cs_lists_def by blast

lemma cs_lists_simps [simp]:
  "am_wait_list (cs_lists c) = cs_kept c @ cs_wait c"
  "am_retransmit_list (cs_lists c) = cs_new c @ cs_retx c"
  "am_wait_end (cs_lists c) = (case cs_end c of None \<Rightarrow> am_wait_end (cs_entity c) | Some w \<Rightarrow> w)"
  "heap (cs_lists c) = heap (cs_entity c)" "bstatus (cs_lists c) = bstatus (cs_entity c)"
  "am_tx_list (cs_lists c) = am_tx_list (cs_entity c)" "am_tx_end (cs_lists c) = am_tx_end (cs_entity c)"
  "am_tx_next (cs_lists c) = am_tx_next (cs_entity c)" "am_tx_next_ack (cs_lists c) = am_tx_next_ack (cs_entity c)"
  "am_tx_size (cs_lists c) = am_tx_size (cs_entity c)"
  "am_sn_field_length (cs_lists c) = am_sn_field_length (cs_entity c)"
  "am_sn_modulus (cs_lists c) = am_sn_modulus (cs_entity c)"
  "am_window_size (cs_lists c) = am_window_size (cs_entity c)"
  by (simp_all add: cs_lists_def)

lemma cs_lists_dist [simp]:
  "am_dist (cs_lists c) = am_dist (cs_entity c)"
  "am_compute_pdu_header_size (cs_lists c) s = am_compute_pdu_header_size (cs_entity c) s"
  "am_sn_ok (cs_lists c) a = am_sn_ok (cs_entity c) a"
  by (simp_all add: am_dist_def fun_eq_iff am_compute_pdu_header_size_def am_sn_ok_def)

text \<open>What every step keeps.\<close>

definition cs_same :: "am_ctrl \<Rightarrow> am_ctrl \<Rightarrow> bool" where
  "cs_same c c' \<longleftrightarrow>
     am_sn_field_length (cs_entity c') = am_sn_field_length (cs_entity c)
     \<and> am_sn_modulus (cs_entity c') = am_sn_modulus (cs_entity c)
     \<and> am_tx_next (cs_entity c') = am_tx_next (cs_entity c)
     \<and> am_tx_next_ack (cs_entity c') = am_tx_next_ack (cs_entity c)
     \<and> am_tx_list (cs_entity c') = am_tx_list (cs_entity c)
     \<and> (\<forall>i. sdu_sn (hp_sdu (heap (cs_entity c')) i) = sdu_sn (hp_sdu (heap (cs_entity c)) i))
     \<and> (\<forall>i. sdu_data (hp_sdu (heap (cs_entity c')) i) = sdu_data (hp_sdu (heap (cs_entity c)) i))"

lemma cs_same_refl [simp]: "cs_same c c"
  by (simp add: cs_same_def)

lemma cs_same_trans: "cs_same a b \<Longrightarrow> cs_same b c \<Longrightarrow> cs_same a c"
  by (simp add: cs_same_def)

lemma cs_same_dist: "cs_same c c' \<Longrightarrow> am_dist (cs_entity c') = am_dist (cs_entity c)"
  by (simp add: cs_same_def am_dist_def fun_eq_iff)

lemma cs_same_key: "cs_same c c' \<Longrightarrow> seg_key (heap (cs_entity c')) s = seg_key (heap (cs_entity c)) s"
  by (simp add: cs_same_def seg_key_def sdu_of_def)

section \<open>Steps\<close>

lemma am_sorted_app_sub:
  assumes "am_sorted m b h (k @ s # w)"
  shows "am_sorted m b h (k @ w)"
  using assms by (simp add: am_sorted_def sorted_wrt_append)

lemma am_unlink_end:
  assumes inv: "am_ctrl_inv lost c" and w: "cs_wait c = s # w"
  shows "(case cs_end (am_unlink_wait s c) of None \<Rightarrow> am_wait_end (cs_entity c) | Some x \<Rightarrow> x) = list_end (cs_kept c @ w)"
    "w \<noteq> [] \<Longrightarrow> cs_end (am_unlink_wait s c) = None"
proof -
  note d = am_fly_invD[OF am_ctrl_invD(1)[OF inv]]
  have none: "cs_end c = None" using am_ctrl_invD(2)[OF inv] w by simp
  have en: "am_wait_end (cs_entity c) = list_end (cs_kept c @ s # w)" using d(9) none w by simp
  have dist: "distinct (map seg_addr (cs_kept c @ s # w))"
    using store_inv_addr[OF am_coreD(1)[OF d(5)]] w by auto
  show "(case cs_end (am_unlink_wait s c) of None \<Rightarrow> am_wait_end (cs_entity c) | Some x \<Rightarrow> x) = list_end (cs_kept c @ w)"
    using none en list_end_remove[OF dist] by (simp add: am_unlink_wait_def)
  assume "w \<noteq> []"
  then have "last (cs_kept c @ s # w) \<in> set w" by simp
  moreover have "seg_addr s \<notin> seg_addr ` set w" using dist by simp
  ultimately have "seg_addr (last (cs_kept c @ s # w)) \<noteq> seg_addr s" by (metis imageI)
  then show "cs_end (am_unlink_wait s c) = None" using none en by (simp add: am_unlink_wait_def list_end_def)
qed

text \<open>Freeing a segment in flight.\<close>

lemma am_free_acked_same:
  "am_sn_field_length (am_free_acked s e) = am_sn_field_length e"
  "am_sn_modulus (am_free_acked s e) = am_sn_modulus e"
  "am_window_size (am_free_acked s e) = am_window_size e"
  "am_tx_next (am_free_acked s e) = am_tx_next e" "am_tx_next_ack (am_free_acked s e) = am_tx_next_ack e"
  "am_tx_list (am_free_acked s e) = am_tx_list e" "am_tx_end (am_free_acked s e) = am_tx_end e"
  "am_wait_end (am_free_acked s e) = am_wait_end e" "bstatus (am_free_acked s e) = bstatus e"
  "am_wait_list (am_free_acked s e) = am_wait_list e" "am_retransmit_list (am_free_acked s e) = am_retransmit_list e"
  "heap (am_free_acked s e) = snd (nr_rlc_free_sdu_segment s (heap e))"
  "am_tx_size (am_free_acked s e)
   = am_tx_size e - (if fst (nr_rlc_free_sdu_segment s (heap e)) then sdu_size (sdu_of (heap e) s) else 0)"
  by (simp_all add: am_free_acked_def Let_def split: prod.split)

lemma am_free_acked_inv:
  assumes inv: "am_fly_inv [s] lost e"
  shows "am_fly_inv [] lost (am_free_acked s e)"
proof -
  note d = am_fly_invD[OF inv]
  have core: "am_core (am_sn_modulus e) (am_tx_next_ack e) (am_dist e (am_tx_next e)) (heap e)
      (am_tx_list e) (s # am_wait_list e @ am_retransmit_list e) lost" using d(5) by simp
  note fr = am_core_free[OF core]
  have so: "am_sorted (am_sn_modulus e) (am_tx_next_ack e) (snd (nr_rlc_free_sdu_segment s (heap e))) l
      = am_sorted (am_sn_modulus e) (am_tx_next_ack e) (heap e) l" for l
    by (rule am_sorted_cong) (simp add: seg_key_def sdu_of_def free_segment_same)
  show ?thesis
    by (rule am_fly_invI[of e _ "am_dist e (am_tx_next e)"])
      (use d fr so in \<open>simp_all add: am_dist_def am_free_acked_same\<close>)
qed

lemma cs_lists_free:
  "cs_lists (c\<lparr>cs_entity := am_free_acked s e\<rparr>) = am_free_acked s (cs_lists (c\<lparr>cs_entity := e\<rparr>))"
  by (simp add: cs_lists_def am_free_acked_def Let_def split: prod.split option.split)

text \<open>Taking the head of the wait list into the hand.\<close>

lemma am_wait_head_fly:
  assumes inv: "am_ctrl_inv lost c" and w: "cs_wait c = s # w"
  shows "am_fly_inv [s] lost (cs_lists (am_unlink_wait s c))"
proof -
  note d = am_fly_invD[OF am_ctrl_invD(1)[OF inv]]
  have u: "cs_wait (am_unlink_wait s c) = w" "cs_entity (am_unlink_wait s c) = cs_entity c"
    "cs_kept (am_unlink_wait s c) = cs_kept c" "cs_new (am_unlink_wait s c) = cs_new c"
    "cs_retx (am_unlink_wait s c) = cs_retx c"
    by (simp_all add: am_unlink_wait_def w)
  have core: "am_core (am_sn_modulus (cs_lists c)) (am_tx_next_ack (cs_lists c))
      (am_dist (cs_lists c) (am_tx_next (cs_lists c))) (heap (cs_lists c)) (am_tx_list (cs_lists c))
      ([s] @ (cs_kept c @ w) @ cs_new c @ cs_retx c) lost"
    by (rule am_core_mset[OF d(5)]) (simp add: w)
  have e: "am_wait_end (cs_lists (am_unlink_wait s c)) = list_end (cs_kept c @ w)"
    unfolding cs_lists_simps u by (rule am_unlink_end(1)[OF inv w])
  have so: "am_sorted (am_sn_modulus (cs_lists c)) (am_tx_next_ack (cs_lists c)) (heap (cs_lists c)) (cs_kept c @ w)"
    by (rule am_sorted_app_sub[where s = s]) (use d(6) w in simp)
  show ?thesis
    by (rule am_fly_invI[of "cs_lists c" _ "am_dist (cs_lists c) (am_tx_next (cs_lists c))"])
      (use d core e so in \<open>simp_all only: cs_lists_simps u, simp_all add: am_dist_def\<close>)
qed


text \<open>
  A step keeps the invariant, invents no segment, and drops none whose number is not before
  \<open>ACK_SN\<close>; what no list leads to any more counts as held, in \<open>lost\<close>.
\<close>

definition cs_held :: "am_ctrl \<Rightarrow> nr_rlc_sdu_segment list" where
  "cs_held c = cs_kept c @ cs_wait c @ cs_new c @ cs_retx c"

definition cs_step :: "int \<Rightarrow> am_ctrl \<Rightarrow> am_ctrl \<Rightarrow> bool" where
  "cs_step a c c' \<longleftrightarrow> cs_same c c' \<and> set (cs_held c') \<subseteq> set (cs_held c) \<and>
     (\<forall>lost. am_ctrl_inv lost c \<longrightarrow>
       (\<exists>lost'. am_ctrl_inv lost' c' \<and> set (cs_held c' @ lost') \<subseteq> set (cs_held c @ lost)
          \<and> (\<forall>s \<in> set (cs_held c @ lost). 0 \<le> am_sn_compare_tx (cs_entity c) (seg_sn c s) a \<longrightarrow>
                s \<in> set (cs_held c' @ lost'))))"

lemma cs_stepI:
  assumes "cs_same c c'"
    and "\<And>lost. am_ctrl_inv lost c \<Longrightarrow> am_ctrl_inv (f lost) c'"
    and "\<And>lost. set (cs_held c' @ f lost) \<subseteq> set (cs_held c @ lost)"
    and "\<And>lost s. s \<in> set (cs_held c @ lost) \<Longrightarrow> 0 \<le> am_sn_compare_tx (cs_entity c) (seg_sn c s) a \<Longrightarrow>
          s \<in> set (cs_held c' @ f lost)"
  shows "cs_step a c c'"
proof -
  have "set (cs_held c') \<subseteq> set (cs_held c)" using assms(3)[of "[]"] by simp
  then show ?thesis unfolding cs_step_def using assms by blast
qed

lemma cs_same_compare:
  "cs_same c c' \<Longrightarrow> am_sn_compare_tx (cs_entity c') x y = am_sn_compare_tx (cs_entity c) x y"
  "cs_same c c' \<Longrightarrow> seg_sn c' s = seg_sn c s"
  by (simp_all add: cs_same_def am_sn_compare_tx_def am_modulus_tx_def Let_def seg_sn_def sdu_of_def)

lemma cs_step_refl [simp]: "cs_step a c c"
  by (rule cs_stepI[where f = id]) simp_all

lemma cs_step_trans:
  assumes "cs_step a b c" "cs_step a c d"
  shows "cs_step a b d"
  unfolding cs_step_def
proof (intro conjI allI impI)
  show "cs_same b d" using assms cs_same_trans unfolding cs_step_def by blast
  show "set (cs_held d) \<subseteq> set (cs_held b)" using assms unfolding cs_step_def by blast
  have bc: "cs_same b c" using assms(1) unfolding cs_step_def by blast
  note cmp = cs_same_compare(1)[OF bc] cs_same_compare(2)[OF bc]
  fix lost assume "am_ctrl_inv lost b"
  then obtain l1 where 1: "am_ctrl_inv l1 c" "set (cs_held c @ l1) \<subseteq> set (cs_held b @ lost)"
    "\<And>s. s \<in> set (cs_held b @ lost) \<Longrightarrow> 0 \<le> am_sn_compare_tx (cs_entity b) (seg_sn b s) a \<Longrightarrow>
       s \<in> set (cs_held c @ l1)"
    using assms(1) unfolding cs_step_def by blast
  obtain l2 where 2: "am_ctrl_inv l2 d" "set (cs_held d @ l2) \<subseteq> set (cs_held c @ l1)"
    "\<And>s. s \<in> set (cs_held c @ l1) \<Longrightarrow> 0 \<le> am_sn_compare_tx (cs_entity b) (seg_sn b s) a \<Longrightarrow>
       s \<in> set (cs_held d @ l2)"
    using assms(2) 1(1) unfolding cs_step_def cmp by blast
  show "\<exists>lost'. am_ctrl_inv lost' d \<and> set (cs_held d @ lost') \<subseteq> set (cs_held b @ lost)
          \<and> (\<forall>s \<in> set (cs_held b @ lost). 0 \<le> am_sn_compare_tx (cs_entity b) (seg_sn b s) a \<longrightarrow>
                s \<in> set (cs_held d @ lost'))"
    using 1 2 by (intro exI[of _ l2]) blast
qed

text \<open>The order between the two heads.\<close>

definition seg_before :: "am_ctrl \<Rightarrow> nr_rlc_sdu_segment \<Rightarrow> nr_rlc_sdu_segment \<Rightarrow> bool" where
  "seg_before c x y \<longleftrightarrow>
     sn_so_le (am_dist (cs_entity c)) (seg_key (heap (cs_entity c)) x) (seg_key (heap (cs_entity c)) y)"

lemma seg_before_trans: "seg_before c x y \<Longrightarrow> seg_before c y z \<Longrightarrow> seg_before c x z"
  unfolding seg_before_def by (auto simp: sn_so_le_def)

lemma am_sorted_before:
  "am_sorted (am_sn_modulus (cs_entity c)) (am_tx_next_ack (cs_entity c)) (heap (cs_entity c)) l
   \<longleftrightarrow> sorted_wrt (seg_before c) l"
  unfolding am_sorted_def seg_before_def[abs_def] am_dist_def[abs_def] ..

lemma cs_same_before: "cs_same c c' \<Longrightarrow> seg_before c' x y = seg_before c x y"
  by (simp add: seg_before_def cs_same_dist cs_same_key)

lemma am_ctrl_order:
  assumes "am_ctrl_inv lost c"
  shows "sorted_wrt (seg_before c) (cs_kept c @ cs_wait c)" "sorted_wrt (seg_before c) (cs_new c @ cs_retx c)"
    "\<not> cs_stop c \<Longrightarrow> x \<in> set (cs_new c) \<Longrightarrow> y \<in> set (cs_wait c) \<Longrightarrow> seg_before c x y"
  using am_fly_invD(6,7)[OF am_ctrl_invD(1)[OF assms]] am_ctrl_invD(3)[OF assms]
  by (simp_all add: am_sorted_before[symmetric] seg_before_def)


lemma am_ctrl_invI2:
  assumes "am_fly_inv [] lost (cs_lists c)" "cs_wait c \<noteq> [] \<Longrightarrow> cs_end c = None"
    "\<And>x y. \<not> cs_stop c \<Longrightarrow> x \<in> set (cs_new c) \<Longrightarrow> y \<in> set (cs_wait c) \<Longrightarrow> seg_before c x y"
  shows "am_ctrl_inv lost c"
  by (rule am_ctrl_invI) (use assms in \<open>simp_all add: seg_before_def\<close>)

lemma am_unlink_wait_simps [simp]:
  "cs_wait (am_unlink_wait s c) = tl (cs_wait c)" "cs_entity (am_unlink_wait s c) = cs_entity c"
  "cs_kept (am_unlink_wait s c) = cs_kept c" "cs_new (am_unlink_wait s c) = cs_new c"
  "cs_retx (am_unlink_wait s c) = cs_retx c" "cs_stop (am_unlink_wait s c) = cs_stop c"
  by (simp_all add: am_unlink_wait_def)

text \<open>Acknowledged segments.\<close>

lemma am_free_acked_cs:
  "cs_same c (c'\<lparr>cs_entity := am_free_acked s e\<rparr>)" if "cs_same c (c'\<lparr>cs_entity := e\<rparr>)"
  using that by (simp add: cs_same_def am_free_acked_same free_segment_same)

lemma am_ack_wait_step:
  assumes w: "cs_wait c = s # w" and acked: "am_sn_compare_tx (cs_entity c) (seg_sn c s) a < 0"
  shows "cs_step a c (am_ack_wait s c)"
proof (rule cs_stepI[where f = id])
  show same: "cs_same c (am_ack_wait s c)"
    unfolding am_ack_wait_def by (rule am_free_acked_cs) (simp add: cs_same_def)
  fix lost assume inv: "am_ctrl_inv lost c"
  have u: "(am_unlink_wait s c)\<lparr>cs_entity := cs_entity c\<rparr> = am_unlink_wait s c"
    by (simp add: am_unlink_wait_def)
  show "am_ctrl_inv (id lost) (am_ack_wait s c)"
  proof (rule am_ctrl_invI2)
    show "am_fly_inv [] (id lost) (cs_lists (am_ack_wait s c))"
      unfolding am_ack_wait_def cs_lists_free u using am_free_acked_inv[OF am_wait_head_fly[OF inv w]] by simp
    show "cs_wait (am_ack_wait s c) \<noteq> [] \<Longrightarrow> cs_end (am_ack_wait s c) = None"
      using am_unlink_end(2)[OF inv w] by (simp add: am_ack_wait_def w)
    show "seg_before (am_ack_wait s c) x y"
      if "\<not> cs_stop (am_ack_wait s c)" "x \<in> set (cs_new (am_ack_wait s c))" "y \<in> set (cs_wait (am_ack_wait s c))" for x y
      unfolding cs_same_before[OF same]
      by (rule am_ctrl_order(3)[OF inv]) (use that in \<open>simp_all add: am_ack_wait_def w\<close>)
  qed
next
  show "set (cs_held (am_ack_wait s c) @ id lost) \<subseteq> set (cs_held c @ lost)" for lost
    by (auto simp: cs_held_def am_ack_wait_def w)
  show "t \<in> set (cs_held (am_ack_wait s c) @ id lost)"
    if "t \<in> set (cs_held c @ lost)" "0 \<le> am_sn_compare_tx (cs_entity c) (seg_sn c t) a" for lost t
    using that acked by (auto simp: cs_held_def am_ack_wait_def w)
qed

lemma am_ack_retx_step:
  assumes r: "cs_retx c = s # r" and acked: "am_sn_compare_tx (cs_entity c) (seg_sn c s) a < 0"
  shows "cs_step a c (am_ack_retx s c)"
proof (rule cs_stepI[where f = id])
  define e where "e = add_retx_size (- (am_compute_pdu_header_size (cs_entity c) s + seg_size s)) (cs_entity c)"
  define c1 where "c1 = c\<lparr>cs_retx := r, cs_entity := e\<rparr>"
  have ack: "am_ack_retx s c = c1\<lparr>cs_entity := am_free_acked s e\<rparr>"
    by (simp add: am_ack_retx_def e_def c1_def r)
  have c1: "c1\<lparr>cs_entity := e\<rparr> = c1" by (simp add: c1_def)
  show same: "cs_same c (am_ack_retx s c)"
    unfolding ack by (rule am_free_acked_cs) (simp add: cs_same_def c1_def e_def)
  fix lost assume inv: "am_ctrl_inv lost c"
  note d = am_fly_invD[OF am_ctrl_invD(1)[OF inv]]
  have core: "am_core (am_sn_modulus (cs_lists c)) (am_tx_next_ack (cs_lists c))
      (am_dist (cs_lists c) (am_tx_next (cs_lists c))) (heap (cs_lists c)) (am_tx_list (cs_lists c))
      ([s] @ (cs_kept c @ cs_wait c) @ cs_new c @ r) lost"
    by (rule am_core_mset[OF d(5)]) (simp add: r)
  have so: "am_sorted (am_sn_modulus (cs_lists c)) (am_tx_next_ack (cs_lists c)) (heap (cs_lists c)) (cs_new c @ r)"
    by (rule am_sorted_app_sub[where s = s]) (use d(7) r in simp)
  have "am_fly_inv [s] lost (cs_lists c1)"
    by (rule am_fly_invI[of "cs_lists c" _ "am_dist (cs_lists c) (am_tx_next (cs_lists c))"])
      (use d core so in \<open>simp_all add: c1_def e_def am_dist_def r cong: option.case_cong\<close>)
  then have fly: "am_fly_inv [] (id lost) (cs_lists (am_ack_retx s c))"
    unfolding ack cs_lists_free c1 using am_free_acked_inv by simp
  show "am_ctrl_inv (id lost) (am_ack_retx s c)"
  proof (rule am_ctrl_invI2[OF fly])
    show "cs_wait (am_ack_retx s c) \<noteq> [] \<Longrightarrow> cs_end (am_ack_retx s c) = None"
      using am_ctrl_invD(2)[OF inv] by (simp add: am_ack_retx_def)
    show "seg_before (am_ack_retx s c) x y"
      if "\<not> cs_stop (am_ack_retx s c)" "x \<in> set (cs_new (am_ack_retx s c))" "y \<in> set (cs_wait (am_ack_retx s c))" for x y
      unfolding cs_same_before[OF same]
      by (rule am_ctrl_order(3)[OF inv]) (use that in \<open>simp_all add: am_ack_retx_def\<close>)
  qed
next
  show "set (cs_held (am_ack_retx s c) @ id lost) \<subseteq> set (cs_held c @ lost)" for lost
    by (auto simp: cs_held_def am_ack_retx_def r)
  show "t \<in> set (cs_held (am_ack_retx s c) @ id lost)"
    if "t \<in> set (cs_held c @ lost)" "0 \<le> am_sn_compare_tx (cs_entity c) (seg_sn c t) a" for lost t
    using that acked by (auto simp: cs_held_def am_ack_retx_def r)
qed


text \<open>A segment of the wait list is reported missing.\<close>

lemma am_nack_wait_same: "cs_same c (am_nack_wait s c)"
  by (simp add: am_nack_wait_def Let_def cs_same_def)

lemma am_nack_wait_inv:
  assumes w: "cs_wait c = s # w" and first: "\<And>r. r \<in> set (cs_retx c) \<Longrightarrow> seg_before c s r"
    and inv: "am_ctrl_inv lost c" and run: "\<not> cs_stop c"
  shows "am_ctrl_inv lost (am_nack_wait s c)"
proof -
  define f :: "nr_rlc_sdu \<Rightarrow> nr_rlc_sdu" where "f = (\<lambda>x. x\<lparr>sdu_retx_count := sdu_retx_count x + 1\<rparr>)"
  define e2 where "e2 = (let e1 = set_heap (update_sdu f s (heap (cs_entity c))) (cs_entity c)
      in if sdu_retx_count (sdu_of (heap e1) s) \<ge> am_max_retx_threshold e1 * sdu_ref_count (sdu_of (heap e1) s)
         then call Max_retx_reached e1 else e1)"
  define e3 where "e3 = add_retx_size (am_compute_pdu_header_size e2 s + seg_size s) e2"
  have ne: "am_nack_wait s c = (am_unlink_wait s c)\<lparr>cs_new := cs_new c @ [s], cs_tail := [], cs_entity := e3\<rparr>"
    unfolding am_nack_wait_def Let_def e3_def e2_def f_def ..
  have e2: "heap e2 = update_sdu f s (heap (cs_entity c))" "am_sn_field_length e2 = am_sn_field_length (cs_entity c)"
    "am_sn_modulus e2 = am_sn_modulus (cs_entity c)" "am_window_size e2 = am_window_size (cs_entity c)"
    "am_tx_next e2 = am_tx_next (cs_entity c)" "am_tx_next_ack e2 = am_tx_next_ack (cs_entity c)"
    "am_tx_list e2 = am_tx_list (cs_entity c)" "am_tx_end e2 = am_tx_end (cs_entity c)"
    "am_wait_end e2 = am_wait_end (cs_entity c)" "bstatus e2 = bstatus (cs_entity c)"
    "am_tx_size e2 = am_tx_size (cs_entity c)"
    unfolding e2_def Let_def by (simp_all split: if_split)
  have hdr: "am_compute_pdu_header_size e2 x = am_compute_pdu_header_size (cs_entity c) x" for x
    by (rule am_header_cong[OF e2(2)])
  note same = am_nack_wait_same[of c s]
  note d = am_fly_invD[OF am_ctrl_invD(1)[OF inv]]
  let ?m = "am_sn_modulus (cs_entity c)" and ?b = "am_tx_next_ack (cs_entity c)"
  let ?h = "update_sdu f s (heap (cs_entity c))" and ?n = "am_dist (cs_entity c) (am_tx_next (cs_entity c))"
  have core0: "am_core ?m ?b ?n (heap (cs_entity c)) (am_tx_list (cs_entity c))
      ((cs_kept c @ w) @ (cs_new c @ [s]) @ cs_retx c) lost"
    by (rule am_core_mset[of _ _ _ _ _ "cs_kept c @ cs_wait c @ cs_new c @ cs_retx c"])
      (use d(5) in \<open>simp_all add: w\<close>)
  have core: "am_core ?m ?b ?n ?h (am_tx_list (cs_entity c))
      ((cs_kept c @ w) @ (cs_new c @ [s]) @ cs_retx c) lost"
    by (rule am_core_update[OF core0]) (simp_all add: f_def)
  have so: "am_sorted ?m ?b ?h l = sorted_wrt (seg_before c) l" for l
    unfolding am_sorted_before[symmetric]
    by (rule am_sorted_cong) (simp add: seg_key_def sdu_of_def f_def)
  note ord = am_ctrl_order[OF inv]
  have ns: "seg_before c x s" if "x \<in> set (cs_new c)" for x using ord(3)[OF run that] w by simp
  have sw: "sorted_wrt (seg_before c) (cs_kept c @ w)"
    "sorted_wrt (seg_before c) ((cs_new c @ [s]) @ cs_retx c)"
    using ord(1,2) ns first by (auto simp: w sorted_wrt_append)
  have al: "alloc_bytes ?h = alloc_bytes (heap (cs_entity c))" by (rule alloc_bytes_update) (simp_all add: f_def)
  have en: "am_wait_end (cs_lists (am_nack_wait s c)) = list_end (cs_kept c @ w)"
    using am_unlink_end(1)[OF inv w] by (simp add: ne e3_def e2 cong: option.case_cong)
  show "am_ctrl_inv lost (am_nack_wait s c)"
  proof (rule am_ctrl_invI2)
    show "am_fly_inv [] lost (cs_lists (am_nack_wait s c))"
      by (rule am_fly_invI[of "cs_lists c" _ ?n])
        (use d core so sw en al in \<open>simp_all add: ne e3_def e2 hdr am_dist_def w cong: option.case_cong\<close>)
    show "cs_wait (am_nack_wait s c) \<noteq> [] \<Longrightarrow> cs_end (am_nack_wait s c) = None"
      using am_unlink_end(2)[OF inv w] by (simp add: ne w)
    show "seg_before (am_nack_wait s c) x y"
      if "\<not> cs_stop (am_nack_wait s c)" "x \<in> set (cs_new (am_nack_wait s c))" "y \<in> set (cs_wait (am_nack_wait s c))" for x y
      unfolding cs_same_before[OF same]
      using that ord(1) ord(3)[OF run, of x y] by (auto simp: ne w sorted_wrt_append)
  qed
qed


lemma am_nack_wait_step:
  assumes w: "cs_wait c = s # w" and run: "\<not> cs_stop c"
    and first: "\<And>lost r. am_ctrl_inv lost c \<Longrightarrow> r \<in> set (cs_retx c) \<Longrightarrow> seg_before c s r"
  shows "cs_step a c (am_nack_wait s c)"
proof (rule cs_stepI[where f = id])
  show "am_ctrl_inv (id lost) (am_nack_wait s c)" if "am_ctrl_inv lost c" for lost
    using am_nack_wait_inv(1)[OF w _ that run] first[OF that] by simp
  show "cs_same c (am_nack_wait s c)" by (rule am_nack_wait_same)
qed (auto simp: cs_held_def am_nack_wait_def Let_def w)

text \<open>A segment of the retransmission list stays.\<close>

lemma am_keep_retx_step:
  assumes r: "cs_retx c = s # r"
    and first: "\<And>lost w. am_ctrl_inv lost c \<Longrightarrow> \<not> cs_stop c \<Longrightarrow> w \<in> set (cs_wait c) \<Longrightarrow> seg_before c s w"
  shows "cs_step a c (am_keep_retx s c)"
proof (rule cs_stepI[where f = id])
  fix lost assume inv: "am_ctrl_inv lost c"
  have "cs_lists (am_keep_retx s c) = cs_lists c"
    by (simp add: cs_lists_def am_keep_retx_def r cong: option.case_cong)
  then have fly: "am_fly_inv [] (id lost) (cs_lists (am_keep_retx s c))" using am_ctrl_invD(1)[OF inv] by simp
  show "am_ctrl_inv (id lost) (am_keep_retx s c)"
  proof (rule am_ctrl_invI2[OF fly])
    show "cs_wait (am_keep_retx s c) \<noteq> [] \<Longrightarrow> cs_end (am_keep_retx s c) = None"
      using am_ctrl_invD(2)[OF inv] by (simp add: am_keep_retx_def)
    show "seg_before (am_keep_retx s c) x y"
      if "\<not> cs_stop (am_keep_retx s c)" "x \<in> set (cs_new (am_keep_retx s c))" "y \<in> set (cs_wait (am_keep_retx s c))" for x y
      using that first[OF inv, of y] am_ctrl_order(3)[OF inv, of x y]
      by (auto simp: am_keep_retx_def seg_before_def)
  qed
qed (auto simp: cs_held_def am_keep_retx_def cs_same_def r)

text \<open>A segment of the wait list stays.\<close>

lemma am_keep_wait_step:
  assumes w: "cs_wait c = s # w"
  shows "cs_step a c (c\<lparr>cs_kept := cs_kept c @ [s], cs_wait := w\<rparr>)"
proof (rule cs_stepI[where f = id])
  let ?c = "c\<lparr>cs_kept := cs_kept c @ [s], cs_wait := w\<rparr>"
  fix lost assume inv: "am_ctrl_inv lost c"
  have "cs_lists ?c = cs_lists c" by (simp add: cs_lists_def w cong: option.case_cong)
  then have fly: "am_fly_inv [] (id lost) (cs_lists ?c)" using am_ctrl_invD(1)[OF inv] by simp
  show "am_ctrl_inv (id lost) ?c"
  proof (rule am_ctrl_invI2[OF fly])
    show "seg_before ?c x y" if "\<not> cs_stop ?c" "x \<in> set (cs_new ?c)" "y \<in> set (cs_wait ?c)" for x y
      using that am_ctrl_order(3)[OF inv, of x y] by (simp add: seg_before_def w)
  qed (use am_ctrl_invD(2)[OF inv] w in simp)
qed (auto simp: cs_held_def cs_same_def w)

lemma am_stop_step: "cs_step a c (c\<lparr>cs_stop := True\<rparr>)"
proof (rule cs_stepI[where f = id])
  fix lost assume inv: "am_ctrl_inv lost c"
  have "cs_lists (c\<lparr>cs_stop := True\<rparr>) = cs_lists c" by (simp add: cs_lists_def cong: option.case_cong)
  then show "am_ctrl_inv (id lost) (c\<lparr>cs_stop := True\<rparr>)"
    using am_ctrl_invD(1,2)[OF inv] by (intro am_ctrl_invI2) simp_all
qed (auto simp: cs_held_def cs_same_def)

text \<open>
  The jump to \<open>lists_over\<close> out of the retransmission list: the assignment behind the label cuts
  off what is left of it.
\<close>

lemma am_lists_over_step: "cs_step a c (c\<lparr>cs_tail := t, cs_retx := []\<rparr>)"
proof (rule cs_stepI[where f = "(@) (cs_retx c)"])
  let ?c = "c\<lparr>cs_tail := t, cs_retx := []\<rparr>"
  fix lost assume inv: "am_ctrl_inv lost c"
  note d = am_fly_invD[OF am_ctrl_invD(1)[OF inv]]
  have core: "am_core (am_sn_modulus (cs_lists c)) (am_tx_next_ack (cs_lists c))
      (am_dist (cs_lists c) (am_tx_next (cs_lists c))) (heap (cs_lists c)) (am_tx_list (cs_lists c))
      (cs_kept c @ cs_wait c @ cs_new c) (cs_retx c @ lost)"
    by (rule am_core_lose, rule am_core_mset[OF d(5)]) simp
  have "sorted_wrt (seg_before c) (cs_new c)" using am_ctrl_order(2)[OF inv] by (simp add: sorted_wrt_append)
  then have so: "am_sorted (am_sn_modulus (cs_lists c)) (am_tx_next_ack (cs_lists c)) (heap (cs_lists c)) (cs_new c)"
    by (simp add: am_sorted_before)
  have fly: "am_fly_inv [] (cs_retx c @ lost) (cs_lists ?c)"
    by (rule am_fly_invI[of "cs_lists c" _ "am_dist (cs_lists c) (am_tx_next (cs_lists c))"])
      (use d core so in \<open>simp_all add: am_dist_def cong: option.case_cong\<close>)
  show "am_ctrl_inv (cs_retx c @ lost) ?c"
  proof (rule am_ctrl_invI2[OF fly])
    show "seg_before ?c x y" if "\<not> cs_stop ?c" "x \<in> set (cs_new ?c)" "y \<in> set (cs_wait ?c)" for x y
      using that am_ctrl_order(3)[OF inv, of x y] by (simp add: seg_before_def)
  qed (use am_ctrl_invD(2)[OF inv] in simp)
qed (auto simp: cs_held_def cs_same_def)


section \<open>The rounds\<close>

lemma am_held_sn_ok:
  assumes inv: "am_ctrl_inv lost c" and "s \<in> set (cs_held c)"
  shows "am_sn_ok (cs_entity c) (seg_sn c s)" "am_sn_ok (cs_entity c) (am_tx_next_ack (cs_entity c))"
proof -
  note d = am_fly_invD[OF am_ctrl_invD(1)[OF inv]]
  show "am_sn_ok (cs_entity c) (am_tx_next_ack (cs_entity c))" using d(3) by simp
  show "am_sn_ok (cs_entity c) (seg_sn c s)"
    using sn_used_ok[OF am_coreD(2)[OF d(5), of s]] assms(2) by (auto simp: cs_held_def seg_sn_def)
qed

text \<open>The test for the smaller head.\<close>

lemma am_head_order:
  assumes inv: "am_ctrl_inv lost c" and w: "w \<in> set (cs_held c)" and r: "r \<in> set (cs_held c)"
    and cmp: "cmp = am_sn_compare_tx (cs_entity c) (seg_sn c w) (seg_sn c r)"
  shows "cmp < 0 \<or> (cmp = 0 \<and> seg_so w < seg_so r) \<Longrightarrow> seg_before c w r"
    "\<not> (cmp < 0 \<or> (cmp = 0 \<and> seg_so w < seg_so r)) \<Longrightarrow> seg_before c r w"
proof -
  note ok = am_held_sn_ok[OF inv w] am_held_sn_ok(1)[OF inv r]
  have c: "cmp = am_dist (cs_entity c) (seg_sn c w) - am_dist (cs_entity c) (seg_sn c r)"
    unfolding cmp by (rule am_compare_tx_dist[OF ok(2,1,3)])
  have z: "seg_sn c w = seg_sn c r" if "cmp = 0" using am_dist_inj[OF _ ok(1,3)] that c by simp
  show "seg_before c w r" if "cmp < 0 \<or> (cmp = 0 \<and> seg_so w < seg_so r)"
    using that c z by (auto simp: seg_before_def sn_so_le_def seg_key_def seg_sn_def[symmetric])
  show "seg_before c r w" if "\<not> (cmp < 0 \<or> (cmp = 0 \<and> seg_so w < seg_so r))"
    using that c z by (cases "cmp = 0") (auto simp: seg_before_def sn_so_le_def seg_key_def seg_sn_def[symmetric])
qed

lemma am_process_wait_list_head_step:
  assumes w: "cs_cur_wait c = Some s"
    and first: "\<And>lost r. am_ctrl_inv lost c \<Longrightarrow> r \<in> set (cs_retx c) \<Longrightarrow> seg_before c s r"
    and run: "am_process_wait_list_head a k s c = (c', st)"
  shows "cs_step a c c'"
proof -
  obtain l where l: "\<not> cs_stop c" "cs_wait c = s # l" using w cs_cur_wait_Some by blast
  obtain sn so se where k: "k = (sn, so, se)" using prod_cases3 by blast
  note st = am_nack_wait_step[OF l(2,1) first] am_ack_wait_step[OF l(2)] am_stop_step am_keep_wait_step[OF l(2)]
  show ?thesis
    using run l(2) unfolding am_process_wait_list_head_def k Let_def prod.case
    by (simp split: if_splits; use st in \<open>metis cs_step_refl\<close>)
qed

lemma am_process_retransmit_list_head_step:
  assumes r: "cs_retx c = s # l"
    and first: "\<And>lost w. am_ctrl_inv lost c \<Longrightarrow> \<not> cs_stop c \<Longrightarrow> w \<in> set (cs_wait c) \<Longrightarrow> seg_before c s w"
    and run: "am_process_retransmit_list_head a k s c = (c', st)"
  shows "cs_step a c c'"
proof -
  obtain sn so se where k: "k = (sn, so, se)" using prod_cases3 by blast
  note st = am_keep_retx_step[OF r first] am_ack_retx_step[OF r] am_lists_over_step
  show ?thesis
    using run unfolding am_process_retransmit_list_head_def k Let_def prod.case
    by (simp split: if_splits; use st in \<open>metis cs_step_refl\<close>)
qed

lemma am_process_next_pdu_step:
  assumes run: "am_process_next_pdu a k c = (c', st)"
  shows "cs_step a c c'"
proof (cases "cs_cur_wait c")
  case None
  show ?thesis
  proof (cases "cs_retx c")
    case Nil
    then show ?thesis using run None by (simp add: am_process_next_pdu_def)
  next
    case (Cons r l)
    have "am_process_retransmit_list_head a k r c = (c', st)"
      using run None Cons by (simp add: am_process_next_pdu_def)
    moreover have "cs_stop c \<or> cs_wait c = []" using None by (auto simp: cs_cur_wait_def split: if_splits list.splits)
    ultimately show ?thesis by (intro am_process_retransmit_list_head_step[OF Cons]) auto
  qed
next
  case (Some w)
  obtain lw where lw: "\<not> cs_stop c" "cs_wait c = w # lw" using Some cs_cur_wait_Some by blast
  show ?thesis
  proof (cases "cs_retx c")
    case Nil
    then have "am_process_wait_list_head a k w c = (c', st)" using run Some by (simp add: am_process_next_pdu_def)
    then show ?thesis by (intro am_process_wait_list_head_step[OF Some]) (simp_all add: Nil)
  next
    case (Cons r l)
    let ?cmp = "am_sn_compare_tx (cs_entity c) (seg_sn c w) (seg_sn c r)"
    let ?lt = "?cmp < 0 \<or> (?cmp = 0 \<and> seg_so w < seg_so r)"
    have held: "w \<in> set (cs_held c)" "r \<in> set (cs_held c)" by (simp_all add: cs_held_def lw Cons)
    have sr: "sorted_wrt (seg_before c) (r # l)" if "am_ctrl_inv lost c" for lost
      using am_ctrl_order(2)[OF that] by (simp add: sorted_wrt_append Cons)
    have sw: "sorted_wrt (seg_before c) (w # lw)" if "am_ctrl_inv lost c" for lost
      using am_ctrl_order(1)[OF that] by (simp add: sorted_wrt_append lw)
    show ?thesis
    proof (cases ?lt)
      case True
      have "am_process_wait_list_head a k w c = (c', st)"
        using run Some Cons True by (simp add: am_process_next_pdu_def Let_def)
      then show ?thesis
      proof (rule am_process_wait_list_head_step[OF Some, rotated])
        fix lost x assume inv: "am_ctrl_inv lost c" and x: "x \<in> set (cs_retx c)"
        show "seg_before c w x"
          using am_head_order(1)[OF inv held refl True] sr[OF inv] x seg_before_trans
          by (auto simp: Cons)
      qed
    next
      case False
      have "am_process_retransmit_list_head a k r c = (c', st)"
        using run Some Cons False by (simp add: am_process_next_pdu_def Let_def)
      then show ?thesis
      proof (rule am_process_retransmit_list_head_step[OF Cons, rotated])
        fix lost x assume inv: "am_ctrl_inv lost c" and x: "x \<in> set (cs_wait c)"
        show "seg_before c r x"
          using am_head_order(2)[OF inv held refl False] sw[OF inv] x seg_before_trans
          by (auto simp: lw)
      qed
    qed
  qed
qed

lemma am_process_nack_step: "am_process_nack a k c = (c', over) \<Longrightarrow> cs_step a c c'"
proof (induction a k c rule: am_process_nack.induct)
  case (1 a k c)
  obtain c1 st where n: "am_process_next_pdu a k c = (c1, st)" by fastforce
  note s = am_process_next_pdu_step[OF n]
  show ?case
    using 1(1)[OF n[symmetric]] 1(2) s cs_step_trans[OF s]
    by (subst (asm) am_process_nack.simps) (auto simp: n split: if_splits)
qed

lemma am_process_range_step: "cs_step a c (am_process_range a k is c)"
proof (induction "is" arbitrary: c)
  case (Cons i l)
  obtain c1 over where n: "am_process_nack a (am_cur_nack (cs_entity c) k i) c = (c1, over)" by fastforce
  then show ?case using am_process_nack_step[OF n] cs_step_trans[OF _ Cons] by (auto simp: n)
qed simp


section \<open>The decoding of the two passes\<close>

text \<open>
  The first pass reads with the check \<open>R\<close>, the second one without. \<open>rd_ok\<close> relates the two reads
  \<open>m\<close> and \<open>m'\<close> at bit \<open>p\<close>: the checked one fails with \<open>Decode_error\<close> only, and when it succeeds
  it has read at least \<open>k\<close> bits inside the buffer and the other one returns the same. \<open>g\<close> finds the
  decoder in the result.
\<close>

definition rd_ok ::
  "('a \<Rightarrow> nr_rlc_pdu_decoder) \<Rightarrow> byte list \<Rightarrow> nat \<Rightarrow> 'a res \<Rightarrow> 'a res \<Rightarrow> nat \<Rightarrow> bool" where
  "rd_ok g buf p m m' k \<longleftrightarrow>
     (case m of
        Inl er \<Rightarrow> er = Decode_error
      | Inr y \<Rightarrow> m' = Inr y \<and> (\<exists>q. g y = dec_at buf q \<and> p + k \<le> q \<and> q \<le> 8 * length buf))"

lemma rd_ok_bits:
  "p \<le> 8 * length buf \<Longrightarrow> n \<le> 31 \<Longrightarrow>
   rd_ok snd buf p (get_bits_R (dec_at buf p) n) (nr_rlc_pdu_decoder_get_bits (dec_at buf p) n) n"
  by (auto simp: rd_ok_def get_bits_R_dec_at get_bits_dec_at intro: exI[of _ "p + n"])

lemma rd_ok_return: "g y = dec_at buf p \<Longrightarrow> p \<le> 8 * length buf \<Longrightarrow> rd_ok g buf p (Inr y) (Inr y) 0"
  by (auto simp: rd_ok_def intro: exI[of _ p])

lemma rd_ok_weaken: "rd_ok g buf p m m' k \<Longrightarrow> k' \<le> k \<Longrightarrow> rd_ok g buf p m m' k'"
  unfolding rd_ok_def by (force split: sum.splits)

lemma rd_ok_any:
  assumes "rd_ok g buf p m m' k" "\<And>y q. g y = dec_at buf q \<Longrightarrow> q \<le> 8 * length buf \<Longrightarrow> rd_ok g' buf q (f y) (f' y) 0"
  shows "rd_ok g' buf p (rbind m f) (rbind m' f') k"
proof (cases m)
  case (Inl er)
  then show ?thesis using assms(1) by (simp add: rd_ok_def)
next
  case (Inr y)
  then obtain q where q: "m' = Inr y" "g y = dec_at buf q" "p + k \<le> q" "q \<le> 8 * length buf"
    using assms(1) by (auto simp: rd_ok_def)
  show ?thesis using assms(2)[OF q(2,4)] Inr q by (force simp: rd_ok_def split: sum.splits)
qed

text \<open>The forms the two passes have: a field of a value and the decoder, two values, a choice.\<close>

lemma rd_ok_field:
  assumes "p \<le> 8 * length buf" "n \<le> 31"
    and "\<And>v q. q \<le> 8 * length buf \<Longrightarrow> rd_ok g buf q (f v (dec_at buf q)) (f' v (dec_at buf q)) 0"
  shows "rd_ok g buf p (rbind (get_bits_R (dec_at buf p) n) (\<lambda>(v, d). f v d))
           (rbind (nr_rlc_pdu_decoder_get_bits (dec_at buf p) n) (\<lambda>(v, d). f' v d)) n"
  by (rule rd_ok_any[OF rd_ok_bits[OF assms(1,2)]]) (use assms(3) in auto)

lemmas rd_ok_field0 = rd_ok_weaken[OF rd_ok_field zero_le]

lemma rd_ok_pair:
  assumes "rd_ok snd buf p m m' 0"
    and "\<And>v q. q \<le> 8 * length buf \<Longrightarrow> rd_ok g buf q (f v (dec_at buf q)) (f' v (dec_at buf q)) 0"
  shows "rd_ok g buf p (rbind m (\<lambda>(v, d). f v d)) (rbind m' (\<lambda>(v, d). f' v d)) 0"
  by (rule rd_ok_any[OF assms(1)]) (use assms(2) in auto)

lemma rd_ok_triple:
  assumes "rd_ok (\<lambda>(v, w, d). d) buf p m m' 0"
    and "\<And>v w q. q \<le> 8 * length buf \<Longrightarrow> rd_ok g buf q (f v w (dec_at buf q)) (f' v w (dec_at buf q)) 0"
  shows "rd_ok g buf p (rbind m (\<lambda>(v, w, d). f v w d)) (rbind m' (\<lambda>(v, w, d). f' v w d)) 0"
  by (rule rd_ok_any[OF assms(1)]) (use assms(2) in auto)

lemma rd_ok_if:
  "(b \<Longrightarrow> rd_ok g buf p m m' k) \<Longrightarrow> (\<not> b \<Longrightarrow> rd_ok g buf p n n' k) \<Longrightarrow>
   rd_ok g buf p (if b then m else n) (if b then m' else n') k"
  by simp

lemmas rd_ok_intros = rd_ok_pair rd_ok_triple rd_ok_if rd_ok_return rd_ok_weaken[OF rd_ok_bits zero_le]

lemma am_read_nack_ok:
  assumes p: "p \<le> 8 * length buf" and cfg: "am_config_ok e"
  shows "rd_ok snd buf p (am_read_nack get_bits_R e (dec_at buf p))
           (am_read_nack nr_rlc_pdu_decoder_get_bits e (dec_at buf p)) 12"
proof -
  have n: "am_sn_field_length e \<le> 31" "12 \<le> am_sn_field_length e" using cfg by (auto elim!: am_config_cases)
  show ?thesis
    unfolding am_read_nack_def
    by (rule rd_ok_weaken[OF rd_ok_field[OF p n(1)] n(2)])
      (rule rd_ok_field0 rd_ok_intros | assumption | simp)+
qed

lemma am_read_ack_ok:
  assumes cfg: "am_config_ok e"
  shows "rd_ok (\<lambda>(cpt, ack_sn, e1, d). d) buf 0 (am_read_ack get_bits_R e buf)
           (am_read_ack nr_rlc_pdu_decoder_get_bits e buf) 1"
proof -
  have n: "am_sn_field_length e \<le> 31" using cfg by (auto elim!: am_config_cases)
  show ?thesis
    unfolding am_read_ack_def decoder_init_dec_at
    by (rule rd_ok_field, simp, simp) (rule rd_ok_field0 rd_ok_intros n | assumption | simp)+
qed

lemma am_read_nack_cong:
  "am_sn_field_length e' = am_sn_field_length e \<Longrightarrow> am_read_nack rd e' d = am_read_nack rd e d"
  by (simp add: am_read_nack_def)

section \<open>The loops of the second pass\<close>

text \<open>Changes of the entity that the invariant does not look at.\<close>

lemma am_view_step:
  assumes v: "am_tx_view e' = am_tx_view (cs_entity c)"
  shows "cs_step a c (c\<lparr>cs_entity := e'\<rparr>)"
proof (rule cs_stepI[where f = id])
  have f: "am_sn_field_length e' = am_sn_field_length (cs_entity c)" "am_sn_modulus e' = am_sn_modulus (cs_entity c)"
    "am_tx_next e' = am_tx_next (cs_entity c)" "am_tx_next_ack e' = am_tx_next_ack (cs_entity c)"
    "am_tx_list e' = am_tx_list (cs_entity c)" "heap e' = heap (cs_entity c)"
    using v by (simp_all add: am_tx_view_def)
  show same: "cs_same c (c\<lparr>cs_entity := e'\<rparr>)" by (simp add: cs_same_def f)
  fix lost assume inv: "am_ctrl_inv lost c"
  have "am_tx_view (cs_lists (c\<lparr>cs_entity := e'\<rparr>)) = am_tx_view (cs_lists c)"
    using v by (simp add: am_tx_view_def cong: option.case_cong)
  then have fly: "am_fly_inv [] (id lost) (cs_lists (c\<lparr>cs_entity := e'\<rparr>))"
    using am_ctrl_invD(1)[OF inv] am_fly_inv_view by (metis id_apply)
  show "am_ctrl_inv (id lost) (c\<lparr>cs_entity := e'\<rparr>)"
    by (rule am_ctrl_invI2[OF fly])
      (use am_ctrl_invD(2)[OF inv] am_ctrl_order(3)[OF inv] cs_same_before[OF same] in \<open>simp_all\<close>)
qed (simp_all add: cs_held_def)

lemma am_stop_poll_step: "cs_step a c (c\<lparr>cs_entity := am_stop_poll_on_nack k (cs_entity c)\<rparr>)"
  by (rule am_view_step) (simp add: am_stop_poll_on_nack_def am_tx_view_def)

text \<open>
  What the first pass accepts, the second pass decodes to its end: the blocks are read with the
  same results, and the buffer is long enough fuel because a block takes more than a byte.
\<close>

lemma am_nacks_ok:
  assumes "p \<le> 8 * length buf" "8 * length buf < 8 * fuel + p" "am_config_ok e"
  shows "case am_validate_nacks e a fuel e1 (dec_at buf p) of
           Inl er \<Rightarrow> er = Decode_error
         | Inr _ \<Rightarrow> \<forall>c. am_sn_field_length (cs_entity c) = am_sn_field_length e \<longrightarrow>
             (\<exists>c'. am_process_nacks a fuel e1 (dec_at buf p) c = Inr c' \<and> cs_step a c c')"
  using assms
proof (induction fuel arbitrary: e1 p)
  case 0
  then show ?case by simp
next
  case (Suc fuel)
  note v = am_validate_nacks.simps[of e a "Suc fuel" e1 "dec_at buf p"]
    and pr = am_process_nacks.simps[of a "Suc fuel" e1 "dec_at buf p"]
  note rd = am_read_nack_ok[OF Suc.prems(1,3)]
  show ?case
  proof (cases "e1 = 0")
    case True
    then show ?thesis
      by (auto simp: am_validate_nacks.simps[of _ _ _ 0] am_process_nacks.simps[of _ _ 0] intro: cs_step_refl)
  next
    case e1: False
    show ?thesis
    proof (cases "am_read_nack get_bits_R e (dec_at buf p)")
      case (Inl er)
      then show ?thesis using rd e1 by (simp add: v rd_ok_def)
    next
      case (Inr y)
      obtain k d where y: "y = (k, d)" by fastforce
      obtain q where q: "am_read_nack nr_rlc_pdu_decoder_get_bits e (dec_at buf p) = Inr (k, d)"
        "d = dec_at buf q" "p + 12 \<le> q" "q \<le> 8 * length buf"
        using rd Inr y by (auto simp: rd_ok_def)
      let ?ok = "\<forall>i \<in> {0..<nat (nk_range k)}. am_check_nack e a (- 1, 0, 0) (am_cur_nack e k (int i))"
      have val: "am_validate_nacks e a (Suc fuel) e1 (dec_at buf p)
          = (if ?ok then am_validate_nacks e a fuel (nk_e1 k) (dec_at buf q) else Inl Decode_error)"
        using e1 Inr y q(2) by (simp add: v rcheck_def)
      have IH: "case am_validate_nacks e a fuel (nk_e1 k) (dec_at buf q) of
           Inl er \<Rightarrow> er = Decode_error
         | Inr _ \<Rightarrow> \<forall>c. am_sn_field_length (cs_entity c) = am_sn_field_length e \<longrightarrow>
             (\<exists>c'. am_process_nacks a fuel (nk_e1 k) (dec_at buf q) c = Inr c' \<and> cs_step a c c')"
        using Suc.prems q by (intro Suc.IH) simp_all
      show ?thesis
      proof (cases "am_validate_nacks e a (Suc fuel) e1 (dec_at buf p)")
        case (Inl er)
        then show ?thesis using IH unfolding val by (auto split: if_splits)
      next
        case ok: (Inr u)
        then have IHr: "\<exists>c'. am_process_nacks a fuel (nk_e1 k) (dec_at buf q) c = Inr c' \<and> cs_step a c c'"
          if "am_sn_field_length (cs_entity c) = am_sn_field_length e" for c
          using IH that unfolding val by (auto split: if_splits)
        have "\<exists>c'. am_process_nacks a (Suc fuel) e1 (dec_at buf p) c = Inr c' \<and> cs_step a c c'"
          if f: "am_sn_field_length (cs_entity c) = am_sn_field_length e" for c
        proof -
          define c1 where "c1 = am_process_range a k (map int [0..<nat (nk_range k)]) c"
          define c2 where "c2 = c1\<lparr>cs_entity := am_stop_poll_on_nack k (cs_entity c1)\<rparr>"
          have s: "cs_step a c c2"
            unfolding c2_def c1_def by (rule cs_step_trans[OF am_process_range_step am_stop_poll_step])
          then have "cs_same c c2" unfolding cs_step_def by blast
          then have f2: "am_sn_field_length (cs_entity c2) = am_sn_field_length e" using f by (simp add: cs_same_def)
          have "am_process_nacks a (Suc fuel) e1 (dec_at buf p) c = am_process_nacks a fuel (nk_e1 k) (dec_at buf q) c2"
            using e1 by (simp add: pr am_read_nack_cong[OF f] q c2_def c1_def Let_def)
          then show ?thesis using IHr[OF f2] cs_step_trans[OF s] by auto
        qed
        then show ?thesis using ok by simp
      qed
    qed
  qed
qed

lemma am_ack_wait_list_step: "cs_step a c (am_ack_wait_list a c)"
proof (induction a c rule: am_ack_wait_list.induct)
  case (1 a c)
  show ?case
  proof (cases "cs_cur_wait c")
    case None
    then show ?thesis by (subst am_ack_wait_list.simps) simp
  next
    case (Some s)
    then obtain w where "cs_wait c = s # w" using cs_cur_wait_Some by blast
    note st = am_ack_wait_step[OF this, of a]
    show ?thesis using 1[OF Some] st cs_step_trans[OF st] Some
      by (subst am_ack_wait_list.simps) simp
  qed
qed

lemma am_ack_retx_list_step: "cs_step a c (am_ack_retx_list a c)"
proof (induction a c rule: am_ack_retx_list.induct)
  case (1 a c)
  show ?case
  proof (cases "cs_retx c")
    case Nil
    then show ?thesis by (subst am_ack_retx_list.simps) simp
  next
    case (Cons s l)
    note st = am_ack_retx_step[OF this, of a]
    show ?thesis using 1[OF Cons] st cs_step_trans[OF st] Cons
      by (subst am_ack_retx_list.simps) simp
  qed
qed


section \<open>Writing back\<close>



lemma am_finish_lists_same:
  "am_wait_list (am_finish_lists c) = cs_kept c @ cs_wait c"
  "am_retransmit_list (am_finish_lists c) = cs_new c @ cs_retx c"
  "am_tx_list (am_finish_lists c) = am_tx_list (cs_entity c)" "heap (am_finish_lists c) = heap (cs_entity c)"
  "am_tx_next (am_finish_lists c) = am_tx_next (cs_entity c)"
  "am_tx_next_ack (am_finish_lists c) = am_tx_next_ack (cs_entity c)"
  "am_sn_modulus (am_finish_lists c) = am_sn_modulus (cs_entity c)"
  "am_sn_field_length (am_finish_lists c) = am_sn_field_length (cs_entity c)"
  by (simp_all add: am_finish_lists_def Let_def)





section \<open>A whole STATUS PDU\<close>

lemma get_bits_R_value:
  assumes "get_bits_R (dec_at buf p) n = Inr (v, d)" "n \<le> 31" "p \<le> 8 * length buf"
  shows "0 \<le> v" "v < 2 ^ n" "d = dec_at buf (p + n)" "p + n \<le> 8 * length buf"
proof -
  have *: "v = bits_val (take n (drop p (bits_of buf)))" "d = dec_at buf (p + n)" "p + n \<le> 8 * length buf"
    using assms by (auto simp: get_bits_R_dec_at split: if_splits)
  then show "0 \<le> v" "v < 2 ^ n" "d = dec_at buf (p + n)" "p + n \<le> 8 * length buf"
    using bits_val_range[of "take n (drop p (bits_of buf))"] by simp_all
qed

lemma am_read_ack_value:
  assumes r: "am_read_ack get_bits_R e buf = Inr (cpt, a, e1, d)" and cfg: "am_config_ok e"
  shows "am_sn_ok e a"
proof -
  obtain x1 d1 x2 d2 d3 where 1: "get_bits_R (dec_at buf 0) 1 = Inr (x1, d1)" "get_bits_R d1 3 = Inr (x2, d2)"
    "get_bits_R d2 (am_sn_field_length e) = Inr (a, d3)"
    using r unfolding am_read_ack_def decoder_init_dec_at by (auto simp: rbind_eq_Inr)
  have n: "am_sn_field_length e \<le> 31" using cfg by (auto elim!: am_config_cases)
  note g1 = get_bits_R_value[OF 1(1)]
  have d1: "d1 = dec_at buf 1" "1 \<le> 8 * length buf" using g1 by simp_all
  note g2 = get_bits_R_value[OF 1(2)[unfolded d1(1)] _ d1(2)]
  have d2: "d2 = dec_at buf 4" "4 \<le> 8 * length buf" using g2 by simp_all
  show ?thesis using get_bits_R_value(1,2)[OF 1(3)[unfolded d2(1)] n d2(2)] cfg
    by (auto simp: am_sn_ok_def am_config_ok_def)
qed

text \<open>The two passes together: the PDU is ignored, or applied to its end.\<close>

lemma am_control_cases [consumes 1, case_names ignored applied]:
  assumes cfg: "am_config_ok e"
  obtains (ignored) "am_process_control_pdu e buf = Inr e"
  | (applied) cpt a e1 d c where "am_read_ack get_bits_R e buf = Inr (cpt, a, e1, d)" "am_sn_ok e a"
      "am_sn_compare_tx e a (am_tx_next e) \<le> 0" "cs_step a (am_ctrl_init e) c"
      "am_process_control_pdu e buf = Inr (am_update_tx_next_ack a (am_finish_lists c))"
      "e1 = 0 \<Longrightarrow> am_finish_lists c = am_finish_lists (am_ack_retx_list a (am_ack_wait_list a
         ((am_ctrl_init e)\<lparr>cs_entity := (if am_sn_compare_tx e (am_poll_sn e) a < 0
                                         then e\<lparr>am_t_poll_retransmit_start := 0\<rparr> else e)\<rparr>)))"
proof (cases "am_validate_control e buf")
  case (Inl er)
  have "er = Decode_error"
  proof (cases "am_read_ack get_bits_R e buf")
    case (Inl er')
    then show ?thesis using am_read_ack_ok[OF cfg, of buf] \<open>am_validate_control e buf = Inl er\<close>
      by (simp add: am_validate_control_def rd_ok_def)
  next
    case (Inr y)
    obtain cpt a e1 d where y: "y = (cpt, a, e1, d)" using prod_cases4 by blast
    obtain q where "d = dec_at buf q" "1 \<le> q" "q \<le> 8 * length buf"
      using am_read_ack_ok[OF cfg, of buf] Inr y by (auto simp: rd_ok_def)
    then show ?thesis using am_nacks_ok[of q buf "length buf" e a e1] cfg Inl Inr y
      by (auto simp: am_validate_control_def split: if_splits sum.splits)
  qed
  then have "am_process_control_pdu e buf = Inr e" using Inl by (simp add: am_process_control_pdu_def)
  then show thesis by (rule ignored)
next
  case (Inr ok)
  show thesis
  proof (cases ok)
    case False
    then have "am_process_control_pdu e buf = Inr e" using Inr by (simp add: am_process_control_pdu_def)
    then show thesis by (rule ignored)
  next
    case True
    obtain cpt a e1 d where r: "am_read_ack get_bits_R e buf = Inr (cpt, a, e1, d)"
      "am_sn_compare_tx e a (am_tx_next e) \<le> 0" "am_validate_nacks e a (length buf) e1 d = Inr ()"
      using Inr True unfolding am_validate_control_def
      by (auto simp: rbind_eq_Inr not_less split: if_splits)
    obtain q where q: "d = dec_at buf q" "1 \<le> q" "q \<le> 8 * length buf"
      "am_read_ack nr_rlc_pdu_decoder_get_bits e buf = Inr (cpt, a, e1, d)"
      using am_read_ack_ok[OF cfg, of buf] r(1) by (auto simp: rd_ok_def)
    define c1 where "c1 = (am_ctrl_init e)\<lparr>cs_entity := (if am_sn_compare_tx e (am_poll_sn e) a < 0
                                         then e\<lparr>am_t_poll_retransmit_start := 0\<rparr> else e)\<rparr>"
    have s1: "cs_step a (am_ctrl_init e) c1"
      unfolding c1_def by (rule am_view_step) (simp add: am_ctrl_init_def am_tx_view_def)
    have "am_sn_field_length (cs_entity c1) = am_sn_field_length e" by (simp add: c1_def)
    then obtain c2 where c2: "am_process_nacks a (length buf) e1 d c1 = Inr c2" "cs_step a c1 c2"
      using am_nacks_ok[of q buf "length buf" e a e1] cfg q r(3) by auto
    define c where "c = am_ack_retx_list a (am_ack_wait_list a c2)"
    have st: "cs_step a (am_ctrl_init e) c"
      unfolding c_def
      by (rule cs_step_trans[OF cs_step_trans[OF s1 c2(2)] cs_step_trans[OF am_ack_wait_list_step am_ack_retx_list_step]])
    have ap: "am_apply_control e buf = Inr (am_update_tx_next_ack a (am_finish_lists c))"
      unfolding am_apply_control_def q(4) rbind_Inr prod.case Let_def c1_def[symmetric] c2(1) c_def ..
    then have run: "am_process_control_pdu e buf = Inr (am_update_tx_next_ack a (am_finish_lists c))"
      using Inr True by (simp add: am_process_control_pdu_def)
    have "c2 = c1" if "e1 = 0"
      using c2(1) unfolding that am_process_nacks.simps[of _ _ 0] by simp
    then have fin: "am_finish_lists c = am_finish_lists (am_ack_retx_list a (am_ack_wait_list a c1))" if "e1 = 0"
      using that unfolding c_def by simp
    show thesis by (rule applied[OF r(1) am_read_ack_value[OF r(1) cfg] r(2) st run fin[unfolded c1_def]])
  qed
qed


section \<open>A STATUS PDU without NACKs\<close>

lemma dropWhile_filter:
  assumes "sorted_wrt R l" "\<And>x y. R x y \<Longrightarrow> P y \<Longrightarrow> P x"
  shows "dropWhile P l = filter (\<lambda>x. \<not> P x) l"
  using assms(1)
proof (induction l)
  case (Cons x l)
  then show ?case using assms(2)[of x] by (cases "P x") (auto intro!: filter_True[symmetric])
qed simp

lemma am_ack_wait_list_drop:
  assumes "\<not> cs_stop c"
  shows "cs_wait (am_ack_wait_list a c) = dropWhile (\<lambda>s. am_sn_compare_tx (cs_entity c) (seg_sn c s) a < 0) (cs_wait c)"
    "cs_kept (am_ack_wait_list a c) = cs_kept c" "cs_new (am_ack_wait_list a c) = cs_new c"
    "cs_retx (am_ack_wait_list a c) = cs_retx c" "cs_same c (am_ack_wait_list a c)"
proof -
  let ?r = "am_ack_wait_list a c"
  have "cs_wait ?r = dropWhile (\<lambda>s. am_sn_compare_tx (cs_entity c) (seg_sn c s) a < 0) (cs_wait c)
     \<and> cs_kept ?r = cs_kept c \<and> cs_new ?r = cs_new c \<and> cs_retx ?r = cs_retx c \<and> cs_same c ?r"
    using assms
  proof (induction a c rule: am_ack_wait_list.induct)
    case (1 a c)
    show ?case
    proof (cases "cs_wait c")
      case Nil
      then have "am_ack_wait_list a c = c" by (subst am_ack_wait_list.simps) (simp add: cs_cur_wait_def)
      then show ?thesis by (simp add: Nil)
    next
      case (Cons s w)
      then have cur: "cs_cur_wait c = Some s" using "1.prems" by (simp add: cs_cur_wait_def)
      show ?thesis
      proof (cases "am_sn_compare_tx (cs_entity c) (seg_sn c s) a < 0")
        case False
        then have "am_ack_wait_list a c = c" using cur by (subst am_ack_wait_list.simps) simp
        then show ?thesis using False by (simp add: Cons)
      next
        case True
        have same: "cs_same c (am_ack_wait s c)"
          unfolding am_ack_wait_def by (rule am_free_acked_cs) (simp add: cs_same_def)
        have f: "cs_wait (am_ack_wait s c) = w" "cs_kept (am_ack_wait s c) = cs_kept c"
          "cs_new (am_ack_wait s c) = cs_new c" "cs_retx (am_ack_wait s c) = cs_retx c"
          "\<not> cs_stop (am_ack_wait s c)"
          using "1.prems" by (simp_all add: am_ack_wait_def Cons)
        have r: "am_ack_wait_list a c = am_ack_wait_list a (am_ack_wait s c)"
          using cur True by (subst am_ack_wait_list.simps) simp
        show ?thesis
          using 1(1)[OF cur True f(5)] True cs_same_trans[OF same]
          unfolding r f cs_same_compare(1)[OF same] cs_same_compare(2)[OF same] by (simp add: Cons)
      qed
    qed
  qed
  then show "cs_wait ?r = dropWhile (\<lambda>s. am_sn_compare_tx (cs_entity c) (seg_sn c s) a < 0) (cs_wait c)"
    "cs_kept ?r = cs_kept c" "cs_new ?r = cs_new c" "cs_retx ?r = cs_retx c" "cs_same c ?r" by simp_all
qed

lemma am_ack_retx_list_drop:
  "cs_retx (am_ack_retx_list a c) = dropWhile (\<lambda>s. am_sn_compare_tx (cs_entity c) (seg_sn c s) a < 0) (cs_retx c)"
  "cs_kept (am_ack_retx_list a c) = cs_kept c" "cs_new (am_ack_retx_list a c) = cs_new c"
  "cs_wait (am_ack_retx_list a c) = cs_wait c"
proof -
  let ?r = "am_ack_retx_list a c"
  have "cs_retx ?r = dropWhile (\<lambda>s. am_sn_compare_tx (cs_entity c) (seg_sn c s) a < 0) (cs_retx c)
     \<and> cs_kept ?r = cs_kept c \<and> cs_new ?r = cs_new c \<and> cs_wait ?r = cs_wait c"
  proof (induction a c rule: am_ack_retx_list.induct)
    case (1 a c)
    show ?case
    proof (cases "cs_retx c")
      case Nil
      then have "am_ack_retx_list a c = c" by (subst am_ack_retx_list.simps) simp
      then show ?thesis by (simp add: Nil)
    next
      case (Cons s l)
      show ?thesis
      proof (cases "am_sn_compare_tx (cs_entity c) (seg_sn c s) a < 0")
        case False
        then have "am_ack_retx_list a c = c" using Cons by (subst am_ack_retx_list.simps) simp
        then show ?thesis using False by (simp add: Cons)
      next
        case True
        have same: "cs_same c (am_ack_retx s c)"
          unfolding am_ack_retx_def by (rule am_free_acked_cs) (simp add: cs_same_def)
        have f: "cs_retx (am_ack_retx s c) = l" "cs_kept (am_ack_retx s c) = cs_kept c"
          "cs_new (am_ack_retx s c) = cs_new c" "cs_wait (am_ack_retx s c) = cs_wait c"
          by (simp_all add: am_ack_retx_def Cons)
        have r: "am_ack_retx_list a c = am_ack_retx_list a (am_ack_retx s c)"
          using Cons True by (subst am_ack_retx_list.simps) simp
        show ?thesis
          using 1(1)[OF Cons True] True
          unfolding r f cs_same_compare(1)[OF same] cs_same_compare(2)[OF same] by (simp add: Cons)
      qed
    qed
  qed
  then show "cs_retx ?r = dropWhile (\<lambda>s. am_sn_compare_tx (cs_entity c) (seg_sn c s) a < 0) (cs_retx c)"
    "cs_kept ?r = cs_kept c" "cs_new ?r = cs_new c" "cs_wait ?r = cs_wait c" by simp_all
qed

lemma am_acked_filter:
  assumes inv: "am_tx_inv lost e" and a: "am_sn_ok e a"
    and l: "l = am_wait_list e \<or> l = am_retransmit_list e"
  shows "dropWhile (\<lambda>s. am_sn_compare_tx e (sdu_sn (sdu_of (heap e) s)) a < 0) l
       = filter (\<lambda>s. 0 \<le> am_sn_compare_tx e (sdu_sn (sdu_of (heap e) s)) a) l"
proof -
  note d = am_fly_invD[OF inv[unfolded am_tx_inv_def]]
  let ?sn = "\<lambda>s. sdu_sn (sdu_of (heap e) s)"
  have cmp: "am_sn_compare_tx e (?sn s) a = am_dist e (?sn s) - am_dist e a" if "s \<in> set l" for s
    by (rule am_compare_tx_dist[OF d(3) sn_used_ok[OF am_coreD(2)[OF d(5)]] a]) (use that l in auto)
  have "am_sorted (am_sn_modulus e) (am_tx_next_ack e) (heap e) l" using d(6,7) l by auto
  then have "sorted_wrt (\<lambda>x y. am_dist e (?sn x) \<le> am_dist e (?sn y)) l"
    unfolding am_sorted_def
    by (rule sorted_wrt_mono_rel[rotated]) (auto simp: sn_so_le_def seg_key_def am_dist_def)
  then have "dropWhile (\<lambda>s. am_dist e (?sn s) - am_dist e a < 0) l
      = filter (\<lambda>s. \<not> am_dist e (?sn s) - am_dist e a < 0) l"
    by (rule dropWhile_filter) simp
  moreover have "dropWhile (\<lambda>s. am_sn_compare_tx e (?sn s) a < 0) l = dropWhile (\<lambda>s. am_dist e (?sn s) - am_dist e a < 0) l"
    by (rule dropWhile_cong) (simp_all add: cmp)
  moreover have "filter (\<lambda>s. 0 \<le> am_sn_compare_tx e (?sn s) a) l = filter (\<lambda>s. \<not> am_dist e (?sn s) - am_dist e a < 0) l"
    by (rule filter_cong) (simp_all add: cmp not_less)
  ultimately show ?thesis by simp
qed



text \<open>An entity that has sent the SDU of \<open>am_loaded\<close> and waits for its acknowledgement.\<close>

definition am_waiting :: nr_rlc_entity_am where
  "am_waiting =
     (add_tx_size (- 5) (set_heap (update_sdu (\<lambda>t. t\<lparr>sdu_sn := 0\<rparr>) am_loaded_seg (heap am_loaded)) am_loaded))
       \<lparr>am_tx_list := [], am_tx_end := None, am_wait_list := [am_loaded_seg], am_wait_end := Some 0, am_tx_next := 1\<rparr>"

lemma am_waiting_simps:
  "am_tx_inv [] am_waiting" "am_wait_list am_waiting = [am_loaded_seg]" "am_tx_list am_waiting = []"
  "am_sn_field_length am_waiting = 12" "am_retransmit_list am_waiting = []" "am_config_ok am_waiting"
  "am_tx_next am_waiting = 1" "am_tx_next_ack am_waiting = 0" "am_sn_modulus am_waiting = 4096"
  "sdu_sn (sdu_of (heap am_waiting) am_loaded_seg) = 0"
proof -
  note l = am_loaded_simps
  note d = am_fly_invD[OF l(3)[unfolded am_tx_inv_def]]
  have "am_core 4096 0 0 (heap am_loaded) [am_loaded_seg] [] []"
    using d(5) by (simp add: l am_dist_def)
  then have core: "am_core 4096 0 (0 + 1) (update_sdu (\<lambda>t. t\<lparr>sdu_sn := 0\<rparr>) am_loaded_seg (heap am_loaded)) []
      [am_loaded_seg] []"
    by (rule am_core_assign(1)) simp_all
  show f: "am_wait_list am_waiting = [am_loaded_seg]" "am_tx_list am_waiting = []" "am_sn_field_length am_waiting = 12"
    "am_retransmit_list am_waiting = []" "am_tx_next am_waiting = 1" "am_tx_next_ack am_waiting = 0"
    "am_sn_modulus am_waiting = 4096" "sdu_sn (sdu_of (heap am_waiting) am_loaded_seg) = 0"
    by (simp_all add: am_waiting_def l sdu_of_def)
  have w: "am_window_size am_waiting = 2048" by (simp add: am_waiting_def l)
  have al: "alloc_bytes (update_sdu (\<lambda>t. t\<lparr>sdu_sn := 0\<rparr>) am_loaded_seg (heap am_loaded)) = alloc_bytes (heap am_loaded)"
    by (rule alloc_bytes_update) simp_all
  show "am_config_ok am_waiting" using l(15) by (simp add: am_config_ok_def f w l)
  have bs: "bs_tx_size (bstatus am_loaded) = 5" "bs_retx_size (bstatus am_loaded) = 0" "am_tx_size am_loaded = alloc_bytes (heap am_loaded)"
    using d(10-12) by (simp_all add: l am_compute_pdu_header_size_def)
  have "am_fly_inv [] [] am_waiting"
    by (rule am_fly_invI[of am_loaded _ 1])
      (use core al bs l in \<open>simp_all add: am_waiting_def am_sn_ok_def circ_dist_def am_sorted_def list_end_def\<close>)
  then show "am_tx_inv [] am_waiting" by (simp add: am_tx_inv_def)
qed


section \<open>Properties\<close>

text \<open>
  C12: the processing of a STATUS PDU always ends and never fails: for every state of the
  transmission invariant and every byte string, correct or not, both passes over the NACKs and both
  merge loops come to their end, and \<open>nr_rlc_entity_am_recv_pdu\<close> returns.
\<close>

theorem am_process_control_pdu_total:
  assumes "am_tx_inv lost e"
  shows "\<exists>e'. am_process_control_pdu e buf = Inr e'"
  using am_control_cases[OF am_fly_invD(1)[OF assms[unfolded am_tx_inv_def]], of buf] by metis

theorem am_process_control_pdu_total_witness:
  "\<exists>e'. am_process_control_pdu am_waiting [0, 1, 0x80, 0xff, 0xff, 0xff] = Inr e'"
  by (rule am_process_control_pdu_total[OF am_waiting_simps(1)])


lemma am_read_ack_example:
  assumes "am_sn_field_length e = 12"
  shows "am_read_ack get_bits_R e [0, 1, 0] = Inr (0, 1, 0, dec_at [0, 1, 0] 24)"
proof -
  let ?d = "dec_at [0, 1, 0]"
  have b: "byte_bits 0 = replicate 8 False" "byte_bits 1 = replicate 7 False @ [True]"
    by (simp_all add: byte_bits_def numeral_eq_Suc upt_rec)
  have r: "get_bits_R (?d 0) 1 = Inr (0, ?d 1)" "get_bits_R (?d 1) 3 = Inr (0, ?d 4)"
    "get_bits_R (?d 4) 12 = Inr (1, ?d 16)" "get_bits_R (?d 16) 1 = Inr (0, ?d 17)"
    "get_bits_R (?d 17) 7 = Inr (0, ?d 24)"
    by (simp_all add: get_bits_R_dec_at b bits_val_def numeral_eq_Suc)
  show ?thesis unfolding am_read_ack_def decoder_init_dec_at assms by (simp add: r del: One_nat_def)
qed


text \<open>
  C13: a STATUS PDU without NACKs acknowledges exactly the segments before \<open>ACK_SN\<close>: both lists
  keep, in order, the segments from \<open>ACK_SN\<close> on, and the SDUs not yet sent are not touched.
\<close>

theorem am_ack_frees_exactly:
  assumes inv: "am_tx_inv lost e" and r: "am_read_ack get_bits_R e buf = Inr (0, a, 0, d)"
    and le: "am_sn_compare_tx e a (am_tx_next e) \<le> 0"
  shows "\<exists>e'. am_process_control_pdu e buf = Inr e' \<and> am_tx_list e' = am_tx_list e
     \<and> am_wait_list e' = filter (\<lambda>s. 0 \<le> am_sn_compare_tx e (sdu_sn (sdu_of (heap e) s)) a) (am_wait_list e)
     \<and> am_retransmit_list e'
       = filter (\<lambda>s. 0 \<le> am_sn_compare_tx e (sdu_sn (sdu_of (heap e) s)) a) (am_retransmit_list e)"
proof -
  let ?P = "\<lambda>s. am_sn_compare_tx e (sdu_sn (sdu_of (heap e) s)) a < 0"
  have cfg: "am_config_ok e" using am_fly_invD(1) inv by (simp add: am_tx_inv_def)
  have a: "am_sn_ok e a" by (rule am_read_ack_value[OF r cfg])
  have val: "am_validate_control e buf = Inr True"
    using le by (simp add: am_validate_control_def r am_validate_nacks.simps[of _ _ _ 0])
  have rd: "am_read_ack nr_rlc_pdu_decoder_get_bits e buf = Inr (0, a, 0, d)"
    using am_read_ack_ok[OF cfg, of buf] r by (simp add: rd_ok_def)
  define c1 where "c1 = (am_ctrl_init e)\<lparr>cs_entity := (if am_sn_compare_tx e (am_poll_sn e) a < 0
                                         then e\<lparr>am_t_poll_retransmit_start := 0\<rparr> else e)\<rparr>"
  define c2 where "c2 = am_ack_wait_list a c1"
  define c3 where "c3 = am_ack_retx_list a c2"
  have run: "am_process_control_pdu e buf = Inr (am_update_tx_next_ack a (am_finish_lists c3))"
    unfolding am_process_control_pdu_def val am_apply_control_def rd
    by (simp add: am_process_nacks.simps[of _ _ 0] c3_def c2_def c1_def Let_def)
  have init: "cs_same (am_ctrl_init e) c1" "\<not> cs_stop c1" "cs_wait c1 = am_wait_list e" "cs_kept c1 = []"
    "cs_retx c1 = am_retransmit_list e" "cs_new c1 = []"
    by (simp_all add: c1_def am_ctrl_init_def cs_same_def)
  note w = am_ack_wait_list_drop[OF init(2), of a, folded c2_def] and x = am_ack_retx_list_drop[of a c2, folded c3_def]
  have P: "am_sn_compare_tx (cs_entity c1) (seg_sn c1 s) a < 0 \<longleftrightarrow> ?P s"
    "am_sn_compare_tx (cs_entity c2) (seg_sn c2 s) a < 0 \<longleftrightarrow> ?P s" for s
    unfolding cs_same_compare[OF w(5)] cs_same_compare[OF init(1)] by (simp_all add: am_ctrl_init_def seg_sn_def)
  have "am_tx_list (cs_entity c3) = am_tx_list e"
    using am_ack_retx_list_step[of a c2] w(5) init(1) unfolding cs_step_def c3_def[symmetric]
    by (simp add: cs_same_def am_ctrl_init_def)
  moreover have "cs_kept c3 @ cs_wait c3 = dropWhile ?P (am_wait_list e)"
    "cs_new c3 @ cs_retx c3 = dropWhile ?P (am_retransmit_list e)"
    using w x init by (simp_all add: P)
  ultimately show ?thesis
    using run am_acked_filter[OF inv a, of "am_wait_list e"] am_acked_filter[OF inv a, of "am_retransmit_list e"]
    by (simp add: am_update_tx_next_ack_def Let_def am_finish_lists_same)
qed

theorem am_ack_frees_exactly_witness:
  "\<exists>e'. am_process_control_pdu am_waiting [0, 1, 0] = Inr e' \<and> am_wait_list am_waiting \<noteq> [] \<and> am_wait_list e' = []"
  using am_ack_frees_exactly[OF am_waiting_simps(1) am_read_ack_example[OF am_waiting_simps(4)]]
  by (auto simp: am_waiting_simps am_sn_compare_tx_def am_modulus_tx_def)


text \<open>
  C38: when the wait list is used up and the NACK names a part of the SDU \<open>ACK_SN\<close> that the
  retransmission list does not hold, the shortcut \<open>new_retransmit_list->next =
  cur_retransmit_list\<close> is undone by the same assignment behind \<open>lists_over\<close>, where
  \<open>cur_retransmit_list\<close> is null: the rest of the retransmission list is in no list any more,
  still allocated and still counted.
\<close>

theorem am_lists_over_loses_segments:
  assumes "cs_cur_wait c = None" "cs_retx c = r # l" "seg_sn c r = a"
    and "\<not> am_so_overlap so_start so_end (seg_so r) (seg_so r + seg_size r - 1)" "seg_so r \<le> so_start"
  shows "\<exists>c'. am_process_nack a (a, so_start, so_end) c = (c', True)
     \<and> am_retransmit_list (am_finish_lists c') = cs_new c
     \<and> heap (am_finish_lists c') = heap (cs_entity c) \<and> bstatus (am_finish_lists c') = bstatus (cs_entity c)"
proof -
  have self: "am_sn_compare_tx e x x = 0" for e x by (simp add: am_sn_compare_tx_def)
  have "am_process_next_pdu a (a, so_start, so_end) c = (c\<lparr>cs_tail := cs_retx c, cs_retx := []\<rparr>, Lists_over)"
    using assms by (simp add: am_process_next_pdu_def am_process_retransmit_list_head_def Let_def self)
  then have "am_process_nack a (a, so_start, so_end) c = (c\<lparr>cs_tail := cs_retx c, cs_retx := []\<rparr>, True)"
    by (simp add: am_process_nack.simps)
  then show ?thesis by (simp add: am_finish_lists_def Let_def)
qed

theorem am_lists_over_loses_segments_witness:
  "\<exists>c'. am_process_nack 0 (0, 3, 5) (am_ctrl_init (am_waiting\<lparr>am_wait_list := [], am_retransmit_list := [am_loaded_seg]\<rparr>)) = (c', True)
     \<and> am_retransmit_list (am_finish_lists c') = []"
  using am_lists_over_loses_segments[of "am_ctrl_init (am_waiting\<lparr>am_wait_list := [], am_retransmit_list := [am_loaded_seg]\<rparr>)"
      am_loaded_seg "[]" 0 3 5] am_waiting_simps(10)
  by (auto simp: am_ctrl_init_def cs_cur_wait_def seg_sn_def am_so_overlap_def)

end
