(* ===== verification/Rlc_Am_Trace.thy ===== *)
theory Rlc_Am_Trace
  imports Rlc_Am_Receiver Rlc_Am_Feedback
begin

text \<open>
  The SDUs on their way through an AM transmitter: the sequence number on the wire is the place of the
  SDU in the order of numbering, and the bytes behind it are bytes of this SDU, whatever is
  acknowledged, asked for again or cut in pieces. One lemma per operation; \<open>Rlc_Am_Link\<close> puts two
  entities together.
\<close>

section \<open>The index of a sequence number\<close>

text \<open>The last of the first \<open>n\<close> numbers that is \<open>sn\<close> modulo \<open>m\<close>.\<close>

definition sn_index :: "int \<Rightarrow> int \<Rightarrow> int \<Rightarrow> int" where
  "sn_index m n sn = n - 1 - (n - 1 - sn) mod m"

lemma sn_index_mod: "0 \<le> sn \<Longrightarrow> sn < m \<Longrightarrow> sn_index m n sn mod m = sn"
  by (simp add: sn_index_def mod_diff_right_eq mod_pos_pos_trivial)

lemma sn_index_less: "0 < m \<Longrightarrow> sn_index m n sn < n"
  unfolding sn_index_def using pos_mod_sign[of m "n - 1 - sn"] by linarith

lemma sn_index_new: "0 < m \<Longrightarrow> sn_index m (n + 1) (n mod m) = n"
  by (simp add: sn_index_def mod_diff_right_eq)

lemma sn_index_old:
  assumes "0 \<le> sn" "sn < m" "sn \<noteq> n mod m"
  shows "sn_index m (n + 1) sn = sn_index m n sn"
proof -
  let ?k = "(n - sn) mod m"
  have "?k \<noteq> 0"
  proof
    assume "?k = 0"
    then have "n mod m = sn mod m" by (simp add: mod_eq_dvd_iff dvd_eq_mod_eq_0)
    then show False using assms by simp
  qed
  moreover have "0 \<le> ?k" "?k < m" using assms by simp_all
  moreover have "n - 1 - sn = n - sn - 1" by simp
  then have "(n - 1 - sn) mod m = (?k - 1) mod m" by (simp only: mod_diff_left_eq)
  ultimately have "(n - 1 - sn) mod m = ?k - 1" by simp
  then show ?thesis by (simp add: sn_index_def)
qed

section \<open>The SDUs of the transmitter\<close>

text \<open>
  \<open>Ds\<close> are the SDUs that have got a sequence number, in this order, and \<open>acc\<close> all accepted ones. The SDU of
  every segment the transmitter holds is the one its number stands for, or still waits for a number.
\<close>

definition sdu_indexed :: "int \<Rightarrow> byte list list \<Rightarrow> nr_rlc_sdu \<Rightarrow> bool" where
  "sdu_indexed m Ds s \<longleftrightarrow>
     0 \<le> sn_index m (int (length Ds)) (sdu_sn s)
     \<and> sdu_data s = Ds ! nat (sn_index m (int (length Ds)) (sdu_sn s))"

definition am_held_sdus :: "nr_rlc_entity_am \<Rightarrow> nat set" where
  "am_held_sdus e = seg_sdu ` set (am_tx_list e @ am_wait_list e @ am_retransmit_list e)"

definition am_pending :: "nr_rlc_entity_am \<Rightarrow> byte list list" where
  "am_pending e = map (\<lambda>s. sdu_data (sdu_of (heap e) s)) (filter seg_is_first (am_tx_list e))"

definition am_trace :: "byte list list \<Rightarrow> byte list list \<Rightarrow> nr_rlc_entity_am \<Rightarrow> bool" where
  "am_trace Ds acc e \<longleftrightarrow>
     am_tx_next e = int (length Ds) mod am_sn_modulus e
     \<and> (\<forall>i \<in> am_held_sdus e. sdu_sn (hp_sdu (heap e) i) \<noteq> - 1 \<longrightarrow> sdu_indexed (am_sn_modulus e) Ds (hp_sdu (heap e) i))
     \<and> acc = Ds @ am_pending e"

text \<open>What every operation but the arrival of an SDU and the first transmission keeps.\<close>

definition sdu_same :: "sdu_heap \<Rightarrow> sdu_heap \<Rightarrow> bool" where
  "sdu_same h h' \<longleftrightarrow>
     (\<forall>i. sdu_sn (hp_sdu h' i) = sdu_sn (hp_sdu h i) \<and> sdu_data (hp_sdu h' i) = sdu_data (hp_sdu h i))"

definition am_tx_kept :: "nr_rlc_entity_am \<Rightarrow> nr_rlc_entity_am \<Rightarrow> bool" where
  "am_tx_kept e e' \<longleftrightarrow>
     am_sn_modulus e' = am_sn_modulus e \<and> am_tx_next e' = am_tx_next e \<and> am_tx_list e' = am_tx_list e
     \<and> sdu_same (heap e) (heap e') \<and> am_held_sdus e' \<subseteq> am_held_sdus e"

lemma sdu_same_refl [simp]: "sdu_same h h"
  by (simp add: sdu_same_def)

lemma sdu_same_trans: "sdu_same a b \<Longrightarrow> sdu_same b c \<Longrightarrow> sdu_same a c"
  by (simp add: sdu_same_def)

lemma sdu_same_update:
  "(\<And>s. sdu_sn (f s) = sdu_sn s) \<Longrightarrow> (\<And>s. sdu_data (f s) = sdu_data s) \<Longrightarrow> sdu_same h (update_sdu f s h)"
  by (simp add: sdu_same_def)

lemma am_tx_kept_refl [simp]: "am_tx_kept e e"
  by (simp add: am_tx_kept_def)

lemma am_tx_kept_trans: "am_tx_kept a b \<Longrightarrow> am_tx_kept b c \<Longrightarrow> am_tx_kept a c"
  unfolding am_tx_kept_def using sdu_same_trans by auto

lemma am_held_view: "am_tx_view e' = am_tx_view e \<Longrightarrow> am_held_sdus e' = am_held_sdus e"
  by (simp add: am_tx_view_def am_held_sdus_def)

lemma am_tx_kept_view: "am_tx_view e' = am_tx_view e \<Longrightarrow> am_tx_kept e e'"
  using am_held_view[of e' e] by (simp add: am_tx_view_def am_tx_kept_def)

lemma am_trace_kept:
  assumes "am_trace Ds acc e" "am_tx_kept e e'"
  shows "am_trace Ds acc e'"
proof -
  have k: "am_sn_modulus e' = am_sn_modulus e" "am_tx_next e' = am_tx_next e" "am_tx_list e' = am_tx_list e"
    "am_held_sdus e' \<subseteq> am_held_sdus e" "\<And>i. sdu_sn (hp_sdu (heap e') i) = sdu_sn (hp_sdu (heap e) i)"
    "\<And>i. sdu_data (hp_sdu (heap e') i) = sdu_data (hp_sdu (heap e) i)"
    using assms(2) by (simp_all add: am_tx_kept_def sdu_same_def)
  show ?thesis using assms(1) k(4) by (auto simp: am_trace_def am_pending_def sdu_indexed_def sdu_of_def k(1-3,5,6))
qed

subsection \<open>Timers\<close>

lemma am_move_to_retx_kept:
  "am_wait_list e = s # rest \<Longrightarrow> am_tx_kept e (am_move_to_retx s rest e)"
  "am_wait_list (am_move_to_retx s rest e) = rest"
  by (auto simp: am_tx_kept_def am_move_to_retx_def am_held_sdus_def Let_def)

lemma am_retransmit_sn_kept: "am_wait_list e = l \<Longrightarrow> am_tx_kept e (am_retransmit_sn_loop sn l e)"
proof (induction sn l e rule: am_retransmit_sn_loop.induct)
  case (2 sn s rest e)
  note m = am_move_to_retx_kept(1)[OF 2(2)] am_move_to_retx_kept(2)[of s rest e]
  show ?case
  proof (cases rest)
    case (Cons nxt l)
    show ?thesis using 2(1)[OF refl Cons _ m(2)] m(1) am_tx_kept_trans by (auto simp: Cons Let_def)
  qed (use m in simp)
qed simp

lemma am_poll_timer_kept:
  assumes "am_check_t_poll_retransmit e = Inr e'"
  shows "am_tx_kept e e'"
proof (cases "am_t_poll_retransmit_start e = 0
    \<or> am_t_current e \<le> am_t_poll_retransmit_start e + word_of_int (am_t_poll_retransmit e)")
  case True
  then show ?thesis using assms by (simp add: am_check_t_poll_retransmit_def)
next
  case False
  define e1 where "e1 = e\<lparr>am_t_poll_retransmit_start := 0, am_force_poll := True\<rparr>"
  have v: "am_tx_kept e e1" by (rule am_tx_kept_view) (simp add: e1_def)
  show ?thesis
  proof (cases "am_check_poll_after_pdu_assembly e1")
    case polls: True
    show ?thesis
    proof (cases "am_wait_list e1")
      case Nil
      then show ?thesis
        using assms False polls unfolding am_check_t_poll_retransmit_def e1_def[symmetric] Let_def by simp
    next
      case (Cons s rest)
      define e2 where "e2 = set_heap (update_sdu (\<lambda>s. s\<lparr>sdu_retx_count := sdu_retx_count s + 1\<rparr>) s (heap e1)) e1"
      define e3 where "e3 = am_retransmit_sn_loop (sdu_sn (sdu_of (heap e2) s)) (am_wait_list e2) e2"
      have k2: "am_tx_kept e1 e2" by (simp add: e2_def am_tx_kept_def am_held_sdus_def sdu_same_update)
      have "am_tx_kept e2 e3" unfolding e3_def by (rule am_retransmit_sn_kept[OF refl])
      note k3 = am_tx_kept_trans[OF v am_tx_kept_trans[OF k2 this]]
      have "am_tx_kept e3 (call Max_retx_reached e3)" by (rule am_tx_kept_view) simp
      note k4 = am_tx_kept_trans[OF k3 this]
      have w2: "am_wait_list e2 = s # rest" using Cons by (simp add: e2_def)
      have "am_check_t_poll_retransmit e = Inr (if am_max_retx_threshold e3 \<le> sdu_retx_count (sdu_of (heap e2) s)
          then call Max_retx_reached e3 else e3)"
        using False polls Cons w2
        unfolding am_check_t_poll_retransmit_def e1_def[symmetric] Let_def
        by (simp only: if_False simp_thms list.case e2_def[symmetric] e3_def[symmetric, unfolded w2])
      then have "e' = (if am_max_retx_threshold e3 \<le> sdu_retx_count (sdu_of (heap e2) s)
          then call Max_retx_reached e3 else e3)" using assms by simp
      then show ?thesis using k3 k4 by (simp split: if_splits)
    qed
  next
    case False
    then show ?thesis
      using assms v \<open>\<not> (am_t_poll_retransmit_start e = 0 \<or> _)\<close>
      unfolding am_check_t_poll_retransmit_def e1_def[symmetric] Let_def by simp
  qed
qed

lemma am_check_t_reassembly_view: "am_check_t_reassembly e = Inr e' \<Longrightarrow> am_tx_view e' = am_tx_view e"
  by (rule tx_view.reassembly_timer[OF refl])

lemma am_set_time_kept:
  assumes "nr_rlc_entity_am_set_time e t = Inr e'"
  shows "am_tx_kept e e'"
proof -
  obtain e1 where e1: "am_check_t_poll_retransmit (e\<lparr>am_t_current := t\<rparr>) = Inr e1" "am_check_t_reassembly e1 = Inr e'"
    using assms by (auto simp: nr_rlc_entity_am_set_time_def rbind_eq_Inr)
  have "am_tx_kept e (e\<lparr>am_t_current := t\<rparr>)" by (rule am_tx_kept_view) simp
  from am_tx_kept_trans[OF this am_tx_kept_trans[OF am_poll_timer_kept[OF e1(1)]
        am_tx_kept_view[OF am_check_t_reassembly_view[OF e1(2)]]]] show ?thesis .
qed
subsection \<open>STATUS PDUs\<close>

lemma am_control_kept:
  assumes inv: "am_tx_inv lost e" and run: "am_process_control_pdu e buf = Inr e'"
  shows "am_tx_kept e e'"
  using am_fly_invD(1)[OF inv[unfolded am_tx_inv_def]]
proof (cases rule: am_control_cases[where buf = buf])
  case ignored
  then show ?thesis using run by simp
next
  case (applied cpt a e1 d c)
  have init: "cs_entity (am_ctrl_init e) = e" "cs_held (am_ctrl_init e) = am_wait_list e @ am_retransmit_list e"
    by (simp_all add: am_ctrl_init_def cs_held_def)
  have same: "cs_same (am_ctrl_init e) c" and held: "set (cs_held c) \<subseteq> set (am_wait_list e @ am_retransmit_list e)"
    using applied(4) init(2) unfolding cs_step_def by auto
  have e': "e' = am_update_tx_next_ack a (am_finish_lists c)" using run applied(5) by simp
  have "am_wait_list e' = cs_kept c @ cs_wait c" "am_retransmit_list e' = cs_new c @ cs_retx c"
    unfolding e' by (simp_all add: am_update_tx_next_ack_def am_finish_lists_same Let_def)
  then have "set (am_wait_list e' @ am_retransmit_list e') \<subseteq> set (am_wait_list e @ am_retransmit_list e)"
    using held by (auto simp: cs_held_def)
  moreover have "am_sn_modulus e' = am_sn_modulus e" "am_tx_next e' = am_tx_next e" "am_tx_list e' = am_tx_list e"
    "sdu_same (heap e) (heap e')"
    using same init(1) unfolding e'
    by (simp_all add: am_update_tx_next_ack_def am_finish_lists_same cs_same_def sdu_same_def Let_def)
  ultimately show ?thesis by (auto simp: am_tx_kept_def am_held_sdus_def)
qed
lemma am_recv_control_pdu:
  assumes "get_bits_R (nr_rlc_pdu_decoder_init buf) 1 = Inr (0, d)"
  shows "nr_rlc_entity_am_recv_pdu e buf = am_process_control_pdu (am_counted (int (length buf)) e) buf"
  using assms by (simp add: nr_rlc_entity_am_recv_pdu_def am_counted_def)

lemma am_counted_view [simp]: "am_tx_view (am_counted n e) = am_tx_view e"
  by (simp add: am_counted_def)

subsection \<open>Data PDUs from the peer\<close>

lemma am_recv_data_kept:
  assumes "am_read_data_pdu e buf = Some h" "nr_rlc_entity_am_recv_pdu e buf = Inr e'"
  shows "am_tx_view e' = am_tx_view e"
proof -
  let ?e = "am_counted (int (length buf)) e"
  obtain dc d where d: "get_bits_R (nr_rlc_pdu_decoder_init buf) 1 = Inr (dc, d)" "dc \<noteq> 0"
    "am_parse_data_header ?e d (int (length buf)) = Inr (Inr h)"
    using assms(1) unfolding am_read_data_pdu_def am_parse_counted by (auto split: sum.splits prod.splits if_splits)
  then have "am_recv_data_pdu ?e d buf = Inr e'"
    using assms(2) by (simp add: nr_rlc_entity_am_recv_pdu_def am_counted_def)
  from tx_view.recv_data[OF refl this] show ?thesis by simp
qed
subsection \<open>SDUs from the upper layer\<close>

text \<open>An accepted SDU goes to the end of the transmission list.\<close>

lemma am_recv_sdu_new:
  assumes inv: "am_tx_inv lost e" and run: "nr_rlc_entity_am_recv_sdu now e buf i = Inr e'"
    and fits: "am_tx_size e + int (length buf) \<le> am_tx_maxsize e"
  shows "\<exists>seg. am_tx_list e' = am_tx_list e @ [seg] \<and> seg_is_first seg \<and> seg_sdu seg = hp_next (heap e)
     \<and> sdu_sn (hp_sdu (heap e') (seg_sdu seg)) = - 1 \<and> sdu_data (hp_sdu (heap e') (seg_sdu seg)) = buf
     \<and> (\<forall>j. j \<noteq> hp_next (heap e) \<longrightarrow> hp_sdu (heap e') j = hp_sdu (heap e) j)
     \<and> am_wait_list e' = am_wait_list e \<and> am_retransmit_list e' = am_retransmit_list e
     \<and> am_tx_next e' = am_tx_next e \<and> am_sn_modulus e' = am_sn_modulus e"
proof -
  define e0 where "e0 = am_sdu_arrives e"
  note v = am_arrives_view[of e, folded e0_def]
  have f: "am_tx_size e0 = am_tx_size e" "heap e0 = heap e" "am_tx_list e0 = am_tx_list e" "am_tx_end e0 = am_tx_end e"
    "am_wait_list e0 = am_wait_list e" "am_retransmit_list e0 = am_retransmit_list e" "am_tx_next e0 = am_tx_next e"
    "am_sn_modulus e0 = am_sn_modulus e"
    using v(1) by (simp_all add: am_tx_view_def)
  note d = am_fly_invD[OF inv[unfolded am_tx_inv_def]]
  obtain seg h where new: "nr_rlc_new_sdu (heap e) buf i = (seg, h)" by fastforce
  have seg: "seg_is_first seg" "seg_sdu seg = hp_next (heap e)" "seg_addr seg = hp_next (heap e)"
    "sdu_sn (hp_sdu h (hp_next (heap e))) = - 1" "sdu_data (hp_sdu h (hp_next (heap e))) = buf"
    "\<forall>j. j \<noteq> hp_next (heap e) \<longrightarrow> hp_sdu h j = hp_sdu (heap e) j"
    using new by (auto simp: nr_rlc_new_sdu_def Let_def)
  have app: "nr_rlc_sdu_segment_list_append (am_tx_list e) (am_tx_end e) seg
      = Inr (am_tx_list e @ [seg], list_end (am_tx_list e @ [seg]))"
    unfolding d(8) by (rule segq.append_ok) (use store_inv_addr[OF am_coreD(1)[OF d(5)]] in simp)
  have len: "int (length buf) \<le> NR_SDU_MAX"
    using run by (auto simp: nr_rlc_entity_am_recv_sdu_def rbind_eq_Inr Let_def)
  obtain e1 where e1: "e' = stamp_arrival now seg e1" "am_tx_list e1 = am_tx_list e @ [seg]" "heap e1 = h"
    "am_wait_list e1 = am_wait_list e" "am_retransmit_list e1 = am_retransmit_list e"
    "am_tx_next e1 = am_tx_next e" "am_sn_modulus e1 = am_sn_modulus e"
    using run fits len v(2) new app
    by (simp add: nr_rlc_entity_am_recv_sdu_def Let_def e0_def[symmetric] f) (erule that[OF sym]; simp add: f)
  then show ?thesis using seg by (intro exI[of _ seg]) (auto simp: stamp_arrival_def)
qed

lemma am_recv_sdu_trace:
  assumes inv: "am_tx_inv lost e" and tr: "am_trace Ds acc e" and run: "nr_rlc_entity_am_recv_sdu now e buf i = Inr e'"
  shows "am_trace Ds (if am_tx_size e + int (length buf) \<le> am_tx_maxsize e then acc @ [buf] else acc) e'"
proof (cases "am_tx_size e + int (length buf) \<le> am_tx_maxsize e")
  case False
  have "am_tx_view e' = am_tx_view e"
    using False run am_arrives_view(1,2)[of e]
    by (auto simp: nr_rlc_entity_am_recv_sdu_def Let_def rbind_eq_Inr am_tx_view_def split: if_splits)
  then show ?thesis using False am_trace_kept[OF tr am_tx_kept_view] by simp
next
  case True
  obtain seg where seg: "am_tx_list e' = am_tx_list e @ [seg]" "seg_is_first seg" "seg_sdu seg = hp_next (heap e)"
    "sdu_sn (hp_sdu (heap e') (seg_sdu seg)) = - 1" "sdu_data (hp_sdu (heap e') (seg_sdu seg)) = buf"
    "\<forall>j. j \<noteq> hp_next (heap e) \<longrightarrow> hp_sdu (heap e') j = hp_sdu (heap e) j"
    "am_wait_list e' = am_wait_list e" "am_retransmit_list e' = am_retransmit_list e"
    "am_tx_next e' = am_tx_next e" "am_sn_modulus e' = am_sn_modulus e"
    using am_recv_sdu_new[OF inv run True] by blast
  note st = am_coreD(1)[OF am_fly_invD(5)[OF inv[unfolded am_tx_inv_def]]]
  have old: "seg_sdu s \<noteq> hp_next (heap e)" if "s \<in> set (am_tx_list e @ am_wait_list e @ am_retransmit_list e)" for s
    using store_inv_alloc_less[OF st store_inv_alloc[OF st, of s]] that by auto
  then have same: "hp_sdu (heap e') j = hp_sdu (heap e) j" if "j \<in> am_held_sdus e" for j
    using seg(6) that by (auto simp: am_held_sdus_def)
  have held: "am_held_sdus e' = insert (seg_sdu seg) (am_held_sdus e)"
    using seg(1,7,8) by (auto simp: am_held_sdus_def)
  have "am_pending e' = am_pending e @ [buf]"
    using seg(2,5) old seg(6) by (simp add: am_pending_def seg(1) sdu_of_def)
  then show ?thesis
    using tr True seg(4) by (simp add: am_trace_def held seg(9,10) same)
qed
subsection \<open>PDU requests\<close>

lemma link_after_subset: "set (link_after a s l) \<subseteq> insert s (set l)"
  by (induction l) auto

lemma segment_list_append_subset:
  "nr_rlc_sdu_segment_list_append l en s = Inr (l', en') \<Longrightarrow> set l' \<subseteq> insert s (set l)"
  using link_after_subset by (fastforce simp: nr_rlc_sdu_segment_list_append_def split: if_splits option.splits)

lemma am_add_to_wait_subset:
  assumes "am_add_to_wait_list e s = Inr e'"
  shows "set (am_wait_list e') \<subseteq> insert s (set (am_wait_list e))" "heap e' = heap e" "am_tx_list e' = am_tx_list e"
    "am_tx_next e' = am_tx_next e" "am_sn_modulus e' = am_sn_modulus e" "am_retransmit_list e' = am_retransmit_list e"
  using assms segment_list_append_subset
  by (fastforce simp: am_add_to_wait_list_def rbind_eq_Inr Let_def split: if_splits prod.splits)+

lemma am_poll_and_serialize_view:
  "am_poll_and_serialize e s buf p = Inr (n, b, e') \<Longrightarrow> am_tx_view e' = am_tx_view e"
  unfolding am_poll_and_serialize_def am_serialize_sdu_def am_include_poll_def rbind_eq_Inr
  by (auto simp: rbind_eq_Inr split: if_splits)

lemma am_segment_same:
  "am_segment_tx s sz e = (s', e') \<Longrightarrow>
     seg_sdu s' = seg_sdu s \<and> sdu_same (heap e) (heap e') \<and> am_tx_next e' = am_tx_next e
     \<and> am_sn_modulus e' = am_sn_modulus e \<and> am_wait_list e' = am_wait_list e \<and> am_retransmit_list e' = am_retransmit_list e
     \<and> seg_sdu ` set (am_tx_list e') \<subseteq> insert (seg_sdu s) (seg_sdu ` set (am_tx_list e))
     \<and> filter seg_is_first (am_tx_list e') = filter seg_is_first (am_tx_list e)"
  "am_segment_retx s sz e = (s', e') \<Longrightarrow>
     seg_sdu s' = seg_sdu s \<and> sdu_same (heap e) (heap e') \<and> am_tx_next e' = am_tx_next e
     \<and> am_sn_modulus e' = am_sn_modulus e \<and> am_wait_list e' = am_wait_list e \<and> am_tx_list e' = am_tx_list e
     \<and> seg_sdu ` set (am_retransmit_list e') \<subseteq> insert (seg_sdu s) (seg_sdu ` set (am_retransmit_list e))"
  by (auto simp: am_segment_tx_def am_segment_retx_def am_resegment_def Let_def sdu_same_def split: if_splits)

lemma am_generate_retx_kept:
  assumes "am_generate_retx_pdu e buf = Inr (n, b, e')"
  shows "am_tx_kept e e'"
proof (cases "am_retransmit_list e")
  case Nil
  then show ?thesis using assms by (simp add: am_generate_retx_pdu_def)
next
  case (Cons s rest)
  let ?e1 = "add_retx_size (- (am_compute_pdu_header_size e s + seg_size s)) (e\<lparr>am_retransmit_list := rest\<rparr>)"
  obtain s' e2 where seg: "am_segment_retx s (int (length buf)) ?e1 = (s', e2)"
    by (cases "am_segment_retx s (int (length buf)) ?e1")
  show ?thesis
  proof (cases "int (length buf) < am_compute_pdu_header_size e s + 1")
    case True
    then show ?thesis using assms Cons by (simp add: am_generate_retx_pdu_def Let_def)
  next
    case False
    obtain e3 e4 where w: "am_add_to_wait_list e2 s' = Inr e3"
      "am_poll_and_serialize e3 s' buf (am_check_poll_after_pdu_assembly e3) = Inr (n, b, e4)"
      "am_tx_view e' = am_tx_view e4"
      using assms False Cons seg by (auto simp: am_generate_retx_pdu_def Let_def rbind_eq_Inr)
    have v: "am_tx_view e' = am_tx_view e3" using w(3) am_poll_and_serialize_view[OF w(2)] by simp
    note g = am_segment_same(2)[OF seg] and a = am_add_to_wait_subset[OF w(1)]
    have "am_held_sdus e3 \<subseteq> am_held_sdus e"
      using g a(1,3,6) by (auto simp: am_held_sdus_def Cons)
    then have "am_tx_kept e e3" using g a by (simp add: am_tx_kept_def)
    then show ?thesis by (rule am_tx_kept_trans[OF _ am_tx_kept_view[OF v]])
  qed
qed

text \<open>The numbered SDUs after a request: the head of the transmission list gets the next number.\<close>

definition am_new_sent :: "byte list list \<Rightarrow> nr_rlc_entity_am \<Rightarrow> nr_rlc_entity_am \<Rightarrow> byte list list" where
  "am_new_sent Ds e e' =
     (if am_tx_next e' = am_tx_next e then Ds else Ds @ [sdu_data (sdu_of (heap e) (hd (am_tx_list e)))])"

lemma am_held_sn:
  assumes "am_fly_inv [] lost e" "i \<in> am_held_sdus e" "sdu_sn (hp_sdu (heap e) i) \<noteq> - 1"
  shows "am_sn_ok e (sdu_sn (hp_sdu (heap e) i))" "sdu_sn (hp_sdu (heap e) i) \<noteq> am_tx_next e"
proof -
  note c = am_coreD[OF am_fly_invD(5)[OF assms(1)]]
  obtain s where s: "s \<in> set (am_tx_list e @ am_wait_list e @ am_retransmit_list e)" "i = seg_sdu s"
    using assms(2) by (auto simp: am_held_sdus_def)
  have "sn_used (am_sn_modulus e) (am_tx_next_ack e) (am_dist e (am_tx_next e)) (sdu_sn (sdu_of (heap e) s))"
    using c(2)[of s] c(3)[of s] s assms(3) by (auto simp: tx_seg_ok_def sdu_of_def split: if_splits)
  then show "am_sn_ok e (sdu_sn (hp_sdu (heap e) i))" "sdu_sn (hp_sdu (heap e) i) \<noteq> am_tx_next e"
    using sn_used_ok by (auto simp: sn_used_def sdu_of_def s(2) am_dist_def)
qed

lemma am_generate_tx_trace:
  assumes inv: "am_fly_inv [] lost e" and tr: "am_trace Ds acc e" and run: "am_generate_tx_pdu now e buf = Inr (n, b, e')"
  shows "am_trace (am_new_sent Ds e e') acc e'"
proof (cases "am_is_window_stalling e \<or> am_tx_list e = []
    \<or> int (length buf) < am_compute_pdu_header_size e (hd (am_tx_list e)) + 1")
  case True
  then have "am_generate_tx_pdu now e buf = Inr (0, buf, e)"
    by (cases "am_tx_list e") (auto simp: am_generate_tx_pdu_def Let_def)
  then show ?thesis using tr run by (simp add: am_new_sent_def)
next
  case False
  then obtain s rest where l: "am_tx_list e = s # rest" by (cases "am_tx_list e") auto
  let ?m = "am_sn_modulus e" and ?N = "int (length Ds)"
  define e0 where "e0 = am_assign_sn s (am_take_tx_head s rest e)"
  obtain s' e2 where seg: "am_segment_tx s (int (length buf)) e0 = (s', e2)" by fastforce
  obtain e3 e5 where w: "am_add_to_wait_list e2 s' = Inr e3"
    "am_poll_and_serialize (snd (am_poll_for_new_pdu s' e3)) s' buf (fst (am_poll_for_new_pdu s' e3)) = Inr (n, b, e5)"
    "am_tx_view e' = am_tx_view e5"
    using run False l seg
    by (auto simp: am_generate_tx_pdu_def Let_def rbind_eq_Inr case_prod_beta e0_def)
  have v: "am_tx_view e' = am_tx_view e3" using w(3) am_poll_and_serialize_view[OF w(2)] by simp
  note g = am_segment_same(1)[OF seg] and a = am_add_to_wait_subset[OF w(1)]
  note d = am_fly_invD[OF inv] and m = am_config_pos[OF am_fly_invD(1)[OF inv]]
  have f0: "am_tx_list e0 = rest" "am_wait_list e0 = am_wait_list e" "am_retransmit_list e0 = am_retransmit_list e"
    "am_sn_modulus e0 = ?m"
    by (simp_all add: e0_def am_assign_sn_def am_take_tx_head_def)
  have held: "am_held_sdus e3 \<subseteq> am_held_sdus e"
    using g a(1,3,6) f0 by (auto simp: am_held_sdus_def l)
  have first: "seg_is_first s \<longleftrightarrow> sdu_sn (sdu_of (heap e) s) = - 1"
    using am_coreD(3)[OF d(5), of s] l by (auto simp: tx_seg_ok_def dest: sn_used_nonneg split: if_splits)
  have nx: "am_tx_next e = ?N mod ?m" and old: "\<And>i. i \<in> am_held_sdus e \<Longrightarrow> sdu_sn (hp_sdu (heap e) i) \<noteq> - 1 \<Longrightarrow>
      sdu_indexed ?m Ds (hp_sdu (heap e) i)" and acc: "acc = Ds @ am_pending e"
    using tr by (auto simp: am_trace_def)
  show ?thesis
  proof (cases "seg_is_first s")
    case False
    then have h0: "heap e0 = heap e" "am_tx_next e0 = am_tx_next e" using first
      by (simp_all add: e0_def am_assign_sn_def am_take_tx_head_def)
    have same: "sdu_same (heap e) (heap e3)" using g a(2) h0(1) by simp
    have "am_pending e3 = am_pending e"
      using same g f0 a(3) False by (simp add: am_pending_def sdu_of_def sdu_same_def l)
    moreover have "sdu_indexed ?m Ds (hp_sdu (heap e3) i)"
      if "i \<in> am_held_sdus e3" "sdu_sn (hp_sdu (heap e3) i) \<noteq> - 1" for i
      using old[of i] that held same by (auto simp: sdu_same_def sdu_indexed_def)
    ultimately have "am_trace Ds acc e3" using nx acc g a f0 h0 by (simp add: am_trace_def)
    moreover have "am_new_sent Ds e e' = Ds" using v g a(4) h0(2) by (simp add: am_new_sent_def am_tx_view_def)
    ultimately show ?thesis using am_trace_kept[OF _ am_tx_kept_view[OF v]] by simp
  next
    case True
    let ?Ds = "Ds @ [sdu_data (sdu_of (heap e) s)]"
    have h0: "hp_sdu (heap e0) = (hp_sdu (heap e))(seg_sdu s := (sdu_of (heap e) s)\<lparr>sdu_sn := ?N mod ?m\<rparr>)"
      "am_tx_next e0 = (?N + 1) mod ?m"
      using first True by (simp_all add: e0_def am_assign_sn_def am_take_tx_head_def sdu_of_def nx mod_simps)
    have same: "sdu_same (heap e0) (heap e3)" using g a(2) by simp
    then have ids: "sdu_data (hp_sdu (heap e3) i) = sdu_data (hp_sdu (heap e) i)"
      "sdu_sn (hp_sdu (heap e3) i) = (if i = seg_sdu s then ?N mod ?m else sdu_sn (hp_sdu (heap e) i))" for i
      by (simp_all add: sdu_same_def h0(1) sdu_of_def)
    have pend: "am_pending e = sdu_data (sdu_of (heap e) s) # am_pending e3"
      using g f0 a(3) True by (simp add: am_pending_def sdu_of_def ids l)
    have "sdu_indexed ?m ?Ds (hp_sdu (heap e3) i)"
      if i: "i \<in> am_held_sdus e3" "sdu_sn (hp_sdu (heap e3) i) \<noteq> - 1" for i
    proof (cases "i = seg_sdu s")
      case True
      then show ?thesis using sn_index_new[of ?m ?N] m by (simp add: sdu_indexed_def ids sdu_of_def add.commute)
    next
      case False
      then have sn: "sdu_sn (hp_sdu (heap e) i) \<noteq> - 1" "i \<in> am_held_sdus e" using i held by (auto simp: ids)
      note o = am_held_sn[OF inv sn(2,1)] old[OF sn(2,1)]
      have "sn_index ?m (?N + 1) (sdu_sn (hp_sdu (heap e) i)) = sn_index ?m ?N (sdu_sn (hp_sdu (heap e) i))"
        by (rule sn_index_old) (use o(1,2) nx in \<open>auto simp: am_sn_ok_def\<close>)
      moreover have "sn_index ?m ?N (sdu_sn (hp_sdu (heap e) i)) < ?N" by (rule sn_index_less) (use m in simp)
      ultimately show ?thesis using o(3) False by (simp add: sdu_indexed_def ids nth_append add.commute) linarith
    qed
    then have "am_trace ?Ds acc e3" using acc pend g a f0 h0(2) by (simp add: am_trace_def add.commute)
    moreover have "am_new_sent Ds e e' = ?Ds"
    proof -
      have "(?N + 1) mod ?m \<noteq> ?N mod ?m"
        using d(1) by (auto simp: mod_eq_dvd_iff elim!: am_config_cases)
      then show ?thesis using v g a(4) h0(2) nx l by (simp add: am_new_sent_def am_tx_view_def)
    qed
    ultimately show ?thesis using am_trace_kept[OF _ am_tx_kept_view[OF v]] by simp
  qed
qed
text \<open>A STATUS PDU is not taken for a data PDU: its first bit is 0.\<close>

lemma dc_bit: "get_bits_R (nr_rlc_pdu_decoder_init (x # l)) 1 = Inr (of_bool (bit x 7), dec_at (x # l) 1)"
  by (simp add: decoder_init_dec_at get_bits_R_dec_at bits_val_def byte_bits_def upt_conv_Cons del: upt_Suc)

lemma small_bit7:
  assumes "0 \<le> y" "y < 16"
  shows "\<not> bit (word_of_int y :: byte) 7"
proof -
  have "\<not> bit y 7" using assms by (simp add: bit_iff_odd)
  then show ?thesis by (simp add: bit_word_of_int_iff)
qed

lemma am_status_first_byte:
  assumes "am_config_ok e" "am_generate_status e buf = Inr (n, b, e')" "3 \<le> length b"
  shows "\<exists>x l. b = x # l \<and> \<not> bit x 7"
proof -
  consider (ack) a buf' where "b = am_write_ack_sn e a buf'" "0 \<le> a" "a < am_sn_modulus e" | (no) "b = buf" "length buf < 3"
  proof (cases "length buf < 3")
    case True
    then show thesis using that(2) assms(2) by (simp add: am_generate_status_def)
  next
    case False
    then have "\<exists>x buf'. b = am_write_ack_sn e ((x + 1) mod am_sn_modulus e) buf'"
      using assms(2) by (auto simp: am_generate_status_def rbind_eq_Inr Let_def)
    then obtain x buf' where "b = am_write_ack_sn e ((x + 1) mod am_sn_modulus e) buf'" by blast
    then show thesis using that(1) am_config_pos[OF assms(1)] by simp
  qed
  then show ?thesis
  proof cases
    case (ack a buf')
    have len: "buf' \<noteq> []" using assms(3) by (auto simp: ack(1))
    have "drop_bit 8 a < 16" if "am_sn_modulus e = 4096" using ack(3) that by (simp add: drop_bit_eq_div)
    moreover have "drop_bit 14 a < 16" if "am_sn_modulus e = 262144" using ack(3) that by (simp add: drop_bit_eq_div)
    moreover have "0 \<le> drop_bit k a" for k using ack(2) by simp
    ultimately have "\<not> bit (b ! 0) 7"
      using assms(1) len small_bit7
      by (auto simp: ack(1) am_write_ack_sn_def Let_def nth_list_update elim!: am_config_cases)
    then show ?thesis using assms(3) by (cases b) auto
  qed (use assms(3) in simp)
qed

lemma am_status_not_data:
  assumes "am_config_ok e" "am_generate_status e buf = Inr (n, b, e')" "3 \<le> n" "n \<le> int (length b)"
  shows "am_read_data_pdu r (take (nat n) b) = None"
proof -
  obtain x l where x: "b = x # l" "\<not> bit x 7" using am_status_first_byte[OF assms(1,2)] assms(3,4) by fastforce
  have "take (nat n) b = x # take (nat n - 1) l" using assms(3) by (simp add: x(1) take_Cons')
  then show ?thesis using dc_bit[of x] x(2) by (simp add: am_read_data_pdu_def)
qed

text \<open>A request: the numbered SDUs, and the PDU, which carries a segment of one of them.\<close>

definition am_wire_ok :: "nr_rlc_entity_am \<Rightarrow> byte list list \<Rightarrow> int \<times> byte list \<Rightarrow> bool" where
  "am_wire_ok r Ds x \<longleftrightarrow>
     0 \<le> fst x \<and> fst x < int (length Ds)
     \<and> (\<exists>h. \<forall>D. D (fst x) = Ds ! nat (fst x) \<longrightarrow> am_carries r D (fst x) (snd x) h)"

lemma am_pdu_sent_wire:
  assumes inv: "am_fly_inv [] lost e'" and tr: "am_trace Ds acc e'" and sent: "am_pdu_sent e buf n buf' payload e'"
    and r: "am_config_ok r" "am_sn_field_length r = am_sn_field_length e'"
  shows "\<exists>h. am_read_data_pdu r (take (nat n) buf') = Some h
     \<and> am_wire_ok r Ds (sn_index (am_sn_modulus e') (int (length Ds)) (dh_sn h), take (nat n) buf')"
proof -
  let ?m = "am_sn_modulus e'" and ?N = "int (length Ds)"
  obtain s p where s: "mset (am_wait_list e') = add_mset s (mset (am_wait_list e))" "seg_wf (heap e') s"
    "take (nat n) buf' = bytes_of_bits (am_header_bits e' p s) @ seg_bytes (heap e') s"
    using sent unfolding am_pdu_sent_def by blast
  have "s \<in> set (am_wait_list e')" using s(1) by (metis mset_eq_setD set_mset_mset union_single_eq_member)
  then have held: "seg_sdu s \<in> am_held_sdus e'" and "sn_used ?m (am_tx_next_ack e') (am_dist e' (am_tx_next e')) (sdu_sn (sdu_of (heap e') s))"
    using am_coreD(2)[OF am_fly_invD(5)[OF inv], of s] by (auto simp: am_held_sdus_def)
  then have sn: "0 \<le> sdu_sn (sdu_of (heap e') s)" "sdu_sn (sdu_of (heap e') s) < ?m"
    by (simp_all add: sn_used_def)
  define j where "j = sn_index ?m ?N (sdu_sn (sdu_of (heap e') s))"
  have "sdu_indexed ?m Ds (sdu_of (heap e') s)" using tr held sn(1) by (auto simp: am_trace_def sdu_of_def)
  then have j: "0 \<le> j" "sdu_data (sdu_of (heap e') s) = Ds ! nat j" by (simp_all add: sdu_indexed_def j_def)
  note cfg = am_fly_invD(1)[OF inv]
  have "j < ?N" unfolding j_def by (rule sn_index_less) (use am_config_pos[OF cfg] in simp)
  moreover have "am_carries r D j (take (nat n) buf') (am_header_of e' p s)" if "D j = Ds ! nat j" for D
    by (rule am_pdu_carries[OF cfg r s(2) _ _ s(3)]) (use sn that j in \<open>simp_all add: j_def sn_index_mod\<close>)
  ultimately have "am_wire_ok r Ds (j, take (nat n) buf')" using j(1) by (auto simp: am_wire_ok_def)
  moreover have "am_read_data_pdu r (take (nat n) buf') = Some (am_header_of e' p s)"
    by (rule am_pdu_read(1)[OF cfg r(2) s(2) _ s(3)]) (use sn in \<open>simp add: am_sn_ok_def\<close>)
  ultimately show ?thesis by (simp add: j_def am_header_of_def)
qed
lemma am_read_data_cong: "am_sn_field_length r' = am_sn_field_length r \<Longrightarrow> am_read_data_pdu r' pdu = am_read_data_pdu r pdu"
proof -
  assume "am_sn_field_length r' = am_sn_field_length r"
  then have eq: "am_parse_data_header r' = am_parse_data_header r" by (simp add: fun_eq_iff am_parse_data_header_def)
  show ?thesis unfolding am_read_data_pdu_def eq ..
qed

lemma am_wire_ok_cong:
  "am_sn_field_length r' = am_sn_field_length r \<Longrightarrow> am_sn_modulus r' = am_sn_modulus r \<Longrightarrow> am_wire_ok r' Ds x = am_wire_ok r Ds x"
  by (simp add: am_wire_ok_def am_carries_def am_read_data_cong[of r' r])

lemma am_wire_ok_append: "am_wire_ok r Ds x \<Longrightarrow> am_wire_ok r (Ds @ l) x"
  by (auto simp: am_wire_ok_def nth_append)

lemma am_new_sent_append: "\<exists>l. am_new_sent Ds e e' = Ds @ l"
  by (simp add: am_new_sent_def)

lemma am_read_nothing: "am_read_data_pdu r [] = None"
  by (simp add: am_read_data_pdu_def decoder_init_dec_at get_bits_R_dec_at)

lemma am_request_step:
  assumes inv: "am_tx_inv lost e" and tr: "am_trace Ds acc e" and run: "nr_rlc_entity_am_generate_pdu now e buf = Inr (k, b, e')"
    and r: "am_config_ok r" "am_sn_field_length r = am_sn_field_length e"
  shows "am_tx_inv lost e'" "am_trace (am_new_sent Ds e e') acc e'"
    "am_read_data_pdu r (take (nat k) b) = Some h \<Longrightarrow>
       am_wire_ok r (am_new_sent Ds e e')
         (sn_index (am_sn_modulus e) (int (length (am_new_sent Ds e e'))) (dh_sn h), take (nat k) b)"
proof -
  note fly = inv[unfolded am_tx_inv_def]
  have cases: "am_tx_inv lost e'" "k = 0 \<and> b = buf \<and> e' = e
        \<or> am_status_to_report e \<and> 3 \<le> k \<and> k \<le> int (length buf) \<and> length b = length buf
        \<or> am_data_sent e buf k b e'"
    using am_generate_pdu_step[OF inv, of now buf] run by auto
  then show "am_tx_inv lost e'" by blast
  note view = am_generate_pdu_frame[OF run, unfolded am_rx_view_def prod.inject]
  show trace: "am_trace (am_new_sent Ds e e') acc e'"
    and "am_read_data_pdu r (take (nat k) b) = Some h \<Longrightarrow>
       am_wire_ok r (am_new_sent Ds e e')
         (sn_index (am_sn_modulus e) (int (length (am_new_sent Ds e e'))) (dh_sn h), take (nat k) b)"
  proof (atomize (full), cases "am_status_to_report e \<and> 3 \<le> length buf")
    case True
    then obtain n0 b0 e0 where st: "am_generate_status e buf = Inr (n0, b0, e0)" "3 \<le> n0" "n0 \<le> int (length buf)"
      "length b0 = length buf" "am_tx_view e0 = am_tx_view e"
      using am_generate_status_step[OF am_fly_invD(1)[OF fly], of buf] by auto
    then have eq: "k = n0" "b = b0" "e' = e0"
      using True run unfolding nr_rlc_entity_am_generate_pdu_def by auto
    have "am_read_data_pdu r (take (nat k) b) = None"
      using am_status_not_data[OF am_fly_invD(1)[OF fly] st(1,2)] st(3,4) eq by simp
    moreover have "am_new_sent Ds e e' = Ds" using st(5) by (simp add: eq am_new_sent_def am_tx_view_def)
    ultimately show "am_trace (am_new_sent Ds e e') acc e' \<and> (am_read_data_pdu r (take (nat k) b) = Some h \<longrightarrow>
       am_wire_ok r (am_new_sent Ds e e')
         (sn_index (am_sn_modulus e) (int (length (am_new_sent Ds e e'))) (dh_sn h), take (nat k) b))"
      using am_trace_kept[OF tr am_tx_kept_view] st(5) by (simp add: eq)
  next
    case False
    then have "(if am_status_to_report e then am_generate_status e buf else Inr (0, buf, e)) = Inr (0, buf, e)"
      by (auto simp: am_generate_status_def)
    then obtain r2 b2 e2 where 2: "(if am_retransmit_list e \<noteq> [] then am_generate_retx_pdu e buf else Inr (0, buf, e)) = Inr (r2, b2, e2)"
      "(if r2 \<noteq> 0 then Inr (r2, b2, e2) else am_generate_tx_pdu now e2 b2) = Inr (k, b, e')"
      using run unfolding nr_rlc_entity_am_generate_pdu_def by (auto elim: rbind_tupleE(1))
    have trace: "am_trace (am_new_sent Ds e e') acc e'"
    proof (cases "r2 = 0")
      case True
      then have "e2 = e" using 2(1) am_generate_retx_pdu_step[OF fly, of buf] by (fastforce simp: am_pdu_sent_def split: if_splits)
      then show ?thesis using 2(2) True am_generate_tx_trace[OF fly tr] by auto
    next
      case False
      then have "am_tx_kept e e'" using 2 am_generate_retx_kept[of e buf] by (auto split: if_splits)
      then show ?thesis using am_trace_kept[OF tr] by (simp add: am_new_sent_def am_tx_kept_def)
    qed
    have "am_wire_ok r (am_new_sent Ds e e')
         (sn_index (am_sn_modulus e) (int (length (am_new_sent Ds e e'))) (dh_sn h), take (nat k) b)"
      if h: "am_read_data_pdu r (take (nat k) b) = Some h"
    proof -
      have "k \<noteq> 0" using h am_read_nothing[of r] by auto
      then obtain payload where "am_pdu_sent e buf k b payload e'"
        using cases(2) False unfolding am_data_sent_def by auto
      from am_pdu_sent_wire[OF cases(1)[unfolded am_tx_inv_def] trace this r(1)] r(2) view h
      show ?thesis by auto
    qed
    then show "am_trace (am_new_sent Ds e e') acc e' \<and> (am_read_data_pdu r (take (nat k) b) = Some h \<longrightarrow>
       am_wire_ok r (am_new_sent Ds e e')
         (sn_index (am_sn_modulus e) (int (length (am_new_sent Ds e e'))) (dh_sn h), take (nat k) b))"
      using trace by blast
  qed
qed

lemma am_set_time_tx_inv:
  assumes inv: "am_tx_inv lost e" and run: "nr_rlc_entity_am_set_time e t = Inr e'"
  shows "am_tx_inv lost e'"
proof -
  let ?e = "e\<lparr>am_t_current := t\<rparr>"
  have inv1: "am_tx_inv lost ?e" using inv am_fly_inv_view[of ?e e] by (simp add: am_tx_inv_def)
  obtain e1 where e1: "am_check_t_poll_retransmit ?e = Inr e1" "am_check_t_reassembly e1 = Inr e'"
    using run by (auto simp: nr_rlc_entity_am_set_time_def rbind_eq_Inr)
  have "am_tx_inv lost e1"
  proof (cases "am_t_poll_retransmit_start ?e = 0
      \<or> am_t_current ?e \<le> am_t_poll_retransmit_start ?e + word_of_int (am_t_poll_retransmit ?e)")
    case True
    then show ?thesis using e1(1) inv1 by (simp add: am_check_t_poll_retransmit_def)
  next
    case False
    define f where "f = ?e\<lparr>am_t_poll_retransmit_start := 0, am_force_poll := True\<rparr>"
    have f: "am_check_poll_after_pdu_assembly f = am_check_poll_after_pdu_assembly ?e" "am_wait_list f = am_wait_list ?e"
      by (simp_all add: f_def am_check_poll_after_pdu_assembly_def am_is_window_stalling_def
          am_sn_compare_tx_def am_modulus_tx_def Let_def)
    have "am_wait_list ?e \<noteq> []" if "am_check_poll_after_pdu_assembly ?e"
    proof
      assume "am_wait_list ?e = []"
      then have "am_wait_list f = []" "am_check_poll_after_pdu_assembly f" using f that by simp_all
      then have "am_check_t_poll_retransmit ?e = Inl Null_deref"
        unfolding am_check_t_poll_retransmit_def if_not_P[OF False] f_def[symmetric] Let_def
        by (simp only: simp_thms if_False list.case)
      then show False using e1(1) by simp
    qed
    then show ?thesis using am_poll_timer_step[OF inv1] e1(1) by auto
  qed
  then show ?thesis unfolding am_tx_inv_def am_fly_inv_view[OF am_check_t_reassembly_view[OF e1(2)]] .
qed

end
