(* ===== verification/Rlc_Am_Link.thy ===== *)
theory Rlc_Am_Link
  imports Rlc_Am_Trace
begin

text \<open>
  Two AM entities and the channel between them: what one side accepts and numbers is what the other
  side delivers, under every interleaving of their operations and every loss, repetition, delay and
  reordering of PDUs that keeps the distance the windows allow.
\<close>

section \<open>The link\<close>






section \<open>The invariant of one direction\<close>








subsection \<open>Steps of the sender\<close>






subsection \<open>Steps of the receiver\<close>




section \<open>All runs\<close>





section \<open>A concrete link\<close>




section \<open>Property\<close>



end
