(* ===== verification/Ue_Table.thy ===== *)
theory Ue_Table
  imports L2_Prelude
begin

text \<open>
  What the UE managers of RLC and PDCP share: an array of UEs, searched by their identifier, to
  which \<open>get_ue\<close> appends a UE when there is none and from which \<open>remove_ue\<close> takes one. The contract
  makes it a finite map from identifiers to UEs; both managers meet it.
\<close>

text \<open>The search loop; the result is the number of UEs when there is none.\<close>

fun ue_index :: "('a \<Rightarrow> bool) \<Rightarrow> 'a list \<Rightarrow> nat" where
  "ue_index P [] = 0"
| "ue_index P (u # us) = (if P u then 0 else Suc (ue_index P us))"

lemma ue_index_le: "ue_index P us \<le> length us"
  by (induction us) auto

lemma ue_index_less: "ue_index P us < length us \<longleftrightarrow> (\<exists>u \<in> set us. P u)"
  by (induction us) auto

lemma ue_index_hit: "ue_index P us < length us \<Longrightarrow> P (us ! ue_index P us)"
  by (induction us) auto

lemma ue_index_cases:
  "i \<in> key ` set us \<Longrightarrow> ue_index (\<lambda>u. key u = i) us < length us"
  "i \<notin> key ` set us \<Longrightarrow> ue_index (\<lambda>u. key u = i) us = length us"
  by (induction us) auto

text \<open>The loop that moves the rest of the array down over the removed UE.\<close>

definition without :: "nat \<Rightarrow> 'a list \<Rightarrow> 'a list" where
  "without k l = take k l @ drop (Suc k) l"

lemma without_simps [simp]: "without 0 (x # l) = l" "without (Suc k) (x # l) = x # without k l"
  by (simp_all add: without_def)

definition table_of :: "('u \<Rightarrow> 'k) \<Rightarrow> 'u list \<Rightarrow> 'k \<Rightarrow> 'u option" where
  "table_of key us = map_of (map (\<lambda>u. (key u, u)) us)"

lemma table_of_simps [simp]:
  "table_of key [] = Map.empty" "table_of key (u # us) = (table_of key us)(key u \<mapsto> u)"
  by (simp_all add: table_of_def)

lemma table_of_None: "table_of key us i = None \<longleftrightarrow> i \<notin> key ` set us"
  by (induction us) auto

lemma table_of_append:
  "i \<notin> key ` set us \<Longrightarrow> key u = i \<Longrightarrow> table_of key (us @ [u]) = (table_of key us)(i \<mapsto> u)"
  by (induction us) (auto simp: fun_eq_iff)

lemma table_of_index:
  "i \<in> key ` set us \<Longrightarrow> table_of key us i = Some (us ! ue_index (\<lambda>u. key u = i) us)"
  by (induction us) auto

lemma table_of_without:
  assumes "distinct (map key us)"
  shows "table_of key (without (ue_index (\<lambda>u. key u = i) us) us) = (table_of key us)(i := None)"
    and "distinct (map key (without (ue_index (\<lambda>u. key u = i) us) us))"
    and "set (without (ue_index (\<lambda>u. key u = i) us) us) \<subseteq> set us"
  using assms
proof (induction us)
  case Nil
  case 1 then show ?case by (simp add: without_def)
  case 2 then show ?case by (simp add: without_def)
  case 3 then show ?case by (simp add: without_def)
next
  case (Cons u us)
  have n: "key u = i \<Longrightarrow> i \<notin> key ` set us" if "distinct (map key (u # us))" using that by auto
  {
    case 1
    then show ?case using Cons.IH(1) n[OF 1] table_of_None[of key us i] by (auto simp: fun_eq_iff)
  next
    case 2
    then show ?case using Cons.IH(2,3) by auto
  next
    case 3
    then show ?case using Cons.IH(3) by auto
  }
qed

text \<open>Putting an element back under its key changes the map there only.\<close>

lemma table_of_put:
  assumes "distinct (map key l)" "k < length l" "key x = key (l ! k)"
  shows "map key (l[k := x]) = map key l" "table_of key (l[k := x]) = (table_of key l)(key x \<mapsto> x)"
proof -
  show "map key (l[k := x]) = map key l" using assms(2,3) by (simp add: list_eq_iff_nth_eq nth_list_update)
  show "table_of key (l[k := x]) = (table_of key l)(key x \<mapsto> x)"
    using assms
  proof (induction l arbitrary: k)
    case Nil
    then show ?case by simp
  next
    case (Cons y l)
    show ?case
    proof (cases k)
      case 0
      then show ?thesis using Cons.prems by (auto simp: fun_eq_iff)
    next
      case (Suc j)
      have "key x \<in> key ` set l" using Cons.prems(2,3) Suc by (metis image_eqI length_Cons nth_Cons_Suc nth_mem Suc_less_eq)
      then have "key y \<noteq> key x" using Cons.prems(1) by auto
      then show ?thesis using Cons Suc by (auto simp: fun_eq_iff)
    qed
  qed
qed

locale ue_table =
  fixes ues :: "'m \<Rightarrow> 'u list"
    and key :: "'u \<Rightarrow> 'k"
    and fresh :: "'k \<Rightarrow> 'u"
    and get :: "'m \<Rightarrow> 'k \<Rightarrow> nat \<times> 'm"
    and rem :: "'m \<Rightarrow> 'k \<Rightarrow> 'r \<times> 'm"
  assumes key_fresh: "key (fresh i) = i"
    and get_index: "fst (get m i) = ue_index (\<lambda>u. key u = i) (ues m)"
    and get_found: "i \<in> key ` set (ues m) \<Longrightarrow> snd (get m i) = m"
    and get_new: "i \<notin> key ` set (ues m) \<Longrightarrow> ues (snd (get m i)) = ues m @ [fresh i]"
    and rem_found: "i \<in> key ` set (ues m) \<Longrightarrow> ues (snd (rem m i)) = without (ue_index (\<lambda>u. key u = i) (ues m)) (ues m)"
    and rem_none: "i \<notin> key ` set (ues m) \<Longrightarrow> snd (rem m i) = m"
begin

text \<open>Looking a UE up creates it at most once and returns its place.\<close>

lemma get_map:
  assumes "distinct (map key (ues m))"
  shows "distinct (map key (ues (snd (get m i))))
     \<and> fst (get m i) < length (ues (snd (get m i)))
     \<and> table_of key (ues (snd (get m i))) = (if table_of key (ues m) i = None
          then (table_of key (ues m))(i \<mapsto> fresh i) else table_of key (ues m))
     \<and> table_of key (ues (snd (get m i))) i = Some (ues (snd (get m i)) ! fst (get m i))
     \<and> get (snd (get m i)) i = (fst (get m i), snd (get m i))"
proof (cases "i \<in> key ` set (ues m)")
  case True
  then have "fst (get m i) < length (ues m)" unfolding get_index ue_index_less by auto
  then show ?thesis
    using True assms get_found[OF True] table_of_index[OF True] table_of_None[of key "ues m" i]
    by (simp add: get_index prod_eq_iff)
next
  case False
  let ?m = "snd (get m i)"
  have u: "ues ?m = ues m @ [fresh i]" by (rule get_new[OF False])
  then have i: "i \<in> key ` set (ues ?m)" by (simp add: key_fresh)
  have "\<not> ue_index (\<lambda>u. key u = i) (ues m) < length (ues m)" using False unfolding ue_index_less by auto
  then have idx: "ue_index (\<lambda>u. key u = i) (ues m) = length (ues m)" using ue_index_le le_less by blast
  have "ue_index (\<lambda>u. key u = i) (us @ [fresh i]) = ue_index (\<lambda>u. key u = i) us" for us
    by (induction us) (auto simp: key_fresh)
  then have "get ?m i = (fst (get m i), ?m)"
    using get_index[of ?m i] get_found[OF i] by (simp add: prod_eq_iff get_index u)
  then show ?thesis
    using False assms table_of_append[OF False key_fresh] table_of_None[of key "ues m" i]
    by (auto simp: u get_index idx key_fresh)
qed

text \<open>Removing a UE takes just this one away.\<close>

lemma rem_map:
  assumes "distinct (map key (ues m))"
  shows "distinct (map key (ues (snd (rem m i)))) \<and> table_of key (ues (snd (rem m i))) = (table_of key (ues m))(i := None)"
proof (cases "i \<in> key ` set (ues m)")
  case True
  show ?thesis unfolding rem_found[OF True] using table_of_without(1,2)[OF assms] by simp
next
  case False
  then show ?thesis using assms table_of_None[of key "ues m" i] by (auto simp: rem_none fun_eq_iff)
qed

end

end
