(* ===== verification/Rlc_Ue_Manager.thy ===== *)
theory Rlc_Ue_Manager
  imports Rlc_Entities Ue_Table
begin

text \<open>
  \<open>nr_rlc_ue_manager.h\<close> and \<open>nr_rlc_ue_manager.c\<close>: the table of UEs and the RLC entities of
  their signalling and data bearers.

  The functions are called with the manager's lock held, so each is one step. A UE pointer is the
  index of the UE in the array; a null entity pointer is \<open>None\<close>. The fixed arrays \<open>srb\<close> and
  \<open>drb\<close> are lists of their length.
\<close>

definition MAX_DRBS_PER_UE :: nat where
  "MAX_DRBS_PER_UE = 32"

datatype nr_rlc_op_mode = NR_RLC_OP_MODE_SPLIT_GNB | NR_RLC_OP_MODE_MONO_GNB | NR_RLC_OP_MODE_UE

datatype nr_rlc_rb = NR_RLC_NONE | NR_RLC_SRB int | NR_RLC_DRB int

text \<open>
  A function pointer is a number that stands for the function, and so is a pointer the layer only
  hands on. \<open>srb0_data\<close> is what the \<open>deliver_sdu_data\<close> of the SRB0 entity points to; it is kept
  beside the entity and has its lifetime.
\<close>

record srb0_data =
  s0_ue_id :: int
  s0_data :: nat
  s0_send :: "nat option"

record nr_rlc_ue =
  ue_id :: int
  ue_srb0 :: "rlc_entity_any option"
  ue_srb :: "rlc_entity_any option list"
  ue_drb :: "rlc_entity_any option list"
  ue_lcid2rb :: "nr_rlc_rb list"
  ue_rlf_handler :: "nat option"
  ue_srb0_data :: "srb0_data option"

record nr_rlc_ue_manager =
  rm_ue_list :: "nr_rlc_ue list"
  rm_mode :: nr_rlc_op_mode

definition new_nr_rlc_ue_manager :: "nr_rlc_op_mode \<Rightarrow> nr_rlc_ue_manager" where
  "new_nr_rlc_ue_manager mode = \<lparr>rm_ue_list = [], rm_mode = mode\<rparr>"

definition nr_rlc_manager_rlc_is_split :: "nr_rlc_ue_manager \<Rightarrow> bool" where
  "nr_rlc_manager_rlc_is_split m \<longleftrightarrow> rm_mode m = NR_RLC_OP_MODE_SPLIT_GNB"

definition nr_rlc_manager_get_gnb_flag :: "nr_rlc_ue_manager \<Rightarrow> bool" where
  "nr_rlc_manager_get_gnb_flag m \<longleftrightarrow> rm_mode m \<noteq> NR_RLC_OP_MODE_UE"

text \<open>The UE after \<open>calloc\<close>.\<close>

definition new_rlc_ue :: "int \<Rightarrow> nr_rlc_ue" where
  "new_rlc_ue i =
     \<lparr>ue_id = i, ue_srb0 = None, ue_srb = replicate 3 None,
      ue_drb = replicate MAX_DRBS_PER_UE None, ue_lcid2rb = replicate 32 NR_RLC_NONE,
      ue_rlf_handler = None, ue_srb0_data = None\<rparr>"

definition nr_rlc_manager_get_ue :: "nr_rlc_ue_manager \<Rightarrow> int \<Rightarrow> nat \<times> nr_rlc_ue_manager" where
  "nr_rlc_manager_get_ue m i =
     (let k = ue_index (\<lambda>u. ue_id u = i) (rm_ue_list m)
      in if k < length (rm_ue_list m) then (k, m)
         else (k, m\<lparr>rm_ue_list := rm_ue_list m @ [new_rlc_ue i]\<rparr>))"

text \<open>
  Removal: the stores left by the deleted entities, in the order of the calls, and the table
  without the UE.
\<close>

definition delete_all :: "rlc_entity_any option list \<Rightarrow> sdu_heap list" where
  "delete_all es = map (\<lambda>e. rlc_delete_entity (the e)) (filter (\<lambda>e. e \<noteq> None) es)"

definition nr_rlc_manager_remove_ue ::
  "nr_rlc_ue_manager \<Rightarrow> int \<Rightarrow> sdu_heap list \<times> nr_rlc_ue_manager" where
  "nr_rlc_manager_remove_ue m i =
     (let k = ue_index (\<lambda>u. ue_id u = i) (rm_ue_list m)
      in if k = length (rm_ue_list m) then ([], m)
         else
           let ue = rm_ue_list m ! k
           in (delete_all (ue_srb0 ue # ue_srb ue @ ue_drb ue),
               m\<lparr>rm_ue_list := take k (rm_ue_list m) @ drop (Suc k) (rm_ue_list m)\<rparr>))"

definition nr_rlc_ue_add_srb_rlc_entity :: "nr_rlc_ue \<Rightarrow> int \<Rightarrow> rlc_entity_any \<Rightarrow> nr_rlc_ue res" where
  "nr_rlc_ue_add_srb_rlc_entity ue srb_id entity =
     (if srb_id < 0 \<or> srb_id > 3 then Inl Exit_fatal
      else if srb_id = 0
      then if ue_srb0 ue \<noteq> None then Inl Exit_fatal else Inr (ue\<lparr>ue_srb0 := Some entity\<rparr>)
      else
        let k = nat (srb_id - 1)
        in if ue_srb ue ! k \<noteq> None then Inl Exit_fatal
           else Inr (ue\<lparr>ue_srb := (ue_srb ue)[k := Some entity]\<rparr>))"

definition nr_rlc_ue_add_drb_rlc_entity :: "nr_rlc_ue \<Rightarrow> int \<Rightarrow> rlc_entity_any \<Rightarrow> nr_rlc_ue res" where
  "nr_rlc_ue_add_drb_rlc_entity ue drb_id entity =
     (if drb_id < 1 \<or> drb_id > int MAX_DRBS_PER_UE then Inl Exit_fatal
      else
        let k = nat (drb_id - 1)
        in if ue_drb ue ! k \<noteq> None then Inl Exit_fatal
           else Inr (ue\<lparr>ue_drb := (ue_drb ue)[k := Some entity]\<rparr>))"

section \<open>The table as a map\<close>

interpretation rlc_ues: ue_table rm_ue_list ue_id new_rlc_ue nr_rlc_manager_get_ue nr_rlc_manager_remove_ue
proof unfold_locales
  fix m i
  note at = ue_index_cases[of i ue_id "rm_ue_list m"]
  show "ue_id (new_rlc_ue i) = i" by (simp add: new_rlc_ue_def)
  show "fst (nr_rlc_manager_get_ue m i) = ue_index (\<lambda>u. ue_id u = i) (rm_ue_list m)"
    by (simp add: nr_rlc_manager_get_ue_def Let_def)
  show "i \<in> ue_id ` set (rm_ue_list m) \<Longrightarrow> snd (nr_rlc_manager_get_ue m i) = m"
    by (simp add: nr_rlc_manager_get_ue_def Let_def at(1))
  show "i \<notin> ue_id ` set (rm_ue_list m) \<Longrightarrow> rm_ue_list (snd (nr_rlc_manager_get_ue m i)) = rm_ue_list m @ [new_rlc_ue i]"
    by (simp add: nr_rlc_manager_get_ue_def Let_def at(2))
  show "i \<in> ue_id ` set (rm_ue_list m) \<Longrightarrow> rm_ue_list (snd (nr_rlc_manager_remove_ue m i))
      = without (ue_index (\<lambda>u. ue_id u = i) (rm_ue_list m)) (rm_ue_list m)"
    by (simp add: nr_rlc_manager_remove_ue_def Let_def without_def at(1))
  show "i \<notin> ue_id ` set (rm_ue_list m) \<Longrightarrow> snd (nr_rlc_manager_remove_ue m i) = m"
    by (simp add: nr_rlc_manager_remove_ue_def Let_def at(2))
qed

definition rlc_ue_map :: "nr_rlc_ue_manager \<Rightarrow> int \<Rightarrow> nr_rlc_ue option" where
  "rlc_ue_map m = table_of ue_id (rm_ue_list m)"

definition rlc_ues_distinct :: "nr_rlc_ue_manager \<Rightarrow> bool" where
  "rlc_ues_distinct m \<longleftrightarrow> distinct (map ue_id (rm_ue_list m))"

definition rlc_bearers :: "nr_rlc_ue \<Rightarrow> rlc_entity_any option list" where
  "rlc_bearers ue = ue_srb0 ue # ue_srb ue @ ue_drb ue"

lemma rlc_removed_bearers:
  "fst (nr_rlc_manager_remove_ue m j) = (case rlc_ue_map m j of None \<Rightarrow> [] | Some ue \<Rightarrow> delete_all (rlc_bearers ue))"
  using ue_index_cases[of j ue_id "rm_ue_list m"] table_of_index[of j ue_id "rm_ue_list m"] table_of_None[of ue_id "rm_ue_list m" j]
  by (cases "j \<in> ue_id ` set (rm_ue_list m)")
    (simp_all add: nr_rlc_manager_remove_ue_def Let_def rlc_ue_map_def rlc_bearers_def)

text \<open>
  C32: the RLC UE manager is a map from identifiers to UEs. Looking a UE up creates it when it is
  missing and nothing else, returns its place, and finds the same UE again; removing a UE takes it
  and no other one away and deletes the entities of all its bearers. No identifier is ever twice in
  the table.
\<close>

theorem rlc_ue_manager_is_map:
  assumes "rlc_ues_distinct m" "nr_rlc_manager_get_ue m i = (k, m1)" "nr_rlc_manager_remove_ue m1 j = (heaps, m2)"
  shows "rlc_ues_distinct m1 \<and> rlc_ues_distinct m2
     \<and> rlc_ue_map m1 = (if rlc_ue_map m i = None then (rlc_ue_map m)(i \<mapsto> new_rlc_ue i) else rlc_ue_map m)
     \<and> k < length (rm_ue_list m1) \<and> rlc_ue_map m1 i = Some (rm_ue_list m1 ! k)
     \<and> nr_rlc_manager_get_ue m1 i = (k, m1)
     \<and> rlc_ue_map m2 = (rlc_ue_map m1)(j := None)
     \<and> heaps = (case rlc_ue_map m1 j of None \<Rightarrow> [] | Some ue \<Rightarrow> delete_all (rlc_bearers ue))"
proof -
  note g = rlc_ues.get_map[OF assms(1)[unfolded rlc_ues_distinct_def], of i, unfolded assms(2) fst_conv snd_conv]
  note r = rlc_ues.rem_map[of m1 j, unfolded assms(3) fst_conv snd_conv]
  show ?thesis
    using g r rlc_removed_bearers[of m1 j, unfolded assms(3) fst_conv rlc_ue_map_def]
    unfolding rlc_ues_distinct_def rlc_ue_map_def by blast
qed

theorem rlc_ue_manager_is_map_witness:
  "\<exists>k m1 heaps m2. nr_rlc_manager_get_ue (new_nr_rlc_ue_manager NR_RLC_OP_MODE_MONO_GNB) 7 = (k, m1)
     \<and> nr_rlc_manager_remove_ue m1 7 = (heaps, m2) \<and> rlc_ue_map m1 7 = Some (new_rlc_ue 7) \<and> rlc_ue_map m2 7 = None"
proof -
  let ?m = "new_nr_rlc_ue_manager NR_RLC_OP_MODE_MONO_GNB"
  obtain k m1 heaps m2 where o: "nr_rlc_manager_get_ue ?m 7 = (k, m1)" "nr_rlc_manager_remove_ue m1 7 = (heaps, m2)"
    by (metis surj_pair)
  have "rlc_ues_distinct ?m" "rlc_ue_map ?m 7 = None"
    by (simp_all add: rlc_ues_distinct_def new_nr_rlc_ue_manager_def rlc_ue_map_def)
  then show ?thesis using rlc_ue_manager_is_map[OF _ o] o by auto
qed

end
