(* ===== verification/Rlc_Config.thy ===== *)
theory Rlc_Config
  imports L2_Prelude
begin

text \<open>
  \<open>asn1_utils.c\<close> of \<open>nr_rlc\<close>, and the parts of \<open>nr_rlc_oai_api.c\<close> that decode the configuration of a
  bearer: from the enumeration values of RRC to the parameters of the entities.
\<close>

section \<open>The tables\<close>

definition decode_tab :: "int list \<Rightarrow> int \<Rightarrow> int res" where
  "decode_tab tab v = (if v < 0 \<or> int (length tab) \<le> v then Inl Exit_fatal else Inr (tab ! nat v))"

definition decode_t_reassembly :: "int \<Rightarrow> int res" where
  "decode_t_reassembly =
     decode_tab [0, 5, 10, 15, 20, 25, 30, 35, 40, 45, 50, 55, 60, 65, 70, 75,
                 80, 85, 90, 95, 100, 110, 120, 130, 140, 150, 160, 170, 180, 190, 200]"

definition decode_t_status_prohibit :: "int \<Rightarrow> int res" where
  "decode_t_status_prohibit =
     decode_tab [0, 5, 10, 15, 20, 25, 30, 35, 40, 45, 50, 55, 60, 65, 70, 75,
                 80, 85, 90, 95, 100, 105, 110, 115, 120, 125, 130, 135, 140, 145, 150, 155,
                 160, 165, 170, 175, 180, 185, 190, 195, 200, 205, 210, 215, 220, 225, 230, 235,
                 240, 245, 250, 300, 350, 400, 450, 500, 800, 1000, 1200, 1600, 2000, 2400]"

definition decode_t_poll_retransmit :: "int \<Rightarrow> int res" where
  "decode_t_poll_retransmit =
     decode_tab [5, 10, 15, 20, 25, 30, 35, 40, 45, 50, 55, 60, 65, 70, 75, 80, 85, 90, 95, 100,
                 105, 110, 115, 120, 125, 130, 135, 140, 145, 150, 155, 160, 165, 170, 175, 180, 185, 190, 195, 200,
                 205, 210, 215, 220, 225, 230, 235, 240, 245, 250, 300, 350, 400, 450, 500, 800, 1000, 2000, 4000]"

definition decode_poll_pdu :: "int \<Rightarrow> int res" where
  "decode_poll_pdu =
     decode_tab [4, 8, 16, 32, 64, 128, 256, 512, 1024, 2048, 4096, 6144,
                 8192, 12288, 16384, 20480, 24576, 28672, 32768, 40960, 49152, 57344, 65536, - 1]"

definition decode_poll_byte :: "int \<Rightarrow> int res" where
  "decode_poll_byte =
     decode_tab (map (\<lambda>n. 1024 * n)
         [1, 2, 5, 8, 10, 15, 25, 50, 75, 100, 125, 250, 375, 500, 750, 1000, 1250, 1500, 2000, 3000, 4000,
          4500, 5000, 5500, 6000, 6500, 7000, 7500]
       @ map (\<lambda>n. 1024 * 1024 * n) [8, 9, 10, 11, 12, 13, 14, 15, 16, 17, 18, 20, 25, 30, 40] @ [- 1])"

definition decode_max_retx_threshold :: "int \<Rightarrow> int res" where
  "decode_max_retx_threshold = decode_tab [1, 2, 3, 4, 6, 8, 16, 32]"

definition decode_sn_field_length_um :: "int \<Rightarrow> int res" where
  "decode_sn_field_length_um = decode_tab [6, 12]"

definition decode_sn_field_length_am :: "int \<Rightarrow> int res" where
  "decode_sn_field_length_am = decode_tab [12, 18]"

text \<open>
  The configuration. Of \<open>NR_RLC_Config\<close> the alternatives the code looks at; an optional pointer is an
  option, and \<open>Served_other\<close> is any other value of \<open>servedRadioBearer\<close>.
\<close>

record nr_rlc_am_config =
  ac_ul_sn_FieldLength :: "int option"
  ac_t_PollRetransmit :: int
  ac_pollPDU :: int
  ac_pollByte :: int
  ac_maxRetxThreshold :: int
  ac_dl_sn_FieldLength :: "int option"
  ac_t_Reassembly :: int
  ac_t_StatusProhibit :: int

record nr_rlc_um_config =
  uc_ul_sn_FieldLength :: "int option"
  uc_dl_sn_FieldLength :: "int option"
  uc_t_Reassembly :: int

datatype nr_rlc_config =
    Config_am nr_rlc_am_config
  | Config_um_Bi_Directional nr_rlc_um_config
  | Config_other

datatype served_radio_bearer = Served_srb int | Served_drb int | Served_other

record nr_rlc_bearer_config =
  bc_logicalChannelIdentity :: int
  bc_servedRadioBearer :: "served_radio_bearer option"
  bc_rlc_Config :: "nr_rlc_config option"

text \<open>The decoded parameters of the constructors.\<close>

record am_params =
  ap_t_poll_retransmit :: int
  ap_t_reassembly :: int
  ap_t_status_prohibit :: int
  ap_poll_pdu :: int
  ap_poll_byte :: int
  ap_max_retx_threshold :: int
  ap_sn_field_length :: int

text \<open>The default values of 9.2.1 of TS 38.331.\<close>

definition am_default_params :: am_params where
  "am_default_params =
     \<lparr>ap_t_poll_retransmit = 45, ap_t_reassembly = 35, ap_t_status_prohibit = 0, ap_poll_pdu = - 1,
      ap_poll_byte = - 1, ap_max_retx_threshold = 8, ap_sn_field_length = 12\<rparr>"

definition decode_am_timers :: "nr_rlc_am_config \<Rightarrow> am_params res" where
  "decode_am_timers am =
     rbind (decode_t_reassembly (ac_t_Reassembly am)) (\<lambda>reas.
     rbind (decode_t_status_prohibit (ac_t_StatusProhibit am)) (\<lambda>proh.
     rbind (decode_t_poll_retransmit (ac_t_PollRetransmit am)) (\<lambda>retr.
     rbind (decode_poll_pdu (ac_pollPDU am)) (\<lambda>ppdu.
     rbind (decode_poll_byte (ac_pollByte am)) (\<lambda>pbyte.
     rbind (decode_max_retx_threshold (ac_maxRetxThreshold am)) (\<lambda>thr.
     Inr \<lparr>ap_t_poll_retransmit = retr, ap_t_reassembly = reas, ap_t_status_prohibit = proh,
          ap_poll_pdu = ppdu, ap_poll_byte = pbyte, ap_max_retx_threshold = thr, ap_sn_field_length = 0\<rparr>))))))"

text \<open>At the creation of an entity both lengths are read without a test of the pointers.\<close>

definition same_length :: "int option \<Rightarrow> int option \<Rightarrow> int res" where
  "same_length dl ul =
     rbind (c_deref dl) (\<lambda>x. rbind (c_deref ul) (\<lambda>y. rbind (rcheck (x = y) Exit_fatal) (\<lambda>_. Inr x)))"

definition decode_am_params :: "nr_rlc_am_config \<Rightarrow> am_params res" where
  "decode_am_params am =
     rbind (decode_am_timers am) (\<lambda>p.
     rbind (same_length (ac_dl_sn_FieldLength am) (ac_ul_sn_FieldLength am)) (\<lambda>x.
     rbind (decode_sn_field_length_am x) (\<lambda>n. Inr (p\<lparr>ap_sn_field_length := n\<rparr>))))"

definition decode_um_params :: "nr_rlc_um_config \<Rightarrow> (int \<times> int) res" where
  "decode_um_params um =
     rbind (decode_t_reassembly (uc_t_Reassembly um)) (\<lambda>t.
     rbind (same_length (uc_dl_sn_FieldLength um) (uc_ul_sn_FieldLength um)) (\<lambda>x.
     rbind (decode_sn_field_length_um x) (\<lambda>n. Inr (t, n))))"

text \<open>At a reconfiguration both may be missing.\<close>

definition same_length_opt :: "(int \<Rightarrow> int res) \<Rightarrow> int option \<Rightarrow> int option \<Rightarrow> int option res" where
  "same_length_opt decode dl ul =
     (case (dl, ul) of
        (Some x, Some y) \<Rightarrow>
          rbind (rcheck (x = y) Assert_failed) (\<lambda>_. rbind (decode x) (\<lambda>n. Inr (Some n)))
      | (None, None) \<Rightarrow> Inr None
      | _ \<Rightarrow> Inl Assert_failed)"

end
