(* ===== verification/Sdap_Entity.thy ===== *)
theory Sdap_Entity
  imports Ue_Table
begin

text \<open>
  \<open>nr_sdap_entity.h\<close> and the functions of \<open>nr_sdap_entity.c\<close> on one SDAP entity: there is one per PDU
  session of a UE, which maps QoS flows to radio bearers and puts a one-byte header in front of the SDUs.

  The layer below, \<open>nr_pdcp_data_req_drb\<close>, is a parameter: a function of the request and of the
  state \<open>'p\<close> of that layer. What leaves to the core network (\<open>gtpv1uSendDirect\<close>) or to the tunnel
  interface (\<open>write\<close>, \<open>remove_ip_if\<close>) is recorded in a list of events. \<open>pthread\<close> handles and log
  messages are left out, and so are the fields \<open>frame\<close> and \<open>subframe\<close> of the context, which nothing
  here reads.
\<close>

unbundle bit_operations_syntax

section \<open>Types and constants\<close>

definition SDAP_HDR_UL_DATA_PDU :: bool where [simp]: "SDAP_HDR_UL_DATA_PDU = True"
definition SDAP_HDR_UL_CTRL_PDU :: bool where [simp]: "SDAP_HDR_UL_CTRL_PDU = False"
definition SDAP_HDR_LENGTH :: nat where [simp]: "SDAP_HDR_LENGTH = 1"
definition SDAP_MAX_QFI :: nat where "SDAP_MAX_QFI = 64"
definition SDAP_MAP_RULE_EMPTY :: int where [simp]: "SDAP_MAP_RULE_EMPTY = 0"
definition AVLBL_DRB :: int where [simp]: "AVLBL_DRB = 5"
definition SDAP_NO_MAPPING_RULE :: int where [simp]: "SDAP_NO_MAPPING_RULE = 0"
definition SDAP_REFLECTIVE_MAPPING :: bool where [simp]: "SDAP_REFLECTIVE_MAPPING = True"
definition SDAP_CTRL_PDU_MAP_DEF_DRB :: int where [simp]: "SDAP_CTRL_PDU_MAP_DEF_DRB = 0"
definition SDAP_CTRL_PDU_MAP_RULE_DRB :: int where [simp]: "SDAP_CTRL_PDU_MAP_RULE_DRB = 1"
definition SDAP_MAX_PDU :: nat where "SDAP_MAX_PDU = 9000"
definition SDAP_MAX_NUM_OF_ENTITIES :: nat where "SDAP_MAX_NUM_OF_ENTITIES = 32 * 40"
definition SDAP_MAX_UE_ID :: u64 where "SDAP_MAX_UE_ID = 65536"
definition NGAP_MAX_PDU_SESSION :: int where "NGAP_MAX_PDU_SESSION = 256"
definition RLC_MUI_UNDEFINED :: int where "RLC_MUI_UNDEFINED = 0"
definition PDCP_TRANSMISSION_MODE_UNKNOWN :: int where "PDCP_TRANSMISSION_MODE_UNKNOWN = 0"
definition PDCP_TRANSMISSION_MODE_DATA :: int where "PDCP_TRANSMISSION_MODE_DATA = 2"

text \<open>The bit fields of the headers, from the low bits of their byte upwards.\<close>

record nr_sdap_dl_hdr =
  dl_QFI :: "6 word"
  dl_RQI :: bool
  dl_RDI :: bool

record nr_sdap_ul_hdr =
  ul_QFI :: "6 word"
  ul_R :: bool
  ul_DC :: bool

definition sdap_hdr_byte :: "6 word \<Rightarrow> bool \<Rightarrow> bool \<Rightarrow> byte" where
  "sdap_hdr_byte q b6 b7 = ucast q OR (if b6 then 0x40 else 0) OR (if b7 then 0x80 else 0)"

definition dl_hdr_byte :: "nr_sdap_dl_hdr \<Rightarrow> byte" where
  "dl_hdr_byte h = sdap_hdr_byte (dl_QFI h) (dl_RQI h) (dl_RDI h)"

definition ul_hdr_byte :: "nr_sdap_ul_hdr \<Rightarrow> byte" where
  "ul_hdr_byte h = sdap_hdr_byte (ul_QFI h) (ul_R h) (ul_DC h)"

definition dl_hdr_of :: "byte \<Rightarrow> nr_sdap_dl_hdr" where
  "dl_hdr_of b = \<lparr>dl_QFI = ucast b, dl_RQI = bit b 6, dl_RDI = bit b 7\<rparr>"

definition ul_hdr_of :: "byte \<Rightarrow> nr_sdap_ul_hdr" where
  "ul_hdr_of b = \<lparr>ul_QFI = ucast b, ul_R = bit b 6, ul_DC = bit b 7\<rparr>"

record qfi2drb =
  qd_drb_id :: int
  qd_has_sdap_rx :: bool
  qd_has_sdap_tx :: bool

record nr_sdap_entity =
  se_ue_id :: u64
  se_default_drb :: int
  se_is_gnb :: bool
  se_pdusession_id :: int
  se_pdusession_sock :: int
  se_stop_thread :: bool
  se_qfi :: int
  se_qfi2drb_table :: "qfi2drb list"

record protocol_ctxt =
  pc_module_id :: int
  pc_enb_flag :: bool
  pc_instance :: int
  pc_rntiMaybeUEid :: u64
  pc_eNB_index :: int
  pc_brOption :: bool

text \<open>The context an initialiser makes that names only these two fields.\<close>

definition ctxt_of :: "bool \<Rightarrow> u64 \<Rightarrow> protocol_ctxt" where
  "ctxt_of enb_flag ue_id = \<lparr>pc_module_id = 0, pc_enb_flag = enb_flag, pc_instance = 0,
     pc_rntiMaybeUEid = ue_id, pc_eNB_index = 0, pc_brOption = False\<rparr>"

text \<open>The arguments of a call of \<open>nr_pdcp_data_req_drb\<close>; buffer and size are one list.\<close>

record pdcp_data_req =
  dr_ctxt :: protocol_ctxt
  dr_srb_flag :: bool
  dr_rb_id :: int
  dr_mui :: int
  dr_confirm :: int
  dr_sdu :: "byte list"
  dr_mode :: int
  dr_sourceL2Id :: "u32 option"
  dr_destinationL2Id :: "u32 option"

type_synonym 'p pdcp_service = "pdcp_data_req \<Rightarrow> 'p \<Rightarrow> (bool \<times> 'p) res"

datatype sdap_event =
    Gtpu_Send int u64 int "byte list"
  | Tun_Write int "byte list"
  | Remove_Ip_If u64 int int

text \<open>
  The configuration RRC passes. A sequence \<open>mappedQoS_FlowsToAdd\<close> is an array of pointers to
  separately allocated numbers, the list of these numbers here.
\<close>

record nr_sdap_config =
  sc_pdu_Session :: int
  sc_sdap_HeaderDL_present :: bool
  sc_sdap_HeaderUL_present :: bool
  sc_defaultDRB :: bool
  sc_mappedQoS_FlowsToAdd :: "int list option"
  sc_mappedQoS_FlowsToRelease :: "int list option"

text \<open>
  \<open>list.array[0]\<close> as an array of its own: a block with one number. There is no array when the
  sequence is empty.
\<close>

definition asn1_array0 :: "int list option \<Rightarrow> int list res" where
  "asn1_array0 l = (case l of Some (x # _) \<Rightarrow> Inr [x] | _ \<Rightarrow> Inl Null_deref)"

definition is_sdap_rx :: "bool \<Rightarrow> nr_sdap_config \<Rightarrow> bool" where
  "is_sdap_rx is_gnb c = (if is_gnb then sc_sdap_HeaderUL_present c else sc_sdap_HeaderDL_present c)"

definition is_sdap_tx :: "bool \<Rightarrow> nr_sdap_config \<Rightarrow> bool" where
  "is_sdap_tx is_gnb c = (if is_gnb then sc_sdap_HeaderDL_present c else sc_sdap_HeaderUL_present c)"

section \<open>The mapping table\<close>

definition qfi_get :: "nr_sdap_entity \<Rightarrow> byte \<Rightarrow> qfi2drb res" where
  "qfi_get e qfi = (if unat qfi < SDAP_MAX_QFI then Inr (se_qfi2drb_table e ! unat qfi) else Inl Out_of_bounds)"

definition set_drb_id :: "nat \<Rightarrow> int \<Rightarrow> nr_sdap_entity \<Rightarrow> nr_sdap_entity" where
  "set_drb_id k drb e =
     e\<lparr>se_qfi2drb_table := (se_qfi2drb_table e)[k := (se_qfi2drb_table e ! k)\<lparr>qd_drb_id := drb\<rparr>]\<rparr>"

definition nr_sdap_qfi2drb_map_update :: "nr_sdap_entity \<Rightarrow> byte \<Rightarrow> int \<Rightarrow> bool \<Rightarrow> bool \<Rightarrow> nr_sdap_entity" where
  "nr_sdap_qfi2drb_map_update e qfi drb rx tx =
     (if unat qfi < SDAP_MAX_QFI \<and> SDAP_MAP_RULE_EMPTY < uint qfi \<and> 0 < drb \<and> drb \<le> AVLBL_DRB
      then e\<lparr>se_qfi2drb_table := (se_qfi2drb_table e)
               [unat qfi := \<lparr>qd_drb_id = drb, qd_has_sdap_rx = rx, qd_has_sdap_tx = tx\<rparr>]\<rparr>
      else e)"

definition nr_sdap_qfi2drb_map_del :: "nr_sdap_entity \<Rightarrow> byte \<Rightarrow> nr_sdap_entity res" where
  "nr_sdap_qfi2drb_map_del e qfi =
     (if unat qfi < SDAP_MAX_QFI then Inr (set_drb_id (unat qfi) SDAP_NO_MAPPING_RULE e) else Inl Out_of_bounds)"

definition nr_sdap_qfi2drb_map :: "nr_sdap_entity \<Rightarrow> byte \<Rightarrow> (int \<times> nr_sdap_entity) res" where
  "nr_sdap_qfi2drb_map e qfi =
     rbind (qfi_get e qfi) (\<lambda>rule.
       if qd_drb_id rule \<noteq> 0 then Inr (qd_drb_id rule, e)
       else if se_default_drb e \<noteq> 0 then
         Inr (se_default_drb e,
           nr_sdap_qfi2drb_map_update e qfi (se_default_drb e) (qd_has_sdap_rx rule) (qd_has_sdap_tx rule))
       else Inr (SDAP_MAP_RULE_EMPTY, e))"

section \<open>End-marker control PDUs\<close>

definition nr_sdap_construct_ctrl_pdu :: "byte \<Rightarrow> nr_sdap_ul_hdr" where
  "nr_sdap_construct_ctrl_pdu qfi = \<lparr>ul_QFI = ucast qfi, ul_R = False, ul_DC = SDAP_HDR_UL_CTRL_PDU\<rparr>"

definition nr_sdap_map_ctrl_pdu :: "nr_sdap_entity \<Rightarrow> int \<Rightarrow> int \<Rightarrow> byte \<Rightarrow> (int \<times> nr_sdap_entity) res" where
  "nr_sdap_map_ctrl_pdu e pdcp_entity map_type dl_qfi =
     (let drb = (if map_type = SDAP_CTRL_PDU_MAP_DEF_DRB then se_default_drb e else 0)
      in if map_type = SDAP_CTRL_PDU_MAP_RULE_DRB then nr_sdap_qfi2drb_map e dl_qfi else Inr (drb, e))"

definition nr_pdcp_submit_sdap_ctrl_pdu :: "'p pdcp_service \<Rightarrow> u64 \<Rightarrow> int \<Rightarrow> nr_sdap_ul_hdr \<Rightarrow> 'p \<Rightarrow> 'p res" where
  "nr_pdcp_submit_sdap_ctrl_pdu pdcp ue_id drb ctrl_pdu p =
     rbind (pdcp \<lparr>dr_ctxt = ctxt_of False ue_id, dr_srb_flag = False, dr_rb_id = drb,
                  dr_mui = RLC_MUI_UNDEFINED, dr_confirm = 0, dr_sdu = [ul_hdr_byte ctrl_pdu],
                  dr_mode = PDCP_TRANSMISSION_MODE_UNKNOWN, dr_sourceL2Id = None, dr_destinationL2Id = None\<rparr> p)
       (\<lambda>(_, p'). Inr p')"

definition nr_sdap_submit_ctrl_pdu :: "'p pdcp_service \<Rightarrow> u64 \<Rightarrow> int \<Rightarrow> nr_sdap_ul_hdr \<Rightarrow> 'p \<Rightarrow> 'p res" where
  "nr_sdap_submit_ctrl_pdu pdcp ue_id drb ctrl_pdu p =
     (if drb \<noteq> 0 then nr_pdcp_submit_sdap_ctrl_pdu pdcp ue_id drb ctrl_pdu p else Inr p)"

text \<open>The three calls that send an end marker for a QoS flow, which the code repeats.\<close>

definition sdap_end_marker ::
  "'p pdcp_service \<Rightarrow> nr_sdap_entity \<Rightarrow> int \<Rightarrow> u64 \<Rightarrow> int \<Rightarrow> byte \<Rightarrow> 'p \<Rightarrow> (nr_sdap_entity \<times> 'p) res" where
  "sdap_end_marker pdcp e pdcp_entity ue_id map_type qfi p =
     rbind (nr_sdap_map_ctrl_pdu e pdcp_entity map_type qfi) (\<lambda>(drb, e').
       rbind (nr_sdap_submit_ctrl_pdu pdcp ue_id drb (nr_sdap_construct_ctrl_pdu qfi) p) (\<lambda>p'. Inr (e', p')))"

section \<open>Transmission and reception\<close>

definition nr_sdap_tx_entity ::
  "'p pdcp_service \<Rightarrow> nr_sdap_entity \<Rightarrow> protocol_ctxt \<Rightarrow> bool \<Rightarrow> int \<Rightarrow> int \<Rightarrow> int \<Rightarrow> byte list option \<Rightarrow> int
   \<Rightarrow> u32 option \<Rightarrow> u32 option \<Rightarrow> byte \<Rightarrow> bool \<Rightarrow> 'p \<Rightarrow> (bool \<times> nr_sdap_entity \<times> 'p) res" where
  "nr_sdap_tx_entity pdcp e ctxt srb_flag rb_id mui confirm sdu_buffer pt_mode src dst qfi rqi p =
     (case sdu_buffer of
        None \<Rightarrow> Inl Exit_fatal
      | Some sdu \<Rightarrow>
          rbind (nr_sdap_qfi2drb_map e qfi) (\<lambda>(pdcp_entity, e').
            let drb = (if pdcp_entity \<noteq> 0 then pdcp_entity else rb_id);
                has_sdap = (pdcp_entity \<noteq> 0 \<and> qd_has_sdap_tx (se_qfi2drb_table e' ! unat qfi));
                req = \<lparr>dr_ctxt = ctxt, dr_srb_flag = srb_flag, dr_rb_id = drb, dr_mui = mui, dr_confirm = confirm,
                       dr_sdu = sdu, dr_mode = pt_mode, dr_sourceL2Id = src, dr_destinationL2Id = dst\<rparr>
            in if \<not> has_sdap then rbind (pdcp req p) (\<lambda>(ret, p'). Inr (ret, e', p'))
               else if sdu = [] \<or> 8999 < length sdu then Inr (False, e', p)
               else
                 let hdr = (if pc_enb_flag ctxt
                            then dl_hdr_byte \<lparr>dl_QFI = ucast qfi, dl_RQI = rqi, dl_RDI = False\<rparr>
                            else ul_hdr_byte \<lparr>ul_QFI = ucast qfi, ul_R = False, ul_DC = rqi\<rparr>)
                 in rbind (pdcp (req\<lparr>dr_sdu := hdr # sdu\<rparr>) p) (\<lambda>(ret, p'). Inr (ret, e', p'))))"

text \<open>The reflective mapping of a DL header, on the UE.\<close>

definition sdap_reflective_mapping ::
  "'p pdcp_service \<Rightarrow> nr_sdap_entity \<Rightarrow> int \<Rightarrow> u64 \<Rightarrow> byte \<Rightarrow> 'p \<Rightarrow> (nr_sdap_entity \<times> 'p) res" where
  "sdap_reflective_mapping pdcp e pdcp_entity ue_id qfi p =
     rbind (if qd_drb_id (se_qfi2drb_table e ! unat qfi) = 0 \<and> se_default_drb e \<noteq> 0
            then sdap_end_marker pdcp e pdcp_entity ue_id SDAP_CTRL_PDU_MAP_DEF_DRB qfi p
            else Inr (e, p)) (\<lambda>(e1, p1).
     rbind (if pdcp_entity \<noteq> qd_drb_id (se_qfi2drb_table e1 ! unat qfi)
            then sdap_end_marker pdcp e1 pdcp_entity ue_id SDAP_CTRL_PDU_MAP_RULE_DRB qfi p1
            else Inr (e1, p1)) (\<lambda>(e2, p2).
     Inr (set_drb_id (unat qfi) pdcp_entity e2, p2)))"

definition nr_sdap_rx_entity ::
  "'p pdcp_service \<Rightarrow> nr_sdap_entity \<Rightarrow> int \<Rightarrow> bool \<Rightarrow> bool \<Rightarrow> int \<Rightarrow> u64 \<Rightarrow> byte list \<Rightarrow> int option \<Rightarrow> 'p
   \<Rightarrow> (sdap_event \<times> nr_sdap_entity \<times> 'p) res" where
  "nr_sdap_rx_entity pdcp e pdcp_entity is_gnb has_sdap_rx pdusession_id ue_id buf N3GTPUInst p =
     (let offset = (if has_sdap_rx then SDAP_HDR_LENGTH else 0)
      in rbind (if has_sdap_rx then c_read buf 0 1 else Inr [0]) (\<lambda>hdr.
         if is_gnb then
           (case N3GTPUInst of
              None \<Rightarrow> Inl Null_deref
            | Some inst \<Rightarrow> Inr (Gtpu_Send inst ue_id pdusession_id (drop offset buf), e, p))
         else
           let h = dl_hdr_of (hd hdr)
           in rbind (if has_sdap_rx \<and> dl_RDI h = SDAP_REFLECTIVE_MAPPING
                     then sdap_reflective_mapping pdcp e pdcp_entity ue_id (ucast (dl_QFI h)) p
                     else Inr (e, p)) (\<lambda>(e', p').
              Inr (Tun_Write (se_pdusession_sock e') (drop offset buf), e', p'))))"

end
