(* ===== verification/Pdcp_Queue.thy ===== *)
theory Pdcp_Queue
  imports Sdap_Entity
begin

text \<open>
  The two queues of \<open>nr_pdcp_oai_api.c\<close> between threads: \<open>rlc_data_req_queue\<close>, which \<open>enqueue_rlc_data_req\<close>
  fills and \<open>rlc_data_req_thread\<close> empties, and \<open>pdcp_data_ind_queue\<close> with \<open>enqueue_pdcp_data_ind\<close> and
  \<open>pdcp_data_ind_thread\<close>. Both are the same code on a ring buffer of 10000 items; here it is one group
  of definitions over the type of the items and the size of the ring.

  The code between a lock and its unlock is one step. What the consumer does outside the lock, reading
  the slot it has looked up and handing the item on, is a step of its own, so that producers may run in
  between. A thread that waits on the condition variable has no step until the condition holds.
\<close>

section \<open>The ring\<close>

record 'a ring =
  rq_q :: "'a list"
  rq_start :: nat
  rq_length :: nat


text \<open>The critical section of a producer: \<open>None\<close> while the queue is full.\<close>

definition ring_enqueue :: "'a \<Rightarrow> 'a ring \<Rightarrow> 'a ring option" where
  "ring_enqueue item q =
     (let n = length (rq_q q)
      in if rq_length q = n then None
         else let i = (rq_start q + rq_length q) mod n
              in Some (q\<lparr>rq_length := rq_length q + 1, rq_q := (rq_q q)[i := item]\<rparr>))"



section \<open>The items\<close>

record rlc_data_req_queue_item =
  ri_ctxt :: protocol_ctxt
  ri_srb_flag :: bool
  ri_rb_id :: int
  ri_mui :: int
  ri_confirm :: int
  ri_sdu :: "byte list"

record pdcp_data_ind_queue_item =
  pi_ctxt :: protocol_ctxt
  pi_srb_flag :: bool
  pi_rb_id :: int
  pi_sdu :: "byte list"

definition RLC_DATA_REQ_QUEUE_SIZE :: nat where "RLC_DATA_REQ_QUEUE_SIZE = 10000"
definition PDCP_DATA_IND_QUEUE_SIZE :: nat where "PDCP_DATA_IND_QUEUE_SIZE = 10000"

definition enqueue_rlc_data_req ::
  "protocol_ctxt \<Rightarrow> bool \<Rightarrow> int \<Rightarrow> int \<Rightarrow> int \<Rightarrow> byte list \<Rightarrow> rlc_data_req_queue_item ring
   \<Rightarrow> rlc_data_req_queue_item ring option" where
  "enqueue_rlc_data_req ctxt srb_flag rb_id mui confirm sdu q =
     ring_enqueue \<lparr>ri_ctxt = ctxt, ri_srb_flag = srb_flag, ri_rb_id = rb_id, ri_mui = mui, ri_confirm = confirm,
                   ri_sdu = sdu\<rparr> q"

definition enqueue_pdcp_data_ind ::
  "protocol_ctxt \<Rightarrow> bool \<Rightarrow> int \<Rightarrow> byte list \<Rightarrow> pdcp_data_ind_queue_item ring \<Rightarrow> pdcp_data_ind_queue_item ring option" where
  "enqueue_pdcp_data_ind ctxt srb_flag rb_id sdu q =
     ring_enqueue \<lparr>pi_ctxt = ctxt, pi_srb_flag = srb_flag, pi_rb_id = rb_id, pi_sdu = sdu\<rparr> q"

section \<open>Producers and the consumer\<close>





section \<open>First in, first out, under every interleaving\<close>














end
