(* ===== verification/Rlc_Api.thy ===== *)
theory Rlc_Api
  imports Rlc_Ue_Manager Rlc_Config Pdcp_Queue
begin

text \<open>
  \<open>nr_rlc_oai_api.c\<close>: the interface of RLC, which finds the entity of
  a bearer or a logical channel in the UE table, brings its clock up to date, calls it, and connects it
  with MAC below and PDCP, F1 and RRC above.

  Every operation takes the lock of the manager, so it is one step. The entities call their callbacks
  while they run; here the calls an operation has logged are made, in their order, when it has returned.
  The two agree as no callback reaches an entity: they enqueue a message or a PDU for another thread.
  What leaves the layer is recorded as events.
\<close>

section \<open>State\<close>

text \<open>
  The file's static variables. \<open>ra_deleted\<close> records the stores of the entities that have been deleted.
\<close>

datatype rlc_event =
    Nr_Pdcp_Data_Ind pdcp_data_ind_queue_item
  | Itti_F1ap_Ul_Rrc_Message u64 int int "byte list"
  | Gtpv1u_Send_Direct int int int "byte list"
  | Send_Initial_Ul_Rrc_Message nat int "byte list" nat
  | Rlf_Handler nat int

record rlc_api =
  ra_manager :: nr_rlc_ue_manager
  ra_time :: u64
  ra_events :: "rlc_event list"
  ra_deleted :: "sdu_heap list"

text \<open>The GTP instance of the DU and the answers of \<open>du_get_f1_ue_data\<close> (F1AP).\<close>

record rlc_env =
  re_DUuniqInstance :: int
  re_f1_secondary_ue :: "int \<Rightarrow> u32 option"

text \<open>
  The initialisation: the flags are static variables of the function. The manager of a second call
  with another kind of mode replaces the first one.
\<close>

record rlc_module =
  mo_inited :: bool
  mo_inited_ue :: bool
  mo_api :: "rlc_api option"

definition nr_rlc_module_init :: "nr_rlc_op_mode \<Rightarrow> rlc_module \<Rightarrow> rlc_module res" where
  "nr_rlc_module_init mode s =
     (let gnb_flag = (mode \<noteq> NR_RLC_OP_MODE_UE)
      in if gnb_flag \<and> mo_inited s \<or> \<not> gnb_flag \<and> mo_inited_ue s then Inl Exit_fatal
         else Inr \<lparr>mo_inited = mo_inited s \<or> gnb_flag, mo_inited_ue = mo_inited_ue s \<or> \<not> gnb_flag,
                   mo_api = Some (case mo_api s of
                       None \<Rightarrow> \<lparr>ra_manager = new_nr_rlc_ue_manager mode, ra_time = 0, ra_events = [], ra_deleted = []\<rparr>
                     | Some a \<Rightarrow> a\<lparr>ra_manager := new_nr_rlc_ue_manager mode\<rparr>)\<rparr>)"

definition nr_rlc_ms_tick :: "rlc_api \<Rightarrow> rlc_api" where
  "nr_rlc_ms_tick a = a\<lparr>ra_time := ra_time a + 1\<rparr>"

text \<open>A UE, created when it is not there, and writing it back.\<close>

definition ra_get_ue :: "int \<Rightarrow> rlc_api \<Rightarrow> nat \<times> rlc_api" where
  "ra_get_ue ueid a = (case nr_rlc_manager_get_ue (ra_manager a) ueid of (k, m) \<Rightarrow> (k, a\<lparr>ra_manager := m\<rparr>))"

definition ra_ue :: "nat \<Rightarrow> rlc_api \<Rightarrow> nr_rlc_ue" where
  "ra_ue k a = rm_ue_list (ra_manager a) ! k"

definition ra_put_ue :: "nat \<Rightarrow> nr_rlc_ue \<Rightarrow> rlc_api \<Rightarrow> rlc_api" where
  "ra_put_ue k ue a = a\<lparr>ra_manager := (ra_manager a)\<lparr>rm_ue_list := (rm_ue_list (ra_manager a))[k := ue]\<rparr>\<rparr>"

text \<open>The place of an entity in a UE; the index is one into the arrays.\<close>

datatype rb_slot = Slot_srb0 | Slot_srb nat | Slot_drb nat

fun slot_get :: "rb_slot \<Rightarrow> nr_rlc_ue \<Rightarrow> rlc_entity_any option" where
  "slot_get Slot_srb0 ue = ue_srb0 ue"
| "slot_get (Slot_srb i) ue = ue_srb ue ! i"
| "slot_get (Slot_drb i) ue = ue_drb ue ! i"

fun slot_put :: "rb_slot \<Rightarrow> rlc_entity_any option \<Rightarrow> nr_rlc_ue \<Rightarrow> nr_rlc_ue" where
  "slot_put Slot_srb0 x ue = ue\<lparr>ue_srb0 := x\<rparr>"
| "slot_put (Slot_srb i) x ue = ue\<lparr>ue_srb := (ue_srb ue)[i := x]\<rparr>"
| "slot_put (Slot_drb i) x ue = ue\<lparr>ue_drb := (ue_drb ue)[i := x]\<rparr>"

definition srb_slot :: "int \<Rightarrow> rb_slot res" where
  "srb_slot i = (if i < 0 \<or> 3 \<le> i then Inl Out_of_bounds else Inr (Slot_srb (nat i)))"

definition drb_slot :: "int \<Rightarrow> rb_slot res" where
  "drb_slot i = (if i < 0 \<or> int MAX_DRBS_PER_UE \<le> i then Inl Out_of_bounds else Inr (Slot_drb (nat i)))"

text \<open>
  The entry of a logical channel, whose number (an unsigned one) is not checked.
\<close>

definition lcid_rb :: "nat \<Rightarrow> nr_rlc_ue \<Rightarrow> nr_rlc_rb res" where
  "lcid_rb channel_id ue =
     (if channel_id = 0 \<or> 32 < channel_id then Inl Out_of_bounds else Inr (ue_lcid2rb ue ! (channel_id - 1)))"

definition get_rlc_entity_from_lcid :: "nr_rlc_ue \<Rightarrow> nat \<Rightarrow> rb_slot option res" where
  "get_rlc_entity_from_lcid ue channel_id =
     (if channel_id = 0 then Inr (Some Slot_srb0)
      else
        rbind (lcid_rb channel_id ue) (\<lambda>rb.
          case rb of
            NR_RLC_NONE \<Rightarrow> Inr None
          | NR_RLC_SRB srb_id \<Rightarrow>
              if srb_id \<le> 0 then Inl Assert_failed
              else rbind (srb_slot (srb_id - 1)) (\<lambda>s. Inr (Some s))
          | NR_RLC_DRB drb_id \<Rightarrow> rbind (drb_slot (drb_id - 1)) (\<lambda>s. Inr (Some s))))"

text \<open>The entity itself; a null pointer is \<open>None\<close>.\<close>

definition lcid_entity :: "nr_rlc_ue \<Rightarrow> nat \<Rightarrow> (rb_slot \<times> rlc_entity_any) option res" where
  "lcid_entity ue channel_id =
     rbind (get_rlc_entity_from_lcid ue channel_id) (\<lambda>s.
       Inr (case s of
              None \<Rightarrow> None
            | Some slot \<Rightarrow> map_option (Pair slot) (slot_get slot ue)))"

section \<open>Callbacks\<close>

text \<open>
  The loops that look an entity up among the bearers of its UE find its place; \<open>deliver_sdu\<close> looks at
  all signalling bearers (\<open>n\<close> is 3), the other two callbacks at the first two.
\<close>

definition find_rb :: "nat \<Rightarrow> rb_slot \<Rightarrow> (bool \<times> int) res" where
  "find_rb n slot =
     (case slot of
        Slot_srb i \<Rightarrow> if i < n then Inr (True, int i + 1) else Inl Exit_fatal
      | Slot_drb i \<Rightarrow> Inr (False, int i + 1)
      | Slot_srb0 \<Rightarrow> Inl Exit_fatal)"

definition deliver_sdu ::
  "rlc_env \<Rightarrow> nr_rlc_ue_manager \<Rightarrow> nr_rlc_ue \<Rightarrow> rb_slot \<Rightarrow> byte list \<Rightarrow> rlc_event res" where
  "deliver_sdu env m ue entity buf =
     rbind (find_rb 3 entity) (\<lambda>(is_srb, rb_id).
     let is_gnb = nr_rlc_manager_get_gnb_flag m
     in rbind (if is_gnb then (case re_f1_secondary_ue env (ue_id ue) of
                                 None \<Rightarrow> Inl Assert_failed | Some i \<Rightarrow> Inr (ucast i))
               else Inr (word_of_int (ue_id ue))) (\<lambda>rntiMaybeUEid.
        Inr (if is_gnb \<and> nr_rlc_manager_rlc_is_split m
             then (if is_srb then Itti_F1ap_Ul_Rrc_Message rntiMaybeUEid (ue_id ue) rb_id buf
                   else Gtpv1u_Send_Direct (re_DUuniqInstance env) (ue_id ue) rb_id buf)
             else Nr_Pdcp_Data_Ind \<lparr>pi_ctxt = ctxt_of is_gnb rntiMaybeUEid, pi_srb_flag = is_srb,
                                    pi_rb_id = rb_id, pi_sdu = buf\<rparr>)))"

text \<open>A successful delivery is only logged.\<close>

definition successful_delivery :: "rb_slot \<Rightarrow> int \<Rightarrow> unit res" where
  "successful_delivery entity sdu_id = rbind (find_rb 2 entity) (\<lambda>_. Inr ())"

definition max_retx_reached :: "nr_rlc_ue \<Rightarrow> rb_slot \<Rightarrow> rlc_event list res" where
  "max_retx_reached ue entity =
     rbind (find_rb 2 entity) (\<lambda>_.
       Inr (case ue_rlf_handler ue of Some f \<Rightarrow> [Rlf_Handler f (ue_id ue)] | None \<Rightarrow> []))"

definition deliver_sdu_srb0 :: "srb0_data option \<Rightarrow> byte list \<Rightarrow> rlc_event res" where
  "deliver_sdu_srb0 deliver_sdu_data buf =
     rbind (c_deref deliver_sdu_data) (\<lambda>s0.
     rbind (c_deref (s0_send s0)) (\<lambda>f. Inr (Send_Initial_Ul_Rrc_Message f (s0_ue_id s0) buf (s0_data s0))))"

text \<open>
  The function pointers of an entity: SRB0 has its own \<open>deliver_sdu\<close> and, as a transparent mode entity,
  no other callback.
\<close>

fun rlc_callback_events ::
  "rlc_env \<Rightarrow> nr_rlc_ue_manager \<Rightarrow> nr_rlc_ue \<Rightarrow> rb_slot \<Rightarrow> rlc_callback \<Rightarrow> rlc_event list res" where
  "rlc_callback_events env m ue slot (Deliver_sdu buf) =
     rbind (if slot = Slot_srb0 then deliver_sdu_srb0 (ue_srb0_data ue) buf
            else deliver_sdu env m ue slot buf) (\<lambda>ev. Inr [ev])"
| "rlc_callback_events env m ue slot (Sdu_successful_delivery i) =
     (if slot = Slot_srb0 then Inl Null_deref else rbind (successful_delivery slot i) (\<lambda>_. Inr []))"
| "rlc_callback_events env m ue slot Max_retx_reached =
     (if slot = Slot_srb0 then Inl Null_deref else max_retx_reached ue slot)"

fun rlc_callbacks_events ::
  "rlc_env \<Rightarrow> nr_rlc_ue_manager \<Rightarrow> nr_rlc_ue \<Rightarrow> rb_slot \<Rightarrow> rlc_callback list \<Rightarrow> rlc_event list res" where
  "rlc_callbacks_events env m ue slot [] = Inr []"
| "rlc_callbacks_events env m ue slot (c # cs) =
     rbind (rlc_callback_events env m ue slot c) (\<lambda>evs.
     rbind (rlc_callbacks_events env m ue slot cs) (\<lambda>evs'. Inr (evs @ evs')))"

fun any_callbacks :: "rlc_entity_any \<Rightarrow> rlc_callback list" where
  "any_callbacks (Am e) = callbacks e"
| "any_callbacks (Um e) = callbacks e"
| "any_callbacks (Tm e) = callbacks e"

fun any_mode :: "rlc_entity_any \<Rightarrow> nr_rlc_mode" where
  "any_mode (Am e) = st_mode (stats e)"
| "any_mode (Um e) = st_mode (stats e)"
| "any_mode (Tm e) = st_mode (stats e)"

text \<open>An operation \<open>f\<close> on the entity at \<open>slot\<close> of the UE \<open>k\<close>, with the callbacks it makes.\<close>

definition ra_on_rb ::
  "rlc_env \<Rightarrow> nat \<Rightarrow> rb_slot \<Rightarrow> rlc_entity_any \<Rightarrow> (rlc_entity_any \<Rightarrow> ('x \<times> rlc_entity_any) res)
   \<Rightarrow> rlc_api \<Rightarrow> ('x \<times> rlc_api) res" where
  "ra_on_rb env k slot rb f a =
     rbind (f rb) (\<lambda>(x, rb').
     rbind (rlc_callbacks_events env (ra_manager a) (ra_ue k a) slot
              (drop (length (any_callbacks rb)) (any_callbacks rb'))) (\<lambda>evs.
     Inr (x, (ra_put_ue k (slot_put slot (Some rb') (ra_ue k a)) a)\<lparr>ra_events := ra_events a @ evs\<rparr>)))"

section \<open>Data\<close>

text \<open>Operations on the entity of a logical channel; \<open>none\<close> is the result without an entity.\<close>

definition ra_on_lcid ::
  "rlc_env \<Rightarrow> int \<Rightarrow> nat \<Rightarrow> 'x \<Rightarrow> (rlc_entity_any \<Rightarrow> ('x \<times> rlc_entity_any) res) \<Rightarrow> rlc_api \<Rightarrow> ('x \<times> rlc_api) res" where
  "ra_on_lcid env ueid channel_id none f a =
     (case ra_get_ue ueid a of (k, a1) \<Rightarrow>
        rbind (lcid_entity (ra_ue k a1) channel_id) (\<lambda>r.
          case r of
            None \<Rightarrow> Inr (none, a1)
          | Some (slot, rb) \<Rightarrow> ra_on_rb env k slot rb f a1))"

definition nr_mac_rlc_data_ind :: "rlc_env \<Rightarrow> int \<Rightarrow> nat \<Rightarrow> byte list \<Rightarrow> rlc_api \<Rightarrow> rlc_api res" where
  "nr_mac_rlc_data_ind env ueid channel_id buffer a =
     rbind (ra_on_lcid env ueid channel_id ()
              (\<lambda>rb. rbind (rlc_set_time rb (ra_time a)) (\<lambda>rb1.
                    rbind (rlc_recv_pdu rb1 buffer) (\<lambda>rb2. Inr ((), rb2)))) a)
       (\<lambda>(_, a'). Inr a')"

text \<open>
  The size and the buffer with the PDU. \<open>now\<close> is what \<open>time_average_now\<close> reads; without an entity the
  buffer is not written.
\<close>

definition nr_mac_rlc_data_req ::
  "rlc_env \<Rightarrow> u64 \<Rightarrow> int \<Rightarrow> nat \<Rightarrow> byte list \<Rightarrow> rlc_api \<Rightarrow> ((int \<times> byte list) \<times> rlc_api) res" where
  "nr_mac_rlc_data_req env now ueid channel_id buffer a =
     ra_on_lcid env ueid channel_id (0, buffer)
       (\<lambda>rb. rbind (rlc_set_time rb (ra_time a)) (\<lambda>rb1.
             rbind (rlc_generate_pdu now rb1 buffer) (\<lambda>(n, buffer', rb2). Inr ((n, buffer'), rb2)))) a"

record mac_rlc_status_resp =
  sr_bytes_in_buffer :: int
  sr_pdus_in_buffer :: int
  sr_head_sdu_creation_time :: int
  sr_head_sdu_remaining_size_to_send :: int
  sr_head_sdu_is_segmented :: bool

definition bytes_in_buffer :: "rlc_entity_any \<Rightarrow> int res" where
  "bytes_in_buffer rb =
     rbind (rlc_buffer_status rb (1000 * 1000)) (\<lambda>b. Inr (bs_status_size b + bs_retx_size b + bs_tx_size b))"

definition nr_mac_rlc_status_ind ::
  "rlc_env \<Rightarrow> int \<Rightarrow> nat \<Rightarrow> rlc_api \<Rightarrow> (mac_rlc_status_resp \<times> rlc_api) res" where
  "nr_mac_rlc_status_ind env ueid channel_id a =
     rbind (ra_on_lcid env ueid channel_id 0
              (\<lambda>rb. rbind (rlc_set_time rb (ra_time a)) (\<lambda>rb1.
                    rbind (bytes_in_buffer rb1) (\<lambda>n. Inr (n, rb1)))) a)
       (\<lambda>(n, a'). Inr (\<lparr>sr_bytes_in_buffer = n, sr_pdus_in_buffer = 0, sr_head_sdu_creation_time = 0,
          sr_head_sdu_remaining_size_to_send = 0, sr_head_sdu_is_segmented = False\<rparr>, a'))"

definition nr_rlc_get_available_tx_space :: "rlc_env \<Rightarrow> int \<Rightarrow> nat \<Rightarrow> rlc_api \<Rightarrow> (int \<times> rlc_api) res" where
  "nr_rlc_get_available_tx_space env ueid channel_id a =
     ra_on_lcid env ueid channel_id (- 1) (\<lambda>rb. Inr (rlc_available_tx_space rb, rb)) a"

text \<open>The bearer of a data request; the other numbers are no bearer.\<close>

definition rb_slot_of :: "bool \<Rightarrow> int \<Rightarrow> int \<Rightarrow> int \<Rightarrow> rb_slot option" where
  "rb_slot_of srb_flag rb_id srbs drbs =
     (if srb_flag then (if 1 \<le> rb_id \<and> rb_id \<le> srbs then Some (Slot_srb (nat (rb_id - 1))) else None)
      else (if 1 \<le> rb_id \<and> rb_id \<le> drbs then Some (Slot_drb (nat (rb_id - 1))) else None))"

definition ra_on_slot ::
  "rlc_env \<Rightarrow> int \<Rightarrow> rb_slot option \<Rightarrow> 'x \<Rightarrow> (rlc_entity_any \<Rightarrow> ('x \<times> rlc_entity_any) res) \<Rightarrow> rlc_api
   \<Rightarrow> ('x \<times> rlc_api) res" where
  "ra_on_slot env ueid s none f a =
     (case ra_get_ue ueid a of (k, a1) \<Rightarrow>
        (case s of
           None \<Rightarrow> Inr (none, a1)
         | Some slot \<Rightarrow>
             (case slot_get slot (ra_ue k a1) of
                None \<Rightarrow> Inr (none, a1)
              | Some rb \<Rightarrow> ra_on_rb env k slot rb f a1)))"

definition rlc_recv_at :: "u64 \<Rightarrow> u64 \<Rightarrow> byte list \<Rightarrow> int \<Rightarrow> rlc_entity_any \<Rightarrow> (unit \<times> rlc_entity_any) res" where
  "rlc_recv_at now time sdu i rb =
     rbind (rlc_set_time rb time) (\<lambda>rb1. rbind (rlc_recv_sdu now rb1 sdu i) (\<lambda>rb2. Inr ((), rb2)))"

text \<open>The identifier of the context is 64 bits wide and becomes an \<open>int\<close>; so does the message identifier.\<close>

definition nr_rlc_data_req ::
  "rlc_env \<Rightarrow> u64 \<Rightarrow> protocol_ctxt \<Rightarrow> bool \<Rightarrow> int \<Rightarrow> int \<Rightarrow> byte list \<Rightarrow> rlc_api \<Rightarrow> rlc_api res" where
  "nr_rlc_data_req env now ctxt srb_flag rb_id mui sdu a =
     rbind (ra_on_slot env (sint (ucast (pc_rntiMaybeUEid ctxt) :: u32))
              (rb_slot_of srb_flag rb_id 2 (int MAX_DRBS_PER_UE)) ()
              (rlc_recv_at now (ra_time a) sdu mui) a)
       (\<lambda>(_, a'). Inr a')"

definition nr_rlc_srb_recv_sdu :: "rlc_env \<Rightarrow> u64 \<Rightarrow> int \<Rightarrow> nat \<Rightarrow> byte list \<Rightarrow> rlc_api \<Rightarrow> rlc_api res" where
  "nr_rlc_srb_recv_sdu env now ueid channel_id sdu a =
     (case ra_get_ue ueid a of (k, a1) \<Rightarrow>
        rbind (if channel_id = 0 then Inr Slot_srb0 else srb_slot (int channel_id - 1)) (\<lambda>slot.
          case slot_get slot (ra_ue k a1) of
            None \<Rightarrow> Inl Assert_failed
          | Some rb \<Rightarrow>
              rbind (ra_on_rb env k slot rb (rlc_recv_at now (ra_time a) sdu (- 1)) a1) (\<lambda>(_, a'). Inr a')))"

section \<open>Bearers\<close>

text \<open>The first logical channel of a bearer, 0 when there is none.\<close>

definition nr_rlc_get_lcid_from_rb :: "int \<Rightarrow> bool \<Rightarrow> int \<Rightarrow> rlc_api \<Rightarrow> nat \<times> rlc_api" where
  "nr_rlc_get_lcid_from_rb ueid is_srb rb_id a =
     (case ra_get_ue ueid a of (k, a1) \<Rightarrow>
        let wanted = (if is_srb then NR_RLC_SRB rb_id else NR_RLC_DRB rb_id)
        in (case find (\<lambda>i. ue_lcid2rb (ra_ue k a1) ! (i - 1) = wanted) [1..<33] of Some i \<Rightarrow> i | None \<Rightarrow> 0, a1))"

text \<open>
  Releasing the bearer of a logical channel. The entry of the channel stays as it is.
\<close>

definition release_rlc_entity_from_lcid :: "nr_rlc_ue \<Rightarrow> nat \<Rightarrow> (sdu_heap list \<times> nr_rlc_ue) res" where
  "release_rlc_entity_from_lcid ue channel_id =
     rbind (rcheck (channel_id \<noteq> 0) Assert_failed) (\<lambda>_.
     rbind (lcid_rb channel_id ue) (\<lambda>rb.
     case rb of
       NR_RLC_NONE \<Rightarrow> Inr ([], ue)
     | NR_RLC_SRB srb_id \<Rightarrow>
         if srb_id - 1 < 0 then Inl Assert_failed
         else rbind (srb_slot (srb_id - 1)) (\<lambda>s. Inr (delete_all [slot_get s ue], slot_put s None ue))
     | NR_RLC_DRB drb_id \<Rightarrow>
         rbind (drb_slot (drb_id - 1)) (\<lambda>s. Inr (delete_all [slot_get s ue], slot_put s None ue))))"

definition nr_rlc_release_entity :: "int \<Rightarrow> nat \<Rightarrow> rlc_api \<Rightarrow> rlc_api res" where
  "nr_rlc_release_entity ueid channel_id a =
     (case ra_get_ue ueid a of (k, a1) \<Rightarrow>
        rbind (if channel_id = 0
               then Inr (delete_all [ue_srb0 (ra_ue k a1)], (ra_ue k a1)\<lparr>ue_srb0 := None, ue_srb0_data := None\<rparr>)
               else release_rlc_entity_from_lcid (ra_ue k a1) channel_id) (\<lambda>(heaps, ue).
        Inr ((ra_put_ue k ue a1)\<lparr>ra_deleted := ra_deleted a1 @ heaps\<rparr>)))"

definition nr_rlc_set_rlf_handler :: "int \<Rightarrow> nat option \<Rightarrow> rlc_api \<Rightarrow> rlc_api" where
  "nr_rlc_set_rlf_handler ueid rlf_h a =
     (case ra_get_ue ueid a of (k, a1) \<Rightarrow> ra_put_ue k ((ra_ue k a1)\<lparr>ue_rlf_handler := rlf_h\<rparr>) a1)"

text \<open>\<open>lc_id\<close> is an \<open>int\<close> here and becomes an unsigned number.\<close>

definition lcid_of_int :: "int \<Rightarrow> nat" where
  "lcid_of_int lc_id = unat (word_of_int lc_id :: u32)"

definition nr_rlc_reestablish_entity :: "rlc_env \<Rightarrow> int \<Rightarrow> int \<Rightarrow> rlc_api \<Rightarrow> rlc_api res" where
  "nr_rlc_reestablish_entity env ueid lc_id a =
     rbind (ra_on_lcid env ueid (lcid_of_int lc_id) () (\<lambda>rb. Inr ((), rlc_reestablishment rb)) a) (\<lambda>(_, a'). Inr a')"

text \<open>
  The reconfiguration of an entity. The functions take any entity and cast it to the mode of its
  statistics, which the constructors of the modes set.
\<close>

definition any_am_reconfigure :: "rlc_entity_any \<Rightarrow> am_params \<Rightarrow> int option \<Rightarrow> rlc_entity_any res" where
  "any_am_reconfigure rb p sn_field_length =
     (case rb of
        Am e \<Rightarrow> Inr (Am (nr_rlc_entity_am_reconfigure e (ap_t_poll_retransmit p) (ap_t_reassembly p)
                  (ap_t_status_prohibit p) (ap_poll_pdu p) (ap_poll_byte p) (ap_max_retx_threshold p)
                  (map_option nat sn_field_length)))
      | _ \<Rightarrow> Inl Out_of_bounds)"

definition any_um_reconfigure :: "rlc_entity_any \<Rightarrow> int \<Rightarrow> int option \<Rightarrow> rlc_entity_any res" where
  "any_um_reconfigure rb t_reassembly sn_field_length =
     (case rb of
        Um e \<Rightarrow> Inr (Um (nr_rlc_entity_um_reconfigure e t_reassembly (map_option nat sn_field_length)))
      | _ \<Rightarrow> Inl Out_of_bounds)"

definition reconfigure_any :: "nr_rlc_config option \<Rightarrow> rlc_entity_any \<Rightarrow> rlc_entity_any res" where
  "reconfigure_any rlc_Config rb =
     (case rlc_Config of
        None \<Rightarrow>
          rbind (rcheck (any_mode rb = NR_RLC_AM) Assert_failed) (\<lambda>_.
          any_am_reconfigure rb am_default_params (Some (ap_sn_field_length am_default_params)))
      | Some c \<Rightarrow>
          rbind (rcheck (any_mode rb \<noteq> NR_RLC_TM) Assert_failed) (\<lambda>_.
          if any_mode rb = NR_RLC_AM
          then (case c of
                  Config_am am \<Rightarrow>
                    rbind (decode_am_timers am) (\<lambda>p.
                    rbind (same_length_opt decode_sn_field_length_am (ac_dl_sn_FieldLength am) (ac_ul_sn_FieldLength am))
                      (any_am_reconfigure rb p))
                | _ \<Rightarrow> Inl Assert_failed)
          else (case c of
                  Config_um_Bi_Directional um \<Rightarrow>
                    rbind (decode_t_reassembly (uc_t_Reassembly um)) (\<lambda>t.
                    rbind (same_length_opt decode_sn_field_length_um (uc_dl_sn_FieldLength um) (uc_ul_sn_FieldLength um))
                      (any_um_reconfigure rb t))
                | _ \<Rightarrow> Inl Assert_failed)))"

text \<open>Without an entity its mode is read through a null pointer.\<close>

definition nr_rlc_reconfigure_entity :: "rlc_env \<Rightarrow> int \<Rightarrow> int \<Rightarrow> nr_rlc_config option \<Rightarrow> rlc_api \<Rightarrow> rlc_api res" where
  "nr_rlc_reconfigure_entity env ueid lc_id rlc_Config a =
     (case ra_get_ue ueid a of (k, a1) \<Rightarrow>
        rbind (lcid_entity (ra_ue k a1) (lcid_of_int lc_id)) (\<lambda>r.
        rbind (c_deref r) (\<lambda>(slot, rb).
        rbind (ra_on_rb env k slot rb (\<lambda>rb. rbind (reconfigure_any rlc_Config rb) (\<lambda>rb'. Inr ((), rb'))) a1)
          (\<lambda>(_, a'). Inr a'))))"

text \<open>
  Adding bearers. The entry of the logical channel is written before the bearer is looked up, and its
  number is not checked.
\<close>

definition RLC_RX_MAXSIZE :: int where "RLC_RX_MAXSIZE = 10000000"
definition RLC_TX_MAXSIZE :: int where "RLC_TX_MAXSIZE = 10000000"

definition set_lcid2rb :: "int \<Rightarrow> nr_rlc_rb \<Rightarrow> nr_rlc_ue \<Rightarrow> nr_rlc_ue res" where
  "set_lcid2rb local_id rb ue =
     (if local_id < 0 \<or> 32 \<le> local_id then Inl Out_of_bounds
      else Inr (ue\<lparr>ue_lcid2rb := (ue_lcid2rb ue)[nat local_id := rb]\<rparr>))"

definition new_am_of :: "am_params \<Rightarrow> rlc_entity_any res" where
  "new_am_of p =
     rbind (new_nr_rlc_entity_am RLC_RX_MAXSIZE RLC_TX_MAXSIZE (ap_t_poll_retransmit p) (ap_t_reassembly p)
              (ap_t_status_prohibit p) (ap_poll_pdu p) (ap_poll_byte p) (ap_max_retx_threshold p)
              (nat (ap_sn_field_length p))) (\<lambda>e. Inr (Am e))"

definition new_um_of :: "int \<times> int \<Rightarrow> rlc_entity_any res" where
  "new_um_of p =
     rbind (new_nr_rlc_entity_um RLC_RX_MAXSIZE RLC_TX_MAXSIZE (fst p) (nat (snd p))) (\<lambda>e. Inr (Um e))"

definition nr_rlc_add_srb :: "int \<Rightarrow> int \<Rightarrow> nr_rlc_bearer_config \<Rightarrow> rlc_api \<Rightarrow> rlc_api res" where
  "nr_rlc_add_srb ueid srb_id c a =
     rbind (rcheck (0 < srb_id \<and> srb_id < 4) Assert_failed) (\<lambda>_.
     rbind (case bc_rlc_Config c of Some (Config_am am) \<Rightarrow> decode_am_params am | _ \<Rightarrow> Inr am_default_params) (\<lambda>p.
     case ra_get_ue ueid a of (k, a1) \<Rightarrow>
       (case bc_servedRadioBearer c of
          Some (Served_srb i) \<Rightarrow>
            rbind (set_lcid2rb (bc_logicalChannelIdentity c - 1) (NR_RLC_SRB i) (ra_ue k a1)) (\<lambda>ue.
            if ue_srb ue ! nat (srb_id - 1) \<noteq> None then Inr (ra_put_ue k ue a1)
            else
              rbind (new_am_of p) (\<lambda>e.
              rbind (nr_rlc_ue_add_srb_rlc_entity ue srb_id e) (\<lambda>ue'. Inr (ra_put_ue k ue' a1))))
        | _ \<Rightarrow> Inl Assert_failed)))"

text \<open>\<open>add_drb_am\<close> and \<open>add_drb_um\<close> from the taking of the lock on: the same code on an entity of each mode.\<close>

definition add_drb_entity ::
  "int \<Rightarrow> int \<Rightarrow> nr_rlc_bearer_config \<Rightarrow> rlc_entity_any res \<Rightarrow> rlc_api \<Rightarrow> rlc_api res" where
  "add_drb_entity ueid drb_id c new a =
     (case ra_get_ue ueid a of (k, a1) \<Rightarrow>
        (case bc_servedRadioBearer c of
           Some (Served_drb i) \<Rightarrow>
             rbind (set_lcid2rb (bc_logicalChannelIdentity c - 1) (NR_RLC_DRB i) (ra_ue k a1)) (\<lambda>ue.
             if ue_drb ue ! nat (drb_id - 1) \<noteq> None then Inr (ra_put_ue k ue a1)
             else
               rbind new (\<lambda>e.
               rbind (nr_rlc_ue_add_drb_rlc_entity ue drb_id e) (\<lambda>ue'. Inr (ra_put_ue k ue' a1))))
         | _ \<Rightarrow> Inl Assert_failed))"

definition add_drb_am :: "int \<Rightarrow> int \<Rightarrow> nr_rlc_am_config \<Rightarrow> nr_rlc_bearer_config \<Rightarrow> rlc_api \<Rightarrow> rlc_api res" where
  "add_drb_am ueid drb_id am c a =
     rbind (rcheck (0 < drb_id \<and> drb_id \<le> int MAX_DRBS_PER_UE) Assert_failed) (\<lambda>_.
     rbind (decode_am_params am) (\<lambda>p. add_drb_entity ueid drb_id c (new_am_of p) a))"

definition add_drb_um :: "int \<Rightarrow> int \<Rightarrow> nr_rlc_um_config \<Rightarrow> nr_rlc_bearer_config \<Rightarrow> rlc_api \<Rightarrow> rlc_api res" where
  "add_drb_um ueid drb_id um c a =
     rbind (rcheck (0 < drb_id \<and> drb_id \<le> int MAX_DRBS_PER_UE) Assert_failed) (\<lambda>_.
     rbind (decode_um_params um) (\<lambda>p. add_drb_entity ueid drb_id c (new_um_of p) a))"

definition nr_rlc_add_drb :: "int \<Rightarrow> int \<Rightarrow> nr_rlc_bearer_config \<Rightarrow> rlc_api \<Rightarrow> rlc_api res" where
  "nr_rlc_add_drb ueid drb_id c a =
     rbind (c_deref (bc_rlc_Config c)) (\<lambda>r.
       case r of
         Config_am am \<Rightarrow> add_drb_am ueid drb_id am c a
       | Config_um_Bi_Directional um \<Rightarrow> add_drb_um ueid drb_id um c a
       | Config_other \<Rightarrow> Inl Exit_fatal)"

definition nr_rlc_activate_srb0 :: "int \<Rightarrow> nat \<Rightarrow> nat option \<Rightarrow> rlc_api \<Rightarrow> (bool \<times> rlc_api) res" where
  "nr_rlc_activate_srb0 ueid data send_initial_ul_rrc_message a =
     (case ra_get_ue ueid a of (k, a1) \<Rightarrow>
        if ue_srb0 (ra_ue k a1) \<noteq> None then Inr (False, a1)
        else
          rbind (new_nr_rlc_entity_tm 10000) (\<lambda>e.
          rbind (nr_rlc_ue_add_srb_rlc_entity (ra_ue k a1) 0 (Tm e)) (\<lambda>ue.
          Inr (True, ra_put_ue k (ue\<lparr>ue_srb0_data := Some \<lparr>s0_ue_id = ueid, s0_data = data,
                                         s0_send = send_initial_ul_rrc_message\<rparr>\<rparr>) a1))))"

section \<open>UEs\<close>

definition nr_rlc_remove_ue :: "int \<Rightarrow> rlc_api \<Rightarrow> rlc_api" where
  "nr_rlc_remove_ue ueid a =
     (case nr_rlc_manager_remove_ue (ra_manager a) ueid of (heaps, m) \<Rightarrow>
        a\<lparr>ra_manager := m, ra_deleted := ra_deleted a @ heaps\<rparr>)"

definition reestablish_slot :: "rlc_env \<Rightarrow> nat \<Rightarrow> rb_slot \<Rightarrow> rlc_api \<Rightarrow> rlc_api res" where
  "reestablish_slot env k slot a =
     (case slot_get slot (ra_ue k a) of
        None \<Rightarrow> Inr a
      | Some rb \<Rightarrow> rbind (ra_on_rb env k slot rb (\<lambda>rb. Inr ((), rlc_reestablishment rb)) a) (\<lambda>(_, a'). Inr a'))"

text \<open>Whether there is a UE with the new identifier already is not asked.\<close>

definition nr_rlc_update_id :: "rlc_env \<Rightarrow> int \<Rightarrow> int \<Rightarrow> rlc_api \<Rightarrow> (bool \<times> rlc_api) res" where
  "nr_rlc_update_id env from_id to_id a =
     (case ra_get_ue from_id a of (k, a1) \<Rightarrow>
        rbind (reestablish_slot env k (Slot_srb 0) (ra_put_ue k ((ra_ue k a1)\<lparr>ue_id := to_id\<rparr>) a1)) (\<lambda>a2.
        Inr (True, a2)))"

definition nr_rlc_test_trigger_reestablishment :: "rlc_env \<Rightarrow> int \<Rightarrow> rlc_api \<Rightarrow> rlc_api res" where
  "nr_rlc_test_trigger_reestablishment env ueid a =
     (case ra_get_ue ueid a of (k, a1) \<Rightarrow>
        rbind (c_deref (ue_srb (ra_ue k a1) ! 0)) (\<lambda>_.
        rbind (reestablish_slot env k (Slot_srb 0) a1) (\<lambda>a2. reestablish_slot env k (Slot_drb 0) a2)))"

section \<open>Statistics\<close>

text \<open>The logical channels are taken for the bearers 1 to 3 and 1 to 5, whatever \<open>lcid2rb\<close> says.\<close>

fun any_activate_avg :: "bool \<Rightarrow> rlc_entity_any \<Rightarrow> rlc_entity_any" where
  "any_activate_avg on (Am e) =
     Am (e\<lparr>avg_time_is_on := on, txsdu_avg_time_to_tx := time_average_reset (txsdu_avg_time_to_tx e)\<rparr>)"
| "any_activate_avg on (Um e) =
     Um (e\<lparr>avg_time_is_on := on, txsdu_avg_time_to_tx := time_average_reset (txsdu_avg_time_to_tx e)\<rparr>)"
| "any_activate_avg on (Tm e) =
     Tm (e\<lparr>avg_time_is_on := on, txsdu_avg_time_to_tx := time_average_reset (txsdu_avg_time_to_tx e)\<rparr>)"

definition nr_rlc_activate_avg_time_to_tx :: "rlc_env \<Rightarrow> int \<Rightarrow> nat \<Rightarrow> bool \<Rightarrow> rlc_api \<Rightarrow> rlc_api res" where
  "nr_rlc_activate_avg_time_to_tx env ueid channel_id is_on a =
     rbind (ra_on_slot env ueid
              (if 1 \<le> channel_id \<and> channel_id \<le> 3 then Some (Slot_srb (channel_id - 1))
               else if 4 \<le> channel_id \<and> channel_id \<le> 8 then Some (Slot_drb (channel_id - 4)) else None)
              () (\<lambda>rb. Inr ((), any_activate_avg is_on rb)) a)
       (\<lambda>(_, a'). Inr a')"

definition nr_rlc_get_statistics ::
  "rlc_env \<Rightarrow> u64 \<Rightarrow> int \<Rightarrow> bool \<Rightarrow> int \<Rightarrow> rlc_api \<Rightarrow> (nr_rlc_statistics option \<times> rlc_api) res" where
  "nr_rlc_get_statistics env now ueid srb_flag rb_id a =
     ra_on_slot env ueid (rb_slot_of srb_flag rb_id 2 5) None
       (\<lambda>rb. case nr_rlc_entity_get_stats rb now of
          (out, rb') \<Rightarrow>
            rbind (rlc_buffer_status rb' (1000 * 1000)) (\<lambda>b.
            Inr (Some (out\<lparr>rxbuf_occ_bytes := word_of_int (bs_status_size b),
                           txbuf_occ_bytes := word_of_int (bs_tx_size b + bs_retx_size b)\<rparr>), rb'))) a"

end
