(* ===== verification/Rlc_Layer.thy ===== *)
theory Rlc_Layer
  imports Rlc_Api Rlc_Am_Run
begin

text \<open>
  The RLC layer as a table of UEs and their bearers: an operation reaches the UE it names and no other,
  keeps the arrays and the modes of the bearers, and what it sends belongs to this UE; a bearer that has
  been set up is found by its logical channel.
\<close>

lemma find_first_le:
  assumes "P n" "1 \<le> n" "n < b"
  shows "\<exists>m. find P [1..<b] = Some m \<and> 1 \<le> m \<and> m \<le> n"
proof (cases "find P [1..<b]")
  case None
  then have "\<forall>x \<in> {1..<b}. \<not> P x" by (auto simp: find_None_iff)
  then show ?thesis using assms by simp
next
  case (Some m)
  then obtain i where i: "i < b - 1" "m = [1..<b] ! i" "\<forall>j < i. \<not> P ([1..<b] ! j)" by (auto simp: find_Some_iff)
  have "\<not> n - 1 < i"
  proof
    assume "n - 1 < i"
    moreover have "[1..<b] ! (n - 1) = n" using assms by simp
    ultimately show False using i(3) assms(1) by auto
  qed
  then show ?thesis using Some i(1,2) assms by auto
qed

section \<open>Entities of one mode\<close>

definition same_mode :: "rlc_entity_any \<Rightarrow> rlc_entity_any \<Rightarrow> bool" where
  "same_mode x y \<longleftrightarrow>
     (case (x, y) of (Am _, Am _) \<Rightarrow> True | (Um _, Um _) \<Rightarrow> True | (Tm _, Tm _) \<Rightarrow> True | _ \<Rightarrow> False)"

lemma same_mode_simps [simp]:
  "same_mode (Am e) y \<longleftrightarrow> (\<exists>f. y = Am f)" "same_mode (Um u) y \<longleftrightarrow> (\<exists>f. y = Um f)" "same_mode (Tm t) y \<longleftrightarrow> (\<exists>f. y = Tm f)"
  by (simp_all add: same_mode_def split: rlc_entity_any.split)

lemma same_mode_refl [simp]: "same_mode x x"
  by (cases x) simp_all

lemma same_mode_trans: "same_mode x y \<Longrightarrow> same_mode y z \<Longrightarrow> same_mode x z"
  by (cases x) auto

lemma same_mode_ops:
  "rlc_set_time x t = Inr y \<Longrightarrow> same_mode x y"
  "rlc_recv_pdu x buf = Inr y \<Longrightarrow> same_mode x y"
  "rlc_generate_pdu now x buf = Inr (n, b, y) \<Longrightarrow> same_mode x y"
  "rlc_recv_sdu now x buf i = Inr y \<Longrightarrow> same_mode x y"
  "same_mode x (rlc_reestablishment x)" "same_mode x (any_activate_avg on x)"
  "same_mode x (snd (nr_rlc_entity_get_stats x now))"
  by (cases x; auto simp: rbind_eq_Inr split: prod.splits)+

lemma same_mode_reconfigure: "reconfigure_any c x = Inr y \<Longrightarrow> same_mode x y"
  by (cases x) (auto simp: reconfigure_any_def any_am_reconfigure_def any_um_reconfigure_def rbind_eq_Inr
      split: option.splits nr_rlc_config.splits if_splits)

text \<open>\<open>mode_kept f\<close>: an operation on an entity keeps its mode.\<close>

definition mode_kept :: "(rlc_entity_any \<Rightarrow> ('x \<times> rlc_entity_any) res) \<Rightarrow> bool" where
  "mode_kept f \<longleftrightarrow> (\<forall>rb x rb'. f rb = Inr (x, rb') \<longrightarrow> same_mode rb rb')"

lemma mode_keptI: "(\<And>rb x rb'. f rb = Inr (x, rb') \<Longrightarrow> same_mode rb rb') \<Longrightarrow> mode_kept f"
  by (simp add: mode_kept_def)

lemma mode_keptD: "mode_kept f \<Longrightarrow> f rb = Inr (x, rb') \<Longrightarrow> same_mode rb rb'"
  by (simp add: mode_kept_def)

section \<open>The invariant of the table\<close>

text \<open>SRB0 is transparent, the other signalling bearers are acknowledged, the data bearers either but the first.\<close>

fun mode_of_slot :: "rb_slot \<Rightarrow> rlc_entity_any \<Rightarrow> bool" where
  "mode_of_slot Slot_srb0 rb = (case rb of Tm _ \<Rightarrow> True | _ \<Rightarrow> False)"
| "mode_of_slot (Slot_srb i) rb = (case rb of Am _ \<Rightarrow> True | _ \<Rightarrow> False)"
| "mode_of_slot (Slot_drb i) rb = (case rb of Tm _ \<Rightarrow> False | _ \<Rightarrow> True)"

fun slot_ok :: "rb_slot \<Rightarrow> bool" where
  "slot_ok Slot_srb0 = True"
| "slot_ok (Slot_srb i) = (i < 3)"
| "slot_ok (Slot_drb i) = (i < MAX_DRBS_PER_UE)"

definition rlc_ue_ok :: "nr_rlc_ue \<Rightarrow> bool" where
  "rlc_ue_ok ue \<longleftrightarrow>
     length (ue_srb ue) = 3 \<and> length (ue_drb ue) = MAX_DRBS_PER_UE \<and> length (ue_lcid2rb ue) = 32
     \<and> (\<forall>slot rb. slot_ok slot \<and> slot_get slot ue = Some rb \<longrightarrow> mode_of_slot slot rb)"

definition rlc_api_ok :: "rlc_api \<Rightarrow> bool" where
  "rlc_api_ok a \<longleftrightarrow> rlc_ues_distinct (ra_manager a) \<and> (\<forall>ue \<in> set (rm_ue_list (ra_manager a)). rlc_ue_ok ue)"

definition ra_table :: "rlc_api \<Rightarrow> int \<Rightarrow> nr_rlc_ue option" where
  "ra_table a = rlc_ue_map (ra_manager a)"

lemma mode_of_slot_same: "mode_of_slot slot rb \<Longrightarrow> same_mode rb rb' \<Longrightarrow> mode_of_slot slot rb'"
  by (cases slot; cases rb) auto

lemma slot_get_put:
  assumes "rlc_ue_ok ue" "slot_ok slot" "slot_ok t"
  shows "slot_get t (slot_put slot x ue) = (if t = slot then x else slot_get t ue)"
  using assms by (cases slot; cases t) (auto simp: rlc_ue_ok_def)

lemma slot_put_ok:
  assumes "rlc_ue_ok ue" "slot_ok slot" "\<And>rb. x = Some rb \<Longrightarrow> mode_of_slot slot rb"
  shows "rlc_ue_ok (slot_put slot x ue)"
proof -
  have "length (ue_srb (slot_put slot x ue)) = 3" "length (ue_drb (slot_put slot x ue)) = MAX_DRBS_PER_UE"
    "length (ue_lcid2rb (slot_put slot x ue)) = 32"
    using assms(1) by (cases slot; simp add: rlc_ue_ok_def)+
  moreover have "mode_of_slot t rb" if "slot_ok t" "slot_get t (slot_put slot x ue) = Some rb" for t rb
    using that assms by (auto simp: slot_get_put[OF assms(1,2) that(1)] rlc_ue_ok_def split: if_splits)
  ultimately show ?thesis by (simp add: rlc_ue_ok_def)
qed

lemma rlc_ue_ok_mode: "rlc_ue_ok ue \<Longrightarrow> slot_ok slot \<Longrightarrow> slot_get slot ue = Some rb \<Longrightarrow> mode_of_slot slot rb"
  by (auto simp: rlc_ue_ok_def)

lemma slot_put_id [simp]: "ue_id (slot_put slot x ue) = ue_id ue"
  by (cases slot) simp_all

text \<open>Fields beside the bearers.\<close>

lemma slot_get_other [simp]:
  "slot_get slot (ue\<lparr>ue_rlf_handler := h\<rparr>) = slot_get slot ue" "slot_get slot (ue\<lparr>ue_srb0_data := d\<rparr>) = slot_get slot ue"
  "slot_get slot (ue\<lparr>ue_lcid2rb := l\<rparr>) = slot_get slot ue" "slot_get slot (ue\<lparr>ue_id := i\<rparr>) = slot_get slot ue"
  by (cases slot; simp)+

lemma rlc_ue_ok_other [simp]:
  "rlc_ue_ok (ue\<lparr>ue_rlf_handler := h\<rparr>) = rlc_ue_ok ue" "rlc_ue_ok (ue\<lparr>ue_srb0_data := d\<rparr>) = rlc_ue_ok ue"
  "rlc_ue_ok (ue\<lparr>ue_id := i\<rparr>) = rlc_ue_ok ue"
  by (simp_all add: rlc_ue_ok_def)

lemma rlc_ue_ok_new: "rlc_ue_ok (new_rlc_ue i)"
proof -
  have "slot_get slot (new_rlc_ue i) = None" if "slot_ok slot" for slot
    using that by (cases slot) (simp_all add: new_rlc_ue_def)
  moreover have "length (ue_srb (new_rlc_ue i)) = 3" "length (ue_drb (new_rlc_ue i)) = MAX_DRBS_PER_UE"
    "length (ue_lcid2rb (new_rlc_ue i)) = 32" by (simp_all add: new_rlc_ue_def)
  ultimately show ?thesis by (auto simp: rlc_ue_ok_def)
qed

section \<open>One operation, one UE\<close>

text \<open>To which UE an event belongs. The receiver of a message from SRB0 gets the number the bearer was made with.\<close>

definition pdcp_number :: "rlc_env \<Rightarrow> bool \<Rightarrow> int \<Rightarrow> u64 option" where
  "pdcp_number env is_gnb i = (if is_gnb then map_option ucast (re_f1_secondary_ue env i) else Some (word_of_int i))"

fun rlc_event_of :: "rlc_env \<Rightarrow> bool \<Rightarrow> int \<Rightarrow> rlc_event \<Rightarrow> bool" where
  "rlc_event_of env is_gnb i (Nr_Pdcp_Data_Ind it) = (\<exists>n. pdcp_number env is_gnb i = Some n \<and> pi_ctxt it = ctxt_of is_gnb n)"
| "rlc_event_of env is_gnb i (Itti_F1ap_Ul_Rrc_Message n j rb_id buf) = (j = i \<and> pdcp_number env is_gnb i = Some n)"
| "rlc_event_of env is_gnb i (Gtpv1u_Send_Direct inst j rb_id buf) = (j = i)"
| "rlc_event_of env is_gnb i (Send_Initial_Ul_Rrc_Message f j buf d) = True"
| "rlc_event_of env is_gnb i (Rlf_Handler h j) = (j = i)"

definition ra_only :: "rlc_env \<Rightarrow> int set \<Rightarrow> rlc_api \<Rightarrow> rlc_api \<Rightarrow> bool" where
  "ra_only env U a a' \<longleftrightarrow>
     rlc_api_ok a' \<and> rm_mode (ra_manager a') = rm_mode (ra_manager a)
     \<and> (\<forall>v. v \<notin> U \<longrightarrow> ra_table a' v = ra_table a v)
     \<and> (\<exists>evs. ra_events a' = ra_events a @ evs
          \<and> (\<forall>ev \<in> set evs. \<exists>u \<in> U. rlc_event_of env (nr_rlc_manager_get_gnb_flag (ra_manager a)) u ev))"

lemma ra_only_refl: "rlc_api_ok a \<Longrightarrow> ra_only env U a a"
  by (simp add: ra_only_def)

lemma ra_only_trans: "ra_only env U a b \<Longrightarrow> ra_only env U b c \<Longrightarrow> ra_only env U a c"
  by (fastforce simp: ra_only_def nr_rlc_manager_get_gnb_flag_def)

lemma ra_only_mono: "ra_only env U a a' \<Longrightarrow> U \<subseteq> V \<Longrightarrow> ra_only env V a a'"
  by (fastforce simp: ra_only_def)

lemma ra_only_ok: "ra_only env U a a' \<Longrightarrow> rlc_api_ok a'"
  by (simp add: ra_only_def)

text \<open>Finding the UE.\<close>

lemma ra_get_ue_only:
  assumes "rlc_api_ok a" "ra_get_ue u a = (k, a1)"
  shows "ra_only env {u} a a1" "k < length (rm_ue_list (ra_manager a1))" "ue_id (ra_ue k a1) = u" "rlc_ue_ok (ra_ue k a1)"
    "ra_table a1 u = Some (ra_ue k a1)" "ra_time a1 = ra_time a" "ra_events a1 = ra_events a"
    "ra_manager a1 = snd (nr_rlc_manager_get_ue (ra_manager a) u)"
    "ra_table a u = None \<Longrightarrow> ra_ue k a1 = new_rlc_ue u" "ra_table a u = Some ue \<Longrightarrow> ra_ue k a1 = ue"
proof -
  obtain m where m: "nr_rlc_manager_get_ue (ra_manager a) u = (k, m)" "a1 = a\<lparr>ra_manager := m\<rparr>"
    using assms(2) by (auto simp: ra_get_ue_def split: prod.splits)
  have d: "distinct (map ue_id (rm_ue_list (ra_manager a)))" using assms(1) by (simp add: rlc_api_ok_def rlc_ues_distinct_def)
  note g = rlc_ues.get_map[OF d, of u, unfolded m(1) fst_conv snd_conv]
  have mgr: "ra_manager a1 = m" by (simp add: m(2))
  have tab: "ra_table a1 = (if ra_table a u = None then (ra_table a)(u \<mapsto> new_rlc_ue u) else ra_table a)"
    "ra_table a1 u = Some (ra_ue k a1)"
    using g unfolding ra_table_def rlc_ue_map_def mgr ra_ue_def by blast+
  have all: "rlc_ue_ok ue" if "ue \<in> set (rm_ue_list m)" for ue
    using that assms(1) m(1) rlc_ue_ok_new by (auto simp: nr_rlc_manager_get_ue_def Let_def rlc_api_ok_def split: if_splits)
  have "rm_mode m = rm_mode (ra_manager a)" using m(1) by (auto simp: nr_rlc_manager_get_ue_def Let_def split: if_splits)
  then show "ra_only env {u} a a1"
    using g all tab(1) by (auto simp: ra_only_def rlc_api_ok_def rlc_ues_distinct_def m(2))
  show k: "k < length (rm_ue_list (ra_manager a1))" using g by (simp add: m(2))
  show "ue_id (ra_ue k a1) = u"
    using ue_index_hit[of "\<lambda>ue. ue_id ue = u" "rm_ue_list m"] g rlc_ues.get_index[of m u]
    by (simp add: ra_ue_def m(2))
  show "rlc_ue_ok (ra_ue k a1)" using all k by (simp add: ra_ue_def m(2))
  show "ra_table a1 u = Some (ra_ue k a1)" "ra_time a1 = ra_time a" "ra_events a1 = ra_events a"
    "ra_manager a1 = snd (nr_rlc_manager_get_ue (ra_manager a) u)"
    using tab(2) by (simp_all add: m)
  show "ra_table a u = None \<Longrightarrow> ra_ue k a1 = new_rlc_ue u" "ra_table a u = Some ue \<Longrightarrow> ra_ue k a1 = ue"
    using tab by (auto split: if_splits)
qed

lemma ra_get_ue_found:
  assumes "rlc_api_ok a" "ra_table a u = Some ue"
  shows "\<exists>k. ra_get_ue u a = (k, a) \<and> ra_ue k a = ue"
proof -
  obtain k a1 where g: "ra_get_ue u a = (k, a1)" by fastforce
  have "u \<in> ue_id ` set (rm_ue_list (ra_manager a))"
    using assms(2) table_of_None[of ue_id "rm_ue_list (ra_manager a)" u] by (auto simp: ra_table_def rlc_ue_map_def)
  from rlc_ues.get_found[OF this] g have "a1 = a" by (auto simp: ra_get_ue_def split: prod.splits)
  then show ?thesis using g ra_get_ue_only(10)[OF assms(1) g assms(2)] by simp
qed

text \<open>Writing the UE back.\<close>

lemma ra_put_ue_simps [simp]:
  "ra_time (ra_put_ue k ue a) = ra_time a" "ra_events (ra_put_ue k ue a) = ra_events a"
  "rm_mode (ra_manager (ra_put_ue k ue a)) = rm_mode (ra_manager a)"
  "length (rm_ue_list (ra_manager (ra_put_ue k ue a))) = length (rm_ue_list (ra_manager a))"
  by (simp_all add: ra_put_ue_def)

lemma ra_put_ue_table:
  assumes "rlc_api_ok a" "k < length (rm_ue_list (ra_manager a))" "ue_id ue = ue_id (ra_ue k a)" "rlc_ue_ok ue"
  shows "ra_table (ra_put_ue k ue a) = (ra_table a)(ue_id ue \<mapsto> ue)" "rlc_api_ok (ra_put_ue k ue a)"
    "ra_ue k (ra_put_ue k ue a) = ue"
proof -
  let ?l = "rm_ue_list (ra_manager a)"
  have d: "distinct (map ue_id ?l)" using assms(1) by (simp add: rlc_api_ok_def rlc_ues_distinct_def)
  have id: "ue_id ue = ue_id (?l ! k)" using assms(3) by (simp add: ra_ue_def)
  note p = table_of_put[OF d assms(2) id]
  show "ra_table (ra_put_ue k ue a) = (ra_table a)(ue_id ue \<mapsto> ue)"
    using p(2) by (simp add: ra_table_def rlc_ue_map_def ra_put_ue_def)
  have "set (?l[k := ue]) \<subseteq> insert ue (set ?l)" by (rule set_update_subset_insert)
  then have "\<forall>x \<in> set (?l[k := ue]). rlc_ue_ok x" using assms(1,4) by (auto simp: rlc_api_ok_def)
  then show "rlc_api_ok (ra_put_ue k ue a)" using d p(1) by (simp add: rlc_api_ok_def rlc_ues_distinct_def ra_put_ue_def)
  show "ra_ue k (ra_put_ue k ue a) = ue" using assms(2) by (simp add: ra_ue_def ra_put_ue_def)
qed

lemma ra_put_ue_only:
  assumes "rlc_api_ok a" "k < length (rm_ue_list (ra_manager a))" "ue_id (ra_ue k a) = u" "ue_id ue = u" "rlc_ue_ok ue"
  shows "ra_only env {u} a (ra_put_ue k ue a)"
  using ra_put_ue_table[OF assms(1,2) _ assms(5)] assms(3,4) by (simp add: ra_only_def)

text \<open>The callbacks: what they send belongs to the UE.\<close>

lemma deliver_sdu_event:
  assumes "deliver_sdu env m ue slot buf = Inr ev"
  shows "rlc_event_of env (nr_rlc_manager_get_gnb_flag m) (ue_id ue) ev"
  using assms by (auto simp: deliver_sdu_def rbind_eq_Inr pdcp_number_def Let_def split: option.splits if_splits)

lemma callback_events_of:
  assumes "rlc_callback_events env m ue slot c = Inr evs" "ev \<in> set evs"
  shows "rlc_event_of env (nr_rlc_manager_get_gnb_flag m) (ue_id ue) ev"
  using assms by (cases c) (auto simp: rbind_eq_Inr deliver_sdu_srb0_def successful_delivery_def max_retx_reached_def
      split: if_splits option.splits intro: deliver_sdu_event)

lemma callbacks_events_of:
  assumes "rlc_callbacks_events env m ue slot cs = Inr evs" "ev \<in> set evs"
  shows "rlc_event_of env (nr_rlc_manager_get_gnb_flag m) (ue_id ue) ev"
  using assms by (induction cs arbitrary: evs) (auto simp: rbind_eq_Inr intro: callback_events_of)

lemma ra_on_rb_only:
  assumes ok: "rlc_api_ok a" and k: "k < length (rm_ue_list (ra_manager a))" "ue_id (ra_ue k a) = u"
    and slot: "slot_ok slot" "slot_get slot (ra_ue k a) = Some rb" "mode_kept f"
    and run: "ra_on_rb env k slot rb f a = Inr (x, a')"
  shows "ra_only env {u} a a'"
proof -
  obtain rb' evs where r: "f rb = Inr (x, rb')" "rlc_callbacks_events env (ra_manager a) (ra_ue k a) slot
      (drop (length (any_callbacks rb)) (any_callbacks rb')) = Inr evs"
    "a' = (ra_put_ue k (slot_put slot (Some rb') (ra_ue k a)) a)\<lparr>ra_events := ra_events a @ evs\<rparr>"
    using run by (auto simp: ra_on_rb_def rbind_eq_Inr)
  have ue: "rlc_ue_ok (ra_ue k a)" using ok k(1) by (simp add: rlc_api_ok_def ra_ue_def)
  have "mode_of_slot slot rb'"
    using mode_of_slot_same[OF rlc_ue_ok_mode[OF ue slot(1,2)] mode_keptD[OF slot(3) r(1)]] .
  then have "rlc_ue_ok (slot_put slot (Some rb') (ra_ue k a))" by (intro slot_put_ok[OF ue slot(1)]) simp
  from ra_put_ue_only[OF ok k _ this] have "ra_only env {u} a (ra_put_ue k (slot_put slot (Some rb') (ra_ue k a)) a)"
    by (simp add: k(2))
  then show ?thesis
    using callbacks_events_of[OF r(2)] by (auto simp: r(3) ra_only_def rlc_api_ok_def ra_table_def k(2))
qed

lemma lcid_entity_slot:
  assumes "rlc_ue_ok ue" "lcid_entity ue ch = Inr (Some (slot, rb))"
  shows "slot_ok slot" "slot_get slot ue = Some rb"
proof -
  have s: "get_rlc_entity_from_lcid ue ch = Inr (Some slot)" "slot_get slot ue = Some rb"
    using assms(2) by (auto simp: lcid_entity_def rbind_eq_Inr split: option.splits)
  then show "slot_get slot ue = Some rb" by simp
  show "slot_ok slot"
  proof (cases "ch = 0")
    case True
    then show ?thesis using s(1) by (auto simp: get_rlc_entity_from_lcid_def)
  next
    case False
    then obtain b where b: "(case b of NR_RLC_NONE \<Rightarrow> Inr None
        | NR_RLC_SRB i \<Rightarrow> if i \<le> 0 then Inl Assert_failed else rbind (srb_slot (i - 1)) (\<lambda>s. Inr (Some s))
        | NR_RLC_DRB i \<Rightarrow> rbind (drb_slot (i - 1)) (\<lambda>s. Inr (Some s))) = Inr (Some slot)"
      using s(1) by (auto simp: get_rlc_entity_from_lcid_def rbind_eq_Inr)
    then show ?thesis
      by (cases b) (auto simp: rbind_eq_Inr srb_slot_def drb_slot_def split: if_splits)
  qed
qed

lemma ra_on_lcid_only:
  assumes ok: "rlc_api_ok a" and f: "mode_kept f" and run: "ra_on_lcid env u ch none f a = Inr (x, a')"
  shows "ra_only env {u} a a'"
proof -
  obtain k a1 where g: "ra_get_ue u a = (k, a1)" by fastforce
  note o = ra_get_ue_only[OF ok g]
  obtain r where r: "lcid_entity (ra_ue k a1) ch = Inr r"
    "(case r of None \<Rightarrow> Inr (none, a1) | Some (slot, rb) \<Rightarrow> ra_on_rb env k slot rb f a1) = Inr (x, a')"
    using run by (auto simp: ra_on_lcid_def g rbind_eq_Inr)
  show ?thesis
  proof (cases r)
    case None
    then show ?thesis using r(2) o(1) by simp
  next
    case (Some p)
    obtain slot rb where p: "p = (slot, rb)" by (cases p)
    note s = lcid_entity_slot[OF o(4) r(1)[unfolded Some p]]
    from ra_on_rb_only[OF ra_only_ok[OF o(1)] o(2,3) s f] r(2) show ?thesis
      using ra_only_trans[OF o(1)] by (auto simp: Some p)
  qed
qed

lemma ra_on_slot_only:
  assumes ok: "rlc_api_ok a" and f: "mode_kept f" and s: "\<And>slot. s = Some slot \<Longrightarrow> slot_ok slot"
    and run: "ra_on_slot env u s none f a = Inr (x, a')"
  shows "ra_only env {u} a a'"
proof -
  obtain k a1 where g: "ra_get_ue u a = (k, a1)" by fastforce
  note o = ra_get_ue_only[OF ok g]
  consider "a' = a1" | slot rb where "s = Some slot" "slot_get slot (ra_ue k a1) = Some rb"
      "ra_on_rb env k slot rb f a1 = Inr (x, a')"
    using run by (auto simp: ra_on_slot_def g split: option.splits)
  then show ?thesis
  proof cases
    case 1
    then show ?thesis using o(1) by simp
  next
    case 2
    from ra_on_rb_only[OF ra_only_ok[OF o(1)] o(2,3) s[OF 2(1)] 2(2) f 2(3)] show ?thesis by (rule ra_only_trans[OF o(1)])
  qed
qed

lemma api_mode_kept:
  "mode_kept (\<lambda>rb. rbind (rlc_set_time rb now) (\<lambda>rb1. rbind (rlc_recv_pdu rb1 buffer) (\<lambda>rb2. Inr ((), rb2))))"
  "mode_kept (\<lambda>rb. rbind (rlc_set_time rb now) (\<lambda>rb1. rbind (rlc_generate_pdu t rb1 buffer) (\<lambda>(n, b, rb2). Inr ((n, b), rb2))))"
  "mode_kept (\<lambda>rb. rbind (rlc_set_time rb now) (\<lambda>rb1. rbind (bytes_in_buffer rb1) (\<lambda>n. Inr (n, rb1))))"
  "mode_kept (\<lambda>rb. Inr (rlc_available_tx_space rb, rb))"
  "mode_kept (rlc_recv_at t now sdu i)" "mode_kept (\<lambda>rb. Inr ((), rlc_reestablishment rb))"
  "mode_kept (\<lambda>rb. rbind (reconfigure_any c rb) (\<lambda>rb'. Inr ((), rb')))"
  "mode_kept (\<lambda>rb. Inr ((), any_activate_avg on rb))"
  by (rule mode_keptI;
      auto simp: rbind_eq_Inr rlc_recv_at_def same_mode_ops(5,6) same_mode_reconfigure
        dest!: same_mode_ops(1-4) intro: same_mode_trans)+

lemma stats_mode_kept:
  "mode_kept (\<lambda>rb. case nr_rlc_entity_get_stats rb now of
          (out, rb') \<Rightarrow>
            rbind (rlc_buffer_status rb' (1000 * 1000)) (\<lambda>b.
            Inr (Some (out\<lparr>rxbuf_occ_bytes := word_of_int (bs_status_size b),
                           txbuf_occ_bytes := word_of_int (bs_tx_size b + bs_retx_size b)\<rparr>), rb')))"
proof (rule mode_keptI)
  fix rb x rb'
  assume "(case nr_rlc_entity_get_stats rb now of
          (out, rb') \<Rightarrow>
            rbind (rlc_buffer_status rb' (1000 * 1000)) (\<lambda>b.
            Inr (Some (out\<lparr>rxbuf_occ_bytes := word_of_int (bs_status_size b),
                           txbuf_occ_bytes := word_of_int (bs_tx_size b + bs_retx_size b)\<rparr>), rb'))) = Inr (x, rb')"
  then have "rb' = snd (nr_rlc_entity_get_stats rb now)" by (auto simp: rbind_eq_Inr split: prod.splits)
  then show "same_mode rb rb'" using same_mode_ops(7) by simp
qed

lemma rb_slot_of_ok:
  "rb_slot_of srb i 2 (int MAX_DRBS_PER_UE) = Some slot \<Longrightarrow> slot_ok slot"
  "rb_slot_of srb i 2 5 = Some slot \<Longrightarrow> slot_ok slot"
  by (auto simp: rb_slot_of_def MAX_DRBS_PER_UE_def split: if_splits)

lemma data_ops_only:
  assumes "rlc_api_ok a"
  shows "nr_mac_rlc_data_ind env u ch buffer a = Inr a' \<Longrightarrow> ra_only env {u} a a'"
    "nr_mac_rlc_data_req env now u ch buffer a = Inr (r, a') \<Longrightarrow> ra_only env {u} a a'"
    "nr_mac_rlc_status_ind env u ch a = Inr (q, a') \<Longrightarrow> ra_only env {u} a a'"
    "nr_rlc_get_available_tx_space env u ch a = Inr (n, a') \<Longrightarrow> ra_only env {u} a a'"
    "nr_rlc_data_req env now ctxt srb_flag rb_id mui sdu a = Inr a' \<Longrightarrow>
       ra_only env {sint (ucast (pc_rntiMaybeUEid ctxt) :: u32)} a a'"
    "nr_rlc_reestablish_entity env u lc a = Inr a' \<Longrightarrow> ra_only env {u} a a'"
    "nr_rlc_activate_avg_time_to_tx env u ch on a = Inr a' \<Longrightarrow> ra_only env {u} a a'"
    "nr_rlc_get_statistics env now u srb_flag rb_id a = Inr (s, a') \<Longrightarrow> ra_only env {u} a a'"
proof -
  note l = ra_on_lcid_only[OF assms]
  show "nr_mac_rlc_data_ind env u ch buffer a = Inr a' \<Longrightarrow> ra_only env {u} a a'"
    by (auto simp: nr_mac_rlc_data_ind_def rbind_eq_Inr dest: l[OF api_mode_kept(1)])
  show "nr_mac_rlc_data_req env now u ch buffer a = Inr (r, a') \<Longrightarrow> ra_only env {u} a a'"
    unfolding nr_mac_rlc_data_req_def by (rule l[OF api_mode_kept(2)])
  show "nr_mac_rlc_status_ind env u ch a = Inr (q, a') \<Longrightarrow> ra_only env {u} a a'"
    by (auto simp: nr_mac_rlc_status_ind_def rbind_eq_Inr dest: l[OF api_mode_kept(3)])
  show "nr_rlc_get_available_tx_space env u ch a = Inr (n, a') \<Longrightarrow> ra_only env {u} a a'"
    unfolding nr_rlc_get_available_tx_space_def by (rule l[OF api_mode_kept(4)])
  show "nr_rlc_data_req env now ctxt srb_flag rb_id mui sdu a = Inr a' \<Longrightarrow>
       ra_only env {sint (ucast (pc_rntiMaybeUEid ctxt) :: u32)} a a'"
    unfolding nr_rlc_data_req_def rbind_eq_Inr
    by (auto elim!: ra_on_slot_only[OF assms api_mode_kept(5), rotated -1] rb_slot_of_ok(1))
  show "nr_rlc_reestablish_entity env u lc a = Inr a' \<Longrightarrow> ra_only env {u} a a'"
    by (auto simp: nr_rlc_reestablish_entity_def rbind_eq_Inr dest: l[OF api_mode_kept(6)])
  show "nr_rlc_activate_avg_time_to_tx env u ch on a = Inr a' \<Longrightarrow> ra_only env {u} a a'"
    by (auto simp: nr_rlc_activate_avg_time_to_tx_def rbind_eq_Inr MAX_DRBS_PER_UE_def
        dest!: ra_on_slot_only[OF assms api_mode_kept(8), rotated] split: if_splits)
  show "nr_rlc_get_statistics env now u srb_flag rb_id a = Inr (s, a') \<Longrightarrow> ra_only env {u} a a'"
    unfolding nr_rlc_get_statistics_def
    by (erule ra_on_slot_only[OF assms stats_mode_kept rb_slot_of_ok(2), rotated -1])
qed

lemma ra_set_ue_only:
  assumes "rlc_api_ok a" "ra_get_ue u a = (k, a1)" "ue_id ue = u" "rlc_ue_ok ue"
  shows "ra_only env {u} a (ra_put_ue k ue a1)"
  using ra_get_ue_only(1-3)[OF assms(1,2)] ra_put_ue_only[OF ra_only_ok _ _ assms(3,4)] ra_only_trans by blast

lemma ra_on_ue_only:
  assumes ok: "rlc_api_ok a" and g: "ra_get_ue u a = (k, a1)" and f: "mode_kept f" and slot: "slot_ok slot" "slot_get slot (ra_ue k a1) = Some rb"
    and run: "ra_on_rb env k slot rb f a1 = Inr (x, a')"
  shows "ra_only env {u} a a'"
  using ra_get_ue_only(1-3)[OF ok g] ra_on_rb_only[OF ra_only_ok _ _ slot f run] ra_only_trans by blast

lemma srb_recv_sdu_only:
  assumes "rlc_api_ok a" "nr_rlc_srb_recv_sdu env now u ch sdu a = Inr a'"
  shows "ra_only env {u} a a'"
proof -
  obtain k a1 where g: "ra_get_ue u a = (k, a1)" by fastforce
  obtain slot rb where s: "(if ch = 0 then Inr Slot_srb0 else srb_slot (int ch - 1)) = Inr slot"
    "slot_get slot (ra_ue k a1) = Some rb" "ra_on_rb env k slot rb (rlc_recv_at now (ra_time a) sdu (- 1)) a1 = Inr ((), a')"
    using assms(2) by (auto simp: nr_rlc_srb_recv_sdu_def g rbind_eq_Inr split: option.splits)
  have "slot_ok slot" using s(1) by (auto simp: srb_slot_def split: if_splits)
  from ra_on_ue_only[OF assms(1) g api_mode_kept(5) this s(2,3)] show ?thesis .
qed

lemma reconfigure_only:
  assumes "rlc_api_ok a" "nr_rlc_reconfigure_entity env u lc c a = Inr a'"
  shows "ra_only env {u} a a'"
proof -
  obtain k a1 where g: "ra_get_ue u a = (k, a1)" by fastforce
  obtain slot rb where s: "lcid_entity (ra_ue k a1) (lcid_of_int lc) = Inr (Some (slot, rb))"
    "ra_on_rb env k slot rb (\<lambda>rb. rbind (reconfigure_any c rb) (\<lambda>rb'. Inr ((), rb'))) a1 = Inr ((), a')"
    using assms(2) by (auto simp: nr_rlc_reconfigure_entity_def g rbind_eq_Inr c_deref_def split: option.splits)
  note o = lcid_entity_slot[OF ra_get_ue_only(4)[OF assms(1) g] s(1)]
  from ra_on_ue_only[OF assms(1) g api_mode_kept(7) o s(2)] show ?thesis .
qed

lemma release_only:
  assumes "rlc_api_ok a" "nr_rlc_release_entity u ch a = Inr a'"
  shows "ra_only env {u} a a'"
proof -
  obtain k a1 where g: "ra_get_ue u a = (k, a1)" by fastforce
  note o = ra_get_ue_only[OF assms(1) g]
  obtain heaps ue where r: "a' = (ra_put_ue k ue a1)\<lparr>ra_deleted := ra_deleted a1 @ heaps\<rparr>"
    "(if ch = 0 then Inr (delete_all [ue_srb0 (ra_ue k a1)], (ra_ue k a1)\<lparr>ue_srb0 := None, ue_srb0_data := None\<rparr>)
      else release_rlc_entity_from_lcid (ra_ue k a1) ch) = Inr (heaps, ue)"
    using assms(2) by (auto simp: nr_rlc_release_entity_def g rbind_eq_Inr)
  have "ue = (slot_put Slot_srb0 None (ra_ue k a1))\<lparr>ue_srb0_data := None\<rparr> \<or> ue = ra_ue k a1
      \<or> (\<exists>slot. slot_ok slot \<and> ue = slot_put slot None (ra_ue k a1))"
  proof (cases "ch = 0")
    case True
    then show ?thesis using r(2) by auto
  next
    case False
    then obtain b where b: "lcid_rb ch (ra_ue k a1) = Inr b"
      using r(2) by (auto simp: release_rlc_entity_from_lcid_def rbind_eq_Inr)
    have "\<exists>slot. slot_ok slot \<and> ue = slot_put slot None (ra_ue k a1)"
      if "(if srb then srb_slot i else drb_slot i) = Inr slot" "ue = slot_put slot None (ra_ue k a1)" for srb i slot
      using that by (intro exI[of _ slot]) (auto simp: srb_slot_def drb_slot_def split: if_splits)
    note put = this[of True] this[of False]
    show ?thesis
    proof (cases b)
      case NR_RLC_NONE
      then show ?thesis using r(2) False b by (simp add: release_rlc_entity_from_lcid_def rcheck_def)
    next
      case (NR_RLC_SRB i)
      then obtain slot where "srb_slot (i - 1) = Inr slot" "ue = slot_put slot None (ra_ue k a1)"
        using r(2) False b by (auto simp: release_rlc_entity_from_lcid_def rcheck_def rbind_eq_Inr split: if_splits)
      then show ?thesis using put(1)[of "i - 1"] by simp
    next
      case (NR_RLC_DRB i)
      then obtain slot where "drb_slot (i - 1) = Inr slot" "ue = slot_put slot None (ra_ue k a1)"
        using r(2) False b by (auto simp: release_rlc_entity_from_lcid_def rcheck_def rbind_eq_Inr split: if_splits)
      then show ?thesis using put(2)[of "i - 1"] by simp
    qed
  qed
  then have "rlc_ue_ok ue \<and> ue_id ue = u"
    using o(3,4) slot_put_ok[OF o(4), of _ None] slot_put_ok[OF o(4), of Slot_srb0 None] by auto
  then have "ra_only env {u} a (ra_put_ue k ue a1)" using ra_set_ue_only[OF assms(1) g] by blast
  then show ?thesis by (simp add: r(1) ra_only_def rlc_api_ok_def ra_table_def)
qed

lemma set_lcid2rb_ok:
  assumes "set_lcid2rb i rb ue = Inr ue'" "rlc_ue_ok ue"
  shows "rlc_ue_ok ue'" "ue_id ue' = ue_id ue" "slot_get slot ue' = slot_get slot ue"
    "0 \<le> i" "i < 32" "ue_lcid2rb ue' = (ue_lcid2rb ue)[nat i := rb]"
  using assms by (auto simp: set_lcid2rb_def rlc_ue_ok_def split: if_splits)

text \<open>Bearers that are added.\<close>

lemma new_am_mode: "new_am_of p = Inr rb \<Longrightarrow> \<exists>e. rb = Am e"
  by (auto simp: new_am_of_def rbind_eq_Inr)

lemma new_um_mode: "new_um_of p = Inr rb \<Longrightarrow> \<exists>e. rb = Um e"
  by (auto simp: new_um_of_def rbind_eq_Inr)

lemma add_rb_put:
  "nr_rlc_ue_add_srb_rlc_entity ue i e = Inr ue' \<Longrightarrow> 0 < i \<Longrightarrow> i < 4 \<Longrightarrow>
     ue' = slot_put (Slot_srb (nat (i - 1))) (Some e) ue"
  "nr_rlc_ue_add_drb_rlc_entity ue i e = Inr ue' \<Longrightarrow>
     ue' = slot_put (Slot_drb (nat (i - 1))) (Some e) ue \<and> 0 < i \<and> i \<le> int MAX_DRBS_PER_UE"
  by (auto simp: nr_rlc_ue_add_srb_rlc_entity_def nr_rlc_ue_add_drb_rlc_entity_def Let_def split: if_splits)

text \<open>The result of adding a bearer: the entry of its logical channel and, if it was not there, its entity.\<close>

definition bearer_added :: "int \<Rightarrow> rb_slot \<Rightarrow> int \<Rightarrow> nr_rlc_rb \<Rightarrow> rlc_entity_any res \<Rightarrow> rlc_api \<Rightarrow> rlc_api \<Rightarrow> bool" where
  "bearer_added u slot lcid b new a a' \<longleftrightarrow>
     (\<exists>k a1 ue. ra_get_ue u a = (k, a1) \<and> set_lcid2rb (lcid - 1) b (ra_ue k a1) = Inr ue
        \<and> (if slot_get slot ue \<noteq> None then a' = ra_put_ue k ue a1
           else \<exists>e. new = Inr e \<and> a' = ra_put_ue k (slot_put slot (Some e) ue) a1))"

lemma bearer_added_only:
  assumes ok: "rlc_api_ok a" and add: "bearer_added u slot lcid b new a a'"
    and slot: "slot_ok slot" "\<And>e. new = Inr e \<Longrightarrow> mode_of_slot slot e"
  shows "ra_only env {u} a a'"
proof -
  obtain k a1 ue where g: "ra_get_ue u a = (k, a1)" "set_lcid2rb (lcid - 1) b (ra_ue k a1) = Inr ue"
    "if slot_get slot ue \<noteq> None then a' = ra_put_ue k ue a1
     else \<exists>e. new = Inr e \<and> a' = ra_put_ue k (slot_put slot (Some e) ue) a1"
    using add unfolding bearer_added_def by blast
  note o = ra_get_ue_only[OF ok g(1)]
  note l = set_lcid2rb_ok[OF g(2) o(4)]
  have "\<exists>ue'. a' = ra_put_ue k ue' a1 \<and> ue_id ue' = u \<and> rlc_ue_ok ue'"
  proof (cases "slot_get slot ue")
    case None
    then obtain e where e: "new = Inr e" "a' = ra_put_ue k (slot_put slot (Some e) ue) a1" using g(3) by auto
    have "rlc_ue_ok (slot_put slot (Some e) ue)" using slot(2)[OF e(1)] by (intro slot_put_ok[OF l(1) slot(1)]) simp
    then show ?thesis using e(2) l(2) o(3) by auto
  next
    case (Some rb)
    then show ?thesis using g(3) l(1,2) o(3) by auto
  qed
  then show ?thesis using ra_set_ue_only[OF ok g(1)] by blast
qed

lemma add_srb_added:
  assumes "nr_rlc_add_srb u i c a = Inr a'"
  shows "0 < i" "i < 4"
    "\<exists>p j. (case bc_rlc_Config c of Some (Config_am am) \<Rightarrow> decode_am_params am | _ \<Rightarrow> Inr am_default_params) = Inr p
       \<and> bc_servedRadioBearer c = Some (Served_srb j)
       \<and> bearer_added u (Slot_srb (nat (i - 1))) (bc_logicalChannelIdentity c) (NR_RLC_SRB j) (new_am_of p) a a'"
proof -
  obtain k a1 where g: "ra_get_ue u a = (k, a1)" by fastforce
  let ?p = "case bc_rlc_Config c of Some (Config_am am) \<Rightarrow> decode_am_params am | _ \<Rightarrow> Inr am_default_params"
  have i: "0 < i" "i < 4" using assms by (auto simp: nr_rlc_add_srb_def rcheck_def split: if_splits)
  obtain p where p: "?p = Inr p" using assms i unfolding nr_rlc_add_srb_def rbind_eq_Inr by blast
  obtain j where j: "bc_servedRadioBearer c = Some (Served_srb j)"
    using assms i unfolding nr_rlc_add_srb_def p rbind_Inr g prod.case
    by (cases "bc_servedRadioBearer c"; cases "the (bc_servedRadioBearer c)") (auto simp: rcheck_def)
  note r = i p j
  obtain ue where ue: "set_lcid2rb (bc_logicalChannelIdentity c - 1) (NR_RLC_SRB j) (ra_ue k a1) = Inr ue"
    "(if ue_srb ue ! nat (i - 1) \<noteq> None then Inr (ra_put_ue k ue a1)
      else rbind (new_am_of p) (\<lambda>e. rbind (nr_rlc_ue_add_srb_rlc_entity ue i e) (\<lambda>ue'. Inr (ra_put_ue k ue' a1)))) = Inr a'"
    using assms i unfolding nr_rlc_add_srb_def p rbind_Inr g prod.case by (auto simp: j rcheck_def rbind_eq_Inr)
  show "0 < i" "i < 4" using r by simp_all
  have "bearer_added u (Slot_srb (nat (i - 1))) (bc_logicalChannelIdentity c) (NR_RLC_SRB j) (new_am_of p) a a'"
    unfolding bearer_added_def using g ue add_rb_put(1)[OF _ r(1,2)]
    by (intro exI[of _ k] exI[of _ a1] exI[of _ ue]) (auto simp: rbind_eq_Inr split: if_splits)
  then show "\<exists>p j. (case bc_rlc_Config c of Some (Config_am am) \<Rightarrow> decode_am_params am | _ \<Rightarrow> Inr am_default_params) = Inr p
       \<and> bc_servedRadioBearer c = Some (Served_srb j)
       \<and> bearer_added u (Slot_srb (nat (i - 1))) (bc_logicalChannelIdentity c) (NR_RLC_SRB j) (new_am_of p) a a'"
    using r(3,4) by blast
qed

lemma add_drb_entity_added:
  assumes "add_drb_entity u i c new a = Inr a'" "0 < i \<and> i \<le> int MAX_DRBS_PER_UE"
  shows "\<exists>j. bc_servedRadioBearer c = Some (Served_drb j)
       \<and> bearer_added u (Slot_drb (nat (i - 1))) (bc_logicalChannelIdentity c) (NR_RLC_DRB j) new a a'"
proof -
  obtain k a1 where g: "ra_get_ue u a = (k, a1)" by fastforce
  obtain j ue where ue: "bc_servedRadioBearer c = Some (Served_drb j)"
    "set_lcid2rb (bc_logicalChannelIdentity c - 1) (NR_RLC_DRB j) (ra_ue k a1) = Inr ue"
    "(if ue_drb ue ! nat (i - 1) \<noteq> None then Inr (ra_put_ue k ue a1)
      else rbind new (\<lambda>e. rbind (nr_rlc_ue_add_drb_rlc_entity ue i e) (\<lambda>ue'. Inr (ra_put_ue k ue' a1)))) = Inr a'"
    using assms(1) by (auto simp: add_drb_entity_def rbind_eq_Inr g split: option.splits served_radio_bearer.splits)
  have "bearer_added u (Slot_drb (nat (i - 1))) (bc_logicalChannelIdentity c) (NR_RLC_DRB j) new a a'"
    unfolding bearer_added_def using g ue(2,3) add_rb_put(2)[of ue i]
    by (intro exI[of _ k] exI[of _ a1] exI[of _ ue]) (auto simp: rbind_eq_Inr split: if_splits)
  then show ?thesis using ue(1) by blast
qed

definition bearer_entity :: "nr_rlc_config option \<Rightarrow> rlc_entity_any res" where
  "bearer_entity c =
     (case c of
        Some (Config_am am) \<Rightarrow> rbind (decode_am_params am) new_am_of
      | Some (Config_um_Bi_Directional um) \<Rightarrow> rbind (decode_um_params um) new_um_of
      | _ \<Rightarrow> Inl Exit_fatal)"

lemma bearer_entity_mode: "bearer_entity c = Inr rb \<Longrightarrow> mode_of_slot (Slot_drb i) rb"
  by (auto simp: bearer_entity_def rbind_eq_Inr split: option.splits nr_rlc_config.splits dest!: new_am_mode new_um_mode)

lemma add_drb_added:
  assumes "nr_rlc_add_drb u i c a = Inr a'"
  shows "0 < i \<and> i \<le> int MAX_DRBS_PER_UE"
    "\<exists>j. bc_servedRadioBearer c = Some (Served_drb j)
       \<and> bearer_added u (Slot_drb (nat (i - 1))) (bc_logicalChannelIdentity c) (NR_RLC_DRB j) (bearer_entity (bc_rlc_Config c)) a a'"
proof -
  have "0 < i \<and> i \<le> int MAX_DRBS_PER_UE \<and> add_drb_entity u i c (bearer_entity (bc_rlc_Config c)) a = Inr a'"
    using assms by (auto simp: nr_rlc_add_drb_def rbind_eq_Inr c_deref_def bearer_entity_def add_drb_am_def add_drb_um_def
        rcheck_def split: option.splits nr_rlc_config.splits if_splits)
  then show "0 < i \<and> i \<le> int MAX_DRBS_PER_UE"
    "\<exists>j. bc_servedRadioBearer c = Some (Served_drb j)
       \<and> bearer_added u (Slot_drb (nat (i - 1))) (bc_logicalChannelIdentity c) (NR_RLC_DRB j) (bearer_entity (bc_rlc_Config c)) a a'"
    using add_drb_entity_added by blast+
qed

lemma add_rb_only:
  assumes "rlc_api_ok a"
  shows "nr_rlc_add_srb u i c a = Inr a' \<Longrightarrow> ra_only env {u} a a'"
    "nr_rlc_add_drb u i c a = Inr a' \<Longrightarrow> ra_only env {u} a a'"
proof -
  assume r: "nr_rlc_add_srb u i c a = Inr a'"
  obtain p j where "bearer_added u (Slot_srb (nat (i - 1))) (bc_logicalChannelIdentity c) (NR_RLC_SRB j) (new_am_of p) a a'"
    using add_srb_added(3)[OF r] by blast
  then show "ra_only env {u} a a'"
    by (rule bearer_added_only[OF assms]) (use add_srb_added(1,2)[OF r] in \<open>auto dest: new_am_mode\<close>)
next
  assume r: "nr_rlc_add_drb u i c a = Inr a'"
  obtain j where "bearer_added u (Slot_drb (nat (i - 1))) (bc_logicalChannelIdentity c) (NR_RLC_DRB j) (bearer_entity (bc_rlc_Config c)) a a'"
    using add_drb_added(2)[OF r] by blast
  then show "ra_only env {u} a a'"
    by (rule bearer_added_only[OF assms]) (use add_drb_added(1)[OF r] in \<open>auto dest: bearer_entity_mode simp del: mode_of_slot.simps\<close>)
qed

lemma activate_srb0_only:
  assumes "rlc_api_ok a" "nr_rlc_activate_srb0 u data f a = Inr (r, a')"
  shows "ra_only env {u} a a'"
proof -
  obtain k a1 where g: "ra_get_ue u a = (k, a1)" by fastforce
  note o = ra_get_ue_only[OF assms(1) g]
  show ?thesis
  proof (cases "ue_srb0 (ra_ue k a1)")
    case None
    then obtain e ue where e: "nr_rlc_ue_add_srb_rlc_entity (ra_ue k a1) 0 (Tm e) = Inr ue"
      "a' = ra_put_ue k (ue\<lparr>ue_srb0_data := Some \<lparr>s0_ue_id = u, s0_data = data, s0_send = f\<rparr>\<rparr>) a1"
      using assms(2) by (auto simp: nr_rlc_activate_srb0_def g rbind_eq_Inr)
    have "ue = slot_put Slot_srb0 (Some (Tm e)) (ra_ue k a1)"
      using e(1) by (auto simp: nr_rlc_ue_add_srb_rlc_entity_def split: if_splits)
    then have "rlc_ue_ok ue \<and> ue_id ue = u" using slot_put_ok[OF o(4), of Slot_srb0 "Some (Tm e)"] o(3) by auto
    then show ?thesis unfolding e(2) by (intro ra_set_ue_only[OF assms(1) g]) simp_all
  next
    case (Some rb)
    then show ?thesis using assms(2) o(1) by (simp add: nr_rlc_activate_srb0_def g)
  qed
qed

lemma remove_ue_only:
  assumes "rlc_api_ok a"
  shows "ra_only env {u} a (nr_rlc_remove_ue u a)" "ra_table (nr_rlc_remove_ue u a) u = None"
proof -
  obtain heaps m where r: "nr_rlc_manager_remove_ue (ra_manager a) u = (heaps, m)" by fastforce
  have d: "distinct (map ue_id (rm_ue_list (ra_manager a)))" using assms by (simp add: rlc_api_ok_def rlc_ues_distinct_def)
  note rm = rlc_ues.rem_map[OF d, of u, unfolded r snd_conv]
  have "set (rm_ue_list m) \<subseteq> set (rm_ue_list (ra_manager a))" "rm_mode m = rm_mode (ra_manager a)"
    using r table_of_without(3)[OF d, of u]
    by (auto simp: nr_rlc_manager_remove_ue_def Let_def without_def split: if_splits)
  then show "ra_only env {u} a (nr_rlc_remove_ue u a)" "ra_table (nr_rlc_remove_ue u a) u = None"
    using rm assms
    by (auto simp: nr_rlc_remove_ue_def r ra_only_def rlc_api_ok_def rlc_ues_distinct_def ra_table_def rlc_ue_map_def)
qed

lemma reestablish_slot_only:
  assumes ok: "rlc_api_ok a" and k: "k < length (rm_ue_list (ra_manager a))" "ue_id (ra_ue k a) = u" "slot_ok slot"
    and run: "reestablish_slot env k slot a = Inr a'"
  shows "ra_only env {u} a a'"
proof (cases "slot_get slot (ra_ue k a)")
  case None
  then show ?thesis using run ok by (simp add: reestablish_slot_def ra_only_refl)
next
  case (Some rb)
  then have "ra_on_rb env k slot rb (\<lambda>rb. Inr ((), rlc_reestablishment rb)) a = Inr ((), a')"
    using run by (auto simp: reestablish_slot_def rbind_eq_Inr)
  from ra_on_rb_only[OF ok k(1,2,3) Some api_mode_kept(6) this] show ?thesis .
qed

lemma ra_on_rb_place:
  assumes "ra_on_rb env k slot rb f a = Inr (x, a')" "k < length (rm_ue_list (ra_manager a))"
  shows "length (rm_ue_list (ra_manager a')) = length (rm_ue_list (ra_manager a))" "ue_id (ra_ue k a') = ue_id (ra_ue k a)"
  using assms by (auto simp: ra_on_rb_def rbind_eq_Inr ra_put_ue_def ra_ue_def)

lemma test_trigger_only:
  assumes "rlc_api_ok a" "nr_rlc_test_trigger_reestablishment env u a = Inr a'"
  shows "ra_only env {u} a a'"
proof -
  obtain k a1 where g: "ra_get_ue u a = (k, a1)" by fastforce
  note o = ra_get_ue_only[OF assms(1) g]
  obtain a2 where a2: "reestablish_slot env k (Slot_srb 0) a1 = Inr a2" "reestablish_slot env k (Slot_drb 0) a2 = Inr a'"
    using assms(2) by (auto simp: nr_rlc_test_trigger_reestablishment_def g rbind_eq_Inr)
  have "k < length (rm_ue_list (ra_manager a2)) \<and> ue_id (ra_ue k a2) = u"
    using a2(1) ra_on_rb_place o(2,3) by (fastforce simp: reestablish_slot_def rbind_eq_Inr split: option.splits)
  moreover have one: "ra_only env {u} a1 a2"
    by (rule reestablish_slot_only[OF ra_only_ok[OF o(1)] o(2,3) _ a2(1)]) simp
  ultimately have "ra_only env {u} a2 a'"
    by (intro reestablish_slot_only[OF ra_only_ok[OF one] _ _ _ a2(2)]) (simp_all add: MAX_DRBS_PER_UE_def)
  then show ?thesis using ra_only_trans[OF ra_only_trans[OF o(1) one]] by simp
qed

text \<open>A new identifier: the entry moves, provided no other UE has it.\<close>

lemma table_of_rekey:
  assumes "distinct (map key l)" "k < length l" "key x \<notin> key ` set l"
  shows "distinct (map key (l[k := x]))"
    "v \<noteq> key x \<Longrightarrow> v \<noteq> key (l ! k) \<Longrightarrow> table_of key (l[k := x]) v = table_of key l v"
proof -
  have "distinct ((map key l)[k := key x])" using assms by (intro distinct_list_update) auto
  then show "distinct (map key (l[k := x]))" by (simp add: map_update)
  show "v \<noteq> key x \<Longrightarrow> v \<noteq> key (l ! k) \<Longrightarrow> table_of key (l[k := x]) v = table_of key l v"
    using assms(2) by (induction l arbitrary: k) (auto simp: nth_Cons split: nat.splits)
qed

lemma update_id_only:
  assumes ok: "rlc_api_ok a" and new: "to_id = from_id \<or> ra_table a to_id = None"
    and run: "nr_rlc_update_id env from_id to_id a = Inr (r, a')"
  shows "ra_only env {from_id, to_id} a a'"
proof -
  obtain k a1 where g: "ra_get_ue from_id a = (k, a1)" by fastforce
  note o = ra_get_ue_only[OF ok g]
  define ue where "ue = (ra_ue k a1)\<lparr>ue_id := to_id\<rparr>"
  define a2 where "a2 = ra_put_ue k ue a1"
  have k: "ra_ue k a2 = ue" "k < length (rm_ue_list (ra_manager a2))" using o(2) by (simp_all add: a2_def ra_ue_def ra_put_ue_def)
  have "rlc_ue_ok ue" using o(4) by (simp add: ue_def)
  have ok1: "rlc_api_ok a1" by (rule ra_only_ok[OF o(1)])
  have "ra_only env {from_id, to_id} a1 a2"
  proof (cases "to_id = from_id")
    case True
    then show ?thesis
      using ra_put_ue_only[OF ok1 o(2,3) _ \<open>rlc_ue_ok ue\<close>] by (simp add: a2_def ue_def)
  next
    case False
    let ?l = "rm_ue_list (ra_manager a1)"
    have "ra_table a1 to_id = None" using o(1) new False by (simp add: ra_only_def)
    then have no: "ue_id ue \<notin> ue_id ` set ?l" by (simp add: ra_table_def rlc_ue_map_def table_of_None ue_def)
    have d: "distinct (map ue_id ?l)" using ok1 by (simp add: rlc_api_ok_def rlc_ues_distinct_def)
    note re = table_of_rekey[OF d o(2) no]
    have "\<forall>x \<in> set (?l[k := ue]). rlc_ue_ok x"
      using set_update_subset_insert[of ?l k ue] ok1 \<open>rlc_ue_ok ue\<close> by (auto simp: rlc_api_ok_def)
    then show ?thesis
      using re o(3)
      by (auto simp: ra_only_def rlc_api_ok_def rlc_ues_distinct_def ra_table_def rlc_ue_map_def a2_def ra_put_ue_def ue_def ra_ue_def)
  qed
  note one = this
  have "reestablish_slot env k (Slot_srb 0) a2 = Inr a'"
    using run by (auto simp: nr_rlc_update_id_def g rbind_eq_Inr a2_def ue_def)
  then have "ra_only env {to_id} a2 a'"
    by (intro reestablish_slot_only[OF ra_only_ok[OF one] k(2)]) (simp_all add: k(1) ue_def)
  from ra_only_mono[OF this] ra_only_mono[OF o(1)]
  have "ra_only env {from_id, to_id} a2 a'" "ra_only env {from_id, to_id} a a1" by blast+
  then show ?thesis using one ra_only_trans by blast
qed

lemma set_rlf_handler_only: "rlc_api_ok a \<Longrightarrow> ra_only env {u} a (nr_rlc_set_rlf_handler u h a)"
proof -
  assume ok: "rlc_api_ok a"
  obtain k a1 where g: "ra_get_ue u a = (k, a1)" by fastforce
  note o = ra_get_ue_only[OF ok g]
  have "ra_only env {u} a (ra_put_ue k ((ra_ue k a1)\<lparr>ue_rlf_handler := h\<rparr>) a1)"
    by (rule ra_set_ue_only[OF ok g]) (use o(3,4) in simp_all)
  then show ?thesis by (simp add: nr_rlc_set_rlf_handler_def g)
qed

lemma get_lcid_from_rb_only:
  assumes "rlc_api_ok a" "nr_rlc_get_lcid_from_rb u srb i a = (n, a')"
  shows "ra_only env {u} a a'"
proof -
  obtain k a1 where g: "ra_get_ue u a = (k, a1)" by fastforce
  then have "a' = a1" using assms(2) by (auto simp: nr_rlc_get_lcid_from_rb_def Let_def)
  then show ?thesis using ra_get_ue_only(1)[OF assms(1) g] by simp
qed

section \<open>All runs\<close>

text \<open>
  The calls of the layer and the UEs they name, with any arguments. A new identifier must be free: the
  callers in the F1 handlers remove the UE that has it first.
\<close>

inductive rlc_api_step :: "rlc_env \<Rightarrow> int set \<Rightarrow> rlc_api \<Rightarrow> rlc_api \<Rightarrow> bool" for env :: rlc_env where
  "nr_mac_rlc_data_ind env u ch buffer a = Inr a' \<Longrightarrow> rlc_api_step env {u} a a'"
| "nr_mac_rlc_data_req env now u ch buffer a = Inr (r, a') \<Longrightarrow> rlc_api_step env {u} a a'"
| "nr_mac_rlc_status_ind env u ch a = Inr (q, a') \<Longrightarrow> rlc_api_step env {u} a a'"
| "nr_rlc_get_available_tx_space env u ch a = Inr (n, a') \<Longrightarrow> rlc_api_step env {u} a a'"
| "nr_rlc_data_req env now ctxt srb_flag rb_id mui sdu a = Inr a' \<Longrightarrow>
     rlc_api_step env {sint (ucast (pc_rntiMaybeUEid ctxt) :: u32)} a a'"
| "nr_rlc_srb_recv_sdu env now u ch sdu a = Inr a' \<Longrightarrow> rlc_api_step env {u} a a'"
| "nr_rlc_get_lcid_from_rb u srb i a = (lc, a') \<Longrightarrow> rlc_api_step env {u} a a'"
| "nr_rlc_release_entity u ch a = Inr a' \<Longrightarrow> rlc_api_step env {u} a a'"
| "rlc_api_step env {u} a (nr_rlc_set_rlf_handler u h a)"
| "nr_rlc_reestablish_entity env u lc' a = Inr a' \<Longrightarrow> rlc_api_step env {u} a a'"
| "nr_rlc_reconfigure_entity env u lc' c a = Inr a' \<Longrightarrow> rlc_api_step env {u} a a'"
| "nr_rlc_add_srb u i bc a = Inr a' \<Longrightarrow> rlc_api_step env {u} a a'"
| "nr_rlc_add_drb u i bc a = Inr a' \<Longrightarrow> rlc_api_step env {u} a a'"
| "nr_rlc_activate_srb0 u d f a = Inr (b, a') \<Longrightarrow> rlc_api_step env {u} a a'"
| "rlc_api_step env {u} a (nr_rlc_remove_ue u a)"
| "to_id = from_id \<or> ra_table a to_id = None \<Longrightarrow> nr_rlc_update_id env from_id to_id a = Inr (b, a') \<Longrightarrow>
     rlc_api_step env {from_id, to_id} a a'"
| "nr_rlc_test_trigger_reestablishment env u a = Inr a' \<Longrightarrow> rlc_api_step env {u} a a'"
| "nr_rlc_activate_avg_time_to_tx env u ch on a = Inr a' \<Longrightarrow> rlc_api_step env {u} a a'"
| "nr_rlc_get_statistics env now u srb_flag rb_id a = Inr (s, a') \<Longrightarrow> rlc_api_step env {u} a a'"
| "rlc_api_step env {} a (nr_rlc_ms_tick a)"

lemma rlc_api_step_only:
  assumes "rlc_api_step env U a a'" "rlc_api_ok a"
  shows "ra_only env U a a'"
  using assms(1)
proof cases
  case 16
  then show ?thesis using update_id_only[OF assms(2)] by blast
next
  case 20
  then show ?thesis using assms(2) by (simp add: nr_rlc_ms_tick_def ra_only_def rlc_api_ok_def ra_table_def)
qed (auto intro: data_ops_only[OF assms(2)] srb_recv_sdu_only[OF assms(2)] get_lcid_from_rb_only[OF assms(2)]
    release_only[OF assms(2)] set_rlf_handler_only[OF assms(2)] reconfigure_only[OF assms(2)] add_rb_only[OF assms(2)]
    activate_srb0_only[OF assms(2)] remove_ue_only(1)[OF assms(2)] test_trigger_only[OF assms(2)])

text \<open>The runs from the initialisation on.\<close>

inductive rlc_api_run :: "rlc_env \<Rightarrow> rlc_api \<Rightarrow> bool" for env :: rlc_env where
  created: "nr_rlc_module_init mode s = Inr s' \<Longrightarrow> mo_api s = None \<Longrightarrow> mo_api s' = Some a \<Longrightarrow> rlc_api_run env a"
| step: "rlc_api_run env a \<Longrightarrow> rlc_api_step env U a a' \<Longrightarrow> rlc_api_run env a'"

lemma rlc_api_run_ok: "rlc_api_run env a \<Longrightarrow> rlc_api_ok a"
proof (induction rule: rlc_api_run.induct)
  case (created mode s s' a)
  then show ?case
    by (auto simp: nr_rlc_module_init_def Let_def rlc_api_ok_def rlc_ues_distinct_def new_nr_rlc_ue_manager_def split: if_splits)
next
  case (step a U a')
  then show ?case using ra_only_ok[OF rlc_api_step_only] by blast
qed

section \<open>Callbacks that end the program\<close>

definition is_delivery :: "rlc_callback \<Rightarrow> bool" where
  "is_delivery c = (case c of Deliver_sdu _ \<Rightarrow> True | _ \<Rightarrow> False)"

lemma callback_events_cases:
  assumes "slot_ok slot" "slot \<noteq> Slot_srb0" "pdcp_number env (nr_rlc_manager_get_gnb_flag m) (ue_id ue) \<noteq> None"
  shows "slot = Slot_srb 2 \<and> \<not> is_delivery c \<Longrightarrow> rlc_callback_events env m ue slot c = Inl Exit_fatal"
    "\<not> (slot = Slot_srb 2 \<and> \<not> is_delivery c) \<Longrightarrow> \<exists>evs. rlc_callback_events env m ue slot c = Inr evs"
proof -
  have "\<exists>ev. deliver_sdu env m ue slot buf = Inr ev" for buf
    using assms by (cases slot) (auto simp: deliver_sdu_def find_rb_def pdcp_number_def Let_def split: option.splits)
  moreover have find: "slot = Slot_srb 2 \<Longrightarrow> find_rb 2 slot = Inl Exit_fatal"
    "slot \<noteq> Slot_srb 2 \<Longrightarrow> \<exists>r. find_rb 2 slot = Inr r"
    using assms(1,2) by (cases slot; auto simp: find_rb_def)+
  ultimately show "slot = Slot_srb 2 \<and> \<not> is_delivery c \<Longrightarrow> rlc_callback_events env m ue slot c = Inl Exit_fatal"
    and "\<not> (slot = Slot_srb 2 \<and> \<not> is_delivery c) \<Longrightarrow> \<exists>evs. rlc_callback_events env m ue slot c = Inr evs"
  proof -
    show "slot = Slot_srb 2 \<and> \<not> is_delivery c \<Longrightarrow> rlc_callback_events env m ue slot c = Inl Exit_fatal"
      using find(1) by (cases c) (auto simp: is_delivery_def successful_delivery_def max_retx_reached_def)
    assume "\<not> (slot = Slot_srb 2 \<and> \<not> is_delivery c)"
    then consider buf where "c = Deliver_sdu buf" | r where "find_rb 2 slot = Inr r" "\<not> is_delivery c" using find(2) by (cases c) (auto simp: is_delivery_def)
    then show "\<exists>evs. rlc_callback_events env m ue slot c = Inr evs"
    proof cases
      case 1
      obtain ev where "deliver_sdu env m ue slot buf = Inr ev" using \<open>\<And>buf. \<exists>ev. deliver_sdu env m ue slot buf = Inr ev\<close> by blast
      then show ?thesis using assms(2) by (simp add: 1)
    next
      case 2
      then show ?thesis
        using assms(2) by (cases c) (auto simp: is_delivery_def successful_delivery_def max_retx_reached_def)
    qed
  qed
qed

lemma callbacks_events_cases:
  assumes "slot_ok slot" "slot \<noteq> Slot_srb0" "pdcp_number env (nr_rlc_manager_get_gnb_flag m) (ue_id ue) \<noteq> None"
  shows "if slot = Slot_srb 2 \<and> (\<exists>c \<in> set cs. \<not> is_delivery c)
    then rlc_callbacks_events env m ue slot cs = Inl Exit_fatal
    else \<exists>evs. rlc_callbacks_events env m ue slot cs = Inr evs"
proof (induction cs)
  case (Cons c cs)
  show ?case
  proof (cases "slot = Slot_srb 2 \<and> \<not> is_delivery c")
    case True
    then show ?thesis using callback_events_cases(1)[OF assms] by auto
  next
    case False
    then obtain evs where "rlc_callback_events env m ue slot c = Inr evs" using callback_events_cases(2)[OF assms] by blast
    then show ?thesis using Cons False by (auto split: if_splits)
  qed
qed simp

section \<open>Properties\<close>


definition empty_rlc :: "nr_rlc_op_mode \<Rightarrow> rlc_api" where
  "empty_rlc mode = \<lparr>ra_manager = new_nr_rlc_ue_manager mode, ra_time = 0, ra_events = [], ra_deleted = []\<rparr>"

lemma empty_rlc_run: "rlc_api_run env (empty_rlc mode)"
  by (rule rlc_api_run.created[of mode "\<lparr>mo_inited = False, mo_inited_ue = False, mo_api = None\<rparr>"])
    (auto simp: nr_rlc_module_init_def empty_rlc_def Let_def)

text \<open>A UE with one acknowledged bearer, DRB \<open>i\<close> on the logical channel \<open>lc\<close>.\<close>

definition am_bearer_config :: "int \<Rightarrow> int \<Rightarrow> nr_rlc_bearer_config" where
  "am_bearer_config i lc =
     \<lparr>bc_logicalChannelIdentity = lc, bc_servedRadioBearer = Some (Served_drb i),
      bc_rlc_Config = Some (Config_am \<lparr>ac_ul_sn_FieldLength = Some 0, ac_t_PollRetransmit = 8, ac_pollPDU = 4,
        ac_pollByte = 43, ac_maxRetxThreshold = 7, ac_dl_sn_FieldLength = Some 0, ac_t_Reassembly = 15,
        ac_t_StatusProhibit = 0\<rparr>)\<rparr>"


text \<open>
  C31: a data bearer that is added is reached through its logical channel. With a bearer and a channel in
  range and a configuration that decodes, \<open>nr_rlc_add_drb\<close> returns; the channel then leads to the entity
  of the bearer, the one that was there before or a fresh one with the decoded parameters; all other
  bearers of the UE are as before; and the first channel of the bearer is this one or a smaller one.
\<close>

theorem rlc_added_drb_is_found:
  assumes "rlc_api_run env a" "0 < i" "i \<le> int MAX_DRBS_PER_UE" "0 < bc_logicalChannelIdentity c" "bc_logicalChannelIdentity c \<le> 32"
    "bc_servedRadioBearer c = Some (Served_drb i)" "bearer_entity (bc_rlc_Config c) = Inr new"
  shows "\<exists>a' ue e lc.
     nr_rlc_add_drb u i c a = Inr a' \<and> ra_table a' u = Some ue
     \<and> (let old = (case ra_table a u of None \<Rightarrow> new_rlc_ue u | Some ue0 \<Rightarrow> ue0)
        in e = (case slot_get (Slot_drb (nat (i - 1))) old of None \<Rightarrow> new | Some e0 \<Rightarrow> e0)
           \<and> (\<forall>t. slot_ok t \<and> t \<noteq> Slot_drb (nat (i - 1)) \<longrightarrow> slot_get t ue = slot_get t old))
     \<and> lcid_entity ue (nat (bc_logicalChannelIdentity c)) = Inr (Some (Slot_drb (nat (i - 1)), e))
     \<and> nr_rlc_get_lcid_from_rb u False i a' = (lc, a') \<and> 0 < lc \<and> int lc \<le> bc_logicalChannelIdentity c"
proof -
  let ?slot = "Slot_drb (nat (i - 1))" and ?lc = "bc_logicalChannelIdentity c"
  have ok: "rlc_api_ok a" by (rule rlc_api_run_ok[OF assms(1)])
  obtain k a1 where g: "ra_get_ue u a = (k, a1)" by fastforce
  note o = ra_get_ue_only[OF ok g]
  have old: "ra_ue k a1 = (case ra_table a u of None \<Rightarrow> new_rlc_ue u | Some ue0 \<Rightarrow> ue0)" using o(9,10) by (auto split: option.splits)
  have slot: "slot_ok ?slot" using assms(2,3) by auto
  obtain ue1 where ue1: "set_lcid2rb (?lc - 1) (NR_RLC_DRB i) (ra_ue k a1) = Inr ue1" using assms(4,5) by (simp add: set_lcid2rb_def)
  note l = set_lcid2rb_ok[OF ue1 o(4)]
  define e where "e = (case slot_get ?slot (ra_ue k a1) of None \<Rightarrow> new | Some e0 \<Rightarrow> e0)"
  define ue where "ue = slot_put ?slot (Some e) ue1"
  have same: "ue = ue1" if "slot_get ?slot (ra_ue k a1) = Some e0" for e0
    using that l(3)[of ?slot] list_update_id[of "ue_drb ue1" "nat (i - 1)"] by (simp add: ue_def e_def)
  define a' where "a' = ra_put_ue k ue a1"
  have mode: "mode_of_slot ?slot e"
    using rlc_ue_ok_mode[OF o(4) slot] bearer_entity_mode[OF assms(7)] unfolding e_def by (cases "slot_get ?slot (ra_ue k a1)") simp_all
  have ueok: "rlc_ue_ok ue" unfolding ue_def by (rule slot_put_ok[OF l(1) slot]) (use mode in simp)
  have id: "ue_id ue = u" using l(2) o(3) by (simp add: ue_def)
  note put = ra_put_ue_table[OF ra_only_ok[OF o(1)] o(2) _ ueok, folded a'_def]
  have tab: "ra_table a' u = Some ue" using put(1) id o(3) by simp
  have "nr_rlc_add_drb u i c a = add_drb_entity u i c (Inr new) a"
    using assms(2,3,7) by (auto simp: nr_rlc_add_drb_def bearer_entity_def c_deref_def add_drb_am_def add_drb_um_def rcheck_def
        rbind_eq_Inr split: option.splits nr_rlc_config.splits)
  also have "\<dots> = Inr a'"
  proof (cases "slot_get ?slot (ra_ue k a1)")
    case None
    then have "ue_drb ue1 ! nat (i - 1) = None" using l(3)[of ?slot] by simp
    then show ?thesis
      using None assms(2,3) ue1 by (simp add: add_drb_entity_def g assms(6) nr_rlc_ue_add_drb_rlc_entity_def a'_def ue_def e_def)
  next
    case (Some e0)
    then have "ue_drb ue1 ! nat (i - 1) \<noteq> None" using l(3)[of ?slot] by simp
    then show ?thesis using ue1 same[OF Some] by (simp add: add_drb_entity_def g assms(6) a'_def)
  qed
  finally have add: "nr_rlc_add_drb u i c a = Inr a'" .
  have lcids: "ue_lcid2rb ue = (ue_lcid2rb (ra_ue k a1))[nat (?lc - 1) := NR_RLC_DRB i]" using l(6) by (simp add: ue_def)
  have at: "ue_lcid2rb ue ! (nat ?lc - 1) = NR_RLC_DRB i"
    using o(4) assms(4,5) by (simp add: lcids rlc_ue_ok_def nat_diff_distrib)
  have "lcid_entity ue (nat ?lc) = Inr (Some (?slot, e))"
    using at assms(2-5) slot_get_put[OF l(1) slot slot] 
    by (simp add: lcid_entity_def get_rlc_entity_from_lcid_def lcid_rb_def drb_slot_def ue_def)
  moreover have "slot_get t ue = slot_get t (ra_ue k a1)" if "slot_ok t" "t \<noteq> ?slot" for t
    using slot_get_put[OF l(1) slot that(1)] that(2) l(3) by (simp add: ue_def)
  moreover obtain lc where "nr_rlc_get_lcid_from_rb u False i a' = (lc, a')" "0 < lc" "int lc \<le> ?lc"
  proof -
    have b: "1 \<le> nat ?lc" "nat ?lc < 33" using assms(4,5) by linarith+
    obtain k2 where "ra_get_ue u a' = (k2, a')" "ra_ue k2 a' = ue" using ra_get_ue_found[OF put(2) tab] id o(3) by auto
    moreover obtain lc where "find (\<lambda>n. ue_lcid2rb ue ! (n - 1) = NR_RLC_DRB i) [1..<33] = Some lc" "1 \<le> lc" "lc \<le> nat ?lc"
      using find_first_le[of "\<lambda>n. ue_lcid2rb ue ! (n - 1) = NR_RLC_DRB i", OF at b] by blast
    ultimately show thesis using that by (simp add: nr_rlc_get_lcid_from_rb_def)
  qed
  ultimately show ?thesis using add tab unfolding Let_def old[symmetric] e_def[symmetric] by blast
qed

theorem rlc_added_drb_is_found_witness:
  "\<exists>a' ue e. nr_rlc_add_drb 1 3 (am_bearer_config 3 5) (empty_rlc NR_RLC_OP_MODE_UE) = Inr a'
     \<and> ra_table a' 1 = Some ue \<and> lcid_entity ue 5 = Inr (Some (Slot_drb 2, e))"
proof -
  have "\<not> isl (bearer_entity (bc_rlc_Config (am_bearer_config 3 5)))" by code_simp
  then obtain new where new: "bearer_entity (bc_rlc_Config (am_bearer_config 3 5)) = Inr new"
    by (cases "bearer_entity (bc_rlc_Config (am_bearer_config 3 5))") auto
  show ?thesis
    using rlc_added_drb_is_found[OF empty_rlc_run[of undefined NR_RLC_OP_MODE_UE] _ _ _ _ _ new, of 3 1]
    by (auto simp: am_bearer_config_def MAX_DRBS_PER_UE_def)
qed

text \<open>
  C36: an acknowledgement on SRB 3 ends the program. When an entity of a bearer other than SRB 0 has taken
  a PDU, \<open>nr_mac_rlc_data_ind\<close> exits if the bearer is SRB 3 and the entity has reported an acknowledged
  SDU or too many retransmissions, and returns in every other case: \<open>successful_delivery\<close> and
  \<open>max_retx_reached\<close> look for the entity among the first two signalling bearers only.
\<close>

theorem rlc_srb3_report_is_fatal:
  assumes "rlc_api_ok a" "ra_table a u = Some ue" "lcid_entity ue ch = Inr (Some (slot, rb))" "slot \<noteq> Slot_srb0"
    "rlc_set_time rb (ra_time a) = Inr rb1" "rlc_recv_pdu rb1 pdu = Inr rb2"
    "pdcp_number env (nr_rlc_manager_get_gnb_flag (ra_manager a)) u \<noteq> None"
  shows "if slot = Slot_srb 2 \<and> (\<exists>c \<in> set (drop (length (any_callbacks rb)) (any_callbacks rb2)). \<not> is_delivery c)
    then nr_mac_rlc_data_ind env u ch pdu a = Inl Exit_fatal
    else \<exists>a'. nr_mac_rlc_data_ind env u ch pdu a = Inr a'"
proof -
  obtain k where g: "ra_get_ue u a = (k, a)" "ra_ue k a = ue" using ra_get_ue_found[OF assms(1,2)] by blast
  note o = ra_get_ue_only(3,4)[OF assms(1) g(1), unfolded g(2)]
  let ?cs = "drop (length (any_callbacks rb)) (any_callbacks rb2)"
  have eq: "nr_mac_rlc_data_ind env u ch pdu a
      = rbind (rlc_callbacks_events env (ra_manager a) ue slot ?cs)
          (\<lambda>evs. Inr ((ra_put_ue k (slot_put slot (Some rb2) ue) a)\<lparr>ra_events := ra_events a @ evs\<rparr>))"
    using assms(3,5,6) g by (cases "rlc_callbacks_events env (ra_manager a) ue slot ?cs")
      (simp_all add: nr_mac_rlc_data_ind_def ra_on_lcid_def ra_on_rb_def)
  have "if slot = Slot_srb 2 \<and> (\<exists>c \<in> set ?cs. \<not> is_delivery c)
      then rlc_callbacks_events env (ra_manager a) ue slot ?cs = Inl Exit_fatal
      else \<exists>evs. rlc_callbacks_events env (ra_manager a) ue slot ?cs = Inr evs"
    using assms(7) by (intro callbacks_events_cases[OF lcid_entity_slot(1)[OF o(2) assms(3)] assms(4)]) (simp add: o(1))
  then show ?thesis
    by (cases "slot = Slot_srb 2 \<and> (\<exists>c \<in> set ?cs. \<not> is_delivery c)";
        simp only: if_True if_False) (use eq in auto)
qed

text \<open>SRB 3 of a UE that has sent an SDU and, when its poll timer has expired, sent it again.\<close>

lemma srb3_entity:
  "rbind (new_nr_rlc_entity_am 1000 1000 5 35 0 (- 1) (- 1) 1 12) (\<lambda>e0.
   rbind (nr_rlc_entity_am_set_time e0 1) (\<lambda>e1.
   rbind (nr_rlc_entity_am_recv_sdu 0 e1 [7, 8] 0) (\<lambda>e2.
   rbind (nr_rlc_entity_am_generate_pdu 0 e2 (replicate 10 0)) (\<lambda>(_, _, e3).
   rbind (nr_rlc_entity_am_set_time e3 10) (\<lambda>e4.
   rbind (nr_rlc_entity_am_generate_pdu 0 e4 (replicate 10 0)) (\<lambda>(_, _, e).
   rbind (nr_rlc_entity_am_set_time e 20) (\<lambda>e'.
   rbind (nr_rlc_entity_am_recv_pdu e' []) (\<lambda>e''.
   rcheck (list_ex (\<lambda>c. \<not> is_delivery c) (drop (length (callbacks e)) (callbacks e''))) Exit_fatal)))))))) = Inr ()"
  by code_simp

definition srb3_api :: "nr_rlc_entity_am \<Rightarrow> rlc_api" where
  "srb3_api e = (empty_rlc NR_RLC_OP_MODE_UE)\<lparr>ra_time := 20, ra_manager :=
     \<lparr>rm_ue_list = [slot_put (Slot_srb 2) (Some (Am e))
         ((new_rlc_ue 1)\<lparr>ue_lcid2rb := (replicate 32 NR_RLC_NONE)[2 := NR_RLC_SRB 3]\<rparr>)], rm_mode = NR_RLC_OP_MODE_UE\<rparr>\<rparr>"

theorem rlc_srb3_report_is_fatal_witness:
  "\<exists>e. rlc_api_ok (srb3_api e)
     \<and> nr_mac_rlc_data_ind \<lparr>re_DUuniqInstance = 0, re_f1_secondary_ue = Map.empty\<rparr> 1 3 [] (srb3_api e) = Inl Exit_fatal"
proof -
  obtain e e1 e2 where e: "nr_rlc_entity_am_set_time e 20 = Inr e1" "nr_rlc_entity_am_recv_pdu e1 [] = Inr e2"
    "list_ex (\<lambda>c. \<not> is_delivery c) (drop (length (callbacks e)) (callbacks e2))"
    using srb3_entity by (auto simp: rbind_eq_Inr rcheck_def split: if_splits)
  let ?base = "(new_rlc_ue 1)\<lparr>ue_lcid2rb := (replicate 32 NR_RLC_NONE)[2 := NR_RLC_SRB 3]\<rparr>"
  let ?ue = "slot_put (Slot_srb 2) (Some (Am e)) ?base"
  have ue0: "rlc_ue_ok ?base" using rlc_ue_ok_new[of 1] by (simp add: rlc_ue_ok_def)
  have ue: "rlc_ue_ok ?ue" by (rule slot_put_ok[OF ue0]) auto
  have ok: "rlc_api_ok (srb3_api e)"
    unfolding srb3_api_def rlc_api_ok_def rlc_ues_distinct_def using ue by (simp del: slot_put.simps)
  have tab: "ra_table (srb3_api e) 1 = Some ?ue" "ra_time (srb3_api e) = 20" "\<not> nr_rlc_manager_get_gnb_flag (ra_manager (srb3_api e))"
    by (simp_all add: srb3_api_def ra_table_def rlc_ue_map_def empty_rlc_def nr_rlc_manager_get_gnb_flag_def new_rlc_ue_def)
  have found: "lcid_entity ?ue 3 = Inr (Some (Slot_srb 2, Am e))"
    using slot_get_put[OF ue0, of "Slot_srb 2" "Slot_srb 2" "Some (Am e)"]
    by (simp add: lcid_entity_def get_rlc_entity_from_lcid_def lcid_rb_def srb_slot_def)
  have "rlc_set_time (Am e) (ra_time (srb3_api e)) = Inr (Am e1)" "rlc_recv_pdu (Am e1) [] = Inr (Am e2)"
    using e(1,2) tab(2) by simp_all
  from rlc_srb3_report_is_fatal[OF ok tab(1) found _ this] show ?thesis
    using e(3) ok tab(3) by (auto simp: pdcp_number_def list_ex_iff)
qed

end
