(* ===== verification/Rlc_Bearer_Link.thy ===== *)
theory Rlc_Bearer_Link
  imports Rlc_Am_Link Rlc_Layer
begin

text \<open>
  Two RLC layers and a data bearer between them, from \<open>nr_rlc_data_req\<close> at one side to the indication to
  PDCP at the other: the API finds the entity of the bearer, brings its clock up to date and calls it, so
  a run of the two layers is a run of the two entities of \<open>Rlc_Am_Link\<close>, whatever other UEs and other
  bearers of the same UE do in between.
\<close>

section \<open>What the clock leaves alone\<close>

definition am_clock_view :: "nr_rlc_entity_am \<Rightarrow> _" where
  "am_clock_view e = (am_sn_field_length e, am_sn_modulus e, am_window_size e, am_tx_next_ack e, am_tx_size e,
     am_tx_maxsize e, am_rx_size e, am_rx_maxsize e)"

lemma am_clock_view_update [simp]:
  "am_clock_view (e\<lparr>callbacks := cs\<rparr>) = am_clock_view e" "am_clock_view (e\<lparr>heap := h\<rparr>) = am_clock_view e"
  "am_clock_view (e\<lparr>bstatus := b\<rparr>) = am_clock_view e" "am_clock_view (e\<lparr>stats := s\<rparr>) = am_clock_view e"
  "am_clock_view (e\<lparr>am_t_current := w\<rparr>) = am_clock_view e" "am_clock_view (e\<lparr>am_force_poll := x\<rparr>) = am_clock_view e"
  "am_clock_view (e\<lparr>am_t_poll_retransmit_start := w\<rparr>) = am_clock_view e"
  "am_clock_view (e\<lparr>am_t_reassembly_start := w\<rparr>) = am_clock_view e"
  "am_clock_view (e\<lparr>am_status_triggered := x\<rparr>) = am_clock_view e"
  "am_clock_view (e\<lparr>am_rx_highest_status := n\<rparr>) = am_clock_view e"
  "am_clock_view (e\<lparr>am_rx_next_status_trigger := n\<rparr>) = am_clock_view e"
  "am_clock_view (e\<lparr>am_wait_list := l\<rparr>) = am_clock_view e" "am_clock_view (e\<lparr>am_wait_end := a\<rparr>) = am_clock_view e"
  "am_clock_view (e\<lparr>am_retransmit_list := l\<rparr>) = am_clock_view e"
  by (simp_all add: am_clock_view_def)





section \<open>A bearer of a layer\<close>













lemma slot_put_lcid [simp]: "ue_lcid2rb (slot_put slot x ue) = ue_lcid2rb ue"
  by (cases slot) simp_all









section \<open>What others do\<close>










section \<open>Two layers\<close>



















section \<open>Property\<close>





end
