(* ===== verification/Pdcp_Sdu.thy ===== *)
theory Pdcp_Sdu
  imports L2_Prelude
begin

text \<open>
  \<open>nr_pdcp_sdu.h\<close> and \<open>nr_pdcp_sdu.c\<close>: received PDCP SDUs and their list, ordered by COUNT.
\<close>

record nr_pdcp_integrity_data =
  mi_count :: u32
  mi_mac :: "byte list"
  mi_header :: "byte list"
  mi_header_size :: int

record nr_pdcp_sdu =
  ps_count :: u32
  ps_buffer :: "byte list"
  ps_size :: int
  ps_msg_integrity :: nr_pdcp_integrity_data

definition nr_pdcp_new_sdu :: "u32 \<Rightarrow> byte list \<Rightarrow> nr_pdcp_integrity_data \<Rightarrow> nr_pdcp_sdu" where
  "nr_pdcp_new_sdu c buffer msg_integrity =
     \<lparr>ps_count = c, ps_buffer = buffer, ps_size = int (length buffer),
      ps_msg_integrity = msg_integrity\<rparr>"

lemma nr_pdcp_new_sdu_simps [simp]:
  "ps_count (nr_pdcp_new_sdu c b m) = c"
  "ps_buffer (nr_pdcp_new_sdu c b m) = b"
  "ps_size (nr_pdcp_new_sdu c b m) = int (length b)"
  by (simp_all add: nr_pdcp_new_sdu_def)

definition nr_pdcp_sdu_list_add :: "nr_pdcp_sdu list \<Rightarrow> nr_pdcp_sdu \<Rightarrow> nr_pdcp_sdu list" where
  "nr_pdcp_sdu_list_add l sdu = insert_before (\<lambda>s cur. ps_count s < ps_count cur) sdu l"

fun nr_pdcp_sdu_in_list :: "nr_pdcp_sdu list \<Rightarrow> u32 \<Rightarrow> bool" where
  "nr_pdcp_sdu_in_list [] c = False"
| "nr_pdcp_sdu_in_list (s # l) c = (if ps_count s = c then True else nr_pdcp_sdu_in_list l c)"

lemma sdu_in_list_set: "nr_pdcp_sdu_in_list l c \<longleftrightarrow> c \<in> ps_count ` set l"
  by (induction l) auto

lemma pdcp_list_add_set [simp]:
  "set (nr_pdcp_sdu_list_add l s) = insert s (set l)"
  "sum_list (map (f :: nr_pdcp_sdu \<Rightarrow> int) (nr_pdcp_sdu_list_add l s)) = f s + sum_list (map f l)"
  by (simp_all add: nr_pdcp_sdu_list_add_def)

text \<open>Adding a SDU whose COUNT is not in the list keeps the counts strictly increasing.\<close>

definition counts_increasing :: "nr_pdcp_sdu list \<Rightarrow> bool" where
  "counts_increasing l \<longleftrightarrow> sorted_wrt (\<lambda>a b. ps_count a < ps_count b) l"

lemma counts_increasing_simps [simp]:
  "counts_increasing []"
  "counts_increasing (s # l) \<longleftrightarrow> (\<forall>t \<in> set l. ps_count s < ps_count t) \<and> counts_increasing l"
  by (auto simp: counts_increasing_def)

lemma counts_increasing_add:
  assumes "counts_increasing l" "\<not> nr_pdcp_sdu_in_list l (ps_count s)"
  shows "counts_increasing (nr_pdcp_sdu_list_add l s)"
  unfolding counts_increasing_def nr_pdcp_sdu_list_add_def
proof (rule sorted_wrt_insert_before)
  show "sorted_wrt (\<lambda>a b. ps_count a < ps_count b) l" using assms(1) by (simp add: counts_increasing_def)
  show "ps_count y < ps_count s" if "y \<in> set l" "\<not> ps_count s < ps_count y" for y
  proof -
    have "ps_count s \<noteq> ps_count y" using that(1) assms(2) by (auto simp: sdu_in_list_set)
    then show ?thesis using that(2) by simp
  qed
qed auto

end
