(* ===== verification/Pdcp_Entity.thy ===== *)
theory Pdcp_Entity
  imports Pdcp_Sdu
begin

text \<open>
  \<open>nr_pdcp_entity.h\<close> and \<open>nr_pdcp_entity.c\<close>: the PDCP entity of a radio bearer. COUNT values are
  32 bit words, of which the low \<open>sn_size\<close> bits are the sequence number on the wire.

  The ciphering and integrity algorithms (\<open>nea1\<close>, \<open>nea2\<close>, \<open>nia1\<close>, \<open>nia2\<close>, on a cryptographic
  library) are a parameter: a record of two functions of the algorithm number, the key, the data,
  the bearer, the COUNT and the direction. A security context is the algorithm and the key it was
  initialised with; \<open>None\<close> when the free function pointer is null. The SDUs handed to the callback
  \<open>deliver_sdu\<close> are recorded in \<open>pd_delivered\<close>.
\<close>

unbundle bit_operations_syntax

section \<open>State\<close>

definition SHORT_SN_SIZE :: nat where [simp]: "SHORT_SN_SIZE = 12"
definition LONG_SN_SIZE :: nat where [simp]: "LONG_SN_SIZE = 18"
definition SHORT_PDCP_HEADER_SIZE :: nat where [simp]: "SHORT_PDCP_HEADER_SIZE = 2"
definition LONG_PDCP_HEADER_SIZE :: nat where [simp]: "LONG_PDCP_HEADER_SIZE = 3"
definition PDCP_INTEGRITY_SIZE :: nat where [simp]: "PDCP_INTEGRITY_SIZE = 4"

datatype nr_pdcp_entity_type = NR_PDCP_DRB_AM | NR_PDCP_DRB_UM | NR_PDCP_SRB

record security_params =
  sp_integrity_algorithm :: int
  sp_ciphering_algorithm :: int
  sp_integrity_key :: "byte list"
  sp_ciphering_key :: "byte list"

record pdcp_crypto =
  cx_cipher :: "int \<Rightarrow> byte list \<Rightarrow> byte list \<Rightarrow> int \<Rightarrow> u32 \<Rightarrow> int \<Rightarrow> byte list"
  cx_integrity :: "int \<Rightarrow> byte list \<Rightarrow> byte list \<Rightarrow> int \<Rightarrow> u32 \<Rightarrow> int \<Rightarrow> byte list"

record nr_pdcp_statistics =
  ps_txpdu_pkts :: u32
  ps_txpdu_bytes :: u32
  ps_txpdu_sn :: u32
  ps_rxpdu_pkts :: u32
  ps_rxpdu_bytes :: u32
  ps_rxpdu_sn :: u32
  ps_rxpdu_dd_pkts :: u32
  ps_rxpdu_dd_bytes :: u32
  ps_txsdu_pkts :: u32
  ps_txsdu_bytes :: u32
  ps_rxsdu_pkts :: u32
  ps_rxsdu_bytes :: u32

record nr_pdcp_entity =
  pd_type :: nr_pdcp_entity_type
  pd_rb_id :: int
  pd_pdusession_id :: int
  pd_has_sdap_rx :: bool
  pd_has_sdap_tx :: bool
  pd_sn_size :: nat
  pd_t_reordering :: int
  pd_discard_timer :: int
  pd_sn_max :: int
  pd_window_size :: int
  pd_tx_next :: u32
  pd_rx_next :: u32
  pd_rx_deliv :: u32
  pd_rx_reord :: u32
  pd_t_current :: u64
  pd_t_reordering_start :: u64
  pd_has_ciphering :: bool
  pd_has_integrity :: bool
  pd_keys :: security_params
  pd_security_context :: "(int \<times> byte list) option"
  pd_integrity_context :: "(int \<times> byte list) option"
  pd_is_gnb :: bool
  pd_rx_list :: "nr_pdcp_sdu list"
  pd_rx_size :: int
  pd_stats :: nr_pdcp_statistics
  pd_suspended :: bool
  pd_delivered :: "nr_pdcp_sdu list"

definition nr_max_pdcp_pdu_size :: "int \<Rightarrow> int" where
  "nr_max_pdcp_pdu_size sdu_size = sdu_size + int LONG_PDCP_HEADER_SIZE + int PDCP_INTEGRITY_SIZE"

definition pd_count_stat ::
  "(nr_pdcp_statistics \<Rightarrow> nr_pdcp_statistics) \<Rightarrow> nr_pdcp_entity \<Rightarrow> nr_pdcp_entity" where
  [simp]: "pd_count_stat f e = e\<lparr>pd_stats := f (pd_stats e)\<rparr>"

text \<open>The function pointers \<open>cipher\<close> and \<open>integrity\<close> on the current context.\<close>

definition pd_cipher ::
  "pdcp_crypto \<Rightarrow> nr_pdcp_entity \<Rightarrow> byte list \<Rightarrow> u32 \<Rightarrow> int \<Rightarrow> byte list res" where
  "pd_cipher cx e data c direction =
     (case pd_security_context e of
        None \<Rightarrow> Inl Null_deref
      | Some (alg, key) \<Rightarrow> Inr (cx_cipher cx alg key data (pd_rb_id e) c direction))"

definition pd_integrity ::
  "pdcp_crypto \<Rightarrow> nr_pdcp_entity \<Rightarrow> byte list \<Rightarrow> u32 \<Rightarrow> int \<Rightarrow> byte list res" where
  "pd_integrity cx e data c direction =
     (case pd_integrity_context e of
        None \<Rightarrow> Inl Null_deref
      | Some (alg, key) \<Rightarrow> Inr (cx_integrity cx alg key data (pd_rb_id e) c direction))"

text \<open>The sizes both directions compute: SRBs always have a MAC-I.\<close>

definition pd_integrity_size :: "nr_pdcp_entity \<Rightarrow> nat" where
  "pd_integrity_size e =
     (if pd_has_integrity e \<or> pd_type e = NR_PDCP_SRB then PDCP_INTEGRITY_SIZE else 0)"

definition pd_header_size :: "nr_pdcp_entity \<Rightarrow> nat" where
  "pd_header_size e =
     (if pd_sn_size e = SHORT_SN_SIZE then SHORT_PDCP_HEADER_SIZE else LONG_PDCP_HEADER_SIZE)"

section \<open>Delivery\<close>

definition pd_deliver :: "nr_pdcp_sdu \<Rightarrow> nr_pdcp_entity \<Rightarrow> nr_pdcp_entity" where
  "pd_deliver cur e =
     pd_count_stat (\<lambda>s. s\<lparr>ps_txsdu_pkts := ps_txsdu_pkts s + 1,
                          ps_txsdu_bytes := ps_txsdu_bytes s + word_of_int (ps_size cur)\<rparr>)
       (e\<lparr>pd_delivered := pd_delivered e @ [cur], pd_rx_size := pd_rx_size e - ps_size cur\<rparr>)"

text \<open>
  The delivery loops, over the reception list: consecutive COUNT values from \<open>c\<close>, all below a
  bound, and all. Each returns what is left of the list in \<open>rx_list\<close>.
\<close>

fun pd_deliver_from :: "u32 \<Rightarrow> nr_pdcp_sdu list \<Rightarrow> nr_pdcp_entity \<Rightarrow> u32 \<times> nr_pdcp_entity" where
  "pd_deliver_from c [] e = (c, e\<lparr>pd_rx_list := []\<rparr>)"
| "pd_deliver_from c (cur # l) e =
     (if c = ps_count cur then pd_deliver_from (c + 1) l (pd_deliver cur e)
      else (c, e\<lparr>pd_rx_list := cur # l\<rparr>))"

fun pd_deliver_below :: "u32 \<Rightarrow> nr_pdcp_sdu list \<Rightarrow> nr_pdcp_entity \<Rightarrow> nr_pdcp_entity" where
  "pd_deliver_below c [] e = e\<lparr>pd_rx_list := []\<rparr>"
| "pd_deliver_below c (cur # l) e =
     (if ps_count cur < c then pd_deliver_below c l (pd_deliver cur e)
      else e\<lparr>pd_rx_list := cur # l\<rparr>)"

fun deliver_all_loop :: "nr_pdcp_sdu list \<Rightarrow> nr_pdcp_entity \<Rightarrow> nr_pdcp_entity" where
  "deliver_all_loop [] e = e\<lparr>pd_rx_list := []\<rparr>"
| "deliver_all_loop (cur # l) e = deliver_all_loop l (pd_deliver cur e)"

definition deliver_all_sdus :: "nr_pdcp_entity \<Rightarrow> nr_pdcp_entity" where
  "deliver_all_sdus e = deliver_all_loop (pd_rx_list e) e"

section \<open>Reception\<close>

text \<open>Reading the sequence number; the first three bytes are read before the size is checked.\<close>

definition byte_at :: "byte list \<Rightarrow> nat \<Rightarrow> int res" where
  "byte_at buf i = (if i < length buf then Inr (uint (buf ! i)) else Inl Out_of_bounds)"

definition pd_read_sn :: "nr_pdcp_entity \<Rightarrow> byte list \<Rightarrow> int res" where
  "pd_read_sn e buffer =
     (if pd_sn_size e = SHORT_SN_SIZE
      then rbind (byte_at buffer 0) (\<lambda>b0. rbind (byte_at buffer 1) (\<lambda>b1.
             Inr (push_bit 8 (b0 AND 15) OR b1)))
      else rbind (byte_at buffer 0) (\<lambda>b0. rbind (byte_at buffer 1) (\<lambda>b1.
             rbind (byte_at buffer 2) (\<lambda>b2.
             Inr (push_bit 16 (b0 AND 3) OR push_bit 8 b1 OR b2)))))"

text \<open>COUNT from the received sequence number and \<open>RX_DELIV\<close> (38.323 5.2.2.1).\<close>

definition pd_rcvd_count :: "nr_pdcp_entity \<Rightarrow> int \<Rightarrow> u32" where
  "pd_rcvd_count e rcvd_sn =
     (let rx_deliv_sn = uint (pd_rx_deliv e AND word_of_int (pd_sn_max e));
          rx_deliv_hfn = drop_bit (pd_sn_size e) (pd_rx_deliv e);
          rcvd_hfn = (if rcvd_sn < rx_deliv_sn - pd_window_size e then rx_deliv_hfn + 1
                      else if rcvd_sn \<ge> rx_deliv_sn + pd_window_size e then rx_deliv_hfn - 1
                      else rx_deliv_hfn)
      in push_bit (pd_sn_size e) rcvd_hfn OR word_of_int rcvd_sn)"

definition pd_discard :: "int \<Rightarrow> nr_pdcp_entity \<Rightarrow> nr_pdcp_entity" where
  "pd_discard sz e =
     pd_count_stat (\<lambda>s. s\<lparr>ps_rxpdu_dd_pkts := ps_rxpdu_dd_pkts s + 1,
                          ps_rxpdu_dd_bytes := ps_rxpdu_dd_bytes s + word_of_int sz\<rparr>) e"

definition pd_msg_integrity :: "nr_pdcp_entity \<Rightarrow> byte list \<Rightarrow> u32 \<Rightarrow> nr_pdcp_integrity_data" where
  "pd_msg_integrity e buffer rcvd_count =
     (if pd_has_integrity e \<or> pd_type e = NR_PDCP_SRB
      then \<lparr>mi_count = rcvd_count, mi_mac = drop (length buffer - 4) buffer,
            mi_header = take (pd_header_size e) buffer, mi_header_size = int (pd_header_size e)\<rparr>
      else \<lparr>mi_count = 0, mi_mac = [0, 0, 0, 0], mi_header = [], mi_header_size = 0\<rparr>)"

text \<open>
  Deciphering and the integrity check; the result is the deciphered PDU and whether the MAC-I is
  right.
\<close>

definition pd_unprotect ::
  "pdcp_crypto \<Rightarrow> nr_pdcp_entity \<Rightarrow> byte list \<Rightarrow> u32 \<Rightarrow> (byte list \<times> bool) res" where
  "pd_unprotect cx e buffer rcvd_count =
     (let clear = pd_header_size e + (if pd_has_sdap_rx e then 1 else 0);
          direction = (if pd_is_gnb e then 0 else 1)
      in rbind (if pd_has_ciphering e
                then rbind (pd_cipher cx e (drop clear buffer) rcvd_count direction)
                       (\<lambda>d. Inr (take clear buffer @ d))
                else Inr buffer) (\<lambda>buffer1.
         if pd_has_integrity e
         then
           let n = length buffer1 - pd_integrity_size e
           in rbind (pd_integrity cx e (take n buffer1) rcvd_count direction)
                (\<lambda>mac. Inr (buffer1, mac = drop n buffer1))
         else Inr (buffer1, True)))"

text \<open>Storing an accepted SDU, in-order delivery, and the reordering timer.\<close>

definition pd_store_sdu :: "nr_pdcp_sdu \<Rightarrow> int \<Rightarrow> nr_pdcp_entity \<Rightarrow> nr_pdcp_entity" where
  "pd_store_sdu sdu sz e =
     (let e1 = e\<lparr>pd_rx_list := nr_pdcp_sdu_list_add (pd_rx_list e) sdu,
                 pd_rx_size := pd_rx_size e + (sz - int (pd_header_size e))\<rparr>
      in if ps_count sdu \<ge> pd_rx_next e1 then e1\<lparr>pd_rx_next := ps_count sdu + 1\<rparr> else e1)"

definition pd_deliver_in_order :: "u32 \<Rightarrow> nr_pdcp_entity \<Rightarrow> nr_pdcp_entity" where
  "pd_deliver_in_order rcvd_count e =
     (if rcvd_count = pd_rx_deliv e
      then case pd_deliver_from (pd_rx_deliv e) (pd_rx_list e) e of
             (c, e') \<Rightarrow> e'\<lparr>pd_rx_deliv := c\<rparr>
      else e)"

definition pd_update_t_reordering :: "nr_pdcp_entity \<Rightarrow> nr_pdcp_entity" where
  "pd_update_t_reordering e =
     (let e1 = (if pd_t_reordering_start e \<noteq> 0 \<and> pd_rx_deliv e \<ge> pd_rx_reord e
                then e\<lparr>pd_t_reordering_start := 0\<rparr> else e)
      in if pd_t_reordering_start e1 = 0 \<and> pd_rx_deliv e1 < pd_rx_next e1
         then e1\<lparr>pd_rx_reord := pd_rx_next e1, pd_t_reordering_start := pd_t_current e1\<rparr>
         else e1)"

definition pd_accept_count ::
  "pdcp_crypto \<Rightarrow> nr_pdcp_entity \<Rightarrow> byte list \<Rightarrow> u32 \<Rightarrow> nr_pdcp_entity res" where
  "pd_accept_count cx e buffer rcvd_count =
     (let sz = int (length buffer); msg_integrity = pd_msg_integrity e buffer rcvd_count
      in rbind (pd_unprotect cx e buffer rcvd_count) (\<lambda>(buffer1, valid).
         if \<not> valid then Inr (pd_discard sz e)
         else if rcvd_count < pd_rx_deliv e \<or> nr_pdcp_sdu_in_list (pd_rx_list e) rcvd_count
         then Inr (pd_discard sz e)
         else
           let n = length buffer - pd_header_size e - pd_integrity_size e;
               sdu = nr_pdcp_new_sdu rcvd_count (take n (drop (pd_header_size e) buffer1)) msg_integrity
           in Inr (pd_update_t_reordering
                    (pd_deliver_in_order rcvd_count (pd_store_sdu sdu sz e)))))"

definition nr_pdcp_entity_recv_pdu ::
  "pdcp_crypto \<Rightarrow> nr_pdcp_entity \<Rightarrow> byte list \<Rightarrow> nr_pdcp_entity res" where
  "nr_pdcp_entity_recv_pdu cx entity buffer0 =
     (if pd_suspended entity then Inr entity
      else if length buffer0 < 1 then Inr entity
      else
        let sz = int (length buffer0);
            buffer = (if pd_type entity \<noteq> NR_PDCP_SRB \<and> buffer0 ! 0 AND 128 = 0
                      then buffer0[0 := buffer0 ! 0 OR 128] else buffer0);
            e1 = pd_count_stat (\<lambda>s. s\<lparr>ps_rxpdu_pkts := ps_rxpdu_pkts s + 1,
                                      ps_rxpdu_bytes := ps_rxpdu_bytes s + word_of_int sz\<rparr>) entity
        in rbind (pd_read_sn e1 buffer) (\<lambda>rcvd_sn.
           let e = pd_count_stat (\<lambda>s. s\<lparr>ps_rxpdu_sn := word_of_int rcvd_sn\<rparr>) e1;
               sdap_header_size = (if pd_has_sdap_rx e then 1 else 0)
           in if sz < int (pd_header_size e) + sdap_header_size + int (pd_integrity_size e) + 1
              then Inr (pd_discard sz e)
              else pd_accept_count cx e buffer (pd_rcvd_count e rcvd_sn)))"

section \<open>Transmission\<close>

definition pd_put_header :: "nr_pdcp_entity \<Rightarrow> int \<Rightarrow> byte list" where
  "pd_put_header e sn =
     (let dc_bit = (if pd_type e = NR_PDCP_DRB_AM \<or> pd_type e = NR_PDCP_DRB_UM then 128 else 0)
      in if pd_sn_size e = SHORT_SN_SIZE
         then [word_of_int (dc_bit OR (drop_bit 8 sn AND 15)), word_of_int (sn AND 255)]
         else [word_of_int (dc_bit OR (drop_bit 16 sn AND 3)), word_of_int (drop_bit 8 sn AND 255),
               word_of_int (sn AND 255)])"

text \<open>
  The result: the PDU (its length is the value returned), or \<open>None\<close> for \<open>-1\<close> when the entity is
  suspended. \<open>pdu_max_size\<close> is the size of the caller's buffer.
\<close>

definition nr_pdcp_entity_process_sdu ::
  "pdcp_crypto \<Rightarrow> nr_pdcp_entity \<Rightarrow> byte list \<Rightarrow> int \<Rightarrow> (byte list option \<times> nr_pdcp_entity) res" where
  "nr_pdcp_entity_process_sdu cx entity buffer pdu_max_size =
     rbind (rcheck (nr_max_pdcp_pdu_size (int (length buffer)) \<le> pdu_max_size) Assert_failed) (\<lambda>_.
     if pd_suspended entity then Inr (None, entity)
     else
       let e = pd_count_stat (\<lambda>s. s\<lparr>ps_rxsdu_pkts := ps_rxsdu_pkts s + 1,
                                    ps_rxsdu_bytes := ps_rxsdu_bytes s + of_nat (length buffer)\<rparr>) entity;
           c = pd_tx_next e;
           sn = uint (pd_tx_next e AND word_of_int (pd_sn_max e));
           sdap_header_size = (if pd_has_sdap_tx e then 1 else 0);
           direction = (if pd_is_gnb e then 1 else 0);
           header = pd_put_header e sn;
           plain = header @ buffer
       in rbind (if pd_has_integrity e then pd_integrity cx e plain c direction
                 else Inr (replicate (pd_integrity_size e) 0)) (\<lambda>mac.
          let buf = plain @ mac; clear = pd_header_size e + sdap_header_size
          in rbind (if pd_has_ciphering e
                    then rbind (pd_cipher cx e (drop clear buf) c direction)
                           (\<lambda>d. Inr (take clear buf @ d))
                    else Inr buf) (\<lambda>buf'.
             Inr (Some buf',
                  pd_count_stat (\<lambda>s. s\<lparr>ps_txpdu_pkts := ps_txpdu_pkts s + 1,
                      ps_txpdu_bytes := ps_txpdu_bytes s + of_nat (length buf),
                      ps_txpdu_sn := word_of_int sn\<rparr>)
                    (e\<lparr>pd_tx_next := pd_tx_next e + 1\<rparr>)))))"

definition nr_pdcp_entity_check_integrity ::
  "pdcp_crypto \<Rightarrow> nr_pdcp_entity \<Rightarrow> byte list \<Rightarrow> nr_pdcp_integrity_data \<Rightarrow> bool res" where
  "nr_pdcp_entity_check_integrity cx e buffer msg_integrity =
     (if \<not> pd_has_integrity e then Inr False
      else rbind (pd_integrity cx e (take (nat (mi_header_size msg_integrity)) (mi_header msg_integrity)
                    @ buffer) (mi_count msg_integrity) (if pd_is_gnb e then 0 else 1))
             (\<lambda>mac. Inr (mac = mi_mac msg_integrity)))"

section \<open>Security\<close>

definition pd_store_keys :: "security_params \<Rightarrow> nr_pdcp_entity \<Rightarrow> nr_pdcp_entity" where
  "pd_store_keys p e =
     (let k1 = (if sp_integrity_algorithm p \<noteq> - 1
                then (pd_keys e)\<lparr>sp_integrity_algorithm := sp_integrity_algorithm p,
                                 sp_integrity_key := sp_integrity_key p\<rparr> else pd_keys e);
          k2 = (if sp_ciphering_algorithm p \<noteq> - 1
                then k1\<lparr>sp_ciphering_algorithm := sp_ciphering_algorithm p,
                        sp_ciphering_key := sp_ciphering_key p\<rparr> else k1)
      in e\<lparr>pd_keys := k2\<rparr>)"

definition pd_set_integrity :: "security_params \<Rightarrow> nr_pdcp_entity \<Rightarrow> nr_pdcp_entity res" where
  "pd_set_integrity p e =
     (if sp_integrity_algorithm p = 0
      then Inr (e\<lparr>pd_has_integrity := False, pd_integrity_context := None\<rparr>)
      else if sp_integrity_algorithm p = - 1 then Inr e
      else if sp_integrity_algorithm p = 2 \<or> sp_integrity_algorithm p = 1
      then Inr (e\<lparr>pd_has_integrity := True,
                  pd_integrity_context := Some (sp_integrity_algorithm p, sp_integrity_key (pd_keys e))\<rparr>)
      else Inl Exit_fatal)"

definition pd_set_ciphering :: "security_params \<Rightarrow> nr_pdcp_entity \<Rightarrow> nr_pdcp_entity res" where
  "pd_set_ciphering p e =
     (if sp_ciphering_algorithm p = 0
      then Inr (e\<lparr>pd_has_ciphering := False, pd_security_context := None\<rparr>)
      else if sp_ciphering_algorithm p = - 1 then Inr e
      else if sp_ciphering_algorithm p = 2 \<or> sp_ciphering_algorithm p = 1
      then Inr (e\<lparr>pd_has_ciphering := True,
                  pd_security_context := Some (sp_ciphering_algorithm p, sp_ciphering_key (pd_keys e))\<rparr>)
      else Inl Exit_fatal)"

definition nr_pdcp_entity_set_security ::
  "nr_pdcp_entity \<Rightarrow> security_params \<Rightarrow> nr_pdcp_entity res" where
  "nr_pdcp_entity_set_security e p = rbind (pd_set_integrity p (pd_store_keys p e)) (pd_set_ciphering p)"

section \<open>Timers, suspension, re-establishment\<close>

definition check_t_reordering :: "nr_pdcp_entity \<Rightarrow> nr_pdcp_entity" where
  "check_t_reordering entity =
     (if pd_t_reordering entity = - 1 then entity
      else if pd_t_reordering_start entity = 0
         \<or> pd_t_current entity
             \<le> pd_t_reordering_start entity + word_of_int (pd_t_reordering entity)
      then entity
      else
        let e1 = entity\<lparr>pd_t_reordering_start := 0\<rparr>;
            e2 = pd_deliver_below (pd_rx_reord e1) (pd_rx_list e1) e1
        in case pd_deliver_from (pd_rx_reord e2) (pd_rx_list e2) e2 of
             (c, e3) \<Rightarrow>
               let e = e3\<lparr>pd_rx_deliv := c\<rparr>
               in if pd_rx_deliv e < pd_rx_next e
                  then e\<lparr>pd_rx_reord := pd_rx_next e, pd_t_reordering_start := pd_t_current e\<rparr>
                  else e)"

definition nr_pdcp_entity_set_time :: "nr_pdcp_entity \<Rightarrow> u64 \<Rightarrow> nr_pdcp_entity" where
  "nr_pdcp_entity_set_time e now = check_t_reordering (e\<lparr>pd_t_current := now\<rparr>)"

definition nr_pdcp_entity_suspend :: "nr_pdcp_entity \<Rightarrow> nr_pdcp_entity" where
  "nr_pdcp_entity_suspend e =
     (let e1 = e\<lparr>pd_tx_next := 0\<rparr>;
          e2 = (if pd_t_reordering_start e1 \<noteq> 0
                then deliver_all_sdus (e1\<lparr>pd_t_reordering_start := 0\<rparr>) else e1)
      in e2\<lparr>pd_rx_next := 0, pd_rx_deliv := 0, pd_suspended := True\<rparr>)"

fun free_rx_loop :: "nr_pdcp_sdu list \<Rightarrow> nr_pdcp_entity \<Rightarrow> nr_pdcp_entity" where
  "free_rx_loop [] e = e"
| "free_rx_loop (cur # l) e = free_rx_loop l (pd_discard (ps_size cur) e)"

definition free_rx_list :: "nr_pdcp_entity \<Rightarrow> nr_pdcp_entity" where
  "free_rx_list e = (free_rx_loop (pd_rx_list e) e)\<lparr>pd_rx_list := [], pd_rx_size := 0\<rparr>"

definition nr_pdcp_entity_reestablish_drb_am ::
  "nr_pdcp_entity \<Rightarrow> security_params \<Rightarrow> nr_pdcp_entity res" where
  "nr_pdcp_entity_reestablish_drb_am e p =
     rbind (nr_pdcp_entity_set_security e p) (\<lambda>e1. Inr (e1\<lparr>pd_suspended := False\<rparr>))"

definition nr_pdcp_entity_reestablish_drb_um ::
  "nr_pdcp_entity \<Rightarrow> security_params \<Rightarrow> nr_pdcp_entity res" where
  "nr_pdcp_entity_reestablish_drb_um e p =
     (let e1 = e\<lparr>pd_tx_next := 0\<rparr>;
          e2 = (if pd_t_reordering_start e1 \<noteq> 0 then deliver_all_sdus e1 else e1);
          e3 = e2\<lparr>pd_t_reordering_start := 0, pd_rx_next := 0, pd_rx_deliv := 0\<rparr>
      in rbind (nr_pdcp_entity_set_security e3 p) (\<lambda>e4. Inr (e4\<lparr>pd_suspended := False\<rparr>)))"

definition nr_pdcp_entity_reestablish_srb ::
  "nr_pdcp_entity \<Rightarrow> security_params \<Rightarrow> nr_pdcp_entity res" where
  "nr_pdcp_entity_reestablish_srb e p =
     (let e1 = (free_rx_list (e\<lparr>pd_tx_next := 0\<rparr>))
                 \<lparr>pd_t_reordering_start := 0, pd_rx_next := 0, pd_rx_deliv := 0\<rparr>
      in rbind (nr_pdcp_entity_set_security e1 p) (\<lambda>e2. Inr (e2\<lparr>pd_suspended := False\<rparr>)))"

text \<open>The function pointer \<open>reestablish_entity\<close>, which the constructor sets from the type.\<close>

definition nr_pdcp_entity_reestablish ::
  "nr_pdcp_entity \<Rightarrow> security_params \<Rightarrow> nr_pdcp_entity res" where
  "nr_pdcp_entity_reestablish e p =
     (case pd_type e of
        NR_PDCP_DRB_AM \<Rightarrow> nr_pdcp_entity_reestablish_drb_am e p
      | NR_PDCP_DRB_UM \<Rightarrow> nr_pdcp_entity_reestablish_drb_um e p
      | NR_PDCP_SRB \<Rightarrow> nr_pdcp_entity_reestablish_srb e p)"

definition nr_pdcp_entity_release :: "nr_pdcp_entity \<Rightarrow> nr_pdcp_entity" where
  "nr_pdcp_entity_release e = deliver_all_sdus e"

definition nr_pdcp_entity_delete :: "nr_pdcp_entity \<Rightarrow> nr_pdcp_entity" where
  "nr_pdcp_entity_delete e =
     (free_rx_list e)\<lparr>pd_security_context := None, pd_integrity_context := None\<rparr>"

definition nr_pdcp_entity_get_stats :: "nr_pdcp_entity \<Rightarrow> nr_pdcp_statistics" where
  "nr_pdcp_entity_get_stats e = pd_stats e"

section \<open>Construction\<close>

definition zero_pdcp_stats :: nr_pdcp_statistics where
  "zero_pdcp_stats =
     \<lparr>ps_txpdu_pkts = 0, ps_txpdu_bytes = 0, ps_txpdu_sn = 0, ps_rxpdu_pkts = 0, ps_rxpdu_bytes = 0,
      ps_rxpdu_sn = 0, ps_rxpdu_dd_pkts = 0, ps_rxpdu_dd_bytes = 0, ps_txsdu_pkts = 0,
      ps_txsdu_bytes = 0, ps_rxsdu_pkts = 0, ps_rxsdu_bytes = 0\<rparr>"

definition new_nr_pdcp_entity ::
  "nr_pdcp_entity_type \<Rightarrow> bool \<Rightarrow> int \<Rightarrow> int \<Rightarrow> bool \<Rightarrow> bool \<Rightarrow> nat \<Rightarrow> int \<Rightarrow> int \<Rightarrow> security_params
   \<Rightarrow> nr_pdcp_entity res" where
  "new_nr_pdcp_entity type is_gnb rb_id pdusession_id has_sdap_rx has_sdap_tx sn_size t_reordering
     discard_timer security_parameters =
     nr_pdcp_entity_set_security
       \<lparr>pd_type = type, pd_rb_id = rb_id, pd_pdusession_id = pdusession_id,
        pd_has_sdap_rx = has_sdap_rx, pd_has_sdap_tx = has_sdap_tx, pd_sn_size = sn_size,
        pd_t_reordering = t_reordering, pd_discard_timer = discard_timer,
        pd_sn_max = push_bit sn_size 1 - 1, pd_window_size = push_bit (sn_size - 1) 1,
        pd_tx_next = 0, pd_rx_next = 0, pd_rx_deliv = 0, pd_rx_reord = 0, pd_t_current = 0,
        pd_t_reordering_start = 0, pd_has_ciphering = False, pd_has_integrity = False,
        pd_keys = \<lparr>sp_integrity_algorithm = 0, sp_ciphering_algorithm = 0,
                   sp_integrity_key = replicate 16 0, sp_ciphering_key = replicate 16 0\<rparr>,
        pd_security_context = None, pd_integrity_context = None, pd_is_gnb = is_gnb,
        pd_rx_list = [], pd_rx_size = 0, pd_stats = zero_pdcp_stats, pd_suspended = False,
        pd_delivered = []\<rparr> security_parameters"

end
