(* ===== verification/Pdcp_Order.thy ===== *)
theory Pdcp_Order
  imports Pdcp_Entity
begin

text \<open>
  The reception side of a PDCP entity (38.323 5.2.2): the window variables and the reordering list
  under one invariant, the reconstruction of COUNT, delivery in order and without duplicates, the
  discarding of replayed and forged PDUs, and the reordering timer.
\<close>

section \<open>The invariant\<close>

definition pd_config_ok :: "nr_pdcp_entity \<Rightarrow> bool" where
  "pd_config_ok e \<longleftrightarrow>
     (pd_sn_size e = 12 \<or> pd_sn_size e = 18) \<and> pd_sn_max e = 2 ^ pd_sn_size e - 1
     \<and> pd_window_size e = 2 ^ (pd_sn_size e - 1)"

text \<open>
  The list holds what came after a gap: strictly increasing COUNT values between \<open>RX_DELIV\<close> and
  \<open>RX_NEXT\<close>. While the timer runs, \<open>RX_REORD\<close> lies between the two.
\<close>

definition pd_inv :: "nr_pdcp_entity \<Rightarrow> bool" where
  "pd_inv e \<longleftrightarrow>
     pd_config_ok e \<and> counts_increasing (pd_rx_list e)
     \<and> (\<forall>s \<in> set (pd_rx_list e). pd_rx_deliv e < ps_count s \<and> ps_count s < pd_rx_next e)
     \<and> pd_rx_deliv e \<le> pd_rx_next e
     \<and> (pd_t_reordering_start e \<noteq> 0 \<longrightarrow> pd_rx_deliv e < pd_rx_reord e \<and> pd_rx_reord e \<le> pd_rx_next e)"

lemma pd_invI:
  assumes "pd_config_ok e" "counts_increasing (pd_rx_list e)"
    "\<And>s. s \<in> set (pd_rx_list e) \<Longrightarrow> pd_rx_deliv e < ps_count s \<and> ps_count s < pd_rx_next e"
    "pd_rx_deliv e \<le> pd_rx_next e"
    "pd_t_reordering_start e \<noteq> 0 \<Longrightarrow> pd_rx_deliv e < pd_rx_reord e \<and> pd_rx_reord e \<le> pd_rx_next e"
  shows "pd_inv e"
  using assms by (simp add: pd_inv_def)

lemma pd_invD:
  assumes "pd_inv e"
  shows "pd_config_ok e" "counts_increasing (pd_rx_list e)"
    "\<And>s. s \<in> set (pd_rx_list e) \<Longrightarrow> pd_rx_deliv e < ps_count s"
    "\<And>s. s \<in> set (pd_rx_list e) \<Longrightarrow> ps_count s < pd_rx_next e"
    "pd_rx_deliv e \<le> pd_rx_next e"
    "pd_t_reordering_start e \<noteq> 0 \<Longrightarrow> pd_rx_deliv e < pd_rx_reord e"
    "pd_t_reordering_start e \<noteq> 0 \<Longrightarrow> pd_rx_reord e \<le> pd_rx_next e"
  using assms by (simp_all add: pd_inv_def)

text \<open>What the invariant looks at, and what no operation of the reception changes.\<close>

definition pd_same :: "nr_pdcp_entity \<Rightarrow> nr_pdcp_entity \<Rightarrow> bool" where
  "pd_same e e' \<longleftrightarrow>
     pd_type e' = pd_type e \<and> pd_rb_id e' = pd_rb_id e \<and> pd_has_sdap_rx e' = pd_has_sdap_rx e
     \<and> pd_has_sdap_tx e' = pd_has_sdap_tx e \<and> pd_sn_size e' = pd_sn_size e \<and> pd_sn_max e' = pd_sn_max e \<and> pd_window_size e' = pd_window_size e
     \<and> pd_t_reordering e' = pd_t_reordering e \<and> pd_tx_next e' = pd_tx_next e
     \<and> pd_suspended e' = pd_suspended e \<and> pd_keys e' = pd_keys e
     \<and> pd_is_gnb e' = pd_is_gnb e \<and> pd_pdusession_id e' = pd_pdusession_id e
     \<and> pd_has_ciphering e' = pd_has_ciphering e \<and> pd_security_context e' = pd_security_context e
     \<and> pd_has_integrity e' = pd_has_integrity e \<and> pd_integrity_context e' = pd_integrity_context e"

lemma pd_same_refl [simp]: "pd_same e e"
  by (simp add: pd_same_def)

lemma pd_same_trans: "pd_same a b \<Longrightarrow> pd_same b c \<Longrightarrow> pd_same a c"
  by (simp add: pd_same_def)

lemma pd_same_config: "pd_same e e' \<Longrightarrow> pd_config_ok e' = pd_config_ok e"
  by (simp add: pd_same_def pd_config_ok_def)

lemma pd_deliver_simps [simp]:
  "pd_delivered (pd_deliver s e) = pd_delivered e @ [s]" "pd_rx_list (pd_deliver s e) = pd_rx_list e"
  "pd_rx_deliv (pd_deliver s e) = pd_rx_deliv e" "pd_rx_next (pd_deliver s e) = pd_rx_next e"
  "pd_rx_reord (pd_deliver s e) = pd_rx_reord e" "pd_t_current (pd_deliver s e) = pd_t_current e"
  "pd_t_reordering_start (pd_deliver s e) = pd_t_reordering_start e" "pd_same e (pd_deliver s e)"
  by (simp_all add: pd_deliver_def pd_same_def)

section \<open>The delivery loops\<close>

text \<open>What the loops leave alone besides the configuration.\<close>

definition pd_vars :: "nr_pdcp_entity \<Rightarrow> u32 \<times> u32 \<times> u32 \<times> u64 \<times> u64" where
  "pd_vars e = (pd_rx_deliv e, pd_rx_next e, pd_rx_reord e, pd_t_current e, pd_t_reordering_start e)"

lemma pd_deliver_vars [simp]: "pd_vars (pd_deliver s e) = pd_vars e"
  by (simp add: pd_vars_def)

lemma pd_deliver_from_frame:
  "pd_deliver_from c l e = (c', e') \<Longrightarrow> pd_same e e' \<and> pd_vars e' = pd_vars e"
proof (induction c l e rule: pd_deliver_from.induct)
  case (1 c e)
  then show ?case by (auto simp: pd_same_def pd_vars_def)
next
  case (2 c cur l e)
  show ?case
  proof (cases "c = ps_count cur")
    case True
    then have "pd_same (pd_deliver cur e) e' \<and> pd_vars e' = pd_vars (pd_deliver cur e)"
      using 2 by simp
    then show ?thesis using pd_same_trans[OF pd_deliver_simps(8), of cur e e'] by simp
  next
    case False
    then show ?thesis using 2(2) by (auto simp: pd_same_def pd_vars_def)
  qed
qed

lemma pd_deliver_below_frame:
  "pd_same e (pd_deliver_below c l e) \<and> pd_vars (pd_deliver_below c l e) = pd_vars e"
proof (induction c l e rule: pd_deliver_below.induct)
  case (1 c e)
  then show ?case by (simp add: pd_same_def pd_vars_def)
next
  case (2 c cur l e)
  then show ?case using pd_same_trans[OF pd_deliver_simps(8), of cur e "pd_deliver_below c l (pd_deliver cur e)"]
    by (cases "ps_count cur < c") (simp_all add: pd_same_def pd_vars_def)
qed

text \<open>Counting up below a bound does not wrap.\<close>

lemma count_up:
  fixes c n :: u32
  assumes "c < n"
  shows "c + 1 \<le> n" "c < c + 1" "c + 1 \<le> x \<longleftrightarrow> c < x"
proof -
  have ne: "c \<noteq> - 1" using assms word_order.extremum_strict[of n] by (auto simp: word_order.extremum)
  show "c + 1 \<le> n" by (rule inc_le[OF assms])
  show "c + 1 \<le> x \<longleftrightarrow> c < x" using ne by (simp add: inc_less_eq_iff)
  show "c < c + 1" using ne inc_less_eq_self_iff_eq[of c] by (simp add: not_le)
qed

text \<open>
  Delivery of consecutive counts from \<open>c\<close>: a prefix of the list goes, the counter stays below every
  bound of the list (so it does not wrap), and what stays lies beyond it.
\<close>

lemma pd_deliver_from_spec:
  assumes "pd_deliver_from c l e = (c', e')" "counts_increasing l"
    and "\<forall>s \<in> set l. c \<le> ps_count s \<and> ps_count s < n" "c \<le> n"
  shows "\<exists>d. l = d @ pd_rx_list e' \<and> pd_delivered e' = pd_delivered e @ d
     \<and> (\<forall>s \<in> set d. c \<le> ps_count s \<and> ps_count s < c') \<and> (\<forall>s \<in> set (pd_rx_list e'). c' < ps_count s)
     \<and> c \<le> c' \<and> c' \<le> n"
  using assms
proof (induction c l e rule: pd_deliver_from.induct)
  case (1 c e)
  then show ?case by auto
next
  case (2 c cur l e)
  show ?case
  proof (cases "c = ps_count cur")
    case False
    then have lt: "c < ps_count cur" using "2.prems"(3) by auto
    have "\<forall>s \<in> set (cur # l). c < ps_count s" using "2.prems"(2) lt by (auto dest: less_trans)
    then show ?thesis using False "2.prems"(1,4) by (intro exI[of _ "[]"]) auto
  next
    case True
    have "c < n" using "2.prems"(3) True by auto
    note up = count_up[OF this]
    have "\<exists>d. l = d @ pd_rx_list e' \<and> pd_delivered e' = pd_delivered (pd_deliver cur e) @ d
       \<and> (\<forall>s \<in> set d. c + 1 \<le> ps_count s \<and> ps_count s < c') \<and> (\<forall>s \<in> set (pd_rx_list e'). c' < ps_count s)
       \<and> c + 1 \<le> c' \<and> c' \<le> n"
      by (rule "2.IH"[OF True]) (use "2.prems" True up in \<open>auto\<close>)
    then obtain d where d: "l = d @ pd_rx_list e'" "pd_delivered e' = pd_delivered (pd_deliver cur e) @ d"
      "\<forall>s \<in> set d. c + 1 \<le> ps_count s \<and> ps_count s < c'" "\<forall>s \<in> set (pd_rx_list e'). c' < ps_count s"
      "c + 1 \<le> c'" "c' \<le> n" by blast
    have "c < c'" using d(5) up(3) by simp
    then show ?thesis using d True up by (intro exI[of _ "cur # d"]) (auto simp: less_imp_le)
  qed
qed

lemma pd_deliver_below_spec:
  assumes "counts_increasing l"
  shows "\<exists>d. l = d @ pd_rx_list (pd_deliver_below c l e)
     \<and> pd_delivered (pd_deliver_below c l e) = pd_delivered e @ d
     \<and> (\<forall>s \<in> set d. ps_count s < c) \<and> (\<forall>s \<in> set (pd_rx_list (pd_deliver_below c l e)). c \<le> ps_count s)"
  using assms
proof (induction c l e rule: pd_deliver_below.induct)
  case (1 c e)
  then show ?case by auto
next
  case (2 c cur l e)
  show ?case
  proof (cases "ps_count cur < c")
    case False
    then have "\<forall>s \<in> set (cur # l). c \<le> ps_count s" using 2(2) by (auto simp: not_less dest: le_less_trans)
    then show ?thesis using False by (intro exI[of _ "[]"]) auto
  next
    case True
    then show ?thesis using 2 by (auto intro: exI[of _ "cur # _"])
  qed
qed


section \<open>An accepted PDU\<close>

text \<open>
  What an operation of the reception does: it keeps the invariant, moves the window variables
  forward only, and appends to the deliveries a run of SDUs with strictly increasing COUNT values
  between the old and the new \<open>RX_DELIV\<close>.
\<close>

definition pd_advance :: "nr_pdcp_entity \<Rightarrow> nr_pdcp_sdu list \<Rightarrow> nr_pdcp_entity \<Rightarrow> bool" where
  "pd_advance e d e' \<longleftrightarrow>
     pd_same e e' \<and> pd_inv e' \<and> pd_delivered e' = pd_delivered e @ d \<and> counts_increasing d
     \<and> (\<forall>s \<in> set d. pd_rx_deliv e \<le> ps_count s \<and> ps_count s < pd_rx_deliv e')
     \<and> pd_rx_deliv e \<le> pd_rx_deliv e' \<and> pd_rx_next e \<le> pd_rx_next e'"

lemma counts_increasing_append:
  "counts_increasing (l1 @ l2) \<longleftrightarrow>
     counts_increasing l1 \<and> counts_increasing l2 \<and> (\<forall>a \<in> set l1. \<forall>b \<in> set l2. ps_count a < ps_count b)"
  by (auto simp: counts_increasing_def sorted_wrt_append)

lemma pd_update_t_reordering_inv:
  assumes "pd_config_ok e" "counts_increasing (pd_rx_list e)"
    "\<forall>s \<in> set (pd_rx_list e). pd_rx_deliv e < ps_count s \<and> ps_count s < pd_rx_next e"
    "pd_rx_deliv e \<le> pd_rx_next e"
    "pd_t_reordering_start e \<noteq> 0 \<longrightarrow> pd_rx_reord e \<le> pd_rx_next e"
    and e': "e' = pd_update_t_reordering e"
  shows "pd_inv e'" "pd_same e e'" "pd_delivered e' = pd_delivered e" "pd_rx_list e' = pd_rx_list e"
    "pd_rx_deliv e' = pd_rx_deliv e" "pd_rx_next e' = pd_rx_next e"
    "pd_t_current e \<noteq> 0 \<Longrightarrow> pd_rx_list e \<noteq> [] \<Longrightarrow> pd_t_reordering_start e' \<noteq> 0"
proof -
  show s: "pd_same e e'" "pd_delivered e' = pd_delivered e" "pd_rx_list e' = pd_rx_list e"
    "pd_rx_deliv e' = pd_rx_deliv e" "pd_rx_next e' = pd_rx_next e"
    by (simp_all add: e' pd_update_t_reordering_def Let_def pd_same_def)
  have "pd_t_reordering_start e' \<noteq> 0 \<longrightarrow> pd_rx_deliv e' < pd_rx_reord e' \<and> pd_rx_reord e' \<le> pd_rx_next e'"
    using assms(5) by (simp add: e' pd_update_t_reordering_def Let_def not_le)
  then show "pd_inv e'" using assms(1-4) s pd_same_config[OF s(1)] by (intro pd_invI) auto
  have "pd_rx_deliv e < pd_rx_next e" if "pd_rx_list e \<noteq> []"
    using assms(3) that by (cases "pd_rx_list e") (auto dest: less_trans)
  then show "pd_t_current e \<noteq> 0 \<Longrightarrow> pd_rx_list e \<noteq> [] \<Longrightarrow> pd_t_reordering_start e' \<noteq> 0"
    by (simp add: e' pd_update_t_reordering_def Let_def)
qed

lemma pd_accepted:
  assumes inv: "pd_inv e" and c: "pd_rx_deliv e \<le> c" "\<not> nr_pdcp_sdu_in_list (pd_rx_list e) c" "c \<noteq> - 1"
    and sdu: "ps_count sdu = c"
    and e': "e' = pd_update_t_reordering (pd_deliver_in_order c (pd_store_sdu sdu sz e))"
  shows "\<exists>d. pd_advance e d e' \<and> set d \<union> set (pd_rx_list e') = insert sdu (set (pd_rx_list e))
     \<and> (c = pd_rx_deliv e \<longrightarrow> (\<exists>d'. d = sdu # d')) \<and> (c \<noteq> pd_rx_deliv e \<longrightarrow> d = [])"
proof -
  note i = pd_invD[OF inv]
  define e1 where "e1 = pd_store_sdu sdu sz e"
  let ?n = "pd_rx_next e1"
  have c1: "c < c + 1" using inc_less_eq_self_iff_eq[of c] c(3) by (simp add: not_le)
  have f1: "pd_same e e1" "pd_delivered e1 = pd_delivered e" "pd_rx_deliv e1 = pd_rx_deliv e"
    "pd_rx_list e1 = nr_pdcp_sdu_list_add (pd_rx_list e) sdu" "pd_rx_reord e1 = pd_rx_reord e"
    "pd_t_reordering_start e1 = pd_t_reordering_start e"
    "?n = (if pd_rx_next e \<le> c then c + 1 else pd_rx_next e)"
    by (simp_all add: e1_def pd_store_sdu_def Let_def pd_same_def sdu)
  have next1: "pd_rx_next e \<le> ?n" "c < ?n"
    using c1 f1(7) by (auto intro: order.trans less_imp_le)
  have l1: "counts_increasing (pd_rx_list e1)" unfolding f1(4)
    by (rule counts_increasing_add) (use i(2) c(2) sdu in auto)
  have b1: "pd_rx_deliv e \<le> ps_count s \<and> ps_count s < ?n" if "s \<in> set (pd_rx_list e1)" for s
    using that i(3,4)[of s] c(1) next1 sdu unfolding f1(4) by (auto dest: less_le_trans)
  have rd: "pd_rx_deliv e \<le> ?n" using i(5) next1(1) by simp
  have re: "pd_t_reordering_start e \<noteq> 0 \<longrightarrow> pd_rx_reord e \<le> ?n" using i(7) next1(1) order.trans by blast
  have cfg: "pd_config_ok x" if "pd_same e x" for x using i(1) pd_same_config[OF that] by simp
  show ?thesis
  proof (cases "c = pd_rx_deliv e")
    case False
    then have "pd_rx_deliv e < c" using c(1) by simp
    then have gt: "\<forall>s \<in> set (pd_rx_list e1). pd_rx_deliv e1 < ps_count s \<and> ps_count s < ?n"
      using b1 i(3) sdu by (auto simp: f1)
    have "e' = pd_update_t_reordering e1"
      using False by (simp add: e' e1_def[symmetric] pd_deliver_in_order_def f1)
    note u' = pd_update_t_reordering_inv[OF cfg[OF f1(1)] l1 gt rd[folded f1(3)] re[folded f1(5,6)] this]
    show ?thesis
      by (intro exI[of _ "[]"])
        (use u' f1(1-4) next1(1) False pd_same_trans[OF f1(1) u'(2)] in \<open>simp add: pd_advance_def\<close>)
  next
    case True
    obtain c' e2 where d2: "pd_deliver_from c (pd_rx_list e1) e1 = (c', e2)" by fastforce
    have fr: "pd_same e1 e2" "pd_vars e2 = pd_vars e1" using pd_deliver_from_frame[OF d2] by auto
    obtain d where d: "pd_rx_list e1 = d @ pd_rx_list e2" "pd_delivered e2 = pd_delivered e1 @ d"
      "\<forall>s \<in> set d. c \<le> ps_count s \<and> ps_count s < c'" "\<forall>s \<in> set (pd_rx_list e2). c' < ps_count s"
      "c \<le> c'" "c' \<le> ?n"
      using pd_deliver_from_spec[OF d2 l1, of ?n] b1 rd True by auto
    define e3 where "e3 = e2\<lparr>pd_rx_deliv := c'\<rparr>"
    have f3: "pd_same e1 e3" "pd_rx_deliv e3 = c'" "pd_rx_next e3 = ?n" "pd_rx_list e3 = pd_rx_list e2"
      "pd_delivered e3 = pd_delivered e1 @ d" "pd_rx_reord e3 = pd_rx_reord e"
      "pd_t_reordering_start e3 = pd_t_reordering_start e"
      using fr d(2) f1 by (auto simp: e3_def pd_vars_def pd_same_def)
    have e3: "e' = pd_update_t_reordering e3"
      using True d2 by (simp add: e' e1_def[symmetric] pd_deliver_in_order_def f1 e3_def)
    have inc: "counts_increasing d" "counts_increasing (pd_rx_list e3)"
      using l1 unfolding d(1) counts_increasing_append by (simp_all add: f3)
    have gt: "\<forall>s \<in> set (pd_rx_list e3). pd_rx_deliv e3 < ps_count s \<and> ps_count s < pd_rx_next e3"
      using d(4) b1 unfolding d(1) by (auto simp: f3)
    have same: "pd_same e e3" using pd_same_trans[OF f1(1) f3(1)] .
    note u' = pd_update_t_reordering_inv[OF cfg[OF same] inc(2) gt d(6)[folded f3(2,3)] _ e3, unfolded f3(3,6,7), OF re]
    have "sdu \<in> set d"
      using d(1,4,5) sdu f1(4) by (metis Un_iff insertI1 linorder_not_less pdcp_list_add_set(1) set_append)
    moreover have "c \<le> ps_count x" if "x \<in> set d" for x using d(3) that by simp
    ultimately have hd: "\<exists>d'. d = sdu # d'"
      using inc(1) sdu by (cases d) (auto simp: not_less[symmetric])
    have "set d \<union> set (pd_rx_list e2) = insert sdu (set (pd_rx_list e))"
      using arg_cong[OF d(1), of set] unfolding f1(4) by simp
    then show ?thesis
      by (intro exI[of _ d])
        (use u' f1(2) f3(2-5) next1(1) True hd pd_same_trans[OF same u'(2)] d(3,5) inc in \<open>simp add: pd_advance_def\<close>)
  qed
qed


section \<open>Reception of a PDU\<close>

text \<open>The buffer after the correction of the D/C bit, and what a discarded PDU leaves alone.\<close>

definition pd_marked :: "nr_pdcp_entity \<Rightarrow> byte list \<Rightarrow> byte list" where
  "pd_marked e buffer =
     (if pd_type e \<noteq> NR_PDCP_SRB \<and> buffer ! 0 AND 128 = 0
      then buffer[0 := buffer ! 0 OR 128] else buffer)"

definition pd_view :: "nr_pdcp_entity \<Rightarrow> nr_pdcp_sdu list \<times> int \<times> nr_pdcp_sdu list \<times> u32 \<times> u32 \<times> u32 \<times> u64 \<times> u64" where
  "pd_view e = (pd_rx_list e, pd_rx_size e, pd_delivered e, pd_vars e)"

definition pd_ignored :: "nr_pdcp_entity \<Rightarrow> nr_pdcp_entity \<Rightarrow> bool" where
  "pd_ignored e e' \<longleftrightarrow> (\<exists>s. e' = e\<lparr>pd_stats := s\<rparr>)"

lemma pd_ignoredI [intro]: "pd_ignored e e" "pd_ignored e (e\<lparr>pd_stats := s\<rparr>)"
  unfolding pd_ignored_def by (metis nr_pdcp_entity.surjective nr_pdcp_entity.update_convs(25)) blast

lemma pd_read_sn_cong: "pd_sn_size e' = pd_sn_size e \<Longrightarrow> pd_read_sn e' b = pd_read_sn e b"
  by (simp add: pd_read_sn_def)

lemma pd_stats_irrelevant [simp]:
  "pd_cipher cx (e\<lparr>pd_stats := s\<rparr>) = pd_cipher cx e" "pd_integrity cx (e\<lparr>pd_stats := s\<rparr>) = pd_integrity cx e"
  "pd_header_size (e\<lparr>pd_stats := s\<rparr>) = pd_header_size e"
  "pd_integrity_size (e\<lparr>pd_stats := s\<rparr>) = pd_integrity_size e"
  "pd_rcvd_count (e\<lparr>pd_stats := s\<rparr>) = pd_rcvd_count e"
  by (simp_all add: fun_eq_iff pd_cipher_def pd_integrity_def pd_header_size_def pd_integrity_size_def
      pd_rcvd_count_def Let_def cong: option.case_cong if_cong)

lemma pd_unprotect_stats: "pd_unprotect cx (e\<lparr>pd_stats := s\<rparr>) b c = pd_unprotect cx e b c"
  by (simp add: pd_unprotect_def)

definition pd_plain_sdu :: "nr_pdcp_entity \<Rightarrow> byte list \<Rightarrow> byte list \<Rightarrow> u32 \<Rightarrow> nr_pdcp_sdu" where
  "pd_plain_sdu e buffer buffer1 c =
     nr_pdcp_new_sdu c (take (length buffer - pd_header_size e - pd_integrity_size e) (drop (pd_header_size e) buffer1))
       (pd_msg_integrity e buffer c)"

lemma pd_recv_cases [consumes 1, case_names ignored accepted]:
  assumes run: "nr_pdcp_entity_recv_pdu cx e buf = Inr e'"
  obtains "pd_ignored e e'"
  | s sn c buf1 sdu where "\<not> pd_suspended e" "pd_read_sn e (pd_marked e buf) = Inr sn" "c = pd_rcvd_count e sn"
      "pd_unprotect cx e (pd_marked e buf) c = Inr (buf1, True)" "pd_rx_deliv e \<le> c"
      "\<not> nr_pdcp_sdu_in_list (pd_rx_list e) c" "sdu = pd_plain_sdu e (pd_marked e buf) buf1 c"
      "pd_header_size e + pd_integrity_size e < length buf"
      "e' = pd_update_t_reordering (pd_deliver_in_order c
              (pd_store_sdu sdu (int (length buf)) (e\<lparr>pd_stats := s\<rparr>)))"
proof (cases "pd_suspended e \<or> length buf < 1")
  case True
  then have "e' = e" using run by (auto simp: nr_pdcp_entity_recv_pdu_def cong: if_cong)
  then show thesis using that(1) by blast
next
  case False
  then have ns: "\<not> pd_suspended e" and nl: "\<not> length buf < 1" by auto
  let ?b = "pd_marked e buf" and ?sz = "int (length buf)"
  have len: "length ?b = length buf" by (simp add: pd_marked_def)
  define e1 where "e1 = pd_count_stat (\<lambda>s. s\<lparr>ps_rxpdu_pkts := ps_rxpdu_pkts s + 1,
      ps_rxpdu_bytes := ps_rxpdu_bytes s + word_of_int ?sz\<rparr>) e"
  have "rbind (pd_read_sn e1 ?b) (\<lambda>rcvd_sn.
           let e = pd_count_stat (\<lambda>s. s\<lparr>ps_rxpdu_sn := word_of_int rcvd_sn\<rparr>) e1;
               sdap_header_size = (if pd_has_sdap_rx e then 1 else 0)
           in if ?sz < int (pd_header_size e) + sdap_header_size + int (pd_integrity_size e) + 1
              then Inr (pd_discard ?sz e)
              else pd_accept_count cx e ?b (pd_rcvd_count e rcvd_sn)) = Inr e'"
    using run unfolding nr_pdcp_entity_recv_pdu_def if_not_P[OF ns] if_not_P[OF nl] Let_def e1_def pd_marked_def .
  then obtain sn where sn1: "pd_read_sn e1 ?b = Inr sn" and out:
    "let e = pd_count_stat (\<lambda>s. s\<lparr>ps_rxpdu_sn := word_of_int sn\<rparr>) e1;
         sdap_header_size = (if pd_has_sdap_rx e then 1 else 0)
     in (if ?sz < int (pd_header_size e) + sdap_header_size + int (pd_integrity_size e) + 1
         then Inr (pd_discard ?sz e) else pd_accept_count cx e ?b (pd_rcvd_count e sn)) = Inr e'"
    unfolding rbind_eq_Inr Let_def by blast
  have sn: "pd_read_sn e ?b = Inr sn" using sn1 pd_read_sn_cong[of e1 e ?b] by (simp add: e1_def)
  define e2 where "e2 = pd_count_stat (\<lambda>s. s\<lparr>ps_rxpdu_sn := word_of_int sn\<rparr>) e1"
  define s2 where "s2 = pd_stats e2"
  have e2s: "e2 = e\<lparr>pd_stats := s2\<rparr>" by (simp add: s2_def e2_def e1_def)
  have h: "pd_header_size e2 = pd_header_size e" "pd_integrity_size e2 = pd_integrity_size e"
    "pd_rcvd_count e2 sn = pd_rcvd_count e sn" "pd_msg_integrity e2 b c = pd_msg_integrity e b c"
    "pd_unprotect cx e2 b c = pd_unprotect cx e b c" "pd_rx_deliv e2 = pd_rx_deliv e" "pd_rx_list e2 = pd_rx_list e" for b c
    by (simp_all add: e2s pd_msg_integrity_def pd_unprotect_stats)
  have dis: "pd_ignored e (pd_discard z e2)" for z
    unfolding pd_ignored_def by (intro exI[of _ "pd_stats (pd_discard z e2)"]) (simp add: pd_discard_def e2s)
  let ?c = "pd_rcvd_count e sn"
  have "e' = pd_discard ?sz e2
      \<or> pd_accept_count cx e2 ?b ?c = Inr e' \<and> pd_header_size e + pd_integrity_size e < length buf"
    using out unfolding Let_def e2_def[symmetric] h by (auto split: if_splits)
  then show thesis
  proof
    assume "e' = pd_discard ?sz e2"
    then show thesis using that(1) dis by blast
  next
    assume "pd_accept_count cx e2 ?b ?c = Inr e' \<and> pd_header_size e + pd_integrity_size e < length buf"
    then have "pd_accept_count cx e2 ?b ?c = Inr e'" and long: "pd_header_size e + pd_integrity_size e < length buf" by auto
    then obtain buf1 v where u: "pd_unprotect cx e ?b ?c = Inr (buf1, v)"
      and r: "(if \<not> v then Inr (pd_discard ?sz e2)
         else if ?c < pd_rx_deliv e \<or> nr_pdcp_sdu_in_list (pd_rx_list e) ?c then Inr (pd_discard ?sz e2)
         else Inr (pd_update_t_reordering (pd_deliver_in_order ?c
                (pd_store_sdu (pd_plain_sdu e ?b buf1 ?c) ?sz e2)))) = (Inr e' :: nr_pdcp_entity res)"
      unfolding pd_accept_count_def Let_def h len pd_plain_sdu_def rbind_eq_Inr split_paired_Ex prod.case by blast
    show thesis
    proof (cases "v \<and> \<not> (?c < pd_rx_deliv e \<or> nr_pdcp_sdu_in_list (pd_rx_list e) ?c)")
      case True
      then show thesis using that(2)[OF _ sn refl _ _ _ refl, of buf1 s2] False u r long by (auto simp: e2s)
    next
      case no: False
      then have "e' = pd_discard ?sz e2" using r by (auto split: if_splits)
      then show thesis using that(1) dis by blast
    qed
  qed
qed


text \<open>The other direction: a PDU that passes all tests is stored.\<close>

lemma pd_recv_stores:
  assumes ns: "\<not> pd_suspended e" and sn: "pd_read_sn e (pd_marked e buf) = Inr sn" and c: "c = pd_rcvd_count e sn"
    and long: "pd_header_size e + (if pd_has_sdap_rx e then 1 else 0) + pd_integrity_size e + 1 \<le> length buf"
    and u: "pd_unprotect cx e (pd_marked e buf) c = Inr (buf1, True)"
    and fresh: "pd_rx_deliv e \<le> c" "\<not> nr_pdcp_sdu_in_list (pd_rx_list e) c"
  shows "\<exists>s. nr_pdcp_entity_recv_pdu cx e buf = Inr (pd_update_t_reordering (pd_deliver_in_order c
           (pd_store_sdu (pd_plain_sdu e (pd_marked e buf) buf1 c) (int (length buf)) (e\<lparr>pd_stats := s\<rparr>))))"
proof -
  let ?b = "pd_marked e buf" and ?sz = "int (length buf)"
  have nl: "\<not> length buf < 1" using long by linarith
  have len: "length ?b = length buf" by (simp add: pd_marked_def)
  define e1 where "e1 = pd_count_stat (\<lambda>s. s\<lparr>ps_rxpdu_pkts := ps_rxpdu_pkts s + 1,
      ps_rxpdu_bytes := ps_rxpdu_bytes s + word_of_int ?sz\<rparr>) e"
  define e2 where "e2 = pd_count_stat (\<lambda>s. s\<lparr>ps_rxpdu_sn := word_of_int sn\<rparr>) e1"
  define s2 where "s2 = pd_stats e2"
  have e2s: "e2 = e\<lparr>pd_stats := s2\<rparr>" by (simp add: s2_def e2_def e1_def)
  have sn1: "pd_read_sn e1 ?b = Inr sn" using sn pd_read_sn_cong[of e1 e ?b] by (simp add: e1_def)
  have h: "pd_header_size e2 = pd_header_size e" "pd_integrity_size e2 = pd_integrity_size e"
    "pd_rcvd_count e2 sn = pd_rcvd_count e sn" "pd_msg_integrity e2 b c = pd_msg_integrity e b c"
    "pd_unprotect cx e2 b c = pd_unprotect cx e b c" "pd_rx_deliv e2 = pd_rx_deliv e" "pd_rx_list e2 = pd_rx_list e"
    "pd_has_sdap_rx e2 = pd_has_sdap_rx e" for b c
    by (simp_all add: e2s pd_msg_integrity_def pd_unprotect_stats)
  have ge: "\<not> ?sz < int (pd_header_size e) + (if pd_has_sdap_rx e then 1 else 0) + int (pd_integrity_size e) + 1"
    using long by (simp split: if_splits)
  have "nr_pdcp_entity_recv_pdu cx e buf = pd_accept_count cx e2 ?b c"
    unfolding nr_pdcp_entity_recv_pdu_def if_not_P[OF ns] if_not_P[OF nl] Let_def
      e1_def[symmetric] pd_marked_def[symmetric] sn1 rbind_Inr e2_def[symmetric] h if_not_P[OF ge] c ..
  also have "\<dots> = Inr (pd_update_t_reordering (pd_deliver_in_order c
      (pd_store_sdu (pd_plain_sdu e ?b buf1 c) ?sz e2)))"
    using fresh by (simp add: pd_accept_count_def Let_def h u len pd_plain_sdu_def not_less)
  finally show ?thesis unfolding e2s by blast
qed

text \<open>The COUNT a PDU would get is not the largest one, so \<open>RX_NEXT\<close> does not wrap.\<close>

definition pd_count_below :: "nr_pdcp_entity \<Rightarrow> byte list \<Rightarrow> bool" where
  "pd_count_below e buf \<longleftrightarrow>
     (case pd_read_sn e (pd_marked e buf) of Inl _ \<Rightarrow> True | Inr sn \<Rightarrow> pd_rcvd_count e sn \<noteq> - 1)"

lemma pd_stats_inv: "pd_inv (e\<lparr>pd_stats := s\<rparr>) = pd_inv e"
  by (simp add: pd_inv_def pd_config_ok_def)

lemma pd_stats_advance: "pd_advance (e\<lparr>pd_stats := s\<rparr>) d e' = pd_advance e d e'"
  by (simp add: pd_advance_def pd_same_def)

lemma pd_ignored_advance: "pd_inv e \<Longrightarrow> pd_ignored e e' \<Longrightarrow> pd_advance e [] e'"
  by (auto simp: pd_ignored_def pd_advance_def pd_stats_inv pd_same_def)

lemma pd_recv_step:
  assumes inv: "pd_inv e" and run: "nr_pdcp_entity_recv_pdu cx e buf = Inr e'" and below: "pd_count_below e buf"
  shows "pd_ignored e e' \<or> (\<exists>sn sdu d. pd_read_sn e (pd_marked e buf) = Inr sn \<and> ps_count sdu = pd_rcvd_count e sn
     \<and> pd_rx_deliv e \<le> ps_count sdu \<and> ps_count sdu \<notin> ps_count ` set (pd_rx_list e)
     \<and> pd_advance e d e' \<and> set d \<union> set (pd_rx_list e') = insert sdu (set (pd_rx_list e))
     \<and> (ps_count sdu = pd_rx_deliv e \<longrightarrow> (\<exists>d'. d = sdu # d')) \<and> (ps_count sdu \<noteq> pd_rx_deliv e \<longrightarrow> d = []))"
  using run
proof (cases rule: pd_recv_cases)
  case ignored
  then show ?thesis by simp
next
  case (accepted s sn c buf1 sdu)
  have cnt: "ps_count sdu = c" by (simp add: accepted(7) pd_plain_sdu_def)
  have ne: "c \<noteq> - 1" using below accepted(2,3) by (simp add: pd_count_below_def)
  let ?e = "e\<lparr>pd_stats := s\<rparr>"
  obtain d where d: "pd_advance e d e' \<and> set d \<union> set (pd_rx_list e') = insert sdu (set (pd_rx_list e))
     \<and> (c = pd_rx_deliv e \<longrightarrow> (\<exists>d'. d = sdu # d')) \<and> (c \<noteq> pd_rx_deliv e \<longrightarrow> d = [])"
    using pd_accepted[of ?e c sdu e' "int (length buf)"] inv accepted(5,6,9) ne cnt
    by (auto simp: pd_stats_inv pd_stats_advance)
  have "ps_count sdu = pd_rcvd_count e sn" "ps_count sdu \<notin> ps_count ` set (pd_rx_list e)"
    using accepted(3,6) cnt by (simp_all add: sdu_in_list_set)
  then show ?thesis
    by (intro disjI2 exI[of _ sn] exI[of _ sdu] exI[of _ d]) (use d accepted(2,5) cnt in simp)
qed

section \<open>The reordering timer\<close>

lemma check_t_reordering_step:
  assumes inv: "pd_inv e"
  shows "\<exists>d. pd_advance e d (check_t_reordering e) \<and> pd_rx_list e = d @ pd_rx_list (check_t_reordering e)
     \<and> (pd_t_reordering e \<noteq> - 1 \<and> pd_t_reordering_start e \<noteq> 0
        \<and> pd_t_reordering_start e + word_of_int (pd_t_reordering e) < pd_t_current e
        \<longrightarrow> pd_rx_reord e \<le> pd_rx_deliv (check_t_reordering e))"
proof (cases "pd_t_reordering e = - 1 \<or> pd_t_reordering_start e = 0
    \<or> pd_t_current e \<le> pd_t_reordering_start e + word_of_int (pd_t_reordering e)")
  case True
  then have "check_t_reordering e = e" by (auto simp: check_t_reordering_def)
  then show ?thesis using pd_ignored_advance[OF inv pd_ignoredI(1)] True by (auto simp: not_less)
next
  case False
  note i = pd_invD[OF inv]
  define e1 where "e1 = e\<lparr>pd_t_reordering_start := 0\<rparr>"
  define e2 where "e2 = pd_deliver_below (pd_rx_reord e1) (pd_rx_list e1) e1"
  obtain c e3 where d3: "pd_deliver_from (pd_rx_reord e2) (pd_rx_list e2) e2 = (c, e3)" by fastforce
  define e4 where "e4 = e3\<lparr>pd_rx_deliv := c\<rparr>"
  define e' where "e' = (if pd_rx_deliv e4 < pd_rx_next e4
      then e4\<lparr>pd_rx_reord := pd_rx_next e4, pd_t_reordering_start := pd_t_current e4\<rparr> else e4)"
  have run: "check_t_reordering e = e'"
    using False d3 by (simp add: check_t_reordering_def Let_def e1_def[symmetric] e2_def[symmetric] e4_def e'_def)
  have reord: "pd_rx_deliv e < pd_rx_reord e" "pd_rx_reord e \<le> pd_rx_next e" using i(6,7) False by simp_all
  have f1: "pd_same e e1" "pd_rx_list e1 = pd_rx_list e" "pd_rx_reord e1 = pd_rx_reord e"
    "pd_rx_next e1 = pd_rx_next e" "pd_delivered e1 = pd_delivered e" "pd_t_reordering_start e1 = 0"
    by (simp_all add: e1_def pd_same_def)
  have fr2: "pd_same e1 e2" "pd_vars e2 = pd_vars e1" using pd_deliver_below_frame by (auto simp: e2_def)
  have fr3: "pd_same e2 e3" "pd_vars e3 = pd_vars e2" using pd_deliver_from_frame[OF d3] by auto
  obtain da where da: "pd_rx_list e = da @ pd_rx_list e2" "pd_delivered e2 = pd_delivered e @ da"
    "\<forall>s \<in> set da. ps_count s < pd_rx_reord e" "\<forall>s \<in> set (pd_rx_list e2). pd_rx_reord e \<le> ps_count s"
    using pd_deliver_below_spec[of "pd_rx_list e1" "pd_rx_reord e1" e1, folded e2_def, unfolded f1, OF i(2)] by blast
  have r2: "pd_rx_reord e2 = pd_rx_reord e" using fr2(2) f1 by (simp add: pd_vars_def)
  have inc: "counts_increasing da" "counts_increasing (pd_rx_list e2)"
    using i(2) unfolding da(1) counts_increasing_append by auto
  have b2: "\<forall>s \<in> set (pd_rx_list e2). pd_rx_reord e2 \<le> ps_count s \<and> ps_count s < pd_rx_next e"
    using da(1,4) i(4) r2 by auto
  obtain db where db: "pd_rx_list e2 = db @ pd_rx_list e3" "pd_delivered e3 = pd_delivered e2 @ db"
    "\<forall>s \<in> set db. pd_rx_reord e \<le> ps_count s \<and> ps_count s < c" "\<forall>s \<in> set (pd_rx_list e3). c < ps_count s"
    "pd_rx_reord e \<le> c" "c \<le> pd_rx_next e"
    using pd_deliver_from_spec[OF d3 inc(2) b2] reord(2) r2 by auto
  have f4: "pd_same e e'" "pd_rx_deliv e' = c" "pd_rx_next e' = pd_rx_next e" "pd_rx_list e' = pd_rx_list e3"
    "pd_delivered e' = pd_delivered e @ da @ db"
    "pd_t_reordering_start e' \<noteq> 0 \<Longrightarrow> c < pd_rx_reord e' \<and> pd_rx_reord e' \<le> pd_rx_next e'"
    using f1(1,4,6) fr2 fr3 da(2) db(2) by (auto simp: e'_def e4_def pd_vars_def pd_same_def)
  have inc': "counts_increasing (da @ db)" "counts_increasing (pd_rx_list e')"
    using i(2) unfolding da(1) db(1) counts_increasing_append f4(4) by auto
  have inv': "pd_inv e'"
    by (rule pd_invI)
      (use f4 inc'(2) db(1,4,6) b2 i(1) pd_same_config[OF f4(1)] in auto)
  have "\<forall>s \<in> set (da @ db). pd_rx_deliv e \<le> ps_count s \<and> ps_count s < c"
    using i(3) da(1,3) db(1,3,5) reord by (auto intro: less_imp_le less_le_trans)
  moreover have "pd_rx_deliv e \<le> c" using reord(1) db(5) by simp
  ultimately have "pd_advance e (da @ db) e'"
    unfolding pd_advance_def f4(2,3,5) using f4(1) inv' inc'(1) by simp
  then show ?thesis unfolding run using da(1) db(1,5) f4(2,4) by (intro exI[of _ "da @ db"]) simp
qed


section \<open>COUNT\<close>

lemma hfn_arith:
  fixes q q' M r s W :: int
  assumes "M = 2 * W" "0 < W" "0 \<le> r" "r < M" "0 \<le> s" "s < M"
    and "q * M + r - W \<le> q' * M + s" "q' * M + s < q * M + r + W"
  shows "q' = (if s < r - W then q + 1 else if s \<ge> r + W then q - 1 else q)"
proof -
  have k: "(q' - q) * M = (q' * M + s) - (q * M + r) - (s - r)" by (simp add: algebra_simps)
  have uniq: "q' - q = k" if "l = (k - 1) * M" "u = (k + 1) * M" "l < (q' - q) * M" "(q' - q) * M < u" for k l u
  proof -
    have "0 < M" using assms by simp
    then have "k - 1 < q' - q" "q' - q < k + 1" using that by (simp_all add: mult_less_cancel_right)
    then show ?thesis by simp
  qed
  show ?thesis
  proof (cases "s < r - W")
    case True
    have "q' - q = 1" 
    proof (rule uniq)
      show "0 < (q' - q) * M" "(q' - q) * M < 2 * M" unfolding k using assms True by linarith+
    qed simp_all
    then show ?thesis using True by simp
  next
    case False
    show ?thesis
    proof (cases "s \<ge> r + W")
      case True
      have "q' - q = - 1" 
      proof (rule uniq)
        show "- 2 * M < (q' - q) * M" "(q' - q) * M < 0" unfolding k using assms True by linarith+
      qed simp_all
      then show ?thesis using True False by simp
    next
      case mid: False
      have "q' - q = 0" 
      proof (rule uniq)
        show "- M < (q' - q) * M" "(q' - q) * M < M" unfolding k using assms False mid by linarith+
      qed simp_all
      then show ?thesis using mid False by simp
    qed
  qed
qed

lemma pd_low_bits:
  assumes "pd_config_ok e"
  shows "uint (d AND word_of_int (pd_sn_max e) :: u32) = uint d mod 2 ^ pd_sn_size e"
proof -
  have "word_of_int (pd_sn_max e) = (mask (pd_sn_size e) :: u32)"
    using assms by (simp add: pd_config_ok_def mask_eq_exp_minus_1 of_int_mask_eq)
  then show ?thesis by (metis take_bit_eq_mask take_bit_eq_mod unsigned_take_bit_eq)
qed

lemma pd_rcvd_count_eq:
  assumes cfg: "pd_config_ok e"
    and win: "uint (pd_rx_deliv e) - pd_window_size e \<le> uint c" "uint c < uint (pd_rx_deliv e) + pd_window_size e"
  shows "pd_rcvd_count e (uint c mod 2 ^ pd_sn_size e) = c"
proof -
  let ?n = "pd_sn_size e" and ?d = "pd_rx_deliv e"
  let ?M = "2 ^ pd_sn_size e :: int" and ?W = "pd_window_size e"
  have n: "?n < 32" "?M = 2 * ?W" "0 < ?W" using cfg by (auto simp: pd_config_ok_def)
  note sn = pd_low_bits[OF cfg, of ?d]
  have pos: "0 < ?M" by simp
  have h: "uint c div ?M = (if uint c mod ?M < uint ?d mod ?M - ?W then uint ?d div ?M + 1
      else if uint c mod ?M \<ge> uint ?d mod ?M + ?W then uint ?d div ?M - 1 else uint ?d div ?M)"
    by (rule hfn_arith[OF n(2,3) pos_mod_sign[OF pos] pos_mod_bound[OF pos] pos_mod_sign[OF pos] pos_mod_bound[OF pos]])
      (simp_all only: div_mult_mod_eq win)
  have drop: "drop_bit ?n x = word_of_int (uint x div ?M)" for x :: u32
  proof -
    have "uint (drop_bit ?n x) = uint x div ?M" 
      unfolding unsigned_drop_bit_eq using uint_lt2p[of x]
      by (simp only: drop_bit_eq_div take_bit_eq_mod) (simp add: mod_pos_pos_trivial)
    then have "word_of_int (uint (drop_bit ?n x)) = (word_of_int (uint x div ?M) :: u32)" by (rule arg_cong)
    then show ?thesis by simp
  qed
  have "(if uint c mod ?M < uint ?d mod ?M - ?W then drop_bit ?n ?d + 1
      else if uint c mod ?M \<ge> uint ?d mod ?M + ?W then drop_bit ?n ?d - 1 else drop_bit ?n ?d) = drop_bit ?n c"
    unfolding drop h by simp
  then have "pd_rcvd_count e (uint c mod ?M) = push_bit ?n (drop_bit ?n c) OR word_of_int (uint c mod ?M)"
    unfolding pd_rcvd_count_def sn Let_def by simp
  moreover have "word_of_int (uint c mod ?M) = take_bit ?n c"
    by (simp add: take_bit_eq_mod[symmetric] unsigned_take_bit_eq[symmetric])
  moreover have "push_bit ?n (drop_bit ?n c) OR take_bit ?n c = c"
    by (rule bit_word_eqI) (auto simp: bit_simps)
  ultimately show ?thesis by simp
qed

section \<open>Sending, suspension, construction\<close>


lemma deliver_all_loop_spec:
  "pd_delivered (deliver_all_loop l e) = pd_delivered e @ l" "pd_rx_list (deliver_all_loop l e) = []"
  "pd_same e (deliver_all_loop l e)" "pd_t_reordering_start (deliver_all_loop l e) = pd_t_reordering_start e"
proof -
  have "pd_delivered (deliver_all_loop l e) = pd_delivered e @ l \<and> pd_rx_list (deliver_all_loop l e) = []
    \<and> pd_same e (deliver_all_loop l e) \<and> pd_t_reordering_start (deliver_all_loop l e) = pd_t_reordering_start e"
  proof (induction l e rule: deliver_all_loop.induct)
    case (1 e)
    then show ?case by (simp add: pd_same_def)
  next
    case (2 cur l e)
    then show ?case using pd_same_trans[OF pd_deliver_simps(8), of cur e "deliver_all_loop l (pd_deliver cur e)"] by simp
  qed
  then show "pd_delivered (deliver_all_loop l e) = pd_delivered e @ l" "pd_rx_list (deliver_all_loop l e) = []"
    "pd_same e (deliver_all_loop l e)" "pd_t_reordering_start (deliver_all_loop l e) = pd_t_reordering_start e"
    by simp_all
qed

lemma set_security_keeps:
  assumes "nr_pdcp_entity_set_security e p = Inr e'"
  shows "pd_inv e' = pd_inv e" "pd_delivered e' = pd_delivered e" "pd_rx_list e' = pd_rx_list e"
    "pd_rx_deliv e' = pd_rx_deliv e" "pd_rx_next e' = pd_rx_next e" "pd_tx_next e' = pd_tx_next e"
    "pd_t_reordering_start e' = pd_t_reordering_start e" "pd_type e' = pd_type e" "pd_suspended e' = pd_suspended e"
    "pd_rb_id e' = pd_rb_id e" "pd_pdusession_id e' = pd_pdusession_id e" "pd_is_gnb e' = pd_is_gnb e"
    "pd_has_sdap_rx e' = pd_has_sdap_rx e" "pd_has_sdap_tx e' = pd_has_sdap_tx e" "pd_sn_size e' = pd_sn_size e"
proof -
  obtain k c i hc hi where "e' = e\<lparr>pd_keys := k, pd_security_context := c, pd_integrity_context := i,
      pd_has_ciphering := hc, pd_has_integrity := hi\<rparr>"
  proof -
    have "e' = e\<lparr>pd_keys := pd_keys e', pd_security_context := pd_security_context e',
      pd_integrity_context := pd_integrity_context e', pd_has_ciphering := pd_has_ciphering e',
      pd_has_integrity := pd_has_integrity e'\<rparr>"
      using assms by (auto simp: nr_pdcp_entity_set_security_def rbind_eq_Inr pd_set_integrity_def
          pd_set_ciphering_def pd_store_keys_def Let_def split: if_splits)
    then show thesis by (rule that)
  qed
  then show "pd_inv e' = pd_inv e" "pd_delivered e' = pd_delivered e" "pd_rx_list e' = pd_rx_list e"
    "pd_rx_deliv e' = pd_rx_deliv e" "pd_rx_next e' = pd_rx_next e" "pd_tx_next e' = pd_tx_next e"
    "pd_t_reordering_start e' = pd_t_reordering_start e" "pd_type e' = pd_type e" "pd_suspended e' = pd_suspended e"
    "pd_rb_id e' = pd_rb_id e" "pd_pdusession_id e' = pd_pdusession_id e" "pd_is_gnb e' = pd_is_gnb e"
    "pd_has_sdap_rx e' = pd_has_sdap_rx e" "pd_has_sdap_tx e' = pd_has_sdap_tx e" "pd_sn_size e' = pd_sn_size e"
    by (simp_all add: pd_inv_def pd_config_ok_def)
qed


section \<open>Errors\<close>

text \<open>The function pointers \<open>cipher\<close> and \<open>integrity\<close> have their contexts when they are called.\<close>

definition pd_security_ok :: "nr_pdcp_entity \<Rightarrow> bool" where
  "pd_security_ok e \<longleftrightarrow>
     (pd_has_ciphering e \<longrightarrow> pd_security_context e \<noteq> None)
     \<and> (pd_has_integrity e \<longrightarrow> pd_integrity_context e \<noteq> None)"

lemma set_security_ok:
  assumes "nr_pdcp_entity_set_security e p = Inr e'" "pd_security_ok e"
  shows "pd_security_ok e'"
  using assms
  by (auto simp: nr_pdcp_entity_set_security_def rbind_eq_Inr pd_set_integrity_def
      pd_set_ciphering_def pd_store_keys_def pd_security_ok_def Let_def split: if_splits)

lemma pd_unprotect_returns: "pd_security_ok e \<Longrightarrow> \<exists>r. pd_unprotect cx e b c = Inr r"
  by (auto simp: pd_security_ok_def pd_unprotect_def pd_cipher_def pd_integrity_def Let_def
      split: option.splits prod.splits)

lemma pd_read_sn_returns:
  assumes "pd_header_size e \<le> length b"
  shows "\<exists>sn. pd_read_sn e b = Inr sn"
  using assms by (auto simp: pd_read_sn_def pd_header_size_def byte_at_def split: if_splits)

lemma pd_recv_returns:
  assumes "pd_security_ok e" "pd_header_size e \<le> length buf"
  shows "\<exists>e'. nr_pdcp_entity_recv_pdu cx e buf = Inr e'"
proof -
  have acc: "\<exists>e''. pd_accept_count cx e' b c = Inr e''" if "pd_security_ok e'" for e' b c
  proof -
    obtain r where "pd_unprotect cx e' b c = Inr r" using pd_unprotect_returns[OF \<open>pd_security_ok e'\<close>] by blast
    then show ?thesis unfolding pd_accept_count_def Let_def by (cases r) auto
  qed
  have rd: "\<exists>sn. pd_read_sn (e\<lparr>pd_stats := s\<rparr>) (pd_marked e buf) = Inr sn" for s
    by (rule pd_read_sn_returns) (use assms(2) in \<open>simp add: pd_marked_def\<close>)
  have ok: "pd_security_ok (e\<lparr>pd_stats := s\<rparr>)" for s using assms(1) by (simp add: pd_security_ok_def)
  show ?thesis
  proof (cases "pd_suspended e \<or> length buf < 1")
    case True
    then show ?thesis by (auto simp: nr_pdcp_entity_recv_pdu_def cong: if_cong)
  next
    case False
    then have ns: "\<not> pd_suspended e" and nl: "\<not> length buf < 1" by auto
    obtain sn where "pd_read_sn (pd_count_stat (\<lambda>s. s\<lparr>ps_rxpdu_pkts := ps_rxpdu_pkts s + 1,
        ps_rxpdu_bytes := ps_rxpdu_bytes s + word_of_int (int (length buf))\<rparr>) e) (pd_marked e buf) = Inr sn"
      using rd unfolding pd_count_stat_def by blast
    note this[unfolded pd_marked_def]
    then show ?thesis
      unfolding nr_pdcp_entity_recv_pdu_def if_not_P[OF ns] if_not_P[OF nl] Let_def
      using acc[OF ok] by simp
  qed
qed

section \<open>Runs of an entity\<close>



text \<open>An entity of a data bearer without security, and the PDU with sequence number 0 and one byte.\<close>

definition pd_fresh :: nr_pdcp_entity where
  "pd_fresh = projr (new_nr_pdcp_entity NR_PDCP_DRB_UM True 1 1 False False 12 100 0
     \<lparr>sp_integrity_algorithm = 0, sp_ciphering_algorithm = 0, sp_integrity_key = [], sp_ciphering_key = []\<rparr>)"

definition no_crypto :: pdcp_crypto where
  "no_crypto = \<lparr>cx_cipher = (\<lambda>a k d b c r. d), cx_integrity = (\<lambda>a k d b c r. [0, 0, 0, 0])\<rparr>"

lemma pd_fresh_simps:
  "pd_inv pd_fresh" "pd_delivered pd_fresh = []" "pd_rx_list pd_fresh = []" "pd_sn_size pd_fresh = 12"
  "pd_type pd_fresh = NR_PDCP_DRB_UM" "pd_suspended pd_fresh = False" "pd_rx_deliv pd_fresh = 0"
  "pd_rx_next pd_fresh = 0" "pd_has_integrity pd_fresh = False" "pd_has_ciphering pd_fresh = False"
  "pd_has_sdap_rx pd_fresh = False" "pd_sn_max pd_fresh = 4095" "pd_window_size pd_fresh = 2048"
  "pd_t_reordering_start pd_fresh = 0" "pd_t_current pd_fresh = 0" "pd_config_ok pd_fresh" "pd_rx_size pd_fresh = 0"
  by (simp_all add: pd_fresh_def new_nr_pdcp_entity_def nr_pdcp_entity_set_security_def pd_set_integrity_def
      pd_set_ciphering_def pd_store_keys_def pd_inv_def pd_config_ok_def Let_def push_bit_eq_mult)

section \<open>Properties\<close>



text \<open>
  What a received PDU does. A PDU that is not accepted (a bad length, a wrong MAC-I, a COUNT
  already delivered or waiting) changes the statistics only. An accepted one has a new COUNT not
  below \<open>RX_DELIV\<close>; it is delivered at once, with the run of waiting SDUs that follows it, when its
  COUNT is \<open>RX_DELIV\<close>, and waits otherwise; no other SDU is dropped or delivered.
\<close>

theorem pdcp_recv_pdu_accepts_once:
  assumes "pd_inv e" "nr_pdcp_entity_recv_pdu cx e buf = Inr e'" "pd_count_below e buf"
  shows "(\<exists>s. e' = e\<lparr>pd_stats := s\<rparr>)
     \<or> (\<exists>sn sdu d. pd_read_sn e (pd_marked e buf) = Inr sn \<and> ps_count sdu = pd_rcvd_count e sn
          \<and> pd_rx_deliv e \<le> ps_count sdu \<and> ps_count sdu \<notin> ps_count ` set (pd_rx_list e)
          \<and> pd_inv e' \<and> pd_delivered e' = pd_delivered e @ d
          \<and> set d \<union> set (pd_rx_list e') = insert sdu (set (pd_rx_list e))
          \<and> (ps_count sdu = pd_rx_deliv e \<longrightarrow> (\<exists>d'. d = sdu # d')) \<and> (ps_count sdu \<noteq> pd_rx_deliv e \<longrightarrow> d = []))"
  using pd_recv_step[OF assms] unfolding pd_ignored_def pd_advance_def by blast

lemma pd_fresh_reads: "pd_read_sn pd_fresh (pd_marked pd_fresh [128, 0, 42]) = Inr 0"
  by (simp add: pd_read_sn_def pd_marked_def byte_at_def pd_fresh_simps)

lemma pd_fresh_count: "pd_rcvd_count pd_fresh 0 = 0"
  by (simp add: pd_rcvd_count_def pd_fresh_simps)

theorem pdcp_recv_pdu_accepts_once_witness:
  "\<exists>e'. nr_pdcp_entity_recv_pdu no_crypto pd_fresh [128, 0, 42] = Inr e'
     \<and> ((\<exists>s. e' = pd_fresh\<lparr>pd_stats := s\<rparr>) \<or> pd_inv e')"
proof -
  have below: "pd_count_below pd_fresh [128, 0, 42]" by (simp add: pd_count_below_def pd_fresh_reads pd_fresh_count)
  obtain e' where "nr_pdcp_entity_recv_pdu no_crypto pd_fresh [128, 0, 42] = Inr e'"
    using pd_recv_returns[of pd_fresh "[128, 0, 42]" no_crypto]
    by (auto simp: pd_security_ok_def pd_header_size_def pd_fresh_simps)
  then show ?thesis using pdcp_recv_pdu_accepts_once[OF pd_fresh_simps(1) _ below] by blast
qed


text \<open>
  C22: COUNT reconstruction. When the sender's COUNT lies within a window of \<open>RX_DELIV\<close>, on either
  side, the receiver computes exactly that COUNT from its low bits, also where the HFN changes.
\<close>

theorem pdcp_rcvd_count_exact:
  assumes "pd_config_ok e" "uint (pd_rx_deliv e) - pd_window_size e \<le> uint c"
    "uint c < uint (pd_rx_deliv e) + pd_window_size e"
  shows "pd_rcvd_count e (uint c mod 2 ^ pd_sn_size e) = c"
  by (rule pd_rcvd_count_eq[OF assms])

theorem pdcp_rcvd_count_exact_witness:
  "pd_rcvd_count (pd_fresh\<lparr>pd_rx_deliv := 4095\<rparr>) (uint (4096 :: u32) mod 2 ^ 12) = 4096"
  using pdcp_rcvd_count_exact[of "pd_fresh\<lparr>pd_rx_deliv := 4095\<rparr>" 4096] pd_fresh_simps(4,13,16)
  by (simp add: pd_config_ok_def)

text \<open>
  C21: a gap does not block delivery for ever. When the reordering timer is running and its duration
  has passed, \<open>set_time\<close> delivers every waiting SDU with a COUNT below \<open>RX_REORD\<close> and moves
  \<open>RX_DELIV\<close> to \<open>RX_REORD\<close> or beyond.
\<close>

theorem pdcp_reordering_timer_flushes:
  assumes "pd_inv e" "pd_t_reordering e \<noteq> - 1" "pd_t_reordering_start e \<noteq> 0"
    "pd_t_reordering_start e + word_of_int (pd_t_reordering e) < now"
  shows "pd_inv (nr_pdcp_entity_set_time e now)
     \<and> pd_rx_reord e \<le> pd_rx_deliv (nr_pdcp_entity_set_time e now)
     \<and> (\<forall>s \<in> set (pd_rx_list e). ps_count s < pd_rx_reord e \<longrightarrow>
          s \<in> set (pd_delivered (nr_pdcp_entity_set_time e now)))"
proof -
  let ?e = "e\<lparr>pd_t_current := now\<rparr>" and ?e' = "nr_pdcp_entity_set_time e now"
  have inv: "pd_inv ?e" using assms(1) by (simp add: pd_inv_def pd_config_ok_def)
  obtain d where d: "pd_advance ?e d ?e'" "pd_rx_list e = d @ pd_rx_list ?e'" "pd_rx_reord e \<le> pd_rx_deliv ?e'"
    using check_t_reordering_step[OF inv] assms(2-4) by (auto simp: nr_pdcp_entity_set_time_def)
  have i: "pd_inv ?e'" "pd_delivered ?e' = pd_delivered e @ d" using d(1) by (simp_all add: pd_advance_def)
  have "s \<in> set (pd_delivered ?e')" if "s \<in> set (pd_rx_list e)" "ps_count s < pd_rx_reord e" for s
  proof -
    have "s \<notin> set (pd_rx_list ?e')" using pd_invD(3)[OF i(1), of s] that(2) d(3) by auto
    then show ?thesis using that(1) d(2) i(2) by auto
  qed
  then show ?thesis using i(1) d(3) by blast
qed

text \<open>An entity that has received COUNT 1 and waits for COUNT 0.\<close>

definition pd_gap :: nr_pdcp_entity where
  "pd_gap = pd_fresh\<lparr>pd_rx_list := [nr_pdcp_new_sdu 1 [42] \<lparr>mi_count = 0, mi_mac = [], mi_header = [], mi_header_size = 0\<rparr>],
     pd_rx_next := 2, pd_rx_reord := 2, pd_t_current := 5, pd_t_reordering_start := 5\<rparr>"

lemma pd_gap_inv: "pd_inv pd_gap" "pd_t_reordering pd_gap = 100" "pd_t_reordering_start pd_gap = 5"
proof -
  show "pd_inv pd_gap"
    by (rule pd_invI) (use pd_fresh_simps in \<open>simp_all add: pd_gap_def pd_config_ok_def\<close>)
  show "pd_t_reordering pd_gap = 100" "pd_t_reordering_start pd_gap = 5"
    by (simp_all add: pd_gap_def pd_fresh_def new_nr_pdcp_entity_def nr_pdcp_entity_set_security_def pd_set_integrity_def
      pd_set_ciphering_def pd_store_keys_def Let_def)
qed

theorem pdcp_reordering_timer_flushes_witness:
  "pd_rx_list pd_gap \<noteq> [] \<and> 2 \<le> pd_rx_deliv (nr_pdcp_entity_set_time pd_gap 106)"
  using pdcp_reordering_timer_flushes[OF pd_gap_inv(1), of 106] pd_gap_inv(2,3)
  by (simp add: pd_gap_def)

text \<open>
  Suspension hands over everything that waits, in the order of COUNT, resets the window
  variables, and from then on neither direction does anything. (The code flushes when the timer is
  running; without it, nothing may be waiting.)
\<close>

theorem pdcp_suspend_flushes:
  assumes "pd_inv e" "pd_t_reordering_start e \<noteq> 0 \<or> pd_rx_list e = []" "e' = nr_pdcp_entity_suspend e"
    "nr_max_pdcp_pdu_size (int (length sdu)) \<le> m"
  shows "pd_inv e' \<and> pd_rx_list e' = [] \<and> pd_delivered e' = pd_delivered e @ pd_rx_list e
     \<and> pd_tx_next e' = 0 \<and> pd_rx_next e' = 0 \<and> pd_rx_deliv e' = 0
     \<and> nr_pdcp_entity_recv_pdu cx e' buf = Inr e' \<and> nr_pdcp_entity_process_sdu cx e' sdu m = Inr (None, e')"
proof -
  define e1 where "e1 = e\<lparr>pd_tx_next := 0\<rparr>"
  define e2 where "e2 = (if pd_t_reordering_start e1 \<noteq> 0
      then deliver_all_sdus (e1\<lparr>pd_t_reordering_start := 0\<rparr>) else e1)"
  have e': "e' = e2\<lparr>pd_rx_next := 0, pd_rx_deliv := 0, pd_suspended := True\<rparr>"
    unfolding assms(3) nr_pdcp_entity_suspend_def Let_def e2_def e1_def ..
  note l = deliver_all_loop_spec[where l = "pd_rx_list e" and e = "e1\<lparr>pd_t_reordering_start := 0\<rparr>"]
  have f: "pd_rx_list e2 = []" "pd_delivered e2 = pd_delivered e @ pd_rx_list e" "pd_t_reordering_start e2 = 0"
    "pd_config_ok e2" "pd_tx_next e2 = 0"
    using l assms(2) pd_invD(1)[OF assms(1)] pd_same_config[OF l(3)]
    by (auto simp: e2_def e1_def deliver_all_sdus_def pd_same_def pd_config_ok_def)
  have "pd_inv e'" by (rule pd_invI) (use f in \<open>simp_all add: e' pd_config_ok_def\<close>)
  then show ?thesis using f assms(4)
    by (simp add: e' nr_pdcp_entity_recv_pdu_def nr_pdcp_entity_process_sdu_def)
qed

theorem pdcp_suspend_flushes_witness:
  "pd_rx_list pd_gap \<noteq> [] \<and> pd_rx_list (nr_pdcp_entity_suspend pd_gap) = []"
  using pdcp_suspend_flushes[OF pd_gap_inv(1) _ refl, of "[]" 100] pd_gap_inv(3)
  by (simp add: pd_gap_def nr_max_pdcp_pdu_size_def)

end
