(* ===== verification/Pdcp_Wire.thy ===== *)
theory Pdcp_Wire
  imports Pdcp_Order Rlc_Bits
begin

text \<open>
  A PDCP entity and its peer: the PDU that \<open>process_sdu\<close> writes is read back by \<open>recv_pdu\<close>, for
  every algorithm whose ciphering is its own inverse and whose MAC-I has four bytes; the
  constructor and re-establishment; and what goes wrong at the edges of the code.
\<close>

unbundle bit_operations_syntax

section \<open>Peers\<close>

text \<open>What the code relies on of the algorithms of 33.501: a stream cipher and a MAC-I of 32 bits.\<close>

definition crypto_ok :: "pdcp_crypto \<Rightarrow> bool" where
  "crypto_ok cx \<longleftrightarrow>
     (\<forall>a k d b c r. cx_cipher cx a k (cx_cipher cx a k d b c r) b c r = d
        \<and> length (cx_cipher cx a k d b c r) = length d)
     \<and> (\<forall>a k d b c r. length (cx_integrity cx a k d b c r) = 4)"

definition pd_peer :: "nr_pdcp_entity \<Rightarrow> nr_pdcp_entity \<Rightarrow> bool" where
  "pd_peer tx rx \<longleftrightarrow>
     pd_type rx = pd_type tx \<and> pd_rb_id rx = pd_rb_id tx \<and> pd_sn_size rx = pd_sn_size tx
     \<and> pd_has_sdap_rx rx = pd_has_sdap_tx tx
     \<and> pd_has_ciphering rx = pd_has_ciphering tx \<and> pd_has_integrity rx = pd_has_integrity tx
     \<and> pd_security_context rx = pd_security_context tx \<and> pd_integrity_context rx = pd_integrity_context tx
     \<and> pd_is_gnb rx = (\<not> pd_is_gnb tx)"

lemma pd_peer_sizes:
  "pd_peer tx rx \<Longrightarrow> pd_header_size rx = pd_header_size tx"
  "pd_peer tx rx \<Longrightarrow> pd_integrity_size rx = pd_integrity_size tx"
  by (simp_all add: pd_peer_def pd_header_size_def pd_integrity_size_def)

lemma pd_put_header_length [simp]:
  "length (pd_put_header e sn) = pd_header_size e"
  by (simp add: pd_put_header_def pd_header_size_def Let_def)

text \<open>The sequence number of the header, whatever follows it.\<close>

lemma byte_at_simps [simp]:
  "byte_at (b # l) 0 = Inr (uint b)" "byte_at (b # l) (Suc i) = byte_at l i"
  by (simp_all add: byte_at_def)

lemma bit_masks:
  "bit (15 :: int) n \<longleftrightarrow> n < 4" "bit (3 :: int) n \<longleftrightarrow> n < 2" "bit (255 :: int) n \<longleftrightarrow> n < 8"
  "bit (128 :: int) n \<longleftrightarrow> n = 7" "bit (3840 :: int) n \<longleftrightarrow> 8 \<le> n \<and> n < 12"
  "bit (196608 :: int) n \<longleftrightarrow> 16 \<le> n \<and> n < 18"
proof -
  have m: "(15 :: int) = mask 4" "(3 :: int) = mask 2" "(255 :: int) = mask 8"
    "(3840 :: int) = push_bit 8 (mask 4)" "(196608 :: int) = push_bit 16 (mask 2)"
    by (simp_all add: mask_eq_exp_minus_1 push_bit_eq_mult)
  show "bit (15 :: int) n \<longleftrightarrow> n < 4" "bit (3 :: int) n \<longleftrightarrow> n < 2" "bit (255 :: int) n \<longleftrightarrow> n < 8"
    "bit (3840 :: int) n \<longleftrightarrow> 8 \<le> n \<and> n < 12" "bit (196608 :: int) n \<longleftrightarrow> 16 \<le> n \<and> n < 18"
    unfolding m bit_mask_iff bit_push_bit_iff by auto
  have "bit (2 ^ 7 :: int) n \<longleftrightarrow> n = 7" unfolding bit_exp_iff by auto
  then show "bit (128 :: int) n \<longleftrightarrow> n = 7" by simp
qed

lemma bit_bound:
  assumes "0 \<le> (x :: int)" "x < 2 ^ m" "bit x n"
  shows "n < m"
proof -
  have "take_bit m x = x" using assms(1,2) by (simp add: take_bit_int_eq_self)
  then show ?thesis using assms(3) by (metis bit_take_bit_iff)
qed

lemma sn_short:
  assumes "0 \<le> sn" "sn < 2 ^ 12" "d = 0 \<or> d = 128"
  shows "push_bit 8 (uint (word_of_int (d OR (drop_bit 8 sn AND 15)) :: byte) AND 15)
         OR uint (word_of_int (sn AND 255) :: byte) = (sn :: int)"
proof (rule bit_eqI)
  fix n
  show "bit (push_bit 8 (uint (word_of_int (d OR (drop_bit 8 sn AND 15)) :: byte) AND 15)
         OR uint (word_of_int (sn AND 255) :: byte)) n = bit sn n"
    using assms(3) bit_bound[OF assms(1,2), of n]
    by (cases "n < 8") (auto simp: bit_simps bit_masks)
qed

lemma sn_long:
  assumes "0 \<le> sn" "sn < 2 ^ 18" "d = 0 \<or> d = 128"
  shows "push_bit 16 (uint (word_of_int (d OR (drop_bit 16 sn AND 3)) :: byte) AND 3)
         OR push_bit 8 (uint (word_of_int (drop_bit 8 sn AND 255) :: byte))
         OR uint (word_of_int (sn AND 255) :: byte) = (sn :: int)"
proof (rule bit_eqI)
  fix n
  show "bit (push_bit 16 (uint (word_of_int (d OR (drop_bit 16 sn AND 3)) :: byte) AND 3)
         OR push_bit 8 (uint (word_of_int (drop_bit 8 sn AND 255) :: byte))
         OR uint (word_of_int (sn AND 255) :: byte)) n = bit sn n"
    using assms(3) bit_bound[OF assms(1,2), of n]
    by (cases "n < 8"; cases "n < 16") (auto simp: bit_simps bit_masks)
qed

lemma dc_bit_set: "(word_of_int (128 OR (x AND 15)) :: byte) AND 128 \<noteq> 0" "(word_of_int (128 OR (x AND 3)) :: byte) AND 128 \<noteq> 0"
proof -
  have "bit ((word_of_int (128 OR (x AND y)) :: byte) AND 128) 7" for y
    by (simp add: bit_simps bit_masks)
  then show "(word_of_int (128 OR (x AND 15)) :: byte) AND 128 \<noteq> 0" "(word_of_int (128 OR (x AND 3)) :: byte) AND 128 \<noteq> 0"
    by (metis bit_0_eq bot_apply bot_bool_def)+
qed

lemma pd_read_header:
  assumes "pd_config_ok e" "0 \<le> sn" "sn < 2 ^ pd_sn_size e"
    "pd_sn_size rx = pd_sn_size e" "pd_type rx = pd_type e"
  shows "pd_read_sn rx (pd_put_header e sn @ rest) = Inr sn"
    "pd_marked rx (pd_put_header e sn @ rest) = pd_put_header e sn @ rest"
proof -
  show "pd_read_sn rx (pd_put_header e sn @ rest) = Inr sn"
    using assms(1-4) sn_short[of sn 0] sn_short[of sn 128] sn_long[of sn 0] sn_long[of sn 128]
    by (auto simp: pd_read_sn_def pd_put_header_def Let_def pd_config_ok_def numeral_2_eq_2)
  show "pd_marked rx (pd_put_header e sn @ rest) = pd_put_header e sn @ rest"
    using assms(5) dc_bit_set by (cases "pd_type e") (simp_all add: pd_marked_def pd_put_header_def Let_def)
qed


section \<open>Protection\<close>

text \<open>What \<open>process_sdu\<close> produces: header, SDU and MAC-I, ciphered behind the header and the SDAP header.\<close>

definition pd_mac :: "pdcp_crypto \<Rightarrow> nr_pdcp_entity \<Rightarrow> byte list \<Rightarrow> byte list" where
  "pd_mac cx e plain =
     (if pd_has_integrity e
      then case the (pd_integrity_context e) of (alg, key) \<Rightarrow>
             cx_integrity cx alg key plain (pd_rb_id e) (pd_tx_next e) (if pd_is_gnb e then 1 else 0)
      else replicate (pd_integrity_size e) 0)"

definition pd_plain_pdu :: "pdcp_crypto \<Rightarrow> nr_pdcp_entity \<Rightarrow> byte list \<Rightarrow> byte list" where
  "pd_plain_pdu cx e sdu =
     (let plain = pd_put_header e (uint (pd_tx_next e) mod 2 ^ pd_sn_size e) @ sdu
      in plain @ pd_mac cx e plain)"

definition pd_ciphered :: "pdcp_crypto \<Rightarrow> nr_pdcp_entity \<Rightarrow> byte list \<Rightarrow> byte list" where
  "pd_ciphered cx e buf =
     (let clear = pd_header_size e + (if pd_has_sdap_tx e then 1 else 0)
      in if pd_has_ciphering e
         then take clear buf @ (case the (pd_security_context e) of (alg, key) \<Rightarrow>
                cx_cipher cx alg key (drop clear buf) (pd_rb_id e) (pd_tx_next e) (if pd_is_gnb e then 1 else 0))
         else buf)"

lemma pd_process_sdu_eq:
  assumes cfg: "pd_config_ok e" and sec: "pd_security_ok e" and ns: "\<not> pd_suspended e"
    and fit: "nr_max_pdcp_pdu_size (int (length sdu)) \<le> m"
  shows "\<exists>s. nr_pdcp_entity_process_sdu cx e sdu m
     = Inr (Some (pd_ciphered cx e (pd_plain_pdu cx e sdu)), e\<lparr>pd_tx_next := pd_tx_next e + 1, pd_stats := s\<rparr>)"
proof -
  let ?sn = "uint (pd_tx_next e) mod 2 ^ pd_sn_size e"
  let ?d = "if pd_is_gnb e then 1 else 0 :: int"
  let ?plain = "pd_put_header e ?sn @ sdu"
  define e1 where "e1 = pd_count_stat (\<lambda>s. s\<lparr>ps_rxsdu_pkts := ps_rxsdu_pkts s + 1,
      ps_rxsdu_bytes := ps_rxsdu_bytes s + of_nat (length sdu)\<rparr>) e"
  define s1 where "s1 = pd_stats e1"
  have e1: "e1 = e\<lparr>pd_stats := s1\<rparr>" by (simp add: s1_def e1_def)
  have h: "pd_tx_next e1 = pd_tx_next e" "pd_sn_max e1 = pd_sn_max e" "pd_has_sdap_tx e1 = pd_has_sdap_tx e"
    "pd_is_gnb e1 = pd_is_gnb e" "pd_put_header e1 = pd_put_header e" "pd_has_integrity e1 = pd_has_integrity e"
    "pd_integrity cx e1 = pd_integrity cx e" "pd_integrity_size e1 = pd_integrity_size e"
    "pd_header_size e1 = pd_header_size e" "pd_has_ciphering e1 = pd_has_ciphering e" "pd_cipher cx e1 = pd_cipher cx e"
    by (simp_all add: e1 fun_eq_iff pd_put_header_def)
  have mac: "(if pd_has_integrity e then pd_integrity cx e x (pd_tx_next e) ?d else Inr (replicate (pd_integrity_size e) 0))
      = Inr (pd_mac cx e x)" for x
    using sec by (auto simp: pd_security_ok_def pd_integrity_def pd_mac_def)
  have ciph: "(if pd_has_ciphering e then rbind (pd_cipher cx e (drop k x) (pd_tx_next e) ?d) (\<lambda>y. Inr (take k x @ y)) else Inr x)
      = Inr (pd_ciphered cx e x)" if "k = pd_header_size e + (if pd_has_sdap_tx e then 1 else 0)" for k x
    using sec by (auto simp: pd_security_ok_def pd_cipher_def pd_ciphered_def Let_def that)
  have fit': "rcheck (nr_max_pdcp_pdu_size (int (length sdu)) \<le> m) Assert_failed = Inr ()" using fit by simp
  have "nr_pdcp_entity_process_sdu cx e sdu m = Inr (Some (pd_ciphered cx e (pd_plain_pdu cx e sdu)),
      pd_count_stat (\<lambda>s. s\<lparr>ps_txpdu_pkts := ps_txpdu_pkts s + 1,
                      ps_txpdu_bytes := ps_txpdu_bytes s + of_nat (length (pd_plain_pdu cx e sdu)),
                      ps_txpdu_sn := word_of_int ?sn\<rparr>)
                    (e1\<lparr>pd_tx_next := pd_tx_next e + 1\<rparr>))"
    unfolding nr_pdcp_entity_process_sdu_def fit' rbind_Inr if_not_P[OF ns] Let_def e1_def[symmetric] h
      pd_low_bits[OF cfg] mac ciph[OF refl] pd_plain_pdu_def ..
  then show ?thesis by (auto simp: e1)
qed

text \<open>Unprotecting what the peer has protected.\<close>

lemma pd_ciphered_length:
  assumes "crypto_ok cx" "pd_header_size e + (if pd_has_sdap_tx e then 1 else 0) \<le> length b"
  shows "length (pd_ciphered cx e b) = length b"
    "take (pd_header_size e) (pd_ciphered cx e b) = take (pd_header_size e) b"
  using assms by (auto simp: pd_ciphered_def crypto_ok_def Let_def split: prod.splits)

lemma pd_mac_length: "crypto_ok cx \<Longrightarrow> length (pd_mac cx e x) = pd_integrity_size e"
  by (auto simp: pd_mac_def crypto_ok_def pd_integrity_size_def split: prod.splits)

lemma pd_unprotect_peer:
  assumes cx: "crypto_ok cx" and peer: "pd_peer tx rx" and sec: "pd_security_ok tx"
    and len: "(if pd_has_sdap_tx tx then 1 else 0) \<le> length sdu"
  shows "pd_unprotect cx rx (pd_ciphered cx tx (pd_plain_pdu cx tx sdu)) (pd_tx_next tx)
         = Inr (pd_plain_pdu cx tx sdu, True)"
proof -
  let ?plain = "pd_put_header tx (uint (pd_tx_next tx) mod 2 ^ pd_sn_size tx) @ sdu"
  let ?b = "pd_plain_pdu cx tx sdu" and ?k = "pd_header_size tx + (if pd_has_sdap_tx tx then 1 else 0 :: nat)"
  let ?d = "if pd_is_gnb tx then 1 else 0 :: int"
  have b: "?b = ?plain @ pd_mac cx tx ?plain" by (simp add: pd_plain_pdu_def Let_def)
  have k: "?k \<le> length ?b" using len by (simp add: b)
  have p: "pd_has_sdap_rx rx = pd_has_sdap_tx tx" "pd_has_ciphering rx = pd_has_ciphering tx"
    "pd_has_integrity rx = pd_has_integrity tx" "pd_security_context rx = pd_security_context tx"
    "pd_integrity_context rx = pd_integrity_context tx" "(if pd_is_gnb rx then 0 else 1) = ?d" "pd_rb_id rx = pd_rb_id tx"
    using peer by (simp_all add: pd_peer_def)
  note sz = pd_peer_sizes[OF peer]
  have dec: "(if pd_has_ciphering rx
       then rbind (pd_cipher cx rx (drop ?k (pd_ciphered cx tx ?b)) (pd_tx_next tx) ?d)
              (\<lambda>d. Inr (take ?k (pd_ciphered cx tx ?b) @ d))
       else Inr (pd_ciphered cx tx ?b)) = Inr ?b"
  proof (cases "pd_has_ciphering tx")
    case False
    then show ?thesis by (simp add: p pd_ciphered_def)
  next
    case True
    then obtain alg key where ctx: "pd_security_context tx = Some (alg, key)"
      using sec by (auto simp: pd_security_ok_def)
    let ?y = "cx_cipher cx alg key (drop ?k ?b) (pd_rb_id tx) (pd_tx_next tx) ?d"
    have e: "pd_ciphered cx tx ?b = take ?k ?b @ ?y" using True ctx by (simp add: pd_ciphered_def Let_def)
    have t: "take ?k (take ?k ?b @ ?y) = take ?k ?b" "drop ?k (take ?k ?b @ ?y) = ?y"
      using k by simp_all
    have "cx_cipher cx alg key ?y (pd_rb_id tx) (pd_tx_next tx) ?d = drop ?k ?b"
      using cx by (simp add: crypto_ok_def)
    then show ?thesis unfolding e t using True ctx by (simp add: p pd_cipher_def)
  qed
  have n: "length ?b - pd_integrity_size rx = length ?plain" by (simp add: b pd_mac_length[OF cx] sz)
  have mac: "(if pd_has_integrity rx
      then rbind (pd_integrity cx rx (take (length ?plain) ?b) (pd_tx_next tx) ?d)
             (\<lambda>mac. Inr (?b, mac = drop (length ?plain) ?b))
      else Inr (?b, True)) = Inr (?b, True)"
    using sec by (auto simp: p b pd_integrity_def pd_mac_def pd_security_ok_def)
  show ?thesis
    unfolding pd_unprotect_def Let_def p(1) sz(1) p(6) dec rbind_Inr n mac ..
qed


text \<open>What the receiver reads from the header of a protected PDU, on either side of \<open>RX_DELIV\<close>.\<close>

lemma pd_peer_reads:
  assumes cx: "crypto_ok cx" and peer: "pd_peer tx rx" and cfg: "pd_config_ok tx" "pd_config_ok rx"
    and len: "(if pd_has_sdap_tx tx then 1 else 0) \<le> length sdu"
    and win: "uint (pd_rx_deliv rx) - pd_window_size rx \<le> uint (pd_tx_next tx)"
      "uint (pd_tx_next tx) < uint (pd_rx_deliv rx) + pd_window_size rx"
    and pdu: "pdu = pd_ciphered cx tx (pd_plain_pdu cx tx sdu)" and sn: "sn = uint (pd_tx_next tx) mod 2 ^ pd_sn_size tx"
  shows "pd_marked rx pdu = pdu" "pd_read_sn rx (pd_marked rx pdu) = Inr sn" "pd_rcvd_count rx sn = pd_tx_next tx"
    "length pdu = pd_header_size tx + length sdu + pd_integrity_size tx" "length (pd_plain_pdu cx tx sdu) = length pdu"
proof -
  let ?h = "pd_header_size tx"
  have p: "pd_sn_size rx = pd_sn_size tx" "pd_type rx = pd_type tx" using peer by (simp_all add: pd_peer_def)
  have b: "pd_plain_pdu cx tx sdu = (pd_put_header tx sn @ sdu) @ pd_mac cx tx (pd_put_header tx sn @ sdu)"
    by (simp add: pd_plain_pdu_def Let_def sn)
  have lb: "length (pd_plain_pdu cx tx sdu) = ?h + length sdu + pd_integrity_size tx"
    by (simp add: b pd_mac_length[OF cx])
  have k: "?h + (if pd_has_sdap_tx tx then 1 else 0) \<le> length (pd_plain_pdu cx tx sdu)" using len lb by (simp split: if_splits)
  note cl = pd_ciphered_length[OF cx k]
  show "length pdu = ?h + length sdu + pd_integrity_size tx" "length (pd_plain_pdu cx tx sdu) = length pdu"
    by (simp_all add: pdu cl lb)
  have "take ?h pdu = pd_put_header tx sn" unfolding pdu cl(2) by (simp add: b)
  then have split: "pdu = pd_put_header tx sn @ drop ?h pdu" by (metis append_take_drop_id)
  have m: "(0::int) < 2 ^ pd_sn_size tx" by simp
  note hd = pd_read_header[where sn = sn and rest = "drop ?h pdu", OF cfg(1) _ _ p]
  have sn2: "0 \<le> sn" "sn < 2 ^ pd_sn_size tx" using pos_mod_sign[OF m] pos_mod_bound[OF m] by (simp_all add: sn)
  show mk: "pd_marked rx pdu = pdu" using hd(2)[OF sn2] split by argo
  show "pd_read_sn rx (pd_marked rx pdu) = Inr sn" unfolding mk using hd(1)[OF sn2] split by argo
  show "pd_rcvd_count rx sn = pd_tx_next tx"
    unfolding sn p(1)[symmetric] by (rule pd_rcvd_count_eq[OF cfg(2) win])
qed

text \<open>A whole trip of an SDU that the receiver does not have yet.\<close>

lemma pd_trip:
  assumes cx: "crypto_ok cx" and peer: "pd_peer tx rx" and cfg: "pd_config_ok tx" "pd_inv rx"
    and sec: "pd_security_ok tx" and run: "\<not> pd_suspended tx" "\<not> pd_suspended rx"
    and fit: "nr_max_pdcp_pdu_size (int (length sdu)) \<le> m"
    and len: "(if pd_has_sdap_tx tx then 1 else 0) < length sdu"
    and win: "uint (pd_rx_deliv rx) \<le> uint (pd_tx_next tx)"
      "uint (pd_tx_next tx) < uint (pd_rx_deliv rx) + pd_window_size rx"
    and new: "pd_tx_next tx \<notin> ps_count ` set (pd_rx_list rx)" and below: "pd_tx_next tx \<noteq> - 1"
  shows "\<exists>pdu tx' rx' x d. nr_pdcp_entity_process_sdu cx tx sdu m = Inr (Some pdu, tx')
     \<and> nr_pdcp_entity_recv_pdu cx rx pdu = Inr rx' \<and> ps_buffer x = sdu \<and> ps_count x = pd_tx_next tx
     \<and> pd_advance rx d rx' \<and> set d \<union> set (pd_rx_list rx') = insert x (set (pd_rx_list rx))
     \<and> pd_tx_next tx' = pd_tx_next tx + 1
     \<and> (pd_tx_next tx = pd_rx_deliv rx \<longrightarrow> (\<exists>d'. d = x # d')) \<and> (pd_tx_next tx \<noteq> pd_rx_deliv rx \<longrightarrow> d = [])
     \<and> (pd_tx_next tx = pd_rx_deliv rx \<and> pd_rx_list rx = [] \<longrightarrow> pd_rx_deliv rx' = pd_tx_next tx + 1)"
proof -
  let ?c = "pd_tx_next tx" and ?sn = "uint (pd_tx_next tx) mod 2 ^ pd_sn_size tx"
  let ?pdu = "pd_ciphered cx tx (pd_plain_pdu cx tx sdu)" and ?h = "pd_header_size tx"
  obtain s where snd: "nr_pdcp_entity_process_sdu cx tx sdu m
      = Inr (Some ?pdu, tx\<lparr>pd_tx_next := ?c + 1, pd_stats := s\<rparr>)"
    using pd_process_sdu_eq[OF cfg(1) sec run(1) fit] by blast
  have p: "pd_sn_size rx = pd_sn_size tx" "pd_type rx = pd_type tx" "pd_has_sdap_rx rx = pd_has_sdap_tx tx"
    using peer by (simp_all add: pd_peer_def)
  note sz = pd_peer_sizes[OF peer]
  have w: "uint (pd_rx_deliv rx) - pd_window_size rx \<le> uint ?c"
    using win(1) pd_invD(1)[OF cfg(2)] by (auto simp: pd_config_ok_def)
  have len': "(if pd_has_sdap_tx tx then 1 else 0) \<le> length sdu" using len by simp
  note hd = pd_peer_reads[OF cx peer cfg(1) pd_invD(1)[OF cfg(2)] len' w win(2) refl refl]
  have u: "pd_unprotect cx rx (pd_marked rx ?pdu) ?c = Inr (pd_plain_pdu cx tx sdu, True)"
    unfolding hd(1) by (rule pd_unprotect_peer[OF cx peer sec len'])
  have long: "pd_header_size rx + (if pd_has_sdap_rx rx then 1 else 0) + pd_integrity_size rx + 1 \<le> length ?pdu"
    using len by (simp add: sz p hd(4) split: if_splits)
  have le: "pd_rx_deliv rx \<le> ?c" using win(1) by (simp add: word_le_def)
  have nin: "\<not> nr_pdcp_sdu_in_list (pd_rx_list rx) ?c" using new by (simp add: sdu_in_list_set)
  define x where "x = pd_plain_sdu rx (pd_marked rx ?pdu) (pd_plain_pdu cx tx sdu) ?c"
  obtain s' where rcv: "nr_pdcp_entity_recv_pdu cx rx ?pdu = Inr (pd_update_t_reordering (pd_deliver_in_order ?c
      (pd_store_sdu x (int (length ?pdu)) (rx\<lparr>pd_stats := s'\<rparr>))))"
    using pd_recv_stores[OF run(2) hd(2) hd(3)[symmetric] long u le nin] unfolding x_def by blast
  have x: "ps_buffer x = sdu" "ps_count x = ?c"
    unfolding x_def pd_plain_sdu_def hd(1,4) sz by (simp_all add: pd_plain_pdu_def Let_def)
  have "\<exists>d. pd_advance (rx\<lparr>pd_stats := s'\<rparr>) d (pd_update_t_reordering (pd_deliver_in_order ?c
      (pd_store_sdu x (int (length ?pdu)) (rx\<lparr>pd_stats := s'\<rparr>))))
    \<and> set d \<union> set (pd_rx_list (pd_update_t_reordering (pd_deliver_in_order ?c
      (pd_store_sdu x (int (length ?pdu)) (rx\<lparr>pd_stats := s'\<rparr>))))) = insert x (set (pd_rx_list (rx\<lparr>pd_stats := s'\<rparr>)))
    \<and> (?c = pd_rx_deliv (rx\<lparr>pd_stats := s'\<rparr>) \<longrightarrow> (\<exists>d'. d = x # d'))
    \<and> (?c \<noteq> pd_rx_deliv (rx\<lparr>pd_stats := s'\<rparr>) \<longrightarrow> d = [])"
    by (rule pd_accepted[OF _ _ _ below x(2) refl]) (use cfg(2) le nin in \<open>simp_all add: pd_stats_inv\<close>)
  moreover have "pd_rx_deliv (pd_update_t_reordering (pd_deliver_in_order ?c
      (pd_store_sdu x (int (length ?pdu)) (rx\<lparr>pd_stats := s'\<rparr>)))) = ?c + 1" if "?c = pd_rx_deliv rx" "pd_rx_list rx = []"
    using that x(2) by (simp add: pd_update_t_reordering_def pd_deliver_in_order_def pd_store_sdu_def
        nr_pdcp_sdu_list_add_def Let_def)
  ultimately show ?thesis using snd rcv x unfolding pd_stats_advance by (auto simp: eq_commute[of ?c])
qed


section \<open>Examples\<close>

text \<open>A toy algorithm for the examples, and an entity of either side that uses it.\<close>

definition xor_crypto :: pdcp_crypto where
  "xor_crypto = \<lparr>cx_cipher = (\<lambda>a k d b c r. map (\<lambda>x. x XOR 90) d),
     cx_integrity = (\<lambda>a k d b c r. [foldr (XOR) d 0, 1, 2, 3])\<rparr>"

lemma xor_crypto_ok: "crypto_ok xor_crypto"
proof -
  have x: "(\<lambda>x. x XOR 90) \<circ> (\<lambda>x :: byte. x XOR 90) = id" by (rule ext) (simp add: xor.assoc)
  show ?thesis by (simp add: crypto_ok_def xor_crypto_def x)
qed

definition pd_secure :: "bool \<Rightarrow> nr_pdcp_entity" where
  "pd_secure gnb = pd_fresh\<lparr>pd_is_gnb := gnb, pd_has_ciphering := True, pd_security_context := Some (2, [7]),
     pd_has_integrity := True, pd_integrity_context := Some (2, [9])\<rparr>"

lemma pd_secure_simps:
  "pd_peer (pd_secure b) (pd_secure (\<not> b))" "pd_inv (pd_secure b)" "pd_config_ok (pd_secure b)"
  "pd_security_ok (pd_secure b)" "\<not> pd_suspended (pd_secure b)" "pd_has_sdap_tx (pd_secure b) = False"
  "pd_has_sdap_rx (pd_secure b) = False"
  "pd_rx_deliv (pd_secure b) = 0" "pd_tx_next (pd_secure b) = 0" "pd_window_size (pd_secure b) = 2048"
  "pd_rx_list (pd_secure b) = []"
proof -
  have sdap: "pd_has_sdap_tx pd_fresh = False" "pd_tx_next pd_fresh = 0"
    by (simp_all add: pd_fresh_def new_nr_pdcp_entity_def nr_pdcp_entity_set_security_def pd_set_integrity_def
      pd_set_ciphering_def pd_store_keys_def Let_def)
  show "pd_peer (pd_secure b) (pd_secure (\<not> b))" "pd_inv (pd_secure b)" "pd_config_ok (pd_secure b)"
    "pd_security_ok (pd_secure b)" "\<not> pd_suspended (pd_secure b)" "pd_has_sdap_tx (pd_secure b) = False"
    "pd_has_sdap_rx (pd_secure b) = False" "pd_rx_deliv (pd_secure b) = 0" "pd_tx_next (pd_secure b) = 0"
    "pd_window_size (pd_secure b) = 2048" "pd_rx_list (pd_secure b) = []"
    using pd_fresh_simps(1,16)
    by (simp_all add: pd_secure_def pd_peer_def pd_inv_def pd_config_ok_def pd_security_ok_def pd_fresh_simps sdap)
qed

lemma free_rx_list_keeps:
  "pd_delivered (free_rx_list e) = pd_delivered e" "pd_rx_list (free_rx_list e) = []"
  "pd_tx_next (free_rx_list e) = pd_tx_next e" "pd_same e (free_rx_list e)"
proof -
  have "\<exists>s. free_rx_loop l e = e\<lparr>pd_stats := s\<rparr>" for l
  proof (induction l arbitrary: e)
    case Nil
    then show ?case by (intro exI[of _ "pd_stats e"]) simp
  next
    case (Cons x l)
    obtain s where "free_rx_loop l (pd_discard (ps_size x) e) = (pd_discard (ps_size x) e)\<lparr>pd_stats := s\<rparr>"
      using Cons by blast
    then show ?case by (intro exI[of _ s]) (simp add: pd_discard_def)
  qed
  then obtain s where "free_rx_loop (pd_rx_list e) e = e\<lparr>pd_stats := s\<rparr>" by blast
  then show "pd_delivered (free_rx_list e) = pd_delivered e" "pd_rx_list (free_rx_list e) = []"
    "pd_tx_next (free_rx_list e) = pd_tx_next e" "pd_same e (free_rx_list e)"
    by (simp_all add: free_rx_list_def pd_same_def)
qed

section \<open>Properties\<close>

text \<open>
  C19: PDCP end to end. What \<open>process_sdu\<close> sends, with or without ciphering, integrity protection
  and an SDAP header, the peer entity accepts as the SDU with the sender's COUNT, provided the COUNT
  lies in the receiver's window and is new to it: the SDU is delivered at once when it is the next
  one, and stored otherwise. The algorithms are any for which deciphering undoes ciphering and the
  MAC-I has four bytes.
\<close>

theorem pdcp_roundtrip:
  assumes "crypto_ok cx" "pd_peer tx rx" "pd_config_ok tx" "pd_inv rx" "pd_security_ok tx"
    "\<not> pd_suspended tx" "\<not> pd_suspended rx" "nr_max_pdcp_pdu_size (int (length sdu)) \<le> m"
    "(if pd_has_sdap_tx tx then 1 else 0) < length sdu"
    "uint (pd_rx_deliv rx) \<le> uint (pd_tx_next tx)"
    "uint (pd_tx_next tx) < uint (pd_rx_deliv rx) + pd_window_size rx"
    "pd_tx_next tx \<notin> ps_count ` set (pd_rx_list rx)" "pd_tx_next tx \<noteq> - 1"
  shows "\<exists>pdu tx' rx' x. nr_pdcp_entity_process_sdu cx tx sdu m = Inr (Some pdu, tx')
     \<and> nr_pdcp_entity_recv_pdu cx rx pdu = Inr rx' \<and> pd_inv rx'
     \<and> ps_buffer x = sdu \<and> ps_count x = pd_tx_next tx \<and> pd_tx_next tx' = pd_tx_next tx + 1
     \<and> (if pd_tx_next tx = pd_rx_deliv rx then \<exists>d. pd_delivered rx' = pd_delivered rx @ x # d
        else x \<in> set (pd_rx_list rx') \<and> pd_delivered rx' = pd_delivered rx)"
proof -
  obtain pdu tx' rx' x d where t: "nr_pdcp_entity_process_sdu cx tx sdu m = Inr (Some pdu, tx')"
    "nr_pdcp_entity_recv_pdu cx rx pdu = Inr rx'" "ps_buffer x = sdu" "ps_count x = pd_tx_next tx"
    "pd_advance rx d rx'" "set d \<union> set (pd_rx_list rx') = insert x (set (pd_rx_list rx))"
    "pd_tx_next tx' = pd_tx_next tx + 1"
    "pd_tx_next tx = pd_rx_deliv rx \<longrightarrow> (\<exists>d'. d = x # d')" "pd_tx_next tx \<noteq> pd_rx_deliv rx \<longrightarrow> d = []"
    using pd_trip[OF assms] by blast
  have "if pd_tx_next tx = pd_rx_deliv rx then \<exists>d. pd_delivered rx' = pd_delivered rx @ x # d
        else x \<in> set (pd_rx_list rx') \<and> pd_delivered rx' = pd_delivered rx"
    using t(5,6,8,9) by (auto simp: pd_advance_def)
  moreover have "pd_inv rx'" using t(5) by (simp add: pd_advance_def)
  ultimately show ?thesis using t(1-4,7) by blast
qed

theorem pdcp_roundtrip_witness:
  "\<exists>pdu tx' rx' x. nr_pdcp_entity_process_sdu xor_crypto (pd_secure True) [1, 2, 3] 100 = Inr (Some pdu, tx')
     \<and> nr_pdcp_entity_recv_pdu xor_crypto (pd_secure (\<not> True)) pdu = Inr rx'
     \<and> ps_buffer x = [1, 2, 3] \<and> x \<in> set (pd_delivered rx')"
proof -
  have "\<exists>pdu tx' rx' x. nr_pdcp_entity_process_sdu xor_crypto (pd_secure True) [1, 2, 3] 100 = Inr (Some pdu, tx')
     \<and> nr_pdcp_entity_recv_pdu xor_crypto (pd_secure (\<not> True)) pdu = Inr rx' \<and> pd_inv rx'
     \<and> ps_buffer x = [1, 2, 3] \<and> ps_count x = pd_tx_next (pd_secure True)
     \<and> pd_tx_next tx' = pd_tx_next (pd_secure True) + 1
     \<and> (if pd_tx_next (pd_secure True) = pd_rx_deliv (pd_secure (\<not> True))
        then \<exists>d. pd_delivered rx' = pd_delivered (pd_secure (\<not> True)) @ x # d
        else x \<in> set (pd_rx_list rx') \<and> pd_delivered rx' = pd_delivered (pd_secure (\<not> True)))"
    by (rule pdcp_roundtrip[OF xor_crypto_ok pd_secure_simps(1,3,2,4,5,5)])
      (simp_all add: pd_secure_simps nr_max_pdcp_pdu_size_def)
  then obtain pdu tx' rx' x d where
    "nr_pdcp_entity_process_sdu xor_crypto (pd_secure True) [1, 2, 3] 100 = Inr (Some pdu, tx')"
    "nr_pdcp_entity_recv_pdu xor_crypto (pd_secure (\<not> True)) pdu = Inr rx'" "ps_buffer x = [1, 2, 3]"
    "pd_delivered rx' = pd_delivered (pd_secure (\<not> True)) @ x # d"
    unfolding pd_secure_simps by auto
  then show ?thesis by force
qed

text \<open>
  C39: \<open>recv_pdu\<close> on short PDUs. With its security contexts in place it returns for every PDU that
  has a whole header; for a shorter one that is not empty it reads the sequence number beyond the
  end of the buffer, because the size is checked afterwards.
\<close>

theorem pdcp_recv_pdu_reads_before_check:
  assumes "pd_security_ok e" "\<not> pd_suspended e"
  shows "(buf = [] \<or> pd_header_size e \<le> length buf \<longrightarrow> (\<exists>e'. nr_pdcp_entity_recv_pdu cx e buf = Inr e'))
     \<and> (buf \<noteq> [] \<and> length buf < pd_header_size e \<longrightarrow> nr_pdcp_entity_recv_pdu cx e buf = Inl Out_of_bounds)"
proof (intro conjI impI)
  assume "buf = [] \<or> pd_header_size e \<le> length buf"
  then show "\<exists>e'. nr_pdcp_entity_recv_pdu cx e buf = Inr e'"
    using pd_recv_returns[OF assms(1)] by (cases "buf = []") (simp_all add: nr_pdcp_entity_recv_pdu_def[of _ _ "[]"] cong: if_cong)
next
  assume a: "buf \<noteq> [] \<and> length buf < pd_header_size e"
  have nl: "\<not> length buf < 1" using a by (simp add: Suc_le_eq)
  have len: "length (pd_marked e buf) = length buf" by (simp add: pd_marked_def)
  have "pd_read_sn (pd_count_stat f e) (pd_marked e buf) = Inl Out_of_bounds" for f
    using a len by (auto simp: pd_read_sn_def pd_header_size_def byte_at_def split: if_splits)
  note r = this[unfolded pd_marked_def]
  show "nr_pdcp_entity_recv_pdu cx e buf = Inl Out_of_bounds"
    unfolding nr_pdcp_entity_recv_pdu_def if_not_P[OF assms(2)] if_not_P[OF nl] Let_def r by simp
qed

theorem pdcp_recv_pdu_reads_before_check_witness:
  "nr_pdcp_entity_recv_pdu no_crypto (pd_secure True) [128] = Inl Out_of_bounds"
  using pdcp_recv_pdu_reads_before_check[OF pd_secure_simps(4,5), where buf = "[128]"]
  by (simp add: pd_secure_def pd_header_size_def pd_fresh_simps)

lemma pd_new_entity:
  assumes "new_nr_pdcp_entity type is_gnb rb_id pdusession_id has_sdap_rx has_sdap_tx sn_size t_reordering
     discard_timer p = Inr e" "sn_size = 12 \<or> sn_size = 18"
  shows "pd_inv e \<and> pd_security_ok e \<and> pd_delivered e = [] \<and> pd_type e = type \<and> \<not> pd_suspended e
     \<and> pd_rb_id e = rb_id \<and> pd_pdusession_id e = pdusession_id \<and> pd_is_gnb e = is_gnb
     \<and> pd_has_sdap_rx e = has_sdap_rx \<and> pd_has_sdap_tx e = has_sdap_tx \<and> pd_sn_size e = sn_size
     \<and> pd_tx_next e = 0 \<and> pd_rx_deliv e = 0 \<and> pd_rx_list e = []
     \<and> sp_integrity_algorithm p \<in> {- 1, 0, 1, 2} \<and> sp_ciphering_algorithm p \<in> {- 1, 0, 1, 2}"
proof -
  let ?e0 = "\<lparr>pd_type = type, pd_rb_id = rb_id, pd_pdusession_id = pdusession_id,
        pd_has_sdap_rx = has_sdap_rx, pd_has_sdap_tx = has_sdap_tx, pd_sn_size = sn_size,
        pd_t_reordering = t_reordering, pd_discard_timer = discard_timer,
        pd_sn_max = push_bit sn_size 1 - 1, pd_window_size = push_bit (sn_size - 1) 1,
        pd_tx_next = 0, pd_rx_next = 0, pd_rx_deliv = 0, pd_rx_reord = 0, pd_t_current = 0,
        pd_t_reordering_start = 0, pd_has_ciphering = False, pd_has_integrity = False,
        pd_keys = \<lparr>sp_integrity_algorithm = 0, sp_ciphering_algorithm = 0,
                   sp_integrity_key = replicate 16 0, sp_ciphering_key = replicate 16 0\<rparr>,
        pd_security_context = None, pd_integrity_context = None, pd_is_gnb = is_gnb,
        pd_rx_list = [], pd_rx_size = 0, pd_stats = zero_pdcp_stats, pd_suspended = False,
        pd_delivered = []\<rparr>"
  have run: "nr_pdcp_entity_set_security ?e0 p = Inr e" using assms(1) unfolding new_nr_pdcp_entity_def .
  have inv: "pd_inv ?e0" using assms(2) by (auto simp: pd_inv_def pd_config_ok_def push_bit_eq_mult)
  have "sp_integrity_algorithm p \<in> {- 1, 0, 1, 2}" "sp_ciphering_algorithm p \<in> {- 1, 0, 1, 2}"
    using run by (auto simp: nr_pdcp_entity_set_security_def rbind_eq_Inr pd_set_integrity_def pd_set_ciphering_def split: if_splits)
  moreover have "pd_security_ok e" by (rule set_security_ok[OF run]) (simp add: pd_security_ok_def)
  ultimately show ?thesis using set_security_keeps[OF run] inv by simp
qed

lemma pd_new_peer:
  assumes "new_nr_pdcp_entity type b rb_id ps x has_sdap n t d p = Inr tx"
    and "new_nr_pdcp_entity type (\<not> b) rb_id ps' has_sdap y n t' d' p = Inr rx" "n = 12 \<or> n = 18"
  shows "pd_peer tx rx"
proof -
  have "pd_security_context e' = (if sp_ciphering_algorithm p = 0 then None
        else if sp_ciphering_algorithm p = -1 then pd_security_context e
        else Some (sp_ciphering_algorithm p, sp_ciphering_key p))
      \<and> pd_has_ciphering e' = (if sp_ciphering_algorithm p = 0 then False
        else if sp_ciphering_algorithm p = -1 then pd_has_ciphering e else True)
      \<and> pd_integrity_context e' = (if sp_integrity_algorithm p = 0 then None
        else if sp_integrity_algorithm p = -1 then pd_integrity_context e
        else Some (sp_integrity_algorithm p, sp_integrity_key p))
      \<and> pd_has_integrity e' = (if sp_integrity_algorithm p = 0 then False
        else if sp_integrity_algorithm p = -1 then pd_has_integrity e else True)"
    if "nr_pdcp_entity_set_security e p = Inr e'" for e e'
    using that
    by (auto simp: nr_pdcp_entity_set_security_def rbind_eq_Inr pd_set_integrity_def pd_set_ciphering_def
        pd_store_keys_def Let_def split: if_splits)
  note ctx = this[OF assms(1)[unfolded new_nr_pdcp_entity_def]] this[OF assms(2)[unfolded new_nr_pdcp_entity_def]]
  show ?thesis
    using ctx pd_new_entity[OF assms(1,3)] pd_new_entity[OF assms(2,3)] by (simp add: pd_peer_def)
qed

text \<open>
  C29: every entity the constructor returns is well formed: its configuration, its window variables
  and its security contexts satisfy the invariants of the other properties. Unknown algorithms end
  the program.
\<close>

theorem pdcp_new_entity_ok:
  assumes "new_nr_pdcp_entity type is_gnb rb_id pdusession_id has_sdap_rx has_sdap_tx sn_size t_reordering
     discard_timer p = Inr e" "sn_size = 12 \<or> sn_size = 18"
  shows "pd_inv e \<and> pd_security_ok e \<and> pd_delivered e = [] \<and> pd_type e = type \<and> \<not> pd_suspended e
     \<and> sp_integrity_algorithm p \<in> {- 1, 0, 1, 2} \<and> sp_ciphering_algorithm p \<in> {- 1, 0, 1, 2}"
  using pd_new_entity[OF assms] by blast

theorem pdcp_new_entity_ok_witness:
  "\<exists>e. new_nr_pdcp_entity NR_PDCP_DRB_AM True 1 1 True False 18 100 0
     \<lparr>sp_integrity_algorithm = 2, sp_ciphering_algorithm = 0, sp_integrity_key = [7], sp_ciphering_key = []\<rparr> = Inr e
     \<and> pd_inv e"
proof -
  obtain e where e: "new_nr_pdcp_entity NR_PDCP_DRB_AM True 1 1 True False 18 100 0
     \<lparr>sp_integrity_algorithm = 2, sp_ciphering_algorithm = 0, sp_integrity_key = [7], sp_ciphering_key = []\<rparr> = Inr e"
    by (auto simp: new_nr_pdcp_entity_def nr_pdcp_entity_set_security_def pd_set_integrity_def pd_set_ciphering_def)
  show ?thesis using pdcp_new_entity_ok[OF e] e by simp
qed

text \<open>
  Re-establishment, by the type of the bearer. An AM data bearer keeps COUNT and what waits for
  reordering; a UM one starts from zero and, when the reordering timer is running, hands everything
  over first; a signalling bearer starts from zero and drops what waits. No type delivers anything
  else, and the entity is active again.
\<close>

theorem pdcp_reestablish_by_type:
  assumes "nr_pdcp_entity_reestablish e p = Inr e'"
  shows "\<not> pd_suspended e' \<and> pd_type e' = pd_type e \<and>
    (case pd_type e of
       NR_PDCP_DRB_AM \<Rightarrow> pd_tx_next e' = pd_tx_next e \<and> pd_rx_next e' = pd_rx_next e \<and> pd_rx_deliv e' = pd_rx_deliv e
         \<and> pd_rx_list e' = pd_rx_list e \<and> pd_delivered e' = pd_delivered e
     | NR_PDCP_DRB_UM \<Rightarrow> pd_tx_next e' = 0 \<and> pd_rx_next e' = 0 \<and> pd_rx_deliv e' = 0 \<and> pd_t_reordering_start e' = 0
         \<and> (if pd_t_reordering_start e \<noteq> 0 then pd_rx_list e' = [] \<and> pd_delivered e' = pd_delivered e @ pd_rx_list e
            else pd_rx_list e' = pd_rx_list e \<and> pd_delivered e' = pd_delivered e)
     | NR_PDCP_SRB \<Rightarrow> pd_tx_next e' = 0 \<and> pd_rx_next e' = 0 \<and> pd_rx_deliv e' = 0 \<and> pd_t_reordering_start e' = 0
         \<and> pd_rx_list e' = [] \<and> pd_delivered e' = pd_delivered e)"
proof (cases "pd_type e")
  case NR_PDCP_DRB_AM
  then obtain e1 where r: "nr_pdcp_entity_set_security e p = Inr e1" "e' = e1\<lparr>pd_suspended := False\<rparr>"
    using assms by (auto simp: nr_pdcp_entity_reestablish_def nr_pdcp_entity_reestablish_drb_am_def rbind_eq_Inr)
  show ?thesis using set_security_keeps[OF r(1)] r(2) NR_PDCP_DRB_AM by simp
next
  case NR_PDCP_DRB_UM
  define e1 where "e1 = e\<lparr>pd_tx_next := 0\<rparr>"
  define e2 where "e2 = (if pd_t_reordering_start e1 \<noteq> 0 then deliver_all_sdus e1 else e1)"
  define e3 where "e3 = e2\<lparr>pd_t_reordering_start := 0, pd_rx_next := 0, pd_rx_deliv := 0\<rparr>"
  obtain e4 where r: "nr_pdcp_entity_set_security e3 p = Inr e4" "e' = e4\<lparr>pd_suspended := False\<rparr>"
    using assms NR_PDCP_DRB_UM
    unfolding nr_pdcp_entity_reestablish_def nr_pdcp_entity_reestablish_drb_um_def Let_def rbind_eq_Inr
      e1_def[symmetric] e2_def[symmetric] e3_def[symmetric] by (auto simp: rbind_eq_Inr)
  note l = deliver_all_loop_spec[where l = "pd_rx_list e" and e = e1]
  show ?thesis using set_security_keeps[OF r(1)] r(2) NR_PDCP_DRB_UM l
    by (simp add: e3_def e2_def deliver_all_sdus_def) (simp add: e1_def pd_same_def)
next
  case NR_PDCP_SRB
  define e1 where "e1 = (free_rx_list (e\<lparr>pd_tx_next := 0\<rparr>))
                 \<lparr>pd_t_reordering_start := 0, pd_rx_next := 0, pd_rx_deliv := 0\<rparr>"
  obtain e2 where r: "nr_pdcp_entity_set_security e1 p = Inr e2" "e' = e2\<lparr>pd_suspended := False\<rparr>"
    using assms NR_PDCP_SRB
    by (auto simp: nr_pdcp_entity_reestablish_def nr_pdcp_entity_reestablish_srb_def Let_def rbind_eq_Inr e1_def)
  show ?thesis using set_security_keeps[OF r(1)] r(2) NR_PDCP_SRB free_rx_list_keeps[of "e\<lparr>pd_tx_next := 0\<rparr>"]
    by (simp add: e1_def pd_same_def)
qed

theorem pdcp_reestablish_by_type_witness:
  "\<exists>e'. nr_pdcp_entity_reestablish pd_gap
      \<lparr>sp_integrity_algorithm = 0, sp_ciphering_algorithm = 0, sp_integrity_key = [], sp_ciphering_key = []\<rparr> = Inr e'
     \<and> pd_rx_list e' = [] \<and> pd_delivered e' = pd_rx_list pd_gap"
proof -
  let ?p = "\<lparr>sp_integrity_algorithm = 0, sp_ciphering_algorithm = 0, sp_integrity_key = [], sp_ciphering_key = []\<rparr>"
  have f: "pd_type pd_gap = NR_PDCP_DRB_UM" "pd_delivered pd_gap = []" by (simp_all add: pd_gap_def pd_fresh_simps)
  obtain e' where e': "nr_pdcp_entity_reestablish pd_gap ?p = Inr e'"
    by (auto simp: nr_pdcp_entity_reestablish_def f nr_pdcp_entity_reestablish_drb_um_def Let_def
        nr_pdcp_entity_set_security_def pd_set_integrity_def pd_set_ciphering_def)
  show ?thesis using pdcp_reestablish_by_type[OF e'] e' by (auto simp: f pd_gap_inv(3))
qed

text \<open>
  In the first HFN, a PDU whose sequence number lies a window or more ahead of \<open>RX_DELIV\<close> gets
  the HFN \<open>0 - 1\<close>, which wraps around: its COUNT is one of the largest 32 bit values instead of a
  negative one, so it passes the test for old PDUs.
\<close>

theorem pdcp_hfn_wraps_below_zero:
  assumes cfg: "pd_config_ok e" and first: "uint (pd_rx_deliv e) < 2 ^ pd_sn_size e"
    and sn: "uint (pd_rx_deliv e) + pd_window_size e \<le> sn" "sn < 2 ^ pd_sn_size e"
  shows "uint (pd_rcvd_count e sn) = 2 ^ 32 - 2 ^ pd_sn_size e + sn \<and> pd_rx_deliv e < pd_rcvd_count e sn"
proof -
  let ?n = "pd_sn_size e"
  have n: "?n = 12 \<or> ?n = 18" and w: "0 < pd_window_size e" using cfg by (auto simp: pd_config_ok_def)
  have pos: "0 \<le> sn" using sn(1) w uint_nonnegative[of "pd_rx_deliv e"] by linarith
  have low: "uint (pd_rx_deliv e AND word_of_int (pd_sn_max e)) = uint (pd_rx_deliv e)"
    unfolding pd_low_bits[OF cfg] using first by (simp add: mod_pos_pos_trivial)
  have "uint (drop_bit ?n (pd_rx_deliv e)) = 0"
    using first uint_lt2p[of "pd_rx_deliv e"] unfolding unsigned_drop_bit_eq
    by (simp only: drop_bit_eq_div take_bit_eq_mod) (simp add: mod_pos_pos_trivial div_pos_pos_trivial)
  then have hfn: "drop_bit ?n (pd_rx_deliv e) = 0" by (simp add: unsigned_eq_0_iff)
  have "pd_rcvd_count e sn = push_bit ?n (- 1) OR word_of_int sn"
    using sn w by (simp add: pd_rcvd_count_def Let_def low hfn)
  moreover have "push_bit ?n (- 1 :: u32) AND word_of_int sn = 0"
    by (rule bit_word_eqI) (use bit_bound[OF pos sn(2)] in \<open>auto simp: bit_simps\<close>)
  ultimately have "pd_rcvd_count e sn = push_bit ?n (- 1) + word_of_int sn"
    using word_plus_and_or[of "push_bit ?n (- 1 :: u32)" "word_of_int sn"] by simp
  also have "\<dots> = word_of_int (2 ^ 32 - 2 ^ ?n + sn)" using n by (auto simp: push_bit_eq_mult)
  finally have c: "pd_rcvd_count e sn = word_of_int (2 ^ 32 - 2 ^ ?n + sn)" .
  have u: "uint (pd_rcvd_count e sn) = 2 ^ 32 - 2 ^ ?n + sn"
    unfolding c uint_word_of_int using n pos sn(2) by (auto simp: mod_pos_pos_trivial)
  then have "uint (pd_rx_deliv e) < uint (pd_rcvd_count e sn)" using first n pos by auto
  then show ?thesis using u by (simp add: word_less_def)
qed

theorem pdcp_hfn_wraps_below_zero_witness:
  "uint (pd_rcvd_count pd_fresh 4000) = 2 ^ 32 - 96"
  using pdcp_hfn_wraps_below_zero[of pd_fresh 4000] by (simp add: pd_fresh_simps)

text \<open>
  \<open>rx_size\<close> drifts. It grows by the size of the PDU less the header and shrinks by the size of
  the SDU, which is also without the MAC-I: a PDU that is delivered at once leaves the four bytes
  of its MAC-I in the counter.
\<close>

theorem pdcp_rx_size_drifts:
  assumes "pd_inv e" "pd_rx_list e = []" "\<not> pd_has_ciphering e" "nr_pdcp_entity_recv_pdu cx e buf = Inr e'"
    "pd_rx_deliv e' \<noteq> pd_rx_deliv e"
  shows "pd_rx_size e' = pd_rx_size e + int (pd_integrity_size e)"
  using assms(4)
proof (cases rule: pd_recv_cases)
  case ignored
  then show ?thesis using assms(5) by (auto simp: pd_ignored_def)
next
  case (accepted s sn c buf1 sdu)
  have len: "length (pd_marked e buf) = length buf" by (simp add: pd_marked_def)
  have b1: "length buf1 = length buf"
    using accepted(4) assms(3) by (auto simp: pd_unprotect_def Let_def rbind_eq_Inr len split: if_splits)
  have sz: "ps_size sdu = int (length buf) - int (pd_header_size e) - int (pd_integrity_size e)" "ps_count sdu = c"
    using accepted(7,8) by (simp_all add: pd_plain_sdu_def b1 len)
  have c: "c = pd_rx_deliv e"
  proof (rule ccontr)
    assume "c \<noteq> pd_rx_deliv e"
    then have "pd_rx_deliv e' = pd_rx_deliv e"
      unfolding accepted(9) by (simp add: pd_deliver_in_order_def pd_store_sdu_def pd_update_t_reordering_def Let_def)
    then show False using assms(5) by simp
  qed
  show ?thesis
    unfolding accepted(9)
    using c sz assms(2)
    by (simp add: pd_deliver_in_order_def pd_store_sdu_def pd_update_t_reordering_def Let_def
        nr_pdcp_sdu_list_add_def pd_deliver_def)
qed

theorem pdcp_rx_size_drifts_witness:
  "\<exists>e'. nr_pdcp_entity_recv_pdu no_crypto (pd_fresh\<lparr>pd_type := NR_PDCP_SRB\<rparr>) [0, 0, 42, 0, 0, 0, 0] = Inr e' \<and> pd_rx_size e' = 4"
proof -
  let ?e = "pd_fresh\<lparr>pd_type := NR_PDCP_SRB\<rparr>" and ?b = "[0, 0, 42, 0, 0, 0, 0] :: byte list"
  have inv: "pd_inv ?e" using pd_fresh_simps(1) by (simp add: pd_inv_def pd_config_ok_def)
  have mk: "pd_marked ?e ?b = ?b" by (simp add: pd_marked_def)
  have rd: "pd_read_sn ?e (pd_marked ?e ?b) = Inr 0" unfolding mk by (simp add: pd_read_sn_def pd_fresh_simps)
  have cnt: "pd_rcvd_count ?e 0 = 0" by (simp add: pd_rcvd_count_def pd_fresh_simps)
  have un: "pd_unprotect no_crypto ?e (pd_marked ?e ?b) 0 = Inr (?b, True)"
    unfolding mk by (simp add: pd_unprotect_def pd_fresh_simps)
  obtain s where r: "nr_pdcp_entity_recv_pdu no_crypto ?e ?b = Inr (pd_update_t_reordering (pd_deliver_in_order 0
           (pd_store_sdu (pd_plain_sdu ?e (pd_marked ?e ?b) ?b 0) (int (length ?b)) (?e\<lparr>pd_stats := s\<rparr>))))"
    using pd_recv_stores[OF _ rd cnt[symmetric] _ un]
    by (auto simp: pd_fresh_simps pd_header_size_def pd_integrity_size_def)
  have "pd_rx_deliv (pd_update_t_reordering (pd_deliver_in_order 0
           (pd_store_sdu (pd_plain_sdu ?e (pd_marked ?e ?b) ?b 0) (int (length ?b)) (?e\<lparr>pd_stats := s\<rparr>)))) \<noteq> pd_rx_deliv ?e"
    by (simp add: pd_update_t_reordering_def pd_deliver_in_order_def pd_store_sdu_def Let_def pd_fresh_simps
        pd_plain_sdu_def nr_pdcp_sdu_list_add_def)
  then show ?thesis using pdcp_rx_size_drifts[OF inv _ _ r] r
    by (simp add: pd_fresh_simps pd_integrity_size_def)
qed

end
