(* ===== verification/Pdcp_Link.thy ===== *)
theory Pdcp_Link
  imports Pdcp_Wire
begin

text \<open>
  Two PDCP entities and the channel between them. Each side sends SDUs and receives what the channel
  hands it of the PDUs of the other: lost, repeated, delayed and reordered as far as the windows allow,
  with the clock running in between. What is delivered, and what waits, is told by the COUNT values that
  have come in time.
\<close>

section \<open>The link\<close>

text \<open>
  One side: its entity, what it has sent (COUNT, SDU and PDU of each), and the COUNT values of the other
  side that have come when they were not below \<open>RX_DELIV\<close>.
\<close>

record pk_side =
  pk_entity :: nr_pdcp_entity
  pk_sent :: "(u32 \<times> byte list \<times> byte list) list"
  pk_came :: "u32 set"

definition pk_init :: "nr_pdcp_entity \<Rightarrow> pk_side" where
  "pk_init e = \<lparr>pk_entity = e, pk_sent = [], pk_came = {}\<rparr>"

text \<open>A COUNT the receiver can reconstruct: less than a window away from \<open>RX_DELIV\<close>, on either side.\<close>

definition pk_near :: "nr_pdcp_entity \<Rightarrow> u32 \<Rightarrow> bool" where
  "pk_near e c \<longleftrightarrow>
     uint (pd_rx_deliv e) - pd_window_size e \<le> uint c \<and> uint c < uint (pd_rx_deliv e) + pd_window_size e"

text \<open>
  The steps of a side, \<open>p\<close> being the other one. COUNT does not wrap around: the largest value is not
  used (38.323 5.3.1).
\<close>

inductive pk_step :: "pdcp_crypto \<Rightarrow> pk_side \<Rightarrow> pk_side \<Rightarrow> pk_side \<Rightarrow> bool" for cx :: pdcp_crypto and p :: pk_side where
  sdu: "nr_pdcp_entity_process_sdu cx (pk_entity a) sdu m = Inr (Some pdu, e') \<Longrightarrow>
     (if pd_has_sdap_tx (pk_entity a) then 1 else 0) < length sdu \<Longrightarrow> pd_tx_next (pk_entity a) \<noteq> - 1 \<Longrightarrow>
     pk_step cx p a (a\<lparr>pk_entity := e', pk_sent := pk_sent a @ [(pd_tx_next (pk_entity a), sdu, pdu)]\<rparr>)"
| pdu: "(c, sdu, pdu) \<in> set (pk_sent p) \<Longrightarrow> pk_near (pk_entity a) c \<Longrightarrow>
     nr_pdcp_entity_recv_pdu cx (pk_entity a) pdu = Inr e' \<Longrightarrow>
     pk_step cx p a (a\<lparr>pk_entity := e',
        pk_came := (if c < pd_rx_deliv (pk_entity a) then pk_came a else insert c (pk_came a))\<rparr>)"
| tick: "pk_step cx p a (a\<lparr>pk_entity := nr_pdcp_entity_set_time (pk_entity a) now\<rparr>)"

inductive pk_link :: "pdcp_crypto \<Rightarrow> nr_pdcp_entity \<Rightarrow> nr_pdcp_entity \<Rightarrow> pk_side \<Rightarrow> pk_side \<Rightarrow> bool"
  for cx :: pdcp_crypto and e f :: nr_pdcp_entity where
  start: "pk_link cx e f (pk_init e) (pk_init f)"
| left: "pk_link cx e f a b \<Longrightarrow> pk_step cx b a a' \<Longrightarrow> pk_link cx e f a' b"
| right: "pk_link cx e f a b \<Longrightarrow> pk_step cx a b b' \<Longrightarrow> pk_link cx e f a b'"

text \<open>Two entities that can talk to each other: peers in both directions, with nothing on the way.\<close>

definition pk_pair_ok :: "nr_pdcp_entity \<Rightarrow> nr_pdcp_entity \<Rightarrow> bool" where
  "pk_pair_ok e f \<longleftrightarrow>
     pd_peer e f \<and> pd_inv f \<and> pd_security_ok f \<and> \<not> pd_suspended f \<and> pd_rx_list f = [] \<and> pd_rx_deliv f = pd_tx_next e"

section \<open>The PDU of a COUNT\<close>

definition pk_pdu :: "pdcp_crypto \<Rightarrow> nr_pdcp_entity \<Rightarrow> u32 \<Rightarrow> byte list \<Rightarrow> byte list" where
  "pk_pdu cx e c sdu = (let e = e\<lparr>pd_tx_next := c\<rparr> in pd_ciphered cx e (pd_plain_pdu cx e sdu))"

lemma pk_pdu_cong:
  assumes "pd_same (e\<lparr>pd_tx_next := n\<rparr>) (e'\<lparr>pd_tx_next := n\<rparr>)"
  shows "pk_pdu cx e' c sdu = pk_pdu cx e c sdu"
proof -
  have h: "pd_put_header (e'\<lparr>pd_tx_next := c\<rparr>) = pd_put_header (e\<lparr>pd_tx_next := c\<rparr>)"
    using assms by (simp add: pd_same_def fun_eq_iff pd_put_header_def)
  show ?thesis
    unfolding pk_pdu_def pd_plain_pdu_def Let_def h
    using assms by (simp add: pd_same_def pd_ciphered_def pd_mac_def pd_header_size_def pd_integrity_size_def Let_def)
qed

lemma pk_process:
  assumes "nr_pdcp_entity_process_sdu cx e sdu m = Inr (Some pdu, e')" "pd_config_ok e" "pd_security_ok e" "\<not> pd_suspended e"
  shows "pdu = pk_pdu cx e (pd_tx_next e) sdu" "\<exists>s. e' = e\<lparr>pd_tx_next := pd_tx_next e + 1, pd_stats := s\<rparr>"
proof -
  have "nr_max_pdcp_pdu_size (int (length sdu)) \<le> m"
    using assms(1) by (auto simp: nr_pdcp_entity_process_sdu_def rbind_eq_Inr)
  then obtain s where "nr_pdcp_entity_process_sdu cx e sdu m = Inr (Some (pd_ciphered cx e (pd_plain_pdu cx e sdu)),
      e\<lparr>pd_tx_next := pd_tx_next e + 1, pd_stats := s\<rparr>)"
    using pd_process_sdu_eq[OF assms(2-4)] by blast
  then show "pdu = pk_pdu cx e (pd_tx_next e) sdu" "\<exists>s. e' = e\<lparr>pd_tx_next := pd_tx_next e + 1, pd_stats := s\<rparr>"
    using assms(1) by (auto simp: pk_pdu_def)
qed

text \<open>
  The reception of such a PDU: it returns, and the PDU is stored when its COUNT is new, and changes the
  statistics only when it is old or already there.
\<close>

lemma pk_receive:
  assumes cx: "crypto_ok cx" and peer: "pd_peer tx rx" and cfg: "pd_config_ok tx" "pd_inv rx"
    and sec: "pd_security_ok tx" "pd_security_ok rx" and run: "\<not> pd_suspended tx" "\<not> pd_suspended rx"
    and len: "(if pd_has_sdap_tx tx then 1 else 0) < length sdu" and near: "pk_near rx c" and below: "c \<noteq> - 1"
  obtains (new) rx' x d where "nr_pdcp_entity_recv_pdu cx rx (pk_pdu cx tx c sdu) = Inr rx'"
      "pd_rx_deliv rx \<le> c" "c \<notin> ps_count ` set (pd_rx_list rx)" "ps_buffer x = sdu" "ps_count x = c"
      "pd_advance rx d rx'" "set d \<union> set (pd_rx_list rx') = insert x (set (pd_rx_list rx))"
    | (old) rx' where "nr_pdcp_entity_recv_pdu cx rx (pk_pdu cx tx c sdu) = Inr rx'"
      "c < pd_rx_deliv rx \<or> c \<in> ps_count ` set (pd_rx_list rx)"
      "pd_advance rx [] rx'" "pd_rx_list rx' = pd_rx_list rx"
proof -
  let ?tx = "tx\<lparr>pd_tx_next := c\<rparr>" and ?pdu = "pk_pdu cx tx c sdu"
  have tx: "pd_peer ?tx rx" "pd_config_ok ?tx" "pd_security_ok ?tx" "\<not> pd_suspended ?tx"
    "(if pd_has_sdap_tx ?tx then 1 else 0) < length sdu"
    using peer cfg(1) sec(1) run(1) len by (simp_all add: pd_peer_def pd_config_ok_def pd_security_ok_def)
  have pdu: "?pdu = pd_ciphered cx ?tx (pd_plain_pdu cx ?tx sdu)" by (simp add: pk_pdu_def Let_def)
  have near': "uint (pd_rx_deliv rx) - pd_window_size rx \<le> uint (pd_tx_next ?tx)"
    "uint (pd_tx_next ?tx) < uint (pd_rx_deliv rx) + pd_window_size rx"
    using near by (simp_all add: pk_near_def)
  show thesis
  proof (cases "pd_rx_deliv rx \<le> c \<and> c \<notin> ps_count ` set (pd_rx_list rx)")
    case True
    then have n: "uint (pd_rx_deliv rx) \<le> uint (pd_tx_next ?tx)" "pd_tx_next ?tx \<notin> ps_count ` set (pd_rx_list rx)"
      "pd_tx_next ?tx \<noteq> - 1"
      using below by (simp_all add: word_le_def)
    from pd_trip[OF cx tx(1,2) cfg(2) tx(3,4) run(2) order_refl tx(5) n(1) near'(2) n(2,3)]
    obtain pdu tx' rx' x d where
      t: "nr_pdcp_entity_process_sdu cx ?tx sdu (nr_max_pdcp_pdu_size (int (length sdu))) = Inr (Some pdu, tx')"
      "nr_pdcp_entity_recv_pdu cx rx pdu = Inr rx'" "ps_buffer x = sdu" "ps_count x = pd_tx_next ?tx"
      "pd_advance rx d rx'" "set d \<union> set (pd_rx_list rx') = insert x (set (pd_rx_list rx))"
      by blast
    have "pdu = ?pdu" using pk_process(1)[OF t(1) tx(2,3,4)] by (simp add: pk_pdu_def)
    then show thesis using new[OF _ _ _ t(3) _ t(5,6)] t(2,4) True by simp
  next
    case False
    note rd = pd_peer_reads[OF cx tx(1,2) pd_invD(1)[OF cfg(2)] less_imp_le[OF tx(5)] near' pdu refl]
    have "pd_header_size rx \<le> length ?pdu" unfolding rd(4) pd_peer_sizes(1)[OF tx(1)] by simp
    then obtain rx' where r: "nr_pdcp_entity_recv_pdu cx rx ?pdu = Inr rx'" using pd_recv_returns[OF sec(2)] by blast
    have "pd_count_below rx ?pdu" unfolding pd_count_below_def rd(2) using below rd(3) by simp
    from pd_recv_step[OF cfg(2) r this] have ig: "pd_ignored rx rx'"
      using False rd(2,3) by auto
    then have "pd_rx_list rx' = pd_rx_list rx" by (auto simp: pd_ignored_def)
    then show thesis using old r False pd_ignored_advance[OF cfg(2) ig] by (auto simp: not_le)
  qed
qed


section \<open>The invariant of one direction\<close>

definition pk_view :: "nr_pdcp_sdu \<Rightarrow> u32 \<times> byte list" where
  "pk_view x = (ps_count x, ps_buffer x)"

text \<open>What of the SDUs of \<open>p\<close> the COUNT values \<open>C\<close> name, in the order of sending.\<close>

definition pk_sdus :: "pk_side \<Rightarrow> (u32 \<Rightarrow> bool) \<Rightarrow> (u32 \<times> byte list) list" where
  "pk_sdus p C = map (\<lambda>(c, sdu, pdu). (c, sdu)) (filter (\<lambda>(c, sdu, pdu). C c) (pk_sent p))"

definition pk_ok :: "nr_pdcp_entity \<Rightarrow> bool" where
  "pk_ok e \<longleftrightarrow> pd_inv e \<and> pd_security_ok e \<and> \<not> pd_suspended e"

text \<open>The sender: its PDUs are those of its COUNT values, without gaps from the first one on.\<close>

definition pk_sent_ok :: "pdcp_crypto \<Rightarrow> nr_pdcp_entity \<Rightarrow> pk_side \<Rightarrow> bool" where
  "pk_sent_ok cx e0 p \<longleftrightarrow>
     (\<forall>(c, sdu, pdu) \<in> set (pk_sent p). pdu = pk_pdu cx (pk_entity p) c sdu
        \<and> (if pd_has_sdap_tx (pk_entity p) then 1 else 0) < length sdu)
     \<and> sorted_wrt (<) (map fst (pk_sent p))
     \<and> fst ` set (pk_sent p) = {pd_rx_deliv e0..<pd_tx_next (pk_entity p)}
     \<and> pd_rx_deliv e0 \<le> pd_tx_next (pk_entity p)"

definition pk_dir :: "pdcp_crypto \<Rightarrow> nr_pdcp_entity \<Rightarrow> pk_side \<Rightarrow> pk_side \<Rightarrow> bool" where
  "pk_dir cx e0 p a \<longleftrightarrow>
     pd_peer (pk_entity p) (pk_entity a) \<and> pk_sent_ok cx e0 p
     \<and> pd_rx_deliv e0 \<le> pd_rx_deliv (pk_entity a) \<and> pk_came a \<subseteq> fst ` set (pk_sent p)
     \<and> (\<exists>d. pd_delivered (pk_entity a) = pd_delivered e0 @ d \<and> counts_increasing d
          \<and> (\<forall>x \<in> set d. ps_count x < pd_rx_deliv (pk_entity a))
          \<and> pk_view ` (set d \<union> set (pd_rx_list (pk_entity a))) = set (pk_sdus p (\<lambda>c. c \<in> pk_came a)))"

lemma pk_dirD:
  assumes "pk_dir cx e0 p a"
  shows "pd_peer (pk_entity p) (pk_entity a)" "pk_sent_ok cx e0 p"
    "pd_rx_deliv e0 \<le> pd_rx_deliv (pk_entity a)" "pk_came a \<subseteq> fst ` set (pk_sent p)"
    "\<exists>d. pd_delivered (pk_entity a) = pd_delivered e0 @ d \<and> counts_increasing d
          \<and> (\<forall>x \<in> set d. ps_count x < pd_rx_deliv (pk_entity a))
          \<and> pk_view ` (set d \<union> set (pd_rx_list (pk_entity a))) = set (pk_sdus p (\<lambda>c. c \<in> pk_came a))"
  using assms unfolding pk_dir_def by simp_all

lemma pk_sent_okD:
  assumes "pk_sent_ok cx e0 p"
  shows "(c, sdu, pdu) \<in> set (pk_sent p) \<Longrightarrow> pdu = pk_pdu cx (pk_entity p) c sdu"
    "(c, sdu, pdu) \<in> set (pk_sent p) \<Longrightarrow> (if pd_has_sdap_tx (pk_entity p) then 1 else 0) < length sdu"
    "sorted_wrt (<) (map fst (pk_sent p))"
    "fst ` set (pk_sent p) = {pd_rx_deliv e0..<pd_tx_next (pk_entity p)}"
    "pd_rx_deliv e0 \<le> pd_tx_next (pk_entity p)"
  using assms unfolding pk_sent_ok_def by fastforce+

lemma pk_ok_advance: "pk_ok e \<Longrightarrow> pd_advance e d e' \<Longrightarrow> pk_ok e'"
  by (simp add: pk_ok_def pd_advance_def pd_same_def pd_security_ok_def)

lemma pk_ok_sent: "pk_ok e \<Longrightarrow> pk_ok (e\<lparr>pd_tx_next := n, pd_stats := s\<rparr>)"
  by (simp add: pk_ok_def pd_inv_def pd_config_ok_def pd_security_ok_def)

lemma pd_same_peer: "pd_same e e' \<Longrightarrow> pd_peer e f = pd_peer e' f" "pd_same e e' \<Longrightarrow> pd_peer f e = pd_peer f e'"
  by (simp_all add: pd_same_def pd_peer_def)

text \<open>The receiver: it sends something itself, or its reception advances.\<close>

lemma pk_dir_own_sdu:
  assumes "pk_dir cx e0 p a"
  shows "pk_dir cx e0 p (a\<lparr>pk_entity := (pk_entity a)\<lparr>pd_tx_next := n, pd_stats := s\<rparr>, pk_sent := l\<rparr>)"
  using assms unfolding pk_dir_def by (simp add: pd_peer_def)

lemma pk_dir_advance:
  assumes dir: "pk_dir cx e0 p a" and adv: "pd_advance (pk_entity a) d e'"
    and new: "pk_view ` (set d \<union> set (pd_rx_list e')) = V \<union> pk_view ` set (pd_rx_list (pk_entity a))"
    and came: "C \<subseteq> fst ` set (pk_sent p)" "set (pk_sdus p (\<lambda>c. c \<in> C)) = V \<union> set (pk_sdus p (\<lambda>c. c \<in> pk_came a))"
  shows "pk_dir cx e0 p (a\<lparr>pk_entity := e', pk_came := C\<rparr>)"
proof -
  note D = pk_dirD[OF dir]
  from D(5) obtain d0 where d0: "pd_delivered (pk_entity a) = pd_delivered e0 @ d0" "counts_increasing d0"
    "\<forall>x \<in> set d0. ps_count x < pd_rx_deliv (pk_entity a)"
    "pk_view ` (set d0 \<union> set (pd_rx_list (pk_entity a))) = set (pk_sdus p (\<lambda>c. c \<in> pk_came a))" by blast
  have a: "pd_same (pk_entity a) e'" "pd_delivered e' = pd_delivered (pk_entity a) @ d" "counts_increasing d"
    "\<forall>s \<in> set d. pd_rx_deliv (pk_entity a) \<le> ps_count s \<and> ps_count s < pd_rx_deliv e'"
    "pd_rx_deliv (pk_entity a) \<le> pd_rx_deliv e'"
    using adv by (simp_all add: pd_advance_def)
  have "pk_view ` (set (d0 @ d) \<union> set (pd_rx_list e')) = pk_view ` set d0 \<union> (V \<union> pk_view ` set (pd_rx_list (pk_entity a)))"
    using new by (auto simp: image_Un)
  then have v: "pk_view ` (set (d0 @ d) \<union> set (pd_rx_list e')) = set (pk_sdus p (\<lambda>c. c \<in> C))"
    unfolding came(2) d0(4)[symmetric] by (auto simp: image_Un)
  have inc: "counts_increasing (d0 @ d)" "\<forall>x \<in> set (d0 @ d). ps_count x < pd_rx_deliv e'"
    using d0(2,3) a(3-5) by (auto simp: counts_increasing_append dest: less_le_trans)
  have "pd_delivered e' = pd_delivered e0 @ (d0 @ d)" using a(2) d0(1) by simp
  moreover have "pd_rx_deliv e0 \<le> pd_rx_deliv e'" using D(3) a(5) by (rule order_trans)
  moreover have "pd_peer (pk_entity p) e'" using D(1) pd_same_peer(2)[OF a(1)] by simp
  ultimately show ?thesis
    using D(2) came(1) v inc unfolding pk_dir_def by (intro conjI exI[of _ "d0 @ d"]) simp_all
qed

lemma pk_dir_tick:
  assumes "pk_dir cx e0 p a" "pk_ok (pk_entity a)" "e' = nr_pdcp_entity_set_time (pk_entity a) now"
  shows "pk_dir cx e0 p (a\<lparr>pk_entity := e'\<rparr>)" "\<exists>d. pd_advance (pk_entity a) d e'"
proof -
  let ?e = "(pk_entity a)\<lparr>pd_t_current := now\<rparr>"
  have "pd_inv ?e" using assms(2) by (simp add: pk_ok_def pd_inv_def pd_config_ok_def)
  from check_t_reordering_step[OF this] obtain d where d: "pd_advance ?e d e'" "pd_rx_list (pk_entity a) = d @ pd_rx_list e'"
    using assms(3) by (auto simp: nr_pdcp_entity_set_time_def)
  then have adv: "pd_advance (pk_entity a) d e'" by (simp add: pd_advance_def pd_same_def)
  then show "\<exists>d. pd_advance (pk_entity a) d e'" by blast
  have "pk_dir cx e0 p (a\<lparr>pk_entity := e', pk_came := pk_came a\<rparr>)"
    by (rule pk_dir_advance[OF assms(1) adv, of "{}"]) (use d(2) pk_dirD(4)[OF assms(1)] in simp_all)
  then show "pk_dir cx e0 p (a\<lparr>pk_entity := e'\<rparr>)" by simp
qed


lemma pk_sent_okI:
  assumes "\<And>c sdu pdu. (c, sdu, pdu) \<in> set (pk_sent p) \<Longrightarrow>
      pdu = pk_pdu cx (pk_entity p) c sdu \<and> (if pd_has_sdap_tx (pk_entity p) then 1 else 0) < length sdu"
    "sorted_wrt (<) (map fst (pk_sent p))"
    "fst ` set (pk_sent p) = {pd_rx_deliv e0..<pd_tx_next (pk_entity p)}"
    "pd_rx_deliv e0 \<le> pd_tx_next (pk_entity p)"
  shows "pk_sent_ok cx e0 p"
  using assms unfolding pk_sent_ok_def by blast

lemma pk_sdus_set: "set (pk_sdus p C) = {(c, sdu). \<exists>pdu. (c, sdu, pdu) \<in> set (pk_sent p) \<and> C c}"
  unfolding pk_sdus_def by force

text \<open>The sender: an SDU is numbered with the next COUNT; its own reception changes nothing that matters.\<close>

lemma pk_sdus_append: "pk_sdus (p\<lparr>pk_sent := pk_sent p @ [(c, sdu, pdu)]\<rparr>) C = pk_sdus p C @ (if C c then [(c, sdu)] else [])"
  by (simp add: pk_sdus_def)

lemma pk_sdus_fields: "pk_sdus (p\<lparr>pk_entity := e, pk_came := K\<rparr>) C = pk_sdus p C" "pk_sdus (p\<lparr>pk_entity := e\<rparr>) C = pk_sdus p C"
  "pk_sdus (p\<lparr>pk_entity := e, pk_sent := l\<rparr>) C = pk_sdus (p\<lparr>pk_sent := l\<rparr>) C"
  by (simp_all add: pk_sdus_def)

lemma atLeastLessThan_word_snoc:
  fixes n :: u32
  assumes "m \<le> n" "n \<noteq> - 1"
  shows "{m..<n + 1} = insert n {m..<n}" "n < n + 1"
proof -
  have u: "uint (n + 1) = uint n + 1"
    using assms(2) word_uint_eq_iff[of n "- 1"] uint_lt2p[of n]
    by (simp add: uint_plus_if' unsigned_minus_1_eq_mask mask_eq_exp_minus_1)
  then show "n < n + 1" by (simp add: word_less_def)
  show "{m..<n + 1} = insert n {m..<n}"
    using assms(1) u by (auto simp: word_less_def word_le_def word_uint_eq_iff)
qed

lemma pk_dir_sent:
  assumes dir: "pk_dir cx e0 p a" and ok: "pk_ok (pk_entity p)"
    and run: "nr_pdcp_entity_process_sdu cx (pk_entity p) sdu m = Inr (Some pdu, e')"
    and len: "(if pd_has_sdap_tx (pk_entity p) then 1 else 0) < length sdu" and below: "pd_tx_next (pk_entity p) \<noteq> - 1"
  shows "pk_dir cx e0 (p\<lparr>pk_entity := e', pk_sent := pk_sent p @ [(pd_tx_next (pk_entity p), sdu, pdu)]\<rparr>) a"
    (is "pk_dir cx e0 ?p a")
proof -
  let ?c = "pd_tx_next (pk_entity p)"
  note D = pk_dirD[OF dir] and S = pk_sent_okD[OF pk_dirD(2)[OF dir]]
  have ok': "pd_config_ok (pk_entity p)" "pd_security_ok (pk_entity p)" "\<not> pd_suspended (pk_entity p)"
    using ok pd_invD(1) by (auto simp: pk_ok_def)
  note pr = pk_process[OF run ok']
  then obtain s where e': "e' = (pk_entity p)\<lparr>pd_tx_next := ?c + 1, pd_stats := s\<rparr>" by blast
  have w: "pk_pdu cx e' c x = pk_pdu cx (pk_entity p) c x" for c x
    by (rule pk_pdu_cong) (simp add: e' pd_same_def)
  note nx = atLeastLessThan_word_snoc[OF S(5) below]
  have notin: "?c \<notin> fst ` set (pk_sent p)" using S(4) by auto
  have ent: "pk_entity ?p = e'" "pk_sent ?p = pk_sent p @ [(?c, sdu, pdu)]" by simp_all
  have t: "pd_tx_next e' = ?c + 1" "pd_has_sdap_tx e' = pd_has_sdap_tx (pk_entity p)" by (simp_all add: e')
  have "pk_sent_ok cx e0 ?p"
  proof (rule pk_sent_okI, unfold ent t)
    show "u = pk_pdu cx e' c s \<and> (if pd_has_sdap_tx (pk_entity p) then 1 else 0) < length s"
      if "(c, s, u) \<in> set (pk_sent p @ [(?c, sdu, pdu)])" for c s u
      unfolding w using that S(1,2)[of c s u] len pr(1) by auto
    show "sorted_wrt (<) (map fst (pk_sent p @ [(?c, sdu, pdu)]))"
      using S(3,4) by (simp add: sorted_wrt_append)
    show "fst ` set (pk_sent p @ [(?c, sdu, pdu)]) = {pd_rx_deliv e0..<?c + 1}"
      unfolding nx(1) using S(4) by simp
    show "pd_rx_deliv e0 \<le> ?c + 1" using S(5) nx(2) by simp
  qed
  moreover have "pk_sdus ?p (\<lambda>c. c \<in> pk_came a) = pk_sdus p (\<lambda>c. c \<in> pk_came a)"
    using D(4) notin by (auto simp: pk_sdus_fields pk_sdus_append)
  ultimately show ?thesis
    using D(1,3,4,5) unfolding pk_dir_def by (auto simp: e' pd_peer_def)
qed

lemma pk_dir_peer:
  assumes "pk_dir cx e0 p a" "pd_same (pk_entity p) e'"
  shows "pk_dir cx e0 (p\<lparr>pk_entity := e', pk_came := K\<rparr>) a"
proof -
  have w: "pk_pdu cx e' c x = pk_pdu cx (pk_entity p) c x" for c x
    by (rule pk_pdu_cong) (use assms(2) in \<open>simp add: pd_same_def\<close>)
  have t: "pd_tx_next e' = pd_tx_next (pk_entity p)" "pd_has_sdap_tx e' = pd_has_sdap_tx (pk_entity p)"
    using assms(2) by (simp_all add: pd_same_def)
  have "pk_sent_ok cx e0 (p\<lparr>pk_entity := e', pk_came := K\<rparr>) = pk_sent_ok cx e0 p"
    by (simp add: pk_sent_ok_def w t)
  then show ?thesis
    using pk_dirD[OF assms(1)] pd_same_peer(1)[OF assms(2)] unfolding pk_dir_def by (simp add: pk_sdus_fields)
qed

text \<open>The reception of a PDU of the channel: it never fails, and keeps the invariant.\<close>

lemma pk_sdus_insert:
  assumes "pk_sent_ok cx e0 p" "(c, sdu, pdu) \<in> set (pk_sent p)"
  shows "set (pk_sdus p (\<lambda>x. x \<in> insert c K)) = {(c, sdu)} \<union> set (pk_sdus p (\<lambda>x. x \<in> K))"
proof -
  have "distinct (map fst (pk_sent p))" using pk_sent_okD(3)[OF assms(1)] by (simp add: strict_sorted_iff)
  then have "s = sdu \<and> u = pdu" if "(c, s, u) \<in> set (pk_sent p)" for s u
    using assms(2) that by (metis eq_key_imp_eq_value prod.inject)
  then show ?thesis unfolding pk_sdus_set using assms(2) by blast
qed

lemma pk_dir_received:
  assumes cx: "crypto_ok cx" and dir: "pk_dir cx e0 p a" and ok: "pk_ok (pk_entity p)" "pk_ok (pk_entity a)"
    and pdu: "(c, sdu, pdu) \<in> set (pk_sent p)" and near: "pk_near (pk_entity a) c"
  obtains e' d where "nr_pdcp_entity_recv_pdu cx (pk_entity a) pdu = Inr e'" "pd_advance (pk_entity a) d e'"
    "pk_dir cx e0 p (a\<lparr>pk_entity := e',
       pk_came := (if c < pd_rx_deliv (pk_entity a) then pk_came a else insert c (pk_came a))\<rparr>)"
proof -
  note D = pk_dirD[OF dir] and S = pk_sent_okD[OF pk_dirD(2)[OF dir]]
  let ?K = "if c < pd_rx_deliv (pk_entity a) then pk_came a else insert c (pk_came a)"
  have mem: "c \<in> fst ` set (pk_sent p)" using pdu by force
  then have below: "c \<noteq> - 1" using S(4) word_order.extremum by (auto simp: leD)
  have K: "?K \<subseteq> fst ` set (pk_sent p)" using D(4) mem by auto
  have inv: "pd_config_ok (pk_entity p)" "pd_inv (pk_entity a)" "pd_security_ok (pk_entity p)"
    "pd_security_ok (pk_entity a)" "\<not> pd_suspended (pk_entity p)" "\<not> pd_suspended (pk_entity a)"
    using ok pd_invD(1) by (auto simp: pk_ok_def)
  have u: "pdu = pk_pdu cx (pk_entity p) c sdu" using S(1)[OF pdu] .
  from cx D(1) inv S(2)[OF pdu] near below show thesis
  proof (cases rule: pk_receive)
    case (new rx' x d)
    have x: "pk_view x = (c, sdu)" using new by (simp add: pk_view_def)
    have ge: "\<not> c < pd_rx_deliv (pk_entity a)" using new(2) by (simp add: not_less)
    have "pk_dir cx e0 p (a\<lparr>pk_entity := rx', pk_came := ?K\<rparr>)"
      by (rule pk_dir_advance[OF dir new(6) _ K, of "{(c, sdu)}"])
        (use new(7) x ge pk_sdus_insert[OF D(2) pdu] in simp_all)
    then show thesis using that[of rx' d] new(1,6) u by simp
  next
    case (old rx')
    have "set (pk_sdus p (\<lambda>x. x \<in> ?K)) = set (pk_sdus p (\<lambda>x. x \<in> pk_came a))"
    proof (cases "c < pd_rx_deliv (pk_entity a)")
      case False
      then obtain x where "x \<in> set (pd_rx_list (pk_entity a))" "ps_count x = c" using old(2) by auto
      then have "(c, ps_buffer x) \<in> set (pk_sdus p (\<lambda>x. x \<in> pk_came a))"
        using D(5) by (force simp: pk_view_def)
      then have "c \<in> pk_came a" by (simp add: pk_sdus_set)
      then show ?thesis by (simp add: insert_absorb)
    qed simp
    then have "pk_dir cx e0 p (a\<lparr>pk_entity := rx', pk_came := ?K\<rparr>)"
      by (intro pk_dir_advance[OF dir old(3) _ K, of "{}"]) (simp_all add: old(4))
    then show thesis using that[of rx' "[]"] old(1,3) u by simp
  qed
qed


section \<open>The runs\<close>

definition pk_inv :: "pdcp_crypto \<Rightarrow> nr_pdcp_entity \<Rightarrow> nr_pdcp_entity \<Rightarrow> pk_side \<Rightarrow> pk_side \<Rightarrow> bool" where
  "pk_inv cx e f a b \<longleftrightarrow> pk_ok (pk_entity a) \<and> pk_ok (pk_entity b) \<and> pk_dir cx f a b \<and> pk_dir cx e b a"

lemma pk_inv_sym: "pk_inv cx e f a b \<longleftrightarrow> pk_inv cx f e b a"
  by (auto simp: pk_inv_def)

lemma pk_inv_init:
  assumes "pk_pair_ok e f" "pk_pair_ok f e"
  shows "pk_inv cx e f (pk_init e) (pk_init f)"
  using assms by (auto simp: pk_inv_def pk_pair_ok_def pk_ok_def pk_dir_def pk_sent_ok_def pk_init_def pk_sdus_def)

lemma pk_step_inv:
  assumes cx: "crypto_ok cx" and step: "pk_step cx p a a'" and inv: "pk_inv cx e f a p"
  shows "pk_inv cx e f a' p"
proof -
  have ok: "pk_ok (pk_entity a)" "pk_ok (pk_entity p)" and dir: "pk_dir cx f a p" "pk_dir cx e p a"
    using inv by (simp_all add: pk_inv_def)
  show ?thesis
    using step
  proof (cases rule: pk_step.cases)
    case (sdu s m pdu e')
    have "pd_config_ok (pk_entity a)" "pd_security_ok (pk_entity a)" "\<not> pd_suspended (pk_entity a)"
      using ok(1) pd_invD(1) by (auto simp: pk_ok_def)
    from pk_process(2)[OF sdu(2) this] obtain t where
      e': "e' = (pk_entity a)\<lparr>pd_tx_next := pd_tx_next (pk_entity a) + 1, pd_stats := t\<rparr>" by blast
    have "pk_dir cx f a' p" unfolding sdu(1) by (rule pk_dir_sent[OF dir(1) ok(1) sdu(2-4)])
    moreover have "pk_dir cx e p a'" unfolding sdu(1) e' by (rule pk_dir_own_sdu[OF dir(2)])
    moreover have "pk_ok (pk_entity a')" unfolding sdu(1) e' using pk_ok_sent[OF ok(1)] by simp
    ultimately show ?thesis using ok(2) by (simp add: pk_inv_def)
  next
    case (pdu c s u e')
    from cx dir(2) ok(2,1) pdu(2,3) obtain e'' d where r: "nr_pdcp_entity_recv_pdu cx (pk_entity a) u = Inr e''"
      "pd_advance (pk_entity a) d e''" "pk_dir cx e p (a\<lparr>pk_entity := e'',
         pk_came := (if c < pd_rx_deliv (pk_entity a) then pk_came a else insert c (pk_came a))\<rparr>)"
      by (rule pk_dir_received)
    have e'': "e'' = e'" using r(1) pdu(4) by simp
    have "pd_same (pk_entity a) e'" using r(2) by (simp add: pd_advance_def e'')
    note pk_dir_peer[OF dir(1) this]
    then show ?thesis
      using r(3) pk_ok_advance[OF ok(1) r(2)] ok(2) unfolding pdu(1) pk_inv_def e'' by simp
  next
    case (tick now)
    note t = pk_dir_tick[OF dir(2) ok(1) refl, of now]
    then obtain d where d: "pd_advance (pk_entity a) d (nr_pdcp_entity_set_time (pk_entity a) now)" by blast
    then have "pd_same (pk_entity a) (nr_pdcp_entity_set_time (pk_entity a) now)" by (simp add: pd_advance_def)
    from pk_dir_peer[OF dir(1) this, of "pk_came a"] show ?thesis
      using t(1) pk_ok_advance[OF ok(1) d] ok(2) unfolding tick pk_inv_def by simp
  qed
qed

lemma pk_link_inv:
  assumes "pk_link cx e f a b" "crypto_ok cx" "pk_pair_ok e f" "pk_pair_ok f e"
  shows "pk_inv cx e f a b"
  using assms
proof (induction rule: pk_link.induct)
  case start
  then show ?case by (intro pk_inv_init)
next
  case (left a b a')
  then show ?case using pk_step_inv by blast
next
  case (right a b b')
  then show ?case using pk_step_inv pk_inv_sym by blast
qed

lemma pk_link_sym: "pk_link cx e f a b \<Longrightarrow> pk_link cx f e b a"
  by (induction rule: pk_link.induct) (auto intro: pk_link.intros)

text \<open>A sorted list is determined by its elements, so what is delivered follows the order of sending.\<close>

lemma sorted_wrt_fst_unique:
  fixes l l' :: "('a :: order \<times> 'b) list"
  assumes "sorted_wrt (\<lambda>x y. fst x < fst y) l" "sorted_wrt (\<lambda>x y. fst x < fst y) l'" "set l = set l'"
  shows "l = l'"
  using assms
proof (induction l arbitrary: l')
  case Nil
  then show ?case by simp
next
  case (Cons x l)
  then obtain y m where l': "l' = y # m" by (cases l') auto
  have hd: "x = y"
  proof (rule ccontr)
    assume "x \<noteq> y"
    then have "y \<in> set l" "x \<in> set m" using Cons.prems(3) unfolding l' by auto
    then have "fst x < fst y" "fst y < fst x" using Cons.prems(1,2) unfolding l' by simp_all
    then show False using less_asym by blast
  qed
  have "x \<notin> set l" "y \<notin> set m" using Cons.prems unfolding l' by auto
  then have "set l = set m" using Cons.prems(3) unfolding l' hd by auto
  then show ?case using Cons.IH[of m] Cons.prems(1,2) unfolding l' hd by simp
qed

lemma pk_sdus_sorted:
  assumes "pk_sent_ok cx e0 p"
  shows "sorted_wrt (\<lambda>x y. fst x < fst y) (pk_sdus p C)"
proof -
  have "sorted_wrt (\<lambda>x y. fst x < fst y) (filter (\<lambda>(c, sdu, pdu). C c) (pk_sent p))"
    using pk_sent_okD(3)[OF assms] by (intro sorted_wrt_filter) (simp add: sorted_wrt_map)
  then show ?thesis unfolding pk_sdus_def sorted_wrt_map by (rule sorted_wrt_mono_rel[rotated]) auto
qed

lemma pk_view_sorted: "counts_increasing l \<Longrightarrow> sorted_wrt (\<lambda>x y. fst x < fst y) (map pk_view l)"
  by (simp add: sorted_wrt_map pk_view_def counts_increasing_def)

lemma pk_dir_lists:
  assumes dir: "pk_dir cx e0 p a" and inv: "pd_inv (pk_entity a)"
  shows "\<exists>d. pd_delivered (pk_entity a) = pd_delivered e0 @ d
     \<and> map pk_view d = pk_sdus p (\<lambda>c. c \<in> pk_came a \<and> c < pd_rx_deliv (pk_entity a))
     \<and> map pk_view (pd_rx_list (pk_entity a)) = pk_sdus p (\<lambda>c. c \<in> pk_came a \<and> pd_rx_deliv (pk_entity a) < c)
     \<and> pd_rx_deliv (pk_entity a) \<notin> pk_came a"
proof -
  let ?r = "pd_rx_deliv (pk_entity a)" and ?l = "pd_rx_list (pk_entity a)"
  note D = pk_dirD[OF dir]
  from D(5) obtain d where d: "pd_delivered (pk_entity a) = pd_delivered e0 @ d" "counts_increasing d"
    "\<forall>x \<in> set d. ps_count x < ?r" "pk_view ` (set d \<union> set ?l) = set (pk_sdus p (\<lambda>c. c \<in> pk_came a))" by blast
  have l: "counts_increasing ?l" "\<forall>x \<in> set ?l. ?r < ps_count x" using pd_invD(2,3)[OF inv] by auto
  have lt: "v \<in> pk_view ` set d \<Longrightarrow> fst v < ?r" "v \<in> pk_view ` set ?l \<Longrightarrow> ?r < fst v" for v
    using d(3) l(2) by (auto simp: pk_view_def)
  have mem: "v \<in> set (pk_sdus p (\<lambda>c. c \<in> pk_came a \<and> Q c)) \<longleftrightarrow> (v \<in> pk_view ` set d \<or> v \<in> pk_view ` set ?l) \<and> Q (fst v)" for v Q
  proof -
    have "v \<in> set (pk_sdus p (\<lambda>c. c \<in> pk_came a \<and> Q c)) \<longleftrightarrow> v \<in> set (pk_sdus p (\<lambda>c. c \<in> pk_came a)) \<and> Q (fst v)"
      unfolding pk_sdus_set by (cases v) auto
    then show ?thesis unfolding d(4)[symmetric] image_Un by blast
  qed
  have "map pk_view d = pk_sdus p (\<lambda>c. c \<in> pk_came a \<and> c < ?r)"
    by (rule sorted_wrt_fst_unique[OF pk_view_sorted[OF d(2)] pk_sdus_sorted[OF D(2)]],
        rule set_eqI, unfold mem set_map, use lt in \<open>blast dest: less_asym\<close>)
  moreover have "map pk_view ?l = pk_sdus p (\<lambda>c. c \<in> pk_came a \<and> ?r < c)"
    by (rule sorted_wrt_fst_unique[OF pk_view_sorted[OF l(1)] pk_sdus_sorted[OF D(2)]],
        rule set_eqI, unfold mem set_map, use lt in \<open>blast dest: less_asym\<close>)
  moreover have "?r \<notin> pk_came a"
  proof
    assume r: "?r \<in> pk_came a"
    then obtain s u where "(?r, s, u) \<in> set (pk_sent p)" using D(4) by fastforce
    then have "(?r, s) \<in> set (pk_sdus p (\<lambda>c. c \<in> pk_came a \<and> True))" using r by (auto simp: pk_sdus_set)
    then show False unfolding mem using lt[of "(?r, s)"] by auto
  qed
  ultimately show ?thesis using d(1) by blast
qed

lemma pk_dir_complete:
  assumes dir: "pk_dir cx e0 p a" and all: "pk_came a = fst ` set (pk_sent p)" and gap: "pd_rx_deliv (pk_entity a) \<notin> pk_came a"
  shows "pk_sdus p (\<lambda>c. c \<in> pk_came a \<and> c < pd_rx_deliv (pk_entity a)) = map (\<lambda>(c, sdu, pdu). (c, sdu)) (pk_sent p)"
    "pk_sdus p (\<lambda>c. c \<in> pk_came a \<and> pd_rx_deliv (pk_entity a) < c) = []"
proof -
  note S = pk_sent_okD[OF pk_dirD(2)[OF dir]]
  have "c < pd_rx_deliv (pk_entity a)" if "c \<in> pk_came a" for c
    using that gap pk_dirD(3)[OF dir] unfolding all S(4) by (auto simp: not_less dest: order.strict_trans2)
  then have "\<forall>x \<in> set (pk_sent p). fst x \<in> pk_came a \<and> fst x < pd_rx_deliv (pk_entity a)" using all by auto
  then have "filter (\<lambda>(c, sdu, pdu). c \<in> pk_came a \<and> c < pd_rx_deliv (pk_entity a)) (pk_sent p) = pk_sent p"
    "filter (\<lambda>(c, sdu, pdu). c \<in> pk_came a \<and> pd_rx_deliv (pk_entity a) < c) (pk_sent p) = []"
    unfolding filter_id_conv filter_empty_conv by (auto dest: less_asym)
  then show "pk_sdus p (\<lambda>c. c \<in> pk_came a \<and> c < pd_rx_deliv (pk_entity a)) = map (\<lambda>(c, sdu, pdu). (c, sdu)) (pk_sent p)"
    "pk_sdus p (\<lambda>c. c \<in> pk_came a \<and> pd_rx_deliv (pk_entity a) < c) = []"
    unfolding pk_sdus_def by simp_all
qed


section \<open>Examples\<close>

text \<open>Two SDUs of the gNB; the second PDU comes first, and once more at the end.\<close>

definition pk_example :: bool where
  "pk_example =
     (case nr_pdcp_entity_process_sdu xor_crypto (pd_secure True) [1, 2, 3] 100 of Inr (Some p1, e1) \<Rightarrow>
     (case nr_pdcp_entity_process_sdu xor_crypto e1 [4, 5] 100 of Inr (Some p2, e2) \<Rightarrow>
     (case nr_pdcp_entity_recv_pdu xor_crypto (pd_secure False) p2 of Inr f1 \<Rightarrow>
     (case nr_pdcp_entity_recv_pdu xor_crypto f1 p1 of Inr f2 \<Rightarrow>
     (case nr_pdcp_entity_recv_pdu xor_crypto f2 p2 of Inr f3 \<Rightarrow>
        pd_tx_next e1 = 1 \<and> \<not> pd_has_sdap_tx e1 \<and> pk_near f1 0 \<and> pk_near f2 1
        \<and> pd_rx_deliv f1 = 0 \<and> pd_rx_deliv f2 = 2
      | _ \<Rightarrow> False) | _ \<Rightarrow> False) | _ \<Rightarrow> False) | _ \<Rightarrow> False) | _ \<Rightarrow> False)"

lemma pk_example_runs: pk_example
  by code_simp

lemma case_result:
  "(case x of Inr e \<Rightarrow> P e | _ \<Rightarrow> False) \<longleftrightarrow> (\<exists>e. x = Inr e \<and> P e)"
  "(case y of Inr (Some p, e) \<Rightarrow> Q p e | _ \<Rightarrow> False) \<longleftrightarrow> (\<exists>p e. y = Inr (Some p, e) \<and> Q p e)"
  by (auto split: sum.splits option.splits)

lemma pk_example_link:
  "\<exists>a b. pk_link xor_crypto (pd_secure True) (pd_secure (\<not> True)) a b
     \<and> map (fst \<circ> snd) (pk_sent a) = [[1, 2, 3], [4, 5]] \<and> pk_came b = fst ` set (pk_sent a)"
proof -
  obtain p1 e1 p2 e2 f1 f2 f3 where r:
    "nr_pdcp_entity_process_sdu xor_crypto (pd_secure True) [1, 2, 3] 100 = Inr (Some p1, e1)"
    "nr_pdcp_entity_process_sdu xor_crypto e1 [4, 5] 100 = Inr (Some p2, e2)"
    "nr_pdcp_entity_recv_pdu xor_crypto (pd_secure False) p2 = Inr f1"
    "nr_pdcp_entity_recv_pdu xor_crypto f1 p1 = Inr f2" "nr_pdcp_entity_recv_pdu xor_crypto f2 p2 = Inr f3"
    "pd_tx_next e1 = 1" "\<not> pd_has_sdap_tx e1" "pk_near f1 0" "pk_near f2 1" "pd_rx_deliv f1 = 0" "pd_rx_deliv f2 = 2"
    using pk_example_runs unfolding pk_example_def case_result(2) unfolding case_result(1) by (elim exE conjE)
  let ?L = "pk_link xor_crypto (pd_secure True) (pd_secure False)"
  let ?a1 = "\<lparr>pk_entity = e1, pk_sent = [(0, [1, 2, 3], p1)], pk_came = {}\<rparr>"
  let ?a2 = "\<lparr>pk_entity = e2, pk_sent = [(0, [1, 2, 3], p1), (1, [4, 5], p2)], pk_came = {}\<rparr>"
  let ?b = "\<lambda>f C. \<lparr>pk_entity = f, pk_sent = [], pk_came = C\<rparr>"
  have "?L ?a1 (pk_init (pd_secure False))"
    using pk_link.left[OF pk_link.start pk_step.sdu[of xor_crypto "pk_init (pd_secure True)"]] r(1)
    by (simp add: pk_init_def pd_secure_simps)
  then have "?L ?a2 (?b (pd_secure False) {})"
    using pk_link.left[OF _ pk_step.sdu[of xor_crypto ?a1]] r(2,6,7) by (simp add: pk_init_def)
  then have "?L ?a2 (?b f1 {1})"
    using pk_link.right[OF _ pk_step.pdu[of 1 "[4, 5]" p2 ?a2 "?b (pd_secure False) {}" xor_crypto f1]] r(3)
    by (simp add: pk_near_def pd_secure_simps)
  then have "?L ?a2 (?b f2 {0, 1})"
    using pk_link.right[OF _ pk_step.pdu[of 0 "[1, 2, 3]" p1 ?a2 "?b f1 {1}" xor_crypto f2]] r(4,8,10) by simp
  then have "?L ?a2 (?b f3 {0, 1})"
    using pk_link.right[OF _ pk_step.pdu[of 1 "[4, 5]" p2 ?a2 "?b f2 {0, 1}" xor_crypto f3]] r(5,9,11) by simp
  then show ?thesis by (intro exI[of _ ?a2] exI[of _ "?b f3 {0, 1}"]) simp
qed

section \<open>Properties\<close>

text \<open>
  C6: PDCP over a lossy and reordering channel. In every run of two peer entities with the same
  security - SDUs and ticks on both sides, PDUs lost, repeated, delayed and reordered within the window -
  what the receiver has delivered, in order, unchanged and once each, are the SDUs whose COUNT has come
  in time and lies below \<open>RX_DELIV\<close>, and what waits are those above it. When every COUNT has
  come in time, all SDUs have been delivered and nothing waits. No PDU on its way makes the reception
  fail. (By \<open>pk_link_sym\<close> the same holds in the other direction.)
\<close>

theorem pdcp_link_delivers:
  assumes "crypto_ok cx" "pk_pair_ok e f" "pk_pair_ok f e" "pk_link cx e f a b"
  shows "(\<exists>d. pd_delivered (pk_entity b) = pd_delivered f @ d
       \<and> map pk_view d = pk_sdus a (\<lambda>c. c \<in> pk_came b \<and> c < pd_rx_deliv (pk_entity b))
       \<and> (pk_came b = fst ` set (pk_sent a) \<longrightarrow>
            map ps_buffer d = map (fst \<circ> snd) (pk_sent a) \<and> pd_rx_list (pk_entity b) = []))
     \<and> map pk_view (pd_rx_list (pk_entity b)) = pk_sdus a (\<lambda>c. c \<in> pk_came b \<and> pd_rx_deliv (pk_entity b) < c)
     \<and> (\<forall>c sdu pdu. (c, sdu, pdu) \<in> set (pk_sent a) \<and> pk_near (pk_entity b) c \<longrightarrow>
          (\<exists>e'. nr_pdcp_entity_recv_pdu cx (pk_entity b) pdu = Inr e'))"
proof -
  have ok: "pk_ok (pk_entity a)" "pk_ok (pk_entity b)" and dir: "pk_dir cx f a b"
    using pk_link_inv[OF assms(4,1-3)] by (simp_all add: pk_inv_def)
  from pk_dir_lists[OF dir] ok(2) obtain d where d: "pd_delivered (pk_entity b) = pd_delivered f @ d"
    "map pk_view d = pk_sdus a (\<lambda>c. c \<in> pk_came b \<and> c < pd_rx_deliv (pk_entity b))"
    "map pk_view (pd_rx_list (pk_entity b)) = pk_sdus a (\<lambda>c. c \<in> pk_came b \<and> pd_rx_deliv (pk_entity b) < c)"
    "pd_rx_deliv (pk_entity b) \<notin> pk_came b" by (auto simp: pk_ok_def)
  have "map ps_buffer d = map (fst \<circ> snd) (pk_sent a) \<and> pd_rx_list (pk_entity b) = []"
    if "pk_came b = fst ` set (pk_sent a)"
  proof -
    note c = pk_dir_complete[OF dir that d(4)]
    have "map snd (map pk_view d) = map (fst \<circ> snd) (pk_sent a)" unfolding d(2) c(1) by (auto simp: comp_def)
    then show ?thesis using d(3) c(2) by (simp add: comp_def pk_view_def)
  qed
  moreover have "\<exists>e'. nr_pdcp_entity_recv_pdu cx (pk_entity b) pdu = Inr e'"
    if "(c, sdu, pdu) \<in> set (pk_sent a)" "pk_near (pk_entity b) c" for c sdu pdu
    using pk_dir_received[OF assms(1) dir ok that] by blast
  ultimately show ?thesis using d(1-3) by blast
qed

theorem pdcp_link_delivers_witness:
  "\<exists>(a :: pk_side) (b :: pk_side). map ps_buffer (pd_delivered (pk_entity b)) = map (fst \<circ> snd) (pk_sent a)
     \<and> map (fst \<circ> snd) (pk_sent a) = [[1, 2, 3], [4, 5]] \<and> pd_rx_list (pk_entity b) = []"
proof -
  obtain a b where l: "pk_link xor_crypto (pd_secure True) (pd_secure (\<not> True)) a b"
    "map (fst \<circ> snd) (pk_sent a) = [[1, 2, 3], [4, 5]]" "pk_came b = fst ` set (pk_sent a)"
    using pk_example_link by (elim exE conjE)
  have ok: "pk_pair_ok (pd_secure True) (pd_secure (\<not> True))" "pk_pair_ok (pd_secure (\<not> True)) (pd_secure True)"
    using pd_secure_simps(1)[of True] pd_secure_simps(1)[of False] by (simp_all add: pk_pair_ok_def pd_secure_simps)
  have "pd_delivered (pd_secure False) = []" by (simp add: pd_secure_def pd_fresh_simps)
  then have "map ps_buffer (pd_delivered (pk_entity b)) = map (fst \<circ> snd) (pk_sent a)" "pd_rx_list (pk_entity b) = []"
    using pdcp_link_delivers[OF xor_crypto_ok ok l(1)] l(3) by auto
  then show ?thesis using l(2) by (intro exI[of _ a] exI[of _ b] conjI)
qed

end
