(* ===== verification/Hash_Table.thy ===== *)
theory Hash_Table
  imports Ue_Table
begin

text \<open>
  \<open>common/utils/hashtable/hashtable.c\<close>: a hash table with linked lists as buckets, and the proof that it
  is a finite map. The table is an array of lists of nodes, which nobody else points to; the pointer to a
  table is an option, and so is the pointer to the data of a node. The function that frees data belongs to
  the user; the data it has been called with are recorded.
\<close>

section \<open>Types\<close>

datatype hashtable_rc =
    HASH_TABLE_OK
  | HASH_TABLE_INSERT_OVERWRITTEN_DATA
  | HASH_TABLE_KEY_NOT_EXISTS
  | HASH_TABLE_KEY_ALREADY_EXISTS
  | HASH_TABLE_BAD_PARAMETER_HASHTABLE
  | HASH_TABLE_SYSTEM_ERROR
  | HASH_TABLE_CODE_MAX

record 'd hash_node =
  hn_key :: u64
  hn_data :: "'d option"

record 'd hash_table =
  ht_size :: u64
  ht_nodes :: "'d hash_node list list"
  ht_hashfunc :: "u64 \<Rightarrow> u64"
  ht_freed :: "'d list"

definition hashtable_rc_code2string :: "hashtable_rc \<Rightarrow> string" where
  "hashtable_rc_code2string rc =
     (case rc of
        HASH_TABLE_OK \<Rightarrow> ''HASH_TABLE_OK''
      | HASH_TABLE_INSERT_OVERWRITTEN_DATA \<Rightarrow> ''HASH_TABLE_INSERT_OVERWRITTEN_DATA''
      | HASH_TABLE_KEY_NOT_EXISTS \<Rightarrow> ''HASH_TABLE_KEY_NOT_EXISTS''
      | HASH_TABLE_KEY_ALREADY_EXISTS \<Rightarrow> ''HASH_TABLE_KEY_ALREADY_EXISTS''
      | HASH_TABLE_BAD_PARAMETER_HASHTABLE \<Rightarrow> ''HASH_TABLE_BAD_PARAMETER_HASHTABLE''
      | _ \<Rightarrow> ''UNKNOWN hashtable_rc_t'')"

section \<open>Operations\<close>

definition def_hashfunc :: "u64 \<Rightarrow> u64" where
  "def_hashfunc key = key"

definition hashtable_create :: "u64 \<Rightarrow> (u64 \<Rightarrow> u64) option \<Rightarrow> 'd hash_table" where
  "hashtable_create sizeP hashfuncP =
     \<lparr>ht_size = sizeP, ht_nodes = replicate (unat sizeP) [],
      ht_hashfunc = (case hashfuncP of None \<Rightarrow> def_hashfunc | Some f \<Rightarrow> f), ht_freed = []\<rparr>"

text \<open>The data a node that goes away takes with it.\<close>

definition node_freed :: "'d hash_node \<Rightarrow> 'd list" where
  "node_freed n = (case hn_data n of None \<Rightarrow> [] | Some d \<Rightarrow> [d])"

definition hashtable_destroy :: "'d hash_table option \<Rightarrow> hashtable_rc \<times> 'd list \<times> 'd hash_table option" where
  "hashtable_destroy h =
     (case h of
        None \<Rightarrow> (HASH_TABLE_BAD_PARAMETER_HASHTABLE, [], None)
      | Some t \<Rightarrow> (HASH_TABLE_OK, ht_freed t @ concat (map (\<lambda>b. concat (map node_freed b)) (ht_nodes t)), None))"

text \<open>The place of a key; a remainder by 0 is undefined.\<close>

definition ht_hash :: "'d hash_table \<Rightarrow> u64 \<Rightarrow> nat res" where
  "ht_hash t key = (if ht_size t = 0 then Inl Out_of_bounds else Inr (unat (ht_hashfunc t key mod ht_size t)))"

fun node_find :: "u64 \<Rightarrow> 'd hash_node list \<Rightarrow> 'd hash_node option" where
  "node_find key [] = None"
| "node_find key (n # l) = (if hn_key n = key then Some n else node_find key l)"

definition hashtable_is_key_exists :: "'d hash_table option \<Rightarrow> u64 \<Rightarrow> hashtable_rc res" where
  "hashtable_is_key_exists h key =
     (case h of
        None \<Rightarrow> Inr HASH_TABLE_BAD_PARAMETER_HASHTABLE
      | Some t \<Rightarrow>
          rbind (ht_hash t key) (\<lambda>hash.
            Inr (case node_find key (ht_nodes t ! hash) of None \<Rightarrow> HASH_TABLE_KEY_NOT_EXISTS | Some _ \<Rightarrow> HASH_TABLE_OK)))"

definition hashtable_get :: "'d hash_table option \<Rightarrow> u64 \<Rightarrow> (hashtable_rc \<times> 'd option) res" where
  "hashtable_get h key =
     (case h of
        None \<Rightarrow> Inr (HASH_TABLE_BAD_PARAMETER_HASHTABLE, None)
      | Some t \<Rightarrow>
          rbind (ht_hash t key) (\<lambda>hash.
            Inr (case node_find key (ht_nodes t ! hash) of
                   None \<Rightarrow> (HASH_TABLE_KEY_NOT_EXISTS, None)
                 | Some n \<Rightarrow> (HASH_TABLE_OK, hn_data n))))"

text \<open>The loop of the insertion: the node of the key gets the new data, its old data are freed.\<close>

fun node_overwrite :: "u64 \<Rightarrow> 'd option \<Rightarrow> 'd hash_node list \<Rightarrow> ('d list \<times> 'd hash_node list) option" where
  "node_overwrite key d [] = None"
| "node_overwrite key d (n # l) =
     (if hn_key n = key then Some (node_freed n, n\<lparr>hn_data := d\<rparr> # l)
      else map_option (\<lambda>(f, l'). (f, n # l')) (node_overwrite key d l))"

definition hashtable_insert ::
  "'d hash_table option \<Rightarrow> u64 \<Rightarrow> 'd option \<Rightarrow> (hashtable_rc \<times> 'd hash_table option) res" where
  "hashtable_insert h key d =
     (case h of
        None \<Rightarrow> Inr (HASH_TABLE_BAD_PARAMETER_HASHTABLE, None)
      | Some t \<Rightarrow>
          rbind (ht_hash t key) (\<lambda>hash.
            Inr (case node_overwrite key d (ht_nodes t ! hash) of
                   Some (f, l) \<Rightarrow>
                     (HASH_TABLE_INSERT_OVERWRITTEN_DATA,
                      Some (t\<lparr>ht_nodes := (ht_nodes t)[hash := l], ht_freed := ht_freed t @ f\<rparr>))
                 | None \<Rightarrow>
                     (HASH_TABLE_OK,
                      Some (t\<lparr>ht_nodes := (ht_nodes t)[hash := \<lparr>hn_key = key, hn_data = d\<rparr> # ht_nodes t ! hash]\<rparr>)))))"

fun node_unlink :: "u64 \<Rightarrow> 'd hash_node list \<Rightarrow> ('d list \<times> 'd hash_node list) option" where
  "node_unlink key [] = None"
| "node_unlink key (n # l) =
     (if hn_key n = key then Some (node_freed n, l) else map_option (\<lambda>(f, l'). (f, n # l')) (node_unlink key l))"

definition hashtable_remove :: "'d hash_table option \<Rightarrow> u64 \<Rightarrow> (hashtable_rc \<times> 'd hash_table option) res" where
  "hashtable_remove h key =
     (case h of
        None \<Rightarrow> Inr (HASH_TABLE_BAD_PARAMETER_HASHTABLE, None)
      | Some t \<Rightarrow>
          rbind (ht_hash t key) (\<lambda>hash.
            Inr (case node_unlink key (ht_nodes t ! hash) of
                   Some (f, l) \<Rightarrow>
                     (HASH_TABLE_OK, Some (t\<lparr>ht_nodes := (ht_nodes t)[hash := l], ht_freed := ht_freed t @ f\<rparr>))
                 | None \<Rightarrow> (HASH_TABLE_KEY_NOT_EXISTS, Some t))))"

text \<open>
  The output of the table into a buffer, with the number of remaining bytes. \<open>snprintf\<close> with the line it
  formats: it writes at most \<open>n\<close> bytes with the closing 0 and returns the length of the whole line; \<open>n\<close>
  becomes a \<open>size_t\<close>. Every line is written to the start of the buffer. The text of a node, which contains a
  pointer, is the parameter \<open>entry\<close>.
\<close>

definition c_snprintf :: "byte list \<Rightarrow> int \<Rightarrow> byte list \<Rightarrow> (byte list \<times> int) res" where
  "c_snprintf buf n line =
     (let w = (if n = 0 then [] else if n < 0 then line @ [0] else take (nat n - 1) line @ [0])
      in if length w \<le> length buf then Inr (w @ drop (length w) buf, int (length line)) else Inl Out_of_bounds)"

fun dump_nodes :: "('d hash_node \<Rightarrow> byte list) \<Rightarrow> 'd hash_node list \<Rightarrow> byte list \<times> int \<Rightarrow> (byte list \<times> int) res" where
  "dump_nodes entry [] s = Inr s"
| "dump_nodes entry (n # l) s = rbind (c_snprintf (fst s) (snd s) (entry n)) (dump_nodes entry l)"

fun dump_buckets ::
  "('d hash_node \<Rightarrow> byte list) \<Rightarrow> 'd hash_node list list \<Rightarrow> byte list \<times> int \<Rightarrow> (byte list \<times> int) res" where
  "dump_buckets entry [] s = Inr s"
| "dump_buckets entry (b # bs) s =
     (if 0 < snd s then rbind (dump_nodes entry b s) (dump_buckets entry bs) else Inr s)"

definition hashtable_dump_content ::
  "byte list \<Rightarrow> ('d hash_node \<Rightarrow> byte list) \<Rightarrow> 'd hash_table option \<Rightarrow> byte list \<times> int
   \<Rightarrow> (hashtable_rc \<times> byte list \<times> int) res" where
  "hashtable_dump_content bad_parameter entry h s =
     (case h of
        None \<Rightarrow> rbind (c_snprintf (fst s) (snd s) bad_parameter) (\<lambda>s'. Inr (HASH_TABLE_BAD_PARAMETER_HASHTABLE, s'))
      | Some t \<Rightarrow> rbind (dump_buckets entry (ht_nodes t) s) (\<lambda>s'. Inr (HASH_TABLE_OK, s')))"

text \<open>
  The iterator points into the table; \<open>hi_node\<close> is the rest of the bucket at \<open>hi_index\<close>. The loop of
  \<open>getnext\<close> moves along the buckets behind it.
\<close>

record 'd hash_table_iterator =
  hi_index :: int
  hi_node :: "'d hash_node list"
  hi_hashtbl :: "'d hash_table"

definition hashtable_get_iterator :: "'d hash_table \<Rightarrow> 'd hash_table_iterator res" where
  "hashtable_get_iterator t =
     (case ht_nodes t of [] \<Rightarrow> Inl Out_of_bounds | b # _ \<Rightarrow> Inr \<lparr>hi_index = 0, hi_node = b, hi_hashtbl = t\<rparr>)"

fun iterator_walk ::
  "int \<Rightarrow> 'd hash_node list \<Rightarrow> 'd hash_node list list \<Rightarrow> 'd hash_node option \<times> int \<times> 'd hash_node list" where
  "iterator_walk i (n # l) rest = (Some n, i, l)"
| "iterator_walk i [] [] = (None, i + 1, [])"
| "iterator_walk i [] (b # rest) = iterator_walk (i + 1) b rest"

definition hashtable_iterator_getnext :: "'d hash_table_iterator \<Rightarrow> bool \<times> 'd option \<times> 'd hash_table_iterator" where
  "hashtable_iterator_getnext it =
     (case iterator_walk (hi_index it) (hi_node it) (drop (Suc (nat (hi_index it))) (ht_nodes (hi_hashtbl it))) of
        (n, i, l) \<Rightarrow>
          (case n of
             None \<Rightarrow> (False, None, it\<lparr>hi_index := i, hi_node := l\<rparr>)
           | Some x \<Rightarrow> (True, hn_data x, it\<lparr>hi_index := i, hi_node := l\<rparr>)))"

section \<open>The table as a map\<close>

text \<open>The bucket of a key is the one its hash value names, and it holds a key at most once.\<close>

definition ht_ok :: "'d hash_table \<Rightarrow> bool" where
  "ht_ok t \<longleftrightarrow>
     ht_size t \<noteq> 0 \<and> length (ht_nodes t) = unat (ht_size t)
     \<and> (\<forall>i < length (ht_nodes t). distinct (map hn_key (ht_nodes t ! i))
          \<and> (\<forall>n \<in> set (ht_nodes t ! i). unat (ht_hashfunc t (hn_key n) mod ht_size t) = i))"

definition ht_map :: "'d hash_table \<Rightarrow> u64 \<Rightarrow> 'd option option" where
  "ht_map t key = map_option hn_data (node_find key (ht_nodes t ! unat (ht_hashfunc t key mod ht_size t)))"

lemma ht_place: "ht_ok t \<Longrightarrow> unat (ht_hashfunc t key mod ht_size t) < length (ht_nodes t)"
  by (simp add: ht_ok_def word_gt_0 word_mod_less_divisor flip: word_less_nat_alt)

lemma node_find_key: "node_find key l = Some n \<Longrightarrow> hn_key n = key \<and> n \<in> set l"
  by (induction l) (auto split: if_splits)

lemma node_find_None: "node_find key l = None \<longleftrightarrow> key \<notin> hn_key ` set l"
  by (induction l) auto

lemma node_overwrite_None: "node_find key l = None \<Longrightarrow> node_overwrite key d l = None"
  by (induction l) (auto split: if_splits)

lemma node_overwrite_Some:
  "node_find key l = Some n \<Longrightarrow> \<exists>l'. node_overwrite key d l = Some (node_freed n, l') \<and> map hn_key l' = map hn_key l
     \<and> (\<forall>k. node_find k l' = (if k = key then Some (n\<lparr>hn_data := d\<rparr>) else node_find k l))"
proof (induction l)
  case (Cons m l)
  show ?case
  proof (cases "hn_key m = key")
    case True
    then show ?thesis using Cons.prems by auto
  next
    case False
    then obtain l' where "node_overwrite key d l = Some (node_freed n, l')" "map hn_key l' = map hn_key l"
      "\<forall>k. node_find k l' = (if k = key then Some (n\<lparr>hn_data := d\<rparr>) else node_find k l)" using Cons by auto
    then show ?thesis using False by auto
  qed
qed simp

lemma node_unlink_None: "node_find key l = None \<Longrightarrow> node_unlink key l = None"
  by (induction l) (auto split: if_splits)

lemma node_unlink_Some:
  "node_find key l = Some n \<Longrightarrow> distinct (map hn_key l) \<Longrightarrow>
     \<exists>l'. node_unlink key l = Some (node_freed n, l') \<and> distinct (map hn_key l') \<and> set l' \<subseteq> set l
     \<and> (\<forall>k. node_find k l' = (if k = key then None else node_find k l))"
proof (induction l)
  case (Cons m l)
  show ?case
  proof (cases "hn_key m = key")
    case True
    then have "node_find key l = None" using Cons.prems(2) by (auto simp: node_find_None)
    then show ?thesis using Cons.prems True by auto
  next
    case False
    then obtain l' where "node_unlink key l = Some (node_freed n, l')" "distinct (map hn_key l')" "set l' \<subseteq> set l"
      "\<forall>k. node_find k l' = (if k = key then None else node_find k l)" using Cons by auto
    then show ?thesis using False Cons.prems(2) by auto
  qed
qed simp

lemma ht_freed_other [simp]: "ht_ok (t\<lparr>ht_freed := f\<rparr>) = ht_ok t" "ht_map (t\<lparr>ht_freed := f\<rparr>) = ht_map t"
  by (simp_all add: ht_ok_def ht_map_def fun_eq_iff)

text \<open>Replacing a bucket.\<close>

lemma ht_put:
  assumes "ht_ok t" "h = unat (ht_hashfunc t key mod ht_size t)" "distinct (map hn_key l)"
    "hn_key ` set l \<subseteq> insert key (hn_key ` set (ht_nodes t ! h))"
    "\<forall>k. k \<noteq> key \<longrightarrow> node_find k l = node_find k (ht_nodes t ! h)"
  shows "ht_ok (t\<lparr>ht_nodes := (ht_nodes t)[h := l]\<rparr>)"
    "ht_map (t\<lparr>ht_nodes := (ht_nodes t)[h := l]\<rparr>) = (ht_map t)(key := map_option hn_data (node_find key l))"
proof -
  have h: "h < length (ht_nodes t)" using ht_place[OF assms(1)] by (simp add: assms(2))
  have bucket: "unat (ht_hashfunc t (hn_key n) mod ht_size t) = h" if "n \<in> set l" for n
  proof -
    from subsetD[OF assms(4)] that consider "hn_key n = key" | m where "m \<in> set (ht_nodes t ! h)" "hn_key m = hn_key n" by force
    then show ?thesis
    proof cases
      case 1
      then show ?thesis by (simp add: assms(2))
    next
      case 2
      then show ?thesis using assms(1) h by (force simp: ht_ok_def)
    qed
  qed
  then show "ht_ok (t\<lparr>ht_nodes := (ht_nodes t)[h := l]\<rparr>)"
    using assms(1,3) h by (auto simp: ht_ok_def nth_list_update)
  show "ht_map (t\<lparr>ht_nodes := (ht_nodes t)[h := l]\<rparr>) = (ht_map t)(key := map_option hn_data (node_find key l))"
    using assms(2,5) h by (auto simp: ht_map_def fun_eq_iff nth_list_update)
qed

lemma ht_create_ok:
  "sizeP \<noteq> 0 \<Longrightarrow> ht_ok (hashtable_create sizeP hashfuncP :: 'd hash_table)"
  "sizeP \<noteq> 0 \<Longrightarrow> ht_map (hashtable_create sizeP hashfuncP :: 'd hash_table) = Map.empty"
proof -
  show "sizeP \<noteq> 0 \<Longrightarrow> ht_ok (hashtable_create sizeP hashfuncP :: 'd hash_table)" by (simp add: ht_ok_def hashtable_create_def)
  then have "ht_nodes (hashtable_create sizeP hashfuncP :: 'd hash_table) ! unat (x mod sizeP) = []" if "sizeP \<noteq> 0" for x
    using that by (simp add: hashtable_create_def word_gt_0 word_mod_less_divisor flip: word_less_nat_alt)
  then show "sizeP \<noteq> 0 \<Longrightarrow> ht_map (hashtable_create sizeP hashfuncP :: 'd hash_table) = Map.empty"
    by (simp add: ht_map_def fun_eq_iff hashtable_create_def)
qed

lemma ht_lookup:
  assumes "ht_ok t"
  shows "hashtable_is_key_exists (Some t) key = Inr (if ht_map t key = None then HASH_TABLE_KEY_NOT_EXISTS else HASH_TABLE_OK)"
    "hashtable_get (Some t) key = Inr (case ht_map t key of None \<Rightarrow> (HASH_TABLE_KEY_NOT_EXISTS, None) | Some d \<Rightarrow> (HASH_TABLE_OK, d))"
  using assms by (auto simp: hashtable_is_key_exists_def hashtable_get_def ht_hash_def ht_ok_def ht_map_def split: option.split)

definition data_freed :: "'d option option \<Rightarrow> 'd list" where
  "data_freed x = (case x of Some (Some d) \<Rightarrow> [d] | _ \<Rightarrow> [])"

lemma ht_insert:
  assumes "ht_ok t"
  shows "\<exists>t'. hashtable_insert (Some t) key d =
       Inr (if ht_map t key = None then HASH_TABLE_OK else HASH_TABLE_INSERT_OVERWRITTEN_DATA, Some t')
     \<and> ht_ok t' \<and> ht_map t' = (ht_map t)(key \<mapsto> d) \<and> ht_freed t' = ht_freed t @ data_freed (ht_map t key)"
proof -
  define h where "h = unat (ht_hashfunc t key mod ht_size t)"
  have hash: "ht_hash t key = Inr h" using assms by (simp add: ht_hash_def h_def ht_ok_def)
  have dist: "distinct (map hn_key (ht_nodes t ! h))" using assms ht_place[OF assms] by (simp add: ht_ok_def h_def)
  show ?thesis
  proof (cases "node_find key (ht_nodes t ! h)")
    case None
    let ?l = "\<lparr>hn_key = key, hn_data = d\<rparr> # ht_nodes t ! h"
    have d: "distinct (map hn_key ?l)" using None dist by (auto simp: node_find_None)
    note put = ht_put[OF assms h_def d]
    have "ht_map t key = None" using None by (simp add: ht_map_def h_def)
    then show ?thesis
      using put None by (simp add: hashtable_insert_def hash node_overwrite_None data_freed_def)
  next
    case (Some n)
    obtain l where l: "node_overwrite key d (ht_nodes t ! h) = Some (node_freed n, l)" "map hn_key l = map hn_key (ht_nodes t ! h)"
      "\<forall>k. node_find k l = (if k = key then Some (n\<lparr>hn_data := d\<rparr>) else node_find k (ht_nodes t ! h))"
      using node_overwrite_Some[OF Some] by blast
    have keys: "hn_key ` set l = hn_key ` set (ht_nodes t ! h)" using arg_cong[OF l(2), of set] by simp
    note put = ht_put[OF assms h_def, of l]
    have "ht_map t key = Some (hn_data n)" using Some by (simp add: ht_map_def h_def)
    moreover have "node_freed n = data_freed (Some (hn_data n))" by (simp add: node_freed_def data_freed_def split: option.split)
    ultimately show ?thesis
      using put l dist keys by (auto simp: hashtable_insert_def hash)
  qed
qed

lemma ht_remove:
  assumes "ht_ok t"
  shows "\<exists>t'. hashtable_remove (Some t) key =
       Inr (if ht_map t key = None then HASH_TABLE_KEY_NOT_EXISTS else HASH_TABLE_OK, Some t')
     \<and> ht_ok t' \<and> ht_map t' = (ht_map t)(key := None) \<and> ht_freed t' = ht_freed t @ data_freed (ht_map t key)"
proof -
  define h where "h = unat (ht_hashfunc t key mod ht_size t)"
  have hash: "ht_hash t key = Inr h" using assms by (simp add: ht_hash_def h_def ht_ok_def)
  have dist: "distinct (map hn_key (ht_nodes t ! h))" using assms ht_place[OF assms] by (simp add: ht_ok_def h_def)
  show ?thesis
  proof (cases "node_find key (ht_nodes t ! h)")
    case None
    then have "ht_map t key = None" by (simp add: ht_map_def h_def)
    then show ?thesis using None assms by (auto simp: hashtable_remove_def hash node_unlink_None data_freed_def fun_eq_iff)
  next
    case (Some n)
    obtain l where l: "node_unlink key (ht_nodes t ! h) = Some (node_freed n, l)" "distinct (map hn_key l)" "set l \<subseteq> set (ht_nodes t ! h)"
      "\<forall>k. node_find k l = (if k = key then None else node_find k (ht_nodes t ! h))"
      using node_unlink_Some[OF Some dist] by blast
    note put = ht_put[OF assms h_def l(2)]
    have "ht_map t key = Some (hn_data n)" using Some by (simp add: ht_map_def h_def)
    moreover have "node_freed n = data_freed (Some (hn_data n))" by (simp add: node_freed_def data_freed_def split: option.split)
    ultimately show ?thesis using put l by (auto simp: hashtable_remove_def hash)
  qed
qed

section \<open>The interface\<close>

text \<open>
  What a module that keeps its data in a table relies on: the codes tell whether the key was there, and an
  operation changes the map at its key. \<open>val\<close> is the map of the table a pointer points to.
\<close>

locale key_table =
  fixes ok :: "'t \<Rightarrow> bool"
    and val :: "'t \<Rightarrow> u64 \<Rightarrow> 'd option"
    and has :: "'t \<Rightarrow> u64 \<Rightarrow> hashtable_rc res"
    and get :: "'t \<Rightarrow> u64 \<Rightarrow> (hashtable_rc \<times> 'd) res"
    and ins :: "'t \<Rightarrow> u64 \<Rightarrow> 'd \<Rightarrow> (hashtable_rc \<times> 't) res"
    and rem :: "'t \<Rightarrow> u64 \<Rightarrow> (hashtable_rc \<times> 't) res"
  assumes has: "ok t \<Longrightarrow> has t k = Inr (if val t k = None then HASH_TABLE_KEY_NOT_EXISTS else HASH_TABLE_OK)"
    and get_Some: "ok t \<Longrightarrow> val t k = Some d \<Longrightarrow> get t k = Inr (HASH_TABLE_OK, d)"
    and get_None: "ok t \<Longrightarrow> val t k = None \<Longrightarrow> \<exists>d. get t k = Inr (HASH_TABLE_KEY_NOT_EXISTS, d)"
    and ins: "ok t \<Longrightarrow> \<exists>t'. ins t k d = Inr (if val t k = None then HASH_TABLE_OK else HASH_TABLE_INSERT_OVERWRITTEN_DATA, t')
       \<and> ok t' \<and> val t' = (val t)(k \<mapsto> d)"
    and rem: "ok t \<Longrightarrow> \<exists>t'. rem t k = Inr (if val t k = None then HASH_TABLE_KEY_NOT_EXISTS else HASH_TABLE_OK, t')
       \<and> ok t' \<and> val t' = (val t)(k := None)"
begin

lemma ins_new: "ok t \<Longrightarrow> val t k = None \<Longrightarrow> \<exists>t'. ins t k d = Inr (HASH_TABLE_OK, t') \<and> ok t' \<and> val t' = (val t)(k \<mapsto> d)"
  using ins[of t k d] by auto

lemma rem_found: "ok t \<Longrightarrow> val t k \<noteq> None \<Longrightarrow> \<exists>t'. rem t k = Inr (HASH_TABLE_OK, t') \<and> ok t' \<and> val t' = (val t)(k := None)"
  using rem[of t k] by auto

text \<open>Removing and inserting again replaces the data.\<close>

lemma replace:
  assumes "ok t" "val t k \<noteq> None"
  shows "\<exists>t1 t2. rem t k = Inr (HASH_TABLE_OK, t1) \<and> ins t1 k d = Inr (HASH_TABLE_OK, t2) \<and> ok t2 \<and> val t2 = (val t)(k \<mapsto> d)"
proof -
  obtain t1 where t1: "rem t k = Inr (HASH_TABLE_OK, t1)" "ok t1" "val t1 = (val t)(k := None)" using rem_found[OF assms] by blast
  then show ?thesis using ins_new[of t1 k d] by auto
qed

end

definition ht_ptr_ok :: "'d hash_table option \<Rightarrow> bool" where
  "ht_ptr_ok h \<longleftrightarrow> (\<exists>t. h = Some t \<and> ht_ok t)"

definition ht_ptr_map :: "'d hash_table option \<Rightarrow> u64 \<Rightarrow> 'd option option" where
  "ht_ptr_map h = (case h of None \<Rightarrow> Map.empty | Some t \<Rightarrow> ht_map t)"

interpretation ht: key_table ht_ptr_ok ht_ptr_map hashtable_is_key_exists hashtable_get hashtable_insert hashtable_remove
proof unfold_locales
  fix h :: "'d hash_table option" and k d
  assume "ht_ptr_ok h"
  then obtain t where t: "h = Some t" "ht_ok t" by (auto simp: ht_ptr_ok_def)
  note ops = ht_lookup[OF t(2)] ht_insert[OF t(2), of k] ht_remove[OF t(2), of k]
  show "hashtable_is_key_exists h k = Inr (if ht_ptr_map h k = None then HASH_TABLE_KEY_NOT_EXISTS else HASH_TABLE_OK)"
    using ops by (simp add: t(1) ht_ptr_map_def)
  show "ht_ptr_map h k = Some d \<Longrightarrow> hashtable_get h k = Inr (HASH_TABLE_OK, d)"
    using ops by (simp add: t(1) ht_ptr_map_def)
  show "ht_ptr_map h k = None \<Longrightarrow> \<exists>d. hashtable_get h k = Inr (HASH_TABLE_KEY_NOT_EXISTS, d)"
    using ops by (simp add: t(1) ht_ptr_map_def)
  show "\<exists>h'. hashtable_insert h k d = Inr (if ht_ptr_map h k = None then HASH_TABLE_OK else HASH_TABLE_INSERT_OVERWRITTEN_DATA, h')
      \<and> ht_ptr_ok h' \<and> ht_ptr_map h' = (ht_ptr_map h)(k \<mapsto> d)"
    using ops(3)[of d] by (auto simp: t(1) ht_ptr_map_def ht_ptr_ok_def)
  show "\<exists>h'. hashtable_remove h k = Inr (if ht_ptr_map h k = None then HASH_TABLE_KEY_NOT_EXISTS else HASH_TABLE_OK, h')
      \<and> ht_ptr_ok h' \<and> ht_ptr_map h' = (ht_ptr_map h)(k := None)"
    using ops(4) by (auto simp: t(1) ht_ptr_map_def ht_ptr_ok_def)
qed

section \<open>Iteration\<close>

text \<open>The loop of a caller: at most \<open>n\<close> data.\<close>

fun iterate :: "nat \<Rightarrow> 'd hash_table_iterator \<Rightarrow> 'd option list" where
  "iterate 0 it = []"
| "iterate (Suc n) it =
     (case hashtable_iterator_getnext it of (found, d, it') \<Rightarrow> if found then d # iterate n it' else [])"

definition it_rest :: "'d hash_table_iterator \<Rightarrow> 'd hash_node list" where
  "it_rest it = hi_node it @ concat (drop (Suc (nat (hi_index it))) (ht_nodes (hi_hashtbl it)))"

lemma iterator_walk_rest:
  "0 \<le> i \<Longrightarrow> rest = drop (Suc (nat i)) bs \<Longrightarrow>
     (case l @ concat rest of
        [] \<Rightarrow> fst (iterator_walk i l rest) = None
      | n # r \<Rightarrow> \<exists>j l'. iterator_walk i l rest = (Some n, j, l') \<and> 0 \<le> j \<and> l' @ concat (drop (Suc (nat j)) bs) = r)"
proof (induction i l rest rule: iterator_walk.induct)
  case (3 i b rest)
  have rest: "rest = drop (Suc (nat (i + 1))) bs"
    using 3(2,3) by (metis Suc_nat_eq_nat_zadd1 add.commute drop_Suc list.sel(3) tl_drop)
  show ?case unfolding iterator_walk.simps(3) concat.simps append_Nil by (rule 3(1)[OF _ rest]) (use 3(2) in simp)
qed auto

lemma getnext_rest:
  assumes "0 \<le> hi_index it"
  shows "case it_rest it of
      [] \<Rightarrow> \<not> fst (hashtable_iterator_getnext it)
    | n # r \<Rightarrow> \<exists>it'. hashtable_iterator_getnext it = (True, hn_data n, it') \<and> 0 \<le> hi_index it' \<and> it_rest it' = r"
proof -
  let ?rest = "drop (Suc (nat (hi_index it))) (ht_nodes (hi_hashtbl it))"
  note w = iterator_walk_rest[OF assms refl, of "hi_node it" "ht_nodes (hi_hashtbl it)"]
  show ?thesis
  proof (cases "hi_node it @ concat ?rest")
    case Nil
    then have "fst (iterator_walk (hi_index it) (hi_node it) ?rest) = None" using w unfolding Nil list.case by simp
    then have "\<not> fst (hashtable_iterator_getnext it)" by (auto simp: hashtable_iterator_getnext_def split: prod.split)
    then show ?thesis unfolding it_rest_def Nil list.case .
  next
    case (Cons n r)
    then obtain j l' where "iterator_walk (hi_index it) (hi_node it) ?rest = (Some n, j, l')" "0 \<le> j"
      "l' @ concat (drop (Suc (nat j)) (ht_nodes (hi_hashtbl it))) = r" using w unfolding Cons list.case by blast
    then show ?thesis unfolding it_rest_def Cons list.case by (simp add: hashtable_iterator_getnext_def)
  qed
qed

lemma iterate_all: "0 \<le> hi_index it \<Longrightarrow> length (it_rest it) \<le> n \<Longrightarrow> iterate n it = map hn_data (it_rest it)"
proof (induction n arbitrary: it)
  case (Suc n)
  show ?case
  proof (cases "it_rest it")
    case Nil
    then show ?thesis using getnext_rest[OF Suc.prems(1)] by (auto split: prod.splits)
  next
    case (Cons x r)
    then obtain it' where "hashtable_iterator_getnext it = (True, hn_data x, it')" "0 \<le> hi_index it'" "it_rest it' = r"
      using getnext_rest[OF Suc.prems(1)] by auto
    then show ?thesis using Suc.IH[of it'] Suc.prems(2) Cons by simp
  qed
qed simp

lemma ht_entries:
  assumes "ht_ok t"
  shows "distinct (map hn_key (concat (ht_nodes t)))" "n \<in> set (concat (ht_nodes t)) \<Longrightarrow> ht_map t (hn_key n) = Some (hn_data n)"
    "ht_map t k = Some d \<Longrightarrow> \<exists>n \<in> set (concat (ht_nodes t)). hn_key n = k \<and> hn_data n = d"
proof -
  let ?h = "\<lambda>k. unat (ht_hashfunc t k mod ht_size t)"
  have in_bucket: "?h (hn_key n) = i" if "i < length (ht_nodes t)" "n \<in> set (ht_nodes t ! i)" for i n
    using assms that by (auto simp: ht_ok_def)
  have dist: "distinct (map hn_key (ht_nodes t ! i))" if "i < length (ht_nodes t)" for i
    using assms that by (auto simp: ht_ok_def)
  have find: "distinct (map hn_key l) \<Longrightarrow> m \<in> set l \<Longrightarrow> node_find (hn_key m) l = Some m" for l and m :: "'a hash_node"
    by (induction l) (auto split: if_splits)
  have take: "distinct (map hn_key (concat (take j (ht_nodes t))))" if "j \<le> length (ht_nodes t)" for j
    using that
  proof (induction j)
    case (Suc j)
    have "hn_key n \<noteq> hn_key m" if "n \<in> set (concat (take j (ht_nodes t)))" "m \<in> set (ht_nodes t ! j)" for n m
    proof -
      obtain b where "b \<in> set (take j (ht_nodes t))" "n \<in> set b" using \<open>n \<in> _\<close> by auto
      then obtain i where "i < j" "n \<in> set (ht_nodes t ! i)" by (auto simp: in_set_conv_nth[of b])
      then show ?thesis using in_bucket[of i n] in_bucket[of j m] Suc.prems \<open>m \<in> _\<close> by auto
    qed
    then show ?case using Suc dist[of j] by (force simp: take_Suc_conv_app_nth)
  qed simp
  from take[of "length (ht_nodes t)"] show "distinct (map hn_key (concat (ht_nodes t)))" by simp
  show "n \<in> set (concat (ht_nodes t)) \<Longrightarrow> ht_map t (hn_key n) = Some (hn_data n)"
    using in_bucket find dist by (fastforce simp: ht_map_def in_set_conv_nth[of _ "ht_nodes t"])
  show "ht_map t k = Some d \<Longrightarrow> \<exists>n \<in> set (concat (ht_nodes t)). hn_key n = k \<and> hn_data n = d"
    using ht_place[OF assms, of k] node_find_key by (force simp: ht_map_def)
qed

section \<open>Runs\<close>

inductive ht_reached :: "'d hash_table \<Rightarrow> bool" where
  created: "sizeP \<noteq> 0 \<Longrightarrow> ht_reached (hashtable_create sizeP hashfuncP)"
| inserted: "ht_reached t \<Longrightarrow> hashtable_insert (Some t) k d = Inr (rc, Some t') \<Longrightarrow> ht_reached t'"
| removed: "ht_reached t \<Longrightarrow> hashtable_remove (Some t) k = Inr (rc, Some t') \<Longrightarrow> ht_reached t'"

lemma ht_reached_ok: "ht_reached t \<Longrightarrow> ht_ok t"
proof (induction rule: ht_reached.induct)
  case (created sizeP hashfuncP)
  then show ?case by (rule ht_create_ok)
next
  case (inserted t k d rc t')
  then show ?case using ht_insert[of t k d] by auto
next
  case (removed t k rc t')
  then show ?case using ht_remove[of t k] by auto
qed

text \<open>
  C34: the hash table is a map. In every run from its creation, with any hash function, insertion, removal,
  lookup and the test for a key return the code that tells whether the key was there, change the map at
  this key only and free exactly the data they replace or remove; and the iterator passes every entry of
  the table once and then stops.
\<close>

theorem hash_table_is_map:
  assumes "ht_reached t"
  shows "hashtable_is_key_exists (Some t) k = Inr (if ht_map t k = None then HASH_TABLE_KEY_NOT_EXISTS else HASH_TABLE_OK)
     \<and> hashtable_get (Some t) k = Inr (case ht_map t k of None \<Rightarrow> (HASH_TABLE_KEY_NOT_EXISTS, None) | Some d \<Rightarrow> (HASH_TABLE_OK, d))
     \<and> (\<exists>t'. hashtable_insert (Some t) k d =
            Inr (if ht_map t k = None then HASH_TABLE_OK else HASH_TABLE_INSERT_OVERWRITTEN_DATA, Some t')
          \<and> ht_map t' = (ht_map t)(k \<mapsto> d) \<and> ht_freed t' = ht_freed t @ data_freed (ht_map t k))
     \<and> (\<exists>t'. hashtable_remove (Some t) k =
            Inr (if ht_map t k = None then HASH_TABLE_KEY_NOT_EXISTS else HASH_TABLE_OK, Some t')
          \<and> ht_map t' = (ht_map t)(k := None) \<and> ht_freed t' = ht_freed t @ data_freed (ht_map t k))
     \<and> (\<exists>keys it. hashtable_get_iterator t = Inr it \<and> distinct keys \<and> set keys = dom (ht_map t)
          \<and> (\<forall>n \<ge> length keys. iterate n it = map (\<lambda>k. the (ht_map t k)) keys))"
proof -
  note ok = ht_reached_ok[OF assms]
  note e = ht_entries[OF ok]
  let ?keys = "map hn_key (concat (ht_nodes t))"
  obtain b bs where b: "ht_nodes t = b # bs" using ok by (cases "ht_nodes t") (auto simp: ht_ok_def unat_eq_0)
  let ?it = "\<lparr>hi_index = 0, hi_node = b, hi_hashtbl = t\<rparr>"
  have it: "hashtable_get_iterator t = Inr ?it" "it_rest ?it = concat (ht_nodes t)"
    by (simp_all add: hashtable_get_iterator_def it_rest_def b)
  have dom: "set ?keys = dom (ht_map t)" using e(2,3) by fastforce
  have "map hn_data (concat (ht_nodes t)) = map (\<lambda>k. the (ht_map t k)) ?keys" using e(2) by simp
  then have "\<forall>n \<ge> length ?keys. iterate n ?it = map (\<lambda>k. the (ht_map t k)) ?keys"
    using iterate_all[of ?it] by (simp only: it(2)) simp
  then show ?thesis using ht_lookup[OF ok] ht_insert[OF ok, of k d] ht_remove[OF ok, of k] it(1) e(1) dom by blast
qed

text \<open>Two keys in one bucket of a table of size 2.\<close>

theorem hash_table_is_map_witness:
  "case hashtable_insert (Some (hashtable_create 2 None)) 1 (Some True) of
     Inr (_, Some t) \<Rightarrow> (case hashtable_insert (Some t) 3 (Some False) of
        Inr (_, Some t') \<Rightarrow> \<exists>t2. hashtable_remove (Some t') 1 = Inr (HASH_TABLE_OK, Some t2) \<and> ht_freed t2 = [True]
          \<and> ht_map t2 3 = Some (Some False)
      | _ \<Rightarrow> False) | _ \<Rightarrow> False"
proof -
  let ?t0 = "hashtable_create 2 None :: bool hash_table"
  have r0: "ht_reached ?t0" by (rule ht_reached.created) simp
  have m0: "ht_map ?t0 = Map.empty" by (rule ht_create_ok) simp
  have f0: "ht_freed ?t0 = []" by (simp add: hashtable_create_def)
  obtain t where t: "hashtable_insert (Some ?t0) 1 (Some True) = Inr (HASH_TABLE_OK, Some t)" "ht_map t = [1 \<mapsto> Some True]"
    "ht_freed t = []"
    using hash_table_is_map[OF r0, of 1 "Some True"] by (auto simp: m0 f0 data_freed_def)
  note r1 = ht_reached.inserted[OF r0 t(1)]
  obtain t' where t': "hashtable_insert (Some t) 3 (Some False) = Inr (HASH_TABLE_OK, Some t')"
    "ht_map t' = [1 \<mapsto> Some True, 3 \<mapsto> Some False]" "ht_freed t' = []"
    using hash_table_is_map[OF r1, of 3 "Some False"] by (auto simp: t data_freed_def)
  note r2 = ht_reached.inserted[OF r1 t'(1)]
  show ?thesis
    using hash_table_is_map[OF r2, of 1 None] by (auto simp: t t' data_freed_def)
qed

section \<open>The dump\<close>

lemma c_snprintf_rest: "c_snprintf buf n line = Inr s \<Longrightarrow> snd s = int (length line)"
  by (auto simp: c_snprintf_def Let_def split: if_splits)

lemma dump_nodes_rest: "dump_nodes entry l s = Inr s' \<Longrightarrow> \<forall>n. entry n \<noteq> [] \<Longrightarrow> 0 < snd s \<Longrightarrow> 0 < snd s'"
  by (induction l arbitrary: s) (auto simp: rbind_eq_Inr dest: c_snprintf_rest)

lemma dump_nodes_append: "dump_nodes entry (l @ l') s = rbind (dump_nodes entry l s) (dump_nodes entry l')"
  by (induction l arbitrary: s) (auto simp: rbind_def split: sum.split)

lemma dump_buckets_concat:
  assumes "\<forall>n. entry n \<noteq> []"
  shows "0 < snd s \<Longrightarrow> dump_buckets entry bs s = dump_nodes entry (concat bs) s"
proof (induction bs arbitrary: s)
  case (Cons b bs)
  show ?case
  proof (cases "dump_nodes entry b s")
    case (Inr s')
    then show ?thesis using Cons dump_nodes_rest[OF Inr assms] by (simp add: dump_nodes_append)
  qed (use Cons in \<open>simp add: dump_nodes_append\<close>)
qed simp

text \<open>
  The length a line would have had becomes the size of the buffer for the next line. So a table with two
  entries, whose lines are longer than the buffer, is written beyond the end of the buffer.
\<close>

theorem hash_table_dump_overflows:
  assumes "concat (ht_nodes t) = n1 # n2 # ns" "\<forall>n. entry n \<noteq> []" "buf \<noteq> []"
    "length buf < length (entry n1)" "length buf < length (entry n2)"
  shows "hashtable_dump_content bad entry (Some t) (buf, int (length buf)) = Inl Out_of_bounds"
proof -
  define s where "s = take (length buf - 1) (entry n1) @ [0]"
  have len: "length s = length buf" using assms(3,4) by (cases buf) (simp_all add: s_def)
  have first: "c_snprintf buf (int (length buf)) (entry n1) = Inr (s, int (length (entry n1)))"
    using assms(3,4) by (cases buf) (simp_all add: c_snprintf_def s_def Let_def nat_add_distrib)
  have second: "c_snprintf s (int (length (entry n1))) (entry n2) = Inl Out_of_bounds"
    using assms(2,4,5) len by (auto simp: c_snprintf_def Let_def)
  have "dump_buckets entry (ht_nodes t) (buf, int (length buf)) = Inl Out_of_bounds"
    using assms(3) by (simp add: dump_buckets_concat[OF assms(2)] assms(1) first second del: append.simps)
  then show ?thesis by (simp add: hashtable_dump_content_def)
qed

end
