(* ===== verification/F1_Ids.thy ===== *)
theory F1_Ids
  imports Hash_Table
begin

text \<open>
  \<open>openair2/F1AP/f1ap_ids.c\<close>: for each UE the identifier of its peer and the associations, in two hash
  tables, one for the CU and one for the DU, as both can be in one process. The functions of the two sides
  are the same code on their table; each takes the lock of the table, so it is one step.
\<close>

record f1_ue_data =
  fd_secondary_ue :: u32
  fd_e1_assoc_id :: int
  fd_du_assoc_id :: int

type_synonym f1_table = "f1_ue_data hash_table option"

record f1_ids =
  fi_cu2du_ue_mapping :: f1_table
  fi_du2cu_ue_mapping :: f1_table

section \<open>One table\<close>

definition get_hashtable_data :: "f1_table \<Rightarrow> u64 \<Rightarrow> f1_ue_data res" where
  "get_hashtable_data ht ue_id =
     rbind (hashtable_get ht ue_id) (\<lambda>(ret, data).
       case data of Some d \<Rightarrow> if ret = HASH_TABLE_OK then Inr d else Inl Assert_failed | None \<Rightarrow> Inl Assert_failed)"

definition add_hashtable_data :: "f1_table \<Rightarrow> u64 \<Rightarrow> f1_ue_data \<Rightarrow> (bool \<times> f1_table) res" where
  "add_hashtable_data ht ue_id data =
     rbind (hashtable_insert ht ue_id (Some data)) (\<lambda>(ret, ht'). Inr (ret = HASH_TABLE_OK, ht'))"

definition f1_init :: "f1_table \<Rightarrow> f1_table res" where
  "f1_init ht = rbind (rcheck (ht = None) Assert_failed) (\<lambda>_. Inr (Some (hashtable_create 1319 None)))"

definition f1_exists :: "f1_table \<Rightarrow> u32 \<Rightarrow> bool res" where
  "f1_exists ht ue_id =
     rbind (rcheck (ht \<noteq> None) Assert_failed) (\<lambda>_.
     rbind (hashtable_is_key_exists ht (ucast ue_id)) (\<lambda>ret. Inr (ret = HASH_TABLE_OK)))"

definition f1_add :: "f1_table \<Rightarrow> u32 \<Rightarrow> f1_ue_data \<Rightarrow> (bool \<times> f1_table) res" where
  "f1_add ht ue_id data =
     rbind (f1_exists ht ue_id) (\<lambda>b. if b then Inr (False, ht) else add_hashtable_data ht (ucast ue_id) data)"

definition f1_get :: "f1_table \<Rightarrow> u32 \<Rightarrow> f1_ue_data res" where
  "f1_get ht ue_id = rbind (rcheck (ht \<noteq> None) Assert_failed) (\<lambda>_. get_hashtable_data ht (ucast ue_id))"

definition f1_remove :: "f1_table \<Rightarrow> u32 \<Rightarrow> (bool \<times> f1_table) res" where
  "f1_remove ht ue_id =
     rbind (rcheck (ht \<noteq> None) Assert_failed) (\<lambda>_.
     rbind (hashtable_remove ht (ucast ue_id)) (\<lambda>(ret, ht'). Inr (ret = HASH_TABLE_OK, ht')))"

section \<open>The two sides\<close>

definition cu_init_f1_ue_data :: "f1_ids \<Rightarrow> f1_ids res" where
  "cu_init_f1_ue_data s =
     rbind (f1_init (fi_cu2du_ue_mapping s)) (\<lambda>ht. Inr (s\<lparr>fi_cu2du_ue_mapping := ht\<rparr>))"

definition cu_add_f1_ue_data :: "u32 \<Rightarrow> f1_ue_data \<Rightarrow> f1_ids \<Rightarrow> (bool \<times> f1_ids) res" where
  "cu_add_f1_ue_data ue_id data s =
     rbind (f1_add (fi_cu2du_ue_mapping s) ue_id data) (\<lambda>(ret, ht). Inr (ret, s\<lparr>fi_cu2du_ue_mapping := ht\<rparr>))"

definition cu_exists_f1_ue_data :: "u32 \<Rightarrow> f1_ids \<Rightarrow> bool res" where
  "cu_exists_f1_ue_data ue_id s = f1_exists (fi_cu2du_ue_mapping s) ue_id"

definition cu_update_f1_ue_data :: "u32 \<Rightarrow> f1_ue_data \<Rightarrow> f1_ids \<Rightarrow> (bool \<times> f1_ids) res" where
  "cu_update_f1_ue_data ue_id data s =
     rbind (f1_remove (fi_cu2du_ue_mapping s) ue_id) (\<lambda>(retrm, ht).
     rbind (rcheck retrm Assert_failed) (\<lambda>_.
     rbind (add_hashtable_data ht (ucast ue_id) data) (\<lambda>(ret, ht').
     Inr (ret, s\<lparr>fi_cu2du_ue_mapping := ht'\<rparr>))))"

definition cu_get_f1_ue_data :: "u32 \<Rightarrow> f1_ids \<Rightarrow> f1_ue_data res" where
  "cu_get_f1_ue_data ue_id s = f1_get (fi_cu2du_ue_mapping s) ue_id"

definition cu_remove_f1_ue_data :: "u32 \<Rightarrow> f1_ids \<Rightarrow> (bool \<times> f1_ids) res" where
  "cu_remove_f1_ue_data ue_id s =
     rbind (f1_remove (fi_cu2du_ue_mapping s) ue_id) (\<lambda>(ret, ht). Inr (ret, s\<lparr>fi_cu2du_ue_mapping := ht\<rparr>))"

definition du_init_f1_ue_data :: "f1_ids \<Rightarrow> f1_ids res" where
  "du_init_f1_ue_data s =
     rbind (f1_init (fi_du2cu_ue_mapping s)) (\<lambda>ht. Inr (s\<lparr>fi_du2cu_ue_mapping := ht\<rparr>))"

definition du_add_f1_ue_data :: "u32 \<Rightarrow> f1_ue_data \<Rightarrow> f1_ids \<Rightarrow> (bool \<times> f1_ids) res" where
  "du_add_f1_ue_data ue_id data s =
     rbind (f1_add (fi_du2cu_ue_mapping s) ue_id data) (\<lambda>(ret, ht). Inr (ret, s\<lparr>fi_du2cu_ue_mapping := ht\<rparr>))"

definition du_exists_f1_ue_data :: "u32 \<Rightarrow> f1_ids \<Rightarrow> bool res" where
  "du_exists_f1_ue_data ue_id s = f1_exists (fi_du2cu_ue_mapping s) ue_id"

definition du_get_f1_ue_data :: "u32 \<Rightarrow> f1_ids \<Rightarrow> f1_ue_data res" where
  "du_get_f1_ue_data ue_id s = f1_get (fi_du2cu_ue_mapping s) ue_id"

definition du_remove_f1_ue_data :: "u32 \<Rightarrow> f1_ids \<Rightarrow> (bool \<times> f1_ids) res" where
  "du_remove_f1_ue_data ue_id s =
     rbind (f1_remove (fi_du2cu_ue_mapping s) ue_id) (\<lambda>(ret, ht). Inr (ret, s\<lparr>fi_du2cu_ue_mapping := ht\<rparr>))"

section \<open>The tables as maps\<close>

text \<open>No operation enters a null pointer, so a UE that is there has data.\<close>

definition f1_ok :: "f1_table \<Rightarrow> bool" where
  "f1_ok h \<longleftrightarrow> ht_ptr_ok h \<and> (\<forall>k. ht_ptr_map h k \<noteq> Some None)"

definition f1_map :: "f1_table \<Rightarrow> u32 \<Rightarrow> f1_ue_data option" where
  "f1_map h ue_id = Option.bind (ht_ptr_map h (ucast ue_id)) id"

lemma f1_ok_ptr: "f1_ok h \<Longrightarrow> ht_ptr_ok h" "f1_ok h \<Longrightarrow> h \<noteq> None"
  by (auto simp: f1_ok_def ht_ptr_ok_def)

lemma ue_key_eq [simp]: "(ucast (u :: u32) :: u64) = ucast v \<longleftrightarrow> u = v"
proof
  assume "(ucast u :: u64) = ucast v"
  then have "(ucast (ucast u :: u64) :: u32) = ucast (ucast v :: u64)" by simp
  then show "u = v" by (auto simp: bit_eq_iff bit_simps)
qed simp

lemma f1_present: "f1_ok h \<Longrightarrow> ht_ptr_map h (ucast u) = (case f1_map h u of None \<Rightarrow> None | Some d \<Rightarrow> Some (Some d))"
  by (cases "ht_ptr_map h (ucast u)"; cases "the (ht_ptr_map h (ucast u))") (auto simp: f1_map_def f1_ok_def)

lemma f1_present_None: "f1_ok h \<Longrightarrow> ht_ptr_map h (ucast u) = None \<longleftrightarrow> f1_map h u = None"
  by (simp add: f1_present split: option.split)

lemma f1_changed:
  assumes "f1_ok h" "ht_ptr_ok h'" "ht_ptr_map h' = (ht_ptr_map h)(ucast u := map_option Some x)"
  shows "f1_ok h'" "f1_map h' = (f1_map h)(u := x)"
  using assms by (cases x; auto simp: f1_ok_def f1_map_def fun_eq_iff)+

lemma f1_init_ok: "\<exists>h. f1_init None = Inr h \<and> f1_ok h \<and> f1_map h = Map.empty"
proof -
  let ?t = "hashtable_create 1319 None :: f1_ue_data hash_table"
  have "ht_ok ?t" "ht_map ?t = Map.empty" by (rule ht_create_ok; simp)+
  then show ?thesis by (auto simp: f1_init_def f1_ok_def ht_ptr_ok_def ht_ptr_map_def f1_map_def fun_eq_iff)
qed

lemma f1_exists_eq: "f1_ok h \<Longrightarrow> f1_exists h u = Inr (f1_map h u \<noteq> None)"
  using f1_ok_ptr by (auto simp: f1_exists_def ht.has f1_present_None)

lemma f1_get_eq: "f1_ok h \<Longrightarrow> f1_get h u = (case f1_map h u of None \<Rightarrow> Inl Assert_failed | Some d \<Rightarrow> Inr d)"
proof -
  assume ok: "f1_ok h"
  show ?thesis
  proof (cases "f1_map h u")
    case None
    then obtain d where "hashtable_get h (ucast u) = Inr (HASH_TABLE_KEY_NOT_EXISTS, d)"
      using ht.get_None[OF f1_ok_ptr(1)[OF ok]] f1_present_None[OF ok] by blast
    then show ?thesis using None f1_ok_ptr(2)[OF ok] by (auto simp: f1_get_def get_hashtable_data_def split: option.split)
  next
    case (Some d)
    then have "hashtable_get h (ucast u) = Inr (HASH_TABLE_OK, Some d)"
      using ht.get_Some[OF f1_ok_ptr(1)[OF ok]] f1_present[OF ok, of u] by simp
    then show ?thesis using Some f1_ok_ptr(2)[OF ok] by (auto simp: f1_get_def get_hashtable_data_def)
  qed
qed

lemma f1_add_eq:
  assumes "f1_ok h"
  shows "if f1_map h u = None then \<exists>h'. f1_add h u d = Inr (True, h') \<and> f1_ok h' \<and> f1_map h' = (f1_map h)(u \<mapsto> d)
    else f1_add h u d = Inr (False, h)"
proof (cases "f1_map h u")
  case None
  then obtain h' where "hashtable_insert h (ucast u) (Some d) = Inr (HASH_TABLE_OK, h')" "ht_ptr_ok h'"
    "ht_ptr_map h' = (ht_ptr_map h)(ucast u \<mapsto> Some d)"
    using ht.ins_new[OF f1_ok_ptr(1)[OF assms]] f1_present_None[OF assms] by blast
  then show ?thesis
    using None f1_changed[OF assms, of h' u "Some d"] by (simp add: f1_add_def f1_exists_eq[OF assms] add_hashtable_data_def)
next
  case (Some d')
  then show ?thesis by (simp add: f1_add_def f1_exists_eq[OF assms])
qed

lemma f1_remove_eq:
  assumes "f1_ok h"
  shows "\<exists>h'. f1_remove h u = Inr (f1_map h u \<noteq> None, h') \<and> f1_ok h' \<and> f1_map h' = (f1_map h)(u := None)"
proof -
  obtain h' where "hashtable_remove h (ucast u) = Inr (if ht_ptr_map h (ucast u) = None then HASH_TABLE_KEY_NOT_EXISTS else HASH_TABLE_OK, h')"
    "ht_ptr_ok h'" "ht_ptr_map h' = (ht_ptr_map h)(ucast u := None)"
    using ht.rem[OF f1_ok_ptr(1)[OF assms]] by blast
  then show ?thesis
    using f1_changed[OF assms, of h' u None] f1_ok_ptr(2)[OF assms] by (auto simp: f1_remove_def f1_present_None[OF assms])
qed

lemma cu_update_eq:
  assumes "f1_ok (fi_cu2du_ue_mapping s)"
  shows "if f1_map (fi_cu2du_ue_mapping s) u = None then cu_update_f1_ue_data u d s = Inl Assert_failed
    else \<exists>h'. cu_update_f1_ue_data u d s = Inr (True, s\<lparr>fi_cu2du_ue_mapping := h'\<rparr>) \<and> f1_ok h'
      \<and> f1_map h' = (f1_map (fi_cu2du_ue_mapping s))(u \<mapsto> d)"
proof (cases "f1_map (fi_cu2du_ue_mapping s) u")
  case None
  then show ?thesis using f1_remove_eq[OF assms, of u] by (auto simp: cu_update_f1_ue_data_def)
next
  case (Some d0)
  let ?h = "fi_cu2du_ue_mapping s"
  have "ht_ptr_map ?h (ucast u) \<noteq> None" using Some f1_present_None[OF assms] by simp
  from ht.replace[OF f1_ok_ptr(1)[OF assms] this, of "Some d"] obtain t1 t2 where
    t: "hashtable_remove ?h (ucast u) = Inr (HASH_TABLE_OK, t1)" "hashtable_insert t1 (ucast u) (Some d) = Inr (HASH_TABLE_OK, t2)"
    "ht_ptr_ok t2" "ht_ptr_map t2 = (ht_ptr_map ?h)(ucast u \<mapsto> Some d)" by blast
  then show ?thesis
    using Some f1_changed[OF assms t(3), of u "Some d"] f1_ok_ptr(2)[OF assms]
    by (auto simp: cu_update_f1_ue_data_def f1_remove_def add_hashtable_data_def)
qed

section \<open>Runs\<close>

inductive f1_reached :: "f1_ids \<Rightarrow> bool" where
  created: "cu_init_f1_ue_data \<lparr>fi_cu2du_ue_mapping = None, fi_du2cu_ue_mapping = None\<rparr> = Inr s \<Longrightarrow>
     du_init_f1_ue_data s = Inr s' \<Longrightarrow> f1_reached s'"
| cu_added: "f1_reached s \<Longrightarrow> cu_add_f1_ue_data u d s = Inr (b, s') \<Longrightarrow> f1_reached s'"
| cu_updated: "f1_reached s \<Longrightarrow> cu_update_f1_ue_data u d s = Inr (b, s') \<Longrightarrow> f1_reached s'"
| cu_removed: "f1_reached s \<Longrightarrow> cu_remove_f1_ue_data u s = Inr (b, s') \<Longrightarrow> f1_reached s'"
| du_added: "f1_reached s \<Longrightarrow> du_add_f1_ue_data u d s = Inr (b, s') \<Longrightarrow> f1_reached s'"
| du_removed: "f1_reached s \<Longrightarrow> du_remove_f1_ue_data u s = Inr (b, s') \<Longrightarrow> f1_reached s'"

definition f1_ids_ok :: "f1_ids \<Rightarrow> bool" where
  "f1_ids_ok s \<longleftrightarrow> f1_ok (fi_cu2du_ue_mapping s) \<and> f1_ok (fi_du2cu_ue_mapping s)"

lemma f1_ids_ok_steps:
  assumes "f1_ids_ok s"
  shows "cu_add_f1_ue_data u d s = Inr (b, s') \<Longrightarrow> f1_ids_ok s'" "cu_update_f1_ue_data u d s = Inr (b, s') \<Longrightarrow> f1_ids_ok s'"
    "cu_remove_f1_ue_data u s = Inr (b, s') \<Longrightarrow> f1_ids_ok s'" "du_add_f1_ue_data u d s = Inr (b, s') \<Longrightarrow> f1_ids_ok s'"
    "du_remove_f1_ue_data u s = Inr (b, s') \<Longrightarrow> f1_ids_ok s'"
proof -
  have cu: "f1_ok (fi_cu2du_ue_mapping s)" and du: "f1_ok (fi_du2cu_ue_mapping s)" using assms by (simp_all add: f1_ids_ok_def)
  show "cu_add_f1_ue_data u d s = Inr (b, s') \<Longrightarrow> f1_ids_ok s'"
    using f1_add_eq[OF cu, of u d] cu du by (auto simp: cu_add_f1_ue_data_def f1_ids_ok_def split: if_splits)
  show "cu_update_f1_ue_data u d s = Inr (b, s') \<Longrightarrow> f1_ids_ok s'"
    using cu_update_eq[OF cu, of u d] du by (auto simp: f1_ids_ok_def split: if_splits)
  show "cu_remove_f1_ue_data u s = Inr (b, s') \<Longrightarrow> f1_ids_ok s'"
    using f1_remove_eq[OF cu, of u] du by (auto simp: cu_remove_f1_ue_data_def f1_ids_ok_def)
  show "du_add_f1_ue_data u d s = Inr (b, s') \<Longrightarrow> f1_ids_ok s'"
    using f1_add_eq[OF du, of u d] cu du by (auto simp: du_add_f1_ue_data_def f1_ids_ok_def split: if_splits)
  show "du_remove_f1_ue_data u s = Inr (b, s') \<Longrightarrow> f1_ids_ok s'"
    using f1_remove_eq[OF du, of u] cu by (auto simp: du_remove_f1_ue_data_def f1_ids_ok_def)
qed

lemma f1_reached_ok: "f1_reached s \<Longrightarrow> f1_ids_ok s"
proof (induction rule: f1_reached.induct)
  case (created s s')
  then show ?case using f1_init_ok by (auto simp: cu_init_f1_ue_data_def du_init_f1_ue_data_def f1_ids_ok_def)
qed (blast intro: f1_ids_ok_steps)+

text \<open>
  C35: the stored UE data are two maps. In every run of the functions, a UE is added once, its data are
  found, updated and removed under its own identifier, and an operation of the CU leaves the table of the
  DU alone and the other way round; only reading or updating a UE that is not there ends the program.
\<close>

theorem f1_ids_are_maps:
  assumes "f1_reached s"
  shows "let cu = f1_map (fi_cu2du_ue_mapping s); du = f1_map (fi_du2cu_ue_mapping s);
         to = (\<lambda>s' m n. f1_map (fi_cu2du_ue_mapping s') = m \<and> f1_map (fi_du2cu_ue_mapping s') = n)
     in cu_exists_f1_ue_data u s = Inr (cu u \<noteq> None) \<and> du_exists_f1_ue_data u s = Inr (du u \<noteq> None)
      \<and> cu_get_f1_ue_data u s = (case cu u of None \<Rightarrow> Inl Assert_failed | Some d \<Rightarrow> Inr d)
      \<and> du_get_f1_ue_data u s = (case du u of None \<Rightarrow> Inl Assert_failed | Some d \<Rightarrow> Inr d)
      \<and> (if cu u = None then \<exists>s'. cu_add_f1_ue_data u d s = Inr (True, s') \<and> to s' (cu(u \<mapsto> d)) du
         else cu_add_f1_ue_data u d s = Inr (False, s))
      \<and> (if du u = None then \<exists>s'. du_add_f1_ue_data u d s = Inr (True, s') \<and> to s' cu (du(u \<mapsto> d))
         else du_add_f1_ue_data u d s = Inr (False, s))
      \<and> (if cu u = None then cu_update_f1_ue_data u d s = Inl Assert_failed
         else \<exists>s'. cu_update_f1_ue_data u d s = Inr (True, s') \<and> to s' (cu(u \<mapsto> d)) du)
      \<and> (\<exists>s'. cu_remove_f1_ue_data u s = Inr (cu u \<noteq> None, s') \<and> to s' (cu(u := None)) du)
      \<and> (\<exists>s'. du_remove_f1_ue_data u s = Inr (du u \<noteq> None, s') \<and> to s' cu (du(u := None)))"
proof -
  have cu: "f1_ok (fi_cu2du_ue_mapping s)" and du: "f1_ok (fi_du2cu_ue_mapping s)"
    using f1_reached_ok[OF assms] by (simp_all add: f1_ids_ok_def)
  show ?thesis
    unfolding Let_def
    using f1_exists_eq[OF cu, of u] f1_exists_eq[OF du, of u] f1_get_eq[OF cu, of u] f1_get_eq[OF du, of u]
      f1_add_eq[OF cu, of u d] f1_add_eq[OF du, of u d] f1_remove_eq[OF cu, of u] f1_remove_eq[OF du, of u]
      cu_update_eq[OF cu, of u d]
    by (auto simp: cu_exists_f1_ue_data_def du_exists_f1_ue_data_def cu_get_f1_ue_data_def du_get_f1_ue_data_def
        cu_add_f1_ue_data_def du_add_f1_ue_data_def cu_remove_f1_ue_data_def du_remove_f1_ue_data_def split: if_splits)
qed

definition f1_started :: f1_ids where
  "f1_started = \<lparr>fi_cu2du_ue_mapping = Some (hashtable_create 1319 None), fi_du2cu_ue_mapping = Some (hashtable_create 1319 None)\<rparr>"

lemma f1_started_reached: "f1_reached f1_started"
proof (rule f1_reached.created)
  let ?s = "\<lparr>fi_cu2du_ue_mapping = Some (hashtable_create 1319 None), fi_du2cu_ue_mapping = None\<rparr> :: f1_ids"
  show "cu_init_f1_ue_data \<lparr>fi_cu2du_ue_mapping = None, fi_du2cu_ue_mapping = None\<rparr> = Inr ?s"
    by (simp add: cu_init_f1_ue_data_def f1_init_def)
  show "du_init_f1_ue_data ?s = Inr f1_started"
    by (simp add: du_init_f1_ue_data_def f1_init_def f1_started_def)
qed

lemma f1_started_maps: "f1_map (fi_cu2du_ue_mapping f1_started) = Map.empty" "f1_map (fi_du2cu_ue_mapping f1_started) = Map.empty"
  by (simp_all add: f1_started_def f1_map_def ht_ptr_map_def ht_create_ok fun_eq_iff)

text \<open>The identifiers 5 and 1324 fall into the same bucket of the table.\<close>

theorem f1_ids_are_maps_witness:
  "\<exists>d d' s1 s2. d \<noteq> d' \<and> cu_add_f1_ue_data 5 d f1_started = Inr (True, s1) \<and> cu_add_f1_ue_data 1324 d' s1 = Inr (True, s2)
     \<and> cu_get_f1_ue_data 5 s2 = Inr d"
proof -
  let ?d = "\<lparr>fd_secondary_ue = 5, fd_e1_assoc_id = 0, fd_du_assoc_id = 0\<rparr>"
  let ?d' = "\<lparr>fd_secondary_ue = 6, fd_e1_assoc_id = 0, fd_du_assoc_id = 0\<rparr>"
  obtain s1 where 1: "cu_add_f1_ue_data 5 ?d f1_started = Inr (True, s1)" "f1_map (fi_cu2du_ue_mapping s1) = [5 \<mapsto> ?d]"
    using f1_ids_are_maps[OF f1_started_reached, of 5 ?d] unfolding Let_def f1_started_maps by auto
  note r1 = f1_reached.cu_added[OF f1_started_reached 1(1)]
  obtain s2 where 2: "cu_add_f1_ue_data 1324 ?d' s1 = Inr (True, s2)" "f1_map (fi_cu2du_ue_mapping s2) = [5 \<mapsto> ?d, 1324 \<mapsto> ?d']"
    using f1_ids_are_maps[OF r1, of 1324 ?d'] by (auto simp: Let_def 1(2))
  have "cu_get_f1_ue_data 5 s2 = Inr ?d"
    using f1_ids_are_maps[OF f1_reached.cu_added[OF r1 2(1)], of 5 ?d] by (simp add: Let_def 2(2))
  then show ?thesis using 1(1) 2(1) by (intro exI[of _ ?d] exI[of _ ?d'] exI[of _ s1] exI[of _ s2]) simp
qed

end
