(* ===== verification/Pdcp_Ue_Manager.thy ===== *)
theory Pdcp_Ue_Manager
  imports Pdcp_Entity Rlc_Ue_Manager
begin

text \<open>
  \<open>nr_pdcp_ue_manager.h\<close> and \<open>nr_pdcp_ue_manager.c\<close>: the table of UEs and the PDCP entities of
  their bearers, with the conventions of the RLC table.
\<close>

record nr_pdcp_ue =
  pu_id :: u64
  pu_srb :: "nr_pdcp_entity option list"
  pu_drb :: "nr_pdcp_entity option list"

record nr_pdcp_ue_manager =
  pm_ue_list :: "nr_pdcp_ue list"
  pm_enb_flag :: int

definition new_nr_pdcp_ue_manager :: "int \<Rightarrow> nr_pdcp_ue_manager" where
  "new_nr_pdcp_ue_manager enb_flag = \<lparr>pm_ue_list = [], pm_enb_flag = enb_flag\<rparr>"

definition nr_pdcp_manager_get_enb_flag :: "nr_pdcp_ue_manager \<Rightarrow> int" where
  "nr_pdcp_manager_get_enb_flag m = pm_enb_flag m"

definition new_pdcp_ue :: "u64 \<Rightarrow> nr_pdcp_ue" where
  "new_pdcp_ue i = \<lparr>pu_id = i, pu_srb = replicate 3 None, pu_drb = replicate MAX_DRBS_PER_UE None\<rparr>"

definition nr_pdcp_manager_get_ue :: "nr_pdcp_ue_manager \<Rightarrow> u64 \<Rightarrow> nat \<times> nr_pdcp_ue_manager" where
  "nr_pdcp_manager_get_ue m i =
     (let k = ue_index (\<lambda>u. pu_id u = i) (pm_ue_list m)
      in if k < length (pm_ue_list m) then (k, m)
         else (k, m\<lparr>pm_ue_list := pm_ue_list m @ [new_pdcp_ue i]\<rparr>))"

text \<open>
  Removal deletes the first two signalling and the first five data bearers; the result lists the
  deleted entities in the order of the calls.
\<close>

definition pdcp_deleted :: "nr_pdcp_entity option list \<Rightarrow> nr_pdcp_entity list" where
  "pdcp_deleted es = map (\<lambda>e. nr_pdcp_entity_delete (the e)) (filter (\<lambda>e. e \<noteq> None) es)"

definition nr_pdcp_manager_remove_ue ::
  "nr_pdcp_ue_manager \<Rightarrow> u64 \<Rightarrow> nr_pdcp_entity list \<times> nr_pdcp_ue_manager" where
  "nr_pdcp_manager_remove_ue m i =
     (let k = ue_index (\<lambda>u. pu_id u = i) (pm_ue_list m)
      in if k = length (pm_ue_list m) then ([], m)
         else
           let ue = pm_ue_list m ! k
           in (pdcp_deleted (take 2 (pu_srb ue) @ take 5 (pu_drb ue)),
               m\<lparr>pm_ue_list := take k (pm_ue_list m) @ drop (Suc k) (pm_ue_list m)\<rparr>))"

definition nr_pdcp_ue_add_srb_pdcp_entity :: "nr_pdcp_ue \<Rightarrow> int \<Rightarrow> nr_pdcp_entity \<Rightarrow> nr_pdcp_ue res" where
  "nr_pdcp_ue_add_srb_pdcp_entity ue srb_id entity =
     (if srb_id < 1 \<or> srb_id > 2 then Inl Exit_fatal
      else
        let k = nat (srb_id - 1)
        in if pu_srb ue ! k \<noteq> None then Inl Exit_fatal
           else Inr (ue\<lparr>pu_srb := (pu_srb ue)[k := Some entity]\<rparr>))"

definition nr_pdcp_ue_add_drb_pdcp_entity :: "nr_pdcp_ue \<Rightarrow> int \<Rightarrow> nr_pdcp_entity \<Rightarrow> nr_pdcp_ue res" where
  "nr_pdcp_ue_add_drb_pdcp_entity ue drb_id entity =
     (if drb_id < 1 \<or> drb_id > 5 then Inl Exit_fatal
      else
        let k = nat (drb_id - 1)
        in if pu_drb ue ! k \<noteq> None then Inl Exit_fatal
           else Inr (ue\<lparr>pu_drb := (pu_drb ue)[k := Some entity]\<rparr>))"

definition nr_pdcp_manager_get_ue_list :: "nr_pdcp_ue_manager \<Rightarrow> nr_pdcp_ue list" where
  "nr_pdcp_manager_get_ue_list m = pm_ue_list m"

definition nr_pdcp_manager_get_ue_count :: "nr_pdcp_ue_manager \<Rightarrow> int" where
  "nr_pdcp_manager_get_ue_count m = int (length (pm_ue_list m))"

definition nr_pdcp_get_first_ue_id :: "nr_pdcp_ue_manager \<Rightarrow> u64 option" where
  "nr_pdcp_get_first_ue_id m = (case pm_ue_list m of [] \<Rightarrow> None | u # _ \<Rightarrow> Some (pu_id u))"

section \<open>The table as a map\<close>

interpretation pdcp_ues: ue_table pm_ue_list pu_id new_pdcp_ue nr_pdcp_manager_get_ue nr_pdcp_manager_remove_ue
proof unfold_locales
  fix m i
  note at = ue_index_cases[of i pu_id "pm_ue_list m"]
  show "pu_id (new_pdcp_ue i) = i" by (simp add: new_pdcp_ue_def)
  show "fst (nr_pdcp_manager_get_ue m i) = ue_index (\<lambda>u. pu_id u = i) (pm_ue_list m)"
    by (simp add: nr_pdcp_manager_get_ue_def Let_def)
  show "i \<in> pu_id ` set (pm_ue_list m) \<Longrightarrow> snd (nr_pdcp_manager_get_ue m i) = m"
    by (simp add: nr_pdcp_manager_get_ue_def Let_def at(1))
  show "i \<notin> pu_id ` set (pm_ue_list m) \<Longrightarrow> pm_ue_list (snd (nr_pdcp_manager_get_ue m i)) = pm_ue_list m @ [new_pdcp_ue i]"
    by (simp add: nr_pdcp_manager_get_ue_def Let_def at(2))
  show "i \<in> pu_id ` set (pm_ue_list m) \<Longrightarrow> pm_ue_list (snd (nr_pdcp_manager_remove_ue m i))
      = without (ue_index (\<lambda>u. pu_id u = i) (pm_ue_list m)) (pm_ue_list m)"
    by (simp add: nr_pdcp_manager_remove_ue_def Let_def without_def at(1))
  show "i \<notin> pu_id ` set (pm_ue_list m) \<Longrightarrow> snd (nr_pdcp_manager_remove_ue m i) = m"
    by (simp add: nr_pdcp_manager_remove_ue_def Let_def at(2))
qed

definition pdcp_ue_map :: "nr_pdcp_ue_manager \<Rightarrow> u64 \<Rightarrow> nr_pdcp_ue option" where
  "pdcp_ue_map m = table_of pu_id (pm_ue_list m)"

text \<open>
  The arrays are longer than the loops of \<open>remove_ue\<close>; the bearers the functions that add one let
  through are the ones the loops reach.
\<close>

definition pdcp_ue_ok :: "nr_pdcp_ue \<Rightarrow> bool" where
  "pdcp_ue_ok ue \<longleftrightarrow>
     length (pu_srb ue) = 3 \<and> length (pu_drb ue) = MAX_DRBS_PER_UE
     \<and> (\<forall>e \<in> set (drop 2 (pu_srb ue)). e = None) \<and> (\<forall>e \<in> set (drop 5 (pu_drb ue)). e = None)"

lemma pdcp_ue_ok_add:
  "pdcp_ue_ok ue \<Longrightarrow> nr_pdcp_ue_add_srb_pdcp_entity ue b en = Inr ue' \<Longrightarrow> pdcp_ue_ok ue' \<and> pu_id ue' = pu_id ue"
  "pdcp_ue_ok ue \<Longrightarrow> nr_pdcp_ue_add_drb_pdcp_entity ue b en = Inr ue' \<Longrightarrow> pdcp_ue_ok ue' \<and> pu_id ue' = pu_id ue"
  by (auto simp: pdcp_ue_ok_def nr_pdcp_ue_add_srb_pdcp_entity_def nr_pdcp_ue_add_drb_pdcp_entity_def Let_def
      drop_update_cancel nat_less_iff split: if_splits)

lemma pdcp_ue_ok_new: "pdcp_ue_ok (new_pdcp_ue i)"
  by (simp add: pdcp_ue_ok_def new_pdcp_ue_def)

definition pdcp_bearers :: "nr_pdcp_ue \<Rightarrow> nr_pdcp_entity option list" where
  "pdcp_bearers ue = pu_srb ue @ pu_drb ue"

lemma pdcp_deleted_all:
  assumes "pdcp_ue_ok ue"
  shows "pdcp_deleted (take 2 (pu_srb ue) @ take 5 (pu_drb ue)) = pdcp_deleted (pdcp_bearers ue)"
proof -
  have "filter (\<lambda>e. e \<noteq> None) (take n l) = filter (\<lambda>e. e \<noteq> None) l" if "\<forall>e \<in> set (drop n l). e = None"
    for n and l :: "nr_pdcp_entity option list"
  proof -
    have "filter (\<lambda>e. e \<noteq> None) (drop n l) = []" using that by (simp add: filter_empty_conv)
    then show ?thesis using filter_append[of "\<lambda>e. e \<noteq> None" "take n l" "drop n l"] by simp
  qed
  then show ?thesis using assms by (simp add: pdcp_deleted_def pdcp_bearers_def pdcp_ue_ok_def)
qed

definition pdcp_manager_ok :: "nr_pdcp_ue_manager \<Rightarrow> bool" where
  "pdcp_manager_ok m \<longleftrightarrow> distinct (map pu_id (pm_ue_list m)) \<and> (\<forall>ue \<in> set (pm_ue_list m). pdcp_ue_ok ue)"

lemma pdcp_removed_bearers:
  assumes "\<forall>ue \<in> set (pm_ue_list m). pdcp_ue_ok ue"
  shows "fst (nr_pdcp_manager_remove_ue m j)
     = (case pdcp_ue_map m j of None \<Rightarrow> [] | Some ue \<Rightarrow> pdcp_deleted (pdcp_bearers ue))"
  using ue_index_cases[of j pu_id "pm_ue_list m"] table_of_index[of j pu_id "pm_ue_list m"]
    table_of_None[of pu_id "pm_ue_list m" j] assms
  by (cases "j \<in> pu_id ` set (pm_ue_list m)")
    (simp_all add: nr_pdcp_manager_remove_ue_def Let_def pdcp_ue_map_def pdcp_deleted_all)

lemma pdcp_manager_ok_steps:
  assumes "pdcp_manager_ok m"
  shows "pdcp_manager_ok (snd (nr_pdcp_manager_get_ue m i))" "pdcp_manager_ok (snd (nr_pdcp_manager_remove_ue m i))"
proof -
  note d = assms[unfolded pdcp_manager_ok_def]
  have "\<forall>ue \<in> set (pm_ue_list (snd (nr_pdcp_manager_get_ue m i))). pdcp_ue_ok ue"
    using d by (auto simp: nr_pdcp_manager_get_ue_def Let_def pdcp_ue_ok_new)
  then show "pdcp_manager_ok (snd (nr_pdcp_manager_get_ue m i))"
    using pdcp_ues.get_map[of m i] d by (simp add: pdcp_manager_ok_def)
  have "set (pm_ue_list (snd (nr_pdcp_manager_remove_ue m i))) \<subseteq> set (pm_ue_list m)"
    by (auto simp: nr_pdcp_manager_remove_ue_def Let_def dest: in_set_takeD in_set_dropD)
  then show "pdcp_manager_ok (snd (nr_pdcp_manager_remove_ue m i))"
    using pdcp_ues.rem_map[of m i] d by (auto simp: pdcp_manager_ok_def)
qed

text \<open>
  C33: the PDCP UE manager is a map from identifiers to UEs, too, and removing a UE deletes all its
  bearers: although the loops stop at the second signalling and the fifth data bearer of longer
  arrays, no function puts an entity behind these.
\<close>

theorem pdcp_ue_manager_is_map:
  assumes "pdcp_manager_ok m" "nr_pdcp_manager_get_ue m i = (k, m1)" "nr_pdcp_manager_remove_ue m1 j = (deleted, m2)"
    "ue \<in> set (pm_ue_list m1)" "nr_pdcp_ue_add_srb_pdcp_entity ue b en = Inr ue' \<or> nr_pdcp_ue_add_drb_pdcp_entity ue b en = Inr ue'"
  shows "pdcp_manager_ok m1 \<and> pdcp_manager_ok m2 \<and> pdcp_ue_ok ue' \<and> pu_id ue' = pu_id ue
     \<and> pdcp_ue_map m1 = (if pdcp_ue_map m i = None then (pdcp_ue_map m)(i \<mapsto> new_pdcp_ue i) else pdcp_ue_map m)
     \<and> k < length (pm_ue_list m1) \<and> pdcp_ue_map m1 i = Some (pm_ue_list m1 ! k)
     \<and> nr_pdcp_manager_get_ue m1 i = (k, m1)
     \<and> pdcp_ue_map m2 = (pdcp_ue_map m1)(j := None)
     \<and> deleted = (case pdcp_ue_map m1 j of None \<Rightarrow> [] | Some ue \<Rightarrow> pdcp_deleted (pdcp_bearers ue))"
proof -
  have d: "distinct (map pu_id (pm_ue_list m))" using assms(1) by (simp add: pdcp_manager_ok_def)
  note g = pdcp_ues.get_map[OF d, of i, unfolded assms(2) fst_conv snd_conv]
  note r = pdcp_ues.rem_map[of m1 j, unfolded assms(3) fst_conv snd_conv]
  have ok: "pdcp_manager_ok m1" "pdcp_manager_ok m2"
    using pdcp_manager_ok_steps(1)[OF assms(1), of i] pdcp_manager_ok_steps(2)[of m1 j] assms(2,3) by simp_all
  then have ues: "pdcp_ue_ok ue" "\<forall>ue \<in> set (pm_ue_list m1). pdcp_ue_ok ue" using assms(4) by (simp_all add: pdcp_manager_ok_def)
  have "pdcp_ue_ok ue' \<and> pu_id ue' = pu_id ue" using pdcp_ue_ok_add[OF ues(1)] assms(5) by blast
  then show ?thesis
    using ok g r pdcp_removed_bearers[OF ues(2), of j, unfolded assms(3) fst_conv pdcp_ue_map_def]
    unfolding pdcp_ue_map_def by blast
qed

theorem pdcp_ue_manager_is_map_witness:
  "\<exists>k m1 deleted m2. nr_pdcp_manager_get_ue (new_nr_pdcp_ue_manager 1) 7 = (k, m1)
     \<and> nr_pdcp_manager_remove_ue m1 7 = (deleted, m2) \<and> pdcp_ue_map m1 7 = Some (new_pdcp_ue 7) \<and> pdcp_ue_map m2 7 = None
     \<and> (\<forall>en. \<exists>ue'. nr_pdcp_ue_add_drb_pdcp_entity (new_pdcp_ue 7) 1 en = Inr ue' \<and> pdcp_ue_ok ue')"
proof -
  let ?m = "new_nr_pdcp_ue_manager 1"
  obtain k m1 deleted m2 where o: "nr_pdcp_manager_get_ue ?m 7 = (k, m1)" "nr_pdcp_manager_remove_ue m1 7 = (deleted, m2)"
    by (metis surj_pair)
  have m: "pdcp_manager_ok ?m" "pdcp_ue_map ?m 7 = None"
    by (simp_all add: pdcp_manager_ok_def new_nr_pdcp_ue_manager_def pdcp_ue_map_def)
  have "m1 = ?m\<lparr>pm_ue_list := [new_pdcp_ue 7]\<rparr>"
    using o(1) by (simp add: nr_pdcp_manager_get_ue_def new_nr_pdcp_ue_manager_def)
  then have ue: "new_pdcp_ue 7 \<in> set (pm_ue_list m1)" by simp
  have add: "\<exists>ue'. nr_pdcp_ue_add_drb_pdcp_entity (new_pdcp_ue 7) 1 en = Inr ue'" for en
    by (simp add: nr_pdcp_ue_add_drb_pdcp_entity_def new_pdcp_ue_def MAX_DRBS_PER_UE_def)
  have "pdcp_ue_map m1 7 = Some (new_pdcp_ue 7) \<and> pdcp_ue_map m2 7 = None \<and> pdcp_ue_ok ue'"
    if "nr_pdcp_ue_add_drb_pdcp_entity (new_pdcp_ue 7) 1 en = Inr ue'" for en ue'
    using pdcp_ue_manager_is_map[OF m(1) o ue disjI2[OF that]] m(2) by simp
  then show ?thesis using o add by blast
qed

end
