(* ===== verification/Sdap_Manager.thy ===== *)
theory Sdap_Manager
  imports Sdap_Entity
begin

text \<open>
  The rest of \<open>nr_sdap_entity.c\<close>, and \<open>nr_sdap.c\<close>: the list of the SDAP entities, their creation,
  configuration and deletion, and the interface of the layer.
\<close>

section \<open>Configuration of the mapping rules on the UE\<close>

text \<open>
  The loop over \<open>mapped_qfi_2_add[0 \<dots> n - 1]\<close>; the array is the block the pointer points into,
  and the number read becomes a \<open>uint8_t\<close>.
\<close>

definition sdap_qfi_config_step ::
  "'p pdcp_service \<Rightarrow> int \<Rightarrow> u64 \<Rightarrow> byte \<Rightarrow> bool \<Rightarrow> bool \<Rightarrow> byte \<Rightarrow> nr_sdap_entity \<times> 'p \<Rightarrow> (nr_sdap_entity \<times> 'p) res" where
  "sdap_qfi_config_step pdcp pdcp_entity ue_id drb_identity rx tx qfi s =
     rbind (qfi_get (fst s) qfi) (\<lambda>rule.
     rbind (if se_default_drb (fst s) \<noteq> 0 \<and> qd_drb_id rule = SDAP_NO_MAPPING_RULE
            then sdap_end_marker pdcp (fst s) pdcp_entity ue_id SDAP_CTRL_PDU_MAP_DEF_DRB qfi (snd s)
            else Inr s) (\<lambda>(e1, p1).
     rbind (qfi_get e1 qfi) (\<lambda>rule1.
     rbind (if qd_drb_id rule1 \<noteq> uint drb_identity \<and> qd_has_sdap_tx rule1
            then sdap_end_marker pdcp e1 pdcp_entity ue_id SDAP_CTRL_PDU_MAP_RULE_DRB qfi p1
            else Inr (e1, p1)) (\<lambda>(e2, p2).
     Inr (nr_sdap_qfi2drb_map_update e2 qfi (uint drb_identity) rx tx, p2)))))"

fun sdap_qfi_loop :: "int list \<Rightarrow> nat list \<Rightarrow> (byte \<Rightarrow> 's \<Rightarrow> 's res) \<Rightarrow> 's \<Rightarrow> 's res" where
  "sdap_qfi_loop block [] f s = Inr s"
| "sdap_qfi_loop block (i # is) f s =
     (if i < length block then rbind (f (word_of_int (block ! i)) s) (sdap_qfi_loop block is f)
      else Inl Out_of_bounds)"

definition nr_sdap_ue_qfi2drb_config ::
  "'p pdcp_service \<Rightarrow> nr_sdap_entity \<Rightarrow> int \<Rightarrow> u64 \<Rightarrow> int list \<Rightarrow> nat \<Rightarrow> byte \<Rightarrow> bool \<Rightarrow> bool \<Rightarrow> 'p
   \<Rightarrow> (nr_sdap_entity \<times> 'p) res" where
  "nr_sdap_ue_qfi2drb_config pdcp e pdcp_entity ue_id mapped_qfi_2_add n drb_identity rx tx p =
     sdap_qfi_loop mapped_qfi_2_add [0..<n]
       (sdap_qfi_config_step pdcp pdcp_entity ue_id drb_identity rx tx) (e, p)"

section \<open>The list of entities\<close>

record 'p nr_sdap =
  sd_llist :: "nr_sdap_entity list"
  sd_N3GTPUInst :: "int option"
  sd_nos1 :: bool
  sd_default_pdu_session_id :: int
  sd_events :: "sdap_event list"
  sd_pdcp :: 'p

definition sdap_is :: "u64 \<Rightarrow> int \<Rightarrow> nr_sdap_entity \<Rightarrow> bool" where
  "sdap_is ue_id ps e \<longleftrightarrow> se_ue_id e = ue_id \<and> se_pdusession_id e = ps"

definition sd_event :: "sdap_event \<Rightarrow> 'p nr_sdap \<Rightarrow> 'p nr_sdap" where
  "sd_event ev s = s\<lparr>sd_events := sd_events s @ [ev]\<rparr>"

text \<open>
  The walk of the searches: the cursor stops at the first match or at the last element, or after
  \<open>n\<close> steps in the searches that count them.
\<close>

fun sdap_walk :: "(nr_sdap_entity \<Rightarrow> bool) \<Rightarrow> nr_sdap_entity list \<Rightarrow> nat" where
  "sdap_walk P [] = 0"
| "sdap_walk P (e # l) = (if \<not> P e \<and> l \<noteq> [] then Suc (sdap_walk P l) else 0)"

fun sdap_walk_max :: "nat \<Rightarrow> (nr_sdap_entity \<Rightarrow> bool) \<Rightarrow> nr_sdap_entity list \<Rightarrow> nat" where
  "sdap_walk_max n P [] = 0"
| "sdap_walk_max n P (e # l) = (if \<not> P e \<and> l \<noteq> [] \<and> 0 < n then Suc (sdap_walk_max (n - 1) P l) else 0)"

definition nr_sdap_get_entity :: "nr_sdap_entity list \<Rightarrow> u64 \<Rightarrow> int \<Rightarrow> nat option" where
  "nr_sdap_get_entity l ue_id ps =
     (if l = [] then None
      else let k = sdap_walk (sdap_is ue_id ps) l in if sdap_is ue_id ps (l ! k) then Some k else None)"

definition sd_entity :: "nat \<Rightarrow> 'p nr_sdap \<Rightarrow> nr_sdap_entity" where
  "sd_entity k s = sd_llist s ! k"

definition sd_put :: "nat \<Rightarrow> nr_sdap_entity \<Rightarrow> 'p nr_sdap \<Rightarrow> 'p nr_sdap" where
  "sd_put k e s = s\<lparr>sd_llist := (sd_llist s)[k := e]\<rparr>"

definition sdap_release_loop :: "int \<Rightarrow> qfi2drb list \<Rightarrow> qfi2drb list" where
  "sdap_release_loop drb_id t = map (\<lambda>r. if qd_drb_id r = drb_id then r\<lparr>qd_drb_id := SDAP_NO_MAPPING_RULE\<rparr> else r) t"

definition nr_sdap_release_drb :: "u64 \<Rightarrow> int \<Rightarrow> int \<Rightarrow> 'p nr_sdap \<Rightarrow> 'p nr_sdap" where
  "nr_sdap_release_drb ue_id drb_id ps s =
     (case nr_sdap_get_entity (sd_llist s) ue_id ps of
        None \<Rightarrow> s
      | Some k \<Rightarrow>
          sd_put k ((sd_entity k s)\<lparr>se_qfi2drb_table := sdap_release_loop drb_id (se_qfi2drb_table (sd_entity k s))\<rparr>) s)"

text \<open>Unlinking and freeing an entity; one with a socket takes its interface with it.\<close>

definition sdap_free_events :: "nr_sdap_entity \<Rightarrow> sdap_event list" where
  "sdap_free_events e =
     (if se_pdusession_sock e \<noteq> -1 then [Remove_Ip_If (se_ue_id e) (se_pdusession_id e) (se_pdusession_sock e)] else [])"

definition nr_sdap_delete_entity :: "u64 \<Rightarrow> int \<Rightarrow> 'p nr_sdap \<Rightarrow> (bool \<times> 'p nr_sdap) res" where
  "nr_sdap_delete_entity ue_id ps s =
     (case sd_llist s of
        [] \<Rightarrow> if 0 < ps * (ps - NGAP_MAX_PDU_SESSION) then Inr (False, s) else Inl Null_deref
      | e # l \<Rightarrow>
          if sdap_is ue_id ps e then
            Inr (True, s\<lparr>sd_llist := l, sd_events := sd_events s @ sdap_free_events e\<rparr>)
          else
            let k = sdap_walk_max SDAP_MAX_NUM_OF_ENTITIES (sdap_is ue_id ps) (e # l); cur = (e # l) ! k
            in if sdap_is ue_id ps cur then
                 Inr (True, s\<lparr>sd_llist := without k (e # l), sd_events := sd_events s @ sdap_free_events cur\<rparr>)
               else Inr (False, s))"

text \<open>
  The two loops of \<open>nr_sdap_delete_ue_entities\<close>: the first takes entities off the head, the second
  those behind an entity that stays. Neither changes \<open>upperBound\<close>, which is 0 and below the bounds.
\<close>

fun sdap_delete_head :: "u64 \<Rightarrow> nr_sdap_entity list \<Rightarrow> sdap_event list \<times> nr_sdap_entity list" where
  "sdap_delete_head ue_id [] = ([], [])"
| "sdap_delete_head ue_id (e # l) =
     (if se_ue_id e = ue_id
      then let (evs, l') = sdap_delete_head ue_id l in (sdap_free_events e @ evs, l')
      else ([], e # l))"

fun sdap_delete_rest :: "u64 \<Rightarrow> nr_sdap_entity list \<Rightarrow> sdap_event list \<times> nr_sdap_entity list" where
  "sdap_delete_rest ue_id [] = ([], [])"
| "sdap_delete_rest ue_id (e # l) =
     (let (evs, l') = sdap_delete_rest ue_id l
      in if se_ue_id e \<noteq> ue_id then (evs, e # l') else (sdap_free_events e @ evs, l'))"

definition nr_sdap_delete_ue_entities :: "u64 \<Rightarrow> 'p nr_sdap \<Rightarrow> bool \<times> 'p nr_sdap" where
  "nr_sdap_delete_ue_entities ue_id s =
     (if sd_llist s = [] \<and> 0 < ue_id * (ue_id - SDAP_MAX_UE_ID) then (False, s)
      else
        let (evs1, l1) = sdap_delete_head ue_id (sd_llist s); (evs2, l2) = sdap_delete_rest ue_id l1
        in (length l2 < length (sd_llist s), s\<lparr>sd_llist := l2, sd_events := sd_events s @ evs1 @ evs2\<rparr>))"

text \<open>
  A new entity. In noS1 mode the gNB opens the tunnel interface of the default session of the UE;
  \<open>tun_alloc\<close> is the socket it gets.
\<close>

definition calloc_nr_sdap_entity :: nr_sdap_entity where
  "calloc_nr_sdap_entity = \<lparr>se_ue_id = 0, se_default_drb = 0, se_is_gnb = False, se_pdusession_id = 0,
     se_pdusession_sock = 0, se_stop_thread = False, se_qfi = 0,
     se_qfi2drb_table = replicate SDAP_MAX_QFI \<lparr>qd_drb_id = 0, qd_has_sdap_rx = False, qd_has_sdap_tx = False\<rparr>\<rparr>"

definition start_sdap_tun_gnb_first_ue_default_pdu_session :: "int \<Rightarrow> u64 \<Rightarrow> 'p nr_sdap \<Rightarrow> 'p nr_sdap res" where
  "start_sdap_tun_gnb_first_ue_default_pdu_session tun_alloc ue_id s =
     (case nr_sdap_get_entity (sd_llist s) ue_id (sd_default_pdu_session_id s) of
        None \<Rightarrow> Inl Assert_failed
      | Some k \<Rightarrow> rbind (rcheck (se_is_gnb (sd_entity k s)) Assert_failed) (\<lambda>_.
          Inr (sd_put k ((sd_entity k s)\<lparr>se_pdusession_sock := tun_alloc\<rparr>) s)))"

definition start_sdap_tun_ue :: "u64 \<Rightarrow> int \<Rightarrow> int \<Rightarrow> 'p nr_sdap \<Rightarrow> 'p nr_sdap res" where
  "start_sdap_tun_ue ue_id ps sock s =
     (case nr_sdap_get_entity (sd_llist s) ue_id ps of
        None \<Rightarrow> Inl Assert_failed
      | Some k \<Rightarrow> rbind (rcheck (\<not> se_is_gnb (sd_entity k s)) Assert_failed) (\<lambda>_.
          Inr (sd_put k ((sd_entity k s)\<lparr>se_pdusession_sock := sock, se_stop_thread := False\<rparr>) s)))"

definition sdap_init_entity ::
  "bool \<Rightarrow> bool \<Rightarrow> bool \<Rightarrow> u64 \<Rightarrow> int \<Rightarrow> bool \<Rightarrow> byte \<Rightarrow> int list \<Rightarrow> nat \<Rightarrow> nr_sdap_entity res" where
  "sdap_init_entity is_gnb rx tx ue_id ps is_defaultDRB drb_identity qfis n =
     (let e = calloc_nr_sdap_entity\<lparr>se_ue_id := ue_id, se_pdusession_id := ps, se_is_gnb := is_gnb,
                se_pdusession_sock := -1\<rparr>
      in if is_defaultDRB then
           sdap_qfi_loop qfis [0..<n] (\<lambda>qfi e. Inr (nr_sdap_qfi2drb_map_update e qfi (se_default_drb e) rx tx))
             (e\<lparr>se_default_drb := uint drb_identity\<rparr>)
         else Inr e)"

definition new_nr_sdap_entity ::
  "'p pdcp_service \<Rightarrow> int \<Rightarrow> bool \<Rightarrow> bool \<Rightarrow> bool \<Rightarrow> u64 \<Rightarrow> int \<Rightarrow> bool \<Rightarrow> byte \<Rightarrow> int list \<Rightarrow> nat \<Rightarrow> 'p nr_sdap
   \<Rightarrow> 'p nr_sdap res" where
  "new_nr_sdap_entity pdcp tun_alloc is_gnb rx tx ue_id ps is_defaultDRB drb_identity qfis n s =
     (case nr_sdap_get_entity (sd_llist s) ue_id ps of
        Some k \<Rightarrow>
          if is_gnb then Inr s
          else rbind (nr_sdap_ue_qfi2drb_config pdcp (sd_entity k s) (se_default_drb (sd_entity k s)) ue_id
                        qfis n drb_identity rx tx (sd_pdcp s))
                 (\<lambda>(e, p). Inr ((sd_put k e s)\<lparr>sd_pdcp := p\<rparr>))
      | None \<Rightarrow>
          rbind (sdap_init_entity is_gnb rx tx ue_id ps is_defaultDRB drb_identity qfis n) (\<lambda>e.
            let s' = s\<lparr>sd_llist := e # sd_llist s\<rparr>
            in if sd_nos1 s \<and> is_gnb then start_sdap_tun_gnb_first_ue_default_pdu_session tun_alloc ue_id s'
               else Inr s'))"

definition sdap_release_flows :: "int list \<Rightarrow> nat list \<Rightarrow> nr_sdap_entity \<Rightarrow> nr_sdap_entity res" where
  "sdap_release_flows block is e = sdap_qfi_loop block is (\<lambda>qfi e. nr_sdap_qfi2drb_map_del e qfi) e"

definition nr_reconfigure_sdap_entity ::
  "'p pdcp_service \<Rightarrow> nr_sdap_config \<Rightarrow> u64 \<Rightarrow> int \<Rightarrow> int \<Rightarrow> 'p nr_sdap \<Rightarrow> 'p nr_sdap res" where
  "nr_reconfigure_sdap_entity pdcp c ue_id ps drb_id s =
     (case nr_sdap_get_entity (sd_llist s) ue_id ps of
        None \<Rightarrow> Inr s
      | Some k \<Rightarrow>
          rbind (asn1_array0 (sc_mappedQoS_FlowsToAdd c)) (\<lambda>add.
          rbind (nr_sdap_ue_qfi2drb_config pdcp (sd_entity k s) (se_default_drb (sd_entity k s)) ue_id add
                   (unat (of_nat (length (the (sc_mappedQoS_FlowsToAdd c))) :: byte)) (word_of_int drb_id)
                   (is_sdap_rx False c) (is_sdap_tx False c) (sd_pdcp s)) (\<lambda>(e, p).
          rbind (if sc_mappedQoS_FlowsToRelease c = None then Inr e
                 else rbind (asn1_array0 (sc_mappedQoS_FlowsToRelease c)) (\<lambda>rel.
                   sdap_release_flows rel
                     [0..<unat (of_nat (length (the (sc_mappedQoS_FlowsToRelease c))) :: byte)] e)) (\<lambda>e'.
          Inr ((sd_put k e' s)\<lparr>sd_pdcp := p\<rparr>)))))"

definition set_qfi :: "byte \<Rightarrow> byte \<Rightarrow> u64 \<Rightarrow> 'p nr_sdap \<Rightarrow> 'p nr_sdap res" where
  "set_qfi qfi pduid ue_id s =
     (case nr_sdap_get_entity (sd_llist s) ue_id (uint pduid) of
        None \<Rightarrow> Inl Assert_failed
      | Some k \<Rightarrow> Inr (sd_put k ((sd_entity k s)\<lparr>se_qfi := uint qfi\<rparr>) s))"

section \<open>The interface of the layer\<close>

definition sdap_data_req ::
  "'p pdcp_service \<Rightarrow> protocol_ctxt \<Rightarrow> u64 \<Rightarrow> bool \<Rightarrow> int \<Rightarrow> int \<Rightarrow> int \<Rightarrow> byte list option \<Rightarrow> int
   \<Rightarrow> u32 option \<Rightarrow> u32 option \<Rightarrow> byte \<Rightarrow> bool \<Rightarrow> int \<Rightarrow> 'p nr_sdap \<Rightarrow> (bool \<times> 'p nr_sdap) res" where
  "sdap_data_req pdcp ctxt ue_id srb_flag rb_id mui confirm sdu_buffer pt_mode src dst qfi rqi ps s =
     (case nr_sdap_get_entity (sd_llist s) ue_id ps of
        None \<Rightarrow> Inr (False, s)
      | Some k \<Rightarrow>
          rbind (nr_sdap_tx_entity pdcp (sd_entity k s) ctxt srb_flag rb_id mui confirm sdu_buffer pt_mode src dst
                   qfi rqi (sd_pdcp s))
            (\<lambda>(ret, e, p). Inr (ret, (sd_put k e s)\<lparr>sd_pdcp := p\<rparr>)))"

definition sdap_data_ind ::
  "'p pdcp_service \<Rightarrow> int \<Rightarrow> bool \<Rightarrow> bool \<Rightarrow> int \<Rightarrow> u64 \<Rightarrow> byte list \<Rightarrow> 'p nr_sdap \<Rightarrow> 'p nr_sdap res" where
  "sdap_data_ind pdcp pdcp_entity is_gnb has_sdap_rx ps ue_id buf s =
     (case nr_sdap_get_entity (sd_llist s) ue_id ps of
        None \<Rightarrow> Inr s
      | Some k \<Rightarrow>
          rbind (nr_sdap_rx_entity pdcp (sd_entity k s) pdcp_entity is_gnb has_sdap_rx ps ue_id buf
                   (sd_N3GTPUInst s) (sd_pdcp s))
            (\<lambda>(ev, e, p). Inr (sd_event ev ((sd_put k e s)\<lparr>sd_pdcp := p\<rparr>))))"

text \<open>One turn of the loop of \<open>sdap_tun_read_thread\<close>, for the entity at \<open>k\<close>, when \<open>read\<close> returned \<open>rx_buf\<close>.\<close>

definition sdap_tun_read :: "'p pdcp_service \<Rightarrow> nat \<Rightarrow> byte list \<Rightarrow> 'p nr_sdap \<Rightarrow> 'p nr_sdap res" where
  "sdap_tun_read pdcp k rx_buf s =
     (let e = sd_entity k s
      in rbind (nr_sdap_tx_entity pdcp e (ctxt_of (se_is_gnb e) (se_ue_id e)) False 1 RLC_MUI_UNDEFINED 0 (Some rx_buf)
                  PDCP_TRANSMISSION_MODE_DATA None None (word_of_int (se_qfi e))
                  (if se_is_gnb e then False else SDAP_HDR_UL_DATA_PDU) (sd_pdcp s))
           (\<lambda>(_, e', p). Inr ((sd_put k e' s)\<lparr>sd_pdcp := p\<rparr>)))"

end
