(* ===== verification/Pdcp_Api.thy ===== *)
theory Pdcp_Api
  imports Pdcp_Ue_Manager Pdcp_Queue Sdap_Manager
begin

text \<open>
  \<open>nr_pdcp_oai_api.c\<close>, \<open>asn1_utils.c\<close> and the loop of \<open>nr_pdcp_timer_thread.c\<close>: the interface of PDCP, which
  finds the entity of a bearer in the UE table, calls it, and connects it with SDAP above and RLC, GTP
  and RRC beside it.

  The table is the state below SDAP: the whole state is an SDAP state over a \<open>pdcp_api\<close>. What leaves the
  two layers is recorded as events; \<open>Rlc_Data_Req\<close> is a call of \<open>enqueue_rlc_data_req\<close>, whose queue
  is modelled in \<open>Pdcp_Queue\<close>. The entities call \<open>deliver_sdu\<close> while they run; here the calls for the
  SDUs an operation has delivered are made, in their order, when it has returned. The two agree as the
  callbacks reach an entity only through \<open>process_sdu\<close>, which reads and writes the transmission side.
  The lock of the table is recursive and every operation takes it, so operations are single steps.
\<close>

section \<open>Decoding of the configuration\<close>

definition decode_t_reordering :: "int \<Rightarrow> int res" where
  "decode_t_reordering v =
     (if v < 0 \<or> 35 < v then Inl Exit_fatal
      else Inr ([0, 1, 2, 4, 5, 8, 10, 15, 20, 30, 40, 50, 60, 80, 100, 120, 140, 160, 180, 200, 220, 240, 260, 280,
                 300, 500, 750, 1000, 1250, 1500, 1750, 2000, 2250, 2500, 2750, 3000] ! nat v))"

definition decode_sn_size_ul :: "int \<Rightarrow> nat res" where
  "decode_sn_size_ul s = (if s = 0 then Inr SHORT_SN_SIZE else if s = 1 then Inr LONG_SN_SIZE else Inl Exit_fatal)"

definition decode_sn_size_dl :: "int \<Rightarrow> nat res" where
  "decode_sn_size_dl s = (if s = 0 then Inr SHORT_SN_SIZE else if s = 1 then Inr LONG_SN_SIZE else Inl Exit_fatal)"

definition decode_discard_timer :: "int \<Rightarrow> int res" where
  "decode_discard_timer v =
     (if v < 0 \<or> 15 < v then Inl Exit_fatal
      else Inr ([10, 20, 30, 40, 50, 60, 75, 100, 150, 200, 250, 300, 500, 750, 1500, -1] ! nat v))"

text \<open>The configuration records; an optional pointer is an option.\<close>

record nr_pdcp_config_drb =
  xd_discardTimer :: "int option"
  xd_pdcp_SN_SizeUL :: "int option"
  xd_pdcp_SN_SizeDL :: "int option"
  xd_integrityProtection :: bool

record nr_pdcp_config =
  xc_t_Reordering :: "int option"
  xc_drb :: "nr_pdcp_config_drb option"
  xc_cipheringDisabled :: bool

datatype cn_association = Cn_Missing | Cn_Nothing | Cn_Eps int | Cn_Sdap "nr_sdap_config option"

record nr_drb_to_add_mod =
  da_drb_Identity :: int
  da_pdcp_Config :: "nr_pdcp_config option"
  da_cnAssociation :: cn_association

record nr_srb_to_add_mod =
  sa_srb_Identity :: int
  sa_pdcp_Config :: "nr_pdcp_config option"

section \<open>State\<close>

text \<open>
  What does not change while the layer runs: the algorithms, the kind of the node, the modes that make
  PDCP write to a tunnel interface, the GTP instance, the answers of \<open>cu_get_f1_ue_data\<close> (F1AP) and of
  \<open>tun_alloc\<close>.
\<close>

record pdcp_env =
  pe_crypto :: pdcp_crypto
  pe_node_is_cu :: bool
  pe_use_tun :: bool
  pe_CUuniqInstance :: int
  pe_f1_secondary_ue :: "u64 \<Rightarrow> u64 option"
  pe_tun_alloc :: int

datatype pdcp_event =
    Rlc_Data_Req rlc_data_req_queue_item
  | Cu_Gtpu_Send int u64 int "byte list"
  | F1ap_Ul_Rrc_Message u64 u64 int "byte list"
  | Nr_Rrc_Dcch_Data_Ind u64 int "byte list" nr_pdcp_integrity_data
  | Srb_Pdu u64 int "byte list" int

record pdcp_api =
  pa_manager :: nr_pdcp_ue_manager
  pa_events :: "pdcp_event list"

type_synonym user_plane = "pdcp_api nr_sdap"

definition pa_event :: "pdcp_event \<Rightarrow> pdcp_api \<Rightarrow> pdcp_api" where
  "pa_event ev p = p\<lparr>pa_events := pa_events p @ [ev]\<rparr>"

definition up_event :: "pdcp_event \<Rightarrow> user_plane \<Rightarrow> user_plane" where
  "up_event ev s = s\<lparr>sd_pdcp := pa_event ev (sd_pdcp s)\<rparr>"

text \<open>A UE of the table, created when it is not there; its bearers.\<close>

definition pa_get_ue :: "u64 \<Rightarrow> pdcp_api \<Rightarrow> nat \<times> pdcp_api" where
  "pa_get_ue ueid p = (case nr_pdcp_manager_get_ue (pa_manager p) ueid of (k, m) \<Rightarrow> (k, p\<lparr>pa_manager := m\<rparr>))"

definition pa_ue :: "nat \<Rightarrow> pdcp_api \<Rightarrow> nr_pdcp_ue" where
  "pa_ue k p = pm_ue_list (pa_manager p) ! k"

definition pa_put_ue :: "nat \<Rightarrow> nr_pdcp_ue \<Rightarrow> pdcp_api \<Rightarrow> pdcp_api" where
  "pa_put_ue k ue p = p\<lparr>pa_manager := (pa_manager p)\<lparr>pm_ue_list := (pm_ue_list (pa_manager p))[k := ue]\<rparr>\<rparr>"

definition nr_pdcp_get_rb :: "nr_pdcp_ue \<Rightarrow> int \<Rightarrow> bool \<Rightarrow> nr_pdcp_entity option" where
  "nr_pdcp_get_rb ue rb_id srb_flag =
     (if srb_flag then (if rb_id < 1 \<or> 2 < rb_id then None else pu_srb ue ! nat (rb_id - 1))
      else (if rb_id < 1 \<or> int MAX_DRBS_PER_UE < rb_id then None else pu_drb ue ! nat (rb_id - 1)))"

definition pu_set_rb :: "int \<Rightarrow> bool \<Rightarrow> nr_pdcp_entity option \<Rightarrow> nr_pdcp_ue \<Rightarrow> nr_pdcp_ue" where
  "pu_set_rb rb_id srb_flag rb ue =
     (if srb_flag then ue\<lparr>pu_srb := (pu_srb ue)[nat (rb_id - 1) := rb]\<rparr>
      else ue\<lparr>pu_drb := (pu_drb ue)[nat (rb_id - 1) := rb]\<rparr>)"

definition pa_put_rb :: "nat \<Rightarrow> int \<Rightarrow> bool \<Rightarrow> nr_pdcp_entity option \<Rightarrow> pdcp_api \<Rightarrow> pdcp_api" where
  "pa_put_rb k rb_id srb_flag rb p = pa_put_ue k (pu_set_rb rb_id srb_flag rb (pa_ue k p)) p"

section \<open>PDUs to RLC and GTP\<close>

definition deliver_pdu_drb_ue :: "u64 \<Rightarrow> int \<Rightarrow> byte list \<Rightarrow> int \<Rightarrow> pdcp_api \<Rightarrow> pdcp_api" where
  "deliver_pdu_drb_ue ueid rb_id buf sdu_id p =
     pa_event (Rlc_Data_Req \<lparr>ri_ctxt = ctxt_of False ueid, ri_srb_flag = False, ri_rb_id = rb_id, ri_mui = sdu_id,
                             ri_confirm = 0, ri_sdu = buf\<rparr>) p"

definition deliver_pdu_drb_gnb :: "pdcp_env \<Rightarrow> u64 \<Rightarrow> int \<Rightarrow> byte list \<Rightarrow> int \<Rightarrow> pdcp_api \<Rightarrow> pdcp_api res" where
  "deliver_pdu_drb_gnb env ueid rb_id buf sdu_id p =
     (case pe_f1_secondary_ue env ueid of
        None \<Rightarrow> Inl Assert_failed
      | Some secondary_ue \<Rightarrow>
          Inr (if pe_node_is_cu env then pa_event (Cu_Gtpu_Send (pe_CUuniqInstance env) ueid rb_id buf) p
               else pa_event (Rlc_Data_Req \<lparr>ri_ctxt = ctxt_of True secondary_ue, ri_srb_flag = False, ri_rb_id = rb_id,
                                            ri_mui = sdu_id, ri_confirm = 0, ri_sdu = buf\<rparr>) p))"

definition deliver_pdu_srb_rlc :: "u64 \<Rightarrow> int \<Rightarrow> byte list \<Rightarrow> int \<Rightarrow> pdcp_api \<Rightarrow> pdcp_api" where
  "deliver_pdu_srb_rlc ueid srb_id buf sdu_id p =
     pa_event (Rlc_Data_Req \<lparr>ri_ctxt = ctxt_of True ueid, ri_srb_flag = True, ri_rb_id = srb_id, ri_mui = sdu_id,
                             ri_confirm = 0, ri_sdu = buf\<rparr>) p"

text \<open>
  The function pointer \<open>deliver_pdu\<close> of an entity: null for an SRB, else by the side it was made for
  (\<open>add_srb\<close>, \<open>add_drb\<close>).
\<close>

definition pd_deliver_pdu :: "pdcp_env \<Rightarrow> nr_pdcp_entity \<Rightarrow> u64 \<Rightarrow> int \<Rightarrow> byte list \<Rightarrow> int \<Rightarrow> pdcp_api \<Rightarrow> pdcp_api res" where
  "pd_deliver_pdu env rb ueid rb_id buf sdu_id p =
     (if pd_type rb = NR_PDCP_SRB then Inl Null_deref
      else if pd_is_gnb rb then deliver_pdu_drb_gnb env ueid rb_id buf sdu_id p
      else Inr (deliver_pdu_drb_ue ueid rb_id buf sdu_id p))"

definition nr_pdcp_data_req_drb :: "pdcp_env \<Rightarrow> pdcp_api pdcp_service" where
  "nr_pdcp_data_req_drb env r p =
     (let c = dr_ctxt r; ueid = pc_rntiMaybeUEid c
      in if dr_srb_flag r then Inl Assert_failed
         else if pc_module_id c \<noteq> 0 \<or> pc_instance c \<noteq> 0 \<or> pc_eNB_index c \<noteq> 0 then Inl Exit_fatal
         else
           case pa_get_ue ueid p of (k, p1) \<Rightarrow>
             (case nr_pdcp_get_rb (pa_ue k p1) (dr_rb_id r) False of
                None \<Rightarrow> Inr (False, p1)
              | Some rb \<Rightarrow>
                  rbind (nr_pdcp_entity_process_sdu (pe_crypto env) rb (dr_sdu r)
                           (nr_max_pdcp_pdu_size (int (length (dr_sdu r))))) (\<lambda>(pdu, rb').
                    let p2 = pa_put_rb k (dr_rb_id r) False (Some rb') p1
                    in case pdu of
                         None \<Rightarrow> Inr (False, p2)
                       | Some pdu_buf \<Rightarrow>
                           rbind (pd_deliver_pdu env rb' ueid (dr_rb_id r) pdu_buf (dr_mui r) p2)
                             (\<lambda>p3. Inr (True, p3)))))"

text \<open>For an SRB the caller brings the function \<open>deliver_pdu_cb\<close>: the event \<open>Srb_Pdu\<close> is its call.\<close>

definition nr_pdcp_data_req_srb :: "pdcp_env \<Rightarrow> u64 \<Rightarrow> int \<Rightarrow> int \<Rightarrow> byte list \<Rightarrow> pdcp_api \<Rightarrow> (bool \<times> pdcp_api) res" where
  "nr_pdcp_data_req_srb env ueid rb_id mui sdu p =
     (case pa_get_ue ueid p of (k, p1) \<Rightarrow>
        (case nr_pdcp_get_rb (pa_ue k p1) rb_id True of
           None \<Rightarrow> Inr (False, p1)
         | Some rb \<Rightarrow>
             rbind (nr_pdcp_entity_process_sdu (pe_crypto env) rb sdu (nr_max_pdcp_pdu_size (int (length sdu))))
               (\<lambda>(pdu, rb').
                 let p2 = pa_put_rb k rb_id True (Some rb') p1
                 in case pdu of
                      None \<Rightarrow> Inr (False, p2)
                    | Some pdu_buf \<Rightarrow> rbind (rcheck (pd_type rb' = NR_PDCP_SRB) Assert_failed) (\<lambda>_.
                        Inr (True, pa_event (Srb_Pdu ueid rb_id pdu_buf mui) p2)))))"

section \<open>SDUs to SDAP and RRC\<close>

text \<open>
  The callbacks. The loops that look the entity up among the bearers of the UE find the one it is
  called for, \<open>rb_id\<close>, as a bearer is in one place of the arrays only.
\<close>

definition deliver_sdu_drb :: "pdcp_env \<Rightarrow> u64 \<Rightarrow> int \<Rightarrow> nr_pdcp_entity \<Rightarrow> byte list \<Rightarrow> user_plane \<Rightarrow> user_plane res" where
  "deliver_sdu_drb env ueid rb_id entity buf s =
     (if pe_use_tun env
      then sdap_data_ind (nr_pdcp_data_req_drb env) (pd_rb_id entity) False (pd_has_sdap_rx entity)
             (pd_pdusession_id entity) ueid buf s
      else sdap_data_ind (nr_pdcp_data_req_drb env) rb_id (pd_is_gnb entity) (pd_has_sdap_rx entity)
             (pd_pdusession_id entity) ueid buf s)"

definition deliver_sdu_srb ::
  "pdcp_env \<Rightarrow> u64 \<Rightarrow> int \<Rightarrow> nr_pdcp_entity \<Rightarrow> byte list \<Rightarrow> nr_pdcp_integrity_data \<Rightarrow> user_plane \<Rightarrow> user_plane res" where
  "deliver_sdu_srb env ueid srb_id entity buf msg_integrity s =
     (if pd_is_gnb entity then
        (case pe_f1_secondary_ue env ueid of
           None \<Rightarrow> Inl Assert_failed
         | Some secondary_ue \<Rightarrow> Inr (up_event (F1ap_Ul_Rrc_Message ueid secondary_ue srb_id buf) s))
      else Inr (up_event (Nr_Rrc_Dcch_Data_Ind ueid srb_id buf msg_integrity) s))"

fun pd_callbacks :: "pdcp_env \<Rightarrow> u64 \<Rightarrow> int \<Rightarrow> nr_pdcp_entity \<Rightarrow> nr_pdcp_sdu list \<Rightarrow> user_plane \<Rightarrow> user_plane res" where
  "pd_callbacks env ueid rb_id entity [] s = Inr s"
| "pd_callbacks env ueid rb_id entity (x # xs) s =
     rbind (if pd_type entity = NR_PDCP_SRB
            then deliver_sdu_srb env ueid rb_id entity (ps_buffer x) (ps_msg_integrity x) s
            else deliver_sdu_drb env ueid rb_id entity (ps_buffer x) s)
       (pd_callbacks env ueid rb_id entity xs)"

text \<open>An operation \<open>f\<close> on the entity of a bearer, with the callbacks it makes.\<close>

definition up_on_rb ::
  "pdcp_env \<Rightarrow> nat \<Rightarrow> int \<Rightarrow> bool \<Rightarrow> nr_pdcp_entity \<Rightarrow> (nr_pdcp_entity \<Rightarrow> nr_pdcp_entity res) \<Rightarrow> user_plane \<Rightarrow> user_plane res"
where
  "up_on_rb env k rb_id srb_flag rb f s =
     rbind (f rb) (\<lambda>rb'.
       pd_callbacks env (pu_id (pa_ue k (sd_pdcp s))) rb_id rb' (drop (length (pd_delivered rb)) (pd_delivered rb'))
         (s\<lparr>sd_pdcp := pa_put_rb k rb_id srb_flag (Some rb') (sd_pdcp s)\<rparr>))"

definition up_with_rb ::
  "pdcp_env \<Rightarrow> u64 \<Rightarrow> int \<Rightarrow> bool \<Rightarrow> (nr_pdcp_entity \<Rightarrow> nr_pdcp_entity res) \<Rightarrow> user_plane \<Rightarrow> user_plane res" where
  "up_with_rb env ueid rb_id srb_flag f s =
     (case pa_get_ue ueid (sd_pdcp s) of (k, p) \<Rightarrow>
        let s1 = s\<lparr>sd_pdcp := p\<rparr>
        in case nr_pdcp_get_rb (pa_ue k p) rb_id srb_flag of
             None \<Rightarrow> Inr s1
           | Some rb \<Rightarrow> up_on_rb env k rb_id srb_flag rb f s1)"

text \<open>What \<open>pdcp_data_ind_thread\<close> does with an item.\<close>

definition do_pdcp_data_ind :: "pdcp_env \<Rightarrow> pdcp_data_ind_queue_item \<Rightarrow> user_plane \<Rightarrow> user_plane res" where
  "do_pdcp_data_ind env item s =
     (let c = pi_ctxt item
      in if pc_module_id c \<noteq> 0 \<or> pc_instance c \<noteq> 0 \<or> pc_eNB_index c \<noteq> 0 \<or> pc_brOption c then Inl Exit_fatal
         else up_with_rb env (pc_rntiMaybeUEid c) (pi_rb_id item) (pi_srb_flag item)
                (\<lambda>rb. nr_pdcp_entity_recv_pdu (pe_crypto env) rb (pi_sdu item)) s)"

definition cu_f1u_data_req ::
  "protocol_ctxt \<Rightarrow> bool \<Rightarrow> int \<Rightarrow> byte list \<Rightarrow> pdcp_data_ind_queue_item ring \<Rightarrow> pdcp_data_ind_queue_item ring option" where
  "cu_f1u_data_req ctxt srb_flag rb_id sdu q = enqueue_pdcp_data_ind (ctxt\<lparr>pc_instance := 0\<rparr>) srb_flag rb_id sdu q"

section \<open>Bearers\<close>

definition add_srb :: "bool \<Rightarrow> u64 \<Rightarrow> nr_srb_to_add_mod \<Rightarrow> security_params \<Rightarrow> user_plane \<Rightarrow> user_plane res" where
  "add_srb is_gnb ueid a security_parameters s =
     rbind (case sa_pdcp_Config a of
              Some c \<Rightarrow> (case xc_t_Reordering c of Some v \<Rightarrow> decode_t_reordering v | None \<Rightarrow> Inr (-1))
            | None \<Rightarrow> Inr (-1)) (\<lambda>t_reordering.
     case pa_get_ue ueid (sd_pdcp s) of (k, p) \<Rightarrow>
       if nr_pdcp_get_rb (pa_ue k p) (sa_srb_Identity a) True \<noteq> None then Inr (s\<lparr>sd_pdcp := p\<rparr>)
       else
         rbind (new_nr_pdcp_entity NR_PDCP_SRB is_gnb (sa_srb_Identity a) 0 False False SHORT_SN_SIZE t_reordering
                  (-1) security_parameters) (\<lambda>srb.
         rbind (nr_pdcp_ue_add_srb_pdcp_entity (pa_ue k p) (sa_srb_Identity a) srb) (\<lambda>ue.
         Inr (s\<lparr>sd_pdcp := pa_put_ue k ue p\<rparr>))))"

text \<open>
  The SDAP side of the configuration of a DRB: session, receiving and transmitting header, default
  bearer, and the flows with their number.
\<close>

definition drb_sdap_config :: "bool \<Rightarrow> cn_association \<Rightarrow> (int \<times> bool \<times> bool \<times> bool \<times> int list \<times> nat) res" where
  "drb_sdap_config is_gnb cn =
     (case cn of
        Cn_Missing \<Rightarrow> Inl Exit_fatal
      | Cn_Nothing \<Rightarrow> Inl Exit_fatal
      | Cn_Eps b \<Rightarrow> Inr (b, False, False, False, [], 0)
      | Cn_Sdap None \<Rightarrow> Inl Exit_fatal
      | Cn_Sdap (Some c) \<Rightarrow>
          rbind (asn1_array0 (sc_mappedQoS_FlowsToAdd c)) (\<lambda>qfis.
            Inr (sc_pdu_Session c, is_sdap_rx is_gnb c, is_sdap_tx is_gnb c, sc_defaultDRB c, qfis,
                 unat (of_nat (length (the (sc_mappedQoS_FlowsToAdd c))) :: byte))))"

definition drb_pdcp_config :: "nr_pdcp_config \<Rightarrow> nr_pdcp_config_drb \<Rightarrow> (nat \<times> nat \<times> int \<times> int) res" where
  "drb_pdcp_config c d =
     rbind (rbind (c_deref (xd_pdcp_SN_SizeUL d)) decode_sn_size_ul) (\<lambda>ul.
     rbind (rbind (c_deref (xd_pdcp_SN_SizeDL d)) decode_sn_size_dl) (\<lambda>dl.
     rbind (rbind (c_deref (xd_discardTimer d)) decode_discard_timer) (\<lambda>discard.
     rbind (case xc_t_Reordering c of Some v \<Rightarrow> decode_t_reordering v | None \<Rightarrow> Inr (-1)) (\<lambda>t_reordering.
     Inr (ul, dl, discard, t_reordering)))))"

definition drb_security :: "nr_pdcp_config \<Rightarrow> nr_pdcp_config_drb \<Rightarrow> security_params \<Rightarrow> security_params" where
  "drb_security c d sp =
     sp\<lparr>sp_ciphering_algorithm := if xc_cipheringDisabled c then 0 else sp_ciphering_algorithm sp,
        sp_integrity_algorithm := if xd_integrityProtection d then sp_integrity_algorithm sp else 0\<rparr>"

definition add_drb :: "pdcp_env \<Rightarrow> bool \<Rightarrow> u64 \<Rightarrow> nr_drb_to_add_mod \<Rightarrow> security_params \<Rightarrow> user_plane \<Rightarrow> user_plane res" where
  "add_drb env is_gnb ueid a security_parameters s =
     (case (da_pdcp_Config a, map_option xc_drb (da_pdcp_Config a)) of
        (Some c, Some (Some d)) \<Rightarrow>
          rbind (drb_pdcp_config c d) (\<lambda>(sn_size_ul, sn_size_dl, discard_timer, t_reordering).
          rbind (drb_sdap_config is_gnb (da_cnAssociation a)) (\<lambda>(ps, rx, tx, default_drb, qfis, n).
          rbind (rcheck (sn_size_ul = sn_size_dl) Exit_fatal) (\<lambda>_.
          let sp = drb_security c d security_parameters
          in case pa_get_ue ueid (sd_pdcp s) of (k, p) \<Rightarrow>
               if nr_pdcp_get_rb (pa_ue k p) (da_drb_Identity a) False \<noteq> None then Inr (s\<lparr>sd_pdcp := p\<rparr>)
               else
                 rbind (new_nr_pdcp_entity NR_PDCP_DRB_AM is_gnb (da_drb_Identity a) ps rx tx sn_size_dl t_reordering
                          discard_timer sp) (\<lambda>drb.
                 rbind (nr_pdcp_ue_add_drb_pdcp_entity (pa_ue k p) (da_drb_Identity a) drb) (\<lambda>ue.
                 new_nr_sdap_entity (nr_pdcp_data_req_drb env) (pe_tun_alloc env) is_gnb rx tx ueid ps default_drb
                   (word_of_int (da_drb_Identity a)) qfis n (s\<lparr>sd_pdcp := pa_put_ue k ue p\<rparr>))))))
      | _ \<Rightarrow> Inr s)"

fun nr_pdcp_add_srbs :: "bool \<Rightarrow> u64 \<Rightarrow> nr_srb_to_add_mod list \<Rightarrow> security_params \<Rightarrow> user_plane \<Rightarrow> user_plane res" where
  "nr_pdcp_add_srbs enb_flag ueid [] sp s = Inr s"
| "nr_pdcp_add_srbs enb_flag ueid (a # l) sp s = rbind (add_srb enb_flag ueid a sp s) (nr_pdcp_add_srbs enb_flag ueid l sp)"

fun nr_pdcp_add_drbs :: "pdcp_env \<Rightarrow> bool \<Rightarrow> u64 \<Rightarrow> nr_drb_to_add_mod list \<Rightarrow> security_params \<Rightarrow> user_plane \<Rightarrow> user_plane res"
where
  "nr_pdcp_add_drbs env enb_flag ueid [] sp s = Inr s"
| "nr_pdcp_add_drbs env enb_flag ueid (a # l) sp s =
     rbind (add_drb env enb_flag ueid a sp s) (nr_pdcp_add_drbs env enb_flag ueid l sp)"

definition nr_pdcp_remove_UE :: "u64 \<Rightarrow> user_plane \<Rightarrow> user_plane" where
  "nr_pdcp_remove_UE ueid s =
     s\<lparr>sd_pdcp := (sd_pdcp s)\<lparr>pa_manager := snd (nr_pdcp_manager_remove_ue (pa_manager (sd_pdcp s)) ueid)\<rparr>\<rparr>"

definition nr_pdcp_config_set_security ::
  "pdcp_env \<Rightarrow> u64 \<Rightarrow> int \<Rightarrow> bool \<Rightarrow> security_params \<Rightarrow> user_plane \<Rightarrow> user_plane res" where
  "nr_pdcp_config_set_security env ueid rb_id is_srb parameters s =
     up_with_rb env ueid rb_id is_srb (\<lambda>rb. nr_pdcp_entity_set_security rb parameters) s"

definition nr_pdcp_check_integrity_srb ::
  "pdcp_env \<Rightarrow> u64 \<Rightarrow> int \<Rightarrow> byte list \<Rightarrow> nr_pdcp_integrity_data \<Rightarrow> pdcp_api \<Rightarrow> (bool \<times> pdcp_api) res" where
  "nr_pdcp_check_integrity_srb env ueid srb_id msg msg_integrity p =
     (case pa_get_ue ueid p of (k, p1) \<Rightarrow>
        (case nr_pdcp_get_rb (pa_ue k p1) srb_id True of
           None \<Rightarrow> Inr (False, p1)
         | Some rb \<Rightarrow> rbind (nr_pdcp_entity_check_integrity (pe_crypto env) rb msg msg_integrity) (\<lambda>b. Inr (b, p1))))"

definition nr_pdcp_suspend_srb :: "pdcp_env \<Rightarrow> u64 \<Rightarrow> int \<Rightarrow> user_plane \<Rightarrow> user_plane res" where
  "nr_pdcp_suspend_srb env ueid srb_id s = up_with_rb env ueid srb_id True (\<lambda>rb. Inr (nr_pdcp_entity_suspend rb)) s"

definition nr_pdcp_suspend_drb :: "pdcp_env \<Rightarrow> u64 \<Rightarrow> int \<Rightarrow> user_plane \<Rightarrow> user_plane res" where
  "nr_pdcp_suspend_drb env ueid drb_id s = up_with_rb env ueid drb_id False (\<lambda>rb. Inr (nr_pdcp_entity_suspend rb)) s"

definition nr_pdcp_reconfigure_srb :: "pdcp_env \<Rightarrow> u64 \<Rightarrow> int \<Rightarrow> int \<Rightarrow> user_plane \<Rightarrow> user_plane res" where
  "nr_pdcp_reconfigure_srb env ueid srb_id t_Reordering s =
     up_with_rb env ueid srb_id True
       (\<lambda>rb. rbind (decode_t_reordering t_Reordering) (\<lambda>t. Inr (rb\<lparr>pd_t_reordering := t\<rparr>))) s"

text \<open>The sequence number size changes, the modulus and the window that go with it do not.\<close>

definition pd_reconfigure :: "nr_pdcp_config option \<Rightarrow> nr_pdcp_entity \<Rightarrow> nr_pdcp_entity res" where
  "pd_reconfigure pdcp_config drb =
     (case pdcp_config of
        None \<Rightarrow> Inr drb
      | Some c \<Rightarrow>
          rbind (case xc_t_Reordering c of Some v \<Rightarrow> decode_t_reordering v | None \<Rightarrow> Inr (-1)) (\<lambda>t.
          let drb1 = drb\<lparr>pd_t_reordering := t\<rparr>
          in case xc_drb c of
               None \<Rightarrow> Inr drb1
             | Some d \<Rightarrow>
                 rbind (case xd_discardTimer d of
                          None \<Rightarrow> Inr drb1
                        | Some v \<Rightarrow> rbind (decode_discard_timer v) (\<lambda>x. Inr (drb1\<lparr>pd_discard_timer := x\<rparr>))) (\<lambda>drb2.
                 rbind (case xd_pdcp_SN_SizeUL d of
                          None \<Rightarrow> Inr drb2
                        | Some v \<Rightarrow> rbind (decode_sn_size_ul v) (\<lambda>x. Inr (drb2\<lparr>pd_sn_size := x\<rparr>))) (\<lambda>drb3.
                 case xd_pdcp_SN_SizeDL d of
                   None \<Rightarrow> Inr drb3
                 | Some v \<Rightarrow>
                     rbind (decode_sn_size_dl v) (\<lambda>x.
                     rbind (rcheck (xd_pdcp_SN_SizeUL d = None \<or> x = pd_sn_size drb3) Assert_failed) (\<lambda>_.
                     Inr (drb3\<lparr>pd_sn_size := x\<rparr>)))))))"

definition nr_pdcp_reconfigure_drb :: "pdcp_env \<Rightarrow> u64 \<Rightarrow> int \<Rightarrow> nr_pdcp_config option \<Rightarrow> user_plane \<Rightarrow> user_plane res" where
  "nr_pdcp_reconfigure_drb env ueid drb_id pdcp_config s =
     up_with_rb env ueid drb_id False (pd_reconfigure pdcp_config) s"

text \<open>Releasing indexes the arrays without the checks of \<open>nr_pdcp_get_rb\<close>.\<close>

definition nr_pdcp_release_srb :: "u64 \<Rightarrow> int \<Rightarrow> user_plane \<Rightarrow> user_plane res" where
  "nr_pdcp_release_srb ueid srb_id s =
     (case pa_get_ue ueid (sd_pdcp s) of (k, p) \<Rightarrow>
        if srb_id < 1 \<or> int (length (pu_srb (pa_ue k p))) < srb_id then Inl Out_of_bounds
        else Inr (s\<lparr>sd_pdcp := pa_put_rb k srb_id True None p\<rparr>))"

definition nr_pdcp_release_drb :: "pdcp_env \<Rightarrow> u64 \<Rightarrow> int \<Rightarrow> user_plane \<Rightarrow> user_plane res" where
  "nr_pdcp_release_drb env ueid drb_id s =
     (case pa_get_ue ueid (sd_pdcp s) of (k, p) \<Rightarrow>
        if drb_id < 1 \<or> int (length (pu_drb (pa_ue k p))) < drb_id then Inl Out_of_bounds
        else
          let s1 = s\<lparr>sd_pdcp := p\<rparr>
          in case pu_drb (pa_ue k p) ! nat (drb_id - 1) of
               None \<Rightarrow> Inr s1
             | Some drb \<Rightarrow>
                 rbind (up_on_rb env k drb_id False drb (\<lambda>rb. Inr (nr_pdcp_entity_release rb))
                          (nr_sdap_release_drb ueid drb_id (pd_pdusession_id drb) s1)) (\<lambda>s2.
                 Inr (s2\<lparr>sd_pdcp := pa_put_rb k drb_id False None (sd_pdcp s2)\<rparr>)))"

definition nr_pdcp_reestablishment ::
  "pdcp_env \<Rightarrow> u64 \<Rightarrow> int \<Rightarrow> bool \<Rightarrow> security_params \<Rightarrow> user_plane \<Rightarrow> user_plane res" where
  "nr_pdcp_reestablishment env ueid rb_id srb_flag sp s =
     up_with_rb env ueid rb_id srb_flag (\<lambda>rb. nr_pdcp_entity_reestablish rb sp) s"

definition nr_pdcp_get_statistics ::
  "u64 \<Rightarrow> bool \<Rightarrow> int \<Rightarrow> pdcp_api \<Rightarrow> nr_pdcp_statistics option \<times> pdcp_api" where
  "nr_pdcp_get_statistics ueid srb_flag rb_id p =
     (case pa_get_ue ueid p of (k, p1) \<Rightarrow>
        (map_option nr_pdcp_entity_get_stats (nr_pdcp_get_rb (pa_ue k p1) rb_id srb_flag), p1))"

definition nr_pdcp_get_num_ues :: "int \<Rightarrow> pdcp_api \<Rightarrow> int \<times> u64 list" where
  "nr_pdcp_get_num_ues len p =
     (nr_pdcp_manager_get_ue_count (pa_manager p),
      map pu_id (take (nat len) (nr_pdcp_manager_get_ue_list (pa_manager p))))"

section \<open>The timer thread\<close>

text \<open>
  One turn of \<open>nr_pdcp_timer_thread\<close>: all UEs, of each the first two signalling and the first five data
  bearers.
\<close>

definition timer_bearers :: "(int \<times> bool) list" where
  "timer_bearers = [(1, True), (2, True), (1, False), (2, False), (3, False), (4, False), (5, False)]"

definition pdcp_tick_rb :: "pdcp_env \<Rightarrow> u64 \<Rightarrow> nat \<Rightarrow> int \<times> bool \<Rightarrow> user_plane \<Rightarrow> user_plane res" where
  "pdcp_tick_rb env curtime k b s =
     (case nr_pdcp_get_rb (pa_ue k (sd_pdcp s)) (fst b) (snd b) of
        None \<Rightarrow> Inr s
      | Some rb \<Rightarrow> up_on_rb env k (fst b) (snd b) rb (\<lambda>rb. Inr (nr_pdcp_entity_set_time rb curtime)) s)"

fun pdcp_tick_loop :: "pdcp_env \<Rightarrow> u64 \<Rightarrow> (nat \<times> int \<times> bool) list \<Rightarrow> user_plane \<Rightarrow> user_plane res" where
  "pdcp_tick_loop env curtime [] s = Inr s"
| "pdcp_tick_loop env curtime ((k, b) # l) s = rbind (pdcp_tick_rb env curtime k b s) (pdcp_tick_loop env curtime l)"

definition nr_pdcp_timer_tick :: "pdcp_env \<Rightarrow> u64 \<Rightarrow> user_plane \<Rightarrow> user_plane res" where
  "nr_pdcp_timer_tick env curtime s =
     pdcp_tick_loop env curtime
       (concat (map (\<lambda>k. map (Pair k) timer_bearers) [0..<length (pm_ue_list (pa_manager (sd_pdcp s)))])) s"

end
