(* ===== verification/Sdap_Rules.thy ===== *)
theory Sdap_Rules
  imports Sdap_Manager
begin

text \<open>
  What SDAP promises: a header that can be read back, mapping rules that keep their shape, and a
  list of entities that is a map from UE and PDU session to entities.
\<close>

section \<open>Headers\<close>

lemma sdap_hdr_byte_bit:
  "bit (sdap_hdr_byte q b6 b7) k \<longleftrightarrow> k < 8 \<and> (k < 6 \<and> bit q k \<or> k = 6 \<and> b6 \<or> k = 7 \<and> b7)"
proof -
  have "bit (0x40 :: byte) k \<longleftrightarrow> k = 6" "bit (0x80 :: byte) k \<longleftrightarrow> k = 7"
    using bit_exp_iff[of 6 k, where 'a = byte] bit_exp_iff[of 7 k, where 'a = byte]
    by (auto simp: possible_bit_word)
  then show ?thesis
    using bit_imp_le_length[of q k]
    by (auto simp: sdap_hdr_byte_def bit_or_iff bit_ucast_iff possible_bit_word)
qed

lemma sdap_hdr_byte_inverse [simp]:
  "(ucast (sdap_hdr_byte q b6 b7) :: 6 word) = q"
  "bit (sdap_hdr_byte q b6 b7) 6 = b6" "bit (sdap_hdr_byte q b6 b7) 7 = b7"
proof -
  show "(ucast (sdap_hdr_byte q b6 b7) :: 6 word) = q"
    by (rule bit_word_eqI) (simp add: bit_ucast_iff sdap_hdr_byte_bit possible_bit_word)
qed (simp_all add: sdap_hdr_byte_bit)

lemma dl_hdr_inverse [simp]: "dl_hdr_of (dl_hdr_byte h) = h"
  by (simp add: dl_hdr_of_def dl_hdr_byte_def)

lemma ul_hdr_inverse [simp]: "ul_hdr_of (ul_hdr_byte h) = h"
  by (simp add: ul_hdr_of_def ul_hdr_byte_def)

lemma qfi_in_hdr:
  assumes "unat qfi < SDAP_MAX_QFI"
  shows "(ucast (ucast qfi :: 6 word) :: byte) = qfi"
proof -
  have "unat qfi mod 64 = unat qfi" using assms by (simp add: SDAP_MAX_QFI_def)
  then show ?thesis
    by (intro word_unat_eq_iff[THEN iffD2]) (simp add: unsigned_ucast_eq take_bit_eq_mod unat_mod)
qed

section \<open>Mapping rules\<close>

text \<open>An entity as the operations leave it: 64 rules, each for one of the bearers or none.\<close>

definition sdap_entity_ok :: "nr_sdap_entity \<Rightarrow> bool" where
  "sdap_entity_ok e \<longleftrightarrow> length (se_qfi2drb_table e) = SDAP_MAX_QFI"

definition sdap_rule :: "nr_sdap_entity \<Rightarrow> byte \<Rightarrow> qfi2drb" where
  "sdap_rule e qfi = se_qfi2drb_table e ! unat qfi"

text \<open>The bearer of a flow: that of its rule, or else the default one.\<close>

definition sdap_bearer :: "nr_sdap_entity \<Rightarrow> byte \<Rightarrow> int" where
  "sdap_bearer e qfi =
     (if qd_drb_id (sdap_rule e qfi) \<noteq> 0 then qd_drb_id (sdap_rule e qfi) else se_default_drb e)"

definition sdap_mapped :: "nr_sdap_entity \<Rightarrow> byte \<Rightarrow> nr_sdap_entity" where
  "sdap_mapped e qfi =
     (if qd_drb_id (sdap_rule e qfi) \<noteq> 0 \<or> se_default_drb e = 0 then e
      else nr_sdap_qfi2drb_map_update e qfi (se_default_drb e) (qd_has_sdap_rx (sdap_rule e qfi))
             (qd_has_sdap_tx (sdap_rule e qfi)))"

lemma sdap_map_eq:
  "unat qfi < SDAP_MAX_QFI \<Longrightarrow> nr_sdap_qfi2drb_map e qfi = Inr (sdap_bearer e qfi, sdap_mapped e qfi)"
  by (simp add: nr_sdap_qfi2drb_map_def qfi_get_def sdap_bearer_def sdap_mapped_def sdap_rule_def)

lemma map_update_fields [simp]:
  "se_ue_id (nr_sdap_qfi2drb_map_update e q d r t) = se_ue_id e"
  "se_pdusession_id (nr_sdap_qfi2drb_map_update e q d r t) = se_pdusession_id e"
  "se_pdusession_sock (nr_sdap_qfi2drb_map_update e q d r t) = se_pdusession_sock e"
  "se_default_drb (nr_sdap_qfi2drb_map_update e q d r t) = se_default_drb e"
  "se_is_gnb (nr_sdap_qfi2drb_map_update e q d r t) = se_is_gnb e"
  "sdap_entity_ok (nr_sdap_qfi2drb_map_update e q d r t) = sdap_entity_ok e"
  by (simp_all add: nr_sdap_qfi2drb_map_update_def sdap_entity_ok_def)

lemma set_drb_id_fields [simp]:
  "se_ue_id (set_drb_id k d e) = se_ue_id e" "se_pdusession_id (set_drb_id k d e) = se_pdusession_id e"
  "se_pdusession_sock (set_drb_id k d e) = se_pdusession_sock e" "se_default_drb (set_drb_id k d e) = se_default_drb e"
  "se_is_gnb (set_drb_id k d e) = se_is_gnb e" "sdap_entity_ok (set_drb_id k d e) = sdap_entity_ok e"
  by (simp_all add: set_drb_id_def sdap_entity_ok_def)

lemma sdap_mapped_fields [simp]:
  "se_ue_id (sdap_mapped e q) = se_ue_id e" "se_pdusession_id (sdap_mapped e q) = se_pdusession_id e"
  "se_pdusession_sock (sdap_mapped e q) = se_pdusession_sock e" "se_default_drb (sdap_mapped e q) = se_default_drb e"
  "se_is_gnb (sdap_mapped e q) = se_is_gnb e" "sdap_entity_ok (sdap_mapped e q) = sdap_entity_ok e"
  by (simp_all add: sdap_mapped_def)

lemma sdap_rule_update:
  assumes "sdap_entity_ok e" "unat qfi < SDAP_MAX_QFI"
  shows "sdap_rule (nr_sdap_qfi2drb_map_update e qfi drb rx tx) q
     = (if q = qfi \<and> 0 < uint qfi \<and> 0 < drb \<and> drb \<le> AVLBL_DRB
        then \<lparr>qd_drb_id = drb, qd_has_sdap_rx = rx, qd_has_sdap_tx = tx\<rparr> else sdap_rule e q)"
  using assms by (auto simp: sdap_rule_def nr_sdap_qfi2drb_map_update_def sdap_entity_ok_def nth_list_update word_unat_eq_iff)

lemma sdap_rule_set:
  assumes "sdap_entity_ok e" "unat qfi < SDAP_MAX_QFI"
  shows "sdap_rule (set_drb_id (unat qfi) drb e) q
     = (if q = qfi then (sdap_rule e q)\<lparr>qd_drb_id := drb\<rparr> else sdap_rule e q)"
  using assms by (auto simp: sdap_rule_def set_drb_id_def sdap_entity_ok_def nth_list_update word_unat_eq_iff)

lemma sdap_mapped_tx:
  "sdap_entity_ok e \<Longrightarrow> unat qfi < SDAP_MAX_QFI \<Longrightarrow>
   qd_has_sdap_tx (sdap_rule (sdap_mapped e qfi) qfi) = qd_has_sdap_tx (sdap_rule e qfi)"
  by (auto simp: sdap_mapped_def sdap_rule_update)

section \<open>Transmission and reception\<close>

text \<open>
  The header of a flow, which its rule asks for or not, and the PDU with it. A flow without a
  bearer goes out as it is on the bearer the caller named.
\<close>

definition sdap_has_header :: "nr_sdap_entity \<Rightarrow> byte \<Rightarrow> bool" where
  "sdap_has_header e qfi \<longleftrightarrow> sdap_bearer e qfi \<noteq> 0 \<and> qd_has_sdap_tx (sdap_rule e qfi)"

definition sdap_pdu :: "nr_sdap_entity \<Rightarrow> bool \<Rightarrow> byte \<Rightarrow> bool \<Rightarrow> byte list \<Rightarrow> byte list" where
  "sdap_pdu e gnb qfi b sdu =
     (if sdap_has_header e qfi
      then (if gnb then sdap_hdr_byte (ucast qfi) b False else sdap_hdr_byte (ucast qfi) False b) # sdu else sdu)"

lemma sdap_tx_eq:
  assumes "sdap_entity_ok e" "unat qfi < SDAP_MAX_QFI" "sdu \<noteq> []" "length sdu \<le> 8999"
  shows "nr_sdap_tx_entity pdcp e ctxt srb_flag rb_id mui confirm (Some sdu) mode src dst qfi rqi p
    = rbind (pdcp \<lparr>dr_ctxt = ctxt, dr_srb_flag = srb_flag,
                   dr_rb_id = (if sdap_bearer e qfi \<noteq> 0 then sdap_bearer e qfi else rb_id),
                   dr_mui = mui, dr_confirm = confirm, dr_sdu = sdap_pdu e (pc_enb_flag ctxt) qfi rqi sdu,
                   dr_mode = mode, dr_sourceL2Id = src, dr_destinationL2Id = dst\<rparr> p)
        (\<lambda>(ret, p'). Inr (ret, sdap_mapped e qfi, p'))"
  using assms sdap_mapped_tx[OF assms(1,2)]
  by (simp add: nr_sdap_tx_entity_def sdap_map_eq sdap_pdu_def sdap_has_header_def sdap_rule_def Let_def
      dl_hdr_byte_def ul_hdr_byte_def)

lemma sdap_rx_gnb:
  assumes "rx \<longrightarrow> buf \<noteq> []"
  shows "nr_sdap_rx_entity pdcp e drb True rx ps ue buf (Some inst) p
    = Inr (Gtpu_Send inst ue ps (drop (if rx then 1 else 0) buf), e, p)"
  using assms by (cases buf) (auto simp: nr_sdap_rx_entity_def c_read_def Let_def)

lemma sdap_rx_ue:
  assumes "rx \<longrightarrow> buf \<noteq> [] \<and> \<not> bit (hd buf) 7"
  shows "nr_sdap_rx_entity pdcp e drb False rx ps ue buf inst p
    = Inr (Tun_Write (se_pdusession_sock e) (drop (if rx then 1 else 0) buf), e, p)"
  using assms by (cases buf) (auto simp: nr_sdap_rx_entity_def c_read_def Let_def dl_hdr_of_def)

section \<open>The list of entities as a map\<close>

definition sdap_key :: "nr_sdap_entity \<Rightarrow> u64 \<times> int" where
  "sdap_key e = (se_ue_id e, se_pdusession_id e)"

definition sdap_map :: "'p nr_sdap \<Rightarrow> u64 \<times> int \<Rightarrow> nr_sdap_entity option" where
  "sdap_map s = table_of sdap_key (sd_llist s)"

definition sdap_ok :: "'p nr_sdap \<Rightarrow> bool" where
  "sdap_ok s \<longleftrightarrow> distinct (map sdap_key (sd_llist s)) \<and> (\<forall>e \<in> set (sd_llist s). sdap_entity_ok e)"

lemma sdap_is_key: "sdap_is u ps = (\<lambda>e. sdap_key e = (u, ps))"
  by (auto simp: sdap_is_def sdap_key_def fun_eq_iff)

lemma sdap_walk_hit: "\<exists>e \<in> set l. P e \<Longrightarrow> sdap_walk P l = ue_index P l"
  by (induction l) (auto split: if_splits)

lemma sdap_walk_less: "l \<noteq> [] \<Longrightarrow> sdap_walk P l < length l"
  by (induction l) auto

lemma sdap_walk_max_eq: "length l \<le> Suc n \<Longrightarrow> sdap_walk_max n P l = sdap_walk P l"
  by (induction l arbitrary: n) auto

lemma nr_sdap_get_entity_eq:
  "nr_sdap_get_entity l u ps
     = (if (u, ps) \<in> sdap_key ` set l then Some (ue_index (\<lambda>e. sdap_key e = (u, ps)) l) else None)"
proof (cases "(u, ps) \<in> sdap_key ` set l")
  case True
  then have ex: "\<exists>e \<in> set l. sdap_key e = (u, ps)" by force
  then have "l \<noteq> []" by auto
  have "sdap_key (l ! ue_index (\<lambda>e. sdap_key e = (u, ps)) l) = (u, ps)"
    using ue_index_hit[of "\<lambda>e. sdap_key e = (u, ps)" l] ex by (simp add: ue_index_less)
  then show ?thesis
    using True \<open>l \<noteq> []\<close> sdap_walk_hit[OF ex] by (simp add: nr_sdap_get_entity_def sdap_is_key Let_def)
next
  case False
  then have "l \<noteq> [] \<Longrightarrow> sdap_key (l ! sdap_walk (\<lambda>e. sdap_key e = (u, ps)) l) \<noteq> (u, ps)"
    using sdap_walk_less[of l] by (metis image_eqI nth_mem)
  then show ?thesis using False by (simp add: nr_sdap_get_entity_def sdap_is_key Let_def)
qed

lemma sdap_walk_get:
  assumes "l \<noteq> []"
  shows "sdap_is ue ps (l ! sdap_walk (sdap_is ue ps) l) \<longleftrightarrow> (ue, ps) \<in> sdap_key ` set l"
    "(ue, ps) \<in> sdap_key ` set l \<Longrightarrow> sdap_walk (sdap_is ue ps) l = ue_index (\<lambda>e. sdap_key e = (ue, ps)) l"
  using assms nr_sdap_get_entity_eq[of l ue ps]
  by (auto simp: nr_sdap_get_entity_def Let_def split: if_splits)

lemma sdap_get_Some:
  assumes "nr_sdap_get_entity (sd_llist s) u ps = Some k"
  shows "k < length (sd_llist s)" "sdap_key (sd_entity k s) = (u, ps)" "sdap_map s (u, ps) = Some (sd_entity k s)"
proof -
  have m: "(u, ps) \<in> sdap_key ` set (sd_llist s)" "k = ue_index (\<lambda>e. sdap_key e = (u, ps)) (sd_llist s)"
    using assms by (auto simp: nr_sdap_get_entity_eq split: if_splits)
  show k: "k < length (sd_llist s)" using m ue_index_cases(1)[OF m(1)] by simp
  show "sdap_key (sd_entity k s) = (u, ps)"
    using m(2) k ue_index_hit[of "\<lambda>e. sdap_key e = (u, ps)" "sd_llist s"] by (simp add: sd_entity_def)
  show "sdap_map s (u, ps) = Some (sd_entity k s)"
    using table_of_index[OF m(1)] m(2) by (simp add: sdap_map_def sd_entity_def)
qed

lemma sdap_get_None: "nr_sdap_get_entity (sd_llist s) u ps = None \<longleftrightarrow> sdap_map s (u, ps) = None"
  by (simp add: nr_sdap_get_entity_eq sdap_map_def table_of_None)

lemma sdap_put:
  assumes "sdap_ok s" "k < length (sd_llist s)" "sdap_key e = sdap_key (sd_entity k s)" "sdap_entity_ok e"
  shows "sdap_ok (sd_put k e s)" "sdap_map (sd_put k e s) = (sdap_map s)(sdap_key e \<mapsto> e)"
  using table_of_put[of sdap_key "sd_llist s" k e] assms
  by (auto simp: sdap_ok_def sdap_map_def sd_put_def sd_entity_def dest!: set_update_subset_insert[THEN subsetD])

lemma sdap_put_same:
  assumes "sdap_ok s" "k < length (sd_llist s)" "sdap_key e = sdap_key (sd_entity k s)"
    "se_qfi2drb_table e = se_qfi2drb_table (sd_entity k s)"
  shows "sdap_ok (sd_put k e s)"
  by (rule sdap_put(1)[OF assms(1-3)]) (use assms in \<open>simp add: sdap_ok_def sdap_entity_ok_def sd_entity_def\<close>)

text \<open>The operations of an entity keep its key, its socket and the shape of its table.\<close>

definition sdap_kept :: "nr_sdap_entity \<Rightarrow> nr_sdap_entity \<Rightarrow> bool" where
  "sdap_kept e e' \<longleftrightarrow> sdap_key e' = sdap_key e \<and> se_pdusession_sock e' = se_pdusession_sock e
     \<and> se_is_gnb e' = se_is_gnb e \<and> se_default_drb e' = se_default_drb e \<and> (sdap_entity_ok e \<longrightarrow> sdap_entity_ok e')"

lemma sdap_kept_refl [simp]: "sdap_kept e e"
  by (simp add: sdap_kept_def)

lemma sdap_kept_trans: "sdap_kept e e1 \<Longrightarrow> sdap_kept e1 e2 \<Longrightarrow> sdap_kept e e2"
  by (simp add: sdap_kept_def)

lemma sdap_kept_basic [simp]:
  "sdap_kept e (nr_sdap_qfi2drb_map_update e q d r t)" "sdap_kept e (set_drb_id k d e)" "sdap_kept e (sdap_mapped e q)"
  by (simp_all add: sdap_kept_def sdap_key_def)

lemma sdap_map_kept: "nr_sdap_qfi2drb_map e qfi = Inr (d, e') \<Longrightarrow> sdap_kept e e'"
  by (auto simp: nr_sdap_qfi2drb_map_def rbind_eq_Inr split: if_splits)

lemma sdap_end_marker_kept: "sdap_end_marker pdcp e pe ue ty qfi p = Inr (e', p') \<Longrightarrow> sdap_kept e e'"
  by (auto simp: sdap_end_marker_def rbind_eq_Inr nr_sdap_map_ctrl_pdu_def Let_def
      split: if_splits dest: sdap_map_kept)

lemma sdap_if_marker_kept:
  "(if b then sdap_end_marker pdcp e pe ue ty qfi p else Inr (e, p)) = Inr (e', p') \<Longrightarrow> sdap_kept e e'"
  by (auto split: if_splits dest: sdap_end_marker_kept)

lemma sdap_reflective_kept: "sdap_reflective_mapping pdcp e pe ue qfi p = Inr (e', p') \<Longrightarrow> sdap_kept e e'"
  by (auto simp: sdap_reflective_mapping_def rbind_eq_Inr dest!: sdap_if_marker_kept elim!: sdap_kept_trans)

lemma sdap_rx_kept: "nr_sdap_rx_entity pdcp e pe gnb rx ps ue buf inst p = Inr (ev, e', p') \<Longrightarrow> sdap_kept e e'"
  by (auto simp: nr_sdap_rx_entity_def Let_def rbind_eq_Inr split: if_splits option.splits dest: sdap_reflective_kept)

lemma sdap_tx_kept:
  "nr_sdap_tx_entity pdcp e ctxt f b m c sdu mode src dst qfi rqi p = Inr (ret, e', p') \<Longrightarrow> sdap_kept e e'"
  by (auto simp: nr_sdap_tx_entity_def Let_def rbind_eq_Inr split: if_splits option.splits dest!: sdap_map_kept)

lemma sdap_config_step_kept:
  "sdap_qfi_config_step pdcp pe ue drb rx tx qfi (e, p) = Inr (e', p') \<Longrightarrow> sdap_kept e e'"
  unfolding sdap_qfi_config_step_def fst_conv snd_conv
  by (auto simp: rbind_eq_Inr dest!: sdap_if_marker_kept elim!: sdap_kept_trans)

lemma sdap_qfi_loop_kept:
  assumes "\<And>qfi s s'. f qfi s = Inr s' \<Longrightarrow> R s s'" "\<And>s. R s s" "\<And>s s' s''. R s s' \<Longrightarrow> R s' s'' \<Longrightarrow> R s s''"
  shows "sdap_qfi_loop block ks f s = Inr s' \<Longrightarrow> R s s'"
  by (induction ks arbitrary: s) (auto simp: rbind_eq_Inr assms(2) split: if_splits intro: assms(1,3))

lemma sdap_config_kept:
  assumes "nr_sdap_ue_qfi2drb_config pdcp e pe ue qfis n drb rx tx p = Inr (e', p')"
  shows "sdap_kept e e'"
proof -
  have "sdap_kept (fst (e, p)) (fst (e', p'))"
    by (rule sdap_qfi_loop_kept[where R = "\<lambda>s s'. sdap_kept (fst s) (fst s')",
          OF _ _ _ assms[unfolded nr_sdap_ue_qfi2drb_config_def]])
      (auto dest: sdap_config_step_kept sdap_kept_trans)
  then show ?thesis by simp
qed

lemma sdap_init_entity_key:
  assumes "sdap_init_entity gnb rx tx ue ps dflt drb qfis n = Inr e"
  shows "sdap_key e = (ue, ps)" "sdap_entity_ok e" "se_pdusession_sock e = -1"
    "se_default_drb e = (if dflt then uint drb else 0)" "se_is_gnb e = gnb"
proof -
  let ?e = "calloc_nr_sdap_entity\<lparr>se_ue_id := ue, se_pdusession_id := ps, se_is_gnb := gnb, se_pdusession_sock := -1,
              se_default_drb := if dflt then uint drb else 0\<rparr>"
  have "sdap_kept ?e e"
  proof (cases dflt)
    case True
    show ?thesis
      by (rule sdap_qfi_loop_kept[where R = sdap_kept])
        (use assms True in \<open>auto simp: sdap_init_entity_def Let_def intro: sdap_kept_trans\<close>)
  next
    case False
    then show ?thesis using assms by (auto simp: sdap_init_entity_def Let_def calloc_nr_sdap_entity_def)
  qed
  then show "sdap_key e = (ue, ps)" "sdap_entity_ok e" "se_pdusession_sock e = -1"
    "se_default_drb e = (if dflt then uint drb else 0)" "se_is_gnb e = gnb"
    by (simp_all add: sdap_kept_def sdap_key_def sdap_entity_ok_def calloc_nr_sdap_entity_def)
qed

section \<open>Runs of the layer\<close>

text \<open>Every operation of the layer that returns, for a service of the layer below and answers of the system.\<close>

inductive sdap_step :: "'p pdcp_service \<Rightarrow> 'p nr_sdap \<Rightarrow> 'p nr_sdap \<Rightarrow> bool" for pdcp where
  new: "new_nr_sdap_entity pdcp tun gnb rx tx ue ps dflt drb qfis n s = Inr s' \<Longrightarrow> sdap_step pdcp s s'"
| reconfigure: "nr_reconfigure_sdap_entity pdcp c ue ps drb_id s = Inr s' \<Longrightarrow> sdap_step pdcp s s'"
| release_drb: "sdap_step pdcp s (nr_sdap_release_drb ue drb_id ps s)"
| delete: "nr_sdap_delete_entity ue ps s = Inr (ret, s') \<Longrightarrow> sdap_step pdcp s s'"
| delete_ue: "sdap_step pdcp s (snd (nr_sdap_delete_ue_entities ue s))"
| set_qfi: "set_qfi qfi pduid ue s = Inr s' \<Longrightarrow> sdap_step pdcp s s'"
| start_tun: "start_sdap_tun_ue ue ps sock s = Inr s' \<Longrightarrow> sdap_step pdcp s s'"
| data_req: "sdap_data_req pdcp ctxt ue f b m c sdu mode src dst qfi rqi ps s = Inr (ret, s') \<Longrightarrow> sdap_step pdcp s s'"
| data_ind: "sdap_data_ind pdcp pe gnb rx ps ue buf s = Inr s' \<Longrightarrow> sdap_step pdcp s s'"
| tun_read: "k < length (sd_llist s) \<Longrightarrow> sdap_tun_read pdcp k buf s = Inr s' \<Longrightarrow> sdap_step pdcp s s'"

lemma sdap_put_ok:
  assumes "sdap_ok s" "k < length (sd_llist s)" "sdap_kept (sd_entity k s) e"
  shows "sdap_ok (sd_put k e s)"
proof -
  have "sdap_entity_ok (sd_entity k s)" using assms(1,2) by (simp add: sdap_ok_def sd_entity_def)
  then show ?thesis using sdap_put(1)[OF assms(1,2)] assms(3) by (simp add: sdap_kept_def)
qed

lemma sdap_ok_cong: "sd_llist s' = sd_llist s \<Longrightarrow> sdap_ok s' = sdap_ok s"
  by (simp add: sdap_ok_def)

lemma sdap_ok_updates [simp]:
  "sdap_ok (s\<lparr>sd_pdcp := p\<rparr>) = sdap_ok s" "sdap_ok (sd_event ev s) = sdap_ok s"
  "sdap_ok (s\<lparr>sd_events := evs\<rparr>) = sdap_ok s"
  by (simp_all add: sdap_ok_def sd_event_def)

lemma sdap_delete_head_eq:
  "snd (sdap_delete_head ue l) = dropWhile (\<lambda>e. se_ue_id e = ue) l"
  by (induction l) (auto split: prod.splits)

lemma sdap_delete_rest_eq: "snd (sdap_delete_rest ue l) = filter (\<lambda>e. se_ue_id e \<noteq> ue) l"
  by (induction l) (auto split: prod.splits)

lemma sdap_delete_ue_llist:
  "sd_llist (snd (nr_sdap_delete_ue_entities ue s)) = filter (\<lambda>e. se_ue_id e \<noteq> ue) (sd_llist s)"
proof -
  have "filter (\<lambda>e. se_ue_id e \<noteq> ue) (dropWhile (\<lambda>e. se_ue_id e = ue) l) = filter (\<lambda>e. se_ue_id e \<noteq> ue) l"
    for l :: "nr_sdap_entity list"
    by (induction l) auto
  then show ?thesis
    using sdap_delete_rest_eq sdap_delete_head_eq
    by (auto simp: nr_sdap_delete_ue_entities_def split: prod.splits) (metis snd_conv)+
qed

lemma without_sub: "distinct (map key l) \<Longrightarrow> distinct (map key (without k l)) \<and> set (without k l) \<subseteq> set l"
  unfolding without_def map_append take_map[symmetric] drop_map[symmetric]
  by (metis append_take_drop_id distinct_append disjoint_iff in_set_dropD in_set_takeD set_append
      set_take_disj_set_drop_if_distinct distinct_take distinct_drop le_SucI le_refl Un_subset_iff set_drop_subset set_take_subset)

lemma sdap_delete_llist:
  assumes "nr_sdap_delete_entity ue ps s = Inr (ret, s')" "length (sd_llist s) \<le> Suc SDAP_MAX_NUM_OF_ENTITIES"
  shows "ret \<longleftrightarrow> (ue, ps) \<in> sdap_key ` set (sd_llist s)"
    "sd_llist s' = (if ret then without (ue_index (\<lambda>e. sdap_key e = (ue, ps)) (sd_llist s)) (sd_llist s) else sd_llist s)"
proof -
  have "(ret \<longleftrightarrow> (ue, ps) \<in> sdap_key ` set (sd_llist s)) \<and> sd_llist s'
      = (if ret then without (ue_index (\<lambda>e. sdap_key e = (ue, ps)) (sd_llist s)) (sd_llist s) else sd_llist s)"
  proof (cases "sd_llist s")
    case Nil
    then show ?thesis using assms(1) by (auto simp: nr_sdap_delete_entity_def split: if_splits)
  next
    case (Cons e l)
    let ?k = "sdap_walk (sdap_is ue ps) (e # l)"
    note k = sdap_walk_get[of "e # l" ue ps, OF list.distinct(2)]
    have w: "sdap_walk_max SDAP_MAX_NUM_OF_ENTITIES (sdap_is ue ps) (e # l) = ?k"
      by (rule sdap_walk_max_eq) (use assms(2) Cons in simp)
    show ?thesis
    proof (cases "sdap_is ue ps e")
      case True
      then have "sdap_key e = (ue, ps)" by (simp add: sdap_is_key)
      then show ?thesis using assms(1) True Cons by (auto simp: nr_sdap_delete_entity_def)
    next
      case False
      then show ?thesis
        using assms(1) k unfolding nr_sdap_delete_entity_def Cons list.case w Let_def
        by (insert Cons, auto split: if_splits)
    qed
  qed
  then show "ret \<longleftrightarrow> (ue, ps) \<in> sdap_key ` set (sd_llist s)"
    "sd_llist s' = (if ret then without (ue_index (\<lambda>e. sdap_key e = (ue, ps)) (sd_llist s)) (sd_llist s) else sd_llist s)"
    by simp_all
qed

lemma sdap_delete_total: "sd_llist s \<noteq> [] \<Longrightarrow> \<exists>ret s'. nr_sdap_delete_entity ue ps s = Inr (ret, s')"
  by (cases "sd_llist s") (auto simp: nr_sdap_delete_entity_def Let_def)

lemma sdap_delete_sub:
  assumes "nr_sdap_delete_entity ue ps s = Inr (ret, s')"
  obtains k where "sd_llist s' = sd_llist s \<or> sd_llist s' = without k (sd_llist s)"
proof (cases "sd_llist s")
  case Nil
  then show ?thesis using assms that by (auto simp: nr_sdap_delete_entity_def split: if_splits)
next
  case (Cons e l)
  then show ?thesis
    using assms that[of 0] that[of "sdap_walk_max SDAP_MAX_NUM_OF_ENTITIES (sdap_is ue ps) (e # l)"]
    by (auto simp: nr_sdap_delete_entity_def Let_def split: if_splits)
qed

lemma sdap_ok_new:
  assumes "sdap_ok s" "new_nr_sdap_entity pdcp tun gnb rx tx ue ps dflt drb qfis n s = Inr s'"
  shows "sdap_ok s'"
proof (cases "nr_sdap_get_entity (sd_llist s) ue ps")
  case None
  then obtain e where e: "sdap_init_entity gnb rx tx ue ps dflt drb qfis n = Inr e"
    "(if sd_nos1 s \<and> gnb then start_sdap_tun_gnb_first_ue_default_pdu_session tun ue (s\<lparr>sd_llist := e # sd_llist s\<rparr>)
      else Inr (s\<lparr>sd_llist := e # sd_llist s\<rparr>)) = Inr s'"
    using assms(2) by (auto simp: new_nr_sdap_entity_def rbind_eq_Inr Let_def)
  have ok: "sdap_ok (s\<lparr>sd_llist := e # sd_llist s\<rparr>)"
    using assms(1) sdap_init_entity_key(1,2)[OF e(1)] None[unfolded sdap_get_None]
    by (simp add: sdap_ok_def sdap_map_def table_of_None)
  then show ?thesis
    using e(2)
    by (auto simp: start_sdap_tun_gnb_first_ue_default_pdu_session_def rbind_eq_Inr split: if_splits option.splits
        simp: sdap_key_def intro!: sdap_put_same[OF ok]
        dest: sdap_get_Some(1)[where s = "s\<lparr>sd_llist := e # sd_llist s\<rparr>", simplified])
next
  case (Some k)
  then show ?thesis
    using assms sdap_put_ok[OF assms(1) sdap_get_Some(1)[OF Some]]
    by (auto simp: new_nr_sdap_entity_def rbind_eq_Inr split: if_splits dest!: sdap_config_kept)
qed

lemma sdap_step_ok:
  assumes "sdap_step pdcp s s'" "sdap_ok s"
  shows "sdap_ok s'"
  using assms
proof (cases rule: sdap_step.cases)
  case (new tun gnb rx tx ue ps dflt drb qfis n)
  then show ?thesis using sdap_ok_new assms(2) by blast
next
  case (reconfigure c ue ps drb_id)
  show ?thesis
  proof (cases "nr_sdap_get_entity (sd_llist s) ue ps")
    case None
    then show ?thesis using reconfigure assms(2) by (simp add: nr_reconfigure_sdap_entity_def)
  next
    case (Some k)
    have rel: "sdap_kept e e'" if "sdap_release_flows block js e = Inr e'" for block js e e'
      by (rule sdap_qfi_loop_kept[where R = sdap_kept, OF _ _ _ that[unfolded sdap_release_flows_def]])
        (auto simp: nr_sdap_qfi2drb_map_del_def split: if_splits intro: sdap_kept_trans)
    show ?thesis
      using reconfigure Some
      by (auto simp: nr_reconfigure_sdap_entity_def rbind_eq_Inr split: if_splits dest!: sdap_config_kept rel
          intro!: sdap_put_ok[OF assms(2) sdap_get_Some(1)[OF Some]] elim: sdap_kept_trans)
  qed
next
  case (release_drb ue drb_id ps)
  then show ?thesis
    using assms(2) sdap_put_ok[OF assms(2) sdap_get_Some(1)]
    by (auto simp: nr_sdap_release_drb_def sdap_kept_def sdap_key_def sdap_entity_ok_def sdap_release_loop_def
        split: option.splits)
next
  case (delete ue ps ret)
  then show ?thesis
    using assms(2)
    by (auto simp: sdap_ok_def without_sub elim!: sdap_delete_sub dest: without_sub[THEN conjunct2, THEN subsetD])
next
  case (delete_ue ue)
  then show ?thesis
    using assms(2) by (auto simp: sdap_ok_def sdap_delete_ue_llist distinct_map_filter)
next
  case (set_qfi qfi pduid ue)
  then show ?thesis
    using sdap_put_ok[OF assms(2) sdap_get_Some(1)]
    by (auto simp: set_qfi_def sdap_kept_def sdap_key_def sdap_entity_ok_def split: option.splits)
next
  case (start_tun ue ps sock)
  then show ?thesis
    by (auto simp: start_sdap_tun_ue_def rbind_eq_Inr split: option.splits
        simp: sdap_key_def intro!: sdap_put_same[OF assms(2)] dest: sdap_get_Some(1))
next
  case (data_req ctxt ue f b m c sdu mode src dst qfi rqi ps ret)
  then show ?thesis
    using sdap_put_ok[OF assms(2) sdap_get_Some(1)] assms(2)
    by (auto simp: sdap_data_req_def rbind_eq_Inr split: option.splits dest!: sdap_tx_kept)
next
  case (data_ind pe gnb rx ps ue buf)
  then show ?thesis
    using sdap_put_ok[OF assms(2) sdap_get_Some(1)] assms(2)
    by (auto simp: sdap_data_ind_def rbind_eq_Inr split: option.splits dest!: sdap_rx_kept)
next
  case (tun_read k buf)
  then show ?thesis
    using sdap_put_ok[OF assms(2)] by (auto simp: sdap_tun_read_def Let_def rbind_eq_Inr dest!: sdap_tx_kept)
qed

lemma sdap_run_ok: "(sdap_step pdcp)\<^sup>*\<^sup>* s s' \<Longrightarrow> sdap_ok s \<Longrightarrow> sdap_ok s'"
  by (induction rule: rtranclp_induct) (auto intro: sdap_step_ok)

lemma sdap_new_map:
  assumes "new_nr_sdap_entity pdcp tun gnb rx tx ue ps dflt drb qfis n s = Inr s'" "sdap_map s (ue, ps) = None" "\<not> sd_nos1 s"
  obtains e where "sdap_init_entity gnb rx tx ue ps dflt drb qfis n = Inr e" "sdap_map s' = (sdap_map s)((ue, ps) \<mapsto> e)"
proof -
  obtain e where e: "sdap_init_entity gnb rx tx ue ps dflt drb qfis n = Inr e" "s' = s\<lparr>sd_llist := e # sd_llist s\<rparr>"
    using assms(1,3) assms(2)[folded sdap_get_None] by (auto simp: new_nr_sdap_entity_def rbind_eq_Inr Let_def)
  show thesis by (rule that[OF e(1)]) (simp add: e(2) sdap_map_def sdap_init_entity_key(1)[OF e(1)])
qed

lemma sdap_delete_map:
  assumes "sdap_ok s" "nr_sdap_delete_entity ue ps s = Inr (ret, s')" "length (sd_llist s) \<le> Suc SDAP_MAX_NUM_OF_ENTITIES"
  shows "ret \<longleftrightarrow> sdap_map s (ue, ps) \<noteq> None" "sdap_map s' = (sdap_map s)((ue, ps) := None)"
  using sdap_delete_llist[OF assms(2,3)] table_of_without(1)[of sdap_key "sd_llist s" "(ue, ps)"] assms(1)
    table_of_None[of sdap_key "sd_llist s" "(ue, ps)"]
  by (auto simp: sdap_map_def sdap_ok_def fun_eq_iff)

lemma sdap_delete_ue_map:
  "fst (nr_sdap_delete_ue_entities ue s) \<longleftrightarrow> (\<exists>ps. sdap_map s (ue, ps) \<noteq> None)"
  "sdap_map (snd (nr_sdap_delete_ue_entities ue s)) = (\<lambda>k. if fst k = ue then None else sdap_map s k)"
proof -
  have f: "table_of sdap_key (filter (\<lambda>e. se_ue_id e \<noteq> ue) l) = (\<lambda>k. if fst k = ue then None else table_of sdap_key l k)" for l
    by (induction l) (auto simp: fun_eq_iff sdap_key_def)
  show "sdap_map (snd (nr_sdap_delete_ue_entities ue s)) = (\<lambda>k. if fst k = ue then None else sdap_map s k)"
    by (simp add: fun_eq_iff sdap_map_def sdap_delete_ue_llist f)
  have "(length (filter (\<lambda>e. se_ue_id e \<noteq> ue) l) < length l) = (\<exists>ps. (ue, ps) \<in> sdap_key ` set l)" for l
  proof -
    have "length (filter (\<lambda>e. se_ue_id e \<noteq> ue) l) < length l \<longleftrightarrow> (\<exists>e \<in> set l. se_ue_id e = ue)"
      by (induction l) (auto simp: less_Suc_eq_le)
    then show ?thesis by (auto simp: sdap_key_def image_iff)
  qed
  then show "fst (nr_sdap_delete_ue_entities ue s) \<longleftrightarrow> (\<exists>ps. sdap_map s (ue, ps) \<noteq> None)"
    using sdap_delete_ue_llist[of ue s]
    by (auto simp: nr_sdap_delete_ue_entities_def sdap_map_def table_of_None split: prod.splits if_splits)
qed

text \<open>
  C17: In every run of the SDAP layer that starts without entities, the list of entities is a map from
  UE and PDU session: every entity has its 64 rules and a key of its own, \<open>nr_sdap_get_entity\<close> looks
  the key up, a new entity extends the map by what the constructor built, \<open>nr_sdap_delete_entity\<close>
  takes one key away and tells whether it was there, and \<open>nr_sdap_delete_ue_entities\<close> takes exactly the
  sessions of the UE away.
\<close>

theorem sdap_entities_are_map:
  assumes "(sdap_step pdcp)\<^sup>*\<^sup>* s0 s" "sd_llist s0 = []" "length (sd_llist s) \<le> SDAP_MAX_NUM_OF_ENTITIES"
  shows "sdap_ok s
    \<and> map_option (\<lambda>k. sd_entity k s) (nr_sdap_get_entity (sd_llist s) ue ps) = sdap_map s (ue, ps)
    \<and> (sdap_map s (ue, ps) = None \<and> \<not> sd_nos1 s
         \<and> new_nr_sdap_entity pdcp tun gnb rx tx ue ps dflt drb qfis n s = Inr s1 \<longrightarrow>
       (\<exists>e. sdap_init_entity gnb rx tx ue ps dflt drb qfis n = Inr e \<and> sdap_map s1 = (sdap_map s)((ue, ps) \<mapsto> e)))
    \<and> (nr_sdap_delete_entity ue ps s = Inr (ret, s2) \<longrightarrow>
       ret = (sdap_map s (ue, ps) \<noteq> None) \<and> sdap_map s2 = (sdap_map s)((ue, ps) := None))
    \<and> fst (nr_sdap_delete_ue_entities ue s) = (\<exists>ps. sdap_map s (ue, ps) \<noteq> None)
    \<and> sdap_map (snd (nr_sdap_delete_ue_entities ue s)) = (\<lambda>k. if fst k = ue then None else sdap_map s k)"
proof -
  have ok: "sdap_ok s" by (rule sdap_run_ok[OF assms(1)]) (simp add: sdap_ok_def assms(2))
  have "map_option (\<lambda>k. sd_entity k s) (nr_sdap_get_entity (sd_llist s) ue ps) = sdap_map s (ue, ps)"
    using sdap_get_Some(3)[of s ue ps] sdap_get_None[of s ue ps]
    by (cases "nr_sdap_get_entity (sd_llist s) ue ps") auto
  moreover have "\<exists>e. sdap_init_entity gnb rx tx ue ps dflt drb qfis n = Inr e \<and> sdap_map s1 = (sdap_map s)((ue, ps) \<mapsto> e)"
    if "sdap_map s (ue, ps) = None \<and> \<not> sd_nos1 s \<and> new_nr_sdap_entity pdcp tun gnb rx tx ue ps dflt drb qfis n s = Inr s1"
    using that by (auto elim: sdap_new_map)
  moreover have "ret = (sdap_map s (ue, ps) \<noteq> None) \<and> sdap_map s2 = (sdap_map s)((ue, ps) := None)"
    if "nr_sdap_delete_entity ue ps s = Inr (ret, s2)"
    using sdap_delete_map[OF ok that] assms(3) by simp
  ultimately show ?thesis using ok sdap_delete_ue_map[of ue s] by blast
qed

theorem sdap_entities_are_map_witness:
  "\<exists>s1 s2 s3 (pdcp :: unit pdcp_service).
     new_nr_sdap_entity pdcp 0 True True True 7 1 True 2 [9] 1
       \<lparr>sd_llist = [], sd_N3GTPUInst = None, sd_nos1 = False, sd_default_pdu_session_id = 1, sd_events = [], sd_pdcp = ()\<rparr>
       = Inr s1
     \<and> new_nr_sdap_entity pdcp 0 True True True 7 5 False 3 [] 0 s1 = Inr s2 \<and> sdap_map s2 (7, 1) \<noteq> None
     \<and> nr_sdap_delete_entity 7 1 s2 = Inr (True, s3) \<and> sdap_map s3 = (sdap_map s2)((7, 1) := None)"
proof -
  let ?pdcp = "\<lambda>r (). Inr (True, ()) :: (bool \<times> unit) res"
  let ?s0 = "\<lparr>sd_llist = [], sd_N3GTPUInst = None, sd_nos1 = False, sd_default_pdu_session_id = 1, sd_events = [],
     sd_pdcp = ()\<rparr> :: unit nr_sdap"
  obtain s1 where s1: "new_nr_sdap_entity ?pdcp 0 True True True 7 1 True 2 [9] 1 ?s0 = Inr s1"
    "length (sd_llist s1) = 1" "sdap_map s1 (7, 5) = None" "sdap_map s1 (7, 1) \<noteq> None" "\<not> sd_nos1 s1"
    by (simp add: new_nr_sdap_entity_def nr_sdap_get_entity_def sdap_init_entity_def Let_def sdap_map_def sdap_key_def
        calloc_nr_sdap_entity_def)
  obtain s2 where s2: "new_nr_sdap_entity ?pdcp 0 True True True 7 5 False 3 [] 0 s1 = Inr s2" "length (sd_llist s2) = 2"
    using s1 sdap_get_None[of s1 7 5] by (simp add: new_nr_sdap_entity_def sdap_init_entity_def Let_def)
  have run: "(sdap_step ?pdcp)\<^sup>*\<^sup>* ?s0 s1" "(sdap_step ?pdcp)\<^sup>*\<^sup>* ?s0 s2"
    using sdap_step.new[OF s1(1)] sdap_step.new[OF s2(1)] by (auto intro: rtranclp_trans)
  note at1 = sdap_entities_are_map[OF run(1), where ue = 7 and ps = 5 and ret = False and ?s2.0 = s1 and ?s1.0 = s2
      and tun = 0 and gnb = True and rx = True and tx = True and dflt = False and drb = 3 and qfis = "[]" and n = 0]
  have "\<exists>e. sdap_map s2 = (sdap_map s1)((7, 5) \<mapsto> e)"
    using at1 s1 s2 by (auto simp: SDAP_MAX_NUM_OF_ENTITIES_def)
  then have m: "sdap_map s2 (7, 1) \<noteq> None" using s1(4) by auto
  have "sd_llist s2 \<noteq> []" using s2(2) by auto
  then obtain ret s3 where s3: "nr_sdap_delete_entity 7 1 s2 = Inr (ret, s3)"
    using sdap_delete_total by blast
  have "ret \<and> sdap_map s3 = (sdap_map s2)((7, 1) := None)"
    using sdap_entities_are_map[OF run(2), where ue = 7 and ps = 1 and ret = ret and ?s2.0 = s3] s2(2) s3 m
    by (simp add: SDAP_MAX_NUM_OF_ENTITIES_def)
  then have "nr_sdap_delete_entity 7 1 s2 = Inr (True, s3) \<and> sdap_map s3 = (sdap_map s2)((7, 1) := None)"
    using s3 by simp
  then show ?thesis using s1(1) s2(1) m by (intro exI conjI) auto
qed

section \<open>Header round trip\<close>

text \<open>
  C18: For every SDU of 1 to 8999 bytes and every flow identifier below 64, \<open>nr_sdap_tx_entity\<close> makes one
  request to PDCP, on the bearer of the flow (or the caller's when it has none), and answers what PDCP
  answers. The PDU of a gNB, received by a UE that expects a header exactly when there is one, is
  written to the socket of the session as the SDU, unchanged; that of a UE, received by the gNB, goes
  unchanged into the GTP tunnel of the session; the receiving entity stays as it is. The header
  carries the identifier and the indication.
\<close>

theorem sdap_roundtrip:
  assumes "sdap_entity_ok e" "unat qfi < SDAP_MAX_QFI" "sdu \<noteq> []" "length sdu \<le> 8999"
  shows "\<exists>req. nr_sdap_tx_entity pdcp e ctxt srb_flag rb_id mui confirm (Some sdu) mode src dst qfi rqi p
             = rbind (pdcp req p) (\<lambda>(ret, p'). Inr (ret, sdap_mapped e qfi, p'))
      \<and> dr_rb_id req = (if sdap_bearer e qfi \<noteq> 0 then sdap_bearer e qfi else rb_id) \<and> dr_ctxt req = ctxt
      \<and> (pc_enb_flag ctxt \<longrightarrow>
           nr_sdap_rx_entity pdcp' e' drb False (sdap_has_header e qfi) ps ue (dr_sdu req) inst p'
             = Inr (Tun_Write (se_pdusession_sock e') sdu, e', p')
         \<and> (sdap_has_header e qfi \<longrightarrow>
              dl_hdr_of (hd (dr_sdu req)) = \<lparr>dl_QFI = ucast qfi, dl_RQI = rqi, dl_RDI = False\<rparr>))
      \<and> (\<not> pc_enb_flag ctxt \<longrightarrow>
           nr_sdap_rx_entity pdcp' e' drb True (sdap_has_header e qfi) ps ue (dr_sdu req) (Some g) p'
             = Inr (Gtpu_Send g ue ps sdu, e', p')
         \<and> (sdap_has_header e qfi \<longrightarrow>
              ul_hdr_of (hd (dr_sdu req)) = \<lparr>ul_QFI = ucast qfi, ul_R = False, ul_DC = rqi\<rparr>))
      \<and> ucast (ucast qfi :: 6 word) = qfi"
proof -
  let ?b = "sdap_pdu e (pc_enb_flag ctxt) qfi rqi sdu"
  have u: "\<not> pc_enb_flag ctxt \<or> nr_sdap_rx_entity pdcp' e' drb False (sdap_has_header e qfi) ps ue ?b inst p'
      = Inr (Tun_Write (se_pdusession_sock e') sdu, e', p')"
    by (cases "pc_enb_flag ctxt") (simp_all add: sdap_rx_ue sdap_pdu_def)
  have g: "pc_enb_flag ctxt \<or> nr_sdap_rx_entity pdcp' e' drb True (sdap_has_header e qfi) ps ue ?b (Some g) p'
      = Inr (Gtpu_Send g ue ps sdu, e', p')"
    by (cases "pc_enb_flag ctxt") (simp_all add: sdap_rx_gnb sdap_pdu_def)
  have h: "sdap_has_header e qfi \<Longrightarrow> dl_hdr_of (hd ?b) = \<lparr>dl_QFI = ucast qfi, dl_RQI = rqi, dl_RDI = False\<rparr>"
    if "pc_enb_flag ctxt" using that by (simp add: sdap_pdu_def dl_hdr_of_def)
  have h': "sdap_has_header e qfi \<Longrightarrow> ul_hdr_of (hd ?b) = \<lparr>ul_QFI = ucast qfi, ul_R = False, ul_DC = rqi\<rparr>"
    if "\<not> pc_enb_flag ctxt" using that by (simp add: sdap_pdu_def ul_hdr_of_def)
  show ?thesis
    by (rule exI, rule conjI, rule sdap_tx_eq[OF assms]) (use u g h h' qfi_in_hdr[OF assms(2)] in \<open>cases "pc_enb_flag ctxt"; simp\<close>)
qed

text \<open>A flow that goes out with a header on bearer 2, and one without a rule or a default bearer.\<close>

definition sdap_example :: nr_sdap_entity where
  "sdap_example = calloc_nr_sdap_entity
     \<lparr>se_qfi2drb_table := (se_qfi2drb_table calloc_nr_sdap_entity)
        [9 := \<lparr>qd_drb_id = 2, qd_has_sdap_rx = True, qd_has_sdap_tx = True\<rparr>]\<rparr>"

lemma sdap_example_ok: "sdap_entity_ok sdap_example"
  by (simp add: sdap_entity_ok_def sdap_example_def calloc_nr_sdap_entity_def)

lemma sdap_example_header: "sdap_has_header sdap_example 9" "sdap_bearer sdap_example 9 = 2"
  by (simp_all add: sdap_has_header_def sdap_bearer_def sdap_rule_def sdap_example_def calloc_nr_sdap_entity_def
      SDAP_MAX_QFI_def)

theorem sdap_roundtrip_witness:
  "\<exists>req. nr_sdap_tx_entity (\<lambda>r p. Inr (True, p @ [r])) sdap_example (ctxt_of True 7) False 1 0 0 (Some [1, 2]) 2 None None
            9 True [] = Inr (True, sdap_mapped sdap_example 9, [req]) \<and> dr_rb_id req = 2 \<and> sdap_has_header sdap_example 9
     \<and> nr_sdap_rx_entity (\<lambda>r p. Inr (True, p)) sdap_example 2 False True 1 7 (dr_sdu req) None ()
          = Inr (Tun_Write (se_pdusession_sock sdap_example) [1, 2], sdap_example, ())"
proof -
  have q: "unat (9 :: byte) < SDAP_MAX_QFI" by (simp add: SDAP_MAX_QFI_def)
  show ?thesis
    using sdap_roundtrip[OF sdap_example_ok q, of "[1, 2]" "\<lambda>r p. Inr (True, p @ [r])" "ctxt_of True 7" False 1 0 0 2
        None None True "[]" "\<lambda>r p. Inr (True, p)" sdap_example 2 1 7 None "()" 0]
      sdap_example_header by (auto simp: ctxt_of_def)
qed

section \<open>Where the configuration and the reflective mapping go wrong\<close>

lemma sdap_end_marker_total:
  assumes "\<And>r p. \<exists>x. pdcp r p = Inr x" "unat qfi < SDAP_MAX_QFI"
  shows "\<exists>x. sdap_end_marker pdcp e pe ue ty qfi p = Inr x"
proof -
  have "\<exists>x. nr_sdap_map_ctrl_pdu e pe ty qfi = Inr x"
    by (simp add: nr_sdap_map_ctrl_pdu_def sdap_map_eq[OF assms(2)] Let_def)
  moreover have "\<exists>x. nr_sdap_submit_ctrl_pdu pdcp ue d c p = Inr x" for d c
    using assms(1) by (auto simp: nr_sdap_submit_ctrl_pdu_def nr_pdcp_submit_sdap_ctrl_pdu_def rbind_def
        split: sum.splits) (metis sum.distinct(1))
  ultimately show ?thesis by (auto simp: sdap_end_marker_def rbind_def split: sum.splits) (metis sum.distinct(1))
qed

lemma sdap_config_step_total:
  assumes "\<And>r p. \<exists>x. pdcp r p = Inr x" "unat qfi < SDAP_MAX_QFI"
  shows "\<exists>x. sdap_qfi_config_step pdcp pe ue drb rx tx qfi s = Inr x"
proof -
  have m: "\<exists>x. (if b then sdap_end_marker pdcp e pe ue ty qfi p else Inr y) = Inr x" for b e ty p y
    using sdap_end_marker_total[OF assms] by (cases b) auto
  obtain e1 p1 where 1: "(if se_default_drb (fst s) \<noteq> 0 \<and> qd_drb_id (se_qfi2drb_table (fst s) ! unat qfi) = SDAP_NO_MAPPING_RULE
      then sdap_end_marker pdcp (fst s) pe ue SDAP_CTRL_PDU_MAP_DEF_DRB qfi (snd s) else Inr s) = Inr (e1, p1)"
    using m by (metis surj_pair)
  obtain e2 p2 where 2: "(if qd_drb_id (se_qfi2drb_table e1 ! unat qfi) \<noteq> uint drb \<and> qd_has_sdap_tx (se_qfi2drb_table e1 ! unat qfi)
      then sdap_end_marker pdcp e1 pe ue SDAP_CTRL_PDU_MAP_RULE_DRB qfi p1 else Inr (e1, p1)) = Inr (e2, p2)"
    using m by (metis surj_pair)
  show ?thesis
    unfolding sdap_qfi_config_step_def qfi_get_def if_P[OF assms(2)] rbind_Inr 1 prod.case 2 by blast
qed

text \<open>
  C37: A configuration with two or more QoS flows reads beyond a block. The lists are arrays of pointers
  and \<open>list.array[0]\<close> points to the first number alone, which the loop takes for an array of all: when
  the UE reconfigures an entity, and when a new entity gets its default bearer, the second turn is out
  of bounds whatever PDCP answers.
\<close>

theorem sdap_second_flow_out_of_bounds:
  assumes "\<And>r p. \<exists>x. pdcp r p = Inr x" "nr_sdap_get_entity (sd_llist s) ue ps = Some k"
    and "sc_mappedQoS_FlowsToAdd c = Some (q # q' # qs)" "length qs < 254"
    and "unat (word_of_int q :: byte) < SDAP_MAX_QFI"
  shows "nr_reconfigure_sdap_entity pdcp c ue ps drb_id s = Inl Out_of_bounds
    \<and> rbind (asn1_array0 (sc_mappedQoS_FlowsToAdd c))
        (\<lambda>block. sdap_init_entity gnb rx tx ue' ps' True drb block (length (q # q' # qs))) = Inl Out_of_bounds"
proof -
  let ?n = "unat (of_nat (length (q # q' # qs)) :: byte)"
  have small: "unat (of_nat m :: byte) = m" if "m < 256" for m using that by (simp add: unat_of_nat)
  have e: "length (q # q' # qs) = Suc (Suc (length qs))" by simp
  have n: "?n = Suc (Suc (length qs))" unfolding e by (rule small) (use assms(4) in linarith)
  have up: "[0..<Suc (Suc m)] = 0 # 1 # [2..<Suc (Suc m)]" for m
    by (simp add: upt_conv_Cons numeral_2_eq_2 del: upt_Suc)
  obtain x where x: "sdap_qfi_config_step pdcp (se_default_drb (sd_entity k s)) ue (word_of_int drb_id) (is_sdap_rx False c)
      (is_sdap_tx False c) (word_of_int q) (sd_entity k s, sd_pdcp s) = Inr x"
    using sdap_config_step_total[where pdcp = pdcp, OF assms(1,5)] by blast
  have "nr_sdap_ue_qfi2drb_config pdcp (sd_entity k s) (se_default_drb (sd_entity k s)) ue [q] ?n (word_of_int drb_id)
      (is_sdap_rx False c) (is_sdap_tx False c) (sd_pdcp s) = Inl Out_of_bounds"
    unfolding nr_sdap_ue_qfi2drb_config_def n up by (simp add: x)
  then have "nr_reconfigure_sdap_entity pdcp c ue ps drb_id s = Inl Out_of_bounds"
    by (simp add: nr_reconfigure_sdap_entity_def assms(2,3) asn1_array0_def del: of_nat_Suc length_Cons list.size)
  moreover have "rbind (asn1_array0 (sc_mappedQoS_FlowsToAdd c))
      (\<lambda>block. sdap_init_entity gnb rx tx ue' ps' True drb block (length (q # q' # qs))) = Inl Out_of_bounds"
    unfolding assms(3) asn1_array0_def sdap_init_entity_def list.size(4) Let_def
    by (simp add: up del: upt_Suc)
  ultimately show ?thesis by blast
qed

theorem sdap_second_flow_out_of_bounds_witness:
  "nr_reconfigure_sdap_entity (\<lambda>r p. Inr (True, p @ [r]))
     \<lparr>sc_pdu_Session = 1, sc_sdap_HeaderDL_present = True, sc_sdap_HeaderUL_present = True, sc_defaultDRB = True,
      sc_mappedQoS_FlowsToAdd = Some [1, 2], sc_mappedQoS_FlowsToRelease = None\<rparr> 0 0 1
     \<lparr>sd_llist = [sdap_example], sd_N3GTPUInst = None, sd_nos1 = False, sd_default_pdu_session_id = 1,
      sd_events = [], sd_pdcp = []\<rparr> = Inl Out_of_bounds"
  by (rule sdap_second_flow_out_of_bounds[THEN conjunct1])
    (auto simp: nr_sdap_get_entity_def sdap_is_def sdap_example_def calloc_nr_sdap_entity_def SDAP_MAX_QFI_def)

text \<open>
  A reflective mapping of a flow without a rule ends the flow on the default bearer twice: the first
  condition sends an end marker there, and the second, which is meant for a stored rule, holds as well,
  as 0 differs from every bearer.
\<close>

lemma sdap_reflective_marks_twice:
  assumes "sdap_entity_ok e" "qd_drb_id (sdap_rule e qfi) = 0" "0 < se_default_drb e" "unat qfi < SDAP_MAX_QFI" "drb \<noteq> 0"
  shows "\<exists>req. sdap_reflective_mapping (\<lambda>r p. Inr (True, p @ [r])) e drb ue qfi []
      = Inr (set_drb_id (unat qfi) drb (sdap_mapped e qfi), [req, req])
    \<and> dr_rb_id req = se_default_drb e \<and> dr_sdu req = [ul_hdr_byte (nr_sdap_construct_ctrl_pdu qfi)]"
  using assms
  by (simp add: sdap_reflective_mapping_def sdap_end_marker_def nr_sdap_map_ctrl_pdu_def nr_sdap_submit_ctrl_pdu_def
      nr_pdcp_submit_sdap_ctrl_pdu_def sdap_map_eq Let_def sdap_rule_def[symmetric] sdap_bearer_def)

end
