(* ===== verification/User_Plane.thy ===== *)
theory User_Plane
  imports Pdcp_Api Sdap_Rules Pdcp_Wire
begin

text \<open>
  SDAP and PDCP together: SDUs that one side sends through \<open>sdap_data_req\<close> and \<open>nr_pdcp_data_req_drb\<close>
  come out of \<open>do_pdcp_data_ind\<close> and \<open>sdap_data_ind\<close> of the other side.
\<close>

section \<open>Bearers in the table\<close>

definition pa_ok :: "pdcp_api \<Rightarrow> bool" where
  "pa_ok p \<longleftrightarrow> pdcp_manager_ok (pa_manager p)"

definition pdcp_drb :: "pdcp_api \<Rightarrow> u64 \<Rightarrow> int \<Rightarrow> nr_pdcp_entity option" where
  "pdcp_drb p i drb = (case pdcp_ue_map (pa_manager p) i of None \<Rightarrow> None | Some ue \<Rightarrow> nr_pdcp_get_rb ue drb False)"

lemma pa_lookup:
  assumes "pa_ok p" "pdcp_drb p i drb = Some rb"
  obtains k where "pa_get_ue i p = (k, p)" "k < length (pm_ue_list (pa_manager p))" "pu_id (pa_ue k p) = i"
    "nr_pdcp_get_rb (pa_ue k p) drb False = Some rb"
proof -
  let ?l = "pm_ue_list (pa_manager p)" and ?k = "ue_index (\<lambda>u. pu_id u = i) (pm_ue_list (pa_manager p))"
  obtain ue where ue: "table_of pu_id ?l i = Some ue" "nr_pdcp_get_rb ue drb False = Some rb"
    using assms(2) by (auto simp: pdcp_drb_def pdcp_ue_map_def split: option.splits)
  then have i: "i \<in> pu_id ` set ?l" using table_of_None[of pu_id ?l i] by auto
  have k: "?k < length ?l" by (rule ue_index_cases(1)[OF i])
  show thesis
  proof (rule that)
    show "pa_get_ue i p = (?k, p)" using k by (simp add: pa_get_ue_def nr_pdcp_manager_get_ue_def)
    show "?k < length ?l" by (rule k)
    show "pu_id (pa_ue ?k p) = i" using ue_index_hit[OF k] by (simp add: pa_ue_def)
    show "nr_pdcp_get_rb (pa_ue ?k p) drb False = Some rb" using table_of_index[OF i] ue by (simp add: pa_ue_def)
  qed
qed

lemma pa_store:
  assumes "pa_ok p" "k < length (pm_ue_list (pa_manager p))" "pu_id (pa_ue k p) = i"
    "nr_pdcp_get_rb (pa_ue k p) drb False = Some rb"
  shows "pa_ok (pa_put_rb k drb False (Some rb') p)" "pdcp_drb (pa_put_rb k drb False (Some rb') p) i drb = Some rb'"
    "pa_events (pa_put_rb k drb False (Some rb') p) = pa_events p"
    "pu_id (pa_ue k (pa_put_rb k drb False (Some rb') p)) = i"
proof -
  let ?l = "pm_ue_list (pa_manager p)" and ?ue = "pa_ue k p"
  define ue' where "ue' = pu_set_rb drb False (Some rb') ?ue"
  have dist: "distinct (map pu_id ?l)" and ok: "pdcp_ue_ok ?ue"
    using assms(1,2) by (auto simp: pa_ok_def pdcp_manager_ok_def pa_ue_def)
  have r: "1 \<le> drb" "drb \<le> int MAX_DRBS_PER_UE" and old: "pu_drb ?ue ! nat (drb - 1) = Some rb"
    using assms(4) by (auto simp: nr_pdcp_get_rb_def split: if_splits)
  have len: "nat (drb - 1) < length (pu_drb ?ue)" using r ok by (simp add: pdcp_ue_ok_def)
  have tail: "l ! j \<in> set (drop n l)" if "n \<le> j" "j < length l" for l :: "nr_pdcp_entity option list" and j n
    using that nth_mem[of "j - n" "drop n l"] by simp
  have five: "nat (drb - 1) < 5"
  proof (rule ccontr)
    assume "\<not> nat (drb - 1) < 5"
    then have "pu_drb ?ue ! nat (drb - 1) \<in> set (drop 5 (pu_drb ?ue))" by (intro tail len) simp
    then show False using ok old by (auto simp: pdcp_ue_ok_def)
  qed
  have e: "ue' = ?ue\<lparr>pu_drb := (pu_drb ?ue)[nat (drb - 1) := Some rb']\<rparr>" by (simp add: ue'_def pu_set_rb_def)
  have ue': "pdcp_ue_ok ue'" "pu_id ue' = pu_id ?ue" "nr_pdcp_get_rb ue' drb False = Some rb'"
  proof -
    show "pdcp_ue_ok ue'" using ok by (simp add: e pdcp_ue_ok_def drop_update_cancel[OF five])
    show "pu_id ue' = pu_id ?ue" by (simp add: e)
    show "nr_pdcp_get_rb ue' drb False = Some rb'" using r len by (simp add: e nr_pdcp_get_rb_def)
  qed
  have key: "pu_id ue' = pu_id (?l ! k)" using ue'(2) by (simp add: pa_ue_def)
  note tab = table_of_put[of pu_id ?l k ue', OF dist assms(2) key]
  have put: "pm_ue_list (pa_manager (pa_put_rb k drb False (Some rb') p)) = ?l[k := ue']"
    by (simp add: pa_put_rb_def pa_put_ue_def ue'_def)
  show "pa_ok (pa_put_rb k drb False (Some rb') p)"
    using assms(1) tab(1) dist ue'(1) unfolding pa_ok_def pdcp_manager_ok_def put
    by (auto dest!: set_update_subset_insert[THEN subsetD])
  show "pdcp_drb (pa_put_rb k drb False (Some rb') p) i drb = Some rb'"
    using tab(2) ue' assms(3) by (simp add: pdcp_drb_def pdcp_ue_map_def put)
  show "pa_events (pa_put_rb k drb False (Some rb') p) = pa_events p" by (simp add: pa_put_rb_def pa_put_ue_def)
  show "pu_id (pa_ue k (pa_put_rb k drb False (Some rb') p)) = i"
    using assms(2,3) ue'(2) by (simp add: pa_ue_def put)
qed

section \<open>A bearer between two sides\<close>

text \<open>
  One QoS flow on its bearer: the side that sends (gNB or UE), the identifiers both sides have for the
  UE, the PDU session, the flow and the bearer.
\<close>

record up_link =
  lk_gnb :: bool
  lk_si :: u64
  lk_ri :: u64
  lk_ps :: int
  lk_qfi :: byte
  lk_drb :: int

text \<open>
  The two sides agree: both have the session and the bearer, the entities of the bearer are peers, PDCP
  expects the SDAP header exactly when SDAP writes it, and the receiver has delivered all before \<open>c\<close>.
\<close>

definition up_tx_ok :: "up_link \<Rightarrow> nr_sdap_entity \<Rightarrow> nr_pdcp_entity \<Rightarrow> bool" where
  "up_tx_ok lk e tx \<longleftrightarrow>
     sdap_bearer e (lk_qfi lk) = lk_drb lk \<and> pd_has_sdap_tx tx = sdap_has_header e (lk_qfi lk)
     \<and> pd_is_gnb tx = lk_gnb lk \<and> pd_type tx \<noteq> NR_PDCP_SRB
     \<and> pd_config_ok tx \<and> pd_security_ok tx \<and> \<not> pd_suspended tx"

definition up_sides_ok :: "up_link \<Rightarrow> user_plane \<Rightarrow> user_plane \<Rightarrow> bool" where
  "up_sides_ok lk s r \<longleftrightarrow>
     sdap_ok s \<and> pa_ok (sd_pdcp s) \<and> sdap_ok r \<and> pa_ok (sd_pdcp r) \<and> unat (lk_qfi lk) < SDAP_MAX_QFI"

definition up_linked :: "up_link \<Rightarrow> user_plane \<Rightarrow> user_plane \<Rightarrow> int \<Rightarrow> u32 \<Rightarrow> bool" where
  "up_linked lk s r sock c \<longleftrightarrow> up_sides_ok lk s r
     \<and> (\<exists>e e' tx rx. sdap_map s (lk_si lk, lk_ps lk) = Some e \<and> sdap_map r (lk_ri lk, lk_ps lk) = Some e'
        \<and> pdcp_drb (sd_pdcp s) (lk_si lk) (lk_drb lk) = Some tx \<and> pdcp_drb (sd_pdcp r) (lk_ri lk) (lk_drb lk) = Some rx
        \<and> up_tx_ok lk e tx \<and> pd_peer tx rx \<and> pd_inv rx \<and> \<not> pd_suspended rx \<and> pd_pdusession_id rx = lk_ps lk
        \<and> pd_tx_next tx = c \<and> pd_rx_deliv rx = c \<and> pd_rx_list rx = [] \<and> se_pdusession_sock e' = sock)"

text \<open>The PDUs among the events of the sender, as RLC or GTP brings them to the other side.\<close>

fun up_pdu :: "pdcp_event \<Rightarrow> (int \<times> byte list) option" where
  "up_pdu (Rlc_Data_Req i) = (if ri_srb_flag i then None else Some (ri_rb_id i, ri_sdu i))"
| "up_pdu (Cu_Gtpu_Send inst i rb_id buf) = Some (rb_id, buf)"
| "up_pdu _ = None"

fun up_receive :: "pdcp_env \<Rightarrow> up_link \<Rightarrow> (int \<times> byte list) list \<Rightarrow> user_plane \<Rightarrow> user_plane res" where
  "up_receive env lk [] r = Inr r"
| "up_receive env lk ((rb_id, pdu) # l) r =
     rbind (do_pdcp_data_ind env \<lparr>pi_ctxt = ctxt_of (\<not> lk_gnb lk) (lk_ri lk), pi_srb_flag = False, pi_rb_id = rb_id,
              pi_sdu = pdu\<rparr> r) (up_receive env lk l)"

text \<open>Sending SDUs one after the other, each PDU received before the next SDU is sent.\<close>

fun up_relay ::
  "pdcp_env \<Rightarrow> pdcp_env \<Rightarrow> up_link \<Rightarrow> bool \<Rightarrow> byte list list \<Rightarrow> user_plane \<times> user_plane \<Rightarrow> (user_plane \<times> user_plane) res"
where
  "up_relay env env' lk b [] (s, r) = Inr (s, r)"
| "up_relay env env' lk b (sdu # sdus) (s, r) =
     rbind (sdap_data_req (nr_pdcp_data_req_drb env) (ctxt_of (lk_gnb lk) (lk_si lk)) (lk_si lk) False 1 0 0 (Some sdu)
              PDCP_TRANSMISSION_MODE_DATA None None (lk_qfi lk) b (lk_ps lk) s) (\<lambda>(ret, s').
     rbind (up_receive env' lk
              (List.map_filter up_pdu (drop (length (pa_events (sd_pdcp s))) (pa_events (sd_pdcp s')))) r) (\<lambda>r'.
     up_relay env env' lk b sdus (s', r')))"

section \<open>Each side alone\<close>

lemma sdap_map_get:
  assumes "sdap_map s (u, ps) = Some e"
  obtains k where "nr_sdap_get_entity (sd_llist s) u ps = Some k" "sd_entity k s = e" "k < length (sd_llist s)"
    "sdap_key e = (u, ps)"
proof (cases "nr_sdap_get_entity (sd_llist s) u ps")
  case None
  then show ?thesis using assms by (simp add: sdap_get_None)
next
  case (Some k)
  then show ?thesis using that sdap_get_Some[OF Some] assms by auto
qed

text \<open>The sender: one PDU, and the same agreement with the next COUNT.\<close>

definition up_env_ok :: "up_link \<Rightarrow> pdcp_env \<Rightarrow> pdcp_env \<Rightarrow> bool" where
  "up_env_ok lk env env' \<longleftrightarrow> crypto_ok (pe_crypto env) \<and> pe_crypto env' = pe_crypto env
     \<and> (lk_gnb lk \<longrightarrow> pe_f1_secondary_ue env (lk_si lk) \<noteq> None) \<and> (\<not> lk_gnb lk \<longrightarrow> \<not> pe_use_tun env')"

lemma up_deliver_pdu:
  assumes "up_env_ok lk env env'" "pd_is_gnb tx = lk_gnb lk" "pd_type tx \<noteq> NR_PDCP_SRB"
  shows "\<exists>ev. pd_deliver_pdu env tx (lk_si lk) drb pdu mui p = Inr (pa_event ev p) \<and> up_pdu ev = Some (drb, pdu)"
proof -
  have i: "\<exists>ev. Inr (pa_event x p) = (Inr (pa_event ev p) :: pdcp_api res) \<and> up_pdu ev = Some (drb, pdu)"
    if "up_pdu x = Some (drb, pdu)" for x using that by blast
  show ?thesis
    using assms
    by (auto simp: up_env_ok_def pd_deliver_pdu_def deliver_pdu_drb_gnb_def deliver_pdu_drb_ue_def
        simp del: sum.inject intro!: i)
qed

lemma up_data_req:
  assumes env: "up_env_ok lk env env'" and ok: "pa_ok p" and drb: "pdcp_drb p (lk_si lk) drb = Some tx"
    and side: "pd_is_gnb tx = lk_gnb lk" "pd_type tx \<noteq> NR_PDCP_SRB"
    and run: "nr_pdcp_entity_process_sdu (pe_crypto env) tx (dr_sdu req) (nr_max_pdcp_pdu_size (int (length (dr_sdu req))))
      = Inr (Some pdu, tx')" and keep: "pd_is_gnb tx' = pd_is_gnb tx" "pd_type tx' = pd_type tx"
    and req: "dr_ctxt req = ctxt_of g (lk_si lk)" "dr_rb_id req = drb" "\<not> dr_srb_flag req"
  shows "\<exists>p' ev. nr_pdcp_data_req_drb env req p = Inr (True, p') \<and> pa_ok p' \<and> pdcp_drb p' (lk_si lk) drb = Some tx'
     \<and> pa_events p' = pa_events p @ [ev] \<and> up_pdu ev = Some (drb, pdu)"
proof -
  obtain k where k: "pa_get_ue (lk_si lk) p = (k, p)" "k < length (pm_ue_list (pa_manager p))"
    "pu_id (pa_ue k p) = lk_si lk" "nr_pdcp_get_rb (pa_ue k p) drb False = Some tx"
    using pa_lookup[OF ok drb] .
  let ?p = "pa_put_rb k drb False (Some tx') p"
  obtain ev where ev: "pd_deliver_pdu env tx' (lk_si lk) drb pdu (dr_mui req) ?p = Inr (pa_event ev ?p)" "up_pdu ev = Some (drb, pdu)"
    using up_deliver_pdu[OF env, of tx'] side keep by metis
  have c: "pc_rntiMaybeUEid (dr_ctxt req) = lk_si lk" "pc_module_id (dr_ctxt req) = 0" "pc_instance (dr_ctxt req) = 0"
    "pc_eNB_index (dr_ctxt req) = 0" by (simp_all add: req ctxt_of_def)
  have "nr_pdcp_data_req_drb env req p = Inr (True, pa_event ev ?p)"
    using c by (simp add: nr_pdcp_data_req_drb_def Let_def k req run ev(1))
  moreover have "pa_ok (pa_event ev ?p)" "pdcp_drb (pa_event ev ?p) (lk_si lk) drb = Some tx'"
    "pa_events (pa_event ev ?p) = pa_events p @ [ev]"
    using pa_store[OF ok k(2-4), of tx'] by (simp_all add: pa_event_def pa_ok_def pdcp_drb_def)
  ultimately show ?thesis using ev(2) by blast
qed

text \<open>The receiver: the one SDU that PDCP delivers goes through SDAP.\<close>

lemma sdap_map_updates [simp]:
  "sdap_map (s\<lparr>sd_pdcp := p\<rparr>) = sdap_map s" "sdap_map (sd_event ev s) = sdap_map s"
  "sd_llist (sd_put k e s) = (sd_llist s)[k := e]" "sd_pdcp (sd_put k e s) = sd_pdcp s"
  "sd_events (sd_put k e s) = sd_events s" "sd_N3GTPUInst (sd_put k e s) = sd_N3GTPUInst s"
  "sd_pdcp (sd_event ev s) = sd_pdcp s" "sd_events (sd_event ev s) = sd_events s @ [ev]"
  "sd_N3GTPUInst (sd_event ev s) = sd_N3GTPUInst s" "sd_llist (sd_event ev s) = sd_llist s"
  by (simp_all add: sdap_map_def sd_event_def sd_put_def)

lemma up_sdap_data_ind:
  assumes "sdap_ok r" "sdap_map r (i, ps) = Some e"
    and "nr_sdap_rx_entity pdcp e drb gnb rx ps i buf (sd_N3GTPUInst r) (sd_pdcp r) = Inr (ev, e, sd_pdcp r)"
  shows "\<exists>r'. sdap_data_ind pdcp drb gnb rx ps i buf r = Inr r' \<and> sd_events r' = sd_events r @ [ev] \<and> sdap_ok r'
     \<and> sdap_map r' = sdap_map r \<and> sd_pdcp r' = sd_pdcp r \<and> sd_N3GTPUInst r' = sd_N3GTPUInst r"
proof -
  obtain k where k: "nr_sdap_get_entity (sd_llist r) i ps = Some k" "sd_entity k r = e" "k < length (sd_llist r)"
    "sdap_key e = (i, ps)" using sdap_map_get[OF assms(2)] .
  let ?r = "sd_event ev ((sd_put k e r)\<lparr>sd_pdcp := sd_pdcp r\<rparr>)"
  have "sdap_data_ind pdcp drb gnb rx ps i buf r = Inr ?r" using assms(3) by (simp add: sdap_data_ind_def k)
  moreover have "sdap_ok (sd_put k e r)" "sdap_map (sd_put k e r) = sdap_map r"
    using sdap_put_same[OF assms(1) k(3), of e] sdap_put(2)[OF assms(1) k(3), of e] k assms(1,2)
    by (auto simp: sdap_ok_def sd_entity_def fun_eq_iff)
  ultimately show ?thesis by (intro exI[of _ ?r]) simp
qed

lemma up_data_ind:
  assumes env: "pd_is_gnb rx \<longrightarrow> \<not> pe_use_tun env"
    and ok: "sdap_ok r" "pa_ok (sd_pdcp r)" and drb: "pdcp_drb (sd_pdcp r) i drb = Some rx"
    and e: "sdap_map r (i, pd_pdusession_id rx) = Some e"
    and run: "nr_pdcp_entity_recv_pdu (pe_crypto env) rx pdu = Inr rx'"
    and same: "pd_same rx rx'" "pd_delivered rx' = pd_delivered rx @ [x]" "pd_type rx \<noteq> NR_PDCP_SRB"
    and rcv: "\<And>d p. nr_sdap_rx_entity (nr_pdcp_data_req_drb env) e d (pd_is_gnb rx) (pd_has_sdap_rx rx)
      (pd_pdusession_id rx) i (ps_buffer x) (sd_N3GTPUInst r) p = Inr (ev, e, p)"
  shows "\<exists>r'. do_pdcp_data_ind env \<lparr>pi_ctxt = ctxt_of g i, pi_srb_flag = False, pi_rb_id = drb, pi_sdu = pdu\<rparr> r = Inr r'
     \<and> sd_events r' = sd_events r @ [ev] \<and> sdap_ok r' \<and> pa_ok (sd_pdcp r') \<and> sdap_map r' = sdap_map r
     \<and> pdcp_drb (sd_pdcp r') i drb = Some rx' \<and> sd_N3GTPUInst r' = sd_N3GTPUInst r"
proof -
  let ?p = "sd_pdcp r"
  obtain k where k: "pa_get_ue i ?p = (k, ?p)" "k < length (pm_ue_list (pa_manager ?p))"
    "pu_id (pa_ue k ?p) = i" "nr_pdcp_get_rb (pa_ue k ?p) drb False = Some rx"
    using pa_lookup[OF ok(2) drb] .
  let ?q = "pa_put_rb k drb False (Some rx') ?p"
  define r1 where "r1 = r\<lparr>sd_pdcp := ?q\<rparr>"
  note st = pa_store[OF ok(2) k(2-4), of rx']
  have f: "pd_is_gnb rx' = pd_is_gnb rx" "pd_has_sdap_rx rx' = pd_has_sdap_rx rx" "pd_type rx' = pd_type rx"
    "pd_pdusession_id rx' = pd_pdusession_id rx" using same(1) by (simp_all add: pd_same_def)
  have r1: "sdap_ok r1" "sdap_map r1 = sdap_map r" "sd_N3GTPUInst r1 = sd_N3GTPUInst r" "sd_pdcp r1 = ?q"
    "sd_events r1 = sd_events r" using ok(1) by (simp_all add: r1_def)
  have "\<exists>r'. sdap_data_ind (nr_pdcp_data_req_drb env) d (pd_is_gnb rx) (pd_has_sdap_rx rx) (pd_pdusession_id rx) i
      (ps_buffer x) r1 = Inr r' \<and> sd_events r' = sd_events r1 @ [ev] \<and> sdap_ok r'
     \<and> sdap_map r' = sdap_map r1 \<and> sd_pdcp r' = sd_pdcp r1 \<and> sd_N3GTPUInst r' = sd_N3GTPUInst r1" for d
    by (rule up_sdap_data_ind[OF r1(1)]) (use e rcv r1 in simp_all)
  then obtain r' where r': "deliver_sdu_drb env i drb rx' (ps_buffer x) r1 = Inr r'" "sd_events r' = sd_events r @ [ev]"
    "sdap_ok r'" "sdap_map r' = sdap_map r" "sd_pdcp r' = ?q" "sd_N3GTPUInst r' = sd_N3GTPUInst r"
    using env unfolding deliver_sdu_drb_def f r1 by (cases "pe_use_tun env"; cases "pd_is_gnb rx"; force)
  have "do_pdcp_data_ind env \<lparr>pi_ctxt = ctxt_of g i, pi_srb_flag = False, pi_rb_id = drb, pi_sdu = pdu\<rparr> r = Inr r'"
    using r'(1) same(2,3) k
    by (simp add: do_pdcp_data_ind_def ctxt_of_def up_with_rb_def up_on_rb_def run f r1_def)
  then show ?thesis using r' st by auto
qed

section \<open>One SDU, and a run of SDUs\<close>

lemma sdap_mapped_again:
  assumes "sdap_entity_ok e" "unat qfi < SDAP_MAX_QFI"
  shows "sdap_bearer (sdap_mapped e qfi) qfi = sdap_bearer e qfi" "sdap_has_header (sdap_mapped e qfi) qfi = sdap_has_header e qfi"
proof -
  show b: "sdap_bearer (sdap_mapped e qfi) qfi = sdap_bearer e qfi"
    using assms by (simp add: sdap_bearer_def) (simp add: sdap_mapped_def sdap_rule_update)
  show "sdap_has_header (sdap_mapped e qfi) qfi = sdap_has_header e qfi"
    by (simp add: sdap_has_header_def b sdap_mapped_tx[OF assms])
qed

text \<open>PDCP of the two sides: the peers stay peers and the receiver delivers the SDU at once.\<close>

lemma up_pdcp_step:
  assumes cx: "crypto_ok cx" and tx: "up_tx_ok lk e tx" and peer: "pd_peer tx rx" and inv: "pd_inv rx" "\<not> pd_suspended rx"
    and sync: "pd_rx_deliv rx = pd_tx_next tx" "pd_rx_list rx = []" "pd_tx_next tx \<noteq> -1"
    and len: "(if pd_has_sdap_tx tx then 1 else 0) < length sdu"
  shows "\<exists>pdu st rx' x. nr_pdcp_entity_process_sdu cx tx sdu (nr_max_pdcp_pdu_size (int (length sdu)))
       = Inr (Some pdu, tx\<lparr>pd_tx_next := pd_tx_next tx + 1, pd_stats := st\<rparr>)
     \<and> nr_pdcp_entity_recv_pdu cx rx pdu = Inr rx' \<and> ps_buffer x = sdu \<and> pd_delivered rx' = pd_delivered rx @ [x]
     \<and> pd_same rx rx' \<and> pd_inv rx' \<and> pd_rx_list rx' = [] \<and> pd_rx_deliv rx' = pd_tx_next tx + 1"
proof -
  have t: "pd_config_ok tx" "pd_security_ok tx" "\<not> pd_suspended tx" using tx by (simp_all add: up_tx_ok_def)
  have w: "uint (pd_tx_next tx) < uint (pd_rx_deliv rx) + pd_window_size rx"
    using pd_invD(1)[OF inv(1)] sync(1) by (simp add: pd_config_ok_def)
  obtain pdu tx' rx' x d where trip: "nr_pdcp_entity_process_sdu cx tx sdu (nr_max_pdcp_pdu_size (int (length sdu))) = Inr (Some pdu, tx')"
    "nr_pdcp_entity_recv_pdu cx rx pdu = Inr rx'" "ps_buffer x = sdu" "ps_count x = pd_tx_next tx" "pd_advance rx d rx'"
    "set d \<union> set (pd_rx_list rx') = {x}" "\<exists>d'. d = x # d'" "pd_rx_deliv rx' = pd_tx_next tx + 1"
    using pd_trip[OF cx peer t(1) inv(1) t(2,3) inv(2) order.refl len _ w _ sync(3)] sync(1,2) by auto
  obtain st where tx': "tx' = tx\<lparr>pd_tx_next := pd_tx_next tx + 1, pd_stats := st\<rparr>"
    using pd_process_sdu_eq[OF t, of sdu] trip(1) by (metis order.refl prod.inject sum.inject(2))
  have adv: "pd_same rx rx'" "pd_inv rx'" "pd_delivered rx' = pd_delivered rx @ d" "counts_increasing d"
    "\<forall>s \<in> set d. ps_count s < pd_rx_deliv rx'" using trip(5) by (simp_all add: pd_advance_def)
  obtain d' where d': "d = x # d'" using trip(7) by blast
  have "d' = []"
  proof (cases d')
    case (Cons y ys)
    then have "y = x" using trip(6) d' by auto
    then show ?thesis using adv(4) d' Cons by simp
  qed simp
  moreover have "pd_rx_list rx' = []"
  proof (cases "pd_rx_list rx'")
    case (Cons y ys)
    then have "y = x" using trip(6) by auto
    then show ?thesis using adv(5) pd_invD(3)[OF adv(2), of y] Cons d' by auto
  qed simp
  ultimately show ?thesis using trip tx' adv d' by blast
qed

text \<open>The event by which an SDU leaves the receiver, and the SDAP side of the reception.\<close>

definition lk_event :: "up_link \<Rightarrow> int \<Rightarrow> int \<Rightarrow> byte list \<Rightarrow> sdap_event" where
  "lk_event lk sock inst sdu = (if lk_gnb lk then Tun_Write sock sdu else Gtpu_Send inst (lk_ri lk) (lk_ps lk) sdu)"

lemma up_rx_entity:
  assumes "rx = sdap_has_header e qfi" "\<not> lk_gnb lk \<longrightarrow> inst' = Some inst"
  shows "nr_sdap_rx_entity pdcp e' d (\<not> lk_gnb lk) rx (lk_ps lk) (lk_ri lk) (sdap_pdu e (lk_gnb lk) qfi b sdu) inst' p
    = Inr (lk_event lk (se_pdusession_sock e') inst sdu, e', p)"
  using assms by (cases "lk_gnb lk") (simp_all add: sdap_rx_ue sdap_rx_gnb sdap_pdu_def lk_event_def)

lemma up_step:
  assumes env: "up_env_ok lk env env'" and lk: "up_linked lk s r sock c" and c: "c \<noteq> -1"
    and sdu: "sdu \<noteq> []" "length sdu \<le> 8999" and inst: "\<not> lk_gnb lk \<longrightarrow> sd_N3GTPUInst r = Some inst"
  shows "\<exists>s' r'. up_relay env env' lk b (sdu # sdus) (s, r) = up_relay env env' lk b sdus (s', r')
     \<and> up_linked lk s' r' sock (c + 1) \<and> sd_events r' = sd_events r @ [lk_event lk sock inst sdu]
     \<and> sd_N3GTPUInst r' = sd_N3GTPUInst r"
proof -
  let ?drb = "lk_drb lk" and ?qfi = "lk_qfi lk"
  obtain e e' tx rx where sides: "sdap_ok s" "pa_ok (sd_pdcp s)" "sdap_ok r" "pa_ok (sd_pdcp r)" "unat ?qfi < SDAP_MAX_QFI"
    and e: "sdap_map s (lk_si lk, lk_ps lk) = Some e" "sdap_map r (lk_ri lk, lk_ps lk) = Some e'"
    and rb: "pdcp_drb (sd_pdcp s) (lk_si lk) ?drb = Some tx" "pdcp_drb (sd_pdcp r) (lk_ri lk) ?drb = Some rx"
    and ok: "up_tx_ok lk e tx" "pd_peer tx rx" "pd_inv rx" "\<not> pd_suspended rx" "pd_pdusession_id rx = lk_ps lk"
    and sync: "pd_tx_next tx = c" "pd_rx_deliv rx = c" "pd_rx_list rx = []" and sock: "se_pdusession_sock e' = sock"
    using lk unfolding up_linked_def up_sides_ok_def by blast
  have cx: "crypto_ok (pe_crypto env)" "pe_crypto env' = pe_crypto env" using env by (simp_all add: up_env_ok_def)
  have t: "sdap_bearer e ?qfi = ?drb" "pd_has_sdap_tx tx = sdap_has_header e ?qfi" "pd_is_gnb tx = lk_gnb lk"
    "pd_type tx \<noteq> NR_PDCP_SRB" using ok(1) by (simp_all add: up_tx_ok_def)
  have p: "pd_has_sdap_rx rx = pd_has_sdap_tx tx" "pd_is_gnb rx = (\<not> lk_gnb lk)" "pd_type rx = pd_type tx"
    using ok(2) t(3) by (simp_all add: pd_peer_def)
  obtain k where k: "nr_sdap_get_entity (sd_llist s) (lk_si lk) (lk_ps lk) = Some k" "sd_entity k s = e"
    "k < length (sd_llist s)" "sdap_key e = (lk_si lk, lk_ps lk)" using sdap_map_get[OF e(1)] .
  have eok: "sdap_entity_ok e" using sides(1) k(2,3) by (auto simp: sdap_ok_def sd_entity_def)
  have d0: "?drb \<noteq> 0" using rb(1) by (auto simp: pdcp_drb_def nr_pdcp_get_rb_def split: option.splits if_splits)
  let ?data = "sdap_pdu e (lk_gnb lk) ?qfi b sdu"
  have len: "(if pd_has_sdap_tx tx then 1 else 0) < length ?data" using sdu(1) by (simp add: t(2) sdap_pdu_def)
  obtain pdu st rx' x where step: "nr_pdcp_entity_process_sdu (pe_crypto env) tx ?data (nr_max_pdcp_pdu_size (int (length ?data)))
       = Inr (Some pdu, tx\<lparr>pd_tx_next := pd_tx_next tx + 1, pd_stats := st\<rparr>)"
     "nr_pdcp_entity_recv_pdu (pe_crypto env) rx pdu = Inr rx'" "ps_buffer x = ?data" "pd_delivered rx' = pd_delivered rx @ [x]"
     "pd_same rx rx'" "pd_inv rx'" "pd_rx_list rx' = []" "pd_rx_deliv rx' = c + 1"
    using up_pdcp_step[OF cx(1) ok(1-4) _ sync(3) _ len] sync(1,2) c by metis
  let ?tx' = "tx\<lparr>pd_tx_next := pd_tx_next tx + 1, pd_stats := st\<rparr>"
  define req where "req = \<lparr>dr_ctxt = ctxt_of (lk_gnb lk) (lk_si lk), dr_srb_flag = False, dr_rb_id = ?drb, dr_mui = 0,
    dr_confirm = 0, dr_sdu = ?data, dr_mode = PDCP_TRANSMISSION_MODE_DATA, dr_sourceL2Id = None, dr_destinationL2Id = None\<rparr>"
  obtain q ev where q: "nr_pdcp_data_req_drb env req (sd_pdcp s) = Inr (True, q)" "pa_ok q"
    "pdcp_drb q (lk_si lk) ?drb = Some ?tx'" "pa_events q = pa_events (sd_pdcp s) @ [ev]" "up_pdu ev = Some (?drb, pdu)"
    using up_data_req[OF env sides(2) rb(1) t(3,4), of req pdu ?tx' "lk_gnb lk"] step(1) by (auto simp: req_def)
  let ?e = "sdap_mapped e ?qfi"
  define s' where "s' = (sd_put k ?e s)\<lparr>sd_pdcp := q\<rparr>"
  have key: "sdap_key ?e = (lk_si lk, lk_ps lk)" using k(4) by (simp add: sdap_key_def)
  have snd: "sdap_data_req (nr_pdcp_data_req_drb env) (ctxt_of (lk_gnb lk) (lk_si lk)) (lk_si lk) False 1 0 0 (Some sdu)
      PDCP_TRANSMISSION_MODE_DATA None None ?qfi b (lk_ps lk) s = Inr (True, s')"
    using q(1) unfolding sdap_data_req_def k option.case sdap_tx_eq[OF eok sides(5) sdu]
    by (simp add: t(1) d0 ctxt_of_def req_def s'_def)
  have s': "sdap_ok s'" "sdap_map s' (lk_si lk, lk_ps lk) = Some ?e" "sd_pdcp s' = q"
    using sdap_put[OF sides(1) k(3), of ?e] key k(2,4) eok by (simp_all add: s'_def)
  have rcv: "nr_sdap_rx_entity (nr_pdcp_data_req_drb env') e' d (pd_is_gnb rx) (pd_has_sdap_rx rx) (pd_pdusession_id rx)
      (lk_ri lk) (ps_buffer x) (sd_N3GTPUInst r) w = Inr (lk_event lk sock inst sdu, e', w)" for d w
    unfolding p(2) ok(5) step(3) sock[symmetric] by (rule up_rx_entity) (use p(1) t(2) inst in simp_all)
  have "\<exists>r'. do_pdcp_data_ind env' \<lparr>pi_ctxt = ctxt_of (\<not> lk_gnb lk) (lk_ri lk), pi_srb_flag = False, pi_rb_id = ?drb, pi_sdu = pdu\<rparr> r
      = Inr r' \<and> sd_events r' = sd_events r @ [lk_event lk sock inst sdu] \<and> sdap_ok r' \<and> pa_ok (sd_pdcp r')
     \<and> sdap_map r' = sdap_map r \<and> pdcp_drb (sd_pdcp r') (lk_ri lk) ?drb = Some rx' \<and> sd_N3GTPUInst r' = sd_N3GTPUInst r"
    by (rule up_data_ind[OF _ sides(3,4) rb(2) e(2)[folded ok(5)] _ step(5,4) _ rcv])
      (use env p t(4) step(2) cx(2) in \<open>simp_all add: up_env_ok_def\<close>)
  then obtain r' where r': "do_pdcp_data_ind env' \<lparr>pi_ctxt = ctxt_of (\<not> lk_gnb lk) (lk_ri lk), pi_srb_flag = False,
        pi_rb_id = ?drb, pi_sdu = pdu\<rparr> r = Inr r'"
    "sd_events r' = sd_events r @ [lk_event lk sock inst sdu]" "sdap_ok r'" "pa_ok (sd_pdcp r')" "sdap_map r' = sdap_map r"
    "pdcp_drb (sd_pdcp r') (lk_ri lk) ?drb = Some rx'" "sd_N3GTPUInst r' = sd_N3GTPUInst r" by blast
  have relay: "up_relay env env' lk b (sdu # sdus) (s, r) = up_relay env env' lk b sdus (s', r')"
    by (simp add: snd s'(3) q(4,5) map_filter_simps r'(1))
  have txok: "up_tx_ok lk ?e ?tx'"
    using ok(1) sdap_mapped_again[OF eok sides(5)]
    by (simp add: up_tx_ok_def pd_config_ok_def pd_security_ok_def)
  have peer: "pd_peer ?tx' rx'" using ok(2) step(5) by (simp add: pd_peer_def pd_same_def)
  have same: "\<not> pd_suspended rx'" "pd_pdusession_id rx' = lk_ps lk" using step(5) ok(4,5) by (simp_all add: pd_same_def)
  have link: "up_linked lk s' r' sock (c + 1)"
    unfolding up_linked_def up_sides_ok_def
    by (intro conjI exI[of _ ?e] exI[of _ e'] exI[of _ ?tx'] exI[of _ rx'])
      (use s' q r' e txok peer same step sides sock sync in simp_all)
  show ?thesis using relay link r'(2,7) by blast
qed

lemma up_run:
  assumes env: "up_env_ok lk env env'" and lk: "up_linked lk s r sock c"
    and sdus: "\<forall>sdu \<in> set sdus. sdu \<noteq> [] \<and> length sdu \<le> 8999" and c: "uint c + int (length sdus) < 2 ^ 32"
    and inst: "\<not> lk_gnb lk \<longrightarrow> sd_N3GTPUInst r = Some inst"
  shows "\<exists>s' r'. up_relay env env' lk b sdus (s, r) = Inr (s', r')
     \<and> sd_events r' = sd_events r @ map (lk_event lk sock inst) sdus
     \<and> up_linked lk s' r' sock (c + of_nat (length sdus))"
  using lk sdus c inst
proof (induction sdus arbitrary: s r c)
  case Nil
  then show ?case by simp
next
  case (Cons sdu sdus)
  have small: "uint c < 2 ^ 32 - 1" using Cons.prems(3) by simp
  then have c: "c \<noteq> -1" by (auto simp: word_eq_iff_signed unsigned_minus_1_eq_mask mask_eq_exp_minus_1)
  have c1: "uint (c + 1) = uint c + 1" using small by (simp add: uint_plus_if_size word_size)
  have x: "sdu \<noteq> []" "length sdu \<le> 8999" using Cons.prems(2) by simp_all
  obtain s1 r1 where 1: "up_relay env env' lk b (sdu # sdus) (s, r) = up_relay env env' lk b sdus (s1, r1)"
    "up_linked lk s1 r1 sock (c + 1)" "sd_events r1 = sd_events r @ [lk_event lk sock inst sdu]"
    "sd_N3GTPUInst r1 = sd_N3GTPUInst r"
    using up_step[OF env Cons.prems(1) c x Cons.prems(4), of b sdus] by blast
  have "uint (c + 1) + int (length sdus) < 2 ^ 32" using Cons.prems(3) by (simp add: c1)
  then obtain s' r' where "up_relay env env' lk b sdus (s1, r1) = Inr (s', r')"
     "sd_events r' = sd_events r1 @ map (lk_event lk sock inst) sdus"
     "up_linked lk s' r' sock (c + 1 + of_nat (length sdus))"
    using Cons.IH[OF 1(2)] Cons.prems(2,4) 1(4) by auto
  then show ?case
    by - (rule exI[of _ s'], rule exI[of _ r'], simp add: 1(1,3) add.assoc del: up_relay.simps)
qed

section \<open>Setting a bearer up\<close>

lemma pa_get_ue_ok:
  assumes "pa_ok p" "pa_get_ue i p = (k, p1)"
  shows "pa_ok p1" "k < length (pm_ue_list (pa_manager p1))" "pu_id (pa_ue k p1) = i"
    "pdcp_drb p1 i drb = nr_pdcp_get_rb (pa_ue k p1) drb False" "pa_events p1 = pa_events p"
    "pdcp_drb p i drb = pdcp_drb p1 i drb"
proof -
  let ?m = "pa_manager p"
  have p1: "k = fst (nr_pdcp_manager_get_ue ?m i)" "pa_manager p1 = snd (nr_pdcp_manager_get_ue ?m i)"
    "p1 = p\<lparr>pa_manager := snd (nr_pdcp_manager_get_ue ?m i)\<rparr>"
    using assms(2) by (auto simp: pa_get_ue_def split: prod.splits)
  show "pa_ok p1" using assms(1) by (simp add: pa_ok_def p1 pdcp_manager_ok_steps)
  have dist: "distinct (map pu_id (pm_ue_list ?m))" using assms(1) by (simp add: pa_ok_def pdcp_manager_ok_def)
  note g = pdcp_ues.get_map[OF dist, of i]
  show k: "k < length (pm_ue_list (pa_manager p1))" using g by (simp add: p1)
  have "table_of pu_id (pm_ue_list (snd (nr_pdcp_manager_get_ue ?m i))) i
      = Some (pm_ue_list (snd (nr_pdcp_manager_get_ue ?m i)) ! fst (nr_pdcp_manager_get_ue ?m i))" using g by blast
  then have at: "pdcp_ue_map (pa_manager p1) i = Some (pa_ue k p1)" by (simp add: p1(1,2) pa_ue_def pdcp_ue_map_def)
  show "pu_id (pa_ue k p1) = i"
  proof -
    have "k = ue_index (\<lambda>u. pu_id u = i) (pm_ue_list (pa_manager p1))"
      using g pdcp_ues.get_index[of "pa_manager p1" i] by (simp add: p1(1,2))
    then show ?thesis using ue_index_hit[of "\<lambda>u. pu_id u = i" "pm_ue_list (pa_manager p1)"] k by (simp add: pa_ue_def)
  qed
  show "pdcp_drb p1 i drb = nr_pdcp_get_rb (pa_ue k p1) drb False" by (simp add: pdcp_drb_def at)
  show "pa_events p1 = pa_events p" by (simp add: p1(3))
  have "nr_pdcp_get_rb (new_pdcp_ue i) drb False = None" by (simp add: nr_pdcp_get_rb_def new_pdcp_ue_def nat_less_iff)
  then show "pdcp_drb p i drb = pdcp_drb p1 i drb"
    using g by (auto simp: pdcp_drb_def pdcp_ue_map_def p1(2) split: option.splits if_splits)
qed

text \<open>A side on which neither the session nor the bearer exists.\<close>

definition up_fresh :: "u64 \<Rightarrow> int \<Rightarrow> int \<Rightarrow> user_plane \<Rightarrow> bool" where
  "up_fresh i ps drb s \<longleftrightarrow> sdap_ok s \<and> pa_ok (sd_pdcp s) \<and> \<not> sd_nos1 s \<and> sdap_map s (i, ps) = None
     \<and> pdcp_drb (sd_pdcp s) i drb = None"

lemma sdap_init_default:
  assumes "sdap_init_entity gnb rx tx i ps True (word_of_int drb) [q] 1 = Inr e" "1 \<le> drb" "drb \<le> 5" "0 < q" "q < 64"
  shows "sdap_bearer e (word_of_int q) = drb" "sdap_has_header e (word_of_int q) = tx" "sdap_entity_ok e"
    "se_pdusession_sock e = -1" "unat (word_of_int q :: byte) < SDAP_MAX_QFI"
proof -
  let ?q = "word_of_int q :: byte"
  have u: "uint ?q = q" "uint (word_of_int drb :: byte) = drb" using assms(2-5) by (simp_all add: uint_word_of_int)
  show q: "unat ?q < SDAP_MAX_QFI"
    using assms(4,5) u(1) by (simp add: SDAP_MAX_QFI_def unat_eq_nat_uint nat_less_iff)
  define e0 where "e0 = calloc_nr_sdap_entity\<lparr>se_ue_id := i, se_pdusession_id := ps, se_is_gnb := gnb,
                se_pdusession_sock := -1, se_default_drb := drb\<rparr>"
  have e: "e = nr_sdap_qfi2drb_map_update e0 ?q drb rx tx"
    using assms(1) by (simp add: sdap_init_entity_def Let_def e0_def u)
  have ok: "sdap_entity_ok e0" by (simp add: e0_def sdap_entity_ok_def calloc_nr_sdap_entity_def)
  have r: "sdap_rule e ?q = \<lparr>qd_drb_id = drb, qd_has_sdap_rx = rx, qd_has_sdap_tx = tx\<rparr>"
    using assms(2-4) u(1) by (simp add: e sdap_rule_update[OF ok q])
  show b: "sdap_bearer e ?q = drb" using assms(2) by (simp add: sdap_bearer_def r)
  show "sdap_has_header e ?q = tx" using assms(2) by (simp add: sdap_has_header_def b r)
  show "sdap_entity_ok e" "se_pdusession_sock e = -1" using ok by (simp_all add: e e0_def)
qed

lemma up_add_drb:
  assumes cfg: "da_pdcp_Config a = Some pc" "xc_drb pc = Some d" "da_cnAssociation a = Cn_Sdap (Some c)"
      "sc_mappedQoS_FlowsToAdd c = Some [q]" "0 < q" "q < 64" "sc_defaultDRB c"
    and add: "add_drb env gnb i a sp s = Inr s'"
    and fresh: "up_fresh i (sc_pdu_Session c) (da_drb_Identity a) s"
  shows "\<exists>e rb ul n t dt. sdap_ok s' \<and> pa_ok (sd_pdcp s') \<and> sdap_map s' (i, sc_pdu_Session c) = Some e
     \<and> pdcp_drb (sd_pdcp s') i (da_drb_Identity a) = Some rb
     \<and> sdap_bearer e (word_of_int q) = da_drb_Identity a \<and> sdap_has_header e (word_of_int q) = is_sdap_tx gnb c
     \<and> se_pdusession_sock e = -1 \<and> se_is_gnb e = gnb \<and> drb_pdcp_config pc d = Inr (ul, n, dt, t) \<and> (n = 12 \<or> n = 18)
     \<and> new_nr_pdcp_entity NR_PDCP_DRB_AM gnb (da_drb_Identity a) (sc_pdu_Session c) (is_sdap_rx gnb c) (is_sdap_tx gnb c)
          n t dt (drb_security pc d sp) = Inr rb
     \<and> sd_events s' = sd_events s \<and> sd_N3GTPUInst s' = sd_N3GTPUInst s \<and> sd_nos1 s' = sd_nos1 s"
proof -
  let ?drb = "da_drb_Identity a" and ?ps = "sc_pdu_Session c"
  obtain ul n dt t where pcfg: "drb_pdcp_config pc d = Inr (ul, n, dt, t)"
    using add by (auto simp: add_drb_def cfg rbind_eq_Inr)
  then have n: "n = 12 \<or> n = 18"
    by (auto simp: drb_pdcp_config_def rbind_eq_Inr decode_sn_size_dl_def split: if_splits)
  have scfg: "drb_sdap_config gnb (da_cnAssociation a)
      = Inr (?ps, is_sdap_rx gnb c, is_sdap_tx gnb c, True, [q], 1)"
    by (simp add: drb_sdap_config_def cfg asn1_array0_def)
  obtain k p where kp: "pa_get_ue i (sd_pdcp s) = (k, p)" by fastforce
  have ok: "pa_ok (sd_pdcp s)" "sdap_ok s" "\<not> sd_nos1 s" "sdap_map s (i, ?ps) = None"
    "pdcp_drb (sd_pdcp s) i ?drb = None" using fresh by (simp_all add: up_fresh_def)
  note g = pa_get_ue_ok[OF ok(1) kp]
  have none: "nr_pdcp_get_rb (pa_ue k p) ?drb False = None" using g(4)[of ?drb] g(6)[of ?drb] ok(5) by simp
  obtain rb ue where rb: "new_nr_pdcp_entity NR_PDCP_DRB_AM gnb ?drb ?ps (is_sdap_rx gnb c) (is_sdap_tx gnb c)
          n t dt (drb_security pc d sp) = Inr rb"
    and ue: "nr_pdcp_ue_add_drb_pdcp_entity (pa_ue k p) ?drb rb = Inr ue"
    and new: "new_nr_sdap_entity (nr_pdcp_data_req_drb env) (pe_tun_alloc env) gnb (is_sdap_rx gnb c) (is_sdap_tx gnb c) i ?ps
       True (word_of_int ?drb) [q] 1 (s\<lparr>sd_pdcp := pa_put_ue k ue p\<rparr>) = Inr s'"
    using add by (auto simp: add_drb_def cfg(1,2) pcfg scfg kp none rbind_eq_Inr Let_def)
  have drb: "1 \<le> ?drb" "?drb \<le> 5" using ue by (auto simp: nr_pdcp_ue_add_drb_pdcp_entity_def split: if_splits)
  have uok: "pdcp_ue_ok (pa_ue k p)" "distinct (map pu_id (pm_ue_list (pa_manager p)))"
    using g(1,2) by (auto simp: pa_ok_def pdcp_manager_ok_def pa_ue_def)
  note u = pdcp_ue_ok_add(2)[OF uok(1) ue]
  have key: "pu_id ue = pu_id (pm_ue_list (pa_manager p) ! k)" using u by (simp add: pa_ue_def)
  note tab = table_of_put[of pu_id "pm_ue_list (pa_manager p)" k ue, OF uok(2) g(2) key]
  let ?p = "pa_put_ue k ue p"
  have l: "pm_ue_list (pa_manager ?p) = (pm_ue_list (pa_manager p))[k := ue]" by (simp add: pa_put_ue_def)
  have pok: "pa_ok ?p"
    using g(1) tab(1) uok(2) u unfolding pa_ok_def pdcp_manager_ok_def l by (auto dest!: set_update_subset_insert[THEN subsetD])
  have "nr_pdcp_get_rb ue ?drb False = Some rb"
    using ue drb uok(1) by (auto simp: nr_pdcp_ue_add_drb_pdcp_entity_def nr_pdcp_get_rb_def Let_def pdcp_ue_ok_def
        MAX_DRBS_PER_UE_def split: if_splits)
  then have rb': "pdcp_drb ?p i ?drb = Some rb" using tab(2) u g(3) by (simp add: pdcp_drb_def pdcp_ue_map_def l)
  let ?s = "s\<lparr>sd_pdcp := ?p\<rparr>"
  have get: "nr_sdap_get_entity (sd_llist ?s) i ?ps = None" using ok(4) sdap_get_None[of ?s i ?ps] by simp
  obtain e where e: "sdap_init_entity gnb (is_sdap_rx gnb c) (is_sdap_tx gnb c) i ?ps True (word_of_int ?drb) [q] 1 = Inr e"
    "s' = ?s\<lparr>sd_llist := e # sd_llist s\<rparr>"
    using new get ok(3) by (auto simp: new_nr_sdap_entity_def rbind_eq_Inr Let_def)
  have "sdap_ok s'" by (rule sdap_ok_new[OF _ new]) (use ok(2) in simp)
  moreover have "sdap_map s' (i, ?ps) = Some e" using sdap_init_entity_key(1)[OF e(1)] by (simp add: e(2) sdap_map_def)
  moreover have "sd_pdcp s' = ?p" "sd_events s' = sd_events s" "sd_N3GTPUInst s' = sd_N3GTPUInst s" "sd_nos1 s' = sd_nos1 s"
    by (simp_all add: e(2))
  ultimately show ?thesis
    using sdap_init_default[OF e(1) drb cfg(5,6)] sdap_init_entity_key(5)[OF e(1)] pok rb' pcfg n rb by auto
qed

lemma up_linked_start:
  assumes "up_linked lk s r sock0 c" "start_sdap_tun_ue (lk_ri lk) (lk_ps lk) sock r = Inr r'"
  shows "up_linked lk s r' sock c \<and> sd_events r' = sd_events r \<and> sd_N3GTPUInst r' = sd_N3GTPUInst r"
proof -
  obtain e' where e': "sdap_map r (lk_ri lk, lk_ps lk) = Some e'" "sdap_ok r"
    using assms(1) by (auto simp: up_linked_def up_sides_ok_def)
  obtain k where k: "nr_sdap_get_entity (sd_llist r) (lk_ri lk) (lk_ps lk) = Some k" "sd_entity k r = e'"
    "k < length (sd_llist r)" "sdap_key e' = (lk_ri lk, lk_ps lk)" using sdap_map_get[OF e'(1)] .
  let ?e = "e'\<lparr>se_pdusession_sock := sock, se_stop_thread := False\<rparr>"
  have r': "r' = sd_put k ?e r" using assms(2) by (auto simp: start_sdap_tun_ue_def k rbind_eq_Inr)
  have ok: "sdap_entity_ok e'" "sdap_key ?e = (lk_ri lk, lk_ps lk)" "sdap_entity_ok ?e"
    using e'(2) k by (auto simp: sdap_ok_def sd_entity_def sdap_key_def sdap_entity_ok_def)
  have "sdap_ok r'" "sdap_map r' (lk_ri lk, lk_ps lk) = Some ?e"
    using sdap_put[OF e'(2) k(3), of ?e] ok k(2,4) by (simp_all add: r')
  then show ?thesis using assms(1) by (auto simp: up_linked_def up_sides_ok_def r')
qed

text \<open>The two sides after the bearer was added on both.\<close>

lemma up_linked_setup:
  assumes cfg: "da_pdcp_Config a = Some pc" "xc_drb pc = Some d" "da_cnAssociation a = Cn_Sdap (Some c)"
      "sc_mappedQoS_FlowsToAdd c = Some [q]" "0 < q" "q < 64" "sc_defaultDRB c"
    and add: "add_drb env gnb si a sp s0 = Inr s" "add_drb env' (\<not> gnb) ri a sp r0 = Inr r1"
    and fresh: "up_fresh si (sc_pdu_Session c) (da_drb_Identity a) s0" "up_fresh ri (sc_pdu_Session c) (da_drb_Identity a) r0"
    and lk: "lk = \<lparr>lk_gnb = gnb, lk_si = si, lk_ri = ri, lk_ps = sc_pdu_Session c, lk_qfi = word_of_int q,
          lk_drb = da_drb_Identity a\<rparr>"
  shows "up_linked lk s r1 (-1) 0" "sd_events r1 = sd_events r0" "sd_N3GTPUInst r1 = sd_N3GTPUInst r0"
proof -
  let ?drb = "da_drb_Identity a" and ?ps = "sc_pdu_Session c"
  obtain e tx ul n t dt where s: "sdap_ok s" "pa_ok (sd_pdcp s)" "sdap_map s (si, ?ps) = Some e"
     "pdcp_drb (sd_pdcp s) si ?drb = Some tx" "sdap_bearer e (word_of_int q) = ?drb"
     "sdap_has_header e (word_of_int q) = is_sdap_tx gnb c" "drb_pdcp_config pc d = Inr (ul, n, dt, t)" "n = 12 \<or> n = 18"
     "new_nr_pdcp_entity NR_PDCP_DRB_AM gnb ?drb ?ps (is_sdap_rx gnb c) (is_sdap_tx gnb c) n t dt (drb_security pc d sp) = Inr tx"
    using up_add_drb[OF cfg add(1) fresh(1)] by blast
  obtain e' rx ul' n' t' dt' where r: "sdap_ok r1" "pa_ok (sd_pdcp r1)" "sdap_map r1 (ri, ?ps) = Some e'"
     "pdcp_drb (sd_pdcp r1) ri ?drb = Some rx" "drb_pdcp_config pc d = Inr (ul', n', dt', t')" "se_pdusession_sock e' = -1"
     "new_nr_pdcp_entity NR_PDCP_DRB_AM (\<not> gnb) ?drb ?ps (is_sdap_rx (\<not> gnb) c) (is_sdap_tx (\<not> gnb) c) n' t' dt'
        (drb_security pc d sp) = Inr rx" "sd_events r1 = sd_events r0" "sd_N3GTPUInst r1 = sd_N3GTPUInst r0"
    using up_add_drb[OF cfg add(2) fresh(2)] by blast
  have n': "n' = n" using s(7) r(5) by simp
  have dir: "is_sdap_rx (\<not> gnb) c = is_sdap_tx gnb c" by (simp add: is_sdap_rx_def is_sdap_tx_def)
  note tx = pd_new_entity[OF s(9,8)] and rx = pd_new_entity[OF r(7)[unfolded n'] s(8)]
  have peer: "pd_peer tx rx" by (rule pd_new_peer[OF s(9) r(7)[unfolded dir n'] s(8)])
  have q: "unat (word_of_int q :: byte) < SDAP_MAX_QFI"
    using cfg(5,6) by (simp add: SDAP_MAX_QFI_def unat_eq_nat_uint nat_less_iff uint_word_of_int)
  have "up_tx_ok lk e tx" using s(5,6) tx pd_invD(1) by (simp add: up_tx_ok_def lk)
  then show "up_linked lk s r1 (-1) 0"
    unfolding up_linked_def up_sides_ok_def
    by (intro conjI exI[of _ e] exI[of _ e'] exI[of _ tx] exI[of _ rx])
      (use s r tx rx peer q in \<open>simp_all add: lk\<close>)
  show "sd_events r1 = sd_events r0" "sd_N3GTPUInst r1 = sd_N3GTPUInst r0" by (rule r)+
qed

text \<open>
  C2: End to end. A data bearer with a default QoS flow is set up on the gNB and on the UE with the same
  configuration (\<open>add_drb\<close>), whatever other UEs, sessions and bearers there are; either of the two is
  the sender. Then for every sequence of SDUs of 1 to 8999 bytes, fewer than 2 to the 32, every call on
  the sender's and the receiver's side returns, and what leaves the receiver - through the tunnel
  interface of the session on a UE, into the GTP tunnel of the session on a gNB - is the sequence of
  SDUs, unchanged and in order, with or without SDAP header, ciphering and integrity protection.
\<close>

theorem user_plane_end_to_end:
  assumes cfg: "da_pdcp_Config a = Some pc" "xc_drb pc = Some d" "da_cnAssociation a = Cn_Sdap (Some c)"
      "sc_mappedQoS_FlowsToAdd c = Some [q]" "0 < q" "q < 64" "sc_defaultDRB c"
    and add: "add_drb env gnb si a sp s0 = Inr s" "add_drb env' (\<not> gnb) ri a sp r0 = Inr r1"
    and start: "if gnb then start_sdap_tun_ue ri (sc_pdu_Session c) sock r1 = Inr r else r = r1"
    and fresh: "up_fresh si (sc_pdu_Session c) (da_drb_Identity a) s0" "up_fresh ri (sc_pdu_Session c) (da_drb_Identity a) r0"
    and env: "crypto_ok (pe_crypto env)" "pe_crypto env' = pe_crypto env" "gnb \<Longrightarrow> pe_f1_secondary_ue env si \<noteq> None"
      "\<not> gnb \<Longrightarrow> \<not> pe_use_tun env' \<and> sd_N3GTPUInst r0 = Some inst"
    and sdus: "\<forall>sdu \<in> set sdus. sdu \<noteq> [] \<and> length sdu \<le> 8999" "length sdus < 2 ^ 32"
  shows "\<exists>s' r'. up_relay env env' \<lparr>lk_gnb = gnb, lk_si = si, lk_ri = ri, lk_ps = sc_pdu_Session c, lk_qfi = word_of_int q,
            lk_drb = da_drb_Identity a\<rparr> b sdus (s, r) = Inr (s', r')
     \<and> sd_events r' = sd_events r0 @ map (\<lambda>sdu. if gnb then Tun_Write sock sdu
          else Gtpu_Send inst ri (sc_pdu_Session c) sdu) sdus"
proof -
  define lk where "lk = \<lparr>lk_gnb = gnb, lk_si = si, lk_ri = ri, lk_ps = sc_pdu_Session c, lk_qfi = word_of_int q,
      lk_drb = da_drb_Identity a\<rparr>"
  note linked = up_linked_setup[OF cfg add fresh lk_def]
  have lk': "up_linked lk s r (if gnb then sock else -1) 0" "sd_events r = sd_events r0" "sd_N3GTPUInst r = sd_N3GTPUInst r0"
    using linked up_linked_start[OF linked(1), of sock r] start by (cases gnb; auto simp: lk_def)+
  have envok: "up_env_ok lk env env'" using env by (simp add: up_env_ok_def lk_def)
  have inst: "\<not> lk_gnb lk \<longrightarrow> sd_N3GTPUInst r = Some inst" using env(4) lk'(3) by (simp add: lk_def)
  have len: "uint (0 :: u32) + int (length sdus) < 2 ^ 32" using sdus(2) by simp
  show ?thesis
    using up_run[OF envok lk'(1) sdus(1) len inst, of b] lk'(2)
    by (auto simp: lk_def lk_event_def cong: if_cong)
qed

text \<open>An empty side, and a bearer with ciphering, integrity protection and SDAP headers.\<close>

definition up_empty :: "int option \<Rightarrow> user_plane" where
  "up_empty inst = \<lparr>sd_llist = [], sd_N3GTPUInst = inst, sd_nos1 = False, sd_default_pdu_session_id = 1, sd_events = [],
     sd_pdcp = \<lparr>pa_manager = new_nr_pdcp_ue_manager 1, pa_events = []\<rparr>\<rparr>"

definition up_example_sdap :: nr_sdap_config where
  "up_example_sdap = \<lparr>sc_pdu_Session = 10, sc_sdap_HeaderDL_present = True, sc_sdap_HeaderUL_present = True,
     sc_defaultDRB = True, sc_mappedQoS_FlowsToAdd = Some [9], sc_mappedQoS_FlowsToRelease = None\<rparr>"

definition up_example_drb :: nr_pdcp_config_drb where
  "up_example_drb = \<lparr>xd_discardTimer = Some 7, xd_pdcp_SN_SizeUL = Some 1, xd_pdcp_SN_SizeDL = Some 1,
     xd_integrityProtection = True\<rparr>"

definition up_example_pdcp :: nr_pdcp_config where
  "up_example_pdcp = \<lparr>xc_t_Reordering = Some 10, xc_drb = Some up_example_drb, xc_cipheringDisabled = False\<rparr>"

definition up_example :: nr_drb_to_add_mod where
  "up_example = \<lparr>da_drb_Identity = 1, da_pdcp_Config = Some up_example_pdcp, da_cnAssociation = Cn_Sdap (Some up_example_sdap)\<rparr>"

definition up_example_keys :: security_params where
  "up_example_keys = \<lparr>sp_integrity_algorithm = 2, sp_ciphering_algorithm = 2, sp_integrity_key = [9], sp_ciphering_key = [7]\<rparr>"

definition up_example_env :: pdcp_env where
  "up_example_env = \<lparr>pe_crypto = xor_crypto, pe_node_is_cu = False, pe_use_tun = False, pe_CUuniqInstance = 0,
     pe_f1_secondary_ue = Some, pe_tun_alloc = 3\<rparr>"

lemma up_empty_fresh: "up_fresh i ps drb (up_empty inst)"
  by (simp add: up_fresh_def up_empty_def sdap_ok_def pa_ok_def pdcp_manager_ok_def sdap_map_def pdcp_drb_def pdcp_ue_map_def
      new_nr_pdcp_ue_manager_def)

lemma up_example_added: "\<exists>s. add_drb env gnb i up_example up_example_keys (up_empty inst) = Inr s"
proof -
  have q: "pa_get_ue i (sd_pdcp (up_empty inst)) = (0, \<lparr>pa_manager = (new_nr_pdcp_ue_manager 1)\<lparr>pm_ue_list := [new_pdcp_ue i]\<rparr>,
      pa_events = []\<rparr>)"
    by (simp add: pa_get_ue_def nr_pdcp_manager_get_ue_def up_empty_def new_nr_pdcp_ue_manager_def)
  have p: "drb_pdcp_config up_example_pdcp up_example_drb = Inr (18, 18, 100, 40)"
    by (simp add: drb_pdcp_config_def c_deref_def decode_sn_size_ul_def decode_sn_size_dl_def decode_discard_timer_def
        decode_t_reordering_def up_example_drb_def up_example_pdcp_def)
  have c: "drb_sdap_config gnb (da_cnAssociation up_example) = Inr (10, True, True, True, [9], 1)"
    by (simp add: drb_sdap_config_def up_example_def up_example_sdap_def asn1_array0_def is_sdap_rx_def is_sdap_tx_def)
  have e: "\<exists>e. new_nr_pdcp_entity NR_PDCP_DRB_AM gnb 1 10 True True 18 40 100
      (drb_security up_example_pdcp up_example_drb up_example_keys) = Inr e"
    by (simp add: new_nr_pdcp_entity_def nr_pdcp_entity_set_security_def pd_set_integrity_def pd_set_ciphering_def
        drb_security_def up_example_keys_def up_example_pdcp_def up_example_drb_def)
  have a: "da_pdcp_Config up_example = Some up_example_pdcp" "xc_drb up_example_pdcp = Some up_example_drb"
    "da_drb_Identity up_example = 1" by (simp_all add: up_example_def up_example_pdcp_def)
  have u: "nr_pdcp_get_rb (new_pdcp_ue i) 1 False = None"
    "\<exists>ue. nr_pdcp_ue_add_drb_pdcp_entity (new_pdcp_ue i) 1 en = Inr ue" for en
    by (simp_all add: nr_pdcp_get_rb_def new_pdcp_ue_def MAX_DRBS_PER_UE_def nr_pdcp_ue_add_drb_pdcp_entity_def)
  have n: "\<exists>s'. new_nr_sdap_entity pdcp tun gnb True True i 10 True 1 [9] 1 ((up_empty inst)\<lparr>sd_pdcp := p\<rparr>) = Inr s'" for pdcp tun p
    by (simp add: new_nr_sdap_entity_def nr_sdap_get_entity_def up_empty_def sdap_init_entity_def Let_def)
  obtain en where en: "new_nr_pdcp_entity NR_PDCP_DRB_AM gnb 1 10 True True 18 40 100
      (drb_security up_example_pdcp up_example_drb up_example_keys) = Inr en" using e by blast
  obtain ue where ue: "nr_pdcp_ue_add_drb_pdcp_entity (new_pdcp_ue i) 1 en = Inr ue" using u(2) by blast
  show ?thesis
    using n by (simp add: add_drb_def a p c q pa_ue_def u(1) en ue Let_def)
qed

theorem user_plane_end_to_end_witness:
  "\<exists>s r r1 s' r'. add_drb up_example_env True 4 up_example up_example_keys (up_empty (Some 1)) = Inr s
     \<and> add_drb up_example_env False 5 up_example up_example_keys (up_empty None) = Inr r
     \<and> start_sdap_tun_ue 5 10 33 r = Inr r1
     \<and> up_relay up_example_env up_example_env
         \<lparr>lk_gnb = True, lk_si = 4, lk_ri = 5, lk_ps = 10, lk_qfi = 9, lk_drb = 1\<rparr> False [[1, 2], [3]] (s, r1) = Inr (s', r')
     \<and> sd_events r' = [Tun_Write 33 [1, 2], Tun_Write 33 [3]]"
proof -
  obtain s r where add: "add_drb up_example_env True 4 up_example up_example_keys (up_empty (Some 1)) = Inr s"
    "add_drb up_example_env (\<not> True) 5 up_example up_example_keys (up_empty None) = Inr r"
    using up_example_added by blast
  have cfg: "da_pdcp_Config up_example = Some up_example_pdcp" "xc_drb up_example_pdcp = Some up_example_drb"
    "da_cnAssociation up_example = Cn_Sdap (Some up_example_sdap)" "sc_mappedQoS_FlowsToAdd up_example_sdap = Some [9]"
    "sc_defaultDRB up_example_sdap" and ps: "sc_pdu_Session up_example_sdap = 10" and drb: "da_drb_Identity up_example = 1"
    by (simp_all add: up_example_def up_example_pdcp_def up_example_sdap_def)
  obtain e where e: "sdap_map r (5, 10) = Some e" "\<not> se_is_gnb e"
    using up_add_drb[OF cfg(1-4) _ _ cfg(5) add(2) up_empty_fresh] ps by auto
  obtain k where "nr_sdap_get_entity (sd_llist r) 5 10 = Some k" "sd_entity k r = e" using sdap_map_get[OF e(1)] .
  then obtain r1 where st: "start_sdap_tun_ue 5 10 33 r = Inr r1" using e(2) by (simp add: start_sdap_tun_ue_def)
  have env: "crypto_ok (pe_crypto up_example_env)" "pe_f1_secondary_ue up_example_env 4 \<noteq> None"
    by (simp_all add: up_example_env_def xor_crypto_ok)
  have ev0: "sd_events (up_empty None) = []" by (simp add: up_empty_def)
  have "\<exists>s' r'. up_relay up_example_env up_example_env
         \<lparr>lk_gnb = True, lk_si = 4, lk_ri = 5, lk_ps = sc_pdu_Session up_example_sdap, lk_qfi = word_of_int 9,
          lk_drb = da_drb_Identity up_example\<rparr> False [[1, 2], [3]] (s, r1) = Inr (s', r')
     \<and> sd_events r' = sd_events (up_empty None) @ map (\<lambda>sdu. if True then Tun_Write 33 sdu
          else Gtpu_Send 0 5 (sc_pdu_Session up_example_sdap) sdu) [[1, 2], [3]]"
    by (rule user_plane_end_to_end[OF cfg(1-4) _ _ cfg(5) add _ up_empty_fresh up_empty_fresh env(1)])
      (use st env ps in simp_all)
  then show ?thesis using add st by (auto simp: ps drb ev0)
qed

end
