(* ===== verification/E1_Handler.thy ===== *)
theory E1_Handler
  imports F1_Ids User_Plane
begin

text \<open>
  \<open>nr_pdcp/cucp_cuup_handler.c\<close> and the interface \<open>cuup_cucp_if.c\<close>, \<open>cuup_cucp_direct.c\<close>,
  \<open>cuup_cucp_e1ap.c\<close>: the CU-UP side of E1. It answers the requests for bearer contexts by creating,
  changing and removing the PDCP and SDAP entities, the GTP tunnels and the F1 data of a UE.

  Of a message the fields the handler reads or writes are modelled; an array with its count is the list of
  its used elements. The calls of GTP, a C++ module, and the messages sent to other tasks are events. What
  GTP answers when a tunnel is created is a parameter, a function of the events so far and of the request.
\<close>

section \<open>Messages\<close>

record up_tl_information =
  tl_tlAddress :: u32
  tl_teId :: u32

record bearer_context_sdap_config =
  bs_defaultDRB :: int
  bs_sDAP_Header_UL :: int
  bs_sDAP_Header_DL :: int

record bearer_context_pdcp_config =
  bp_pDCP_SN_Size_UL :: int
  bp_pDCP_SN_Size_DL :: int
  bp_reorderingTimer :: int
  bp_discardTimer :: int
  bp_pDCP_Reestablishment :: bool

text \<open>Of a QoS flow only its identifier is used.\<close>

record drb_ngran_to_setup =
  ds_id :: int
  ds_sdap_config :: bearer_context_sdap_config
  ds_pdcp_config :: bearer_context_pdcp_config
  ds_qosFlows :: "int list"

record drb_ngran_to_mod =
  dm_id :: int
  dm_pdcp_config :: "bearer_context_pdcp_config option"
  dm_DlUpParamList :: "up_tl_information list"

datatype e1ap_indication = SECURITY_REQUIRED | SECURITY_PREFERRED | SECURITY_NOT_NEEDED

record security_indication =
  sx_integrityProtectionIndication :: e1ap_indication
  sx_confidentialityProtectionIndication :: e1ap_indication

record security_information =
  si_cipheringAlgorithm :: u64
  si_integrityProtectionAlgorithm :: u64
  si_encryptionKey :: "byte list"
  si_integrityProtectionKey :: "byte list"

record pdu_session_to_setup =
  ss_sessionId :: int
  ss_securityIndication :: security_indication
  ss_UP_TL_information :: up_tl_information
  ss_DRBnGRanList :: "drb_ngran_to_setup list"

record pdu_session_to_mod =
  sm_sessionId :: int
  sm_DRBnGRanModList :: "drb_ngran_to_mod list"

record e1ap_bearer_setup_req =
  rq_gNB_cu_cp_ue_id :: u32
  rq_secInfo :: security_information
  rq_pduSession :: "pdu_session_to_setup list"

record e1ap_bearer_mod_req =
  mq_gNB_cu_cp_ue_id :: u32
  mq_gNB_cu_up_ue_id :: u32
  mq_secInfo :: "security_information option"
  mq_pduSessionMod :: "pdu_session_to_mod list"

record e1ap_bearer_release_cmd =
  rc_gNB_cu_cp_ue_id :: u32
  rc_gNB_cu_up_ue_id :: u32

record drb_ngran_setup =
  dt_id :: int
  dt_UpParamList :: "up_tl_information list"
  dt_qosFlows :: "int list"

record pdu_session_setup =
  st_id :: int
  st_tl_info :: up_tl_information
  st_DRBnGRanList :: "drb_ngran_setup list"
  st_numDRBFailed :: int

record e1ap_bearer_setup_resp =
  rs_gNB_cu_cp_ue_id :: u32
  rs_gNB_cu_up_ue_id :: u32
  rs_pduSession :: "pdu_session_setup list"

text \<open>Of a modified session the identifier and those of its bearers are answered.\<close>

record pdu_session_modif =
  mt_id :: int
  mt_DRBnGRanModList :: "int list"

record e1ap_bearer_modif_resp =
  ms_gNB_cu_cp_ue_id :: u32
  ms_gNB_cu_up_ue_id :: u32
  ms_pduSessionMod :: "pdu_session_modif list"

record e1ap_bearer_release_cplt =
  cp_gNB_cu_cp_ue_id :: u32
  cp_gNB_cu_up_ue_id :: u32

section \<open>GTP and the tasks\<close>

record gtpv1u_gnb_create_tunnel_req =
  gq_ue_id :: u64
  gq_incoming_rb_id :: byte
  gq_pdusession_id :: byte
  gq_dst_addr :: u32
  gq_outgoing_teid :: u32
  gq_outgoing_qfi :: int

record gtpv1u_gnb_create_tunnel_resp =
  gr_num_tunnels :: int
  gr_gnb_NGu_teid :: u32
  gr_gnb_addr :: u32

datatype gtp_callback = Cb_Nr_Pdcp_Data_Req_Drb | Cb_Cu_F1u_Data_Req

datatype itti_task = TASK_MAC_GNB | TASK_RRC_GNB | TASK_CUUP_E1

datatype e1_message =
    E1AP_BEARER_CONTEXT_SETUP_RESP e1ap_bearer_setup_resp
  | E1AP_BEARER_CONTEXT_MODIFICATION_RESP e1ap_bearer_modif_resp
  | E1AP_BEARER_CONTEXT_RELEASE_CPLT e1ap_bearer_release_cplt

datatype e1_event =
    Create_Ngu_Tunnel int gtpv1u_gnb_create_tunnel_req gtp_callback bool
  | Update_Tunnel_Outgoing int u64 byte u32 u32
  | Delete_All_Tunnels int u64
  | Itti_Send itti_task itti_task e1_message

text \<open>The function pointers, null at first.\<close>

record e1_if =
  ei_bearer_setup_response :: "(e1ap_bearer_setup_resp \<Rightarrow> e1_event) option"
  ei_bearer_modif_response :: "(e1ap_bearer_modif_resp \<Rightarrow> e1_event) option"
  ei_bearer_release_complete :: "(e1ap_bearer_release_cplt \<Rightarrow> e1_event) option"

record e1_state =
  es_up :: user_plane
  es_ids :: f1_ids
  es_if :: e1_if
  es_uses_e1 :: bool
  es_events :: "e1_event list"

text \<open>
  What does not change: the environment of PDCP, the GTP instances of the E1 and F1 contexts, when there
  are such contexts, and the answers of \<open>gtpv1u_create_ngu_tunnel\<close>.
\<close>

record e1_env =
  ee_pdcp :: pdcp_env
  ee_gtpInstN3 :: "int option"
  ee_gtpInstF1 :: "int option"
  ee_create_ngu_tunnel ::
    "e1_event list \<Rightarrow> int \<Rightarrow> gtpv1u_gnb_create_tunnel_req \<Rightarrow> int \<times> gtpv1u_gnb_create_tunnel_resp"

definition es_event :: "e1_event \<Rightarrow> e1_state \<Rightarrow> e1_state" where
  "es_event ev s = s\<lparr>es_events := es_events s @ [ev]\<rparr>"

definition c_int :: "int \<Rightarrow> int" where
  "c_int v = sint (word_of_int v :: 32 word)"

text \<open>The environment PDCP has in a state: \<open>cu_get_f1_ue_data\<close> answers from the table.\<close>

definition e1_secondary_ue :: "f1_ids \<Rightarrow> u64 \<Rightarrow> u64 option" where
  "e1_secondary_ue ids i =
     (case cu_get_f1_ue_data (ucast i) ids of Inl e \<Rightarrow> None | Inr d \<Rightarrow> Some (ucast (fd_secondary_ue d)))"

definition e1_pdcp_env :: "e1_env \<Rightarrow> e1_state \<Rightarrow> pdcp_env" where
  "e1_pdcp_env env s = (ee_pdcp env)\<lparr>pe_f1_secondary_ue := e1_secondary_ue (es_ids s)\<rparr>"

definition bearer_setup_response_direct :: "e1ap_bearer_setup_resp \<Rightarrow> e1_event" where
  "bearer_setup_response_direct resp = Itti_Send TASK_MAC_GNB TASK_RRC_GNB (E1AP_BEARER_CONTEXT_SETUP_RESP resp)"

definition bearer_modif_response_direct :: "e1ap_bearer_modif_resp \<Rightarrow> e1_event" where
  "bearer_modif_response_direct resp = Itti_Send TASK_MAC_GNB TASK_RRC_GNB (E1AP_BEARER_CONTEXT_MODIFICATION_RESP resp)"

definition bearer_release_complete_direct :: "e1ap_bearer_release_cplt \<Rightarrow> e1_event" where
  "bearer_release_complete_direct cplt = Itti_Send TASK_MAC_GNB TASK_RRC_GNB (E1AP_BEARER_CONTEXT_RELEASE_CPLT cplt)"

definition cuup_cucp_init_direct :: e1_if where
  "cuup_cucp_init_direct =
     \<lparr>ei_bearer_setup_response = Some bearer_setup_response_direct,
      ei_bearer_modif_response = Some bearer_modif_response_direct,
      ei_bearer_release_complete = Some bearer_release_complete_direct\<rparr>"

definition bearer_setup_response_e1ap :: "e1ap_bearer_setup_resp \<Rightarrow> e1_event" where
  "bearer_setup_response_e1ap resp = Itti_Send TASK_CUUP_E1 TASK_CUUP_E1 (E1AP_BEARER_CONTEXT_SETUP_RESP resp)"

definition bearer_modif_response_e1ap :: "e1ap_bearer_modif_resp \<Rightarrow> e1_event" where
  "bearer_modif_response_e1ap resp = Itti_Send TASK_CUUP_E1 TASK_CUUP_E1 (E1AP_BEARER_CONTEXT_MODIFICATION_RESP resp)"

definition bearer_release_complete_e1ap :: "e1ap_bearer_release_cplt \<Rightarrow> e1_event" where
  "bearer_release_complete_e1ap cplt = Itti_Send TASK_CUUP_E1 TASK_CUUP_E1 (E1AP_BEARER_CONTEXT_RELEASE_CPLT cplt)"

definition cuup_cucp_init_e1ap :: e1_if where
  "cuup_cucp_init_e1ap =
     \<lparr>ei_bearer_setup_response = Some bearer_setup_response_e1ap,
      ei_bearer_modif_response = Some bearer_modif_response_e1ap,
      ei_bearer_release_complete = Some bearer_release_complete_e1ap\<rparr>"

definition nr_pdcp_e1_if_init :: "bool \<Rightarrow> e1_state \<Rightarrow> e1_state" where
  "nr_pdcp_e1_if_init uses_e1 s =
     s\<lparr>es_uses_e1 := uses_e1, es_if := if uses_e1 then cuup_cucp_init_e1ap else cuup_cucp_init_direct\<rparr>"

text \<open>A call through one of the pointers.\<close>

definition e1_send :: "('r \<Rightarrow> e1_event) option \<Rightarrow> 'r \<Rightarrow> e1_state \<Rightarrow> e1_state res" where
  "e1_send f r s = rbind (c_deref f) (\<lambda>g. Inr (es_event (g r) s))"

definition get_n3_gtp_instance :: "e1_env \<Rightarrow> int res" where
  "get_n3_gtp_instance env = (case ee_gtpInstN3 env of None \<Rightarrow> Inl Assert_failed | Some i \<Rightarrow> Inr i)"

definition get_f1_gtp_instance :: "e1_env \<Rightarrow> int" where
  "get_f1_gtp_instance env = (case ee_gtpInstF1 env of None \<Rightarrow> -1 | Some i \<Rightarrow> i)"

definition drb_gtpu_create ::
  "e1_env \<Rightarrow> int \<Rightarrow> u32 \<Rightarrow> int \<Rightarrow> int \<Rightarrow> int \<Rightarrow> u32 \<Rightarrow> u32 \<Rightarrow> gtp_callback \<Rightarrow> bool \<Rightarrow> e1_state
   \<Rightarrow> (int \<times> gtpv1u_gnb_create_tunnel_resp) \<times> e1_state" where
  "drb_gtpu_create env instance ueid incoming_id outgoing_id qfi tlAddress outgoing_teid callBack sdap s =
     (let req = \<lparr>gq_ue_id = ucast ueid, gq_incoming_rb_id = word_of_int incoming_id,
                 gq_pdusession_id = word_of_int outgoing_id, gq_dst_addr = tlAddress,
                 gq_outgoing_teid = outgoing_teid, gq_outgoing_qfi = qfi\<rparr>
      in (ee_create_ngu_tunnel env (es_events s) instance req, es_event (Create_Ngu_Tunnel instance req callBack sdap) s))"

section \<open>Setup\<close>

definition drb_config_e1 :: "pdu_session_to_setup \<Rightarrow> drb_ngran_to_setup \<Rightarrow> nr_drb_to_add_mod" where
  "drb_config_e1 pdu drb =
     (let sec = ss_securityIndication pdu; sdap = ds_sdap_config drb; pdcp = ds_pdcp_config drb
      in \<lparr>da_drb_Identity = ds_id drb,
          da_pdcp_Config = Some
            \<lparr>xc_t_Reordering = Some (bp_reorderingTimer pdcp),
             xc_drb = Some
               \<lparr>xd_discardTimer = Some (bp_discardTimer pdcp),
                xd_pdcp_SN_SizeUL = Some (bp_pDCP_SN_Size_UL pdcp),
                xd_pdcp_SN_SizeDL = Some (bp_pDCP_SN_Size_DL pdcp),
                xd_integrityProtection = sx_integrityProtectionIndication sec = SECURITY_REQUIRED
                  \<or> sx_integrityProtectionIndication sec = SECURITY_PREFERRED\<rparr>,
             xc_cipheringDisabled = sx_confidentialityProtectionIndication sec = SECURITY_NOT_NEEDED\<rparr>,
          da_cnAssociation = Cn_Sdap (Some
            \<lparr>sc_pdu_Session = ss_sessionId pdu,
             sc_sdap_HeaderDL_present = bs_sDAP_Header_DL sdap = 0,
             sc_sdap_HeaderUL_present = bs_sDAP_Header_UL sdap = 0,
             sc_defaultDRB = c_int (bs_defaultDRB sdap) = 1,
             sc_mappedQoS_FlowsToAdd = Some (ds_qosFlows drb),
             sc_mappedQoS_FlowsToRelease = None\<rparr>)\<rparr>)"

definition fill_DRB_configList_e1 :: "pdu_session_to_setup \<Rightarrow> nr_drb_to_add_mod list" where
  "fill_DRB_configList_e1 pdu = map (drb_config_e1 pdu) (ss_DRBnGRanList pdu)"

definition e1_security :: "security_information \<Rightarrow> security_params" where
  "e1_security sec =
     \<lparr>sp_integrity_algorithm = sint (ucast (si_integrityProtectionAlgorithm sec) :: 32 word),
      sp_ciphering_algorithm = sint (ucast (si_cipheringAlgorithm sec) :: 32 word),
      sp_integrity_key = si_integrityProtectionKey sec, sp_ciphering_key = si_encryptionKey sec\<rparr>"

text \<open>One session of \<open>e1_bearer_context_setup\<close>: tunnel to the core, bearer, and tunnel to the DU.\<close>

definition e1_setup_f1u :: "e1_env \<Rightarrow> u32 \<Rightarrow> drb_ngran_to_setup \<Rightarrow> e1_state \<Rightarrow> (up_tl_information list \<times> e1_state) res" where
  "e1_setup_f1u env ueid drb s =
     (let f1inst = get_f1_gtp_instance env
      in if 0 \<le> f1inst then
           case drb_gtpu_create env f1inst ueid (c_int (ds_id drb)) (c_int (ds_id drb)) (-1) 0 0xffff
                  Cb_Cu_F1u_Data_Req False s of ((ret, resp), s1) \<Rightarrow>
             rbind (rcheck (0 \<le> ret) Assert_failed) (\<lambda>_.
             Inr ([\<lparr>tl_tlAddress = gr_gnb_addr resp, tl_teId = gr_gnb_NGu_teid resp\<rparr>], s1))
         else Inr ([], s))"

definition e1_setup_session ::
  "e1_env \<Rightarrow> e1ap_bearer_setup_req \<Rightarrow> int \<Rightarrow> pdu_session_to_setup \<Rightarrow> e1_state \<Rightarrow> (pdu_session_setup \<times> e1_state) res" where
  "e1_setup_session env req n3inst pdu s =
     (let ueid = rq_gNB_cu_cp_ue_id req; drb = hd (ss_DRBnGRanList pdu)
      in rbind (rcheck (length (ss_DRBnGRanList pdu) = 1) Assert_failed) (\<lambda>_.
         rbind (rcheck (length (ds_qosFlows drb) = 1) Assert_failed) (\<lambda>_.
         case drb_gtpu_create env n3inst ueid (c_int (ds_id drb)) (c_int (ss_sessionId pdu)) (c_int (hd (ds_qosFlows drb)))
                (tl_tlAddress (ss_UP_TL_information pdu)) (tl_teId (ss_UP_TL_information pdu))
                Cb_Nr_Pdcp_Data_Req_Drb True s of ((ret, resp), s1) \<Rightarrow>
           rbind (rcheck (0 \<le> ret) Assert_failed) (\<lambda>_.
           rbind (rcheck (gr_num_tunnels resp = 1) Assert_failed) (\<lambda>_.
           rbind (nr_pdcp_add_drbs (e1_pdcp_env env s1) True (ucast ueid) (fill_DRB_configList_e1 pdu)
                    (e1_security (rq_secInfo req)) (es_up s1)) (\<lambda>up.
           rbind (e1_setup_f1u env ueid drb (s1\<lparr>es_up := up\<rparr>)) (\<lambda>(f1u, s2).
           Inr (\<lparr>st_id = ss_sessionId pdu,
                 st_tl_info = \<lparr>tl_tlAddress = gr_gnb_addr resp, tl_teId = gr_gnb_NGu_teid resp\<rparr>,
                 st_DRBnGRanList = [\<lparr>dt_id = ds_id drb, dt_UpParamList = f1u, dt_qosFlows = ds_qosFlows drb\<rparr>],
                 st_numDRBFailed = 0\<rparr>, s2))))))))"

fun e1_setup_sessions ::
  "e1_env \<Rightarrow> e1ap_bearer_setup_req \<Rightarrow> int \<Rightarrow> pdu_session_to_setup list \<Rightarrow> e1_state
   \<Rightarrow> (pdu_session_setup list \<times> e1_state) res" where
  "e1_setup_sessions env req n3inst [] s = Inr ([], s)"
| "e1_setup_sessions env req n3inst (pdu # pdus) s =
     rbind (e1_setup_session env req n3inst pdu s) (\<lambda>(r, s1).
     rbind (e1_setup_sessions env req n3inst pdus s1) (\<lambda>(rs, s2). Inr (r # rs, s2)))"

definition e1_mirror_ue :: "u32 \<Rightarrow> e1_state \<Rightarrow> e1_state res" where
  "e1_mirror_ue ueid s =
     (if es_uses_e1 s then
        rbind (cu_exists_f1_ue_data ueid (es_ids s)) (\<lambda>b.
        if b then Inr s
        else rbind (cu_add_f1_ue_data ueid \<lparr>fd_secondary_ue = ueid, fd_e1_assoc_id = 0, fd_du_assoc_id = 0\<rparr> (es_ids s))
               (\<lambda>(success, ids). rbind (rcheck success Assert_failed) (\<lambda>_. Inr (s\<lparr>es_ids := ids\<rparr>))))
      else Inr s)"

definition e1_bearer_context_setup :: "e1_env \<Rightarrow> e1ap_bearer_setup_req \<Rightarrow> e1_state \<Rightarrow> e1_state res" where
  "e1_bearer_context_setup env req s =
     rbind (e1_mirror_ue (rq_gNB_cu_cp_ue_id req) s) (\<lambda>s1.
     rbind (get_n3_gtp_instance env) (\<lambda>n3inst.
     rbind (e1_setup_sessions env req n3inst (rq_pduSession req) s1) (\<lambda>(pdus, s2).
     e1_send (ei_bearer_setup_response (es_if s2))
       \<lparr>rs_gNB_cu_cp_ue_id = rq_gNB_cu_cp_ue_id req, rs_gNB_cu_up_ue_id = rq_gNB_cu_cp_ue_id req, rs_pduSession = pdus\<rparr> s2)))"

section \<open>Modification\<close>

text \<open>Without new security information the algorithms are -1, and the keys, which are not set, are not read.\<close>

definition e1_mod_security :: "security_information option \<Rightarrow> security_params" where
  "e1_mod_security sec =
     (case sec of
        Some i \<Rightarrow> e1_security i
      | None \<Rightarrow> \<lparr>sp_integrity_algorithm = -1, sp_ciphering_algorithm = -1, sp_integrity_key = [], sp_ciphering_key = []\<rparr>)"

definition e1_mod_drb :: "e1_env \<Rightarrow> e1ap_bearer_mod_req \<Rightarrow> drb_ngran_to_mod \<Rightarrow> e1_state \<Rightarrow> e1_state res" where
  "e1_mod_drb env req d s =
     rbind (case dm_pdcp_config d of
              Some c \<Rightarrow>
                if bp_pDCP_Reestablishment c then
                  rbind (nr_pdcp_reestablishment (e1_pdcp_env env s) (ucast (mq_gNB_cu_up_ue_id req)) (c_int (dm_id d)) False
                           (e1_mod_security (mq_secInfo req)) (es_up s)) (\<lambda>up. Inr (s\<lparr>es_up := up\<rparr>))
                else Inr s
            | None \<Rightarrow> Inr s) (\<lambda>s1.
     let f1inst = get_f1_gtp_instance env
     in Inr (if f1inst < 0 then s1
             else s1\<lparr>es_events := es_events s1 @ map (\<lambda>t. Update_Tunnel_Outgoing f1inst (ucast (mq_gNB_cu_cp_ue_id req))
                       (word_of_int (dm_id d)) (tl_tlAddress t) (tl_teId t)) (dm_DlUpParamList d)\<rparr>))"

fun e1_mod_drbs :: "e1_env \<Rightarrow> e1ap_bearer_mod_req \<Rightarrow> drb_ngran_to_mod list \<Rightarrow> e1_state \<Rightarrow> e1_state res" where
  "e1_mod_drbs env req [] s = Inr s"
| "e1_mod_drbs env req (d # ds) s = rbind (e1_mod_drb env req d s) (e1_mod_drbs env req ds)"

fun e1_mod_sessions :: "e1_env \<Rightarrow> e1ap_bearer_mod_req \<Rightarrow> pdu_session_to_mod list \<Rightarrow> e1_state \<Rightarrow> e1_state res" where
  "e1_mod_sessions env req [] s = Inr s"
| "e1_mod_sessions env req (pdu # pdus) s =
     rbind (rcheck (0 < sm_sessionId pdu) Assert_failed) (\<lambda>_.
     rbind (e1_mod_drbs env req (sm_DRBnGRanModList pdu) s) (e1_mod_sessions env req pdus))"

definition e1_bearer_context_modif :: "e1_env \<Rightarrow> e1ap_bearer_mod_req \<Rightarrow> e1_state \<Rightarrow> e1_state res" where
  "e1_bearer_context_modif env req s =
     rbind (rcheck (mq_pduSessionMod req \<noteq> []) Assert_failed) (\<lambda>_.
     rbind (e1_mod_sessions env req (mq_pduSessionMod req) s) (\<lambda>s1.
     e1_send (ei_bearer_modif_response (es_if s1))
       \<lparr>ms_gNB_cu_cp_ue_id = mq_gNB_cu_cp_ue_id req, ms_gNB_cu_up_ue_id = mq_gNB_cu_up_ue_id req,
        ms_pduSessionMod = map (\<lambda>pdu. \<lparr>mt_id = sm_sessionId pdu, mt_DRBnGRanModList = map dm_id (sm_DRBnGRanModList pdu)\<rparr>)
                             (mq_pduSessionMod req)\<rparr> s1))"

section \<open>Release and reset\<close>

definition remove_ue_e1 :: "e1_env \<Rightarrow> u32 \<Rightarrow> e1_state \<Rightarrow> e1_state res" where
  "remove_ue_e1 env ueid s =
     rbind (get_n3_gtp_instance env) (\<lambda>n3inst.
     let f1inst = get_f1_gtp_instance env;
         s1 = es_event (Delete_All_Tunnels n3inst (ucast ueid)) s;
         s2 = (if 0 \<le> f1inst then es_event (Delete_All_Tunnels f1inst (ucast ueid)) s1 else s1)
     in rbind (if es_uses_e1 s2 then
                 rbind (cu_remove_f1_ue_data ueid (es_ids s2)) (\<lambda>(b, ids).
                 Inr (s2\<lparr>es_up := nr_pdcp_remove_UE (ucast ueid) (es_up s2), es_ids := ids\<rparr>))
               else Inr s2) (\<lambda>s3.
        Inr (s3\<lparr>es_up := snd (nr_sdap_delete_ue_entities (ucast ueid) (es_up s3))\<rparr>)))"

definition e1_bearer_release_cmd :: "e1_env \<Rightarrow> e1ap_bearer_release_cmd \<Rightarrow> e1_state \<Rightarrow> e1_state res" where
  "e1_bearer_release_cmd env cmd s =
     rbind (remove_ue_e1 env (rc_gNB_cu_up_ue_id cmd) s) (\<lambda>s1.
     e1_send (ei_bearer_release_complete (es_if s1))
       \<lparr>cp_gNB_cu_cp_ue_id = rc_gNB_cu_cp_ue_id cmd, cp_gNB_cu_up_ue_id = rc_gNB_cu_up_ue_id cmd\<rparr> s1)"

definition MAX_MOBILES_PER_GNB :: int where
  "MAX_MOBILES_PER_GNB = 16"

text \<open>The loop reads as many elements as there are UEs, whatever the size of the array.\<close>

fun e1_reset_loop :: "e1_env \<Rightarrow> u64 list \<Rightarrow> nat list \<Rightarrow> e1_state \<Rightarrow> e1_state res" where
  "e1_reset_loop env ue_ids [] s = Inr s"
| "e1_reset_loop env ue_ids (i # is) s =
     (if i < length ue_ids then rbind (remove_ue_e1 env (ucast (ue_ids ! i)) s) (e1_reset_loop env ue_ids is)
      else Inl Out_of_bounds)"

definition e1_reset :: "e1_env \<Rightarrow> e1_state \<Rightarrow> e1_state res" where
  "e1_reset env s =
     (case nr_pdcp_get_num_ues MAX_MOBILES_PER_GNB (sd_pdcp (es_up s)) of (num, ue_ids) \<Rightarrow>
        e1_reset_loop env ue_ids [0..<nat num] s)"

end
