(* ===== verification/E1_Bearers.thy ===== *)
theory E1_Bearers
  imports E1_Handler
begin

text \<open>
  What the E1 handler promises: in every run of its messages and of the data path the UEs of PDCP, SDAP and
  F1 belong together; a release takes exactly one UE away, a reset all of them.
\<close>

section \<open>The UEs of the layers\<close>

definition pa_ids :: "pdcp_api \<Rightarrow> u64 list" where
  "pa_ids p = map pu_id (pm_ue_list (pa_manager p))"

definition pa_add :: "u64 \<Rightarrow> u64 list \<Rightarrow> u64 list" where
  "pa_add i l = (if i \<in> set l then l else l @ [i])"

lemma pa_add_simps [simp]:
  "set (pa_add i l) = insert i (set l)" "distinct (pa_add i l) = distinct l" "length l \<le> length (pa_add i l)"
  by (auto simp: pa_add_def)

lemma pa_ids_put_ue: "pu_id ue = pu_id (pa_ue k p) \<Longrightarrow> pa_ids (pa_put_ue k ue p) = pa_ids p"
  by (cases "k < length (pm_ue_list (pa_manager p))")
    (simp_all add: pa_ids_def pa_put_ue_def pa_ue_def map_update list_update_same_conv list_update_beyond)

lemma pa_ids_put_rb [simp]: "pa_ids (pa_put_rb k b f rb p) = pa_ids p"
  by (simp add: pa_put_rb_def pa_ids_put_ue pu_set_rb_def)

lemma pa_ids_event [simp]: "pa_ids (pa_event ev p) = pa_ids p"
  by (simp add: pa_ids_def pa_event_def)

lemma pa_get_ue_ids:
  assumes "pa_get_ue i p = (k, p1)"
  shows "pa_ids p1 = pa_add i (pa_ids p)" "k < length (pm_ue_list (pa_manager p1))" "pu_id (pa_ue k p1) = i"
proof -
  let ?l = "pm_ue_list (pa_manager p)"
  have k: "k = ue_index (\<lambda>u. pu_id u = i) ?l" "p1 = (if i \<in> pu_id ` set ?l then p
      else p\<lparr>pa_manager := (pa_manager p)\<lparr>pm_ue_list := ?l @ [new_pdcp_ue i]\<rparr>\<rparr>)"
    using assms ue_index_cases[of i pu_id ?l]
    by (auto simp: pa_get_ue_def nr_pdcp_manager_get_ue_def Let_def split: prod.splits if_splits)
  show "pa_ids p1 = pa_add i (pa_ids p)" by (auto simp: pa_ids_def pa_add_def k(2) new_pdcp_ue_def)
  show "k < length (pm_ue_list (pa_manager p1))" "pu_id (pa_ue k p1) = i"
    using ue_index_cases[of i pu_id ?l] ue_index_hit[of "\<lambda>u. pu_id u = i" ?l] k(1)
    by (auto simp: k(2) pa_ue_def new_pdcp_ue_def)
qed

lemma pa_id_in: "k < length (pm_ue_list (pa_manager p)) \<Longrightarrow> pu_id (pa_ue k p) \<in> set (pa_ids p)"
  by (simp add: pa_ids_def pa_ue_def)

text \<open>UEs only come, and their identifiers are the ones the callers use.\<close>

definition ues_grow :: "u64 set \<Rightarrow> pdcp_api \<Rightarrow> pdcp_api \<Rightarrow> bool" where
  "ues_grow U p p' \<longleftrightarrow> length (pa_ids p) \<le> length (pa_ids p') \<and> (distinct (pa_ids p) \<longrightarrow> distinct (pa_ids p')) \<and> set (pa_ids p) \<subseteq> set (pa_ids p')
     \<and> set (pa_ids p') \<subseteq> set (pa_ids p) \<union> U"

lemma ues_grow_refl [simp]: "ues_grow U p p"
  by (simp add: ues_grow_def)

lemma ues_grow_trans: "ues_grow U p p1 \<Longrightarrow> ues_grow U p1 p2 \<Longrightarrow> ues_grow U p p2"
  by (auto simp: ues_grow_def)

lemma ues_grow_get: "pa_get_ue i p = (k, p1) \<Longrightarrow> i \<in> U \<Longrightarrow> ues_grow U p p1"
  by (auto simp: ues_grow_def pa_get_ue_ids)

lemma ues_grow_same: "pa_ids p' = pa_ids p \<Longrightarrow> ues_grow U p p'"
  by (simp add: ues_grow_def)

section \<open>The service below SDAP\<close>

text \<open>SDAP reaches the layer below only through the service, for the UE it was called for.\<close>

locale pdcp_service_keeps =
  fixes pdcp :: "'p pdcp_service" and R :: "'p \<Rightarrow> 'p \<Rightarrow> bool" and U :: "u64 set"
  assumes call: "pdcp r p = Inr (b, p') \<Longrightarrow> pc_rntiMaybeUEid (dr_ctxt r) \<in> U \<Longrightarrow> R p p'"
    and same: "R p p"
    and both: "R p p1 \<Longrightarrow> R p1 p2 \<Longrightarrow> R p p2"
begin

lemma end_marker:
  "sdap_end_marker pdcp e pe ue ty qfi p = Inr (e', p') \<Longrightarrow> ue \<in> U \<Longrightarrow> R p p'"
  by (auto simp: sdap_end_marker_def nr_sdap_submit_ctrl_pdu_def nr_pdcp_submit_sdap_ctrl_pdu_def rbind_eq_Inr same
      ctxt_of_def split: if_splits intro: call)

lemma if_marker:
  "(if b then sdap_end_marker pdcp e pe ue ty qfi p else Inr (e, p)) = Inr (e', p') \<Longrightarrow> ue \<in> U \<Longrightarrow> R p p'"
  by (auto simp: same split: if_splits dest: end_marker)

lemma reflective: "sdap_reflective_mapping pdcp e pe ue qfi p = Inr (e', p') \<Longrightarrow> ue \<in> U \<Longrightarrow> R p p'"
  by (auto simp: sdap_reflective_mapping_def rbind_eq_Inr dest!: if_marker intro: both)

lemma receive:
  "nr_sdap_rx_entity pdcp e pe gnb rx ps ue buf inst p = Inr (ev, e', p') \<Longrightarrow> ue \<in> U \<Longrightarrow> R p p'"
  by (auto simp: nr_sdap_rx_entity_def Let_def rbind_eq_Inr same split: if_splits option.splits dest: reflective)

lemma transmit:
  "nr_sdap_tx_entity pdcp e ctxt f b m c sdu mode src dst qfi rqi p = Inr (ret, e', p') \<Longrightarrow>
     pc_rntiMaybeUEid ctxt \<in> U \<Longrightarrow> R p p'"
  by (auto simp: nr_sdap_tx_entity_def Let_def rbind_eq_Inr same split: if_splits option.splits intro: call)

lemma config_step:
  "sdap_qfi_config_step pdcp pe ue drb rx tx qfi (e, p) = Inr (e', p') \<Longrightarrow> ue \<in> U \<Longrightarrow> R p p'"
  unfolding sdap_qfi_config_step_def fst_conv snd_conv
  by (auto simp: rbind_eq_Inr dest!: if_marker intro: both)

lemma configure:
  assumes "nr_sdap_ue_qfi2drb_config pdcp e pe ue qfis n drb rx tx p = Inr (e', p')" "ue \<in> U"
  shows "R p p'"
proof -
  have "sdap_qfi_config_step pdcp pe ue drb rx tx qfi s = Inr s' \<Longrightarrow> R (snd s) (snd s')" for qfi s s'
    using assms(2) by (cases s; cases s') (auto dest: config_step)
  then have "R (snd (e, p)) (snd (e', p'))"
    by (rule sdap_qfi_loop_kept[where R = "\<lambda>s s'. R (snd s) (snd s')",
          OF _ _ _ assms(1)[unfolded nr_sdap_ue_qfi2drb_config_def]]) (auto simp: same intro: both)
  then show ?thesis by simp
qed

end

lemma deliver_pdu_ids: "pd_deliver_pdu env rb i b buf m p = Inr p' \<Longrightarrow> pa_ids p' = pa_ids p"
  by (auto simp: pd_deliver_pdu_def deliver_pdu_drb_gnb_def deliver_pdu_drb_ue_def split: if_splits option.splits)

lemma data_req_ids:
  "nr_pdcp_data_req_drb env r p = Inr (b, p') \<Longrightarrow> pa_ids p' = pa_add (pc_rntiMaybeUEid (dr_ctxt r)) (pa_ids p)"
  by (auto simp: nr_pdcp_data_req_drb_def Let_def rbind_eq_Inr pa_get_ue_ids deliver_pdu_ids
      split: if_splits prod.splits option.splits)

interpretation cu_service: pdcp_service_keeps "nr_pdcp_data_req_drb env" "ues_grow U" U for env U
  by unfold_locales (auto simp: ues_grow_def data_req_ids)

section \<open>The operations of the user plane\<close>

definition sd_keys :: "'p nr_sdap \<Rightarrow> (u64 \<times> int) list" where
  "sd_keys s = map sdap_key (sd_llist s)"

lemma sd_keys_put_key: "sdap_key e = sdap_key (sd_entity k s) \<Longrightarrow> sd_keys (sd_put k e s) = sd_keys s"
  by (cases "k < length (sd_llist s)")
    (simp_all add: sd_keys_def sd_put_def sd_entity_def map_update list_update_same_conv list_update_beyond)

lemma sd_keys_put: "sdap_kept (sd_entity k s) e \<Longrightarrow> sd_keys (sd_put k e s) = sd_keys s"
  by (simp add: sd_keys_put_key sdap_kept_def)

lemma sd_keys_simps [simp]:
  "sd_keys (s\<lparr>sd_pdcp := p\<rparr>) = sd_keys s" "sd_keys (sd_event ev s) = sd_keys s" "sd_pdcp (sd_event ev s) = sd_pdcp s"
  by (simp_all add: sd_keys_def sd_event_def)

text \<open>The data path: the sessions stay, UEs at most come.\<close>

definition up_data :: "u64 set \<Rightarrow> user_plane \<Rightarrow> user_plane \<Rightarrow> bool" where
  "up_data U s s' \<longleftrightarrow> ues_grow U (sd_pdcp s) (sd_pdcp s') \<and> sd_keys s' = sd_keys s"

lemma up_data_refl [simp]: "up_data U s s"
  by (simp add: up_data_def)

lemma up_data_trans: "up_data U s s1 \<Longrightarrow> up_data U s1 s2 \<Longrightarrow> up_data U s s2"
  by (auto simp: up_data_def intro: ues_grow_trans)

lemma up_data_sends:
  assumes "sdap_data_req (nr_pdcp_data_req_drb env) ctxt ue f b m c sdu mode src dst qfi rqi ps s = Inr (ret, s')"
    "pc_rntiMaybeUEid ctxt \<in> U"
  shows "up_data U s s'"
  using assms
  by (auto simp: sdap_data_req_def up_data_def rbind_eq_Inr sd_keys_put split: option.splits
      dest: sdap_tx_kept cu_service.transmit)

lemma up_data_brings:
  assumes "sdap_data_ind (nr_pdcp_data_req_drb env) pe gnb rx ps ue buf s = Inr s'" "ue \<in> U"
  shows "up_data U s s'"
  using assms
  by (auto simp: sdap_data_ind_def up_data_def rbind_eq_Inr sd_keys_put split: option.splits
      dest: sdap_rx_kept cu_service.receive)

lemma up_data_callbacks:
  "pd_callbacks env ue b en l s = Inr s' \<Longrightarrow> ue \<in> U \<Longrightarrow> up_data U s s'"
proof (induction l arbitrary: s)
  case (Cons x l)
  then obtain s1 where s1: "(if pd_type en = NR_PDCP_SRB
            then deliver_sdu_srb env ue b en (ps_buffer x) (ps_msg_integrity x) s
            else deliver_sdu_drb env ue b en (ps_buffer x) s) = Inr s1" "pd_callbacks env ue b en l s1 = Inr s'"
    by (auto simp: rbind_eq_Inr)
  have "up_data U s (up_event ev s)" for ev by (simp add: up_data_def up_event_def ues_grow_same)
  then have "up_data U s s1"
    using s1(1) Cons.prems(2)
    by (auto simp: deliver_sdu_srb_def deliver_sdu_drb_def split: if_splits option.splits dest: up_data_brings)
  then show ?case using Cons.IH[OF s1(2) Cons.prems(2)] by (rule up_data_trans)
qed simp

lemma up_data_on_rb:
  assumes "up_on_rb env k b f rb g s = Inr s'" "pu_id (pa_ue k (sd_pdcp s)) \<in> U"
  shows "up_data U s s'"
proof -
  obtain rb' where "pd_callbacks env (pu_id (pa_ue k (sd_pdcp s))) b rb' (drop (length (pd_delivered rb)) (pd_delivered rb'))
       (s\<lparr>sd_pdcp := pa_put_rb k b f (Some rb') (sd_pdcp s)\<rparr>) = Inr s'"
    using assms(1) by (auto simp: up_on_rb_def rbind_eq_Inr)
  from up_data_callbacks[OF this assms(2)] show ?thesis
    by (rule up_data_trans[rotated]) (simp add: up_data_def ues_grow_same)
qed

lemma up_data_with_rb:
  assumes "up_with_rb env i b f g s = Inr s'" "i \<in> U"
  shows "up_data U s s'"
proof -
  obtain k p where kp: "pa_get_ue i (sd_pdcp s) = (k, p)" by fastforce
  have get: "up_data U s (s\<lparr>sd_pdcp := p\<rparr>)" using ues_grow_get[OF kp assms(2)] by (simp add: up_data_def)
  show ?thesis
    using assms up_data_trans[OF get] get up_data_on_rb[where s = "s\<lparr>sd_pdcp := p\<rparr>" and k = k] pa_get_ue_ids(3)[OF kp]
    by (auto simp: up_with_rb_def kp Let_def split: option.splits)
qed

lemma up_data_receive:
  "do_pdcp_data_ind env item s = Inr s' \<Longrightarrow> pc_rntiMaybeUEid (pi_ctxt item) \<in> U \<Longrightarrow> up_data U s s'"
  by (auto simp: do_pdcp_data_ind_def Let_def split: if_splits dest: up_data_with_rb)

lemma up_data_tick_loop:
  assumes "pdcp_tick_loop env time l s = Inr s'" "\<forall>kb \<in> set l. fst kb < length (pa_ids (sd_pdcp s))"
    "set (pa_ids (sd_pdcp s)) \<subseteq> U"
  shows "up_data U s s'"
  using assms
proof (induction l arbitrary: s)
  case (Cons kb l)
  obtain s1 where s1: "pdcp_tick_rb env time (fst kb) (snd kb) s = Inr s1" "pdcp_tick_loop env time l s1 = Inr s'"
    using Cons.prems(1) by (cases kb) (auto simp: rbind_eq_Inr)
  have "pu_id (pa_ue (fst kb) (sd_pdcp s)) \<in> U"
    using Cons.prems(2,3) pa_id_in[of "fst kb" "sd_pdcp s"] by (auto simp: pa_ids_def)
  then have step: "up_data U s s1"
    using s1(1) by (auto simp: pdcp_tick_rb_def split: option.splits dest: up_data_on_rb)
  have "up_data U s1 s'"
  proof (rule Cons.IH[OF s1(2)])
    show "\<forall>kb \<in> set l. fst kb < length (pa_ids (sd_pdcp s1))"
      using step Cons.prems(2) by (auto simp: up_data_def ues_grow_def intro: less_le_trans)
    show "set (pa_ids (sd_pdcp s1)) \<subseteq> U" using step Cons.prems(3) by (auto simp: up_data_def ues_grow_def)
  qed
  then show ?case by (rule up_data_trans[OF step])
qed simp

lemma up_data_tick:
  "nr_pdcp_timer_tick env time s = Inr s' \<Longrightarrow> set (pa_ids (sd_pdcp s)) \<subseteq> U \<Longrightarrow> up_data U s s'"
  unfolding nr_pdcp_timer_tick_def by (rule up_data_tick_loop) (auto simp: pa_ids_def)

section \<open>Bearers\<close>

definition up_ues :: "u64 set \<Rightarrow> user_plane \<Rightarrow> bool" where
  "up_ues U s \<longleftrightarrow> distinct (pa_ids (sd_pdcp s)) \<and> set (pa_ids (sd_pdcp s)) \<subseteq> U
     \<and> fst ` set (sd_keys s) \<subseteq> set (pa_ids (sd_pdcp s))"

lemma up_ues_data:
  "up_data U s s' \<Longrightarrow> up_ues U s \<Longrightarrow> up_ues U s' \<and> set (pa_ids (sd_pdcp s)) \<subseteq> set (pa_ids (sd_pdcp s'))"
  by (auto simp: up_data_def up_ues_def ues_grow_def)

lemma start_tun_keys:
  assumes "start_sdap_tun_gnb_first_ue_default_pdu_session tun i s = Inr s'"
  shows "sd_keys s' = sd_keys s" "sd_pdcp s' = sd_pdcp s"
proof -
  obtain k where "s' = sd_put k ((sd_entity k s)\<lparr>se_pdusession_sock := tun\<rparr>) s"
    using assms
    by (auto simp: start_sdap_tun_gnb_first_ue_default_pdu_session_def rbind_eq_Inr split: option.splits)
  then show "sd_keys s' = sd_keys s" "sd_pdcp s' = sd_pdcp s"
    using sd_keys_put_key[of "(sd_entity k s)\<lparr>se_pdusession_sock := tun\<rparr>" k s] by (simp_all add: sdap_key_def sd_put_def)
qed

lemma new_sdap_ues:
  assumes new: "new_nr_sdap_entity (nr_pdcp_data_req_drb env) tun gnb rx tx i ps dflt drb qfis n s = Inr s'" and i: "i \<in> U"
  shows "ues_grow U (sd_pdcp s) (sd_pdcp s') \<and> fst ` set (sd_keys s') \<subseteq> insert i (fst ` set (sd_keys s))"
proof (cases "nr_sdap_get_entity (sd_llist s) i ps")
  case None
  then obtain e where e: "sdap_init_entity gnb rx tx i ps dflt drb qfis n = Inr e"
    "(if sd_nos1 s \<and> gnb then start_sdap_tun_gnb_first_ue_default_pdu_session tun i (s\<lparr>sd_llist := e # sd_llist s\<rparr>)
      else Inr (s\<lparr>sd_llist := e # sd_llist s\<rparr>)) = Inr s'"
    using new by (auto simp: new_nr_sdap_entity_def rbind_eq_Inr Let_def)
  have "sd_keys s' = sd_keys (s\<lparr>sd_llist := e # sd_llist s\<rparr>) \<and> sd_pdcp s' = sd_pdcp s"
    using e(2) start_tun_keys[of tun i "s\<lparr>sd_llist := e # sd_llist s\<rparr>" s'] by (auto split: if_splits)
  then show ?thesis by (auto simp: sd_keys_def sdap_init_entity_key(1)[OF e(1)])
next
  case (Some k)
  show ?thesis
  proof (cases gnb)
    case False
    then obtain e p where e: "nr_sdap_ue_qfi2drb_config (nr_pdcp_data_req_drb env) (sd_entity k s)
        (se_default_drb (sd_entity k s)) i qfis n drb rx tx (sd_pdcp s) = Inr (e, p)" "s' = (sd_put k e s)\<lparr>sd_pdcp := p\<rparr>"
      using new Some by (auto simp: new_nr_sdap_entity_def rbind_eq_Inr)
    show ?thesis
      using cu_service.configure[OF e(1) i] sd_keys_put[OF sdap_config_kept[OF e(1)]] by (auto simp: e(2))
  qed (use new Some in \<open>auto simp: new_nr_sdap_entity_def\<close>)
qed

text \<open>Only a configuration with a PDCP part creates the UE.\<close>

lemma add_drb_ues:
  assumes "add_drb env gnb i a sp s = Inr s'" "i \<in> U"
  shows "ues_grow U (sd_pdcp s) (sd_pdcp s')"
    "fst ` set (sd_keys s') \<subseteq> fst ` set (sd_keys s) \<union> (if i \<in> set (pa_ids (sd_pdcp s')) then {i} else {})"
    "da_pdcp_Config a = Some c \<Longrightarrow> xc_drb c = Some d \<Longrightarrow> i \<in> set (pa_ids (sd_pdcp s'))"
proof -
  have "ues_grow U (sd_pdcp s) (sd_pdcp s')
     \<and> (s' = s \<and> (\<forall>c d. da_pdcp_Config a = Some c \<longrightarrow> xc_drb c \<noteq> Some d)
        \<or> i \<in> set (pa_ids (sd_pdcp s')) \<and> fst ` set (sd_keys s') \<subseteq> insert i (fst ` set (sd_keys s)))"
  proof (cases "map_option xc_drb (da_pdcp_Config a)")
    case (Some od)
    show ?thesis
    proof (cases od)
      case None
      then show ?thesis using assms Some by (auto simp: add_drb_def)
    next
      case d: (Some d)
      then obtain c where c: "da_pdcp_Config a = Some c" "xc_drb c = Some d" using Some by auto
      obtain k p where kp: "pa_get_ue i (sd_pdcp s) = (k, p)" by fastforce
      have g: "ues_grow U (sd_pdcp s) p" "i \<in> set (pa_ids p)"
        using ues_grow_get[OF kp assms(2)] pa_get_ue_ids(1)[OF kp] by simp_all
      show ?thesis
      proof (cases "nr_pdcp_get_rb (pa_ue k p) (da_drb_Identity a) False")
        case (Some rb)
        then have "s' = s\<lparr>sd_pdcp := p\<rparr>" using assms(1) by (auto simp: add_drb_def c kp Let_def rbind_eq_Inr)
        then show ?thesis using g by auto
      next
        case None
        then obtain rb ue ps rx tx dflt qfis n where ue: "nr_pdcp_ue_add_drb_pdcp_entity (pa_ue k p) (da_drb_Identity a) rb = Inr ue"
          "new_nr_sdap_entity (nr_pdcp_data_req_drb env) (pe_tun_alloc env) gnb rx tx i ps dflt
             (word_of_int (da_drb_Identity a)) qfis n (s\<lparr>sd_pdcp := pa_put_ue k ue p\<rparr>) = Inr s'"
          using assms(1) by (auto simp: add_drb_def c kp Let_def rbind_eq_Inr)
        have "pa_ids (pa_put_ue k ue p) = pa_ids p"
          by (rule pa_ids_put_ue) (use ue(1) in \<open>auto simp: nr_pdcp_ue_add_drb_pdcp_entity_def Let_def split: if_splits\<close>)
        then have "ues_grow U (sd_pdcp s) (pa_put_ue k ue p)" "i \<in> set (pa_ids (pa_put_ue k ue p))"
          using g by (auto simp: ues_grow_def)
        then show ?thesis using new_sdap_ues[OF ue(2) assms(2)] by (auto simp: ues_grow_def)
      qed
    qed
  qed (use assms in \<open>auto simp: add_drb_def\<close>)
  then show "ues_grow U (sd_pdcp s) (sd_pdcp s')"
    "fst ` set (sd_keys s') \<subseteq> fst ` set (sd_keys s) \<union> (if i \<in> set (pa_ids (sd_pdcp s')) then {i} else {})"
    "da_pdcp_Config a = Some c \<Longrightarrow> xc_drb c = Some d \<Longrightarrow> i \<in> set (pa_ids (sd_pdcp s'))"
    by auto
qed

section \<open>Runs of the handler\<close>

text \<open>
  The steps: the messages, each with at least one PDU session to set up, and the data path and the timer in
  between, for UEs with the identifiers of a CU-UP.
\<close>

definition cu_ids :: "u64 set" where
  "cu_ids = range (ucast :: u32 \<Rightarrow> u64)"

inductive e1_step :: "e1_env \<Rightarrow> e1_state \<Rightarrow> e1_state \<Rightarrow> bool" for env where
  sets_up: "rq_pduSession req \<noteq> [] \<Longrightarrow> e1_bearer_context_setup env req s = Inr s' \<Longrightarrow> e1_step env s s'"
| modifies: "e1_bearer_context_modif env req s = Inr s' \<Longrightarrow> e1_step env s s'"
| releases: "e1_bearer_release_cmd env cmd s = Inr s' \<Longrightarrow> e1_step env s s'"
| resets: "e1_reset env s = Inr s' \<Longrightarrow> e1_step env s s'"
| downlink: "sdap_data_req (nr_pdcp_data_req_drb (e1_pdcp_env env s)) (ctxt_of True (ucast (u :: u32))) (ucast u) f b m c sdu
       mode src dst qfi rqi ps (es_up s) = Inr (ret, up) \<Longrightarrow> e1_step env s (s\<lparr>es_up := up\<rparr>)"
| uplink: "do_pdcp_data_ind (e1_pdcp_env env s) item (es_up s) = Inr up \<Longrightarrow>
     pc_rntiMaybeUEid (pi_ctxt item) \<in> cu_ids \<Longrightarrow> e1_step env s (s\<lparr>es_up := up\<rparr>)"
| tick: "nr_pdcp_timer_tick (e1_pdcp_env env s) time (es_up s) = Inr up \<Longrightarrow> e1_step env s (s\<lparr>es_up := up\<rparr>)"

abbreviation cu_map :: "e1_state \<Rightarrow> u32 \<Rightarrow> f1_ue_data option" where
  "cu_map s \<equiv> f1_map (fi_cu2du_ue_mapping (es_ids s))"

abbreviation es_pdcp_ids :: "e1_state \<Rightarrow> u64 set" where
  "es_pdcp_ids s \<equiv> set (pa_ids (sd_pdcp (es_up s)))"

text \<open>
  The layers belong together: PDCP has every UE that SDAP or F1 has, for \<open>X\<close> the identifiers F1 may have
  ahead of PDCP.
\<close>

definition e1_ok :: "u64 set \<Rightarrow> e1_state \<Rightarrow> bool" where
  "e1_ok X s \<longleftrightarrow> es_uses_e1 s \<and> es_if s = cuup_cucp_init_e1ap \<and> f1_reached (es_ids s) \<and> up_ues cu_ids (es_up s)
     \<and> ucast ` dom (cu_map s) \<subseteq> es_pdcp_ids s \<union> X"

lemma e1_okI:
  assumes "e1_ok X s" "es_uses_e1 s' = es_uses_e1 s" "es_if s' = es_if s" "es_ids s' = es_ids s"
    "up_ues cu_ids (es_up s')" "es_pdcp_ids s \<subseteq> es_pdcp_ids s'" "X \<subseteq> es_pdcp_ids s' \<union> X'"
  shows "e1_ok X' s'"
proof -
  have "ucast ` dom (cu_map s') \<subseteq> es_pdcp_ids s \<union> X" using assms(1,4) by (simp add: e1_ok_def)
  also have "\<dots> \<subseteq> es_pdcp_ids s' \<union> X'" using assms(6,7) by blast
  finally show ?thesis using assms(1-5) by (simp add: e1_ok_def)
qed

lemma cu_ids [simp]: "ucast (u :: u32) \<in> cu_ids"
  by (simp add: cu_ids_def)

lemma u32_back [simp]: "ucast (ucast u :: u64) = (u :: u32)"
  by (simp add: bit_eq_iff bit_simps)

lemma e1_data_ok:
  assumes "e1_ok X s" "up_data cu_ids (es_up s) up"
  shows "e1_ok X (s\<lparr>es_up := up\<rparr>)"
  using e1_okI[OF assms(1), of "s\<lparr>es_up := up\<rparr>" X] up_ues_data[OF assms(2)] assms(1) by (auto simp: e1_ok_def)

lemma e1_event_ok [simp]: "e1_ok X (s\<lparr>es_events := evs\<rparr>) = e1_ok X s" "e1_ok X (es_event ev s) = e1_ok X s"
  by (simp_all add: e1_ok_def es_event_def)

lemma e1_send_eq: "e1_send f r s = Inr s' \<longleftrightarrow> (\<exists>g. f = Some g \<and> s' = es_event (g r) s)"
  by (auto simp: e1_send_def c_deref_def split: option.splits)

lemma e1_mirror_ok:
  assumes "e1_mirror_ue u s = Inr s'" "e1_ok {} s"
  shows "e1_ok {ucast u} s'" "es_up s' = es_up s" "es_events s' = es_events s" "cu_map s' u \<noteq> None"
    "e1_secondary_ue (es_ids s') (ucast u) \<noteq> None"
proof -
  have r: "f1_reached (es_ids s)" "es_uses_e1 s" using assms(2) by (simp_all add: e1_ok_def)
  have cu: "f1_ok (fi_cu2du_ue_mapping (es_ids s))" using f1_reached_ok[OF r(1)] by (simp add: f1_ids_ok_def)
  let ?d = "\<lparr>fd_secondary_ue = u, fd_e1_assoc_id = 0, fd_du_assoc_id = 0\<rparr>"
  have *: "e1_ok {ucast u} s' \<and> es_up s' = es_up s \<and> es_events s' = es_events s \<and> cu_map s' u \<noteq> None"
  proof (cases "cu_map s u")
    case None
    obtain h' where h': "f1_add (fi_cu2du_ue_mapping (es_ids s)) u ?d = Inr (True, h')" "f1_map h' = (cu_map s)(u \<mapsto> ?d)"
      using f1_add_eq[OF cu, of u ?d] None by auto
    have add: "cu_add_f1_ue_data u ?d (es_ids s) = Inr (True, (es_ids s)\<lparr>fi_cu2du_ue_mapping := h'\<rparr>)"
      by (simp add: cu_add_f1_ue_data_def h')
    have "s' = s\<lparr>es_ids := (es_ids s)\<lparr>fi_cu2du_ue_mapping := h'\<rparr>\<rparr>"
      using assms(1) r(2) None by (simp add: e1_mirror_ue_def cu_exists_f1_ue_data_def f1_exists_eq[OF cu] add)
    then show ?thesis using assms(2) f1_reached.cu_added[OF r(1) add] h'(2) by (auto simp: e1_ok_def)
  next
    case (Some d)
    then have "s' = s"
      using assms(1) r(2) by (simp add: e1_mirror_ue_def cu_exists_f1_ue_data_def f1_exists_eq[OF cu])
    then show ?thesis using assms(2) Some by (auto simp: e1_ok_def)
  qed
  then show "e1_ok {ucast u} s'" "es_up s' = es_up s" "es_events s' = es_events s" "cu_map s' u \<noteq> None" by simp_all
  have "f1_ok (fi_cu2du_ue_mapping (es_ids s'))" using * f1_reached_ok[of "es_ids s'"] by (simp add: e1_ok_def f1_ids_ok_def)
  then show "e1_secondary_ue (es_ids s') (ucast u) \<noteq> None"
    using * by (auto simp: e1_secondary_ue_def cu_get_f1_ue_data_def f1_get_eq)
qed

lemma es_event_simps [simp]:
  "es_up (es_event ev s) = es_up s" "es_ids (es_event ev s) = es_ids s" "es_if (es_event ev s) = es_if s"
  "es_uses_e1 (es_event ev s) = es_uses_e1 s" "es_events (es_event ev s) = es_events s @ [ev]"
  by (simp_all add: es_event_def)

lemma gtpu_create_eq [simp]:
  "snd (drb_gtpu_create env inst u a b q addr teid cb f s)
     = es_event (Create_Ngu_Tunnel inst \<lparr>gq_ue_id = ucast u, gq_incoming_rb_id = word_of_int a, gq_pdusession_id = word_of_int b,
         gq_dst_addr = addr, gq_outgoing_teid = teid, gq_outgoing_qfi = q\<rparr> cb f) s"
  by (simp add: drb_gtpu_create_def Let_def)

lemma setup_f1u_eq:
  assumes "e1_setup_f1u env u drb s = Inr (l, s')"
  shows "\<exists>evs. s' = s\<lparr>es_events := es_events s @ evs\<rparr>"
proof (cases "0 \<le> get_f1_gtp_instance env")
  case True
  then show ?thesis
    using assms
    by (auto simp: e1_setup_f1u_def Let_def drb_gtpu_create_def rbind_eq_Inr es_event_def split: prod.splits)
next
  case False
  then show ?thesis using assms by (auto simp: e1_setup_f1u_def Let_def intro: exI[of _ "[]"])
qed

text \<open>A session that is set up: the request to GTP, what PDCP and SDAP have done, and the answer.\<close>

definition e1_n3_req :: "u32 \<Rightarrow> pdu_session_to_setup \<Rightarrow> drb_ngran_to_setup \<Rightarrow> gtpv1u_gnb_create_tunnel_req" where
  "e1_n3_req u pdu drb =
     \<lparr>gq_ue_id = ucast u, gq_incoming_rb_id = word_of_int (c_int (ds_id drb)),
      gq_pdusession_id = word_of_int (c_int (ss_sessionId pdu)), gq_dst_addr = tl_tlAddress (ss_UP_TL_information pdu),
      gq_outgoing_teid = tl_teId (ss_UP_TL_information pdu), gq_outgoing_qfi = c_int (hd (ds_qosFlows drb))\<rparr>"

definition e1_session_answer ::
  "gtpv1u_gnb_create_tunnel_resp \<Rightarrow> pdu_session_to_setup \<Rightarrow> drb_ngran_to_setup \<Rightarrow> up_tl_information list \<Rightarrow> pdu_session_setup"
where
  "e1_session_answer resp pdu drb f1u =
     \<lparr>st_id = ss_sessionId pdu, st_tl_info = \<lparr>tl_tlAddress = gr_gnb_addr resp, tl_teId = gr_gnb_NGu_teid resp\<rparr>,
      st_DRBnGRanList = [\<lparr>dt_id = ds_id drb, dt_UpParamList = f1u, dt_qosFlows = ds_qosFlows drb\<rparr>], st_numDRBFailed = 0\<rparr>"

lemma setup_session_eq:
  assumes "e1_setup_session env req n3 pdu s = Inr (r, s')"
  obtains drb q up f1u evs where "ss_DRBnGRanList pdu = [drb]" "ds_qosFlows drb = [q]"
    "add_drb (e1_pdcp_env env s) True (ucast (rq_gNB_cu_cp_ue_id req)) (drb_config_e1 pdu drb)
       (e1_security (rq_secInfo req)) (es_up s) = Inr up"
    "s' = s\<lparr>es_up := up, es_events := es_events s
         @ Create_Ngu_Tunnel n3 (e1_n3_req (rq_gNB_cu_cp_ue_id req) pdu drb) Cb_Nr_Pdcp_Data_Req_Drb True # evs\<rparr>"
    "r = e1_session_answer (snd (ee_create_ngu_tunnel env (es_events s) n3 (e1_n3_req (rq_gNB_cu_cp_ue_id req) pdu drb))) pdu drb f1u"
proof -
  have l: "length (ss_DRBnGRanList pdu) = 1" using assms by (auto simp: e1_setup_session_def Let_def rbind_eq_Inr)
  then obtain drb where drb: "ss_DRBnGRanList pdu = [drb]" by (auto simp: length_Suc_conv)
  have "length (ds_qosFlows drb) = 1" using assms drb by (auto simp: e1_setup_session_def Let_def rbind_eq_Inr)
  then obtain q where q: "ds_qosFlows drb = [q]" by (auto simp: length_Suc_conv)
  define req3 where "req3 = e1_n3_req (rq_gNB_cu_cp_ue_id req) pdu drb"
  define ev where "ev = Create_Ngu_Tunnel n3 req3 Cb_Nr_Pdcp_Data_Req_Drb True"
  obtain up f1u s2 where up: "nr_pdcp_add_drbs (e1_pdcp_env env (es_event ev s)) True (ucast (rq_gNB_cu_cp_ue_id req)) [drb_config_e1 pdu drb]
       (e1_security (rq_secInfo req)) (es_up s) = Inr up"
    "e1_setup_f1u env (rq_gNB_cu_cp_ue_id req) drb ((es_event ev s)\<lparr>es_up := up\<rparr>) = Inr (f1u, s2)" "s' = s2"
    "r = e1_session_answer (snd (ee_create_ngu_tunnel env (es_events s) n3 req3)) pdu drb f1u"
    using assms
    by (auto simp: e1_setup_session_def Let_def rbind_eq_Inr drb q drb_gtpu_create_def ev_def req3_def e1_n3_req_def
        e1_session_answer_def fill_DRB_configList_e1_def simp del: nr_pdcp_add_drbs.simps split: prod.splits)
  have env: "e1_pdcp_env env (es_event ev s) = e1_pdcp_env env s" by (simp add: e1_pdcp_env_def)
  obtain evs where "s' = (es_event ev s)\<lparr>es_up := up, es_events := es_events s @ ev # evs\<rparr>"
    using setup_f1u_eq[OF up(2)] up(3) by auto
  then have "s' = s\<lparr>es_up := up, es_events := es_events s @ ev # evs\<rparr>" by (simp add: es_event_def)
  then show thesis using that drb q up(1,4) env by (auto simp: rbind_eq_Inr ev_def req3_def)
qed

lemma setup_session_ok:
  assumes "e1_setup_session env req n3 pdu s = Inr (r, s')" "e1_ok X s" "X \<subseteq> {ucast (rq_gNB_cu_cp_ue_id req)}"
  shows "e1_ok {} s'"
proof -
  let ?i = "ucast (rq_gNB_cu_cp_ue_id req) :: u64"
  obtain drb up evs where e: "add_drb (e1_pdcp_env env s) True ?i (drb_config_e1 pdu drb)
       (e1_security (rq_secInfo req)) (es_up s) = Inr up" "s' = s\<lparr>es_up := up, es_events := evs\<rparr>"
    by (rule setup_session_eq[OF assms(1)])
  have i: "?i \<in> set (pa_ids (sd_pdcp up))"
    by (rule add_drb_ues(3)[OF e(1) cu_ids]) (auto simp: drb_config_e1_def Let_def)
  have g: "ues_grow cu_ids (sd_pdcp (es_up s)) (sd_pdcp up)" "fst ` set (sd_keys up) \<subseteq> insert ?i (fst ` set (sd_keys (es_up s)))"
    using add_drb_ues(1,2)[OF e(1) cu_ids] by (auto split: if_splits)
  have s: "es_pdcp_ids s \<subseteq> set (pa_ids (sd_pdcp up))" "distinct (pa_ids (sd_pdcp up))" "set (pa_ids (sd_pdcp up)) \<subseteq> cu_ids"
    "fst ` set (sd_keys (es_up s)) \<subseteq> es_pdcp_ids s"
    using g(1) assms(2) by (auto simp: e1_ok_def up_ues_def ues_grow_def)
  have "insert ?i (fst ` set (sd_keys (es_up s))) \<subseteq> set (pa_ids (sd_pdcp up))" using i s(1,4) by blast
  then have "up_ues cu_ids up" using s(2,3) subset_trans[OF g(2)] by (simp add: up_ues_def)
  moreover have "X \<subseteq> set (pa_ids (sd_pdcp up))" using assms(3) i by blast
  ultimately show ?thesis by (intro e1_okI[OF assms(2)]) (simp_all add: e(2) s(1))
qed

lemma setup_sessions_ok:
  assumes "e1_setup_sessions env req n3 pdus s = Inr (rs, s')" "e1_ok X s" "X \<subseteq> {ucast (rq_gNB_cu_cp_ue_id req)}"
    "pdus \<noteq> [] \<or> X = {}"
  shows "e1_ok {} s'"
  using assms
proof (induction pdus arbitrary: s X rs)
  case (Cons pdu pdus)
  then obtain r s1 rs' where s1: "e1_setup_session env req n3 pdu s = Inr (r, s1)"
    "e1_setup_sessions env req n3 pdus s1 = Inr (rs', s')" by (auto simp: rbind_eq_Inr)
  show ?case by (rule Cons.IH[OF s1(2) setup_session_ok[OF s1(1) Cons.prems(2,3)]]) simp_all
qed simp

lemma e1_setup_ok:
  assumes "e1_bearer_context_setup env req s = Inr s'" "e1_ok {} s" "rq_pduSession req \<noteq> []"
  shows "e1_ok {} s'"
proof -
  obtain s1 n3 rs s2 ev where s1: "e1_mirror_ue (rq_gNB_cu_cp_ue_id req) s = Inr s1"
    "e1_setup_sessions env req n3 (rq_pduSession req) s1 = Inr (rs, s2)" "s' = es_event ev s2"
    using assms(1) by (auto simp: e1_bearer_context_setup_def rbind_eq_Inr e1_send_eq)
  have "e1_ok {} s2" by (rule setup_sessions_ok[OF s1(2) e1_mirror_ok(1)[OF s1(1) assms(2)]]) (use assms(3) in simp_all)
  then show ?thesis using s1(3) by auto
qed

lemma e1_mod_drb_ok:
  assumes "e1_mod_drb env req d s = Inr s'" "e1_ok X s"
  shows "e1_ok X s'"
  using assms(1) e1_data_ok[OF assms(2) up_data_with_rb[OF _ cu_ids]] assms(2)
  by (auto simp: e1_mod_drb_def nr_pdcp_reestablishment_def Let_def rbind_eq_Inr split: option.splits if_splits)

lemma e1_mod_drbs_ok: "e1_mod_drbs env req l s = Inr s' \<Longrightarrow> e1_ok X s \<Longrightarrow> e1_ok X s'"
  by (induction l arbitrary: s) (auto simp: rbind_eq_Inr dest: e1_mod_drb_ok)

lemma e1_mod_sessions_ok: "e1_mod_sessions env req l s = Inr s' \<Longrightarrow> e1_ok X s \<Longrightarrow> e1_ok X s'"
  by (induction l arbitrary: s) (auto simp: rbind_eq_Inr dest: e1_mod_drbs_ok)

lemma e1_modif_ok: "e1_bearer_context_modif env req s = Inr s' \<Longrightarrow> e1_ok X s \<Longrightarrow> e1_ok X s'"
  by (auto simp: e1_bearer_context_modif_def rbind_eq_Inr e1_send_eq dest: e1_mod_sessions_ok)

section \<open>Removal\<close>

text \<open>The tunnels of a UE are deleted, on N3 and, when there is F1-U, there.\<close>

definition e1_deletes :: "e1_env \<Rightarrow> u32 \<Rightarrow> e1_event list" where
  "e1_deletes env u =
     map (\<lambda>i. Delete_All_Tunnels i (ucast u))
       (the (ee_gtpInstN3 env) # filter (\<lambda>i. 0 \<le> i) [get_f1_gtp_instance env])"

text \<open>What is left without a UE.\<close>

definition e1_without :: "u32 \<Rightarrow> e1_state \<Rightarrow> e1_state \<Rightarrow> bool" where
  "e1_without u s s' \<longleftrightarrow>
     pdcp_ue_map (pa_manager (sd_pdcp (es_up s'))) = (pdcp_ue_map (pa_manager (sd_pdcp (es_up s))))(ucast u := None)
     \<and> sdap_map (es_up s') = (\<lambda>k. if fst k = ucast u then None else sdap_map (es_up s) k)
     \<and> cu_map s' = (cu_map s)(u := None) \<and> fi_du2cu_ue_mapping (es_ids s') = fi_du2cu_ue_mapping (es_ids s)"

lemma pdcp_map_dom: "dom (pdcp_ue_map (pa_manager p)) = set (pa_ids p)"
  using table_of_None[of pu_id "pm_ue_list (pa_manager p)"] by (auto simp: pdcp_ue_map_def pa_ids_def dom_def)

lemma sdap_map_dom: "dom (sdap_map s) = set (sd_keys s)"
  using table_of_None[of sdap_key "sd_llist s"] by (auto simp: sdap_map_def sd_keys_def dom_def)

lemma remove_ue_ids:
  assumes "distinct (pa_ids (sd_pdcp up))"
  shows "pdcp_ue_map (pa_manager (sd_pdcp (nr_pdcp_remove_UE i up))) = (pdcp_ue_map (pa_manager (sd_pdcp up)))(i := None)"
    "distinct (pa_ids (sd_pdcp (nr_pdcp_remove_UE i up)))" "sd_llist (nr_pdcp_remove_UE i up) = sd_llist up"
  using pdcp_ues.rem_map[of "pa_manager (sd_pdcp up)" i] assms
  by (simp_all add: pdcp_ue_map_def pa_ids_def nr_pdcp_remove_UE_def)

lemma remove_ue_e1_ok:
  assumes "e1_ok {} s" "ee_gtpInstN3 env = Some n3"
  obtains s' where "remove_ue_e1 env u s = Inr s'" "e1_ok {} s'" "e1_without u s s'"
    "es_events s' = es_events s @ e1_deletes env u"
proof -
  have s: "es_uses_e1 s" "f1_reached (es_ids s)" "distinct (pa_ids (sd_pdcp (es_up s)))" "es_pdcp_ids s \<subseteq> cu_ids"
    "fst ` set (sd_keys (es_up s)) \<subseteq> es_pdcp_ids s" "ucast ` dom (cu_map s) \<subseteq> es_pdcp_ids s" "es_if s = cuup_cucp_init_e1ap"
    using assms(1) by (auto simp: e1_ok_def up_ues_def)
  have cu: "f1_ok (fi_cu2du_ue_mapping (es_ids s))" using f1_reached_ok[OF s(2)] by (simp add: f1_ids_ok_def)
  obtain h' where h': "f1_remove (fi_cu2du_ue_mapping (es_ids s)) u = Inr (cu_map s u \<noteq> None, h')" "f1_map h' = (cu_map s)(u := None)"
    using f1_remove_eq[OF cu, of u] by blast
  let ?ids = "(es_ids s)\<lparr>fi_cu2du_ue_mapping := h'\<rparr>"
  have rm: "cu_remove_f1_ue_data u (es_ids s) = Inr (cu_map s u \<noteq> None, ?ids)"
    by (simp add: cu_remove_f1_ue_data_def h')
  let ?i = "ucast u :: u64"
  let ?up = "nr_pdcp_remove_UE ?i (es_up s)"
  let ?up' = "snd (nr_sdap_delete_ue_entities ?i ?up)"
  let ?s' = "s\<lparr>es_events := es_events s @ e1_deletes env u, es_up := ?up', es_ids := ?ids\<rparr>"
  note p = remove_ue_ids[OF s(3), of ?i]
  have pd: "sd_pdcp ?up' = sd_pdcp ?up" by (auto simp: nr_sdap_delete_ue_entities_def split: prod.splits)
  have sm: "sdap_map ?up' = (\<lambda>k. if fst k = ?i then None else sdap_map (es_up s) k)"
    unfolding sdap_delete_ue_map by (auto simp: sdap_map_def p(3))
  have ids: "set (pa_ids (sd_pdcp ?up')) = es_pdcp_ids s - {?i}"
    by (simp add: pd pdcp_map_dom[symmetric] p(1))
  have keys: "set (sd_keys ?up') = {k \<in> set (sd_keys (es_up s)). fst k \<noteq> ?i}"
    by (auto simp only: sdap_map_dom[symmetric] sm dom_def split: if_splits)
  show thesis
  proof (rule that)
    show "remove_ue_e1 env u s = Inr ?s'"
      using s(1)
      by (cases "ee_gtpInstF1 env")
        (simp_all add: remove_ue_e1_def get_n3_gtp_instance_def assms(2) get_f1_gtp_instance_def Let_def rm e1_deletes_def es_event_def)
    have "up_ues cu_ids ?up'"
      using s(4,5) by (auto simp: up_ues_def ids[unfolded pd] keys p(2) pd)
    moreover have "ucast ` dom (f1_map h') \<subseteq> set (pa_ids (sd_pdcp ?up'))" using s(6) by (auto simp: ids h'(2) split: if_splits)
    ultimately show "e1_ok {} ?s'" using f1_reached.cu_removed[OF s(2) rm] s(1,7) by (simp add: e1_ok_def)
    show "e1_without u s ?s'" by (simp add: e1_without_def pd p(1) sm h'(2))
  qed simp
qed

lemma reset_loop_ok:
  assumes "e1_ok {} s" "ee_gtpInstN3 env = Some n3"
  shows "if \<forall>i \<in> set is. i < length l
     then \<exists>s'. e1_reset_loop env l is s = Inr s' \<and> e1_ok {} s'
       \<and> es_pdcp_ids s' = es_pdcp_ids s - (\<lambda>i. ucast (ucast (l ! i) :: u32)) ` set is
       \<and> fi_du2cu_ue_mapping (es_ids s') = fi_du2cu_ue_mapping (es_ids s)
       \<and> es_events s' = es_events s @ concat (map (\<lambda>i. e1_deletes env (ucast (l ! i))) is)
     else e1_reset_loop env l is s = Inl Out_of_bounds"
  using assms(1)
proof (induction "is" arbitrary: s)
  case (Cons i "is")
  show ?case
  proof (cases "i < length l")
    case True
    obtain s1 where s1: "remove_ue_e1 env (ucast (l ! i)) s = Inr s1" "e1_ok {} s1" "e1_without (ucast (l ! i)) s s1"
      "es_events s1 = es_events s @ e1_deletes env (ucast (l ! i))" using remove_ue_e1_ok[OF Cons.prems assms(2)] .
    have "es_pdcp_ids s1 = es_pdcp_ids s - {ucast (ucast (l ! i) :: u32)}"
      using s1(3) by (simp add: pdcp_map_dom[symmetric] e1_without_def)
    moreover have "fi_du2cu_ue_mapping (es_ids s1) = fi_du2cu_ue_mapping (es_ids s)" using s1(3) by (simp add: e1_without_def)
    ultimately show ?thesis using True Cons.IH[OF s1(2)] by (auto simp: s1(1,4) Diff_insert2[symmetric] split: if_splits)
  qed simp
qed simp

lemma cu_ids_back: "i \<in> cu_ids \<Longrightarrow> ucast (ucast i :: u32) = i"
  by (auto simp: cu_ids_def)

lemma reset_eq:
  assumes "e1_ok {} s" "ee_gtpInstN3 env = Some n3"
  shows "if length (pa_ids (sd_pdcp (es_up s))) \<le> 16
     then \<exists>s'. e1_reset env s = Inr s' \<and> e1_ok {} s' \<and> es_pdcp_ids s' = {}
       \<and> fi_du2cu_ue_mapping (es_ids s') = fi_du2cu_ue_mapping (es_ids s)
       \<and> es_events s' = es_events s @ concat (map (\<lambda>i. e1_deletes env (ucast i)) (pa_ids (sd_pdcp (es_up s))))
     else e1_reset env s = Inl Out_of_bounds"
proof -
  let ?ids = "pa_ids (sd_pdcp (es_up s))"
  have num: "nr_pdcp_get_num_ues MAX_MOBILES_PER_GNB (sd_pdcp (es_up s)) = (int (length ?ids), take 16 ?ids)"
    by (simp add: nr_pdcp_get_num_ues_def MAX_MOBILES_PER_GNB_def nr_pdcp_manager_get_ue_count_def
        nr_pdcp_manager_get_ue_list_def pa_ids_def take_map)
  note loop = reset_loop_ok[OF assms, of "[0..<length ?ids]" "take 16 ?ids"]
  have eq: "e1_reset env s = e1_reset_loop env (take 16 ?ids) [0..<length ?ids] s" by (simp add: e1_reset_def num)
  show ?thesis
  proof (cases "length ?ids \<le> 16")
    case True
    have "(\<lambda>i. ucast (ucast (?ids ! i) :: u32) :: u64) ` {0..<length ?ids} = (!) ?ids ` {0..<length ?ids}"
      using assms(1) by (intro image_cong refl) (auto simp: e1_ok_def up_ues_def intro!: cu_ids_back)
    then have "(\<lambda>i. ucast (ucast (?ids ! i) :: u32) :: u64) ` {0..<length ?ids} = set ?ids"
      by (simp add: set_conv_nth image_def Bex_def atLeast0LessThan) blast
    moreover have "map (\<lambda>i. e1_deletes env (ucast (?ids ! i))) [0..<length ?ids] = map (\<lambda>i. e1_deletes env (ucast i)) ?ids"
      by (rule nth_equalityI) simp_all
    ultimately show ?thesis using loop True by (simp add: eq)
  next
    case False
    then have "\<not> (\<forall>i \<in> set [0..<length ?ids]. i < length (take 16 ?ids))" by auto
    then show ?thesis using loop False by (simp add: eq)
  qed
qed

definition e1_started :: "e1_state \<Rightarrow> bool" where
  "e1_started s \<longleftrightarrow> (\<exists>s0. s = nr_pdcp_e1_if_init True s0 \<and> es_ids s0 = f1_started
     \<and> sd_llist (es_up s0) = [] \<and> pm_ue_list (pa_manager (sd_pdcp (es_up s0))) = [])"

lemma e1_started_ok: "e1_started s \<Longrightarrow> e1_ok {} s"
  by (auto simp: e1_started_def nr_pdcp_e1_if_init_def e1_ok_def up_ues_def pa_ids_def sd_keys_def f1_started_reached f1_started_maps)

lemma e1_release_eq:
  assumes "e1_ok {} s" "ee_gtpInstN3 env = Some n3"
  obtains s' where "e1_bearer_release_cmd env cmd s = Inr s'" "e1_ok {} s'" "e1_without (rc_gNB_cu_up_ue_id cmd) s s'"
    "es_events s' = es_events s @ e1_deletes env (rc_gNB_cu_up_ue_id cmd)
       @ [Itti_Send TASK_CUUP_E1 TASK_CUUP_E1 (E1AP_BEARER_CONTEXT_RELEASE_CPLT
            \<lparr>cp_gNB_cu_cp_ue_id = rc_gNB_cu_cp_ue_id cmd, cp_gNB_cu_up_ue_id = rc_gNB_cu_up_ue_id cmd\<rparr>)]"
proof -
  obtain s1 where s1: "remove_ue_e1 env (rc_gNB_cu_up_ue_id cmd) s = Inr s1" "e1_ok {} s1"
    "e1_without (rc_gNB_cu_up_ue_id cmd) s s1" "es_events s1 = es_events s @ e1_deletes env (rc_gNB_cu_up_ue_id cmd)"
    using remove_ue_e1_ok[OF assms] .
  have "es_if s1 = cuup_cucp_init_e1ap" using s1(2) by (simp add: e1_ok_def)
  then show thesis
    using that[of "es_event (bearer_release_complete_e1ap \<lparr>cp_gNB_cu_cp_ue_id = rc_gNB_cu_cp_ue_id cmd,
        cp_gNB_cu_up_ue_id = rc_gNB_cu_up_ue_id cmd\<rparr>) s1"] s1
    by (simp add: e1_bearer_release_cmd_def cuup_cucp_init_e1ap_def e1_send_def c_deref_def bearer_release_complete_e1ap_def
        e1_without_def)
qed

lemma e1_step_ok:
  assumes "e1_step env s s'" "e1_ok {} s" "ee_gtpInstN3 env = Some n3"
  shows "e1_ok {} s'"
  using assms(1)
proof (cases rule: e1_step.cases)
  case (sets_up req)
  then show ?thesis using e1_setup_ok assms(2) by blast
next
  case (modifies req)
  then show ?thesis using e1_modif_ok assms(2) by blast
next
  case (releases cmd)
  then show ?thesis using e1_release_eq[OF assms(2,3), of cmd] by auto
next
  case resets
  then show ?thesis using reset_eq[OF assms(2,3)] by (auto split: if_splits)
next
  case (downlink u f b m c sdu mode src dst qfi rqi ps ret up)
  then show ?thesis using e1_data_ok[OF assms(2) up_data_sends[OF downlink(2)]] by (simp add: ctxt_of_def)
next
  case (uplink item up)
  then show ?thesis using e1_data_ok[OF assms(2) up_data_receive] by blast
next
  case (tick time up)
  have "es_pdcp_ids s \<subseteq> cu_ids" using assms(2) by (simp add: e1_ok_def up_ues_def)
  then show ?thesis using e1_data_ok[OF assms(2) up_data_tick] tick by blast
qed

lemma e1_run_ok:
  assumes "(e1_step env)\<^sup>*\<^sup>* s0 s" "e1_started s0" "ee_gtpInstN3 env = Some n3"
  shows "e1_ok {} s"
  using assms(1) by (induction rule: rtranclp_induct) (use e1_started_ok[OF assms(2)] e1_step_ok assms(3) in blast)+

text \<open>
  C9: in every run of the CU-UP - messages of E1 in any order, data in both directions, the timer - PDCP
  knows every UE that SDAP or the F1 data know, and a release command returns, takes exactly its UE out of
  the PDCP table, with all its PDU sessions out of SDAP and its entry out of the F1 data, deletes its GTP
  tunnels and answers with both identifiers of the command.
\<close>

theorem e1_release_removes_ue:
  assumes "(e1_step env)\<^sup>*\<^sup>* s0 s" "e1_started s0" "ee_gtpInstN3 env = Some n3"
  shows "fst ` dom (sdap_map (es_up s)) \<subseteq> dom (pdcp_ue_map (pa_manager (sd_pdcp (es_up s))))
    \<and> ucast ` dom (cu_map s) \<subseteq> dom (pdcp_ue_map (pa_manager (sd_pdcp (es_up s))))
    \<and> (\<exists>s'. e1_bearer_release_cmd env cmd s = Inr s' \<and> e1_without (rc_gNB_cu_up_ue_id cmd) s s'
         \<and> es_events s' = es_events s @ e1_deletes env (rc_gNB_cu_up_ue_id cmd)
             @ [Itti_Send TASK_CUUP_E1 TASK_CUUP_E1 (E1AP_BEARER_CONTEXT_RELEASE_CPLT
                  \<lparr>cp_gNB_cu_cp_ue_id = rc_gNB_cu_cp_ue_id cmd, cp_gNB_cu_up_ue_id = rc_gNB_cu_up_ue_id cmd\<rparr>)])"
proof -
  note ok = e1_run_ok[OF assms]
  obtain s' where "e1_bearer_release_cmd env cmd s = Inr s'" "e1_without (rc_gNB_cu_up_ue_id cmd) s s'"
    "es_events s' = es_events s @ e1_deletes env (rc_gNB_cu_up_ue_id cmd)
       @ [Itti_Send TASK_CUUP_E1 TASK_CUUP_E1 (E1AP_BEARER_CONTEXT_RELEASE_CPLT
            \<lparr>cp_gNB_cu_cp_ue_id = rc_gNB_cu_cp_ue_id cmd, cp_gNB_cu_up_ue_id = rc_gNB_cu_up_ue_id cmd\<rparr>)]"
    using e1_release_eq[OF ok assms(3), of cmd] .
  then show ?thesis using ok by (auto simp: e1_ok_def up_ues_def pdcp_map_dom sdap_map_dom)
qed

text \<open>
  C10: a reset of the CU-UP returns when PDCP has at most 16 UEs, and then no UE is left in PDCP, in SDAP and
  in the F1 data, and the tunnels of each are deleted. With more UEs it reads behind its array, as
  \<open>nr_pdcp_get_num_ues\<close> answers how many UEs there are and not how many it has written.
\<close>

theorem e1_reset_removes_all:
  assumes "(e1_step env)\<^sup>*\<^sup>* s0 s" "e1_started s0" "ee_gtpInstN3 env = Some n3"
  shows "if length (pm_ue_list (pa_manager (sd_pdcp (es_up s)))) \<le> 16
     then \<exists>s'. e1_reset env s = Inr s' \<and> pm_ue_list (pa_manager (sd_pdcp (es_up s'))) = [] \<and> sd_llist (es_up s') = []
       \<and> cu_map s' = Map.empty
       \<and> es_events s' = es_events s @ concat (map (\<lambda>ue. e1_deletes env (ucast (pu_id ue))) (pm_ue_list (pa_manager (sd_pdcp (es_up s)))))
     else e1_reset env s = Inl Out_of_bounds"
proof -
  note ok = e1_run_ok[OF assms]
  have empty: "pm_ue_list (pa_manager (sd_pdcp (es_up s'))) = [] \<and> sd_llist (es_up s') = [] \<and> cu_map s' = Map.empty"
    if "e1_ok {} s'" "es_pdcp_ids s' = {}" for s'
    using that by (auto simp: e1_ok_def up_ues_def pa_ids_def sd_keys_def)
  show ?thesis using reset_eq[OF ok assms(3)] empty by (auto simp: pa_ids_def comp_def split: if_splits)
qed

section \<open>From the setup request to the data\<close>

lemma up_linked_start_tx:
  assumes "up_linked lk s r sock0 c" "start_sdap_tun_ue (lk_si lk) (lk_ps lk) sock s = Inr s'"
  shows "up_linked lk s' r sock0 c"
proof -
  obtain e where e: "sdap_map s (lk_si lk, lk_ps lk) = Some e" "sdap_ok s"
    using assms(1) by (auto simp: up_linked_def up_sides_ok_def)
  obtain k where k: "nr_sdap_get_entity (sd_llist s) (lk_si lk) (lk_ps lk) = Some k" "sd_entity k s = e"
    "k < length (sd_llist s)" "sdap_key e = (lk_si lk, lk_ps lk)" using sdap_map_get[OF e(1)] .
  let ?e = "e\<lparr>se_pdusession_sock := sock, se_stop_thread := False\<rparr>"
  have s': "s' = sd_put k ?e s" using assms(2) by (auto simp: start_sdap_tun_ue_def k rbind_eq_Inr)
  have ok: "sdap_entity_ok e" "sdap_key ?e = (lk_si lk, lk_ps lk)" "sdap_entity_ok ?e"
    using e(2) k by (auto simp: sdap_ok_def sd_entity_def sdap_key_def sdap_entity_ok_def)
  have m: "sdap_ok s'" "sdap_map s' (lk_si lk, lk_ps lk) = Some ?e" "sd_pdcp s' = sd_pdcp s"
    using sdap_put[OF e(2) k(3), of ?e] ok k(2,4) by (simp_all add: s')
  have "up_tx_ok lk ?e tx = up_tx_ok lk e tx" for tx
    by (simp add: up_tx_ok_def sdap_bearer_def sdap_has_header_def sdap_rule_def)
  then show ?thesis using assms(1) m e(1) by (auto simp: up_linked_def up_sides_ok_def)
qed

text \<open>The SDAP part of the configuration the handler builds.\<close>

lemma drb_config_e1_parts:
  assumes "ds_qosFlows drb = [q]" "c_int (bs_defaultDRB (ds_sdap_config drb)) = 1"
  obtains pc d c where "da_pdcp_Config (drb_config_e1 pdu drb) = Some pc" "xc_drb pc = Some d"
    "da_cnAssociation (drb_config_e1 pdu drb) = Cn_Sdap (Some c)" "sc_mappedQoS_FlowsToAdd c = Some [q]" "sc_defaultDRB c"
    "sc_pdu_Session c = ss_sessionId pdu" "da_drb_Identity (drb_config_e1 pdu drb) = ds_id drb"
proof -
  let ?a = "drb_config_e1 pdu drb"
  let ?pc = "the (da_pdcp_Config ?a)" and ?c = "case da_cnAssociation ?a of Cn_Sdap x \<Rightarrow> the x"
  show thesis by (rule that[of ?pc "the (xc_drb ?pc)" ?c]) (simp_all add: drb_config_e1_def Let_def assms)
qed

lemma setup_one_session:
  assumes "e1_bearer_context_setup env req s0 = Inr s" "e1_ok {} s0" "ee_gtpInstN3 env = Some n3"
    "rq_pduSession req = [pdu]" "ss_DRBnGRanList pdu = [drb]"
  obtains f1u evs where "add_drb (e1_pdcp_env env s) True (ucast (rq_gNB_cu_cp_ue_id req)) (drb_config_e1 pdu drb)
       (e1_security (rq_secInfo req)) (es_up s0) = Inr (es_up s)"
    "pe_f1_secondary_ue (e1_pdcp_env env s) (ucast (rq_gNB_cu_cp_ue_id req)) \<noteq> None"
    "es_events s = es_events s0 @ Create_Ngu_Tunnel n3 (e1_n3_req (rq_gNB_cu_cp_ue_id req) pdu drb) Cb_Nr_Pdcp_Data_Req_Drb True
       # evs @ [Itti_Send TASK_CUUP_E1 TASK_CUUP_E1 (E1AP_BEARER_CONTEXT_SETUP_RESP
            \<lparr>rs_gNB_cu_cp_ue_id = rq_gNB_cu_cp_ue_id req, rs_gNB_cu_up_ue_id = rq_gNB_cu_cp_ue_id req,
             rs_pduSession = [e1_session_answer (snd (ee_create_ngu_tunnel env (es_events s0) n3
               (e1_n3_req (rq_gNB_cu_cp_ue_id req) pdu drb))) pdu drb f1u]\<rparr>)]"
proof -
  let ?u = "rq_gNB_cu_cp_ue_id req"
  obtain s1 r s2 g where s1: "e1_mirror_ue ?u s0 = Inr s1" "e1_setup_session env req n3 pdu s1 = Inr (r, s2)"
    "ei_bearer_setup_response (es_if s2) = Some g"
    "s = es_event (g \<lparr>rs_gNB_cu_cp_ue_id = ?u, rs_gNB_cu_up_ue_id = ?u, rs_pduSession = [r]\<rparr>) s2"
    using assms(1) by (auto simp: e1_bearer_context_setup_def rbind_eq_Inr e1_send_eq assms(4) get_n3_gtp_instance_def assms(3))
  note m = e1_mirror_ok[OF s1(1) assms(2)]
  obtain drb' up f1u evs where e: "ss_DRBnGRanList pdu = [drb']"
    "add_drb (e1_pdcp_env env s1) True (ucast ?u) (drb_config_e1 pdu drb') (e1_security (rq_secInfo req)) (es_up s1) = Inr up"
    "s2 = s1\<lparr>es_up := up, es_events := es_events s1 @ Create_Ngu_Tunnel n3 (e1_n3_req ?u pdu drb') Cb_Nr_Pdcp_Data_Req_Drb True # evs\<rparr>"
    "r = e1_session_answer (snd (ee_create_ngu_tunnel env (es_events s1) n3 (e1_n3_req ?u pdu drb'))) pdu drb' f1u"
    by (rule setup_session_eq[OF s1(2)])
  have drb: "drb' = drb" using e(1) assms(5) by simp
  have same: "e1_pdcp_env env s = e1_pdcp_env env s1" by (simp add: e1_pdcp_env_def s1(4) e(3))
  have g: "g = bearer_setup_response_e1ap" using s1(3) m(1) by (simp add: e(3) e1_ok_def cuup_cucp_init_e1ap_def)
  show thesis
  proof (rule that)
    show "add_drb (e1_pdcp_env env s) True (ucast ?u) (drb_config_e1 pdu drb) (e1_security (rq_secInfo req)) (es_up s0)
        = Inr (es_up s)" using e(2) m(2) by (simp add: same drb) (simp add: s1(4) e(3))
    show "pe_f1_secondary_ue (e1_pdcp_env env s) (ucast ?u) \<noteq> None" unfolding same using m(5) by (simp add: e1_pdcp_env_def)
    show "es_events s = es_events s0 @ Create_Ngu_Tunnel n3 (e1_n3_req ?u pdu drb) Cb_Nr_Pdcp_Data_Req_Drb True
       # evs @ [Itti_Send TASK_CUUP_E1 TASK_CUUP_E1 (E1AP_BEARER_CONTEXT_SETUP_RESP
            \<lparr>rs_gNB_cu_cp_ue_id = ?u, rs_gNB_cu_up_ue_id = ?u, rs_pduSession = [e1_session_answer
              (snd (ee_create_ngu_tunnel env (es_events s0) n3 (e1_n3_req ?u pdu drb))) pdu drb f1u]\<rparr>)]"
      using m(3) by (simp add: s1(4) e(3,4) drb g bearer_setup_response_e1ap_def)
  qed
qed

text \<open>
  C3: from the setup request to the data. The CU-UP, in any state it can reach, accepts a request with one
  PDU session for a UE that has neither the session nor the bearer, and the UE adds the bearer with the same
  configuration. Then every sequence of SDUs of 1 to 8999 bytes reaches the tunnel interface of the UE when
  the core sends it, and the N3 tunnel of the session when the UE sends it, unchanged and in order. The
  response carries the identifiers of the request and the address and TEID that GTP answered for the tunnel.
\<close>

theorem e1_setup_end_to_end:
  assumes run: "(e1_step env)\<^sup>*\<^sup>* s00 s0" "e1_started s00" "ee_gtpInstN3 env = Some n3"
    and req: "e1_bearer_context_setup env req s0 = Inr s" "rq_pduSession req = [pdu]" "ss_DRBnGRanList pdu = [drb]"
      "ds_qosFlows drb = [q]" "0 < q" "q < 64" "c_int (bs_defaultDRB (ds_sdap_config drb)) = 1"
    and ue: "add_drb env' False ri (drb_config_e1 pdu drb) (e1_security (rq_secInfo req)) r0 = Inr r1"
      "start_sdap_tun_ue ri (ss_sessionId pdu) sock r1 = Inr r"
    and fresh: "up_fresh (ucast (rq_gNB_cu_cp_ue_id req)) (ss_sessionId pdu) (ds_id drb) (es_up s0)"
      "up_fresh ri (ss_sessionId pdu) (ds_id drb) r0"
    and envs: "crypto_ok (pe_crypto (ee_pdcp env))" "pe_crypto env' = pe_crypto (ee_pdcp env)" "\<not> pe_use_tun (ee_pdcp env)"
      "sd_N3GTPUInst (es_up s0) = Some inst"
    and sdus: "\<forall>sdu \<in> set sdus. sdu \<noteq> [] \<and> length sdu \<le> 8999" "length sdus < 2 ^ 32"
  shows "(\<exists>s' r'. up_relay (e1_pdcp_env env s) env' \<lparr>lk_gnb = True, lk_si = ucast (rq_gNB_cu_cp_ue_id req), lk_ri = ri,
            lk_ps = ss_sessionId pdu, lk_qfi = word_of_int q, lk_drb = ds_id drb\<rparr> b sdus (es_up s, r) = Inr (s', r')
          \<and> sd_events r' = sd_events r0 @ map (Tun_Write sock) sdus)
     \<and> (\<exists>r' s'. up_relay env' (e1_pdcp_env env s) \<lparr>lk_gnb = False, lk_si = ri, lk_ri = ucast (rq_gNB_cu_cp_ue_id req),
            lk_ps = ss_sessionId pdu, lk_qfi = word_of_int q, lk_drb = ds_id drb\<rparr> b sdus (r, es_up s) = Inr (r', s')
          \<and> sd_events s' = sd_events (es_up s0)
              @ map (Gtpu_Send inst (ucast (rq_gNB_cu_cp_ue_id req)) (ss_sessionId pdu)) sdus)
     \<and> (\<exists>f1u evs. es_events s = es_events s0
          @ Create_Ngu_Tunnel n3 (e1_n3_req (rq_gNB_cu_cp_ue_id req) pdu drb) Cb_Nr_Pdcp_Data_Req_Drb True # evs
          @ [Itti_Send TASK_CUUP_E1 TASK_CUUP_E1 (E1AP_BEARER_CONTEXT_SETUP_RESP
              \<lparr>rs_gNB_cu_cp_ue_id = rq_gNB_cu_cp_ue_id req, rs_gNB_cu_up_ue_id = rq_gNB_cu_cp_ue_id req,
               rs_pduSession = [e1_session_answer (snd (ee_create_ngu_tunnel env (es_events s0) n3
                 (e1_n3_req (rq_gNB_cu_cp_ue_id req) pdu drb))) pdu drb f1u]\<rparr>)])"
proof -
  let ?i = "ucast (rq_gNB_cu_cp_ue_id req) :: u64" and ?env = "e1_pdcp_env env s" and ?a = "drb_config_e1 pdu drb"
  obtain pc d c where cfg: "da_pdcp_Config ?a = Some pc" "xc_drb pc = Some d" "da_cnAssociation ?a = Cn_Sdap (Some c)"
    "sc_mappedQoS_FlowsToAdd c = Some [q]" "sc_defaultDRB c"
    and ids: "sc_pdu_Session c = ss_sessionId pdu" "da_drb_Identity ?a = ds_id drb"
    by (rule drb_config_e1_parts[OF req(4,7)])
  obtain f1u evs where cu: "add_drb ?env True ?i ?a (e1_security (rq_secInfo req)) (es_up s0) = Inr (es_up s)"
    "pe_f1_secondary_ue ?env ?i \<noteq> None"
    and events: "es_events s = es_events s0
          @ Create_Ngu_Tunnel n3 (e1_n3_req (rq_gNB_cu_cp_ue_id req) pdu drb) Cb_Nr_Pdcp_Data_Req_Drb True # evs
          @ [Itti_Send TASK_CUUP_E1 TASK_CUUP_E1 (E1AP_BEARER_CONTEXT_SETUP_RESP
              \<lparr>rs_gNB_cu_cp_ue_id = rq_gNB_cu_cp_ue_id req, rs_gNB_cu_up_ue_id = rq_gNB_cu_cp_ue_id req,
               rs_pduSession = [e1_session_answer (snd (ee_create_ngu_tunnel env (es_events s0) n3
                 (e1_n3_req (rq_gNB_cu_cp_ue_id req) pdu drb))) pdu drb f1u]\<rparr>)]"
    by (rule setup_one_session[OF req(1) e1_run_ok[OF run] run(3) req(2,3)])
  define dl where "dl = \<lparr>lk_gnb = True, lk_si = ?i, lk_ri = ri, lk_ps = sc_pdu_Session c, lk_qfi = word_of_int q,
      lk_drb = da_drb_Identity ?a\<rparr>"
  define ul where "ul = \<lparr>lk_gnb = False, lk_si = ri, lk_ri = ?i, lk_ps = sc_pdu_Session c, lk_qfi = word_of_int q,
      lk_drb = da_drb_Identity ?a\<rparr>"
  note f = fresh[folded ids]
  have not: "add_drb env' (\<not> True) ri ?a (e1_security (rq_secInfo req)) r0 = Inr r1"
    "add_drb ?env (\<not> False) ?i ?a (e1_security (rq_secInfo req)) (es_up s0) = Inr (es_up s)" using ue(1) cu(1) by simp_all
  note down = up_linked_setup[OF cfg(1-4) req(5,6) cfg(5) cu(1) not(1) f dl_def]
  note up = up_linked_setup[OF cfg(1-4) req(5,6) cfg(5) ue(1) not(2) f(2,1) ul_def]
  have dl: "up_linked dl (es_up s) r sock 0 \<and> sd_events r = sd_events r0"
    using up_linked_start[OF down(1), of sock r] ue(2) down(2) by (simp add: dl_def ids)
  have ul: "up_linked ul r (es_up s) (-1) 0"
    by (rule up_linked_start_tx[OF up(1)]) (use ue(2) in \<open>simp add: ul_def ids\<close>)
  have env: "up_env_ok dl ?env env'" "up_env_ok ul env' ?env"
    using envs cu(2) by (simp_all add: up_env_ok_def dl_def ul_def e1_pdcp_env_def)
  have len: "uint (0 :: u32) + int (length sdus) < 2 ^ 32" using sdus(2) by simp
  have inst: "\<not> lk_gnb dl \<longrightarrow> sd_N3GTPUInst r = Some inst" "\<not> lk_gnb ul \<longrightarrow> sd_N3GTPUInst (es_up s) = Some inst"
    using up(3) envs(4) by (simp_all add: dl_def)
  have ev: "lk_event dl sock inst = Tun_Write sock" "lk_event ul (-1) inst = Gtpu_Send inst ?i (ss_sessionId pdu)"
    by (simp_all add: fun_eq_iff lk_event_def dl_def ul_def ids)
  have l: "dl = \<lparr>lk_gnb = True, lk_si = ?i, lk_ri = ri, lk_ps = ss_sessionId pdu, lk_qfi = word_of_int q, lk_drb = ds_id drb\<rparr>"
    "ul = \<lparr>lk_gnb = False, lk_si = ri, lk_ri = ?i, lk_ps = ss_sessionId pdu, lk_qfi = word_of_int q, lk_drb = ds_id drb\<rparr>"
    by (simp_all add: dl_def ul_def ids)
  note d = up_run[OF env(1) conjunct1[OF dl] sdus(1) len inst(1), of b, unfolded ev, unfolded l]
  note u = up_run[OF env(2) ul sdus(1) len inst(2), of b, unfolded ev, unfolded l]
  show ?thesis
    using d u dl events unfolding up(2) by auto
qed

section \<open>Concrete runs\<close>

definition e1_example_env :: e1_env where
  "e1_example_env = \<lparr>ee_pdcp = up_example_env, ee_gtpInstN3 = Some 1, ee_gtpInstF1 = None,
     ee_create_ngu_tunnel = (\<lambda>evs inst req. (0, \<lparr>gr_num_tunnels = 1, gr_gnb_NGu_teid = 77, gr_gnb_addr = 5\<rparr>))\<rparr>"

definition e1_example_drb :: drb_ngran_to_setup where
  "e1_example_drb = \<lparr>ds_id = 1, ds_sdap_config = \<lparr>bs_defaultDRB = 1, bs_sDAP_Header_UL = 0, bs_sDAP_Header_DL = 0\<rparr>,
     ds_pdcp_config = \<lparr>bp_pDCP_SN_Size_UL = 1, bp_pDCP_SN_Size_DL = 1, bp_reorderingTimer = 10, bp_discardTimer = 7,
       bp_pDCP_Reestablishment = False\<rparr>, ds_qosFlows = [9]\<rparr>"

definition e1_example_session :: pdu_session_to_setup where
  "e1_example_session = \<lparr>ss_sessionId = 10, ss_securityIndication = \<lparr>sx_integrityProtectionIndication = SECURITY_REQUIRED,
       sx_confidentialityProtectionIndication = SECURITY_REQUIRED\<rparr>,
     ss_UP_TL_information = \<lparr>tl_tlAddress = 6, tl_teId = 88\<rparr>, ss_DRBnGRanList = [e1_example_drb]\<rparr>"

definition e1_example_req :: "u32 \<Rightarrow> e1ap_bearer_setup_req" where
  "e1_example_req u = \<lparr>rq_gNB_cu_cp_ue_id = u, rq_secInfo = \<lparr>si_cipheringAlgorithm = 2, si_integrityProtectionAlgorithm = 2,
     si_encryptionKey = [7], si_integrityProtectionKey = [9]\<rparr>, rq_pduSession = [e1_example_session]\<rparr>"

definition e1_example_start :: e1_state where
  "e1_example_start = nr_pdcp_e1_if_init True \<lparr>es_up = up_empty (Some 1), es_ids = f1_started,
     es_if = \<lparr>ei_bearer_setup_response = None, ei_bearer_modif_response = None, ei_bearer_release_complete = None\<rparr>,
     es_uses_e1 = False, es_events = []\<rparr>"

lemma e1_example_config: "drb_config_e1 e1_example_session e1_example_drb = up_example"
  "e1_security (rq_secInfo (e1_example_req u)) = up_example_keys"
  by (simp_all add: drb_config_e1_def e1_example_session_def e1_example_drb_def up_example_def up_example_pdcp_def
      up_example_drb_def up_example_sdap_def c_int_def e1_security_def e1_example_req_def up_example_keys_def)

lemma e1_example_started: "e1_started e1_example_start" "es_up e1_example_start = up_empty (Some 1)"
  by (simp add: e1_started_def, rule exI[of _ e1_example_start])
    (simp_all add: e1_example_start_def nr_pdcp_e1_if_init_def up_empty_def new_nr_pdcp_ue_manager_def)

lemma e1_example_set_up:
  obtains s where "e1_bearer_context_setup e1_example_env (e1_example_req u) e1_example_start = Inr s"
proof -
  let ?s0 = e1_example_start and ?d = "\<lparr>fd_secondary_ue = u, fd_e1_assoc_id = 0, fd_du_assoc_id = 0\<rparr>"
  have cu: "f1_ok (fi_cu2du_ue_mapping f1_started)" using f1_reached_ok[OF f1_started_reached] by (simp add: f1_ids_ok_def)
  obtain h' where h': "f1_add (fi_cu2du_ue_mapping f1_started) u ?d = Inr (True, h')"
    using f1_add_eq[OF cu, of u ?d] by (auto simp: f1_started_maps)
  let ?s1 = "?s0\<lparr>es_ids := f1_started\<lparr>fi_cu2du_ue_mapping := h'\<rparr>\<rparr>"
  have m: "e1_mirror_ue u ?s0 = Inr ?s1"
    using h' by (simp add: e1_mirror_ue_def e1_example_start_def nr_pdcp_e1_if_init_def cu_exists_f1_ue_data_def
        f1_exists_eq[OF cu] f1_started_maps cu_add_f1_ue_data_def)
  obtain up where up: "add_drb (e1_pdcp_env e1_example_env (es_event ev ?s1)) True (ucast u) up_example up_example_keys (up_empty (Some 1))
      = Inr up" for ev
  proof -
    have "e1_pdcp_env e1_example_env (es_event ev ?s1) = e1_pdcp_env e1_example_env ?s1" for ev by (simp add: e1_pdcp_env_def)
    then show thesis using that up_example_added by metis
  qed
  have l: "ss_DRBnGRanList e1_example_session = [e1_example_drb]" "ds_qosFlows e1_example_drb = [9]" "ee_gtpInstN3 e1_example_env = Some 1"
    "ee_gtpInstF1 e1_example_env = None" "rq_pduSession (e1_example_req u) = [e1_example_session]" "rq_gNB_cu_cp_ue_id (e1_example_req u) = u"
    by (simp_all add: e1_example_session_def e1_example_drb_def e1_example_req_def e1_example_env_def)
  have "\<exists>r s2. e1_setup_session e1_example_env (e1_example_req u) 1 e1_example_session ?s1 = Inr (r, s2) \<and> es_if s2 = cuup_cucp_init_e1ap"
    by (simp add: e1_setup_session_def l drb_gtpu_create_def e1_example_env_def[THEN arg_cong[where f = ee_create_ngu_tunnel]]
        fill_DRB_configList_e1_def e1_example_config up e1_setup_f1u_def get_f1_gtp_instance_def Let_def e1_example_started)
      (simp add: e1_example_start_def nr_pdcp_e1_if_init_def)
  then obtain r s2 where r: "e1_setup_session e1_example_env (e1_example_req u) 1 e1_example_session ?s1 = Inr (r, s2)"
    "es_if s2 = cuup_cucp_init_e1ap" by blast
  then show thesis
    using that by (simp add: e1_bearer_context_setup_def l m get_n3_gtp_instance_def e1_send_def c_deref_def cuup_cucp_init_e1ap_def)
qed

lemma e1_example_step:
  assumes "e1_bearer_context_setup e1_example_env (e1_example_req u) e1_example_start = Inr s"
  shows "(e1_step e1_example_env)\<^sup>*\<^sup>* e1_example_start s"
  using e1_step.sets_up[OF _ assms] by (simp add: e1_example_req_def)

lemma e1_example_ue:
  assumes "e1_bearer_context_setup e1_example_env (e1_example_req u) e1_example_start = Inr s"
  shows "pa_ids (sd_pdcp (es_up s)) = [ucast u]"
proof -
  have l: "rq_pduSession (e1_example_req u) = [e1_example_session]" "ss_DRBnGRanList e1_example_session = [e1_example_drb]"
    "ee_gtpInstN3 e1_example_env = Some 1" "rq_gNB_cu_cp_ue_id (e1_example_req u) = u"
    by (simp_all add: e1_example_session_def e1_example_req_def e1_example_env_def)
  obtain f1u evs where add: "add_drb (e1_pdcp_env e1_example_env s) True (ucast u) up_example up_example_keys (up_empty (Some 1)) = Inr (es_up s)"
    by (rule setup_one_session[OF assms e1_started_ok[OF e1_example_started(1)] l(3,1,2),
          unfolded l(4) e1_example_config e1_example_started(2)])
  have "set (pa_ids (sd_pdcp (es_up s))) = {ucast u}" "distinct (pa_ids (sd_pdcp (es_up s)))"
    using add_drb_ues(1)[OF add, of "{ucast u}"] add_drb_ues(3)[OF add, of cu_ids up_example_pdcp up_example_drb]
    by (auto simp: ues_grow_def pa_ids_def up_empty_def new_nr_pdcp_ue_manager_def up_example_def up_example_pdcp_def)
  then show ?thesis by (cases "pa_ids (sd_pdcp (es_up s))") (auto simp: subset_singleton_iff)
qed

theorem e1_release_removes_ue_witness:
  "\<exists>s s'. e1_bearer_context_setup e1_example_env (e1_example_req 4) e1_example_start = Inr s
     \<and> pdcp_ue_map (pa_manager (sd_pdcp (es_up s))) 4 \<noteq> None
     \<and> e1_bearer_release_cmd e1_example_env \<lparr>rc_gNB_cu_cp_ue_id = 4, rc_gNB_cu_up_ue_id = 4\<rparr> s = Inr s'
     \<and> pdcp_ue_map (pa_manager (sd_pdcp (es_up s'))) 4 = None \<and> sdap_map (es_up s') (4, 10) = None \<and> cu_map s' 4 = None"
proof -
  obtain s where s: "e1_bearer_context_setup e1_example_env (e1_example_req 4) e1_example_start = Inr s"
    by (rule e1_example_set_up)
  have n3: "ee_gtpInstN3 e1_example_env = Some 1" by (simp add: e1_example_env_def)
  have "4 \<in> dom (pdcp_ue_map (pa_manager (sd_pdcp (es_up s))))" by (simp add: pdcp_map_dom e1_example_ue[OF s])
  then show ?thesis
    using e1_release_removes_ue[OF e1_example_step[OF s] e1_example_started(1) n3,
        of "\<lparr>rc_gNB_cu_cp_ue_id = 4, rc_gNB_cu_up_ue_id = 4\<rparr>"] s
    by (auto simp: e1_without_def)
qed

text \<open>PDUs for UEs that PDCP does not know yet create them, so 17 UEs are reached.\<close>

lemma e1_example_more_ues:
  "n < 2 ^ 32 \<Longrightarrow> \<exists>s. (e1_step e1_example_env)\<^sup>*\<^sup>* e1_example_start s \<and> pa_ids (sd_pdcp (es_up s)) = map of_nat [0..<n]"
proof (induction n)
  case 0
  have "pa_ids (sd_pdcp (es_up e1_example_start)) = []"
    by (simp add: e1_example_started(2) up_empty_def pa_ids_def new_nr_pdcp_ue_manager_def)
  then show ?case by auto
next
  case (Suc n)
  then obtain s where s: "(e1_step e1_example_env)\<^sup>*\<^sup>* e1_example_start s" "pa_ids (sd_pdcp (es_up s)) = map of_nat [0..<n]"
    by auto
  let ?i = "of_nat n :: u64"
  let ?item = "\<lparr>pi_ctxt = ctxt_of True ?i, pi_srb_flag = True, pi_rb_id = 0, pi_sdu = []\<rparr>"
  obtain k p where kp: "pa_get_ue ?i (sd_pdcp (es_up s)) = (k, p)" by fastforce
  have get: "do_pdcp_data_ind (e1_pdcp_env e1_example_env s) ?item (es_up s) = Inr ((es_up s)\<lparr>sd_pdcp := p\<rparr>)"
    by (simp add: do_pdcp_data_ind_def Let_def up_with_rb_def ctxt_of_def kp nr_pdcp_get_rb_def)
  have "?i = ucast (of_nat n :: u32)"
    using Suc.prems by (simp add: word_uint_eq_iff unsigned_ucast_eq take_bit_nat_eq_self unsigned_of_nat take_bit_of_nat)
  then have id: "pc_rntiMaybeUEid (pi_ctxt ?item) \<in> cu_ids" by (simp add: ctxt_of_def)
  have inj: "x = n" if "(of_nat x :: u64) = ?i" "x < n" for x
  proof -
    have "n < 2 ^ 64" "x < 2 ^ 64" using Suc.prems that(2) by simp_all
    then show ?thesis using arg_cong[OF that(1), of unat] by (simp only: unsigned_of_nat) (simp add: take_bit_nat_eq_self)
  qed
  then have new: "?i \<notin> of_nat ` {0..<n}" by fastforce
  then have "pa_ids p = map of_nat [0..<Suc n]" using pa_get_ue_ids(1)[OF kp] by (simp add: s(2) pa_add_def)
  then show ?case using rtranclp.rtrancl_into_rtrancl[OF s(1) e1_step.uplink[OF get id]] by auto
qed

theorem e1_reset_removes_all_witness:
  "(\<exists>s s'. e1_bearer_context_setup e1_example_env (e1_example_req 4) e1_example_start = Inr s
       \<and> pm_ue_list (pa_manager (sd_pdcp (es_up s))) \<noteq> []
       \<and> e1_reset e1_example_env s = Inr s' \<and> pm_ue_list (pa_manager (sd_pdcp (es_up s'))) = [] \<and> cu_map s' = Map.empty)
   \<and> (\<exists>s. (e1_step e1_example_env)\<^sup>*\<^sup>* e1_example_start s \<and> length (pm_ue_list (pa_manager (sd_pdcp (es_up s)))) = 17
       \<and> e1_reset e1_example_env s = Inl Out_of_bounds)"
proof
  have n3: "ee_gtpInstN3 e1_example_env = Some 1" by (simp add: e1_example_env_def)
  obtain s where s: "e1_bearer_context_setup e1_example_env (e1_example_req 4) e1_example_start = Inr s"
    by (rule e1_example_set_up)
  have "length (pm_ue_list (pa_manager (sd_pdcp (es_up s)))) = 1"
    using arg_cong[OF e1_example_ue[OF s], of length] by (simp add: pa_ids_def)
  then show "\<exists>s s'. e1_bearer_context_setup e1_example_env (e1_example_req 4) e1_example_start = Inr s
       \<and> pm_ue_list (pa_manager (sd_pdcp (es_up s))) \<noteq> []
       \<and> e1_reset e1_example_env s = Inr s' \<and> pm_ue_list (pa_manager (sd_pdcp (es_up s'))) = [] \<and> cu_map s' = Map.empty"
    using e1_reset_removes_all[OF e1_example_step[OF s] e1_example_started(1) n3] s by auto
  obtain s2 where s2: "(e1_step e1_example_env)\<^sup>*\<^sup>* e1_example_start s2" "pa_ids (sd_pdcp (es_up s2)) = map of_nat [0..<17]"
    using e1_example_more_ues[of 17] by auto
  have "length (pm_ue_list (pa_manager (sd_pdcp (es_up s2)))) = 17"
    using arg_cong[OF s2(2), of length] by (simp add: pa_ids_def)
  then show "\<exists>s. (e1_step e1_example_env)\<^sup>*\<^sup>* e1_example_start s \<and> length (pm_ue_list (pa_manager (sd_pdcp (es_up s)))) = 17
       \<and> e1_reset e1_example_env s = Inl Out_of_bounds"
    using e1_reset_removes_all[OF s2(1) e1_example_started(1) n3] s2(1) by auto
qed

theorem e1_setup_end_to_end_witness:
  "\<exists>s r r1 s' r'. e1_bearer_context_setup e1_example_env (e1_example_req 4) e1_example_start = Inr s
     \<and> add_drb up_example_env False 5 up_example up_example_keys (up_empty None) = Inr r1
     \<and> start_sdap_tun_ue 5 10 33 r1 = Inr r
     \<and> up_relay (e1_pdcp_env e1_example_env s) up_example_env
         \<lparr>lk_gnb = True, lk_si = 4, lk_ri = 5, lk_ps = 10, lk_qfi = 9, lk_drb = 1\<rparr> False [[1, 2], [3]] (es_up s, r) = Inr (s', r')
     \<and> sd_events r' = [Tun_Write 33 [1, 2], Tun_Write 33 [3]]"
proof -
  obtain s where s: "e1_bearer_context_setup e1_example_env (e1_example_req 4) e1_example_start = Inr s"
    by (rule e1_example_set_up)
  obtain r1 where r1: "add_drb up_example_env False 5 up_example up_example_keys (up_empty None) = Inr r1"
    using up_example_added by blast
  have cfg: "da_pdcp_Config up_example = Some up_example_pdcp" "xc_drb up_example_pdcp = Some up_example_drb"
    "da_cnAssociation up_example = Cn_Sdap (Some up_example_sdap)" "sc_mappedQoS_FlowsToAdd up_example_sdap = Some [9]"
    "sc_defaultDRB up_example_sdap" and ps: "sc_pdu_Session up_example_sdap = 10"
    by (simp_all add: up_example_def up_example_pdcp_def up_example_sdap_def)
  obtain e where e: "sdap_map r1 (5, 10) = Some e" "\<not> se_is_gnb e"
    using up_add_drb[OF cfg(1-4) _ _ cfg(5) r1 up_empty_fresh] ps by auto
  obtain k where "nr_sdap_get_entity (sd_llist r1) 5 10 = Some k" "sd_entity k r1 = e" using sdap_map_get[OF e(1)] .
  then obtain r where r: "start_sdap_tun_ue 5 10 33 r1 = Inr r" using e(2) by (simp add: start_sdap_tun_ue_def)
  have l: "rq_pduSession (e1_example_req 4) = [e1_example_session]" "ss_DRBnGRanList e1_example_session = [e1_example_drb]"
    "ds_qosFlows e1_example_drb = [9]" "c_int (bs_defaultDRB (ds_sdap_config e1_example_drb)) = 1"
    "ee_gtpInstN3 e1_example_env = Some 1" "ee_pdcp e1_example_env = up_example_env" "ss_sessionId e1_example_session = 10"
    "ds_id e1_example_drb = 1" "rq_gNB_cu_cp_ue_id (e1_example_req 4) = 4"
    by (simp_all add: e1_example_session_def e1_example_drb_def e1_example_req_def e1_example_env_def c_int_def)
  have ue: "add_drb up_example_env False 5 (drb_config_e1 e1_example_session e1_example_drb)
      (e1_security (rq_secInfo (e1_example_req 4))) (up_empty None) = Inr r1"
    "start_sdap_tun_ue 5 (ss_sessionId e1_example_session) 33 r1 = Inr r"
    by (simp_all only: e1_example_config r1 l r)
  have env: "crypto_ok (pe_crypto (ee_pdcp e1_example_env))" "pe_crypto up_example_env = pe_crypto (ee_pdcp e1_example_env)"
    "\<not> pe_use_tun (ee_pdcp e1_example_env)" "sd_N3GTPUInst (es_up e1_example_start) = Some 1"
    by (simp_all add: l up_example_env_def xor_crypto_ok up_empty_def e1_example_started)
  have fresh: "up_fresh i ps drb (es_up e1_example_start)" for i ps drb by (simp add: e1_example_started up_empty_fresh)
  have sdus: "\<forall>sdu \<in> set [[1, 2], [3 :: byte]]. sdu \<noteq> [] \<and> length sdu \<le> 8999" "length [[1, 2], [3 :: byte]] < 2 ^ 32" by simp_all
  obtain s' r' where "up_relay (e1_pdcp_env e1_example_env s) up_example_env \<lparr>lk_gnb = True, lk_si = ucast (4 :: u32), lk_ri = 5,
            lk_ps = 10, lk_qfi = word_of_int 9, lk_drb = 1\<rparr> False [[1, 2], [3]] (es_up s, r) = Inr (s', r')"
      "sd_events r' = sd_events (up_empty None) @ map (Tun_Write 33) [[1, 2], [3]]"
    using conjunct1[OF e1_setup_end_to_end[OF rtranclp.rtrancl_refl e1_example_started(1) l(5) s l(1-3) _ _ l(4) ue fresh
          up_empty_fresh env sdus, of False, unfolded l(7-9)]] by auto
  then show ?thesis using s r1 r by (auto simp: up_empty_def)
qed

end
